(* ===== verification/Prelude.thy ===== *)
theory Prelude
  imports Main "HOL-Library.Word" "HOL-Library.Char_ord" "HOL-Library.List_Lexorder"
begin

text \<open>
  Shared vocabulary of the development: Rust's \<open>str\<close> and byte-slice operations as the pod
  code uses them, the \<open>Result\<close> combinators, unsigned 64-bit integers, and the generic lemmas
  the component theories rest on.

  A Rust \<open>String\<close> is its sequence of UTF-8 bytes, and so is a HOL \<open>string\<close> here: one
  \<open>char\<close> is one byte. Searching, splitting and trimming by an ASCII character is the same on
  bytes and on code points. Where the standard library works on code points the model decodes:
  \<open>char::is_whitespace\<close> recognises the multi-byte encodings of Unicode \<open>White_Space\<close>, and
  \<open>str::from_utf8\<close> is the UTF-8 well-formedness check.
\<close>

named_theorems str_simps \<open>equations for the string operations\<close>
named_theorems wac_simps \<open>unfolding rules of the access-control components\<close>
named_theorems ldp_simps \<open>unfolding rules of the LDP components\<close>
named_theorems srv_simps \<open>unfolding rules of the server handlers\<close>

type_synonym bytes = string
type_synonym u64 = "64 word"
type_synonym u32 = "32 word"
type_synonym u16 = "16 word"
type_synonym u8 = "8 word"

section \<open>Result values\<close>

definition rbind :: "'e + 'a \<Rightarrow> ('a \<Rightarrow> 'e + 'b) \<Rightarrow> 'e + 'b" where
  "rbind r f = (case r of Inl e \<Rightarrow> Inl e | Inr a \<Rightarrow> f a)"

definition ok_or :: "'a option \<Rightarrow> 'e \<Rightarrow> 'e + 'a" where
  "ok_or x e = (case x of None \<Rightarrow> Inl e | Some a \<Rightarrow> Inr a)"

definition unwrap_or :: "'a option \<Rightarrow> 'a \<Rightarrow> 'a" where
  "unwrap_or x d = (case x of None \<Rightarrow> d | Some a \<Rightarrow> a)"

definition or_else :: "'a option \<Rightarrow> 'a option \<Rightarrow> 'a option" where
  "or_else x y = (case x of None \<Rightarrow> y | Some a \<Rightarrow> Some a)"

definition is_ok :: "'e + 'a \<Rightarrow> bool" where
  "is_ok r = (case r of Inl e \<Rightarrow> False | Inr a \<Rightarrow> True)"

text \<open>The \<open>?\<close> operator in code that has mutated its state: an error returns with the state as it is.\<close>

definition try_with :: "'s \<Rightarrow> 'e + 'a \<Rightarrow> ('a \<Rightarrow> 's \<times> ('e + 'b)) \<Rightarrow> 's \<times> ('e + 'b)" where
  "try_with s r k = (case r of Inl e \<Rightarrow> (s, Inl e) | Inr a \<Rightarrow> k a)"

definition and_then :: "'s \<times> ('e + 'a) \<Rightarrow> ('s \<Rightarrow> 'a \<Rightarrow> 's \<times> ('e + 'b)) \<Rightarrow> 's \<times> ('e + 'b)" where
  "and_then sr k = (case sr of (s, Inl e) \<Rightarrow> (s, Inl e) | (s, Inr a) \<Rightarrow> k s a)"

lemma try_with_simps [simp]: "try_with s (Inl e) k = (s, Inl e)" "try_with s (Inr a) k = k a"
  by (simp_all add: try_with_def)

lemma and_then_simps [simp]: "and_then (s, Inl e) k = (s, Inl e)" "and_then (s, Inr a) k = k s a"
  by (simp_all add: and_then_def)

lemma and_then_Inr_conv: "and_then sr k = (s', Inr b) \<longleftrightarrow> (\<exists>s1 a. sr = (s1, Inr a) \<and> k s1 a = (s', Inr b))"
  by (cases sr; cases "snd sr") auto

lemma rbind_simps [simp]: "rbind (Inl e) f = Inl e" "rbind (Inr a) f = f a"
  by (simp_all add: rbind_def)

lemma rbind_Inr_conv: "rbind r f = Inr b \<longleftrightarrow> (\<exists>a. r = Inr a \<and> f a = Inr b)"
  by (cases r) auto

lemma rbind_Inl_conv: "rbind r f = Inl e \<longleftrightarrow> r = Inl e \<or> (\<exists>a. r = Inr a \<and> f a = Inl e)"
  by (cases r) auto

lemma ok_or_simps [simp]: "ok_or None e = Inl e" "ok_or (Some a) e = Inr a"
  by (simp_all add: ok_or_def)

lemma ok_or_Inr_conv: "ok_or v e = Inr a \<longleftrightarrow> v = Some a"
  by (cases v) auto

lemma if_Inl_Inr_conv: "(if c then Inl e else r) = Inr a \<longleftrightarrow> \<not> c \<and> r = Inr a"
  by simp

definition map_err :: "('e \<Rightarrow> 'f) \<Rightarrow> 'e + 'a \<Rightarrow> 'f + 'a" where
  "map_err f r = (case r of Inl e \<Rightarrow> Inl (f e) | Inr a \<Rightarrow> Inr a)"

lemma map_err_simps [simp]: "map_err f (Inl e) = Inl (f e)" "map_err f (Inr a) = Inr a"
  by (simp_all add: map_err_def)

lemma map_err_Inr_conv [simp]: "map_err f r = Inr a \<longleftrightarrow> r = Inr a"
  by (cases r) auto

lemma unwrap_or_simps [simp]: "unwrap_or None d = d" "unwrap_or (Some a) d = a"
  by (simp_all add: unwrap_or_def)

lemma or_else_simps [simp]: "or_else None y = y" "or_else (Some a) y = Some a"
  by (simp_all add: or_else_def)

lemma is_ok_simps [simp]: "is_ok (Inl e) = False" "is_ok (Inr a) = True"
  by (simp_all add: is_ok_def)

section \<open>Prefixes, suffixes, search\<close>

definition starts_with :: "'a list \<Rightarrow> 'a list \<Rightarrow> bool" where
  "starts_with p s = (take (length p) s = p)"

definition ends_with :: "'a list \<Rightarrow> 'a list \<Rightarrow> bool" where
  "ends_with p s = starts_with (rev p) (rev s)"

definition strip_prefix :: "'a list \<Rightarrow> 'a list \<Rightarrow> 'a list option" where
  "strip_prefix p s = (if starts_with p s then Some (drop (length p) s) else None)"

definition strip_suffix :: "'a list \<Rightarrow> 'a list \<Rightarrow> 'a list option" where
  "strip_suffix p s = (if ends_with p s then Some (take (length s - length p) s) else None)"

fun find_char :: "(char \<Rightarrow> bool) \<Rightarrow> string \<Rightarrow> nat option" where
  "find_char p [] = None"
| "find_char p (c # cs) = (if p c then Some 0 else map_option Suc (find_char p cs))"

definition rfind_char :: "char \<Rightarrow> string \<Rightarrow> nat option" where
  "rfind_char c s = (case find_char ((=) c) (rev s) of
     None \<Rightarrow> None | Some i \<Rightarrow> Some (length s - Suc i))"

fun find_sub :: "string \<Rightarrow> string \<Rightarrow> nat option" where
  "find_sub p s = (if starts_with p s then Some 0
     else case s of [] \<Rightarrow> None | c # cs \<Rightarrow> map_option Suc (find_sub p cs))"

declare find_sub.simps [simp del]

definition contains_sub :: "string \<Rightarrow> string \<Rightarrow> bool" where
  "contains_sub p s = (find_sub p s \<noteq> None)"

fun split_once :: "char \<Rightarrow> string \<Rightarrow> (string \<times> string) option" where
  "split_once c [] = None"
| "split_once c (x # xs) =
     (if x = c then Some ([], xs)
      else case split_once c xs of None \<Rightarrow> None | Some (a, b) \<Rightarrow> Some (x # a, b))"

definition split_once_sub :: "string \<Rightarrow> string \<Rightarrow> (string \<times> string) option" where
  "split_once_sub p s = (case find_sub p s of
     None \<Rightarrow> None | Some i \<Rightarrow> Some (take i s, drop (i + length p) s))"

fun split_on :: "char \<Rightarrow> string \<Rightarrow> string list" where
  "split_on c [] = [[]]"
| "split_on c (x # xs) =
     (if x = c then [] # split_on c xs
      else case split_on c xs of [] \<Rightarrow> [[x]] | w # ws \<Rightarrow> (x # w) # ws)"

fun join :: "string \<Rightarrow> string list \<Rightarrow> string" where
  "join sep [] = []"
| "join sep [w] = w"
| "join sep (w # v # ws) = w @ sep @ join sep (v # ws)"

section \<open>Trimming\<close>

definition trim_start_matches :: "char \<Rightarrow> string \<Rightarrow> string" where
  "trim_start_matches c s = dropWhile ((=) c) s"

definition trim_end_matches :: "char \<Rightarrow> string \<Rightarrow> string" where
  "trim_end_matches c s = rev (dropWhile ((=) c) (rev s))"

definition trim_matches :: "char \<Rightarrow> string \<Rightarrow> string" where
  "trim_matches c s = trim_end_matches c (trim_start_matches c s)"

definition ascii_ws :: "char \<Rightarrow> bool" where
  "ascii_ws c \<longleftrightarrow> c = CHR 0x20 \<or> c = CHR 0x0A \<or> c = CHR 0x09 \<or> c = CHR 0x0D
     \<or> c = CHR 0x0B \<or> c = CHR 0x0C"

text \<open>
  The UTF-8 encodings of the \<open>White_Space\<close> code points above ASCII: U+0085, U+00A0, U+1680,
  U+2000 to U+200A, U+2028, U+2029, U+202F, U+205F and U+3000.
\<close>

definition wide_ws :: "string list" where
  "wide_ws = [[CHR 0xC2, CHR 0x85], [CHR 0xC2, CHR 0xA0], [CHR 0xE1, CHR 0x9A, CHR 0x80],
     [CHR 0xE2, CHR 0x80, CHR 0x80], [CHR 0xE2, CHR 0x80, CHR 0x81],
     [CHR 0xE2, CHR 0x80, CHR 0x82], [CHR 0xE2, CHR 0x80, CHR 0x83],
     [CHR 0xE2, CHR 0x80, CHR 0x84], [CHR 0xE2, CHR 0x80, CHR 0x85],
     [CHR 0xE2, CHR 0x80, CHR 0x86], [CHR 0xE2, CHR 0x80, CHR 0x87],
     [CHR 0xE2, CHR 0x80, CHR 0x88], [CHR 0xE2, CHR 0x80, CHR 0x89],
     [CHR 0xE2, CHR 0x80, CHR 0x8A], [CHR 0xE2, CHR 0x80, CHR 0xA8],
     [CHR 0xE2, CHR 0x80, CHR 0xA9], [CHR 0xE2, CHR 0x80, CHR 0xAF],
     [CHR 0xE2, CHR 0x81, CHR 0x9F], [CHR 0xE3, CHR 0x80, CHR 0x80]]"

text \<open>The number of bytes of the whitespace code point a string starts (ends) with, or 0.\<close>

definition ws_len :: "string \<Rightarrow> nat" where
  "ws_len s = (case s of [] \<Rightarrow> 0 | c # cs \<Rightarrow>
     if ascii_ws c then 1
     else if \<not> digit7 c then 0
     else case find (\<lambda>w. starts_with w s) wide_ws of None \<Rightarrow> 0 | Some w \<Rightarrow> length w)"

definition ws_len_rev :: "string \<Rightarrow> nat" where
  "ws_len_rev s = (case s of [] \<Rightarrow> 0 | c # cs \<Rightarrow>
     if ascii_ws c then 1
     else if \<not> digit7 c then 0
     else case find (\<lambda>w. starts_with (rev w) s) wide_ws of None \<Rightarrow> 0 | Some w \<Rightarrow> length w)"

lemma ws_len_le: "ws_len s \<le> length s"
proof -
  have "length w \<le> length s" if "find (\<lambda>w. starts_with w s) wide_ws = Some w" for w
    using that by (auto simp: find_Some_iff starts_with_def)
      (metis length_take min.cobounded1 min_def)
  then show ?thesis by (auto simp: ws_len_def split: list.splits option.splits)
qed

lemma ws_len_rev_le: "ws_len_rev s \<le> length s"
proof -
  have "length w \<le> length s" if "find (\<lambda>w. starts_with (rev w) s) wide_ws = Some w" for w
    using that by (auto simp: find_Some_iff starts_with_def)
      (metis length_rev length_take min.cobounded1 min_def)
  then show ?thesis by (auto simp: ws_len_rev_def split: list.splits option.splits)
qed

function trim_start :: "string \<Rightarrow> string" where
  "trim_start s = (if ws_len s = 0 then s else trim_start (drop (ws_len s) s))"
  by pat_completeness auto
termination
  using ws_len_le by (relation "measure length") (auto simp: ws_len_def split: list.splits)

function trim_rev :: "string \<Rightarrow> string" where
  "trim_rev s = (if ws_len_rev s = 0 then s else trim_rev (drop (ws_len_rev s) s))"
  by pat_completeness auto
termination
  using ws_len_rev_le by (relation "measure length") (auto simp: ws_len_rev_def split: list.splits)

declare trim_start.simps [simp del] trim_rev.simps [simp del]

definition trim_end :: "string \<Rightarrow> string" where
  "trim_end s = rev (trim_rev (rev s))"

definition trim :: "string \<Rightarrow> string" where
  "trim s = trim_end (trim_start s)"

text \<open>\<open>str::find(char::is_whitespace ...)\<close>: the first position where a whitespace code point
  or one of the given ASCII characters starts.\<close>

fun find_ws_or :: "char list \<Rightarrow> string \<Rightarrow> nat option" where
  "find_ws_or cs [] = None"
| "find_ws_or cs (x # xs) =
     (if ws_len (x # xs) \<noteq> 0 \<or> x \<in> set cs then Some 0 else map_option Suc (find_ws_or cs xs))"

function split_whitespace :: "string \<Rightarrow> string list" where
  "split_whitespace s = (let t = trim_start s in
     if t = [] then []
     else case find_ws_or [] t of
       None \<Rightarrow> [t]
     | Some 0 \<Rightarrow> []
     | Some (Suc i) \<Rightarrow> take (Suc i) t # split_whitespace (drop (Suc i) t))"
  by pat_completeness auto

lemma trim_start_length: "length (trim_start s) \<le> length s"
proof (induction s rule: trim_start.induct)
  case (1 s)
  then show ?case by (subst trim_start.simps) (auto intro: order_trans)
qed

termination split_whitespace
proof (relation "measure length")
  fix s t i assume t: "t = trim_start s" "t \<noteq> []"
  then have "length t \<le> length s" "0 < length t" using trim_start_length [of s] by simp_all
  then have "length t - Suc i < length s" by linarith
  then show "(drop (Suc i) t, s) \<in> measure length" by simp
qed simp

declare split_whitespace.simps [simp del]

section \<open>Lines, case, replacement\<close>

definition strip_cr :: "string \<Rightarrow> string" where
  "strip_cr l = unwrap_or (strip_suffix [CHR 0x0D] l) l"

text \<open>\<open>str::lines\<close>: a line ends at a line feed, which takes one carriage return before it away;
  an unterminated last line counts when it is not empty.\<close>

definition str_lines :: "string \<Rightarrow> string list" where
  "str_lines s = (let ps = split_on (CHR 0x0A) s in
     map strip_cr (butlast ps) @ (if last ps = [] then [] else [last ps]))"

definition ascii_lower :: "char \<Rightarrow> char" where
  "ascii_lower c = (let n = of_char c :: nat in if 65 \<le> n \<and> n \<le> 90 then char_of (n + 32) else c)"

definition ascii_upper :: "char \<Rightarrow> char" where
  "ascii_upper c = (let n = of_char c :: nat in if 97 \<le> n \<and> n \<le> 122 then char_of (n - 32) else c)"

definition to_ascii_lowercase :: "string \<Rightarrow> string" where
  "to_ascii_lowercase = map ascii_lower"

definition to_ascii_uppercase :: "string \<Rightarrow> string" where
  "to_ascii_uppercase = map ascii_upper"

definition ascii_digit :: "char \<Rightarrow> bool" where
  "ascii_digit c = (let n = of_char c :: nat in 48 \<le> n \<and> n \<le> 57)"

definition ascii_alphanumeric :: "char \<Rightarrow> bool" where
  "ascii_alphanumeric c = (let n = of_char c :: nat in
     48 \<le> n \<and> n \<le> 57 \<or> 65 \<le> n \<and> n \<le> 90 \<or> 97 \<le> n \<and> n \<le> 122)"

text \<open>
  \<open>str::to_uppercase\<close> as far as its callers can see. They compare the result with ASCII method
  names, so besides the ASCII letters only the ten code points whose full upper-case mapping is
  pure ASCII matter: U+00DF, U+0131, U+017F and the ligatures U+FB00 to U+FB06. Every other
  non-ASCII code point maps to a sequence with a non-ASCII byte in it and is left as it is.
\<close>

definition wide_upper :: "(string \<times> string) list" where
  "wide_upper = [([CHR 0xC3, CHR 0x9F], ''SS''), ([CHR 0xC4, CHR 0xB1], ''I''),
     ([CHR 0xC5, CHR 0xBF], ''S''),
     ([CHR 0xEF, CHR 0xAC, CHR 0x80], ''FF''), ([CHR 0xEF, CHR 0xAC, CHR 0x81], ''FI''),
     ([CHR 0xEF, CHR 0xAC, CHR 0x82], ''FL''), ([CHR 0xEF, CHR 0xAC, CHR 0x83], ''FFI''),
     ([CHR 0xEF, CHR 0xAC, CHR 0x84], ''FFL''), ([CHR 0xEF, CHR 0xAC, CHR 0x85], ''ST''),
     ([CHR 0xEF, CHR 0xAC, CHR 0x86], ''ST'')]"

function to_uppercase :: "string \<Rightarrow> string" where
  "to_uppercase s = (case s of [] \<Rightarrow> [] | c # cs \<Rightarrow>
     (case find (\<lambda>(w, u). starts_with w (c # cs)) wide_upper of
        None \<Rightarrow> ascii_upper c # to_uppercase cs
      | Some (w, u) \<Rightarrow> u @ to_uppercase (drop (length w - 1) cs)))"
  by pat_completeness auto
termination by (relation "measure length") auto

declare to_uppercase.simps [simp del]

fun replace_fuel :: "nat \<Rightarrow> string \<Rightarrow> string \<Rightarrow> string \<Rightarrow> string" where
  "replace_fuel 0 p r s = s"
| "replace_fuel (Suc n) p r s = (case s of [] \<Rightarrow> []
     | c # cs \<Rightarrow> if starts_with p s then r @ replace_fuel n p r (drop (length p) s)
                else c # replace_fuel n p r cs)"

text \<open>\<open>str::replace\<close> with a non-empty pattern: every step consumes at least one byte, so the
  length of the input is enough fuel.\<close>

definition str_replace :: "string \<Rightarrow> string \<Rightarrow> string \<Rightarrow> string" where
  "str_replace p r s = replace_fuel (length s) p r s"

section \<open>Numbers as text\<close>

fun show_nat :: "nat \<Rightarrow> string" where
  "show_nat n = (if n < 10 then [char_of (48 + n)] else show_nat (n div 10) @ [char_of (48 + n mod 10)])"

declare show_nat.simps [simp del]

fun parse_digits :: "nat \<Rightarrow> string \<Rightarrow> nat option" where
  "parse_digits acc [] = Some acc"
| "parse_digits acc (c # cs) =
     (if ascii_digit c then parse_digits (10 * acc + (of_char c - 48)) cs else None)"

text \<open>\<open>str::parse\<close> at an unsigned type of the given width: an optional \<open>+\<close>, at least one digit,
  and no overflow.\<close>

definition parse_uint :: "nat \<Rightarrow> string \<Rightarrow> nat option" where
  "parse_uint w s =
     (let ds = (case s of c # cs \<Rightarrow> if c = CHR ''+'' then cs else s | [] \<Rightarrow> s) in
      if ds = [] then None
      else case parse_digits 0 ds of
        None \<Rightarrow> None | Some n \<Rightarrow> if n < 2 ^ w then Some n else None)"

definition parse_u64 :: "string \<Rightarrow> u64 option" where
  "parse_u64 s = map_option of_nat (parse_uint 64 s)"

definition sat_add :: "u64 \<Rightarrow> u64 \<Rightarrow> u64" where
  "sat_add a b = (if unat a + unat b < 2 ^ 64 then a + b else - 1)"

lemma sat_add_unat: "unat (sat_add a b) = min (unat a + unat b) (2 ^ 64 - 1)"
proof (cases "unat a + unat b < 2 ^ 64")
  case True
  then have "unat (a + b) = unat a + unat b" by (simp add: unat_add_lem [THEN iffD1])
  then show ?thesis using True by (simp add: sat_add_def)
next
  case False
  have "unat (- 1 :: u64) = 2 ^ 64 - 1" by (simp add: unsigned_minus_1_eq_mask mask_eq_exp_minus_1)
  then show ?thesis using False by (simp add: sat_add_def)
qed

definition sat_sub :: "u64 \<Rightarrow> u64 \<Rightarrow> u64" where
  "sat_sub a b = (if b \<le> a then a - b else 0)"

section \<open>UTF-8 well-formedness\<close>

definition in_rng :: "nat \<Rightarrow> nat \<Rightarrow> char \<Rightarrow> bool" where
  "in_rng lo hi c = (let n = of_char c :: nat in lo \<le> n \<and> n \<le> hi)"

text \<open>The byte length of the well-formed UTF-8 code point at the start (Unicode table 3-7), or 0.\<close>

definition utf8_len :: "string \<Rightarrow> nat" where
  "utf8_len s = (case s of
     [] \<Rightarrow> 0
   | a # r1 \<Rightarrow>
     if \<not> digit7 a then 1
     else (case r1 of [] \<Rightarrow> 0 | b # r2 \<Rightarrow>
       if in_rng 0xC2 0xDF a \<and> in_rng 0x80 0xBF b then 2
       else (case r2 of [] \<Rightarrow> 0 | c # r3 \<Rightarrow>
         if in_rng 0x80 0xBF c \<and>
            (in_rng 0xE0 0xE0 a \<and> in_rng 0xA0 0xBF b \<or> in_rng 0xE1 0xEC a \<and> in_rng 0x80 0xBF b \<or>
             in_rng 0xED 0xED a \<and> in_rng 0x80 0x9F b \<or> in_rng 0xEE 0xEF a \<and> in_rng 0x80 0xBF b)
         then 3
         else (case r3 of [] \<Rightarrow> 0 | d # r4 \<Rightarrow>
           if in_rng 0x80 0xBF c \<and> in_rng 0x80 0xBF d \<and>
              (in_rng 0xF0 0xF0 a \<and> in_rng 0x90 0xBF b \<or> in_rng 0xF1 0xF3 a \<and> in_rng 0x80 0xBF b \<or>
               in_rng 0xF4 0xF4 a \<and> in_rng 0x80 0x8F b)
           then 4 else 0))))"

function utf8_valid :: "bytes \<Rightarrow> bool" where
  "utf8_valid s = (if s = [] then True else if utf8_len s = 0 then False
     else utf8_valid (drop (utf8_len s) s))"
  by pat_completeness auto
termination by (relation "measure length") auto

declare utf8_valid.simps [simp del]

definition from_utf8 :: "bytes \<Rightarrow> string option" where
  "from_utf8 b = (if utf8_valid b then Some b else None)"

section \<open>Lemmas on prefixes, suffixes and search\<close>

lemma starts_with_iff: "starts_with p s \<longleftrightarrow> (\<exists>r. s = p @ r)"
  by (auto simp: starts_with_def) (metis append_take_drop_id)

lemma starts_with_simps [simp]:
  "starts_with [] s" "\<not> starts_with (p # ps) []"
  "starts_with (p # ps) (c # cs) \<longleftrightarrow> p = c \<and> starts_with ps cs"
  by (auto simp: starts_with_def)

lemma starts_with_append [simp]: "starts_with p (p @ r)"
  by (auto simp: starts_with_iff)

lemma ends_with_iff: "ends_with p s \<longleftrightarrow> (\<exists>r. s = r @ p)"
proof
  assume "ends_with p s"
  then obtain r where "rev s = rev p @ r" by (auto simp: ends_with_def starts_with_iff)
  then have "s = rev r @ p" by (metis rev_append rev_rev_ident)
  then show "\<exists>r. s = r @ p" ..
next
  assume "\<exists>r. s = r @ p"
  then show "ends_with p s" by (auto simp: ends_with_def starts_with_iff)
qed

lemma ends_with_append [simp]: "ends_with p (r @ p)"
  by (auto simp: ends_with_iff)

lemma strip_prefix_Some_iff: "strip_prefix p s = Some r \<longleftrightarrow> s = p @ r"
  by (auto simp: strip_prefix_def starts_with_def) (metis append_take_drop_id)

lemma strip_prefix_None_iff: "strip_prefix p s = None \<longleftrightarrow> \<not> starts_with p s"
  by (simp add: strip_prefix_def)

lemma strip_prefix_simps [simp]:
  "strip_prefix [] s = Some s" "strip_prefix (p # ps) [] = None"
  "strip_prefix (p # ps) (c # cs) = (if p = c then strip_prefix ps cs else None)"
  by (auto simp: strip_prefix_def)

lemma strip_prefix_append [simp]: "strip_prefix p (p @ r) = Some r"
  by (simp add: strip_prefix_Some_iff)

lemma strip_suffix_Some_iff: "strip_suffix p s = Some r \<longleftrightarrow> s = r @ p"
  by (auto simp: strip_suffix_def ends_with_iff)

lemma strip_suffix_append [simp]: "strip_suffix p (r @ p) = Some r"
  by (simp add: strip_suffix_Some_iff)

lemma find_char_None_iff: "find_char p s = None \<longleftrightarrow> (\<forall>c \<in> set s. \<not> p c)"
  by (induction s) auto

lemma find_char_Some: "find_char p s = Some i \<Longrightarrow>
    i < length s \<and> p (s ! i) \<and> (\<forall>c \<in> set (take i s). \<not> p c)"
  by (induction s arbitrary: i) (auto split: if_splits)

lemma find_char_append: "\<forall>c \<in> set a. \<not> p c \<Longrightarrow> p x \<Longrightarrow> find_char p (a @ x # b) = Some (length a)"
  by (induction a) auto

lemma split_once_None_iff: "split_once c s = None \<longleftrightarrow> c \<notin> set s"
  by (induction s) (auto split: option.splits)

lemma split_once_append [simp]: "c \<notin> set a \<Longrightarrow> split_once c (a @ c # b) = Some (a, b)"
  by (induction a) auto

lemma split_once_Some_iff: "split_once c s = Some (a, b) \<longleftrightarrow> s = a @ c # b \<and> c \<notin> set a"
proof
  show "split_once c s = Some (a, b) \<Longrightarrow> s = a @ c # b \<and> c \<notin> set a"
    by (induction s arbitrary: a) (auto split: if_splits option.splits)
qed auto

lemma split_on_not_Nil [simp]: "split_on c s \<noteq> []"
  by (cases s) (auto split: list.splits)

lemma split_on_no_sep: "c \<notin> set s \<Longrightarrow> split_on c s = [s]"
  by (induction s) auto

lemma split_on_append: "c \<notin> set a \<Longrightarrow> split_on c (a @ c # b) = a # split_on c b"
  by (induction a) auto

lemma split_on_last: "c \<notin> set b \<Longrightarrow> split_on c (s @ c # b) = split_on c s @ [b]"
  by (induction s) (auto simp: split_on_no_sep split: list.splits)

lemma rfind_char_split:
  assumes "c \<notin> set b"
  shows "rfind_char c (a @ c # b) = Some (length a)"
proof -
  have "find_char ((=) c) (rev b @ c # rev a) = Some (length (rev b))"
    using assms by (intro find_char_append) auto
  then show ?thesis by (simp add: rfind_char_def)
qed

lemma split_on_elem: "w \<in> set (split_on c s) \<Longrightarrow> c \<notin> set w"
proof (induction s arbitrary: w)
  case (Cons x xs)
  then show ?case by (fastforce split: if_splits list.splits)
qed simp

lemma split_on_subset: "w \<in> set (split_on c s) \<Longrightarrow> set w \<subseteq> set s"
proof (induction s arbitrary: w)
  case (Cons x xs)
  then show ?case by (fastforce split: if_splits list.splits)
qed simp

lemma join_Cons_char: "join sep ((x # w) # ws) = x # join sep (w # ws)"
  by (cases ws) simp_all

lemma join_Nil_Cons: "ws \<noteq> [] \<Longrightarrow> join sep (w # ws) = w @ sep @ join sep ws"
  by (cases ws) simp_all

lemma join_split_on: "join [c] (split_on c s) = s"
proof (induction s)
  case (Cons x xs)
  then show ?case
    by (cases "split_on c xs") (auto simp: join_Cons_char join_Nil_Cons)
qed simp

lemma split_on_join:
  "ws \<noteq> [] \<Longrightarrow> \<forall>w \<in> set ws. c \<notin> set w \<Longrightarrow> split_on c (join [c] ws) = ws"
  by (induction "[c]" ws rule: join.induct) (auto simp: split_on_no_sep split_on_append)

lemma contains_sub_iff: "contains_sub p s \<longleftrightarrow> (\<exists>a b. s = a @ p @ b)"
proof (induction s)
  case Nil
  then show ?case by (auto simp: contains_sub_def find_sub.simps [of p "[]"] starts_with_iff)
next
  case (Cons c s)
  have "contains_sub p (c # s) \<longleftrightarrow> starts_with p (c # s) \<or> contains_sub p s"
    by (auto simp: contains_sub_def find_sub.simps [of p "c # s"])
  then show ?case
    using Cons by (auto simp: starts_with_iff Cons_eq_append_conv)
qed

lemma find_sub_Nil: "find_sub p [] = (if p = [] then Some 0 else None)"
  by (subst find_sub.simps) (cases p; simp)

lemma find_sub_Cons:
  "find_sub p (c # s) = (if starts_with p (c # s) then Some 0 else map_option Suc (find_sub p s))"
  by (simp add: find_sub.simps [of p "c # s"])

lemma find_sub_Some: "find_sub p s = Some i \<Longrightarrow> s = take i s @ p @ drop (i + length p) s"
proof (induction s arbitrary: i)
  case (Cons c s)
  show ?case
  proof (cases "starts_with p (c # s)")
    case True
    then show ?thesis using Cons.prems by (auto simp: find_sub_Cons starts_with_iff)
  next
    case False
    then obtain j where "i = Suc j" "find_sub p s = Some j"
      using Cons.prems by (auto simp: find_sub_Cons)
    then show ?thesis using Cons.IH [of j] by simp
  qed
qed (auto simp: find_sub_Nil split: if_splits)

lemma find_sub_None_iff: "find_sub p s = None \<longleftrightarrow> \<not> contains_sub p s"
  by (simp add: contains_sub_def)

lemma starts_with_sep: "sep \<notin> set p \<Longrightarrow> starts_with p (a @ sep # b) = starts_with p a"
proof (induction p arbitrary: a)
  case (Cons x p)
  then show ?case by (cases a) auto
qed simp

lemma find_sub_sep:
  "p \<noteq> [] \<Longrightarrow> sep \<notin> set p \<Longrightarrow> find_sub p (a @ sep # b) =
     (case find_sub p a of Some i \<Rightarrow> Some i | None \<Rightarrow> map_option (\<lambda>i. Suc (length a + i)) (find_sub p b))"
proof (induction a)
  case Nil
  then have "\<not> starts_with p (sep # b)" using starts_with_sep [of sep p "[]" b] by (cases p) auto
  with Nil show ?case by (simp add: find_sub_Cons find_sub_Nil)
next
  case (Cons x a)
  then show ?case
    using starts_with_sep [of sep p "x # a" b]
    by (auto simp: find_sub_Cons option.map_comp comp_def split: option.splits)
qed

lemma split_once_sub_Some: "split_once_sub p s = Some (a, b) \<Longrightarrow> s = a @ p @ b"
  by (auto simp: split_once_sub_def dest: find_sub_Some split: option.splits)

section \<open>Lemmas on trimming\<close>

definition plain :: "char \<Rightarrow> bool" where
  "plain c \<longleftrightarrow> \<not> ascii_ws c \<and> \<not> digit7 c"

lemma ws_len_plain [simp]: "plain c \<Longrightarrow> ws_len (c # s) = 0"
  by (simp add: ws_len_def plain_def)

lemma ws_len_rev_plain [simp]: "plain c \<Longrightarrow> ws_len_rev (c # s) = 0"
  by (simp add: ws_len_rev_def plain_def)

lemma ws_len_Nil [simp]: "ws_len [] = 0" "ws_len_rev [] = 0"
  by (simp_all add: ws_len_def ws_len_rev_def)

lemma trim_start_Nil [simp]: "trim_start [] = []" "trim_rev [] = []"
  by (simp_all add: trim_start.simps [of "[]"] trim_rev.simps [of "[]"])

lemma trim_start_plain [simp]: "plain c \<Longrightarrow> trim_start (c # s) = c # s"
  by (simp add: trim_start.simps [of "c # s"])

lemma trim_rev_plain [simp]: "plain c \<Longrightarrow> trim_rev (c # s) = c # s"
  by (simp add: trim_rev.simps [of "c # s"])

lemma trim_start_ws [simp]: "ascii_ws c \<Longrightarrow> trim_start (c # s) = trim_start s"
  by (simp add: trim_start.simps [of "c # s"] ws_len_def)

lemma trim_rev_ws [simp]: "ascii_ws c \<Longrightarrow> trim_rev (c # s) = trim_rev s"
  by (simp add: trim_rev.simps [of "c # s"] ws_len_rev_def)

lemma trim_end_Nil [simp]: "trim_end [] = []"
  by (simp add: trim_end_def)

lemma trim_end_plain [simp]: "plain c \<Longrightarrow> trim_end (s @ [c]) = s @ [c]"
  by (simp add: trim_end_def)

lemma trim_end_ws [simp]: "ascii_ws c \<Longrightarrow> trim_end (s @ [c]) = trim_end s"
  by (simp add: trim_end_def)

lemma trim_end_plain_last: "s \<noteq> [] \<Longrightarrow> plain (last s) \<Longrightarrow> trim_end s = s"
  by (metis append_butlast_last_id trim_end_plain)

lemma trim_Nil [simp]: "trim [] = []"
  by (simp add: trim_def)

lemma trim_id: "s \<noteq> [] \<Longrightarrow> plain (hd s) \<Longrightarrow> plain (last s) \<Longrightarrow> trim s = s"
  by (cases s) (simp_all add: trim_def trim_end_plain_last)

lemma trim_start_plain_hd: "s \<noteq> [] \<Longrightarrow> plain (hd s) \<Longrightarrow> trim_start s = s"
  by (cases s) simp_all

lemma trim_pad:
  assumes "s \<noteq> []" "plain (hd s)" "plain (last s)" "list_all ascii_ws w" "list_all ascii_ws v"
  shows "trim (w @ s @ v) = s"
proof -
  have "trim_start (w @ s @ v) = s @ v"
    using assms(4) by (induction w) (use assms(1,2) in \<open>auto simp: trim_start_plain_hd\<close>)
  moreover have "trim_end (s @ v) = s"
    using assms(5)
  proof (induction v rule: rev_induct)
    case (snoc c v)
    then have "trim_end ((s @ v) @ [c]) = trim_end (s @ v)" by (intro trim_end_ws) simp
    with snoc show ?case by simp
  qed (use assms(1,3) in \<open>simp add: trim_end_plain_last\<close>)
  ultimately show ?thesis by (simp add: trim_def)
qed

lemma utf8_ascii: "list_all (\<lambda>c. \<not> digit7 c) s \<Longrightarrow> from_utf8 s = Some s"
proof -
  have "list_all (\<lambda>c. \<not> digit7 c) s \<Longrightarrow> utf8_valid s"
  proof (induction s)
    case (Cons c s)
    then have "utf8_len (c # s) = 1" by (simp add: utf8_len_def)
    then show ?case using Cons by (simp add: utf8_valid.simps [of "c # s"])
  qed (simp add: utf8_valid.simps [of "[]"])
  then show "list_all (\<lambda>c. \<not> digit7 c) s \<Longrightarrow> from_utf8 s = Some s" by (simp add: from_utf8_def)
qed

lemma trim_rev_suffix: "\<exists>p. s = p @ trim_rev s"
proof (induction s rule: trim_rev.induct)
  case (1 s)
  show ?case
  proof (cases "ws_len_rev s = 0")
    case False
    then obtain p where "drop (ws_len_rev s) s = p @ trim_rev (drop (ws_len_rev s) s)"
      using 1 by blast
    then have "s = (take (ws_len_rev s) s @ p) @ trim_rev s"
      using False by (metis append.assoc append_take_drop_id trim_rev.simps)
    then show ?thesis ..
  qed (simp add: trim_rev.simps [of s])
qed

lemma trim_start_suffix: "\<exists>p. s = p @ trim_start s"
proof (induction s rule: trim_start.induct)
  case (1 s)
  show ?case
  proof (cases "ws_len s = 0")
    case False
    then obtain p where "drop (ws_len s) s = p @ trim_start (drop (ws_len s) s)"
      using 1 by blast
    then have "s = (take (ws_len s) s @ p) @ trim_start s"
      using False by (metis append.assoc append_take_drop_id trim_start.simps)
    then show ?thesis ..
  qed (simp add: trim_start.simps [of s])
qed

lemma trim_end_prefix: "\<exists>q. s = trim_end s @ q"
proof -
  obtain p where "rev s = p @ trim_rev (rev s)" using trim_rev_suffix by blast
  then have "s = trim_end s @ rev p" by (metis rev_append rev_rev_ident trim_end_def)
  then show ?thesis ..
qed

lemma set_trim: "set (trim s) \<subseteq> set s"
proof -
  obtain p where p: "s = p @ trim_start s" using trim_start_suffix by blast
  obtain q where q: "trim_start s = trim_end (trim_start s) @ q" using trim_end_prefix by blast
  have "set (trim s) \<subseteq> set (trim_start s)" by (subst q) (simp add: trim_def)
  also have "\<dots> \<subseteq> set s" by (subst (2) p) simp
  finally show ?thesis .
qed

lemma trim_end_matches_no: "s = [] \<or> last s \<noteq> c \<Longrightarrow> trim_end_matches c s = s"
  by (cases s rule: rev_cases) (auto simp: trim_end_matches_def)

lemma trim_end_matches_prefix: "\<exists>n. s = trim_end_matches c s @ replicate n c"
proof -
  have "takeWhile ((=) c) (rev s) = replicate (length (takeWhile ((=) c) (rev s))) c"
    by (rule replicate_eqI [OF refl]) (auto dest: set_takeWhileD)
  then have "rev s = replicate (length (takeWhile ((=) c) (rev s))) c @ dropWhile ((=) c) (rev s)"
    by (metis takeWhile_dropWhile_id)
  then have "s = trim_end_matches c s @ replicate (length (takeWhile ((=) c) (rev s))) c"
    by (metis rev_append rev_replicate rev_rev_ident trim_end_matches_def)
  then show ?thesis ..
qed

lemma trim_end_matches_last: "trim_end_matches c s = [] \<or> last (trim_end_matches c s) \<noteq> c"
  using hd_dropWhile [of "(=) c" "rev s"]
  by (cases "dropWhile ((=) c) (rev s) = []") (auto simp: trim_end_matches_def last_rev)

lemma trim_end_matches_replicate: "trim_end_matches c (s @ replicate n c) = trim_end_matches c s"
proof -
  have "dropWhile ((=) c) (replicate n c @ rev s) = dropWhile ((=) c) (rev s)"
    by (induction n) simp_all
  then show ?thesis by (simp add: trim_end_matches_def)
qed

lemma trim_end_matches_idem [simp]:
  "trim_end_matches c (trim_end_matches c s) = trim_end_matches c s"
  using trim_end_matches_last [of c s] by (rule trim_end_matches_no)

lemma trim_end_matches_hd:
  "trim_end_matches c s \<noteq> [] \<Longrightarrow> hd (trim_end_matches c s) = hd s"
  by (metis hd_append2 trim_end_matches_prefix)

section \<open>Lemmas on numbers as text\<close>

lemma ascii_lower_fixed:
  assumes "(of_char d :: nat) < 65"
  shows "ascii_lower c = d \<longleftrightarrow> c = d"
proof (cases "65 \<le> (of_char c :: nat) \<and> (of_char c :: nat) \<le> 90")
  case True
  then have "of_char (ascii_lower c) = (of_char c + 32 :: nat)" by (simp add: ascii_lower_def del: of_char_def)
  then show ?thesis using True assms by auto
next
  case False
  then have "ascii_lower c = c" unfolding ascii_lower_def Let_def by (rule if_not_P)
  then show ?thesis by simp
qed

lemma lowercase_fixed: "(of_char d :: nat) < 65 \<Longrightarrow> d \<in> set (to_ascii_lowercase s) \<longleftrightarrow> d \<in> set s"
  unfolding to_ascii_lowercase_def set_map using ascii_lower_fixed [of d] by (metis (no_types, lifting) image_iff)

lemma ascii_digit_cases: "ascii_digit c \<Longrightarrow> c \<in> set ''0123456789''"
proof -
  assume "ascii_digit c"
  then obtain n :: nat where n: "c = char_of n" "48 \<le> n" "n \<le> 57"
    by (metis ascii_digit_def char_of_char)
  then have "n = 48 \<or> n = 49 \<or> n = 50 \<or> n = 51 \<or> n = 52 \<or> n = 53 \<or> n = 54 \<or> n = 55 \<or> n = 56 \<or> n = 57"
    by presburger
  then show ?thesis unfolding n(1) by (elim disjE; hypsubst; code_simp)
qed

lemma ascii_digit_char_of: "k < (10 :: nat) \<Longrightarrow> ascii_digit (char_of (48 + k)) \<and> of_char (char_of (48 + k) :: char) - 48 = k"
  by (simp add: ascii_digit_def)

lemma show_nat_digits: "list_all ascii_digit (show_nat n)"
proof (induction n rule: show_nat.induct)
  case (1 n)
  then show ?case
    using ascii_digit_char_of [of n] ascii_digit_char_of [of "n mod 10"]
    by (subst show_nat.simps) auto
qed

lemma show_nat_not_Nil [simp]: "show_nat n \<noteq> []"
  by (subst show_nat.simps) simp

lemma parse_digits_append:
  "parse_digits acc (xs @ ys) = (case parse_digits acc xs of None \<Rightarrow> None | Some a \<Rightarrow> parse_digits a ys)"
  by (induction xs arbitrary: acc) auto

lemma parse_digits_show: "parse_digits 0 (show_nat n) = Some n"
proof (induction n rule: show_nat.induct)
  case (1 n)
  show ?case
  proof (cases "n < 10")
    case True
    then show ?thesis using ascii_digit_char_of [of n] by (subst show_nat.simps) simp
  next
    case False
    then have "parse_digits 0 (show_nat (n div 10)) = Some (n div 10)" using 1 by simp
    then show ?thesis
      using False ascii_digit_char_of [of "n mod 10"]
      by (subst show_nat.simps) (simp add: parse_digits_append)
  qed
qed

lemma plain_digit: "ascii_digit c \<Longrightarrow> plain c"
  by (drule ascii_digit_cases) (auto simp: plain_def ascii_ws_def)

lemma parse_uint_show: "n < 2 ^ w \<Longrightarrow> parse_uint w (show_nat n) = Some n"
proof -
  assume n: "n < 2 ^ w"
  obtain c cs where s: "show_nat n = c # cs" using show_nat_not_Nil by (meson neq_Nil_conv)
  then have "ascii_digit c" using show_nat_digits [of n] by simp
  then have "c \<noteq> CHR ''+''" using ascii_digit_cases by fastforce
  then show ?thesis using n parse_digits_show [of n] by (simp add: parse_uint_def s)
qed

end
