(* ===== verification/Pod_Error.thy ===== *)
theory Pod_Error
  imports Prelude
begin

text \<open>
  The crate-wide error type (\<open>error.rs\<close>). Each variant carries its message. Where the source
  builds the message with \<open>format!\<close> over strings and integers, so does the model; where it
  embeds the rendering of a foreign error or a \<open>Debug\<close> rendering, the model keeps the literal
  part only. The one place that looks into a message is the NIP-98 adapter, and the messages it
  inspects are kept in full.
\<close>

record QuotaExceeded =
  qe_pod :: string
  qe_used :: u64
  qe_limit :: u64

datatype PodError =
    NotFound string
  | AlreadyExists string
  | Forbidden
  | Unauthenticated
  | Io string
  | InvalidPath string
  | InvalidContentType string
  | Json string
  | UrlParse string
  | Base64 string
  | Hex string
  | AclParse string
  | Nip98 string
  | Watch string
  | Backend string
  | PreconditionFailed string
  | Unsupported string
  | BadRequest string
  | PayloadTooLarge string
  | QuotaExceededErr QuotaExceeded

text \<open>The \<open>Display\<close> rendering that \<open>thiserror\<close> derives; the quota variant is transparent.\<close>

fun pod_error_to_string :: "PodError \<Rightarrow> string" where
  "pod_error_to_string (NotFound m) = ''resource not found: '' @ m"
| "pod_error_to_string (AlreadyExists m) = ''resource already exists: '' @ m"
| "pod_error_to_string Forbidden = ''access forbidden''"
| "pod_error_to_string Unauthenticated = ''authentication required''"
| "pod_error_to_string (Io m) = ''I/O error: '' @ m"
| "pod_error_to_string (InvalidPath m) = ''invalid path: '' @ m"
| "pod_error_to_string (InvalidContentType m) = ''invalid content type: '' @ m"
| "pod_error_to_string (Json m) = ''JSON error: '' @ m"
| "pod_error_to_string (UrlParse m) = ''URL parse error: '' @ m"
| "pod_error_to_string (Base64 m) = ''base64 decode error: '' @ m"
| "pod_error_to_string (Hex m) = ''hex decode error: '' @ m"
| "pod_error_to_string (AclParse m) = ''ACL parse error: '' @ m"
| "pod_error_to_string (Nip98 m) = ''NIP-98: '' @ m"
| "pod_error_to_string (Watch m) = ''watch subsystem error: '' @ m"
| "pod_error_to_string (Backend m) = ''backend error: '' @ m"
| "pod_error_to_string (PreconditionFailed m) = ''precondition failed: '' @ m"
| "pod_error_to_string (Unsupported m) = ''unsupported: '' @ m"
| "pod_error_to_string (BadRequest m) = ''bad request: '' @ m"
| "pod_error_to_string (PayloadTooLarge m) = ''payload too large: '' @ m"
| "pod_error_to_string (QuotaExceededErr q) =
     ''quota exceeded: pod='' @ qe_pod q @ '' used='' @ show_nat (unat (qe_used q)) @ '' limit='' @ show_nat (unat (qe_limit q))"

end
