(* ===== verification/Json.thy ===== *)
theory Json
  imports Prelude
begin

text \<open>
  JSON values as the code handles them (\<open>serde_json::Value\<close>): an object is its list of members
  with distinct keys, a number is its literal. Reading and writing JSON text belongs to the
  \<open>serde_json\<close> crate and is a parameter wherever it is used.
\<close>

datatype json =
    JNull
  | JBool bool
  | JNumber string
  | JString string
  | JArray "json list"
  | JObject "(string \<times> json) list"

end
