(* ===== verification/Wac_Document.thy ===== *)
theory Wac_Document
  imports Pod_Error Json
begin

text \<open>
  The ACL document tree (\<open>wac/document.rs\<close>), the access modes (\<open>wac/mod.rs\<close>), and the WAC 2.0
  conditions with their evaluators (\<open>wac/conditions.rs\<close>, \<open>wac/client.rs\<close>, \<open>wac/issuer.rs\<close>).
  A trait object is the function it dispatches to: \<open>dyn GroupMembership\<close> is a membership
  predicate, \<open>dyn ConditionDispatcher\<close> the dispatch function.
\<close>

section \<open>Documents\<close>

datatype IdRef = IdRef (ref_id: string)

datatype IdOrIds = Single IdRef | Multiple "IdRef list"

definition get_ids :: "IdOrIds option \<Rightarrow> string list" where
  "get_ids val = (case val of
     None \<Rightarrow> []
   | Some (Single r) \<Rightarrow> [ref_id r]
   | Some (Multiple refs) \<Rightarrow> map ref_id refs)"

definition ids_of :: "string list \<Rightarrow> IdOrIds" where
  "ids_of items = (case items of
     [i] \<Rightarrow> Single (IdRef i)
   | _ \<Rightarrow> Multiple (map IdRef items))"

record ClientConditionBody =
  cc_client :: "IdOrIds option"
  cc_client_group :: "IdOrIds option"
  cc_client_class :: "IdOrIds option"

record IssuerConditionBody =
  ic_issuer :: "IdOrIds option"
  ic_issuer_group :: "IdOrIds option"
  ic_issuer_class :: "IdOrIds option"

datatype Condition =
    Client ClientConditionBody
  | Issuer IssuerConditionBody
  | Unknown (unknown_iri: string)

record AclAuthorization =
  aa_id :: "string option"
  aa_type :: "string option"
  aa_agent :: "IdOrIds option"
  aa_agent_class :: "IdOrIds option"
  aa_agent_group :: "IdOrIds option"
  aa_origin :: "IdOrIds option"
  aa_access_to :: "IdOrIds option"
  aa_default :: "IdOrIds option"
  aa_mode :: "IdOrIds option"
  aa_condition :: "Condition list option"

record AclDocument =
  doc_context :: "json option"
  doc_graph :: "AclAuthorization list option"

section \<open>Access modes\<close>

datatype AccessMode = Read | Write | Append | Control

definition ALL_MODES :: "AccessMode list" where
  "ALL_MODES = [Read, Write, Append, Control]"

definition map_mode :: "string \<Rightarrow> AccessMode list" where
  "map_mode mode_ref =
     (if mode_ref = ''acl:Read'' \<or> mode_ref = ''http://www.w3.org/ns/auth/acl#Read'' then [Read]
      else if mode_ref = ''acl:Write'' \<or> mode_ref = ''http://www.w3.org/ns/auth/acl#Write''
        then [Write, Append]
      else if mode_ref = ''acl:Append'' \<or> mode_ref = ''http://www.w3.org/ns/auth/acl#Append''
        then [Append]
      else if mode_ref = ''acl:Control'' \<or> mode_ref = ''http://www.w3.org/ns/auth/acl#Control''
        then [Control]
      else [])"

definition method_to_mode :: "string \<Rightarrow> AccessMode" where
  "method_to_mode m = (let u = to_uppercase m in
     if u = ''GET'' \<or> u = ''HEAD'' then Read
     else if u = ''PUT'' \<or> u = ''DELETE'' \<or> u = ''PATCH'' then Write
     else if u = ''POST'' then Append
     else Read)"

fun mode_name :: "AccessMode \<Rightarrow> string" where
  "mode_name Read = ''read''"
| "mode_name Write = ''write''"
| "mode_name Append = ''append''"
| "mode_name Control = ''control''"

section \<open>Group membership\<close>

type_synonym GroupMembership = "string \<Rightarrow> string \<Rightarrow> bool"

definition NoGroupMembership :: GroupMembership where
  "NoGroupMembership group_iri agent_uri = False"

record StaticGroupMembership =
  sg_groups :: "string \<Rightarrow> string list option"

definition StaticGroupMembership_new :: StaticGroupMembership where
  "StaticGroupMembership_new = \<lparr>sg_groups = (\<lambda>_. None)\<rparr>"

definition StaticGroupMembership_add ::
    "StaticGroupMembership \<Rightarrow> string \<Rightarrow> string list \<Rightarrow> StaticGroupMembership" where
  "StaticGroupMembership_add g group_iri members =
     g\<lparr>sg_groups := (sg_groups g)(group_iri := Some members)\<rparr>"

definition static_is_member :: "StaticGroupMembership \<Rightarrow> GroupMembership" where
  "static_is_member g group_iri agent_uri =
     (case sg_groups g group_iri of None \<Rightarrow> False | Some m \<Rightarrow> list_ex (\<lambda>x. x = agent_uri) m)"

section \<open>Conditions\<close>

datatype ConditionOutcome = Satisfied | NotApplicable | Denied

definition type_iri :: "Condition \<Rightarrow> string" where
  "type_iri c = (case c of
     Client b \<Rightarrow> ''acl:ClientCondition''
   | Issuer b \<Rightarrow> ''acl:IssuerCondition''
   | Unknown i \<Rightarrow> i)"

record RequestContext =
  rc_web_id :: "string option"
  rc_client_id :: "string option"
  rc_issuer :: "string option"

type_synonym ConditionDispatcher =
  "Condition \<Rightarrow> RequestContext \<Rightarrow> GroupMembership \<Rightarrow> ConditionOutcome"

definition is_foaf_agent :: "string \<Rightarrow> bool" where
  "is_foaf_agent cls \<longleftrightarrow> cls = ''foaf:Agent'' \<or> cls = ''http://xmlns.com/foaf/0.1/Agent''"

definition client_evaluate ::
    "ClientConditionBody \<Rightarrow> RequestContext \<Rightarrow> GroupMembership \<Rightarrow> ConditionOutcome" where
  "client_evaluate b ctx groups =
     (if list_ex is_foaf_agent (get_ids (cc_client_class b)) then Satisfied
      else case rc_client_id ctx of
        Some cid \<Rightarrow>
          if list_ex (\<lambda>c. c = cid) (get_ids (cc_client b)) then Satisfied
          else if list_ex (\<lambda>g. groups g cid) (get_ids (cc_client_group b)) then Satisfied
          else Denied
      | None \<Rightarrow> Denied)"

definition issuer_evaluate ::
    "IssuerConditionBody \<Rightarrow> RequestContext \<Rightarrow> GroupMembership \<Rightarrow> ConditionOutcome" where
  "issuer_evaluate b ctx groups =
     (if list_ex is_foaf_agent (get_ids (ic_issuer_class b)) then Satisfied
      else case rc_issuer ctx of
        None \<Rightarrow> Denied
      | Some iss \<Rightarrow>
          if list_ex (\<lambda>i. i = iss) (get_ids (ic_issuer b)) then Satisfied
          else if list_ex (\<lambda>g. groups g iss) (get_ids (ic_issuer_group b)) then Satisfied
          else Denied)"

datatype ClientConditionEvaluator = ClientConditionEvaluator

datatype IssuerConditionEvaluator = IssuerConditionEvaluator

record ConditionRegistry =
  client_eval :: "ClientConditionEvaluator option"
  issuer_eval :: "IssuerConditionEvaluator option"

definition ConditionRegistry_new :: ConditionRegistry where
  "ConditionRegistry_new = \<lparr>client_eval = None, issuer_eval = None\<rparr>"

definition with_client :: "ConditionRegistry \<Rightarrow> ClientConditionEvaluator \<Rightarrow> ConditionRegistry" where
  "with_client r e = r\<lparr>client_eval := Some e\<rparr>"

definition with_issuer :: "ConditionRegistry \<Rightarrow> IssuerConditionEvaluator \<Rightarrow> ConditionRegistry" where
  "with_issuer r e = r\<lparr>issuer_eval := Some e\<rparr>"

definition default_with_client_and_issuer :: ConditionRegistry where
  "default_with_client_and_issuer =
     with_issuer (with_client ConditionRegistry_new ClientConditionEvaluator) IssuerConditionEvaluator"

definition supported_iris :: "ConditionRegistry \<Rightarrow> string list" where
  "supported_iris r =
     (if client_eval r \<noteq> None then [''acl:ClientCondition''] else []) @
     (if issuer_eval r \<noteq> None then [''acl:IssuerCondition''] else [])"

definition registry_dispatch :: "ConditionRegistry \<Rightarrow> ConditionDispatcher" where
  "registry_dispatch r cond ctx groups = (case cond of
     Client b \<Rightarrow> (case client_eval r of
        Some e \<Rightarrow> client_evaluate b ctx groups | None \<Rightarrow> NotApplicable)
   | Issuer b \<Rightarrow> (case issuer_eval r of
        Some e \<Rightarrow> issuer_evaluate b ctx groups | None \<Rightarrow> NotApplicable)
   | Unknown i \<Rightarrow> NotApplicable)"

definition EmptyDispatcher :: ConditionDispatcher where
  "EmptyDispatcher cond ctx groups = NotApplicable"

section \<open>Write-time validation\<close>

datatype UnsupportedCondition = UnsupportedCondition (unsupported_iri: string)

fun first_unknown :: "Condition list \<Rightarrow> string option" where
  "first_unknown [] = None"
| "first_unknown (Unknown i # cs) = Some i"
| "first_unknown (c # cs) = first_unknown cs"

fun validate_graph :: "AclAuthorization list \<Rightarrow> UnsupportedCondition + unit" where
  "validate_graph [] = Inr ()"
| "validate_graph (auth # rest) =
     (case aa_condition auth of
        None \<Rightarrow> validate_graph rest
      | Some conds \<Rightarrow> (case first_unknown conds of
          Some i \<Rightarrow> Inl (UnsupportedCondition i)
        | None \<Rightarrow> validate_graph rest))"

definition validate_for_write ::
    "AclDocument \<Rightarrow> ConditionRegistry \<Rightarrow> UnsupportedCondition + unit" where
  "validate_for_write doc registry = (case doc_graph doc of
     None \<Rightarrow> Inr () | Some graph \<Rightarrow> validate_graph graph)"

definition validate_acl_document :: "AclDocument \<Rightarrow> UnsupportedCondition + unit" where
  "validate_acl_document doc = validate_for_write doc default_with_client_and_issuer"

section \<open>Lemmas\<close>

lemma get_ids_simps [simp]:
  "get_ids None = []" "get_ids (Some (Single r)) = [ref_id r]"
  "get_ids (Some (Multiple rs)) = map ref_id rs"
  by (simp_all add: get_ids_def)

lemma get_ids_ids_of [simp]: "get_ids (Some (ids_of xs)) = xs"
  by (auto simp: ids_of_def comp_def split: list.splits)

lemma registry_unknown [simp]: "registry_dispatch r (Unknown i) ctx g = NotApplicable"
  by (simp add: registry_dispatch_def)

lemma map_mode_write_append: "Write \<in> set (map_mode m) \<Longrightarrow> Append \<in> set (map_mode m)"
  by (auto simp: map_mode_def split: if_splits)

lemma first_unknown_None_iff:
  "first_unknown cs = None \<longleftrightarrow> (\<forall>c \<in> set cs. \<forall>i. c \<noteq> Unknown i)"
  by (induction cs rule: first_unknown.induct) auto

lemma first_unknown_SomeD: "first_unknown cs = Some i \<Longrightarrow> Unknown i \<in> set cs"
  by (induction cs rule: first_unknown.induct) auto

lemma client_evaluate_iff:
  "client_evaluate b ctx g = Satisfied \<longleftrightarrow>
     (\<exists>c \<in> set (get_ids (cc_client_class b)). is_foaf_agent c) \<or>
     (\<exists>cid. rc_client_id ctx = Some cid \<and>
        (cid \<in> set (get_ids (cc_client b)) \<or> (\<exists>gr \<in> set (get_ids (cc_client_group b)). g gr cid)))"
  by (auto simp: client_evaluate_def list_ex_iff split: option.splits)

lemma issuer_evaluate_iff:
  "issuer_evaluate b ctx g = Satisfied \<longleftrightarrow>
     (\<exists>c \<in> set (get_ids (ic_issuer_class b)). is_foaf_agent c) \<or>
     (\<exists>iss. rc_issuer ctx = Some iss \<and>
        (iss \<in> set (get_ids (ic_issuer b)) \<or> (\<exists>gr \<in> set (get_ids (ic_issuer_group b)). g gr iss)))"
  by (auto simp: issuer_evaluate_def list_ex_iff split: option.splits)

end
