(* ===== verification/Wac_Origin.thy ===== *)
theory Wac_Origin
  imports Wac_Document
begin

text \<open>
  The \<open>acl:origin\<close> gate (\<open>wac/origin.rs\<close>): canonical origins, rule-declared patterns, and the
  document-wide decision. The \<open>url\<close> crate's parser is a parameter; of a parsed URL the code
  reads the scheme, the host and the port, which is absent when it is the scheme's default.
\<close>

record Url =
  url_scheme :: string
  url_host_str :: "string option"
  url_port :: "u16 option"

datatype Origin = Origin (as_str: string)

datatype OriginPattern = Exact Origin | Wildcard string string | Any

definition from_url :: "Url \<Rightarrow> Origin option" where
  "from_url url = (let scheme = to_ascii_lowercase (url_scheme url) in
     case url_host_str url of
       None \<Rightarrow> None
     | Some h \<Rightarrow> (let host = to_ascii_lowercase h in
         Some (Origin (case url_port url of
             None \<Rightarrow> scheme @ ''://'' @ host
           | Some p \<Rightarrow> scheme @ ''://'' @ host @ '':'' @ show_nat (unat p)))))"

definition origin_parse :: "(string \<Rightarrow> Url option) \<Rightarrow> string \<Rightarrow> Origin option" where
  "origin_parse url_parse s = (let trimmed = trim s in
     if trimmed = [] then None
     else case url_parse trimmed of None \<Rightarrow> None | Some url \<Rightarrow> from_url url)"

definition parse_wildcard :: "string \<Rightarrow> string \<Rightarrow> OriginPattern option" where
  "parse_wildcard scheme suffix_part =
     (if suffix_part = [] then None
      else if find_ws_or [] suffix_part \<noteq> None \<or> CHR ''*'' \<in> set suffix_part then None
      else if CHR ''/'' \<in> set suffix_part then None
      else Some (Wildcard scheme (to_ascii_lowercase suffix_part)))"

definition pattern_parse :: "(string \<Rightarrow> Url option) \<Rightarrow> string \<Rightarrow> OriginPattern option" where
  "pattern_parse url_parse s = (let trimmed = trim s in
     if trimmed = [] then None
     else if trimmed = ''*'' then Some Any
     else case strip_prefix ''https://*.'' trimmed of
       Some rest \<Rightarrow> parse_wildcard ''https'' rest
     | None \<Rightarrow> (case strip_prefix ''http://*.'' trimmed of
         Some rest \<Rightarrow> parse_wildcard ''http'' rest
       | None \<Rightarrow>
           if ends_with ''/'' trimmed then None
           else (case origin_parse url_parse trimmed of
               None \<Rightarrow> None
             | Some origin \<Rightarrow>
                 if as_str origin \<noteq> to_ascii_lowercase trimmed then None
                 else Some (Exact origin))))"

definition host_part :: "string \<Rightarrow> string" where
  "host_part s = (case split_once (CHR '':'') s of Some (h, _) \<Rightarrow> h | None \<Rightarrow> s)"

definition pattern_matches :: "OriginPattern \<Rightarrow> Origin \<Rightarrow> bool" where
  "pattern_matches p origin = (case p of
     Any \<Rightarrow> True
   | Exact expected \<Rightarrow> expected = origin
   | Wildcard scheme suffix \<Rightarrow>
       (case split_once_sub ''://'' (as_str origin) of
          None \<Rightarrow> False
        | Some (req_scheme, req_rest) \<Rightarrow>
            if req_scheme \<noteq> scheme then False
            else (let req_host = host_part req_rest;
                      needle = ''.'' @ host_part suffix
                  in ends_with needle req_host \<and> length needle < length req_host)))"

definition extract_origin_patterns ::
    "(string \<Rightarrow> Url option) \<Rightarrow> AclAuthorization \<Rightarrow> OriginPattern list" where
  "extract_origin_patterns url_parse auth =
     List.map_filter (pattern_parse url_parse) (get_ids (aa_origin auth))"

datatype OriginDecision = NoPolicySet | Permitted | RejectedMismatch | RejectedNoOrigin

definition pattern_key :: "OriginPattern \<Rightarrow> string" where
  "pattern_key p = (case p of
     Any \<Rightarrow> ''*''
   | Exact org \<Rightarrow> ''exact:'' @ as_str org
   | Wildcard scheme suffix \<Rightarrow> ''wild:'' @ scheme @ ''://*.'' @ suffix)"

text \<open>The loop body over the patterns of all authorisations, with its three locals.\<close>

fun scan_patterns ::
    "Origin option \<Rightarrow> OriginPattern list \<Rightarrow> string set \<Rightarrow> bool \<Rightarrow> bool \<Rightarrow> bool \<times> bool" where
  "scan_patterns req [] seen any_patterns matched = (any_patterns, matched)"
| "scan_patterns req (p # ps) seen any_patterns matched =
     (if pattern_key p \<in> seen then scan_patterns req ps seen any_patterns matched
      else scan_patterns req ps (insert (pattern_key p) seen) True
        (case req of Some r \<Rightarrow> matched \<or> pattern_matches p r | None \<Rightarrow> matched))"

definition check_origin ::
    "(string \<Rightarrow> Url option) \<Rightarrow> AclDocument \<Rightarrow> Origin option \<Rightarrow> OriginDecision" where
  "check_origin url_parse acl request_origin = (case doc_graph acl of
     None \<Rightarrow> NoPolicySet
   | Some g \<Rightarrow>
       (case scan_patterns request_origin (concat (map (extract_origin_patterns url_parse) g))
               {} False False of
          (any_patterns, matched) \<Rightarrow>
            if \<not> any_patterns then NoPolicySet
            else if matched then Permitted
            else if request_origin = None then RejectedNoOrigin
            else RejectedMismatch))"

section \<open>The decision, independent of the de-duplication\<close>

fun wf_pattern :: "OriginPattern \<Rightarrow> bool" where
  "wf_pattern (Wildcard scheme suffix) = (scheme = ''https'' \<or> scheme = ''http'')"
| "wf_pattern p = True"

lemma pattern_parse_wf: "pattern_parse up s = Some p \<Longrightarrow> wf_pattern p"
  by (auto simp: pattern_parse_def parse_wildcard_def Let_def split: if_splits option.splits)

lemma extract_wf: "p \<in> set (extract_origin_patterns up a) \<Longrightarrow> wf_pattern p"
  by (auto simp: extract_origin_patterns_def List.map_filter_def dest: pattern_parse_wf)

lemma pattern_key_inj: "wf_pattern p \<Longrightarrow> wf_pattern q \<Longrightarrow> pattern_key p = pattern_key q \<Longrightarrow> p = q"
  by (cases p; cases q) (auto simp: pattern_key_def intro: Origin.expand)

definition origin_hit :: "Origin option \<Rightarrow> OriginPattern \<Rightarrow> bool" where
  "origin_hit req p \<longleftrightarrow> (\<exists>r. req = Some r \<and> pattern_matches p r)"

lemma scan_patterns_spec:
  assumes "\<forall>p \<in> set done \<union> set ps. wf_pattern p"
    and "seen = pattern_key ` set done"
    and "any_patterns \<longleftrightarrow> done \<noteq> []" "matched \<longleftrightarrow> (\<exists>p \<in> set done. origin_hit req p)"
  shows "scan_patterns req ps seen any_patterns matched =
    (done @ ps \<noteq> [], \<exists>p \<in> set (done @ ps). origin_hit req p)"
  using assms
proof (induction ps arbitrary: "done" seen any_patterns matched)
  case (Cons p ps)
  show ?case
  proof (cases "pattern_key p \<in> seen")
    case True
    then have "p \<in> set done"
      using Cons.prems(1,2) pattern_key_inj by auto
    then have "scan_patterns req ps seen any_patterns matched =
        ((done @ [p]) @ ps \<noteq> [], \<exists>q \<in> set ((done @ [p]) @ ps). origin_hit req q)"
      using Cons.prems by (intro Cons.IH) auto
    with True show ?thesis by simp
  next
    case False
    have "scan_patterns req ps (insert (pattern_key p) seen) True
        (case req of Some r \<Rightarrow> matched \<or> pattern_matches p r | None \<Rightarrow> matched) =
        ((done @ [p]) @ ps \<noteq> [], \<exists>q \<in> set ((done @ [p]) @ ps). origin_hit req q)"
      using Cons.prems by (intro Cons.IH) (auto simp: origin_hit_def split: option.splits)
    with False show ?thesis by simp
  qed
qed simp

definition doc_patterns :: "(string \<Rightarrow> Url option) \<Rightarrow> AclDocument \<Rightarrow> OriginPattern set" where
  "doc_patterns up acl = (case doc_graph acl of None \<Rightarrow> {}
     | Some g \<Rightarrow> (\<Union>a \<in> set g. set (extract_origin_patterns up a)))"

lemma check_origin_eq:
  "check_origin up acl req =
     (if doc_patterns up acl = {} then NoPolicySet
      else if \<exists>p \<in> doc_patterns up acl. origin_hit req p then Permitted
      else if req = None then RejectedNoOrigin else RejectedMismatch)"
proof (cases "doc_graph acl")
  case (Some g)
  let ?ps = "concat (map (extract_origin_patterns up) g)"
  have "scan_patterns req ?ps {} False False = (?ps \<noteq> [], \<exists>p \<in> set ?ps. origin_hit req p)"
    using scan_patterns_spec [of "[]" ?ps "{}" False False req] by (auto dest: extract_wf)
  moreover have "doc_patterns up acl = set ?ps"
    using Some by (auto simp: doc_patterns_def)
  ultimately show ?thesis using Some by (auto simp: check_origin_def)
qed (simp add: check_origin_def doc_patterns_def)

lemma check_origin_allows_iff:
  "check_origin up acl req \<in> {NoPolicySet, Permitted} \<longleftrightarrow>
     doc_patterns up acl = {} \<or> (\<exists>p \<in> doc_patterns up acl. origin_hit req p)"
  by (simp add: check_origin_eq)

section \<open>Wildcards never match the apex\<close>

lemma wildcard_match_host:
  assumes "pattern_matches (Wildcard scheme suffix) (Origin s)"
  obtains sub port where "s = scheme @ ''://'' @ sub @ ''.'' @ host_part suffix @ port"
    "sub \<noteq> []" "CHR '':'' \<notin> set sub" "port = [] \<or> hd port = CHR '':''"
proof -
  obtain rest where s: "s = scheme @ ''://'' @ rest"
    and e: "ends_with (''.'' @ host_part suffix) (host_part rest)"
    and l: "length (''.'' @ host_part suffix) < length (host_part rest)"
    using assms by (auto simp: pattern_matches_def Let_def split: option.splits if_splits
      dest: split_once_sub_Some)
  obtain sub where h: "host_part rest = sub @ ''.'' @ host_part suffix"
    using e by (auto simp: ends_with_iff)
  obtain port where r: "rest = host_part rest @ port" "port = [] \<or> hd port = CHR '':''"
    "CHR '':'' \<notin> set (host_part rest)"
    by (cases "split_once (CHR '':'') rest")
      (auto simp: host_part_def split_once_None_iff split_once_Some_iff)
  show thesis
  proof (rule that)
    show "s = scheme @ ''://'' @ sub @ ''.'' @ host_part suffix @ port"
      using s h r(1) by simp
    show "sub \<noteq> []" using l h by auto
    show "CHR '':'' \<notin> set sub" using r(3) h by auto
  qed (rule r(2))
qed

end
