(* ===== verification/Wac_Evaluator.thy ===== *)
theory Wac_Evaluator
  imports Wac_Origin
begin

text \<open>
  The WAC evaluation engine (\<open>wac/evaluator.rs\<close>) and the \<open>WAC-Allow\<close> header (\<open>wac/mod.rs\<close>),
  with an abstract specification of an access decision and its refinement.

  The evaluator's configuration is the \<open>url\<close> crate's parser and the cargo feature
  \<open>acl-origin\<close>. Its one side effect, the counter \<open>ACL_ORIGIN_REJECTED_TOTAL\<close>, is a second
  result: the outcome says which gate denied, and the counter moves on one of them only.
\<close>

record wac_env =
  we_url_parse :: "string \<Rightarrow> Url option"
  we_acl_origin :: bool

section \<open>The engine\<close>

definition normalize_path :: "string \<Rightarrow> string" where
  "normalize_path path =
     (let stripped = or_else (strip_prefix ''./'' path) (strip_prefix ''.'' path);
          base = (case stripped of
             Some s \<Rightarrow> if s = [] then ''/'' else if \<not> starts_with ''/'' s then ''/'' @ s else s
           | None \<Rightarrow> path);
          trimmed = trim_end_matches (CHR ''/'') base
      in if trimmed = [] then ''/'' else trimmed)"

definition path_matches :: "string \<Rightarrow> string \<Rightarrow> bool \<Rightarrow> bool" where
  "path_matches rule_path resource_path is_default =
     (let rule = normalize_path rule_path; resource = normalize_path resource_path in
      if resource = rule then True
      else if \<not> is_default then
        (case strip_prefix (if rule = ''/'' then ''/'' else rule @ ''/'') resource of
           Some rest \<Rightarrow> rest \<noteq> [] \<and> CHR ''/'' \<notin> set rest
         | None \<Rightarrow> False)
      else if rule = ''/'' then starts_with ''/'' resource
      else starts_with (rule @ ''/'') resource)"

definition get_modes :: "AclAuthorization \<Rightarrow> AccessMode list" where
  "get_modes auth = concat (map map_mode (get_ids (aa_mode auth)))"

definition is_authenticated_agent :: "string \<Rightarrow> bool" where
  "is_authenticated_agent cls \<longleftrightarrow> cls = ''acl:AuthenticatedAgent''
     \<or> cls = ''http://www.w3.org/ns/auth/acl#AuthenticatedAgent''"

definition agent_matches_with_groups ::
    "AclAuthorization \<Rightarrow> string option \<Rightarrow> GroupMembership \<Rightarrow> bool" where
  "agent_matches_with_groups auth agent_uri groups =
     (if (case agent_uri of Some uri \<Rightarrow> uri \<in> set (get_ids (aa_agent auth)) | None \<Rightarrow> False) then True
      else if list_ex (\<lambda>cls. is_foaf_agent cls \<or> agent_uri \<noteq> None \<and> is_authenticated_agent cls)
                (get_ids (aa_agent_class auth)) then True
      else (case agent_uri of
              Some uri \<Rightarrow> list_ex (\<lambda>group_iri. groups group_iri uri) (get_ids (aa_agent_group auth))
            | None \<Rightarrow> False))"

definition target_matches :: "AclAuthorization \<Rightarrow> string \<Rightarrow> bool" where
  "target_matches auth resource_path =
     (list_ex (\<lambda>t. path_matches t resource_path False) (get_ids (aa_access_to auth)) \<or>
      list_ex (\<lambda>t. path_matches t resource_path True) (get_ids (aa_default auth)))"

definition conditions_ok ::
    "AclAuthorization \<Rightarrow> RequestContext \<Rightarrow> GroupMembership \<Rightarrow> ConditionDispatcher \<Rightarrow> bool" where
  "conditions_ok auth ctx groups dispatch = (case aa_condition auth of
     None \<Rightarrow> True
   | Some conds \<Rightarrow> list_all (\<lambda>c. dispatch c ctx groups = Satisfied) conds)"

text \<open>The loop over the graph: \<open>continue\<close> on the first test that fails, \<open>break\<close> on a grant.\<close>

fun base_grant :: "AclAuthorization list \<Rightarrow> RequestContext \<Rightarrow> string \<Rightarrow> AccessMode
    \<Rightarrow> GroupMembership \<Rightarrow> ConditionDispatcher \<Rightarrow> bool" where
  "base_grant [] ctx resource_path required_mode groups dispatch = False"
| "base_grant (auth # graph) ctx resource_path required_mode groups dispatch =
     (if required_mode \<notin> set (get_modes auth)
        then base_grant graph ctx resource_path required_mode groups dispatch
      else if \<not> agent_matches_with_groups auth (rc_web_id ctx) groups
        then base_grant graph ctx resource_path required_mode groups dispatch
      else if \<not> target_matches auth resource_path
        then base_grant graph ctx resource_path required_mode groups dispatch
      else if \<not> conditions_ok auth ctx groups dispatch
        then base_grant graph ctx resource_path required_mode groups dispatch
      else True)"

datatype access_outcome = AccessGranted | DeniedByRules | DeniedByOrigin

definition evaluate_access_ctx_inner :: "wac_env \<Rightarrow> AclDocument option \<Rightarrow> RequestContext \<Rightarrow> string
    \<Rightarrow> AccessMode \<Rightarrow> Origin option \<Rightarrow> GroupMembership \<Rightarrow> ConditionDispatcher \<Rightarrow> access_outcome" where
  "evaluate_access_ctx_inner env acl_doc ctx resource_path required_mode request_origin groups dispatch =
     (case acl_doc of
        None \<Rightarrow> DeniedByRules
      | Some doc \<Rightarrow> (case doc_graph doc of
          None \<Rightarrow> DeniedByRules
        | Some graph \<Rightarrow>
            if \<not> base_grant graph ctx resource_path required_mode groups dispatch then DeniedByRules
            else if required_mode = Control then AccessGranted
            else if we_acl_origin env then
              (case check_origin (we_url_parse env) doc request_origin of
                 NoPolicySet \<Rightarrow> AccessGranted
               | Permitted \<Rightarrow> AccessGranted
               | RejectedMismatch \<Rightarrow> DeniedByOrigin
               | RejectedNoOrigin \<Rightarrow> DeniedByOrigin)
            else AccessGranted))"

definition acl_origin_rejected_total :: "access_outcome \<Rightarrow> u64 \<Rightarrow> u64" where
  "acl_origin_rejected_total outcome n = (if outcome = DeniedByOrigin then n + 1 else n)"

definition evaluate_access_ctx :: "wac_env \<Rightarrow> AclDocument option \<Rightarrow> RequestContext \<Rightarrow> string
    \<Rightarrow> AccessMode \<Rightarrow> Origin option \<Rightarrow> GroupMembership \<Rightarrow> ConditionDispatcher \<Rightarrow> bool" where
  "evaluate_access_ctx env acl_doc ctx resource_path required_mode request_origin groups dispatch =
     (evaluate_access_ctx_inner env acl_doc ctx resource_path required_mode request_origin groups dispatch
        = AccessGranted)"

definition evaluate_access_ctx_with_registry :: "wac_env \<Rightarrow> AclDocument option \<Rightarrow> RequestContext \<Rightarrow> string
    \<Rightarrow> AccessMode \<Rightarrow> Origin option \<Rightarrow> GroupMembership \<Rightarrow> ConditionRegistry \<Rightarrow> bool" where
  "evaluate_access_ctx_with_registry env acl_doc ctx resource_path required_mode request_origin groups registry =
     (evaluate_access_ctx_inner env acl_doc ctx resource_path required_mode request_origin groups
        (registry_dispatch registry) = AccessGranted)"

definition evaluate_access_with_groups :: "wac_env \<Rightarrow> AclDocument option \<Rightarrow> string option \<Rightarrow> string
    \<Rightarrow> AccessMode \<Rightarrow> Origin option \<Rightarrow> GroupMembership \<Rightarrow> bool" where
  "evaluate_access_with_groups env acl_doc agent_uri resource_path required_mode request_origin groups =
     (evaluate_access_ctx_inner env acl_doc
        \<lparr>rc_web_id = agent_uri, rc_client_id = None, rc_issuer = None\<rparr>
        resource_path required_mode request_origin groups EmptyDispatcher = AccessGranted)"

definition evaluate_access :: "wac_env \<Rightarrow> AclDocument option \<Rightarrow> string option \<Rightarrow> string
    \<Rightarrow> AccessMode \<Rightarrow> Origin option \<Rightarrow> bool" where
  "evaluate_access env acl_doc agent_uri resource_path required_mode request_origin =
     evaluate_access_with_groups env acl_doc agent_uri resource_path required_mode request_origin
       NoGroupMembership"

section \<open>The WAC-Allow header\<close>

definition allow_line :: "string list \<Rightarrow> string list \<Rightarrow> string" where
  "allow_line user_modes public_modes =
     ''user='' @ [CHR 0x22] @ join '' '' user_modes @ [CHR 0x22] @ '', public='' @ [CHR 0x22] @
     join '' '' public_modes @ [CHR 0x22]"

definition wac_allow_header :: "wac_env \<Rightarrow> AclDocument option \<Rightarrow> string option \<Rightarrow> string \<Rightarrow> string" where
  "wac_allow_header env acl_doc agent_uri resource_path = allow_line
     (map mode_name (filter (\<lambda>m. evaluate_access env acl_doc agent_uri resource_path m None) ALL_MODES))
     (map mode_name (filter (\<lambda>m. evaluate_access env acl_doc None resource_path m None) ALL_MODES))"

definition wac_allow_header_with_dispatcher :: "wac_env \<Rightarrow> AclDocument option \<Rightarrow> RequestContext
    \<Rightarrow> string \<Rightarrow> GroupMembership \<Rightarrow> ConditionDispatcher \<Rightarrow> string" where
  "wac_allow_header_with_dispatcher env acl_doc ctx resource_path groups dispatch = allow_line
     (map mode_name (filter (\<lambda>m. evaluate_access_ctx env acl_doc ctx resource_path m None groups dispatch)
        ALL_MODES))
     (map mode_name (filter (\<lambda>m. evaluate_access_ctx env acl_doc (ctx\<lparr>rc_web_id := None\<rparr>)
        resource_path m None groups dispatch) ALL_MODES))"

section \<open>Paths as segment lists\<close>

definition seg_ok :: "string \<Rightarrow> bool" where
  "seg_ok s \<longleftrightarrow> s \<noteq> [] \<and> CHR ''/'' \<notin> set s"

definition segs_str :: "string list \<Rightarrow> string" where
  "segs_str ss = concat (map ((#) (CHR ''/'')) ss)"

definition path_of :: "string list \<Rightarrow> string" where
  "path_of ss = (if ss = [] then ''/'' else segs_str ss)"

lemma segs_str_simps [simp]:
  "segs_str [] = []" "segs_str (s # ss) = CHR ''/'' # s @ segs_str ss"
  "segs_str (xs @ ys) = segs_str xs @ segs_str ys"
  by (simp_all add: segs_str_def)

lemma segs_str_last: "ss \<noteq> [] \<Longrightarrow> list_all seg_ok ss \<Longrightarrow>
    segs_str ss \<noteq> [] \<and> last (segs_str ss) \<noteq> CHR ''/''"
  by (induction ss rule: rev_induct) (auto simp: seg_ok_def, metis last_in_set)

lemma segs_str_eq_prefix:
  assumes "list_all seg_ok a" "list_all seg_ok b"
    and "segs_str b = segs_str a @ r" "r = [] \<or> hd r = CHR ''/''"
  shows "\<exists>c. b = a @ c \<and> r = segs_str c"
  using assms
proof (induction a arbitrary: b)
  case (Cons s ss)
  then obtain t ts where b: "b = t # ts" by (cases b) auto
  have st: "CHR ''/'' \<notin> set s" "CHR ''/'' \<notin> set t" using Cons.prems b by (auto simp: seg_ok_def)
  have eq: "t @ segs_str ts = s @ (segs_str ss @ r)" using Cons.prems b by simp
  have sl: "segs_str ts = [] \<or> hd (segs_str ts) = CHR ''/''" by (cases ts) simp_all
  have sr: "segs_str ss @ r = [] \<or> hd (segs_str ss @ r) = CHR ''/''"
    using Cons.prems(4) by (cases ss) simp_all
  have "takeWhile ((\<noteq>) (CHR ''/'')) (u @ v) = u"
    if "CHR ''/'' \<notin> set u" "v = [] \<or> hd v = CHR ''/''" for u v
    using that by (induction u; cases v) auto
  then have "t = s" using eq st sl sr by metis
  with eq have "segs_str ts = segs_str ss @ r" by simp
  with Cons b show ?case using \<open>t = s\<close> by auto
qed simp

lemma segs_str_inj: "list_all seg_ok a \<Longrightarrow> list_all seg_ok b \<Longrightarrow> segs_str b = segs_str a \<longleftrightarrow> b = a"
  using segs_str_eq_prefix [of a b "[]"] by (auto simp: segs_str_def)

lemma path_of_inj: "list_all seg_ok a \<Longrightarrow> list_all seg_ok b \<Longrightarrow> path_of b = path_of a \<longleftrightarrow> b = a"
proof -
  have "segs_str x \<noteq> ''/''" if "list_all seg_ok x" "x \<noteq> []" for x
    using segs_str_last [OF that(2,1)] by auto
  then show "list_all seg_ok a \<Longrightarrow> list_all seg_ok b \<Longrightarrow> path_of b = path_of a \<longleftrightarrow> b = a"
    by (auto simp: path_of_def segs_str_inj) metis
qed

lemma path_of_slash: "\<exists>r. path_of ss = CHR ''/'' # r"
  by (cases ss) (auto simp: path_of_def)

lemma normalize_path_of:
  assumes "list_all seg_ok ss"
  shows "normalize_path (path_of ss @ replicate n (CHR ''/'')) = path_of ss"
proof -
  obtain r where r: "path_of ss = CHR ''/'' # r" using path_of_slash by blast
  have "trim_end_matches (CHR ''/'') (path_of ss @ replicate n (CHR ''/'')) =
      (if ss = [] then [] else path_of ss)"
    using segs_str_last [OF _ assms] trim_end_matches_no [of "path_of ss" "CHR ''/''"]
      trim_end_matches_replicate [of "CHR ''/''" "path_of ss" n]
    by (auto simp: path_of_def) (simp add: trim_end_matches_def)
  then show ?thesis using r by (auto simp: normalize_path_def path_of_def Let_def)
qed

lemma normalize_path_idem: "normalize_path p \<noteq> [] \<and> (\<forall>s. normalize_path p = CHR ''/'' # s \<longrightarrow>
    normalize_path (normalize_path p) = normalize_path p)"
proof -
  have "normalize_path (trim_end_matches (CHR ''/'') b) = trim_end_matches (CHR ''/'') b"
    if "trim_end_matches (CHR ''/'') b = CHR ''/'' # s" for b s
    using that trim_end_matches_idem [of "CHR ''/''" b] by (simp add: normalize_path_def)
  moreover have "normalize_path ''/'' = ''/''"
    by (simp add: normalize_path_def trim_end_matches_def)
  ultimately show ?thesis
    by (auto simp: normalize_path_def [of p] Let_def)
qed

lemma prefix_path_iff:
  assumes "list_all seg_ok a" "list_all seg_ok b"
  shows "strip_prefix (if path_of a = ''/'' then ''/'' else path_of a @ ''/'') (path_of b) = Some r \<longleftrightarrow>
    (a = [] \<and> b = [] \<and> r = [] \<or> (\<exists>s c. b = a @ s # c \<and> r = s @ segs_str c))"
proof -
  have root: "path_of a = ''/'' \<longleftrightarrow> a = []"
    using path_of_inj [OF _ assms(1), of "[]"] by (auto simp: path_of_def)
  have "segs_str b = segs_str a @ CHR ''/'' # r \<longleftrightarrow> (\<exists>s c. b = a @ s # c \<and> r = s @ segs_str c)"
  proof
    assume "segs_str b = segs_str a @ CHR ''/'' # r"
    then obtain c where "b = a @ c" "CHR ''/'' # r = segs_str c"
      using segs_str_eq_prefix [OF assms] by force
    then show "\<exists>s c. b = a @ s # c \<and> r = s @ segs_str c" by (cases c) auto
  qed auto
  then show ?thesis
    using root by (cases "b = []"; cases a) (auto simp: strip_prefix_Some_iff path_of_def)
qed

lemma path_matches_segs:
  assumes "list_all seg_ok a" "list_all seg_ok b"
  shows "path_matches (path_of a @ replicate i (CHR ''/'')) (path_of b @ replicate j (CHR ''/'')) d \<longleftrightarrow>
    (if d then \<exists>c. b = a @ c else b = a \<or> (\<exists>s. b = a @ [s]))"
proof -
  let ?pre = "if path_of a = ''/'' then ''/'' else path_of a @ ''/''"
  have eq: "path_of b = path_of a \<longleftrightarrow> b = a" using path_of_inj assms by simp
  have seg: "s @ segs_str c \<noteq> [] \<and> CHR ''/'' \<notin> set (s @ segs_str c) \<longleftrightarrow> c = []"
    if "b = a @ s # c" for s c
    using that assms(2) by (cases c) (auto simp: seg_ok_def)
  have "path_matches (path_of a @ replicate i (CHR ''/'')) (path_of b @ replicate j (CHR ''/'')) d \<longleftrightarrow>
      path_of b = path_of a \<or> (\<exists>r. strip_prefix ?pre (path_of b) = Some r \<and>
        (d \<or> r \<noteq> [] \<and> CHR ''/'' \<notin> set r))"
    unfolding path_matches_def normalize_path_of [OF assms(1)] normalize_path_of [OF assms(2)] Let_def
    by (cases d) (auto simp: strip_prefix_def)
  also have "\<dots> \<longleftrightarrow> b = a \<or> (\<exists>s c. b = a @ s # c \<and> (d \<or> c = []))"
    unfolding eq prefix_path_iff [OF assms] using seg by auto
  also have "\<dots> \<longleftrightarrow> (if d then \<exists>c. b = a @ c else b = a \<or> (\<exists>s. b = a @ [s]))"
    by (auto simp: neq_Nil_conv) (metis append_Nil2 neq_Nil_conv)
  finally show ?thesis .
qed

section \<open>The decision, specified\<close>

text \<open>Who an authorisation names, one rule per clause of the specification.\<close>

inductive names_agent :: "AclAuthorization \<Rightarrow> string option \<Rightarrow> GroupMembership \<Rightarrow> bool" where
  by_id: "uri \<in> set (get_ids (aa_agent a)) \<Longrightarrow> names_agent a (Some uri) g"
| public: "cls \<in> set (get_ids (aa_agent_class a)) \<Longrightarrow> is_foaf_agent cls \<Longrightarrow> names_agent a who g"
| authenticated: "cls \<in> set (get_ids (aa_agent_class a)) \<Longrightarrow> is_authenticated_agent cls
    \<Longrightarrow> names_agent a (Some uri) g"
| by_group: "grp \<in> set (get_ids (aa_agent_group a)) \<Longrightarrow> g grp uri \<Longrightarrow> names_agent a (Some uri) g"

inductive_simps names_agent_simps [simp]: "names_agent a None g" "names_agent a (Some uri) g"

text \<open>What an authorisation covers: an \<open>acl:accessTo\<close> target itself and its direct children, an
  \<open>acl:default\<close> target with all its descendants.\<close>

inductive covers :: "AclAuthorization \<Rightarrow> string list \<Rightarrow> bool" where
  exact: "path_of ss @ replicate i (CHR ''/'') \<in> set (get_ids (aa_access_to a)) \<Longrightarrow> list_all seg_ok ss
    \<Longrightarrow> covers a ss"
| child: "path_of ss @ replicate i (CHR ''/'') \<in> set (get_ids (aa_access_to a)) \<Longrightarrow> list_all seg_ok ss
    \<Longrightarrow> covers a (ss @ [s])"
| inherited: "path_of ss @ replicate i (CHR ''/'') \<in> set (get_ids (aa_default a)) \<Longrightarrow> list_all seg_ok ss
    \<Longrightarrow> covers a (ss @ below)"

definition pathlike :: "string \<Rightarrow> bool" where
  "pathlike t \<longleftrightarrow> (\<exists>ss i. list_all seg_ok ss \<and> t = path_of ss @ replicate i (CHR ''/''))"

definition authorises :: "AclAuthorization \<Rightarrow> RequestContext \<Rightarrow> string list \<Rightarrow> AccessMode
    \<Rightarrow> GroupMembership \<Rightarrow> ConditionDispatcher \<Rightarrow> bool" where
  "authorises a ctx ss mode groups dispatch \<longleftrightarrow>
     (\<exists>m \<in> set (get_ids (aa_mode a)). mode \<in> set (map_mode m)) \<and>
     names_agent a (rc_web_id ctx) groups \<and> covers a ss \<and>
     (\<forall>conds. aa_condition a = Some conds \<longrightarrow> (\<forall>c \<in> set conds. dispatch c ctx groups = Satisfied))"

lemma agent_matches_iff: "agent_matches_with_groups a who g \<longleftrightarrow> names_agent a who g"
  by (cases who) (auto simp: agent_matches_with_groups_def list_ex_iff)

lemma covers_iff:
  assumes "list_all seg_ok ss"
    and "\<forall>t \<in> set (get_ids (aa_access_to a)) \<union> set (get_ids (aa_default a)). pathlike t"
  shows "target_matches a (path_of ss @ replicate j (CHR ''/'')) \<longleftrightarrow> covers a ss"
proof
  assume "target_matches a (path_of ss @ replicate j (CHR ''/''))"
  then obtain t d where t: "path_matches t (path_of ss @ replicate j (CHR ''/'')) d"
    "if d then t \<in> set (get_ids (aa_default a)) else t \<in> set (get_ids (aa_access_to a))"
    by (fastforce simp: target_matches_def list_ex_iff)
  then obtain u i where u: "list_all seg_ok u" "t = path_of u @ replicate i (CHR ''/'')"
    using assms(2) unfolding pathlike_def by (metis Un_iff)
  with t show "covers a ss"
    using path_matches_segs [OF u(1) assms(1), of i j d]
    by (cases d) (auto intro: covers.intros)
next
  assume "covers a ss"
  then show "target_matches a (path_of ss @ replicate j (CHR ''/''))"
  proof cases
    case (exact i)
    then show ?thesis
      using path_matches_segs [OF assms(1) assms(1), of i j False]
      by (auto simp: target_matches_def list_ex_iff)
  next
    case (child u i s)
    then show ?thesis
      using path_matches_segs [OF child(3) assms(1), of i j False]
      by (auto simp: target_matches_def list_ex_iff)
  next
    case (inherited u i below)
    then show ?thesis
      using path_matches_segs [OF inherited(3) assms(1), of i j True]
      by (auto simp: target_matches_def list_ex_iff)
  qed
qed

lemma base_grant_iff:
  "base_grant graph ctx rp mode groups dispatch \<longleftrightarrow>
     (\<exists>a \<in> set graph. mode \<in> set (get_modes a) \<and> names_agent a (rc_web_id ctx) groups \<and>
        target_matches a rp \<and> conditions_ok a ctx groups dispatch)"
  by (induction graph) (auto simp: agent_matches_iff)

lemma base_grant_authorises:
  assumes "list_all seg_ok ss"
    and "\<forall>a \<in> set graph. \<forall>t \<in> set (get_ids (aa_access_to a)) \<union> set (get_ids (aa_default a)). pathlike t"
  shows "base_grant graph ctx (path_of ss @ replicate j (CHR ''/'')) mode groups dispatch \<longleftrightarrow>
    (\<exists>a \<in> set graph. authorises a ctx ss mode groups dispatch)"
proof -
  have "mode \<in> set (get_modes a) \<and> names_agent a (rc_web_id ctx) groups \<and>
      target_matches a (path_of ss @ replicate j (CHR ''/'')) \<and> conditions_ok a ctx groups dispatch
      \<longleftrightarrow> authorises a ctx ss mode groups dispatch" if "a \<in> set graph" for a
  proof -
    have "target_matches a (path_of ss @ replicate j (CHR ''/'')) \<longleftrightarrow> covers a ss"
      using covers_iff [OF assms(1)] assms(2) that by blast
    then show ?thesis
      by (auto simp: authorises_def get_modes_def conditions_ok_def list_all_iff split: option.splits)
  qed
  then show ?thesis by (simp add: base_grant_iff)
qed

lemma evaluate_inner_granted_iff:
  "evaluate_access_ctx_inner env acl ctx rp mode org groups dispatch = AccessGranted \<longleftrightarrow>
     (\<exists>doc graph. acl = Some doc \<and> doc_graph doc = Some graph \<and>
        base_grant graph ctx rp mode groups dispatch \<and>
        (mode = Control \<or> \<not> we_acl_origin env \<or>
         check_origin (we_url_parse env) doc org \<in> {NoPolicySet, Permitted}))"
  by (auto simp: evaluate_access_ctx_inner_def split: option.splits OriginDecision.splits)

lemmas evaluate_defs = evaluate_access_def evaluate_access_with_groups_def
  evaluate_access_ctx_with_registry_def evaluate_access_ctx_def

section \<open>The header determines the decisions\<close>

lemma mode_name_chars: "mode_name m \<noteq> [] \<and> CHR '' '' \<notin> set (mode_name m) \<and> CHR 0x22 \<notin> set (mode_name m)"
  by (cases m) simp_all

lemma set_join_subset: "set (join sep ws) \<subseteq> set sep \<union> (\<Union>w \<in> set ws. set w)"
  by (induction sep ws rule: join.induct) auto

lemma join_modes_inj:
  assumes "join '' '' (map mode_name xs) = join '' '' (map mode_name ys)"
  shows "xs = ys"
proof -
  have names: "split_on (CHR '' '') (join '' '' (map mode_name zs)) = (if zs = [] then [[]] else map mode_name zs)"
    for zs using split_on_join [of "map mode_name zs" "CHR '' ''"] mode_name_chars by auto
  have "xs = [] \<longleftrightarrow> ys = []"
    using assms mode_name_chars by (metis join.simps(1) list.map_disc_iff list.set_intros(1) list.set_map
        imageE list.simps(8) names)
  then have "map mode_name xs = map mode_name ys" using names assms by metis
  moreover have "inj mode_name" by (rule injI) (rename_tac a b, case_tac a; case_tac b; simp)
  ultimately show ?thesis by (simp add: inj_map_eq_map)
qed

lemma allow_line_inj:
  assumes "allow_line (map mode_name u) (map mode_name p) = allow_line (map mode_name u') (map mode_name p')"
  shows "u = u' \<and> p = p'"
proof -
  have q: "CHR 0x22 \<notin> set (join '' '' (map mode_name zs))" for zs
    using set_join_subset [of "'' ''" "map mode_name zs"] mode_name_chars by auto
  have "split_once (CHR 0x22) (join '' '' (map mode_name zs) @ CHR 0x22 # r) = Some (join '' '' (map mode_name zs), r)"
    for zs r using q by simp
  then have "join '' '' (map mode_name u) = join '' '' (map mode_name u')"
    and "join '' '' (map mode_name p) = join '' '' (map mode_name p')"
    using assms by (auto simp: allow_line_def dest: arg_cong [where f = "split_once (CHR 0x22)"])
  then show ?thesis by (simp add: join_modes_inj)
qed

lemma filter_modes_eq_iff: "filter P ALL_MODES = filter Q ALL_MODES \<longleftrightarrow> P = Q"
proof
  assume "filter P ALL_MODES = filter Q ALL_MODES"
  then have "set (filter P ALL_MODES) = set (filter Q ALL_MODES)" by (rule arg_cong)
  moreover have "m \<in> set ALL_MODES" for m by (cases m) (simp_all add: ALL_MODES_def)
  ultimately show "P = Q" unfolding set_filter by blast
qed simp

section \<open>Properties\<close>

text \<open>C5: An access decision is exactly the specified one: some authorisation of the document
  carries the mode, names the agent, covers the resource (the target or a direct child for
  \<open>accessTo\<close>, any descendant for \<open>default\<close>) and has all its conditions satisfied, and, except
  for \<open>Control\<close>, the document's origin policy, when the gate is compiled in, admits the
  request origin.\<close>

theorem evaluate_access_ctx_spec:
  assumes "doc_graph doc = Some graph" and "list_all seg_ok ss"
    and "\<forall>a \<in> set graph. \<forall>t \<in> set (get_ids (aa_access_to a)) \<union> set (get_ids (aa_default a)). pathlike t"
  shows "evaluate_access_ctx env (Some doc) ctx (path_of ss @ replicate j (CHR ''/'')) mode org groups dispatch
    \<longleftrightarrow> (\<exists>a \<in> set graph. authorises a ctx ss mode groups dispatch) \<and>
      (mode = Control \<or> \<not> we_acl_origin env \<or> doc_patterns (we_url_parse env) doc = {} \<or>
       (\<exists>p \<in> doc_patterns (we_url_parse env) doc. origin_hit org p))"
  using assms(1) base_grant_authorises [OF assms(2,3)]
  unfolding evaluate_access_ctx_def evaluate_inner_granted_iff check_origin_allows_iff by simp

definition ex_auth :: AclAuthorization where
  "ex_auth = \<lparr>aa_id = Some ''#owner'', aa_type = None,
     aa_agent = Some (Single (IdRef ''did:nostr:owner'')), aa_agent_class = None, aa_agent_group = None,
     aa_origin = None, aa_access_to = Some (Single (IdRef ''/'')), aa_default = Some (Single (IdRef ''/a/'')),
     aa_mode = Some (Single (IdRef ''acl:Write'')), aa_condition = None\<rparr>"

definition ex_public :: AclAuthorization where
  "ex_public = ex_auth\<lparr>aa_agent := None, aa_agent_class := Some (Single (IdRef ''foaf:Agent'')),
     aa_mode := Some (Single (IdRef ''acl:Read''))\<rparr>"

definition ex_env :: wac_env where
  "ex_env = \<lparr>we_url_parse = (\<lambda>_. None), we_acl_origin = True\<rparr>"

definition ex_doc :: AclDocument where
  "ex_doc = \<lparr>doc_context = None, doc_graph = Some [ex_auth, ex_public]\<rparr>"

definition ex_ctx :: RequestContext where
  "ex_ctx = \<lparr>rc_web_id = Some ''did:nostr:owner'', rc_client_id = None, rc_issuer = None\<rparr>"

lemmas ex_defs = ex_auth_def ex_public_def ex_env_def ex_doc_def ex_ctx_def

lemma ex_pathlike: "pathlike ''/''" "pathlike ''/a/''"
  unfolding pathlike_def
  by (rule exI [of _ "[]"], rule exI [of _ 0], simp add: path_of_def)
    (rule exI [of _ "[''a'']"], rule exI [of _ 1], simp add: path_of_def seg_ok_def)

theorem evaluate_access_ctx_spec_witness:
  "evaluate_access_ctx ex_env (Some ex_doc) ex_ctx ''/a/b/c'' Append None NoGroupMembership EmptyDispatcher
   \<and> authorises ex_auth ex_ctx [''a'', ''b'', ''c''] Append NoGroupMembership EmptyDispatcher"
proof -
  have "evaluate_access_ctx ex_env (Some ex_doc) ex_ctx ''/a/b/c'' Append None NoGroupMembership EmptyDispatcher"
    by code_simp
  moreover from this have "\<exists>a \<in> set [ex_auth, ex_public]. authorises a ex_ctx [''a'', ''b'', ''c''] Append
      NoGroupMembership EmptyDispatcher"
    using evaluate_access_ctx_spec [of ex_doc "[ex_auth, ex_public]" "[''a'', ''b'', ''c'']" ex_env ex_ctx 0]
    by (simp add: ex_defs ex_pathlike seg_ok_def path_of_def)
  moreover have "\<not> authorises ex_public ex_ctx [''a'', ''b'', ''c''] Append NoGroupMembership EmptyDispatcher"
    by (simp add: authorises_def ex_defs map_mode_def)
  ultimately show ?thesis by simp
qed

text \<open>What the ACL grants to the public it grants to every agent: authenticating never takes
  access away.\<close>

theorem public_grant_is_universal:
  assumes "evaluate_access env acl None rp mode org"
  shows "evaluate_access env acl (Some agent) rp mode org"
proof -
  have "conditions_ok a c NoGroupMembership EmptyDispatcher = conditions_ok a c' NoGroupMembership EmptyDispatcher"
    for a c c' by (simp add: conditions_ok_def EmptyDispatcher_def split: option.splits)
  then show ?thesis
    using assms unfolding evaluate_defs evaluate_inner_granted_iff base_grant_iff
    by (simp, metis)
qed

theorem public_grant_is_universal_witness:
  "evaluate_access ex_env (Some ex_doc) (Some ''did:nostr:eve'') ''/a/b/c/'' Read None"
  by (rule public_grant_is_universal) code_simp

text \<open>A grant of \<open>Write\<close> is a grant of \<open>Append\<close>, under every context, group resolver and
  condition dispatcher.\<close>

theorem write_grants_append:
  assumes "evaluate_access_ctx env acl ctx rp Write org groups dispatch"
  shows "evaluate_access_ctx env acl ctx rp Append org groups dispatch"
  using assms map_mode_write_append
  by (fastforce simp: evaluate_defs evaluate_inner_granted_iff base_grant_iff get_modes_def)

theorem write_grants_append_witness:
  "evaluate_access_ctx ex_env (Some ex_doc) ex_ctx ''/x'' Append None NoGroupMembership EmptyDispatcher"
  by (rule write_grants_append) code_simp

text \<open>Authorisations only add access: a document with more of them, and the same origin
  policy, grants whatever the smaller one grants.\<close>

theorem more_rules_grant_more:
  assumes "evaluate_access_ctx env (Some d) ctx rp mode org groups dispatch"
    and "doc_graph d = Some g" "doc_graph d' = Some g'" "set g \<subseteq> set g'"
    and "doc_patterns (we_url_parse env) d' = doc_patterns (we_url_parse env) d"
  shows "evaluate_access_ctx env (Some d') ctx rp mode org groups dispatch"
  using assms unfolding evaluate_defs evaluate_inner_granted_iff base_grant_iff check_origin_allows_iff
  by auto

theorem more_rules_grant_more_witness:
  "evaluate_access_ctx ex_env (Some ex_doc) ex_ctx ''/a/b'' Write None NoGroupMembership EmptyDispatcher"
  by (rule more_rules_grant_more [of _ "ex_doc\<lparr>doc_graph := Some [ex_auth]\<rparr>" _ _ _ _ _ _ "[ex_auth]" _
        "[ex_auth, ex_public]"])
    (code_simp, simp_all add: ex_defs doc_patterns_def extract_origin_patterns_def)

text \<open>Fail closed: an authorisation that carries a condition the server does not know is inert
  under every registry; the rule decision is the one without it.\<close>

theorem unknown_conditions_inert:
  assumes "doc_graph d = Some g"
  shows "evaluate_access_ctx_inner env (Some d) ctx rp mode org groups (registry_dispatch r) = DeniedByRules
    \<longleftrightarrow> evaluate_access_ctx_inner env
          (Some (d\<lparr>doc_graph := Some [a \<leftarrow> g. \<forall>cs. aa_condition a = Some cs \<longrightarrow> first_unknown cs = None]\<rparr>))
          ctx rp mode org groups (registry_dispatch r) = DeniedByRules"
proof -
  have "conditions_ok a ctx groups (registry_dispatch r) \<Longrightarrow> aa_condition a = Some cs \<Longrightarrow> first_unknown cs = None"
    for a cs
    by (cases "first_unknown cs") (auto simp: conditions_ok_def list_all_iff dest!: first_unknown_SomeD)
  then have "base_grant g ctx rp mode groups (registry_dispatch r) \<longleftrightarrow>
      base_grant [a \<leftarrow> g. \<forall>cs. aa_condition a = Some cs \<longrightarrow> first_unknown cs = None]
        ctx rp mode groups (registry_dispatch r)"
    by (auto simp: base_grant_iff)
  then show ?thesis
    using assms by (simp add: evaluate_access_ctx_inner_def split: OriginDecision.splits)
qed

theorem unknown_conditions_inert_witness:
  "evaluate_access_ctx_inner ex_env
     (Some (ex_doc\<lparr>doc_graph := Some [ex_auth\<lparr>aa_condition := Some [Unknown ''ex:Cond'']\<rparr>]\<rparr>))
     ex_ctx ''/x'' Write None NoGroupMembership (registry_dispatch default_with_client_and_issuer) = DeniedByRules"
  using unknown_conditions_inert [of "ex_doc\<lparr>doc_graph := Some [ex_auth\<lparr>aa_condition := Some [Unknown ''ex:Cond'']\<rparr>]\<rparr>"
      "[ex_auth\<lparr>aa_condition := Some [Unknown ''ex:Cond'']\<rparr>]"]
  by (simp add: evaluate_access_ctx_inner_def)

text \<open>The \<open>WAC-Allow\<close> header tells exactly the decisions: two headers are equal if and only
  if every mode is decided alike, for the user and for the public.\<close>

theorem wac_allow_header_truthful:
  "wac_allow_header env acl agent rp = wac_allow_header env' acl' agent' rp' \<longleftrightarrow>
     (\<forall>m. evaluate_access env acl agent rp m None = evaluate_access env' acl' agent' rp' m None \<and>
          evaluate_access env acl None rp m None = evaluate_access env' acl' None rp' m None)"
  by (auto simp: wac_allow_header_def dest!: allow_line_inj simp: filter_modes_eq_iff fun_eq_iff)

end
