(* ===== verification/Wac_Parser.thy ===== *)
theory Wac_Parser
  imports Wac_Evaluator
begin

text \<open>
  The Turtle ACL reader (\<open>wac/parser.rs\<close>) and writer (\<open>wac/serializer.rs\<close>), and the bounded
  JSON-LD reader (\<open>wac/mod.rs\<close>). The JSON deserialiser is a parameter, and so is the
  environment (\<open>std::env::var\<close>). A \<open>usize\<close> is a \<open>nat\<close> below \<open>2 ^ 64\<close>; the \<open>i32\<close> nesting
  depths stay below the length of the document, so they are integers.
\<close>

type_synonym prefix_map = "string \<Rightarrow> string option"

definition MAX_ACL_BYTES :: nat where
  "MAX_ACL_BYTES = 1048576"

definition MAX_ACL_JSON_DEPTH :: nat where
  "MAX_ACL_JSON_DEPTH = 32"

text \<open>\<open>std::env::var(name).ok().and_then(|v| v.parse().ok()).unwrap_or(default)\<close>\<close>

definition env_usize :: "(string \<Rightarrow> string option) \<Rightarrow> string \<Rightarrow> nat \<Rightarrow> nat" where
  "env_usize env name dflt =
     unwrap_or (case env name of None \<Rightarrow> None | Some v \<Rightarrow> parse_uint 64 v) dflt"

section \<open>Bounded JSON-LD\<close>

fun json_depth_loop :: "nat \<Rightarrow> nat \<Rightarrow> bool \<Rightarrow> bool \<Rightarrow> bytes \<Rightarrow> PodError + unit" where
  "json_depth_loop max_depth depth in_str esc [] = Inr ()"
| "json_depth_loop max_depth depth in_str esc (b # bs) =
     (if in_str then
        (if esc then json_depth_loop max_depth depth True False bs
         else if b = CHR 0x5C then json_depth_loop max_depth depth True True bs
         else if b = CHR 0x22 then json_depth_loop max_depth depth False esc bs
         else json_depth_loop max_depth depth True esc bs)
      else if b = CHR 0x22 then json_depth_loop max_depth depth True esc bs
      else if b = CHR ''{'' \<or> b = CHR ''['' then
        (if depth + 1 > max_depth then Inl (BadRequest (''ACL JSON depth exceeds '' @ show_nat max_depth))
         else json_depth_loop max_depth (depth + 1) in_str esc bs)
      else if b = CHR ''}'' \<or> b = CHR '']'' then json_depth_loop max_depth (depth - 1) in_str esc bs
      else json_depth_loop max_depth depth in_str esc bs)"

definition check_json_depth :: "bytes \<Rightarrow> nat \<Rightarrow> PodError + unit" where
  "check_json_depth body max_depth = json_depth_loop max_depth 0 False False body"

definition parse_jsonld_acl_with_limits ::
    "(bytes \<Rightarrow> AclDocument option) \<Rightarrow> bytes \<Rightarrow> nat \<Rightarrow> nat \<Rightarrow> PodError + AclDocument" where
  "parse_jsonld_acl_with_limits from_slice body max_bytes max_depth =
     (if length body > max_bytes
        then Inl (PayloadTooLarge (''ACL body exceeds '' @ show_nat max_bytes @ '' bytes''))
      else rbind (check_json_depth body max_depth)
        (\<lambda>_. ok_or (from_slice body) (AclParse ''JSON-LD ACL parse: '')))"

definition parse_jsonld_acl ::
    "(bytes \<Rightarrow> AclDocument option) \<Rightarrow> (string \<Rightarrow> string option) \<Rightarrow> bytes \<Rightarrow> PodError + AclDocument" where
  "parse_jsonld_acl from_slice env body =
     parse_jsonld_acl_with_limits from_slice body
       (env_usize env ''JSS_MAX_ACL_BYTES'' MAX_ACL_BYTES)
       (env_usize env ''JSS_MAX_ACL_JSON_DEPTH'' MAX_ACL_JSON_DEPTH)"

section \<open>Tokens\<close>

fun strip_comment_line :: "bool \<Rightarrow> string \<Rightarrow> string" where
  "strip_comment_line in_iri [] = []"
| "strip_comment_line in_iri (c # cs) =
     (if c = CHR ''<'' then c # strip_comment_line True cs
      else if c = CHR ''>'' then c # strip_comment_line False cs
      else if c = CHR ''#'' \<and> \<not> in_iri then []
      else c # strip_comment_line in_iri cs)"

definition strip_turtle_comments :: "string \<Rightarrow> string" where
  "strip_turtle_comments input =
     concat (map (\<lambda>line. strip_comment_line False line @ [CHR 0x0A]) (str_lines input))"

fun split_statements :: "int \<Rightarrow> bool \<Rightarrow> string \<Rightarrow> string \<Rightarrow> string list" where
  "split_statements depth_iri in_str cur [] = (if trim cur \<noteq> [] then [cur] else [])"
| "split_statements depth_iri in_str cur (c # cs) =
     (if c = CHR ''<'' \<and> \<not> in_str then split_statements (depth_iri + 1) in_str (cur @ [c]) cs
      else if c = CHR ''>'' \<and> \<not> in_str
        then split_statements (max (depth_iri - 1) 0) in_str (cur @ [c]) cs
      else if c = CHR 0x22 then split_statements depth_iri (\<not> in_str) (cur @ [c]) cs
      else if c = CHR ''.'' \<and> depth_iri = 0 \<and> \<not> in_str
        then cur # split_statements depth_iri in_str [] cs
      else split_statements depth_iri in_str (cur @ [c]) cs)"

definition split_turtle_statements :: "string \<Rightarrow> string list" where
  "split_turtle_statements input = split_statements 0 False [] input"

fun split_predicates :: "int \<Rightarrow> bool \<Rightarrow> string \<Rightarrow> string \<Rightarrow> string list" where
  "split_predicates depth in_str cur [] = (if trim cur \<noteq> [] then [cur] else [])"
| "split_predicates depth in_str cur (c # cs) =
     (if c = CHR 0x22 then split_predicates depth (\<not> in_str) (cur @ [c]) cs
      else if c = CHR ''['' \<and> \<not> in_str then split_predicates (depth + 1) in_str (cur @ [c]) cs
      else if c = CHR '']'' \<and> \<not> in_str
        then split_predicates (max (depth - 1) 0) in_str (cur @ [c]) cs
      else if c = CHR '';'' \<and> \<not> in_str \<and> depth = 0
        then cur # split_predicates depth in_str [] cs
      else split_predicates depth in_str (cur @ [c]) cs)"

definition split_predicate_list :: "string \<Rightarrow> string list" where
  "split_predicate_list input = split_predicates 0 False [] input"

definition turtle_pop_term :: "string \<Rightarrow> (string \<times> string) option" where
  "turtle_pop_term input0 = (let input = trim_start input0 in
     case strip_prefix ''<'' input of
       Some rest \<Rightarrow> (case find_char ((=) (CHR ''>'')) rest of
           None \<Rightarrow> None
         | Some e \<Rightarrow> Some (take e rest, drop (e + 1) rest))
     | None \<Rightarrow>
         if starts_with [CHR 0x22] input then None
         else (let e = unwrap_or (find_ws_or '',;])'' input) (length input)
               in Some (take e input, drop e input)))"

definition expand_curie_or_iri :: "prefix_map \<Rightarrow> string \<Rightarrow> string" where
  "expand_curie_or_iri prefixes tok0 = (let tok = trim tok0 in
     if tok = ''a'' then ''a''
     else case split_once (CHR '':'') tok of
       Some (p, loc) \<Rightarrow>
         if \<not> starts_with ''<'' p then
           (case prefixes p of Some base \<Rightarrow> base @ loc | None \<Rightarrow> tok)
         else tok
     | None \<Rightarrow> tok)"

lemma turtle_pop_term_length: "turtle_pop_term s = Some (t, r) \<Longrightarrow> length r \<le> length s"
proof -
  assume *: "turtle_pop_term s = Some (t, r)"
  have "length r \<le> length (trim_start s)"
  proof (cases "strip_prefix ''<'' (trim_start s)")
    case None
    then show ?thesis using * by (auto simp: turtle_pop_term_def Let_def split: if_splits)
  next
    case (Some x)
    then have "length x \<le> length (trim_start s)" by (simp add: strip_prefix_Some_iff)
    then show ?thesis using * Some by (auto simp: turtle_pop_term_def Let_def split: option.splits)
  qed
  then show ?thesis using trim_start_length [of s] by simp
qed

lemma after_comma_length: "strip_prefix '','' (trim_start s) = Some r \<Longrightarrow> length r < length s"
  using trim_start_length [of s] by (auto simp: strip_prefix_Some_iff)

function object_list_loop :: "prefix_map \<Rightarrow> string \<Rightarrow> string list" where
  "object_list_loop prefixes remaining = (let r = trim_start remaining in
     if r = [] then []
     else case turtle_pop_term r of
       None \<Rightarrow> []
     | Some (tok, rest) \<Rightarrow>
         expand_curie_or_iri prefixes tok #
         (case strip_prefix '','' (trim_start rest) of
            Some after_comma \<Rightarrow> object_list_loop prefixes after_comma
          | None \<Rightarrow> []))"
  by pat_completeness auto
termination
proof (relation "measure (length \<circ> snd)")
  fix prefixes remaining r x tok rest after_comma
  assume r: "r = trim_start remaining"
    and x: "turtle_pop_term r = Some x" "(tok, rest) = x"
    and a: "strip_prefix '','' (trim_start rest) = Some after_comma"
  have "length rest \<le> length r" using x turtle_pop_term_length by metis
  then have "length after_comma < length remaining"
    using after_comma_length [OF a] trim_start_length [of remaining] unfolding r by linarith
  then show "((prefixes, after_comma), prefixes, remaining) \<in> measure (length \<circ> snd)" by simp
qed simp

declare object_list_loop.simps [simp del]

definition parse_object_list :: "prefix_map \<Rightarrow> string \<Rightarrow> string list" where
  "parse_object_list prefixes input = object_list_loop prefixes (trim input)"

section \<open>Conditions\<close>

definition strs_to_ids :: "string list \<Rightarrow> IdOrIds option" where
  "strs_to_ids items = (case items of
     [] \<Rightarrow> None
   | [i] \<Rightarrow> Some (Single (IdRef i))
   | _ \<Rightarrow> Some (Multiple (map IdRef items)))"

definition normalise_condition_type :: "string \<Rightarrow> string" where
  "normalise_condition_type raw =
     (if raw = ''http://www.w3.org/ns/auth/acl#ClientCondition''
         \<or> raw = ''https://www.w3.org/ns/auth/acl#ClientCondition'' then ''acl:ClientCondition''
      else if raw = ''http://www.w3.org/ns/auth/acl#IssuerCondition''
         \<or> raw = ''https://www.w3.org/ns/auth/acl#IssuerCondition'' then ''acl:IssuerCondition''
      else raw)"

definition is_acl :: "string \<Rightarrow> string \<Rightarrow> bool" where
  "is_acl name p \<longleftrightarrow> p = ''http://www.w3.org/ns/auth/acl#'' @ name \<or> p = ''acl:'' @ name"

definition is_type_pred :: "string \<Rightarrow> bool" where
  "is_type_pred p \<longleftrightarrow> p = ''a'' \<or> p = ''http://www.w3.org/1999/02/22-rdf-syntax-ns#type'' \<or> p = ''rdf:type''"

record cond_acc =
  ca_type :: "string option"
  ca_clients :: "string list"
  ca_client_groups :: "string list"
  ca_client_classes :: "string list"
  ca_issuers :: "string list"
  ca_issuer_groups :: "string list"
  ca_issuer_classes :: "string list"

definition cond_pair :: "prefix_map \<Rightarrow> string \<Rightarrow> cond_acc \<Rightarrow> cond_acc" where
  "cond_pair prefixes pair0 acc = (let pair = trim pair0 in
     if pair = [] then acc
     else case turtle_pop_term pair of
       None \<Rightarrow> acc
     | Some (pred, rest) \<Rightarrow>
        (let p = expand_curie_or_iri prefixes pred; objects = parse_object_list prefixes (trim rest) in
         if is_type_pred p then
           (case objects of [] \<Rightarrow> acc | o1 # os \<Rightarrow> acc\<lparr>ca_type := Some (normalise_condition_type o1)\<rparr>)
         else if is_acl ''client'' p then acc\<lparr>ca_clients := ca_clients acc @ objects\<rparr>
         else if is_acl ''clientGroup'' p then acc\<lparr>ca_client_groups := ca_client_groups acc @ objects\<rparr>
         else if is_acl ''clientClass'' p then acc\<lparr>ca_client_classes := ca_client_classes acc @ objects\<rparr>
         else if is_acl ''issuer'' p then acc\<lparr>ca_issuers := ca_issuers acc @ objects\<rparr>
         else if is_acl ''issuerGroup'' p then acc\<lparr>ca_issuer_groups := ca_issuer_groups acc @ objects\<rparr>
         else if is_acl ''issuerClass'' p then acc\<lparr>ca_issuer_classes := ca_issuer_classes acc @ objects\<rparr>
         else acc))"

definition parse_turtle_condition_body :: "prefix_map \<Rightarrow> string \<Rightarrow> Condition option" where
  "parse_turtle_condition_body prefixes body =
     (let acc = fold (cond_pair prefixes) (split_predicate_list body)
            \<lparr>ca_type = None, ca_clients = [], ca_client_groups = [], ca_client_classes = [],
             ca_issuers = [], ca_issuer_groups = [], ca_issuer_classes = []\<rparr>
      in case ca_type acc of
        None \<Rightarrow> None
      | Some t \<Rightarrow>
          if t = ''acl:ClientCondition'' then
            Some (Client \<lparr>cc_client = strs_to_ids (ca_clients acc),
              cc_client_group = strs_to_ids (ca_client_groups acc),
              cc_client_class = strs_to_ids (ca_client_classes acc)\<rparr>)
          else if t = ''acl:IssuerCondition'' then
            Some (Issuer \<lparr>ic_issuer = strs_to_ids (ca_issuers acc),
              ic_issuer_group = strs_to_ids (ca_issuer_groups acc),
              ic_issuer_class = strs_to_ids (ca_issuer_classes acc)\<rparr>)
          else Some (Unknown t))"

text \<open>The position of the bracket that closes the one before the text.\<close>

fun find_close :: "nat \<Rightarrow> bool \<Rightarrow> string \<Rightarrow> nat option" where
  "find_close depth in_str [] = None"
| "find_close depth in_str (c # cs) =
     (if c = CHR 0x22 then map_option Suc (find_close depth (\<not> in_str) cs)
      else if c = CHR ''['' \<and> \<not> in_str then map_option Suc (find_close (depth + 1) in_str cs)
      else if c = CHR '']'' \<and> \<not> in_str then
        (if depth = 1 then Some 0 else map_option Suc (find_close (depth - 1) in_str cs))
      else map_option Suc (find_close depth in_str cs))"

function condition_loop :: "prefix_map \<Rightarrow> string \<Rightarrow> Condition list" where
  "condition_loop prefixes remaining = (let r = trim_start remaining in
     if r = [] then []
     else case strip_prefix ''['' r of
       Some after_open \<Rightarrow>
         (case find_close 1 False after_open of
            None \<Rightarrow> []
          | Some idx \<Rightarrow>
              (case parse_turtle_condition_body prefixes (take idx after_open) of
                 Some cond \<Rightarrow> [cond] | None \<Rightarrow> []) @
              (case strip_prefix '','' (trim_start (drop (idx + 1) after_open)) of
                 Some after_comma \<Rightarrow> condition_loop prefixes after_comma
               | None \<Rightarrow> []))
     | None \<Rightarrow>
         (case turtle_pop_term r of
            None \<Rightarrow> []
          | Some (tok, rest) \<Rightarrow>
              Unknown (expand_curie_or_iri prefixes tok) #
              (case strip_prefix '','' (trim_start rest) of
                 Some after_comma \<Rightarrow> condition_loop prefixes after_comma
               | None \<Rightarrow> [])))"
  by pat_completeness auto
termination
proof (relation "measure (length \<circ> snd)")
  fix prefixes remaining r after_open idx after_comma
  assume r: "r = trim_start remaining" and o: "strip_prefix ''['' r = Some after_open"
    and a: "strip_prefix '','' (trim_start (drop (idx + 1) after_open)) = Some after_comma"
  have "length (drop (idx + 1) after_open) \<le> length r" using o by (simp add: strip_prefix_Some_iff)
  then have "length after_comma < length remaining"
    using after_comma_length [OF a] trim_start_length [of remaining] unfolding r by linarith
  then show "((prefixes, after_comma), prefixes, remaining) \<in> measure (length \<circ> snd)" by simp
next
  fix prefixes remaining r x tok rest after_comma
  assume r: "r = trim_start remaining"
    and x: "turtle_pop_term r = Some x" "(tok, rest) = x"
    and a: "strip_prefix '','' (trim_start rest) = Some after_comma"
  have "length rest \<le> length r" using x turtle_pop_term_length by metis
  then have "length after_comma < length remaining"
    using after_comma_length [OF a] trim_start_length [of remaining] unfolding r by linarith
  then show "((prefixes, after_comma), prefixes, remaining) \<in> measure (length \<circ> snd)" by simp
qed simp

declare condition_loop.simps [simp del]

definition parse_turtle_condition_objects :: "prefix_map \<Rightarrow> string \<Rightarrow> Condition list" where
  "parse_turtle_condition_objects prefixes input = condition_loop prefixes (trim input)"

section \<open>Authorisations and documents\<close>

definition empty_auth :: AclAuthorization where
  "empty_auth = \<lparr>aa_id = None, aa_type = None, aa_agent = None, aa_agent_class = None,
     aa_agent_group = None, aa_origin = None, aa_access_to = None, aa_default = None,
     aa_mode = None, aa_condition = None\<rparr>"

text \<open>One predicate-object pair: the new authorisation and the flag \<open>any_authz\<close>, or \<open>None\<close>
  where the \<open>?\<close> on \<open>turtle_pop_term\<close> leaves the function.\<close>

definition auth_pair ::
    "prefix_map \<Rightarrow> string \<Rightarrow> AclAuthorization \<times> bool \<Rightarrow> (AclAuthorization \<times> bool) option" where
  "auth_pair prefixes pair0 st = (case st of (auth, any_authz) \<Rightarrow>
    (let pair = trim pair0 in
     if pair = [] then Some (auth, any_authz)
     else case turtle_pop_term pair of
       None \<Rightarrow> None
     | Some (pred, rest) \<Rightarrow>
        (let p = expand_curie_or_iri prefixes pred; objects = parse_object_list prefixes (trim rest) in
         if is_type_pred p \<and> list_ex (is_acl ''Authorization'') objects then Some (auth, True)
         else if is_acl ''agent'' p then Some (auth\<lparr>aa_agent := Some (ids_of objects)\<rparr>, any_authz)
         else if is_acl ''agentClass'' p then Some (auth\<lparr>aa_agent_class := Some (ids_of objects)\<rparr>, any_authz)
         else if is_acl ''agentGroup'' p then Some (auth\<lparr>aa_agent_group := Some (ids_of objects)\<rparr>, any_authz)
         else if is_acl ''origin'' p then Some (auth\<lparr>aa_origin := Some (ids_of objects)\<rparr>, any_authz)
         else if is_acl ''accessTo'' p then Some (auth\<lparr>aa_access_to := Some (ids_of objects)\<rparr>, any_authz)
         else if is_acl ''default'' p then Some (auth\<lparr>aa_default := Some (ids_of objects)\<rparr>, any_authz)
         else if is_acl ''mode'' p then Some (auth\<lparr>aa_mode := Some (ids_of objects)\<rparr>, any_authz)
         else if is_acl ''condition'' p then
           Some (auth\<lparr>aa_condition := Some (unwrap_or (aa_condition auth) [] @
             parse_turtle_condition_objects prefixes (trim rest))\<rparr>, any_authz)
         else Some (auth, any_authz))))"

fun auth_pairs ::
    "prefix_map \<Rightarrow> string list \<Rightarrow> AclAuthorization \<times> bool \<Rightarrow> (AclAuthorization \<times> bool) option" where
  "auth_pairs prefixes [] st = Some st"
| "auth_pairs prefixes (pair # pairs) st =
     (case auth_pair prefixes pair st of None \<Rightarrow> None | Some st' \<Rightarrow> auth_pairs prefixes pairs st')"

definition parse_turtle_authorization :: "prefix_map \<Rightarrow> string \<Rightarrow> AclAuthorization option" where
  "parse_turtle_authorization prefixes stmt = (let trimmed = trim stmt in
     if trimmed = [] then None
     else case turtle_pop_term trimmed of
       None \<Rightarrow> None
     | Some (subject, body) \<Rightarrow>
         (case auth_pairs prefixes (split_predicate_list body) (empty_auth, False) of
            None \<Rightarrow> None
          | Some (auth, any_authz) \<Rightarrow> if any_authz then Some auth else None))"

definition initial_prefixes :: prefix_map where
  "initial_prefixes = (\<lambda>_. None)(''acl'' := Some ''http://www.w3.org/ns/auth/acl#'',
     ''foaf'' := Some ''http://xmlns.com/foaf/0.1/'',
     ''vcard'' := Some ''http://www.w3.org/2006/vcard/ns#'')"

definition prefix_line :: "string \<Rightarrow> prefix_map \<times> string \<Rightarrow> prefix_map \<times> string" where
  "prefix_line line st = (case st of (prefixes, body) \<Rightarrow>
     (case strip_prefix ''@prefix'' (trim line) of
        Some rest0 \<Rightarrow>
          (case split_once (CHR '':'') (trim rest0) of
             Some (name, iri_part0) \<Rightarrow>
               (let iri_part = trim (trim_end_matches (CHR ''.'') (trim iri_part0));
                    iri = trim (trim_end_matches (CHR ''>'') (trim_start_matches (CHR ''<'') iri_part))
                in (prefixes(trim name := Some iri), body))
           | None \<Rightarrow> (prefixes, body))
      | None \<Rightarrow> (prefixes, body @ line @ [CHR 0x0A])))"

definition parse_turtle_acl_with_limit :: "string \<Rightarrow> nat \<Rightarrow> PodError + AclDocument" where
  "parse_turtle_acl_with_limit input max_bytes =
     (if length input > max_bytes
        then Inl (PayloadTooLarge (''ACL body exceeds '' @ show_nat max_bytes @ '' bytes''))
      else (case fold prefix_line (str_lines (strip_turtle_comments input)) (initial_prefixes, []) of
        (prefixes, body) \<Rightarrow>
          (let graph = List.map_filter
             (\<lambda>stmt. if trim stmt = [] then None else parse_turtle_authorization prefixes stmt)
             (split_turtle_statements body)
           in Inr \<lparr>doc_context = None, doc_graph = (if graph = [] then None else Some graph)\<rparr>)))"

definition parse_turtle_acl :: "(string \<Rightarrow> string option) \<Rightarrow> string \<Rightarrow> PodError + AclDocument" where
  "parse_turtle_acl env input =
     parse_turtle_acl_with_limit input (env_usize env ''JSS_MAX_ACL_BYTES'' MAX_ACL_BYTES)"

section \<open>The writer\<close>

definition render_id :: "string \<Rightarrow> string" where
  "render_id r = (if starts_with ''http'' r then ''<'' @ r @ ''>'' else r)"

definition emit_with :: "string \<Rightarrow> string \<Rightarrow> IdOrIds option \<Rightarrow> string" where
  "emit_with indent pred vals = (let refs = get_ids vals in
     if refs = [] then []
     else '' ;'' @ [CHR 0x0A] @ indent @ pred @ '' '' @ join '', '' (map render_id refs))"

definition emit_pairs :: "string \<Rightarrow> IdOrIds option \<Rightarrow> string" where
  "emit_pairs = emit_with ''    ''"

definition emit_body_pair :: "string \<Rightarrow> IdOrIds option \<Rightarrow> string" where
  "emit_body_pair = emit_with ''        ''"

definition emit_condition :: "Condition \<Rightarrow> string" where
  "emit_condition cond =
     '' ;'' @ [CHR 0x0A] @ ''    acl:condition ['' @ [CHR 0x0A] @ ''        a '' @ type_iri cond @
     (case cond of
        Client b \<Rightarrow> emit_body_pair ''acl:client'' (cc_client b) @
          emit_body_pair ''acl:clientGroup'' (cc_client_group b) @
          emit_body_pair ''acl:clientClass'' (cc_client_class b)
      | Issuer b \<Rightarrow> emit_body_pair ''acl:issuer'' (ic_issuer b) @
          emit_body_pair ''acl:issuerGroup'' (ic_issuer_group b) @
          emit_body_pair ''acl:issuerClass'' (ic_issuer_class b)
      | Unknown i \<Rightarrow> []) @
     [CHR 0x0A] @ ''    ]''"

definition emit_conditions :: "Condition list option \<Rightarrow> string" where
  "emit_conditions conds = (case conds of None \<Rightarrow> [] | Some cs \<Rightarrow> concat (map emit_condition cs))"

definition emit_auth :: "nat \<Rightarrow> AclAuthorization \<Rightarrow> string" where
  "emit_auth i auth =
     ''<#rule-'' @ show_nat i @ ''>'' @ '' a acl:Authorization'' @
     emit_pairs ''acl:agent'' (aa_agent auth) @
     emit_pairs ''acl:agentClass'' (aa_agent_class auth) @
     emit_pairs ''acl:agentGroup'' (aa_agent_group auth) @
     emit_pairs ''acl:origin'' (aa_origin auth) @
     emit_pairs ''acl:accessTo'' (aa_access_to auth) @
     emit_pairs ''acl:default'' (aa_default auth) @
     emit_pairs ''acl:mode'' (aa_mode auth) @
     emit_conditions (aa_condition auth) @
     '' .'' @ [CHR 0x0A, CHR 0x0A]"

definition serialize_turtle_acl :: "AclDocument \<Rightarrow> string" where
  "serialize_turtle_acl doc =
     ''@prefix acl: <http://www.w3.org/ns/auth/acl#> .'' @ [CHR 0x0A] @
     ''@prefix foaf: <http://xmlns.com/foaf/0.1/> .'' @ [CHR 0x0A, CHR 0x0A] @
     (case doc_graph doc of
        None \<Rightarrow> []
      | Some graph \<Rightarrow> concat (map (\<lambda>(i, auth). emit_auth i auth) (enumerate 0 graph)))"

end
