(* ===== verification/Wac_Roundtrip.thy ===== *)
theory Wac_Roundtrip
  imports Wac_Parser
begin

text \<open>
  Reading back what the Turtle writer wrote. The text the writer produces is made of chunks,
  strings that pass through every scanner of the reader unchanged: the comment stripper, the
  statement splitter and the predicate splitter. The scanners are handled once, on chunks, and
  the reader is then followed statement by statement.
\<close>

section \<open>Chunks\<close>

definition nl :: char where
  "nl = CHR 0x0A"

definition calm :: "char \<Rightarrow> bool" where
  "calm c \<longleftrightarrow> c \<notin> set ''<>#.[];@'' \<and> c \<noteq> CHR 0x22 \<and> c \<noteq> CHR 0x0D"

definition iri_char :: "char \<Rightarrow> bool" where
  "iri_char c \<longleftrightarrow> plain c \<and> c \<notin> set ''<>;[]@'' \<and> c \<noteq> CHR 0x22"

inductive chunk :: "string \<Rightarrow> bool" where
  chunk_Nil: "chunk []"
| chunk_Cons: "calm c \<Longrightarrow> chunk s \<Longrightarrow> chunk (c # s)"
| chunk_iri: "list_all iri_char r \<Longrightarrow> chunk s \<Longrightarrow> chunk (CHR ''<'' # r @ CHR ''>'' # s)"

lemma chunk_append: "chunk x \<Longrightarrow> chunk y \<Longrightarrow> chunk (x @ y)"
  by (induction rule: chunk.induct) (auto intro: chunk.intros)

lemma chunk_calm: "list_all calm s \<Longrightarrow> chunk s"
  by (induction s) (auto intro: chunk.intros)

lemma chunk_angle: "list_all iri_char r \<Longrightarrow> chunk (CHR ''<'' # r @ ''>'')"
  using chunk_iri [OF _ chunk_Nil] by simp

section \<open>The scanners on chunks\<close>

text \<open>The comment stripper over a whole text: its state is reset at every line feed.\<close>

fun clean :: "bool \<Rightarrow> string \<Rightarrow> bool" where
  "clean in_iri [] = True"
| "clean in_iri (c # cs) =
     (if c = nl then clean False cs
      else if c = CHR ''<'' then clean True cs
      else if c = CHR ''>'' then clean False cs
      else if c = CHR ''#'' then in_iri \<and> clean in_iri cs
      else clean in_iri cs)"

lemma clean_in_iri: "list_all iri_char r \<Longrightarrow> clean True (r @ y) = clean True y"
  by (induction r) (auto simp: iri_char_def plain_def ascii_ws_def nl_def)

lemma clean_chunk: "chunk x \<Longrightarrow> clean False (x @ y) = clean False y"
  by (induction rule: chunk.induct) (auto simp: calm_def clean_in_iri nl_def)

lemma strip_comment_line_clean:
  "clean b (l @ nl # y) \<Longrightarrow> nl \<notin> set l \<Longrightarrow> strip_comment_line b l = l \<and> clean False y"
  by (induction l arbitrary: b) (auto split: if_splits)

lemma strip_cr_id: "CHR 0x0D \<notin> set l \<Longrightarrow> strip_cr l = l"
  by (cases "strip_suffix [CHR 0x0D] l") (auto simp: strip_cr_def strip_suffix_Some_iff)

lemma str_lines_Cons:
  "nl \<notin> set l \<Longrightarrow> CHR 0x0D \<notin> set l \<Longrightarrow> str_lines (l @ nl # y) = l # str_lines y"
  by (simp add: str_lines_def split_on_append nl_def Let_def strip_cr_id)

lemma str_lines_Nil [simp]: "str_lines [] = []"
  by (simp add: str_lines_def)

lemma lines_cases:
  assumes "s = [] \<or> last s = nl"
  obtains "s = []" | l y where "s = l @ nl # y" "nl \<notin> set l" "y = [] \<or> last y = nl"
proof (cases "s = []")
  case False
  then have "nl \<in> set s" using assms last_in_set by metis
  then obtain l y where ly: "s = l @ nl # y" "nl \<notin> set l" by (meson split_list_first)
  then show thesis using that(2) assms False by (cases "y = []") auto
qed (rule that(1))

lemma strip_turtle_comments_Nil [simp]: "strip_turtle_comments [] = []"
  by (simp add: strip_turtle_comments_def)

lemma strip_turtle_comments_clean:
  "clean False s \<Longrightarrow> CHR 0x0D \<notin> set s \<Longrightarrow> s = [] \<or> last s = nl \<Longrightarrow> strip_turtle_comments s = s"
proof (induction s rule: length_induct)
  case (1 s)
  from 1(4) show ?case
  proof (cases rule: lines_cases)
    case (2 l y)
    then have "strip_turtle_comments y = y" "strip_comment_line False l = l"
      using 1 strip_comment_line_clean [of False l y] by auto
    then show ?thesis
      using 2 1(3) by (simp add: strip_turtle_comments_def str_lines_Cons [unfolded nl_def] nl_def)
  qed (simp add: strip_turtle_comments_def)
qed

lemma fold_prefix_line_body:
  "CHR 0x0D \<notin> set s \<Longrightarrow> CHR ''@'' \<notin> set s \<Longrightarrow> s = [] \<or> last s = nl \<Longrightarrow>
   fold prefix_line (str_lines s) (pfx, body) = (pfx, body @ s)"
proof (induction s arbitrary: body rule: length_induct)
  case (1 s)
  from 1(4) show ?case
  proof (cases rule: lines_cases)
    case (2 l y)
    have "CHR ''@'' \<notin> set (trim l)" using set_trim [of l] 1(3) 2 by auto
    then have "strip_prefix ''@prefix'' (trim l) = None"
      by (auto simp: strip_prefix_None_iff starts_with_iff)
    then have "prefix_line l (pfx, body) = (pfx, body @ l @ [nl])"
      by (simp add: prefix_line_def nl_def)
    moreover have "fold prefix_line (str_lines y) (pfx, body @ l @ [nl]) = (pfx, (body @ l @ [nl]) @ y)"
      using 1 2 by auto
    ultimately show ?thesis using 2 1(2) by (simp add: str_lines_Cons)
  qed simp
qed

lemma split_statements_iri: "list_all iri_char r \<Longrightarrow>
    split_statements 1 False cur (r @ y) = split_statements 1 False (cur @ r) y"
  by (induction r arbitrary: cur) (auto simp: iri_char_def)

lemma split_statements_chunk: "chunk x \<Longrightarrow>
    split_statements 0 False cur (x @ y) = split_statements 0 False (cur @ x) y"
  by (induction arbitrary: cur rule: chunk.induct) (auto simp: calm_def split_statements_iri)

lemma split_predicates_iri: "list_all iri_char r \<Longrightarrow>
    split_predicates 0 False cur (r @ y) = split_predicates 0 False (cur @ r) y"
  by (induction r arbitrary: cur) (auto simp: iri_char_def)

lemma split_predicates_chunk: "chunk x \<Longrightarrow>
    split_predicates 0 False cur (x @ y) = split_predicates 0 False (cur @ x) y"
  by (induction arbitrary: cur rule: chunk.induct) (auto simp: calm_def split_predicates_iri)

section \<open>Identifiers\<close>

definition tok_char :: "char \<Rightarrow> bool" where
  "tok_char c \<longleftrightarrow> plain c \<and> calm c \<and> c \<noteq> CHR '','' \<and> c \<noteq> CHR '')''"

text \<open>The identifiers the writer's output can be read back from: an \<open>http(s)\<close> IRI without
  brackets, quotes and semicolons, or a bare token (a CURIE, a DID, a path).\<close>

definition safe_id :: "string \<Rightarrow> bool" where
  "safe_id r \<longleftrightarrow> r \<noteq> [] \<and>
     (if starts_with ''http'' r then list_all iri_char r else list_all tok_char r)"

lemma tok_char_calm: "list_all tok_char r \<Longrightarrow> list_all calm r"
  by (auto simp: list_all_iff tok_char_def)

lemma render_chunk: "safe_id r \<Longrightarrow> chunk (render_id r)"
  using chunk_angle chunk_calm tok_char_calm by (auto simp: safe_id_def render_id_def)

lemma chunk_sep: "chunk '', ''"
  by (simp add: chunk_calm calm_def)

lemma objs_chunk: "list_all safe_id ids \<Longrightarrow> chunk (join '', '' (map render_id ids))"
proof (induction ids)
  case (Cons r ids)
  then have "chunk ('', '' @ join '', '' (map render_id ids))" by (intro chunk_append chunk_sep) simp
  then show ?case
    using Cons.prems render_chunk [of r] chunk_append by (cases ids) auto
qed (simp add: chunk_Nil)

lemma plain_angle [simp]: "plain (CHR ''<'')" "plain (CHR ''>'')"
  by (simp_all add: plain_def ascii_ws_def)

lemma render_ends: "safe_id r \<Longrightarrow> render_id r \<noteq> [] \<and> plain (hd (render_id r)) \<and> plain (last (render_id r))"
  by (cases r) (auto simp: safe_id_def render_id_def tok_char_def list_all_iff)

lemma objs_last: "list_all safe_id ids \<Longrightarrow> ids \<noteq> [] \<Longrightarrow>
    join '', '' (map render_id ids) \<noteq> [] \<and> plain (hd (join '', '' (map render_id ids)))
    \<and> plain (last (join '', '' (map render_id ids)))"
proof (induction ids)
  case (Cons r ids)
  then show ?case
    using render_ends [of r] by (cases ids) (auto simp: last_append)
qed simp

lemma ws_len_ascii_ws [simp]: "ascii_ws c \<Longrightarrow> ws_len (c # s) = Suc 0"
  by (simp add: ws_len_def)

lemma find_ws_or_append: "list_all (\<lambda>c. plain c \<and> c \<notin> set cs) a \<Longrightarrow> ascii_ws x \<or> x \<in> set cs \<Longrightarrow>
    find_ws_or cs (a @ x # b) = Some (length a)"
  by (induction a) auto

lemma find_ws_or_None: "list_all (\<lambda>c. plain c \<and> c \<notin> set cs) a \<Longrightarrow> find_ws_or cs a = None"
  by (induction a) auto

lemma pop_render:
  assumes "safe_id r" "y = [] \<or> hd y = CHR '',''"
  shows "turtle_pop_term (render_id r @ y) = Some (r, y)"
proof (cases "starts_with ''http'' r")
  case True
  then have "\<forall>c \<in> set r. CHR ''>'' \<noteq> c" using assms(1) by (auto simp: safe_id_def iri_char_def list_all_iff)
  then have "find_char ((=) (CHR ''>'')) (r @ CHR ''>'' # y) = Some (length r)"
    by (rule find_char_append) simp
  then show ?thesis using True by (simp add: turtle_pop_term_def render_id_def)
next
  case False
  then have t: "list_all tok_char r" and "r \<noteq> []" using assms(1) by (auto simp: safe_id_def)
  then obtain c cs where r: "r = c # cs" and c: "plain c" "c \<noteq> CHR ''<''" "c \<noteq> CHR 0x22"
    by (cases r) (auto simp: tok_char_def calm_def)
  have l: "list_all (\<lambda>c. plain c \<and> c \<notin> set '',;])'') r"
    using t by (auto simp: list_all_iff tok_char_def calm_def)
  have "unwrap_or (find_ws_or '',;])'' (r @ y)) (length (r @ y)) = length r"
    using assms(2) find_ws_or_append [OF l, of "CHR '',''" "tl y"] find_ws_or_None [OF l]
    by (cases y) auto
  moreover have "trim_start (r @ y) = r @ y" "strip_prefix ''<'' (r @ y) = None"
    "\<not> starts_with [CHR 0x22] (r @ y)" "render_id r = r"
    using False r c by (simp_all add: render_id_def)
  ultimately show ?thesis unfolding turtle_pop_term_def Let_def by simp
qed

lemma object_list_step:
  "trim_start s = t \<Longrightarrow> t \<noteq> [] \<Longrightarrow> turtle_pop_term t = Some (r, y) \<Longrightarrow>
   object_list_loop pfx s = expand_curie_or_iri pfx r #
     (case strip_prefix '','' (trim_start y) of
        Some after_comma \<Rightarrow> object_list_loop pfx after_comma | None \<Rightarrow> [])"
  by (subst object_list_loop.simps) simp

lemma trim_start_space [simp]: "trim_start (CHR '' '' # s) = trim_start s"
  by (simp add: ascii_ws_def)

lemma object_list_render:
  "list_all safe_id ids \<Longrightarrow> ids \<noteq> [] \<Longrightarrow> sp = [] \<or> sp = '' '' \<Longrightarrow>
   object_list_loop pfx (sp @ join '', '' (map render_id ids)) = map (expand_curie_or_iri pfx) ids"
proof (induction ids arbitrary: sp)
  case (Cons r ids)
  let ?t = "join '', '' (map render_id (r # ids))"
  have t: "trim_start (sp @ ?t) = ?t" "?t \<noteq> []"
    using objs_last [OF Cons.prems(1)] Cons.prems(3) trim_start_plain_hd [of ?t] by auto
  let ?y = "if ids = [] then [] else '', '' @ join '', '' (map render_id ids)"
  have y: "?t = render_id r @ ?y" by (cases ids) simp_all
  have "turtle_pop_term ?t = Some (r, ?y)"
    unfolding y using Cons.prems(1) by (intro pop_render) simp_all
  from object_list_step [OF t this] show ?case
    using Cons.IH [of "'' ''"] Cons.prems(1) by (cases ids) (simp_all add: ascii_ws_def plain_def)
qed simp

section \<open>One authorisation\<close>

definition field_piece :: "string \<Rightarrow> string list \<Rightarrow> string" where
  "field_piece f ids = nl # ''    acl:'' @ f @ '' '' @ join '', '' (map render_id ids)"

definition fields :: "AclAuthorization \<Rightarrow> (string \<times> string list) list" where
  "fields a = [(''agent'', get_ids (aa_agent a)), (''agentClass'', get_ids (aa_agent_class a)),
     (''agentGroup'', get_ids (aa_agent_group a)), (''origin'', get_ids (aa_origin a)),
     (''accessTo'', get_ids (aa_access_to a)), (''default'', get_ids (aa_default a)),
     (''mode'', get_ids (aa_mode a))]"

definition used :: "(string \<times> string list) list \<Rightarrow> (string \<times> string list) list" where
  "used L = filter (\<lambda>(f, ids). ids \<noteq> []) L"

definition pieces :: "AclAuthorization \<Rightarrow> string list" where
  "pieces a = '' a acl:Authorization'' # map (\<lambda>(f, ids). field_piece f ids) (used (fields a))"

definition set_field :: "string \<Rightarrow> string list \<Rightarrow> AclAuthorization \<Rightarrow> AclAuthorization" where
  "set_field f ids au =
     (if ids = [] then au
      else if f = ''agent'' then au\<lparr>aa_agent := Some (ids_of ids)\<rparr>
      else if f = ''agentClass'' then au\<lparr>aa_agent_class := Some (ids_of ids)\<rparr>
      else if f = ''agentGroup'' then au\<lparr>aa_agent_group := Some (ids_of ids)\<rparr>
      else if f = ''origin'' then au\<lparr>aa_origin := Some (ids_of ids)\<rparr>
      else if f = ''accessTo'' then au\<lparr>aa_access_to := Some (ids_of ids)\<rparr>
      else if f = ''default'' then au\<lparr>aa_default := Some (ids_of ids)\<rparr>
      else au\<lparr>aa_mode := Some (ids_of ids)\<rparr>)"

definition field_names :: "string list" where
  "field_names = [''agent'', ''agentClass'', ''agentGroup'', ''origin'', ''accessTo'', ''default'', ''mode'']"

definition safe_auth :: "AclAuthorization \<Rightarrow> bool" where
  "safe_auth a \<longleftrightarrow> aa_condition a = None \<and> list_all (\<lambda>(f, ids). list_all safe_id ids) (fields a)"

lemma join_Cons_concat: "join sep (x # xs) = x @ concat (map (\<lambda>y. sep @ y) xs)"
  by (induction xs arbitrary: x) auto

lemma concat_map_filter: "concat (map g (filter P xs)) = concat (map (\<lambda>x. if P x then g x else []) xs)"
  by (induction xs) auto

lemma emit_field: "emit_pairs (''acl:'' @ f) v = (if get_ids v = [] then [] else '' ;'' @ field_piece f (get_ids v))"
  by (simp add: emit_pairs_def emit_with_def field_piece_def nl_def Let_def)

lemma emit_auth_pieces:
  assumes "aa_condition a = None"
  shows "emit_auth i a = (''<#rule-'' @ show_nat i @ ''>'') @ join '' ;'' (pieces a) @ '' .'' @ [nl, nl]"
proof -
  let ?g = "\<lambda>x. if (case x of (f, ids) \<Rightarrow> ids \<noteq> [])
        then '' ;'' @ (case x of (f, ids) \<Rightarrow> field_piece f ids) else []"
  have C: "concat (map (\<lambda>y. '' ;'' @ y) (map (\<lambda>(f, ids). field_piece f ids) (used (fields a)))) =
      concat (map ?g (fields a))"
    by (simp add: used_def concat_map_filter [symmetric] comp_def)
  have D: "concat (map ?g (fields a)) =
      emit_pairs ''acl:agent'' (aa_agent a) @ emit_pairs ''acl:agentClass'' (aa_agent_class a) @
      emit_pairs ''acl:agentGroup'' (aa_agent_group a) @ emit_pairs ''acl:origin'' (aa_origin a) @
      emit_pairs ''acl:accessTo'' (aa_access_to a) @ emit_pairs ''acl:default'' (aa_default a) @
      emit_pairs ''acl:mode'' (aa_mode a)"
    by (simp add: fields_def emit_field [of "''agent''", simplified] emit_field [of "''agentClass''", simplified]
        emit_field [of "''agentGroup''", simplified] emit_field [of "''origin''", simplified]
        emit_field [of "''accessTo''", simplified] emit_field [of "''default''", simplified]
        emit_field [of "''mode''", simplified])
  show ?thesis
    unfolding pieces_def join_Cons_concat emit_auth_def C D using assms
    by (simp add: emit_conditions_def nl_def)
qed

lemma used_fields: "(f, ids) \<in> set (used (fields a)) \<Longrightarrow> safe_auth a \<Longrightarrow>
    f \<in> set field_names \<and> list_all safe_id ids \<and> ids \<noteq> []"
proof -
  assume *: "(f, ids) \<in> set (used (fields a))" "safe_auth a"
  then have m: "(f, ids) \<in> set (fields a)" "ids \<noteq> []" unfolding used_def set_filter by simp_all
  then have "list_all safe_id ids" using *(2) by (auto simp: safe_auth_def list_all_iff)
  moreover have "f \<in> set field_names" using m(1) by (auto simp: fields_def field_names_def)
  ultimately show ?thesis using m(2) by simp
qed

lemma field_name_chars: "f \<in> set field_names \<Longrightarrow> list_all tok_char f"
  by (auto simp: field_names_def tok_char_def plain_def calm_def ascii_ws_def)

lemma field_piece_chunk: "f \<in> set field_names \<Longrightarrow> list_all safe_id ids \<Longrightarrow> chunk (field_piece f ids)"
proof -
  assume f: "f \<in> set field_names" and ids: "list_all safe_id ids"
  have "chunk (nl # ''    acl:'' @ f @ '' '')"
    using tok_char_calm [OF field_name_chars [OF f]] by (intro chunk_calm) (simp add: calm_def nl_def)
  from chunk_append [OF this objs_chunk [OF ids]] show ?thesis by (simp add: field_piece_def)
qed

lemma trim_field_piece:
  assumes "f \<in> set field_names" "list_all safe_id ids" "ids \<noteq> []" "list_all ascii_ws v"
  shows "trim (field_piece f ids @ v) = ''acl:'' @ f @ '' '' @ join '', '' (map render_id ids)"
  using trim_pad [of "''acl:'' @ f @ '' '' @ join '', '' (map render_id ids)" "nl # ''    ''" v]
    objs_last [OF assms(2,3)] assms(4)
  by (simp add: field_piece_def plain_def ascii_ws_def nl_def)

lemma pop_field:
  assumes "f \<in> set field_names"
  shows "turtle_pop_term (''acl:'' @ f @ '' '' @ y) = Some (''acl:'' @ f, '' '' @ y)"
proof -
  have "find_ws_or '',;])'' ((''acl:'' @ f) @ CHR '' '' # y) = Some (length (''acl:'' @ f))"
    using field_name_chars [OF assms]
    by (intro find_ws_or_append)
      (auto simp: list_all_iff tok_char_def calm_def plain_def ascii_ws_def)
  moreover have "trim_start (''acl:'' @ f @ '' '' @ y) = ''acl:'' @ f @ '' '' @ y"
    by (simp add: plain_def ascii_ws_def)
  ultimately show ?thesis by (simp add: turtle_pop_term_def Let_def)
qed

lemma objects_of_field:
  "list_all safe_id ids \<Longrightarrow> ids \<noteq> [] \<Longrightarrow>
   parse_object_list pfx (trim ('' '' @ join '', '' (map render_id ids))) = map (expand_curie_or_iri pfx) ids"
  using object_list_render [of ids "[]"] objs_last [of ids]
    trim_pad [of "join '', '' (map render_id ids)" "'' ''" "[]"]
    trim_id [of "join '', '' (map render_id ids)"]
  by (simp add: parse_object_list_def ascii_ws_def)

lemma expand_field:
  "f \<in> set field_names \<Longrightarrow> expand_curie_or_iri initial_prefixes (''acl:'' @ f) = ''http://www.w3.org/ns/auth/acl#'' @ f"
proof -
  assume f: "f \<in> set field_names"
  then have ne: "f \<noteq> []" by (auto simp: field_names_def)
  then have "plain (last f)"
    using field_name_chars [OF f] last_in_set [OF ne] by (simp add: list_all_iff tok_char_def)
  then have "trim (''acl:'' @ f) = ''acl:'' @ f"
    using ne by (intro trim_id) (simp_all add: plain_def ascii_ws_def)
  then show ?thesis by (simp add: expand_curie_or_iri_def initial_prefixes_def)
qed

lemma auth_pair_field:
  assumes "f \<in> set field_names" "list_all safe_id ids" "ids \<noteq> []" "list_all ascii_ws v"
  shows "auth_pair initial_prefixes (field_piece f ids @ v) (au, b) =
    Some (set_field f (map (expand_curie_or_iri initial_prefixes) ids) au, b)"
proof -
  have names: "f = ''agent'' \<or> f = ''agentClass'' \<or> f = ''agentGroup'' \<or> f = ''origin'' \<or>
      f = ''accessTo'' \<or> f = ''default'' \<or> f = ''mode''"
    using assms(1) by (auto simp: field_names_def)
  show ?thesis
    unfolding auth_pair_def trim_field_piece [OF assms] prod.case Let_def pop_field [OF assms(1)]
      expand_field [OF assms(1)] option.case objects_of_field [OF assms(2,3)]
    using names assms(3)
    by (elim disjE) (simp_all add: is_type_pred_def is_acl_def set_field_def)
qed

lemma auth_pair_type:
  assumes "list_all ascii_ws v"
  shows "auth_pair initial_prefixes ('' a acl:Authorization'' @ v) (au, b) = Some (au, True)"
proof -
  have "trim ('' '' @ ''a acl:Authorization'' @ v) = ''a acl:Authorization''"
    using assms by (intro trim_pad) (simp_all add: plain_def ascii_ws_def)
  moreover have "turtle_pop_term ''a acl:Authorization'' = Some (''a'', '' acl:Authorization'')"
    by code_simp
  moreover have "expand_curie_or_iri initial_prefixes ''a'' = ''a''"
    "parse_object_list initial_prefixes (trim '' acl:Authorization'') =
      [''http://www.w3.org/ns/auth/acl#Authorization'']"
    by code_simp+
  ultimately show ?thesis by (simp add: auth_pair_def is_type_pred_def is_acl_def)
qed

lemma auth_pair_pad:
  assumes "p = '' a acl:Authorization'' \<or> (\<exists>f ids. p = field_piece f ids \<and> f \<in> set field_names \<and>
      list_all safe_id ids \<and> ids \<noteq> [])"
  shows "auth_pair initial_prefixes (p @ '' '') st = auth_pair initial_prefixes p st"
proof (cases st)
  case (Pair au b)
  have w: "list_all ascii_ws '' ''" "list_all ascii_ws []" by (simp_all add: ascii_ws_def)
  from assms show ?thesis
    using Pair auth_pair_type [OF w(1)] auth_pair_type [OF w(2)] auth_pair_field [OF _ _ _ w(1)]
      auth_pair_field [OF _ _ _ w(2)] by auto
qed

definition is_piece :: "string \<Rightarrow> bool" where
  "is_piece p \<longleftrightarrow> p = '' a acl:Authorization'' \<or>
     (\<exists>f ids. p = field_piece f ids \<and> f \<in> set field_names \<and> list_all safe_id ids \<and> ids \<noteq> [])"

lemma is_piece_trim:
  assumes "is_piece p" "list_all ascii_ws v"
  shows "trim (p @ v) \<noteq> []"
proof (cases "p = '' a acl:Authorization''")
  case True
  then show ?thesis
    using trim_pad [of "''a acl:Authorization''" "'' ''" v] assms(2)
    by (simp add: plain_def ascii_ws_def)
qed (use assms in \<open>auto simp: is_piece_def trim_field_piece\<close>)

lemma is_piece_chunk: "is_piece p \<Longrightarrow> chunk p"
proof -
  have "chunk '' a acl:Authorization''" by (rule chunk_calm) (simp add: calm_def)
  then show "is_piece p \<Longrightarrow> chunk p" using field_piece_chunk by (auto simp: is_piece_def)
qed

lemma is_piece_last: "is_piece p \<Longrightarrow> p \<noteq> [] \<and> plain (last p)"
  using objs_last by (auto simp: is_piece_def field_piece_def plain_def ascii_ws_def)

lemma pieces_is_piece: "safe_auth a \<Longrightarrow> list_all is_piece (pieces a) \<and> pieces a \<noteq> []"
  using used_fields by (fastforce simp: pieces_def is_piece_def list_all_iff)

lemma pieces_predicates:
  "list_all is_piece ps \<Longrightarrow> ps \<noteq> [] \<Longrightarrow>
   auth_pairs initial_prefixes (split_predicates 0 False [] (join '' ;'' ps)) st =
   auth_pairs initial_prefixes ps st"
proof (induction ps arbitrary: st)
  case (Cons p ps)
  have c: "chunk p" "trim (p @ []) \<noteq> []"
    using Cons.prems is_piece_chunk is_piece_trim [of p "[]"] by auto
  show ?case
  proof (cases "ps = []")
    case True
    then show ?thesis
      using c split_predicates_chunk [of p "[]" "[]"] by simp
  next
    case False
    have "join '' ;'' (p # ps) = p @ CHR '' '' # CHR '';'' # join '' ;'' ps"
      using False by (simp add: join_Nil_Cons)
    then have "split_predicates 0 False [] (join '' ;'' (p # ps)) =
        (p @ '' '') # split_predicates 0 False [] (join '' ;'' ps)"
      using split_predicates_chunk [OF c(1), of "[]"] by simp
    then show ?thesis
      using Cons False auth_pair_pad [of p] by (simp add: is_piece_def split: option.splits)
  qed
qed simp

definition expand_ids :: "IdOrIds option \<Rightarrow> IdOrIds option" where
  "expand_ids v = (if get_ids v = [] then None
     else Some (ids_of (map (expand_curie_or_iri initial_prefixes) (get_ids v))))"

text \<open>What reading back makes of an authorisation: CURIEs become IRIs, the subject is dropped.\<close>

definition expand_auth :: "AclAuthorization \<Rightarrow> AclAuthorization" where
  "expand_auth a = \<lparr>aa_id = None, aa_type = None, aa_agent = expand_ids (aa_agent a),
     aa_agent_class = expand_ids (aa_agent_class a), aa_agent_group = expand_ids (aa_agent_group a),
     aa_origin = expand_ids (aa_origin a), aa_access_to = expand_ids (aa_access_to a),
     aa_default = expand_ids (aa_default a), aa_mode = expand_ids (aa_mode a), aa_condition = None\<rparr>"

lemma auth_pairs_fields:
  "list_all (\<lambda>(f, ids). f \<in> set field_names \<and> list_all safe_id ids) L \<Longrightarrow>
   auth_pairs initial_prefixes (map (\<lambda>(f, ids). field_piece f ids) (used L)) (au, b) =
   Some (fold (\<lambda>(f, ids). set_field f (map (expand_curie_or_iri initial_prefixes) ids)) L au, b)"
proof (induction L arbitrary: au)
  case (Cons x L)
  obtain f ids where x: "x = (f, ids)" by (cases x)
  show ?case
  proof (cases "ids = []")
    case True
    then show ?thesis using Cons x by (simp add: used_def set_field_def)
  next
    case False
    have "auth_pair initial_prefixes (field_piece f ids) (au, b) =
        Some (set_field f (map (expand_curie_or_iri initial_prefixes) ids) au, b)"
      using auth_pair_field [of f ids "[]"] Cons.prems x False by simp
    then show ?thesis using Cons x False by (simp add: used_def)
  qed
qed (simp add: used_def)

lemma set_field_simps:
  "set_field ''agent'' ids au = au\<lparr>aa_agent := if ids = [] then aa_agent au else Some (ids_of ids)\<rparr>"
  "set_field ''agentClass'' ids au = au\<lparr>aa_agent_class := if ids = [] then aa_agent_class au else Some (ids_of ids)\<rparr>"
  "set_field ''agentGroup'' ids au = au\<lparr>aa_agent_group := if ids = [] then aa_agent_group au else Some (ids_of ids)\<rparr>"
  "set_field ''origin'' ids au = au\<lparr>aa_origin := if ids = [] then aa_origin au else Some (ids_of ids)\<rparr>"
  "set_field ''accessTo'' ids au = au\<lparr>aa_access_to := if ids = [] then aa_access_to au else Some (ids_of ids)\<rparr>"
  "set_field ''default'' ids au = au\<lparr>aa_default := if ids = [] then aa_default au else Some (ids_of ids)\<rparr>"
  "set_field ''mode'' ids au = au\<lparr>aa_mode := if ids = [] then aa_mode au else Some (ids_of ids)\<rparr>"
  by (simp_all add: set_field_def)

lemma fold_fields: "fold (\<lambda>(f, ids). set_field f (map (expand_curie_or_iri initial_prefixes) ids)) (fields a) empty_auth
    = expand_auth a"
  by (simp add: fields_def set_field_simps expand_auth_def expand_ids_def empty_auth_def)

lemma auth_pairs_pieces:
  assumes "safe_auth a"
  shows "auth_pairs initial_prefixes (pieces a) (empty_auth, False) = Some (expand_auth a, True)"
proof -
  have "list_all (\<lambda>(f, ids). f \<in> set field_names \<and> list_all safe_id ids) (fields a)"
    using assms by (simp add: safe_auth_def fields_def field_names_def)
  from auth_pairs_fields [OF this] show ?thesis
    using auth_pair_type [of "[]"] fold_fields by (simp add: pieces_def)
qed

section \<open>The document\<close>

definition rule_subject :: "nat \<Rightarrow> string" where
  "rule_subject i = ''<#rule-'' @ show_nat i @ ''>''"

lemma show_nat_iri: "list_all (\<lambda>c. iri_char c \<and> c \<noteq> CHR ''>'') (show_nat n)"
proof -
  have "iri_char c \<and> c \<noteq> CHR ''>''" if "ascii_digit c" for c
    using ascii_digit_cases [OF that] by (auto simp: iri_char_def plain_def ascii_ws_def)
  then show ?thesis using show_nat_digits [of n] by (auto simp: list_all_iff)
qed

lemma rule_subject_chunk: "chunk (rule_subject i)"
proof -
  have "list_all iri_char (''#rule-'' @ show_nat i)"
    using show_nat_iri [of i] by (auto simp: list_all_iff iri_char_def plain_def ascii_ws_def)
  from chunk_angle [OF this] show ?thesis by (simp add: rule_subject_def)
qed

lemma pop_subject: "turtle_pop_term (rule_subject i @ y) = Some (''#rule-'' @ show_nat i, y)"
proof -
  have "find_char ((=) (CHR ''>'')) ((''#rule-'' @ show_nat i) @ CHR ''>'' # y)
      = Some (length (''#rule-'' @ show_nat i))"
    using show_nat_iri [of i] by (intro find_char_append) (auto simp: list_all_iff)
  then show ?thesis by (simp add: turtle_pop_term_def rule_subject_def Let_def)
qed

lemma join_pieces_scan:
  assumes "list_all chunk ps"
  shows "split_statements 0 False cur (join '' ;'' ps @ y) = split_statements 0 False (cur @ join '' ;'' ps) y"
    and "clean False (join '' ;'' ps @ y) = clean False y"
  using assms
proof (induction "'' ;''" ps arbitrary: cur rule: join.induct)
  case (2 w)
  { case 1 then show ?case using 2 by (simp add: split_statements_chunk) }
  { case 2 then show ?case by (simp add: clean_chunk) }
next
  case (3 w v ws)
  { case 1 then show ?case using 3 by (simp add: split_statements_chunk) }
  { case 2 then show ?case using 3 by (simp add: clean_chunk nl_def) }
qed simp_all

definition stmt :: "nat \<Rightarrow> AclAuthorization \<Rightarrow> string" where
  "stmt i a = rule_subject i @ join '' ;'' (pieces a)"

lemma emit_stmt: "safe_auth a \<Longrightarrow> emit_auth i a = stmt i a @ '' .'' @ [nl, nl]"
  by (simp add: emit_auth_pieces safe_auth_def stmt_def rule_subject_def)

lemma pieces_chunk: "safe_auth a \<Longrightarrow> list_all chunk (pieces a)"
  using pieces_is_piece is_piece_chunk by (auto simp: list_all_iff)

lemma join_last: "ws \<noteq> [] \<Longrightarrow> last ws \<noteq> [] \<Longrightarrow> join sep ws \<noteq> [] \<and> last (join sep ws) = last (last ws)"
  by (induction sep ws rule: join.induct) (auto simp: last_append)

lemma parse_stmt:
  assumes "safe_auth a" "list_all ascii_ws w"
  shows "parse_turtle_authorization initial_prefixes (w @ stmt i a @ '' '') = Some (expand_auth a)"
    and "trim (w @ stmt i a @ '' '') \<noteq> []"
proof -
  have "last (pieces a) \<noteq> []" "plain (last (last (pieces a)))"
    using pieces_is_piece [OF assms(1)] is_piece_last last_in_set by (auto simp: list_all_iff)
  then have "plain (last (stmt i a))" "stmt i a \<noteq> []" "plain (hd (stmt i a))"
    using join_last [of "pieces a" "'' ;''"] pieces_is_piece [OF assms(1)]
    by (auto simp: stmt_def rule_subject_def)
  then have t: "trim (w @ stmt i a @ '' '') = stmt i a"
    using assms(2) by (intro trim_pad) (simp_all add: ascii_ws_def)
  then show "trim (w @ stmt i a @ '' '') \<noteq> []" using \<open>stmt i a \<noteq> []\<close> by simp
  have "auth_pairs initial_prefixes (split_predicate_list (join '' ;'' (pieces a))) (empty_auth, False) =
      Some (expand_auth a, True)"
    using pieces_predicates pieces_is_piece [OF assms(1)] auth_pairs_pieces [OF assms(1)]
    by (simp add: split_predicate_list_def)
  then show "parse_turtle_authorization initial_prefixes (w @ stmt i a @ '' '') = Some (expand_auth a)"
    using \<open>stmt i a \<noteq> []\<close> pop_subject [of i "join '' ;'' (pieces a)"]
    unfolding parse_turtle_authorization_def t Let_def by (simp add: stmt_def)
qed

lemma parse_statements:
  "\<forall>(i, a) \<in> set xs. safe_auth a \<Longrightarrow> list_all ascii_ws w \<Longrightarrow> trim w = [] \<Longrightarrow>
   List.map_filter (\<lambda>s. if trim s = [] then None else parse_turtle_authorization initial_prefixes s)
     (split_statements 0 False w (concat (map (\<lambda>(i, a). emit_auth i a) xs))) =
   map (\<lambda>(i, a). expand_auth a) xs"
proof (induction xs arbitrary: w)
  case (Cons x xs)
  obtain i a where x: "x = (i, a)" by (cases x)
  have a: "safe_auth a" using Cons.prems x by simp
  have nlw: "list_all ascii_ws [nl, nl]" "trim [nl, nl] = []"
    by (simp_all add: ascii_ws_def nl_def trim_def)
  let ?rest = "concat (map (\<lambda>(i, a). emit_auth i a) xs)"
  have "split_statements 0 False w (stmt i a @ y) = split_statements 0 False (w @ stmt i a) y" for y w
    using split_statements_chunk [OF rule_subject_chunk] join_pieces_scan(1) [OF pieces_chunk [OF a]]
    by (simp add: stmt_def)
  then have "split_statements 0 False w (concat (map (\<lambda>(i, a). emit_auth i a) (x # xs))) =
      (w @ stmt i a @ '' '') # split_statements 0 False [nl, nl] ?rest"
    using x a by (simp add: emit_stmt nl_def)
  then show ?case
    using Cons.IH [OF _ nlw] Cons.prems x parse_stmt [OF a Cons.prems(2), of i]
    by (simp add: List.map_filter_def)
qed (simp add: List.map_filter_def)

lemma chunk_no_at: "chunk s \<Longrightarrow> CHR ''@'' \<notin> set s \<and> CHR 0x0D \<notin> set s"
  by (induction rule: chunk.induct)
    (auto simp: calm_def iri_char_def list_all_iff plain_def ascii_ws_def)

lemma emit_auth_clean:
  assumes "safe_auth a"
  shows "clean False (emit_auth i a @ y) = clean False y"
    and "CHR ''@'' \<notin> set (emit_auth i a)" "CHR 0x0D \<notin> set (emit_auth i a)" "last (emit_auth i a) = nl"
proof -
  show "clean False (emit_auth i a @ y) = clean False y"
    using clean_chunk [OF rule_subject_chunk] join_pieces_scan(2) [OF pieces_chunk [OF assms]]
    by (simp add: emit_stmt [OF assms] stmt_def nl_def)
  have "set (join '' ;'' (pieces a)) \<subseteq> set '' ;'' \<union> (\<Union>w \<in> set (pieces a). set w)"
    by (rule set_join_subset)
  then show "CHR ''@'' \<notin> set (emit_auth i a)" "CHR 0x0D \<notin> set (emit_auth i a)"
    using pieces_chunk [OF assms] chunk_no_at [OF rule_subject_chunk [of i]] chunk_no_at
    by (auto simp: emit_stmt [OF assms] stmt_def list_all_iff nl_def)
  show "last (emit_auth i a) = nl" by (simp add: emit_stmt [OF assms])
qed

definition header :: string where
  "header = ''@prefix acl: <http://www.w3.org/ns/auth/acl#> .'' @ [nl] @
     ''@prefix foaf: <http://xmlns.com/foaf/0.1/> .'' @ [nl, nl]"

lemma body_clean:
  "\<forall>(i, a) \<in> set xs. safe_auth a \<Longrightarrow> b = concat (map (\<lambda>(i, a). emit_auth i a) xs) \<Longrightarrow>
   clean False b \<and> CHR ''@'' \<notin> set b \<and> CHR 0x0D \<notin> set b \<and> (b = [] \<or> last b = nl)"
proof (induction xs arbitrary: b)
  case (Cons x xs)
  obtain i a where x: "x = (i, a)" by (cases x)
  have a: "safe_auth a" using Cons.prems x by simp
  show ?case
    using Cons.IH [OF _ refl] Cons.prems x emit_auth_clean [OF a] emit_stmt [OF a]
    by (auto simp: last_append)
qed simp

lemma prefix_line_eq:
  assumes "strip_prefix ''@prefix'' (trim l) = Some r" "split_once (CHR '':'') (trim r) = Some (n, i)"
    and "trim (trim_end_matches (CHR ''>'') (trim_start_matches (CHR ''<'')
      (trim (trim_end_matches (CHR ''.'') (trim i))))) = iri" "pfx (trim n) = Some iri"
  shows "prefix_line l (pfx, body) = (pfx, body)"
  using assms by (auto simp: prefix_line_def Let_def fun_eq_iff)

lemma header_lines:
  "fold prefix_line (str_lines (header @ b)) (initial_prefixes, []) =
   fold prefix_line (str_lines b) (initial_prefixes, [nl])"
proof -
  let ?h1 = "''@prefix acl: <http://www.w3.org/ns/auth/acl#> .''"
  let ?h2 = "''@prefix foaf: <http://xmlns.com/foaf/0.1/> .''"
  have e: "header @ b = ?h1 @ nl # (?h2 @ nl # ([] @ nl # b))" by (simp add: header_def)
  have n: "nl \<notin> set ?h1" "CHR 0x0D \<notin> set ?h1" "nl \<notin> set ?h2" "CHR 0x0D \<notin> set ?h2"
    by (simp_all add: nl_def)
  have "str_lines ([] @ nl # b) = [] # str_lines b" by (rule str_lines_Cons) simp_all
  then have l: "str_lines (header @ b) = ?h1 # ?h2 # [] # str_lines b"
    unfolding e str_lines_Cons [OF n(1,2)] str_lines_Cons [OF n(3,4)] by simp
  have h1: "prefix_line ?h1 (initial_prefixes, []) = (initial_prefixes, [])"
    by (rule prefix_line_eq [of _ "'' acl: <http://www.w3.org/ns/auth/acl#> .''" "''acl''"
          "'' <http://www.w3.org/ns/auth/acl#> .''" "''http://www.w3.org/ns/auth/acl#''"]; code_simp)
  have h2: "prefix_line ?h2 (initial_prefixes, []) = (initial_prefixes, [])"
    by (rule prefix_line_eq [of _ "'' foaf: <http://xmlns.com/foaf/0.1/> .''" "''foaf''"
          "'' <http://xmlns.com/foaf/0.1/> .''" "''http://xmlns.com/foaf/0.1/''"]; code_simp)
  have h3: "prefix_line [] (initial_prefixes, []) = (initial_prefixes, [nl])"
    by (simp add: prefix_line_def nl_def)
  show ?thesis unfolding l fold.simps comp_def h1 h2 h3 ..
qed

lemma header_clean: "clean False (header @ b) = clean False b" "CHR 0x0D \<notin> set header" "last header = nl"
  by (simp_all add: header_def nl_def)

lemma serialize_header:
  "serialize_turtle_acl d = header @ (case doc_graph d of None \<Rightarrow> []
     | Some g \<Rightarrow> concat (map (\<lambda>(i, a). emit_auth i a) (enumerate 0 g)))"
  by (simp add: serialize_turtle_acl_def header_def nl_def)

lemma enumerate_safe: "list_all safe_auth g \<Longrightarrow> \<forall>(i, a) \<in> set (enumerate n g). safe_auth a"
  by (induction g arbitrary: n) auto

lemma map_enumerate: "map (\<lambda>(i, a). f a) (enumerate n g) = map f g"
  by (induction g arbitrary: n) auto

lemma parse_serialize:
  assumes "doc_graph d = Some g" "list_all safe_auth g" "length (serialize_turtle_acl d) \<le> max_bytes"
  shows "parse_turtle_acl_with_limit (serialize_turtle_acl d) max_bytes =
    Inr \<lparr>doc_context = None, doc_graph = (if g = [] then None else Some (map expand_auth g))\<rparr>"
proof -
  let ?b = "concat (map (\<lambda>(i, a). emit_auth i a) (enumerate 0 g))"
  have s: "serialize_turtle_acl d = header @ ?b" using assms(1) by (simp add: serialize_header)
  have b: "clean False ?b" "CHR ''@'' \<notin> set ?b" "CHR 0x0D \<notin> set ?b" "?b = [] \<or> last ?b = nl"
    using body_clean [OF enumerate_safe [OF assms(2)] refl] by blast+
  have "strip_turtle_comments (header @ ?b) = header @ ?b"
    using b header_clean by (intro strip_turtle_comments_clean) (auto simp: last_append)
  moreover have "fold prefix_line (str_lines (header @ ?b)) (initial_prefixes, []) = (initial_prefixes, nl # ?b)"
    using fold_prefix_line_body [OF b(3,2,4)] by (simp add: header_lines)
  moreover have "split_turtle_statements (nl # ?b) = split_statements 0 False [nl] ?b"
    by (simp add: split_turtle_statements_def nl_def)
  moreover have "list_all ascii_ws [nl]" "trim [nl] = []" by (simp_all add: ascii_ws_def nl_def trim_def)
  ultimately show ?thesis
    using assms(3) parse_statements [OF enumerate_safe [OF assms(2)], of "[nl]" 0]
    by (simp add: parse_turtle_acl_with_limit_def s map_enumerate)
qed

section \<open>Decisions survive the round trip\<close>

lemma safe_id_trim: "safe_id r \<Longrightarrow> trim r = r"
proof -
  assume s: "safe_id r"
  then have "r \<noteq> []" "\<forall>c \<in> set r. plain c"
    by (auto simp: safe_id_def list_all_iff iri_char_def tok_char_def split: if_splits)
  then show ?thesis by (intro trim_id) auto
qed

lemma expand_cases:
  assumes "safe_id m"
  obtains loc where "m = ''acl:'' @ loc" "expand_curie_or_iri initial_prefixes m = ''http://www.w3.org/ns/auth/acl#'' @ loc"
  | loc where "m = ''foaf:'' @ loc" "expand_curie_or_iri initial_prefixes m = ''http://xmlns.com/foaf/0.1/'' @ loc"
  | loc where "m = ''vcard:'' @ loc" "expand_curie_or_iri initial_prefixes m = ''http://www.w3.org/2006/vcard/ns#'' @ loc"
  | "expand_curie_or_iri initial_prefixes m = m"
proof (cases "split_once (CHR '':'') m")
  case None
  then show thesis
    using safe_id_trim [OF assms] by (intro that(4)) (simp add: expand_curie_or_iri_def)
next
  case (Some q)
  then obtain p loc where q: "split_once (CHR '':'') m = Some (p, loc)" by (cases q) simp
  then have m: "m = p @ CHR '':'' # loc" by (simp add: split_once_Some_iff)
  have e: "expand_curie_or_iri initial_prefixes m =
      (if starts_with ''<'' p then m else case initial_prefixes p of Some base \<Rightarrow> base @ loc | None \<Rightarrow> m)"
  proof -
    have "m \<noteq> ''a''" using m by (cases p) auto
    then show ?thesis unfolding expand_curie_or_iri_def safe_id_trim [OF assms] Let_def q by simp
  qed
  consider "p = ''acl''" | "p = ''foaf''" | "p = ''vcard''" | "initial_prefixes p = None"
    unfolding initial_prefixes_def fun_upd_apply by metis
  then show thesis
  proof cases
    case 1
    then show thesis using m e by (intro that(1) [of loc]) (simp_all add: initial_prefixes_def)
  next
    case 2
    then show thesis using m e by (intro that(2) [of loc]) (simp_all add: initial_prefixes_def)
  next
    case 3
    then show thesis using m e by (intro that(3) [of loc]) (simp_all add: initial_prefixes_def)
  next
    case 4
    then show thesis using e by (intro that(4)) simp
  qed
qed

lemma expand_meaning:
  assumes "safe_id m"
  shows "map_mode (expand_curie_or_iri initial_prefixes m) = map_mode m"
    and "is_foaf_agent (expand_curie_or_iri initial_prefixes m) = is_foaf_agent m"
    and "is_authenticated_agent (expand_curie_or_iri initial_prefixes m) = is_authenticated_agent m"
  using assms
  by (cases m rule: expand_cases; simp add: map_mode_def is_foaf_agent_def is_authenticated_agent_def)+

lemma get_ids_expand [simp]:
  "get_ids (expand_ids v) = map (expand_curie_or_iri initial_prefixes) (get_ids v)"
  by (simp add: expand_ids_def)

definition unexpanded :: "IdOrIds option \<Rightarrow> bool" where
  "unexpanded v \<longleftrightarrow> (\<forall>r \<in> set (get_ids v). expand_curie_or_iri initial_prefixes r = r)"

text \<open>Every identifier other than a mode and an agent class is left alone by CURIE expansion.\<close>

definition stable_auth :: "AclAuthorization \<Rightarrow> bool" where
  "stable_auth a \<longleftrightarrow> unexpanded (aa_agent a) \<and> unexpanded (aa_agent_group a) \<and> unexpanded (aa_origin a)
     \<and> unexpanded (aa_access_to a) \<and> unexpanded (aa_default a)"

lemma unexpanded_ids: "unexpanded v \<Longrightarrow> get_ids (expand_ids v) = get_ids v"
  by (auto simp: unexpanded_def intro: map_idI)

lemma expand_auth_decides:
  assumes "safe_auth a" "stable_auth a"
  shows "set (get_modes (expand_auth a)) = set (get_modes a)"
    and "names_agent (expand_auth a) who g \<longleftrightarrow> names_agent a who g"
    and "target_matches (expand_auth a) rp \<longleftrightarrow> target_matches a rp"
    and "conditions_ok (expand_auth a) ctx g disp \<longleftrightarrow> conditions_ok a ctx g disp"
    and "extract_origin_patterns up (expand_auth a) = extract_origin_patterns up a"
proof -
  have safe: "\<forall>r \<in> set (get_ids (aa_mode a)). safe_id r" "\<forall>r \<in> set (get_ids (aa_agent_class a)). safe_id r"
    using assms(1) by (auto simp: safe_auth_def fields_def list_all_iff)
  show "set (get_modes (expand_auth a)) = set (get_modes a)"
    using safe(1) by (simp add: get_modes_def expand_auth_def expand_meaning(1))
  show "names_agent (expand_auth a) who g \<longleftrightarrow> names_agent a who g"
    using assms(2) safe(2) expand_meaning(2,3)
    by (cases who) (auto simp: stable_auth_def expand_auth_def unexpanded_ids simp del: get_ids_expand,
        auto)
  show "target_matches (expand_auth a) rp \<longleftrightarrow> target_matches a rp"
    using assms(2) by (simp add: target_matches_def stable_auth_def expand_auth_def unexpanded_ids del: get_ids_expand)
  show "conditions_ok (expand_auth a) ctx g disp \<longleftrightarrow> conditions_ok a ctx g disp"
    using assms(1) by (simp add: conditions_ok_def expand_auth_def safe_auth_def)
  show "extract_origin_patterns up (expand_auth a) = extract_origin_patterns up a"
    using assms(2) by (simp add: extract_origin_patterns_def stable_auth_def expand_auth_def unexpanded_ids
        del: get_ids_expand)
qed

lemma expand_doc_decides:
  assumes "doc_graph d = Some g" "doc_graph d' = Some (map expand_auth g)"
    and "list_all safe_auth g" "list_all stable_auth g"
  shows "evaluate_access_ctx env (Some d') ctx rp m org gr disp = evaluate_access_ctx env (Some d) ctx rp m org gr disp"
proof -
  have a: "safe_auth a" "stable_auth a" if "a \<in> set g" for a
    using that assms(3,4) by (auto simp: list_all_iff)
  have "base_grant (map expand_auth g) ctx rp m gr disp = base_grant g ctx rp m gr disp"
    unfolding base_grant_iff by (auto simp: expand_auth_decides a)
  moreover have "doc_patterns (we_url_parse env) d' = doc_patterns (we_url_parse env) d"
    using assms(1,2) by (auto simp: doc_patterns_def expand_auth_decides a)
  ultimately show ?thesis
    using assms(1,2) unfolding evaluate_defs evaluate_inner_granted_iff check_origin_allows_iff by simp
qed

section \<open>Reference for the nesting check\<close>

text \<open>The brackets of a JSON text that stand outside its string literals, and the nesting depth
  after a sequence of brackets.\<close>

fun outside :: "bool \<Rightarrow> bool \<Rightarrow> bytes \<Rightarrow> bytes" where
  "outside in_str esc [] = []"
| "outside True True (b # bs) = outside True False bs"
| "outside True False (b # bs) =
     (if b = CHR 0x5C then outside True True bs
      else outside (b \<noteq> CHR 0x22) False bs)"
| "outside False esc (b # bs) =
     (if b = CHR 0x22 then outside True esc bs
      else if b \<in> set ''{}[]'' then b # outside False esc bs
      else outside False esc bs)"

definition nesting :: "nat \<Rightarrow> bytes \<Rightarrow> nat" where
  "nesting d bs = fold (\<lambda>b d. if b = CHR ''{'' \<or> b = CHR ''['' then d + 1 else d - 1) bs d"

lemma json_depth_loop_iff:
  "d \<le> m \<Longrightarrow> json_depth_loop m d in_str esc bs = Inr () \<longleftrightarrow>
     (\<forall>k \<le> length (outside in_str esc bs). nesting d (take k (outside in_str esc bs)) \<le> m)"
proof (induction m d in_str esc bs rule: json_depth_loop.induct)
  case (2 m d in_str esc b bs)
  have all_Suc: "(\<forall>k \<le> Suc n. P k) \<longleftrightarrow> P 0 \<and> (\<forall>k \<le> n. P (Suc k))" for n and P :: "nat \<Rightarrow> bool"
    by (metis Suc_le_mono not0_implies_Suc zero_le)
  show ?case
  proof (cases in_str)
    case True
    then show ?thesis using 2 by (cases esc) auto
  next
    case False
    have z: "nesting d [] \<le> m" using 2(9) by (simp add: nesting_def)
    have "\<exists>k \<le> Suc n. \<not> nesting d (take k (b # xs)) \<le> m"
      if "d + 1 > m" "b = CHR ''{'' \<or> b = CHR ''[''" for n xs
      using that by (intro exI [of _ 1]) (auto simp: nesting_def)
    then show ?thesis
      using False 2 z by (auto simp: all_Suc nesting_def split: if_splits)
  qed
qed (simp add: nesting_def)

section \<open>Properties\<close>

text \<open>Reading back a written ACL gives the same authorisations, in order, with CURIEs
  expanded, whenever the identifiers are safe and the text is within the size cap.\<close>

theorem turtle_acl_roundtrip:
  assumes "doc_graph d = Some g" "g \<noteq> []" "list_all safe_auth g"
    and "length (serialize_turtle_acl d) \<le> max_bytes"
  shows "parse_turtle_acl_with_limit (serialize_turtle_acl d) max_bytes =
    Inr \<lparr>doc_context = None, doc_graph = Some (map expand_auth g)\<rparr>"
  using parse_serialize [OF assms(1,3,4)] assms(2) by simp

lemma ex_safe: "list_all safe_auth [ex_auth, ex_public]" "length (serialize_turtle_acl ex_doc) \<le> 1000"
  by code_simp+

theorem turtle_acl_roundtrip_witness:
  "parse_turtle_acl_with_limit (serialize_turtle_acl ex_doc) 1000 =
     Inr \<lparr>doc_context = None, doc_graph = Some [expand_auth ex_auth, expand_auth ex_public]\<rparr>"
  using turtle_acl_roundtrip [OF _ _ ex_safe] by (simp add: ex_doc_def)



text \<open>The Turtle reader is total and its only error is the size cap: it fails exactly on
  inputs longer than the limit.\<close>

theorem turtle_size_cap:
  "(case parse_turtle_acl_with_limit input max_bytes of
      Inl e \<Rightarrow> length input > max_bytes \<and> e = PayloadTooLarge (''ACL body exceeds '' @ show_nat max_bytes @ '' bytes'')
    | Inr d \<Rightarrow> length input \<le> max_bytes)"
  by (simp add: parse_turtle_acl_with_limit_def Let_def split: prod.split)

text \<open>The one-pass nesting check accepts a body exactly when no prefix of its brackets
  outside string literals nests deeper than the bound.\<close>

theorem check_json_depth_iff:
  "check_json_depth body m = Inr () \<longleftrightarrow>
     (\<forall>k \<le> length (outside False False body). nesting 0 (take k (outside False False body)) \<le> m)"
  unfolding check_json_depth_def by (rule json_depth_loop_iff) simp

theorem check_json_depth_iff_witness:
  "nesting 0 (take 2 (outside False False ''{[]}'')) \<le> 2"
proof -
  have "check_json_depth ''{[]}'' 2 = Inr ()" by (simp add: check_json_depth_def)
  moreover have "2 \<le> length (outside False False ''{[]}'')" by simp
  ultimately show ?thesis using check_json_depth_iff [of "''{[]}''" 2] by blast
qed

end
