(* ===== verification/Storage.thy ===== *)
theory Storage
  imports Pod_Error "HOL-Library.AList"
begin

text \<open>
  The \<open>Storage\<close> trait (\<open>storage/mod.rs\<close>) as a record of operations with its contract as a
  locale, and the in-memory backend (\<open>storage/memory.rs\<close>) as its provider. The clock
  (\<open>chrono::Utc::now\<close>) and the hash (\<open>hex::encode(Sha256::digest(..))\<close>) are parameters.
  A \<open>HashMap\<close> is an association list whose keys are distinct; no operation depends on its order.
\<close>

section \<open>The trait\<close>

record ResourceMeta =
  rm_etag :: string
  rm_modified :: int
  rm_size :: u64
  rm_content_type :: string
  rm_links :: "string list"

datatype StorageEvent = Created string | Updated string | Deleted string

definition ResourceMeta_new :: "int \<Rightarrow> string \<Rightarrow> u64 \<Rightarrow> string \<Rightarrow> ResourceMeta" where
  "ResourceMeta_new now e sz ct =
     \<lparr>rm_etag = e, rm_modified = now, rm_size = sz, rm_content_type = ct, rm_links = []\<rparr>"

record 's storage_ops =
  s_get :: "'s \<Rightarrow> string \<Rightarrow> PodError + (bytes \<times> ResourceMeta)"
  s_put :: "'s \<Rightarrow> string \<Rightarrow> bytes \<Rightarrow> string \<Rightarrow> 's \<times> (PodError + ResourceMeta)"
  s_delete :: "'s \<Rightarrow> string \<Rightarrow> 's \<times> (PodError + unit)"
  s_list :: "'s \<Rightarrow> string \<Rightarrow> PodError + string list"
  s_head :: "'s \<Rightarrow> string \<Rightarrow> PodError + ResourceMeta"
  s_exists :: "'s \<Rightarrow> string \<Rightarrow> PodError + bool"

section \<open>The in-memory backend\<close>

record Entry =
  e_body :: bytes
  e_meta :: ResourceMeta

record MemoryBackend =
  mb_data :: "(string \<times> Entry) list"
  mb_events :: "StorageEvent list"

definition MemoryBackend_new :: MemoryBackend where
  "MemoryBackend_new = \<lparr>mb_data = [], mb_events = []\<rparr>"

definition mem_normalize :: "string \<Rightarrow> string" where
  "mem_normalize path =
     (if path = [] then ''/''
      else if starts_with ''/'' path then path
      else ''/'' @ path)"

definition is_under :: "string \<Rightarrow> string \<Rightarrow> bool" where
  "is_under child container =
     (if container = ''/'' then child \<noteq> ''/''
      else (let c = trim_end_matches (CHR ''/'') container in
            child = c \<or> starts_with (c @ ''/'') child))"

definition mem_get :: "MemoryBackend \<Rightarrow> string \<Rightarrow> PodError + (bytes \<times> ResourceMeta)" where
  "mem_get m path0 = (let path = mem_normalize path0 in
     case map_of (mb_data m) path of
       Some e \<Rightarrow> Inr (e_body e, e_meta e)
     | None \<Rightarrow> Inl (NotFound path))"

definition mem_put :: "(bytes \<Rightarrow> string) \<Rightarrow> int \<Rightarrow> MemoryBackend \<Rightarrow> string \<Rightarrow> bytes \<Rightarrow> string
    \<Rightarrow> MemoryBackend \<times> (PodError + ResourceMeta)" where
  "mem_put sha now m path0 b ct = (let path = mem_normalize path0;
       mt = \<lparr>rm_etag = sha b, rm_modified = now, rm_size = of_nat (length b), rm_content_type = ct, rm_links = []\<rparr>;
       existed = (map_of (mb_data m) path \<noteq> None);
       ev = (if existed then Updated path else Created path) in
     (\<lparr>mb_data = AList.update path \<lparr>e_body = b, e_meta = mt\<rparr> (mb_data m), mb_events = mb_events m @ [ev]\<rparr>, Inr mt))"

definition mem_delete :: "MemoryBackend \<Rightarrow> string \<Rightarrow> MemoryBackend \<times> (PodError + unit)" where
  "mem_delete m path0 = (let path = mem_normalize path0 in
     case map_of (mb_data m) path of
       Some e \<Rightarrow> (\<lparr>mb_data = AList.delete path (mb_data m), mb_events = mb_events m @ [Deleted path]\<rparr>, Inr ())
     | None \<Rightarrow> (m, Inl (NotFound path)))"

definition child_name :: "string \<Rightarrow> string \<Rightarrow> string option" where
  "child_name container key =
     (case strip_prefix container key of
        None \<Rightarrow> None
      | Some remainder \<Rightarrow>
          if remainder = [] then None
          else Some (case find_char ((=) (CHR ''/'')) remainder of
                       Some pos \<Rightarrow> take (Suc pos) remainder
                     | None \<Rightarrow> remainder))"

definition mem_list :: "MemoryBackend \<Rightarrow> string \<Rightarrow> PodError + string list" where
  "mem_list m container0 =
     (let c0 = mem_normalize container0;
          c = (if ends_with ''/'' c0 then c0 else c0 @ ''/'')
      in Inr (sort (remdups (List.map_filter (child_name c) (map fst (mb_data m))))))"

definition mem_head :: "MemoryBackend \<Rightarrow> string \<Rightarrow> PodError + ResourceMeta" where
  "mem_head m path0 = (let path = mem_normalize path0 in
     case map_of (mb_data m) path of
       Some e \<Rightarrow> Inr (e_meta e)
     | None \<Rightarrow> Inl (NotFound path))"

definition mem_exists :: "MemoryBackend \<Rightarrow> string \<Rightarrow> PodError + bool" where
  "mem_exists m path0 = Inr (map_of (mb_data m) (mem_normalize path0) \<noteq> None)"

text \<open>The task \<open>watch\<close> spawns forwards, of the events it receives, those at or below the path.\<close>

fun event_path :: "StorageEvent \<Rightarrow> string" where
  "event_path (Created p) = p"
| "event_path (Updated p) = p"
| "event_path (Deleted p) = p"

definition mem_watch :: "string \<Rightarrow> StorageEvent list \<Rightarrow> StorageEvent list" where
  "mem_watch path0 received = (let filter_path = mem_normalize path0 in
     filter (\<lambda>ev. is_under (event_path ev) filter_path) received)"

definition memory_ops :: "(bytes \<Rightarrow> string) \<Rightarrow> int \<Rightarrow> MemoryBackend storage_ops" where
  "memory_ops sha now =
     \<lparr>s_get = mem_get, s_put = mem_put sha now, s_delete = mem_delete, s_list = mem_list,
      s_head = mem_head, s_exists = mem_exists\<rparr>"

section \<open>The contract\<close>

text \<open>
  What a client of the trait relies on. \<open>key\<close> is the backend's canonical form of a path: two
  paths with the same key name the same resource. A write that succeeds is what the next read
  sees, touches no other resource, and a failed operation changes nothing. The in-memory backend keeps
  all of it; the filesystem backend keeps it on resource paths that share no file, but for a put that
  fails half-way (\<open>Fs_Backend\<close>).
\<close>

locale pod_storage =
  fixes ops :: "'s storage_ops"
    and key :: "string \<Rightarrow> string"
    and invar :: "'s \<Rightarrow> bool"
  assumes get_key: "key p = key q \<Longrightarrow> s_get ops s p = s_get ops s q"
    and put_get_same: "\<lbrakk>invar s; s_put ops s p b ct = (s', Inr m)\<rbrakk> \<Longrightarrow> s_get ops s' p = Inr (b, m)"
    and put_meta: "s_put ops s p b ct = (s', Inr m) \<Longrightarrow> rm_content_type m = ct \<and> rm_links m = []"
    and put_get_other: "\<lbrakk>invar s; s_put ops s p b ct = (s', r); key q \<noteq> key p\<rbrakk>
      \<Longrightarrow> s_get ops s' q = s_get ops s q"
    and put_fail: "s_put ops s p b ct = (s', Inl e) \<Longrightarrow> s' = s"
    and put_invar: "\<lbrakk>invar s; s_put ops s p b ct = (s', r)\<rbrakk> \<Longrightarrow> invar s'"
    and delete_get_same: "\<lbrakk>invar s; s_delete ops s p = (s', Inr ())\<rbrakk>
      \<Longrightarrow> \<exists>q. s_get ops s' p = Inl (NotFound q)"
    and delete_get_other: "\<lbrakk>invar s; s_delete ops s p = (s', u); key q \<noteq> key p\<rbrakk>
      \<Longrightarrow> s_get ops s' q = s_get ops s q"
    and delete_fail: "s_delete ops s p = (s', Inl e) \<Longrightarrow> s' = s"
    and delete_invar: "\<lbrakk>invar s; s_delete ops s p = (s', u)\<rbrakk> \<Longrightarrow> invar s'"
    and head_get: "s_head ops s p = map_sum id snd (s_get ops s p)"
    and exists_get: "s_exists ops s p = Inr True \<longleftrightarrow> is_ok (s_get ops s p)"
begin

lemma put_put_other:
  assumes "invar s" "s_put ops s p b ct = (s1, Inr m)" "s_put ops s1 q c dt = (s2, r)"
    and "key p \<noteq> key q"
  shows "s_get ops s2 p = Inr (b, m)"
  using put_get_same [OF assms(1,2)] put_get_other [OF put_invar [OF assms(1,2)] assms(3,4)] by simp

lemma put_delete_get:
  assumes "invar s" "s_put ops s p b ct = (s1, Inr m)" "s_delete ops s1 p = (s2, Inr ())"
  shows "\<not> is_ok (s_get ops s2 p)"
  using delete_get_same [OF put_invar [OF assms(1,2)] assms(3)] by auto

lemma put_exists:
  assumes "invar s" "s_put ops s p b ct = (s1, Inr m)"
  shows "s_exists ops s1 p = Inr True" "s_head ops s1 p = Inr m"
  using put_get_same [OF assms] by (simp_all add: exists_get head_get)

end

section \<open>The backend meets the contract\<close>

definition mem_invar :: "MemoryBackend \<Rightarrow> bool" where
  "mem_invar m \<longleftrightarrow> distinct (map fst (mb_data m)) \<and> (\<forall>k \<in> fst ` set (mb_data m). starts_with ''/'' k)"

lemma mem_normalize_slash [simp]: "starts_with ''/'' (mem_normalize p)"
  by (simp add: mem_normalize_def)

lemma mem_normalize_not_Nil [simp]: "mem_normalize p \<noteq> []"
  using mem_normalize_slash [of p] by (cases "mem_normalize p") auto

lemma mem_normalize_id: "starts_with ''/'' p \<Longrightarrow> mem_normalize p = p"
  by (cases p) (auto simp: mem_normalize_def)

lemma mem_normalize_idem [simp]: "mem_normalize (mem_normalize p) = mem_normalize p"
  by (simp add: mem_normalize_id)

lemmas mem_defs = mem_get_def mem_put_def mem_delete_def mem_head_def mem_exists_def Let_def

lemma mem_invar_new [simp]: "mem_invar MemoryBackend_new"
  by (simp add: mem_invar_def MemoryBackend_new_def)

lemma mem_put_invar:
  assumes "mem_invar m" "mem_put sha now m p b ct = (m', r)"
  shows "mem_invar m'"
proof -
  have "distinct (map fst (mb_data m'))"
    using assms by (auto simp: mem_defs mem_invar_def distinct_update)
  moreover have "fst ` set (mb_data m') = insert (mem_normalize p) (fst ` set (mb_data m))"
  proof -
    obtain e where "mb_data m' = AList.update (mem_normalize p) e (mb_data m)"
      using assms(2) by (auto simp: mem_defs)
    then show ?thesis by (simp add: dom_update)
  qed
  ultimately show ?thesis
    using assms(1) mem_normalize_slash unfolding mem_invar_def by (metis insert_iff)
qed

lemma mem_delete_invar:
  assumes "mem_invar m" "mem_delete m p = (m', r)"
  shows "mem_invar m'"
proof (cases "map_of (mb_data m) (mem_normalize p)")
  case (Some e)
  then have "mb_data m' = AList.delete (mem_normalize p) (mb_data m)"
    using assms(2) by (auto simp: mem_defs)
  then show ?thesis
    using assms(1) dom_delete_subset [of "mem_normalize p" "mb_data m"]
    by (auto simp: mem_invar_def distinct_delete simp del: ball_simps(9))
qed (use assms in \<open>auto simp: mem_defs\<close>)

interpretation mem: pod_storage "memory_ops sha now" mem_normalize mem_invar
proof unfold_locales
  fix s p b ct s' r
  assume "mem_invar s" "s_put (memory_ops sha now) s p b ct = (s', r)"
  then show "mem_invar s'" by (simp add: memory_ops_def mem_put_invar)
next
  fix s p s' r
  assume "mem_invar s" "s_delete (memory_ops sha now) s p = (s', r)"
  then show "mem_invar s'" by (simp add: memory_ops_def mem_delete_invar)
qed (auto simp: memory_ops_def mem_defs update_conv' delete_conv' split: option.splits)


section \<open>Listing\<close>

text \<open>
  The abstract listing: a child of a container is a path segment, marked with a slash when the
  stored key goes on below it.
\<close>

definition is_child :: "string \<Rightarrow> string \<Rightarrow> string \<Rightarrow> bool" where
  "is_child c k x \<longleftrightarrow>
     (x \<noteq> [] \<and> CHR ''/'' \<notin> set x \<and> k = c @ x) \<or>
     (\<exists>y r. CHR ''/'' \<notin> set y \<and> x = y @ ''/'' \<and> k = c @ y @ ''/'' @ r)"

lemma child_name_is_child: "child_name c k = Some x \<longleftrightarrow> is_child c k x"
proof (cases "strip_prefix c k")
  case None
  then show ?thesis by (auto simp: child_name_def is_child_def)
next
  case (Some r)
  then have k: "k = c @ r" by (simp add: strip_prefix_Some_iff)
  show ?thesis
  proof (cases "CHR ''/'' \<in> set r")
    case True
    then obtain y r' where r: "r = y @ CHR ''/'' # r'" "CHR ''/'' \<notin> set y" by (meson split_list_first)
    have "find_char ((=) (CHR ''/'')) r = Some (length y)"
      unfolding r(1) by (rule find_char_append) (use r(2) in auto)
    then show ?thesis
      using Some k r by (auto simp: child_name_def is_child_def append_eq_append_conv2 Cons_eq_append_conv
        append_eq_Cons_conv)
  next
    case False
    then have "find_char ((=) (CHR ''/'')) r = None" by (auto simp: find_char_None_iff)
    then show ?thesis
      using Some k False by (auto simp: child_name_def is_child_def)
  qed
qed

definition as_container :: "string \<Rightarrow> string" where
  "as_container p = (let c = mem_normalize p in if ends_with ''/'' c then c else c @ ''/'')"

lemma set_child_names: "set (List.map_filter (child_name c) ks) = {x. \<exists>k. k \<in> set ks \<and> is_child c k x}"
  by (induction ks) (auto simp: List.map_filter_simps child_name_is_child [symmetric] split: option.splits)

section \<open>Properties\<close>

text \<open>Listing a container gives, in order and without repetition, exactly the names of its direct
  children: the resources stored in it, and, with a slash, each sub-container that holds a
  resource at any depth.\<close>

theorem mem_list_spec:
  "\<exists>xs. mem_list m p = Inr xs \<and> sorted xs \<and> distinct xs \<and>
     set xs = {x. \<exists>k. map_of (mb_data m) k \<noteq> None \<and> is_child (as_container p) k x}"
proof -
  have "mem_list m p = Inr (sort (remdups (List.map_filter (child_name (as_container p)) (map fst (mb_data m)))))"
    by (simp add: mem_list_def as_container_def Let_def)
  moreover have "k \<in> set (map fst (mb_data m)) \<longleftrightarrow> map_of (mb_data m) k \<noteq> None" for k
    by (simp add: map_of_eq_None_iff)
  ultimately show ?thesis by (simp add: set_child_names)
qed

end
