(* ===== verification/Wac_Resolver.thy ===== *)
theory Wac_Resolver
  imports Wac_Parser Storage
begin

text \<open>
  ACL resolution: \<open>StorageAclResolver::find_effective_acl\<close> (\<open>wac/resolver.rs\<close>) and the server's
  \<open>find_effective_acl_dyn\<close> (\<open>solid-pod-rs-server/src/lib.rs\<close>). Both walk from the resource to
  the root; the storage they read is the trait's \<open>get\<close>.
\<close>

record acl_config =
  ac_from_slice :: "bytes \<Rightarrow> AclDocument option"
  ac_env :: "string \<Rightarrow> string option"

definition acl_key :: "string \<Rightarrow> string" where
  "acl_key path = (if path = ''/'' then ''/.acl'' else trim_end_matches (CHR ''/'') path @ ''.acl'')"

definition acl_parent :: "string \<Rightarrow> string" where
  "acl_parent path = (let trimmed = trim_end_matches (CHR ''/'') path in
     case rfind_char (CHR ''/'') trimmed of
       Some pos \<Rightarrow> if pos = 0 then ''/'' else take pos trimmed
     | None \<Rightarrow> ''/'')"

definition try_turtle :: "acl_config \<Rightarrow> bytes \<Rightarrow> ResourceMeta \<Rightarrow> AclDocument option" where
  "try_turtle cfg body mt =
     (let ct = to_ascii_lowercase (rm_content_type mt);
          looks_turtle = (starts_with ''text/turtle'' ct \<or> starts_with ''application/turtle'' ct
            \<or> starts_with ''application/x-turtle'' ct);
          txt = unwrap_or (from_utf8 body) []
      in if looks_turtle \<or> contains_sub ''@prefix'' txt \<or> contains_sub ''acl:Authorization'' txt
         then (case parse_turtle_acl (ac_env cfg) txt of Inr doc \<Rightarrow> Some doc | Inl _ \<Rightarrow> None)
         else None)"

text \<open>One candidate of the walk: \<open>Some\<close> where the loop returns, \<open>None\<close> where it goes on.\<close>

definition try_acl :: "acl_config \<Rightarrow> PodError + (bytes \<times> ResourceMeta) \<Rightarrow> (PodError + AclDocument) option" where
  "try_acl cfg got = (case got of
     Inl _ \<Rightarrow> None
   | Inr (body, mt) \<Rightarrow>
       (case parse_jsonld_acl (ac_from_slice cfg) (ac_env cfg) body of
          Inr doc \<Rightarrow> Some (Inr doc)
        | Inl (BadRequest _) \<Rightarrow> Some (Inl (BadRequest ''ACL document exceeds bounds''))
        | Inl (PayloadTooLarge msg) \<Rightarrow> Some (Inl (PayloadTooLarge msg))
        | Inl _ \<Rightarrow> map_option Inr (try_turtle cfg body mt)))"

definition try_acl_dyn :: "acl_config \<Rightarrow> PodError + (bytes \<times> ResourceMeta) \<Rightarrow> (PodError + AclDocument) option" where
  "try_acl_dyn cfg got = (case got of
     Inl _ \<Rightarrow> None
   | Inr (body, mt) \<Rightarrow>
       (case parse_jsonld_acl (ac_from_slice cfg) (ac_env cfg) body of
          Inr doc \<Rightarrow> Some (Inr doc)
        | Inl (BadRequest _) \<Rightarrow> Some (Inl (BadRequest ''ACL document exceeds bounds''))
        | Inl _ \<Rightarrow> map_option Inr (try_turtle cfg body mt)))"

lemma rfind_char_less: "rfind_char c s = Some i \<Longrightarrow> i < length s"
  by (auto simp: rfind_char_def split: option.splits dest: find_char_Some)

lemma trim_end_matches_length: "length (trim_end_matches c s) \<le> length s"
  by (metis length_append le_add1 trim_end_matches_prefix)

definition walk_measure :: "string \<Rightarrow> nat" where
  "walk_measure path = (if path = ''/'' then 0 else Suc (length path))"

lemma acl_parent_measure: "path \<noteq> ''/'' \<Longrightarrow> walk_measure (acl_parent path) < walk_measure path"
  using rfind_char_less [of "CHR ''/''" "trim_end_matches (CHR ''/'') path"]
    trim_end_matches_length [of "CHR ''/''" path]
  by (auto simp: acl_parent_def walk_measure_def Let_def split: option.splits if_splits)

text \<open>The \<open>loop\<close> of both functions, over the test applied to a candidate.\<close>

function walk :: "(PodError + (bytes \<times> ResourceMeta) \<Rightarrow> (PodError + AclDocument) option)
    \<Rightarrow> (string \<Rightarrow> PodError + (bytes \<times> ResourceMeta)) \<Rightarrow> string \<Rightarrow> PodError + AclDocument option" where
  "walk test get path =
     (case test (get (acl_key path)) of
        Some (Inr doc) \<Rightarrow> Inr (Some doc)
      | Some (Inl e) \<Rightarrow> Inl e
      | None \<Rightarrow>
          if path = ''/'' \<or> path = [] then Inr None
          else walk test get (acl_parent path))"
  by pat_completeness auto
termination
  by (relation "measure (\<lambda>(_, _, path). walk_measure path)") (auto simp: acl_parent_measure)

declare walk.simps [simp del]

definition find_effective_acl :: "acl_config \<Rightarrow> (string \<Rightarrow> PodError + (bytes \<times> ResourceMeta)) \<Rightarrow> string
    \<Rightarrow> PodError + AclDocument option" where
  "find_effective_acl cfg get resource_path = walk (try_acl cfg) get resource_path"

definition find_effective_acl_dyn :: "acl_config \<Rightarrow> (string \<Rightarrow> PodError + (bytes \<times> ResourceMeta)) \<Rightarrow> string
    \<Rightarrow> PodError + AclDocument option" where
  "find_effective_acl_dyn cfg get resource_path = walk (try_acl_dyn cfg) get resource_path"

section \<open>The ancestor chain\<close>

text \<open>The walk on a path given by its segments visits exactly the ancestors, nearest first.\<close>

fun first_hit :: "('a \<Rightarrow> (PodError + AclDocument) option) \<Rightarrow> 'a list \<Rightarrow> PodError + AclDocument option" where
  "first_hit t [] = Inr None"
| "first_hit t (x # xs) = (case t x of
     Some (Inr doc) \<Rightarrow> Inr (Some doc) | Some (Inl e) \<Rightarrow> Inl e | None \<Rightarrow> first_hit t xs)"

fun ancestors :: "string list \<Rightarrow> string list list" where
  "ancestors ss = ss # (if ss = [] then [] else ancestors (butlast ss))"

declare ancestors.simps [simp del]

lemma trim_path_of: "list_all seg_ok ss \<Longrightarrow> ss \<noteq> [] \<Longrightarrow> trim_end_matches (CHR ''/'') (path_of ss) = path_of ss"
  using segs_str_last [of ss] by (intro trim_end_matches_no) (simp add: path_of_def)

lemma acl_parent_path_of:
  assumes "list_all seg_ok (ss @ [s])"
  shows "acl_parent (path_of (ss @ [s])) = path_of ss"
proof -
  have s: "CHR ''/'' \<notin> set s" using assms by (simp add: seg_ok_def)
  have "find_char ((=) (CHR ''/'')) (rev s @ CHR ''/'' # rev (segs_str ss)) = Some (length (rev s))"
    using s by (intro find_char_append) auto
  then have "rfind_char (CHR ''/'') (segs_str (ss @ [s])) = Some (length (segs_str ss))"
    by (simp add: rfind_char_def)
  moreover have "segs_str ss = [] \<longleftrightarrow> ss = []" by (cases ss) simp_all
  ultimately show ?thesis
    using trim_path_of [OF assms] by (simp add: acl_parent_def path_of_def)
qed

lemma walk_path_of:
  "list_all seg_ok ss \<Longrightarrow> walk test get (path_of ss) = first_hit (\<lambda>a. test (get (acl_key (path_of a)))) (ancestors ss)"
proof (induction ss rule: rev_induct)
  case Nil
  then show ?case
    by (simp add: walk.simps [of test get "''/''"] ancestors.simps [of "[]"] path_of_def split: option.splits)
next
  case (snoc s ss)
  have "path_of (ss @ [s]) \<noteq> ''/''" "path_of (ss @ [s]) \<noteq> []"
    using snoc.prems by (auto simp: path_of_def seg_ok_def append_eq_Cons_conv)
  then show ?case
    using snoc by (simp add: walk.simps [of test get "path_of (ss @ [s])"] ancestors.simps [of "ss @ [s]"]
        acl_parent_path_of split: option.splits sum.splits)
qed

definition acl_location :: "string list \<Rightarrow> string" where
  "acl_location ss = (if ss = [] then ''/.acl'' else segs_str ss @ ''.acl'')"

lemma acl_key_path_of: "list_all seg_ok ss \<Longrightarrow> acl_key (path_of ss) = acl_location ss"
proof (cases "ss = []")
  case False
  assume *: "list_all seg_ok ss"
  then have "path_of ss \<noteq> ''/''" using False path_of_inj [of "[]" ss] by (auto simp: path_of_def)
  then show ?thesis
    using False trim_path_of [OF * False] by (simp add: acl_key_def acl_location_def path_of_def)
qed (simp add: acl_key_def path_of_def acl_location_def)

lemma ancestors_ok: "list_all seg_ok ss \<Longrightarrow> a \<in> set (ancestors ss) \<Longrightarrow> list_all seg_ok a"
proof (induction ss rule: rev_induct)
  case (snoc s ss)
  then show ?case by (auto simp: ancestors.simps [of "ss @ [s]"])
qed (simp add: ancestors.simps [of "[]"])

lemma first_hit_cong: "(\<And>x. x \<in> set xs \<Longrightarrow> t x = t' x) \<Longrightarrow> first_hit t xs = first_hit t' xs"
  by (induction xs) (auto split: option.splits sum.splits)

lemma walk_locations:
  assumes "list_all seg_ok ss"
  shows "walk test get (path_of ss) = first_hit (\<lambda>a. test (get (acl_location a))) (ancestors ss)"
  unfolding walk_path_of [OF assms]
  by (rule first_hit_cong) (simp add: acl_key_path_of ancestors_ok [OF assms])

section \<open>Properties\<close>

text \<open>C6: The effective ACL of a resource is that of its nearest ancestor that has one: the walk
  tries the resource's own ACL, then its parents' up to the root, and the first candidate that
  reads as an ACL, or that breaks a bound, decides.\<close>

theorem find_effective_acl_nearest:
  assumes "list_all seg_ok ss"
  shows "find_effective_acl cfg get (path_of ss) =
    first_hit (\<lambda>a. try_acl cfg (get (acl_location a))) (ancestors ss)"
  unfolding find_effective_acl_def by (rule walk_locations [OF assms])

definition ex_meta :: ResourceMeta where
  "ex_meta = \<lparr>rm_etag = ''e'', rm_modified = 0, rm_size = 0, rm_content_type = ''text/turtle'', rm_links = []\<rparr>"

definition ex_cfg :: acl_config where
  "ex_cfg = \<lparr>ac_from_slice = (\<lambda>_. None), ac_env = (\<lambda>_. None)\<rparr>"

definition ex_acl_text :: string where
  "ex_acl_text = ''<#o> a acl:Authorization ; acl:agent <did:x> ; acl:accessTo </a> ; acl:mode acl:Read .''"

definition ex_get :: "string \<Rightarrow> PodError + (bytes \<times> ResourceMeta)" where
  "ex_get k = (if k = ''/a.acl'' then Inr (ex_acl_text, ex_meta) else Inl (NotFound k))"

theorem find_effective_acl_nearest_witness:
  "find_effective_acl ex_cfg ex_get ''/a/b/c'' =
     first_hit (\<lambda>a. try_acl ex_cfg (ex_get (acl_location a))) [[''a'', ''b'', ''c''], [''a'', ''b''], [''a''], []]"
proof -
  have "ancestors [''a'', ''b'', ''c''] = [[''a'', ''b'', ''c''], [''a'', ''b''], [''a''], []]"
    by code_simp
  then show ?thesis
    using find_effective_acl_nearest [of "[''a'', ''b'', ''c'']" ex_cfg ex_get]
    by (simp add: seg_ok_def path_of_def)
qed

definition within_cap :: "acl_config \<Rightarrow> PodError + (bytes \<times> ResourceMeta) \<Rightarrow> bool" where
  "within_cap cfg got = (case got of Inl _ \<Rightarrow> True
     | Inr (body, _) \<Rightarrow> length body \<le> env_usize (ac_env cfg) ''JSS_MAX_ACL_BYTES'' MAX_ACL_BYTES)"

lemma try_acl_dyn_eq: "within_cap cfg got \<Longrightarrow> try_acl_dyn cfg got = try_acl cfg got"
proof -
  have "check_json_depth b m \<noteq> Inl (PayloadTooLarge e)" for b m e
  proof -
    have "json_depth_loop m d s q b \<noteq> Inl (PayloadTooLarge e)" for d s q
      by (induction m d s q b rule: json_depth_loop.induct) auto
    then show ?thesis by (simp add: check_json_depth_def)
  qed
  then have "parse_jsonld_acl_with_limits fs b n m \<noteq> Inl (PayloadTooLarge e)" if "length b \<le> n" for fs b n m e
    using that by (cases "check_json_depth b m"; cases "fs b") (auto simp: parse_jsonld_acl_with_limits_def)
  then have "parse_jsonld_acl (ac_from_slice cfg) (ac_env cfg) b \<noteq> Inl (PayloadTooLarge e)"
    if "length b \<le> env_usize (ac_env cfg) ''JSS_MAX_ACL_BYTES'' MAX_ACL_BYTES" for b e
    using that by (simp add: parse_jsonld_acl_def)
  then show "within_cap cfg got \<Longrightarrow> try_acl_dyn cfg got = try_acl cfg got"
    unfolding within_cap_def try_acl_def try_acl_dyn_def
    by (cases got) (auto intro!: sum.case_cong PodError.case_cong split: prod.splits)
qed

text \<open>C7: The server's object-safe resolver agrees with the library's wherever no candidate ACL is
  larger than the size cap.\<close>

theorem resolvers_agree_within_cap:
  assumes "\<forall>k. within_cap cfg (get k)"
  shows "find_effective_acl_dyn cfg get rp = find_effective_acl cfg get rp"
proof -
  have "walk (try_acl_dyn cfg) get rp = walk (try_acl cfg) get rp"
  proof (induction rp rule: measure_induct_rule [of walk_measure])
    case (less rp)
    have "try_acl_dyn cfg (get (acl_key rp)) = try_acl cfg (get (acl_key rp))"
      using assms by (simp add: try_acl_dyn_eq)
    moreover have "rp \<noteq> ''/'' \<Longrightarrow> walk (try_acl_dyn cfg) get (acl_parent rp) = walk (try_acl cfg) get (acl_parent rp)"
      using less acl_parent_measure by blast
    ultimately show ?case by (simp add: walk.simps [of _ get rp] split: option.split)
  qed
  then show ?thesis by (simp add: find_effective_acl_def find_effective_acl_dyn_def)
qed

theorem resolvers_agree_within_cap_witness:
  "find_effective_acl_dyn ex_cfg ex_get ''/a/b'' = find_effective_acl ex_cfg ex_get ''/a/b''"
proof (rule resolvers_agree_within_cap, rule allI)
  have "length ex_acl_text \<le> env_usize (ac_env ex_cfg) ''JSS_MAX_ACL_BYTES'' MAX_ACL_BYTES"
    by (simp add: ex_acl_text_def env_usize_def ex_cfg_def MAX_ACL_BYTES_def)
  then show "within_cap ex_cfg (ex_get k)" for k by (simp add: within_cap_def ex_get_def)
qed

text \<open>They differ beyond the cap: on an oversize ACL the library reports \<open>PayloadTooLarge\<close>,
  while the server's resolver passes over it and lets the parent's ACL decide.\<close>

theorem oversize_acl_skipped_by_server:
  assumes "get (acl_key rp) = Inr (body, mt)" "rp \<noteq> ''/''" "rp \<noteq> []"
    and "length body > env_usize (ac_env cfg) ''JSS_MAX_ACL_BYTES'' MAX_ACL_BYTES"
    and "from_utf8 body = Some body"
  shows "(\<exists>msg. find_effective_acl cfg get rp = Inl (PayloadTooLarge msg)) \<and>
    find_effective_acl_dyn cfg get rp = find_effective_acl_dyn cfg get (acl_parent rp)"
proof
  let ?n = "env_usize (ac_env cfg) ''JSS_MAX_ACL_BYTES'' MAX_ACL_BYTES"
  have p: "parse_jsonld_acl (ac_from_slice cfg) (ac_env cfg) body =
      Inl (PayloadTooLarge (''ACL body exceeds '' @ show_nat ?n @ '' bytes''))"
    using assms(4) by (simp add: parse_jsonld_acl_def parse_jsonld_acl_with_limits_def)
  have "try_turtle cfg body mt = None"
    using assms(4,5) by (auto simp: try_turtle_def parse_turtle_acl_def parse_turtle_acl_with_limit_def Let_def)
  then have "try_acl_dyn cfg (get (acl_key rp)) = None"
    using assms(1) p by (simp add: try_acl_dyn_def)
  then show "find_effective_acl_dyn cfg get rp = find_effective_acl_dyn cfg get (acl_parent rp)"
    using assms(2,3) by (simp add: find_effective_acl_dyn_def walk.simps [of _ get rp])
  show "\<exists>msg. find_effective_acl cfg get rp = Inl (PayloadTooLarge msg)"
    using assms(1) p by (simp add: find_effective_acl_def walk.simps [of _ get rp] try_acl_def)
qed

definition ex_small_cap :: acl_config where
  "ex_small_cap = \<lparr>ac_from_slice = (\<lambda>_. None),
     ac_env = (\<lambda>n. if n = ''JSS_MAX_ACL_BYTES'' then Some ''10'' else None)\<rparr>"

theorem oversize_acl_skipped_by_server_witness:
  "(\<exists>msg. find_effective_acl ex_small_cap ex_get ''/a'' = Inl (PayloadTooLarge msg)) \<and>
   find_effective_acl_dyn ex_small_cap ex_get ''/a'' = find_effective_acl_dyn ex_small_cap ex_get (acl_parent ''/a'')"
proof (rule oversize_acl_skipped_by_server)
  show "ex_get (acl_key ''/a'') = Inr (ex_acl_text, ex_meta)"
    by (simp add: ex_get_def acl_key_def trim_end_matches_def)
  show "length ex_acl_text > env_usize (ac_env ex_small_cap) ''JSS_MAX_ACL_BYTES'' MAX_ACL_BYTES"
    by (simp add: ex_acl_text_def env_usize_def ex_small_cap_def MAX_ACL_BYTES_def parse_uint_def ascii_digit_def)
  show "from_utf8 ex_acl_text = Some ex_acl_text" by code_simp
qed simp_all

end
