(* ===== verification/Ldp_Http.thy ===== *)
theory Ldp_Http
  imports Pod_Error
begin

text \<open>
  The HTTP side of the LDP module (\<open>ldp.rs\<close>): path classification, \<open>Link\<close> headers, slugs, the
  \<open>Prefer\<close> header, media types, conditional requests, byte ranges, the \<open>OPTIONS\<close> and 404 header
  sets. The UUID generator is a parameter. \<open>usize\<close> is 64 bits wide; the additions of
  \<open>slice_range\<close> and \<open>ByteRange::length\<close> are word additions, and are shown not to wrap on the
  ranges the parsers produce.
\<close>

section \<open>Paths and links\<close>

definition LDP_NS :: string where
  "LDP_NS = ''http://www.w3.org/ns/ldp#''"

definition LDP_RESOURCE :: string where
  "LDP_RESOURCE = ''http://www.w3.org/ns/ldp#Resource''"

definition LDP_CONTAINER :: string where
  "LDP_CONTAINER = ''http://www.w3.org/ns/ldp#Container''"

definition LDP_BASIC_CONTAINER :: string where
  "LDP_BASIC_CONTAINER = ''http://www.w3.org/ns/ldp#BasicContainer''"

definition LDP_PREFER_MINIMAL_CONTAINER :: string where
  "LDP_PREFER_MINIMAL_CONTAINER = ''http://www.w3.org/ns/ldp#PreferMinimalContainer''"

definition LDP_PREFER_CONTAINED_IRIS :: string where
  "LDP_PREFER_CONTAINED_IRIS = ''http://www.w3.org/ns/ldp#PreferContainedIRIs''"

definition LDP_PREFER_MEMBERSHIP :: string where
  "LDP_PREFER_MEMBERSHIP = ''http://www.w3.org/ns/ldp#PreferMembership''"

definition PIM_STORAGE_REL :: string where
  "PIM_STORAGE_REL = ''http://www.w3.org/ns/pim/space#storage''"

definition ACCEPT_POST :: string where
  "ACCEPT_POST = ''text/turtle, application/ld+json, application/n-triples''"

definition is_container :: "string \<Rightarrow> bool" where
  "is_container path \<longleftrightarrow> path = ''/'' \<or> ends_with ''/'' path"

definition is_acl_path :: "string \<Rightarrow> bool" where
  "is_acl_path path = ends_with ''.acl'' path"

definition is_meta_path :: "string \<Rightarrow> bool" where
  "is_meta_path path = ends_with ''.meta'' path"

definition meta_sidecar_for :: "string \<Rightarrow> string" where
  "meta_sidecar_for path = (if is_meta_path path then path else path @ ''.meta'')"

definition link_rel :: "string \<Rightarrow> string \<Rightarrow> string" where
  "link_rel target rel = ''<'' @ target @ ''>; rel='' @ [CHR 0x22] @ rel @ [CHR 0x22]"

definition link_headers :: "string \<Rightarrow> string list" where
  "link_headers path =
     (if is_container path
      then [link_rel LDP_BASIC_CONTAINER ''type'', link_rel LDP_CONTAINER ''type'', link_rel LDP_RESOURCE ''type'']
      else [link_rel LDP_RESOURCE ''type'']) @
     (if \<not> is_acl_path path then [link_rel (path @ ''.acl'') ''acl''] else []) @
     (if \<not> is_meta_path path \<and> \<not> is_acl_path path
      then [link_rel (meta_sidecar_for path) ''describedby''] else []) @
     (if path = ''/'' then [link_rel ''/'' PIM_STORAGE_REL] else [])"

section \<open>Slugs\<close>

definition MAX_SLUG_BYTES :: nat where
  "MAX_SLUG_BYTES = 255"

definition slug_join :: "string \<Rightarrow> string \<Rightarrow> string" where
  "slug_join container name =
     (if ends_with ''/'' container then container @ name else container @ ''/'' @ name)"

definition slug_char :: "char \<Rightarrow> bool" where
  "slug_char c \<longleftrightarrow> ascii_alphanumeric c \<or> c = CHR ''.'' \<or> c = CHR ''_'' \<or> c = CHR ''-''"

definition resolve_slug :: "string \<Rightarrow> string \<Rightarrow> string option \<Rightarrow> PodError + string" where
  "resolve_slug uuid container slug =
     (if slug \<noteq> None \<and> slug \<noteq> Some [] then
        (let s = the slug in
         if length s > MAX_SLUG_BYTES
           then Inl (BadRequest (''slug exceeds '' @ show_nat MAX_SLUG_BYTES @ '' bytes''))
         else if CHR ''/'' \<in> set s \<or> contains_sub ''..'' s \<or> CHR 0x00 \<in> set s
           then Inl (BadRequest ''invalid slug: '')
         else if \<not> list_all slug_char s
           then Inl (BadRequest ''slug contains disallowed character: '')
         else Inr (slug_join container s))
      else Inr (slug_join container uuid))"

section \<open>Prefer\<close>

datatype ContainerRepresentation = Full | MinimalContainer | ContainedIRIsOnly

record PreferHeader =
  ph_representation :: ContainerRepresentation
  ph_include_minimal :: bool
  ph_include_contained_iris :: bool
  ph_omit_membership :: bool

definition PreferHeader_default :: PreferHeader where
  "PreferHeader_default = \<lparr>ph_representation = Full, ph_include_minimal = False,
     ph_include_contained_iris = False, ph_omit_membership = False\<rparr>"

definition prefer_include :: "string \<Rightarrow> PreferHeader \<Rightarrow> PreferHeader" where
  "prefer_include i out =
     (if i = LDP_PREFER_MINIMAL_CONTAINER
        then out\<lparr>ph_include_minimal := True, ph_representation := MinimalContainer\<rparr>
      else if i = LDP_PREFER_CONTAINED_IRIS
        then out\<lparr>ph_include_contained_iris := True, ph_representation := ContainedIRIsOnly\<rparr>
      else out)"

definition prefer_omit :: "string \<Rightarrow> PreferHeader \<Rightarrow> PreferHeader" where
  "prefer_omit i out = (if i = LDP_PREFER_MEMBERSHIP then out\<lparr>ph_omit_membership := True\<rparr> else out)"

definition prefer_token :: "string \<Rightarrow> PreferHeader \<Rightarrow> PreferHeader" where
  "prefer_token token out =
     (case or_else (strip_prefix ''include='' token) (strip_prefix ''include ='' token) of
        Some val \<Rightarrow> fold prefer_include (split_whitespace (trim_matches (CHR 0x22) (trim val))) out
      | None \<Rightarrow>
         (case or_else (strip_prefix ''omit='' token) (strip_prefix ''omit ='' token) of
            Some val \<Rightarrow> fold prefer_omit (split_whitespace (trim_matches (CHR 0x22) (trim val))) out
          | None \<Rightarrow> out))"

definition prefer_pref :: "string \<Rightarrow> PreferHeader \<Rightarrow> PreferHeader" where
  "prefer_pref pref0 out = (let pref = trim pref0 in
     if pref = [] then out
     else case map trim (split_on (CHR '';'') pref) of
       [] \<Rightarrow> out
     | head # parts \<Rightarrow>
         if to_ascii_lowercase head \<noteq> ''return=representation'' then out
         else fold prefer_token parts out)"

definition PreferHeader_parse :: "string \<Rightarrow> PreferHeader" where
  "PreferHeader_parse value = fold prefer_pref (split_on (CHR '','') value) PreferHeader_default"

section \<open>Media types\<close>

datatype RdfFormat = Turtle | JsonLd | NTriples | RdfXml

definition mime :: "RdfFormat \<Rightarrow> string" where
  "mime f = (case f of Turtle \<Rightarrow> ''text/turtle'' | JsonLd \<Rightarrow> ''application/ld+json''
     | NTriples \<Rightarrow> ''application/n-triples'' | RdfXml \<Rightarrow> ''application/rdf+xml'')"

text \<open>\<open>s.split(';').next().unwrap_or("").trim().to_ascii_lowercase()\<close>\<close>

definition base_mime :: "string \<Rightarrow> string" where
  "base_mime m = to_ascii_lowercase (trim (hd (split_on (CHR '';'') m)))"

definition from_mime :: "string \<Rightarrow> RdfFormat option" where
  "from_mime m0 = (let m = base_mime m0 in
     if m = ''text/turtle'' \<or> m = ''application/turtle'' \<or> m = ''application/x-turtle'' then Some Turtle
     else if m = ''application/ld+json'' \<or> m = ''application/json+ld'' then Some JsonLd
     else if m = ''application/n-triples'' \<or> m = ''text/plain+ntriples'' then Some NTriples
     else if m = ''application/rdf+xml'' then Some RdfXml
     else None)"

definition infer_dotfile_content_type :: "string \<Rightarrow> string option" where
  "infer_dotfile_content_type path = (let trimmed = trim_end_matches (CHR ''/'') path in
     if trimmed = [] then None
     else (let basename = last (split_on (CHR ''/'') trimmed) in
       if basename = [] then None
       else if ends_with ''.acl'' basename \<or> ends_with ''.meta'' basename
         then Some ''application/ld+json''
       else None))"

definition CACHE_CONTROL_RDF :: string where
  "CACHE_CONTROL_RDF = ''private, no-cache, must-revalidate''"

definition is_rdf_content_type :: "string \<Rightarrow> bool" where
  "is_rdf_content_type content_type = (base_mime content_type \<in> set
     [''text/turtle'', ''application/turtle'', ''application/x-turtle'', ''application/ld+json'',
      ''application/json+ld'', ''application/n-triples'', ''text/plain+ntriples'', ''text/n3'',
      ''application/trig''])"

definition cache_control_for :: "string \<Rightarrow> string option" where
  "cache_control_for content_type =
     (if is_rdf_content_type content_type then Some CACHE_CONTROL_RDF else None)"

datatype PatchDialect = N3 | SparqlUpdate | JsonPatch

definition patch_dialect_from_mime :: "string \<Rightarrow> PatchDialect option" where
  "patch_dialect_from_mime m0 = (let m = base_mime m0 in
     if m = ''text/n3'' \<or> m = ''application/n3'' then Some N3
     else if m = ''application/sparql-update'' \<or> m = ''application/sparql-update+update'' then Some SparqlUpdate
     else if m = ''application/json-patch+json'' then Some JsonPatch
     else None)"

section \<open>Conditional requests\<close>

datatype ConditionalOutcome = Proceed | Precondition_Failed | NotModified

definition parse_etag_list :: "string \<Rightarrow> string list" where
  "parse_etag_list input =
     map (\<lambda>s. trim_matches (CHR 0x22) (unwrap_or (strip_prefix ''W/'' s) s))
       (filter (\<lambda>s. s \<noteq> []) (map trim (split_on (CHR '','') input)))"

definition evaluate_preconditions ::
    "string \<Rightarrow> string option \<Rightarrow> string option \<Rightarrow> string option \<Rightarrow> ConditionalOutcome" where
  "evaluate_preconditions meth current_etag if_match if_none_match =
     (let method_upper = to_ascii_uppercase meth;
          safe = (method_upper = ''GET'' \<or> method_upper = ''HEAD'');
          failed = (case if_match of
             None \<Rightarrow> False
           | Some im \<Rightarrow> (let raw = trim im in
               if raw = ''*'' then current_etag = None
               else (case current_etag of
                  None \<Rightarrow> True
                | Some cur \<Rightarrow> \<not> list_ex (\<lambda>w. w = cur \<or> w = ''*'') (parse_etag_list raw))))
      in if failed then Precondition_Failed
         else (let hit = (case if_none_match of
             None \<Rightarrow> False
           | Some inm \<Rightarrow> (let raw = trim inm in
               if raw = ''*'' then current_etag \<noteq> None
               else (case current_etag of
                  None \<Rightarrow> False
                | Some cur \<Rightarrow> list_ex (\<lambda>w. w = cur) (parse_etag_list raw))))
          in if hit then (if safe then NotModified else Precondition_Failed) else Proceed))"

section \<open>Byte ranges\<close>

record ByteRange =
  br_start :: u64
  br_end :: u64

definition range_length :: "ByteRange \<Rightarrow> u64" where
  "range_length r = sat_sub (br_end r) (br_start r) + 1"

definition show_u64 :: "u64 \<Rightarrow> string" where
  "show_u64 w = show_nat (unat w)"

definition content_range :: "ByteRange \<Rightarrow> u64 \<Rightarrow> string" where
  "content_range r tot =
     ''bytes '' @ show_u64 (br_start r) @ ''-'' @ show_u64 (br_end r) @ ''/'' @ show_u64 tot"

definition parse_range_header :: "string option \<Rightarrow> u64 \<Rightarrow> PodError + ByteRange option" where
  "parse_range_header hdr tot =
     (if hdr = None \<or> trim (the hdr) = [] then Inr None
      else (let raw = trim (the hdr) in
        rbind (ok_or (strip_prefix ''bytes='' raw) (Unsupported (''unsupported Range unit: '' @ raw))) (\<lambda>spec.
        if CHR '','' \<in> set spec then Inl (Unsupported ''multi-range requests not supported'')
        else rbind (ok_or (split_once (CHR ''-'') spec) (Unsupported (''malformed Range: '' @ spec)))
          (\<lambda>(start_s, end_s).
        if tot = 0 then Inl (PreconditionFailed ''range request against empty resource'')
        else if start_s = [] then
          rbind (ok_or (parse_u64 end_s) (Unsupported ''range suffix parse: '')) (\<lambda>suffix.
            if suffix = 0 then Inl (PreconditionFailed ''zero suffix length'')
            else Inr (Some \<lparr>br_start = sat_sub tot suffix, br_end = tot - 1\<rparr>))
        else
          rbind (ok_or (parse_u64 start_s) (Unsupported ''range start parse: '')) (\<lambda>start.
          rbind (if end_s = [] then Inr (tot - 1)
                 else rbind (ok_or (parse_u64 end_s) (Unsupported ''range end parse: ''))
                   (\<lambda>v. Inr (min v (tot - 1)))) (\<lambda>e.
            if start > e then
              Inl (PreconditionFailed (''unsatisfiable range: '' @ show_u64 start @ ''-'' @ show_u64 e))
            else if start \<ge> tot then
              Inl (PreconditionFailed (''range start '' @ show_u64 start @ '' >= total '' @ show_u64 tot))
            else Inr (Some \<lparr>br_start = start, br_end = e\<rparr>)))))))"

datatype RangeOutcome = FullBody | Partial ByteRange | NotSatisfiable

definition parse_range_header_v2 :: "string option \<Rightarrow> u64 \<Rightarrow> PodError + RangeOutcome" where
  "parse_range_header_v2 hdr tot =
     (if hdr = None \<or> trim (the hdr) = [] then Inr FullBody
      else (let raw = trim (the hdr) in
        rbind (ok_or (strip_prefix ''bytes='' raw) (Unsupported (''unsupported Range unit: '' @ raw))) (\<lambda>spec.
        if CHR '','' \<in> set spec then Inl (Unsupported ''multi-range not supported'')
        else rbind (ok_or (split_once (CHR ''-'') spec) (Unsupported (''malformed Range: '' @ spec)))
          (\<lambda>(start_s, end_s).
        if tot = 0 then Inr NotSatisfiable
        else if start_s = [] then
          rbind (ok_or (parse_u64 end_s) (Unsupported ''range suffix parse: '')) (\<lambda>suffix.
            if suffix = 0 then Inr NotSatisfiable
            else Inr (Partial \<lparr>br_start = sat_sub tot suffix, br_end = tot - 1\<rparr>))
        else
          rbind (ok_or (parse_u64 start_s) (Unsupported ''range start parse: '')) (\<lambda>start.
          rbind (if end_s = [] then Inr (tot - 1)
                 else rbind (ok_or (parse_u64 end_s) (Unsupported ''range end parse: ''))
                   (\<lambda>v. Inr (min v (tot - 1)))) (\<lambda>e.
            if start > e \<or> start \<ge> tot then Inr NotSatisfiable
            else Inr (Partial \<lparr>br_start = start, br_end = e\<rparr>)))))))"

definition slice_range :: "bytes \<Rightarrow> ByteRange \<Rightarrow> bytes" where
  "slice_range body r =
     (let end_excl = min (unat (br_end r + 1)) (length body);
          start = min (unat (br_start r)) end_excl
      in drop start (take end_excl body))"

section \<open>OPTIONS and 404\<close>

record OptionsResponse =
  or_allow :: "string list"
  or_accept_post :: "string option"
  or_accept_patch :: string
  or_accept_ranges :: string
  or_cache_control :: string

definition ACCEPT_PATCH :: string where
  "ACCEPT_PATCH = ''text/n3, application/sparql-update, application/json-patch+json''"

definition options_for :: "string \<Rightarrow> OptionsResponse" where
  "options_for path = (let container = is_container path in
     \<lparr>or_allow = [''GET'', ''HEAD'', ''OPTIONS''] @
        (if container then [''POST''] else [''PUT'', ''PATCH'']) @ [''DELETE''],
      or_accept_post = (if container then Some ACCEPT_POST else None),
      or_accept_patch = ACCEPT_PATCH,
      or_accept_ranges = (if container then ''none'' else ''bytes''),
      or_cache_control = CACHE_CONTROL_RDF\<rparr>)"

definition vary_header :: "bool \<Rightarrow> string" where
  "vary_header conneg_enabled =
     (if conneg_enabled then ''Accept, Authorization, Origin'' else ''Authorization, Origin'')"

definition not_found_headers :: "string \<Rightarrow> bool \<Rightarrow> (string \<times> string) list" where
  "not_found_headers path conneg_enabled =
     [(''Allow'', ''GET, HEAD, OPTIONS, PUT, PATCH''), (''Accept-Put'', ''*/*''),
      (''Accept-Patch'', ACCEPT_PATCH),
      (''Link'', link_rel (trim_end_matches (CHR ''/'') path @ ''.acl'') ''acl''),
      (''Vary'', vary_header conneg_enabled)] @
     (if conneg_enabled then [(''Cache-Control'', CACHE_CONTROL_RDF)] else []) @
     (if is_container path then [(''Accept-Post'', ACCEPT_POST)] else [])"

section \<open>Lemmas\<close>

lemma unat_minus_1: "tot \<noteq> 0 \<Longrightarrow> unat (tot - 1 :: u64) = unat tot - 1"
  by (metis unat_minus_one)

lemma minus_1_less: "tot \<noteq> 0 \<Longrightarrow> x \<le> tot - 1 \<Longrightarrow> x < (tot :: u64)"
  using unat_minus_1 [of tot] by (simp add: word_le_nat_alt word_less_nat_alt) (metis
      One_nat_def Suc_pred le_imp_less_Suc unat_gt_0)

lemma sat_sub_le: "s \<noteq> 0 \<Longrightarrow> tot \<noteq> 0 \<Longrightarrow> sat_sub tot s \<le> tot - 1"
proof -
  assume s: "s \<noteq> 0" and t: "tot \<noteq> 0"
  show ?thesis
  proof (cases "s \<le> tot")
    case True
    then have "unat (tot - s) = unat tot - unat s" by (simp add: unat_sub)
    moreover have "0 < unat s" using s by (simp add: unat_gt_0)
    ultimately show ?thesis
      using True unat_minus_1 [OF t] by (simp add: sat_sub_def word_le_nat_alt)
  qed (simp add: sat_sub_def)
qed

lemma range_v2_Partial:
  assumes "parse_range_header_v2 hdr tot = Inr (Partial r)"
  shows "br_start r \<le> br_end r \<and> br_end r < tot"
proof -
  have *: "min v (tot - 1) < tot" if "tot \<noteq> 0" for v using that by (intro minus_1_less) simp_all
  show ?thesis
    using assms *
    by (auto simp: parse_range_header_v2_def Let_def rbind_Inr_conv ok_or_def sat_sub_le minus_1_less not_less
        split: if_splits option.splits)
qed

text \<open>The two range parsers on the same header: what each outcome of one is in the other.\<close>

definition same_range :: "PodError + ByteRange option \<Rightarrow> PodError + RangeOutcome \<Rightarrow> bool" where
  "same_range v1 v2 \<longleftrightarrow>
     (v1 = Inr None \<and> v2 = Inr FullBody) \<or>
     (\<exists>r. v1 = Inr (Some r) \<and> v2 = Inr (Partial r)) \<or>
     ((\<exists>m. v1 = Inl (PreconditionFailed m)) \<and> v2 = Inr NotSatisfiable) \<or>
     (\<exists>m m'. v1 = Inl (Unsupported m) \<and> v2 = Inl (Unsupported m'))"

lemma parse_u64_show: "parse_u64 (show_u64 w) = Some w"
proof -
  have "unat w < 2 ^ 64" using unsigned_less [of w] by simp
  then show ?thesis by (simp add: parse_u64_def show_u64_def parse_uint_show)
qed

lemma show_u64_chars: "show_u64 w \<noteq> []" "c \<in> set (show_u64 w) \<Longrightarrow> ascii_digit c"
  using show_nat_digits [of "unat w"] by (auto simp: show_u64_def list_all_iff)

section \<open>Properties\<close>

text \<open>A range the parser accepts lies within the resource, and slicing a body of that size
  returns exactly the bytes from its start to its inclusive end, as many as the range's length
  says; none of the additions wraps.\<close>

theorem range_slices_within_body:
  assumes "parse_range_header_v2 hdr (of_nat (length body)) = Inr (Partial r)" "length body < 2 ^ 64"
  shows "br_start r \<le> br_end r \<and> unat (br_end r) < length body \<and>
    unat (range_length r) = unat (br_end r) - unat (br_start r) + 1 \<and>
    slice_range body r = take (unat (range_length r)) (drop (unat (br_start r)) body)"
proof -
  have u: "unat (of_nat (length body) :: u64) = length body" using assms(2) by (simp add: unat_of_nat)
  have r: "br_start r \<le> br_end r" "br_end r < of_nat (length body)" using range_v2_Partial [OF assms(1)] by simp_all
  then have e: "unat (br_end r) < length body" and se: "unat (br_start r) \<le> unat (br_end r)"
    using u by (simp_all add: word_less_nat_alt word_le_nat_alt)
  have len: "unat (range_length r) = unat (br_end r) - unat (br_start r) + 1"
    using r(1) e assms(2) se by (simp add: range_length_def sat_sub_def unat_sub unat_word_ariths)
  have "unat (br_end r + 1) = unat (br_end r) + 1"
    using e assms(2) by (simp add: unat_word_ariths)
  then have "slice_range body r = take (unat (range_length r)) (drop (unat (br_start r)) body)"
    using e se len by (simp add: slice_range_def Let_def drop_take Suc_diff_le)
  then show ?thesis using r e len by simp
qed

theorem range_slices_within_body_witness:
  "slice_range ''abcdef'' \<lparr>br_start = 2, br_end = 5\<rparr> = ''cdef''"
proof -
  have "parse_range_header_v2 (Some ''bytes=2-9'') (of_nat (length ''abcdef'')) = Inr (Partial \<lparr>br_start = 2, br_end = 5\<rparr>)"
  proof -
    have "trim ''bytes=2-9'' = ''bytes=2-9''" by code_simp
    then show ?thesis
      by (simp add: parse_range_header_v2_def Let_def parse_u64_def parse_uint_def ascii_digit_def min_def)
  qed
  then show ?thesis using range_slices_within_body [of _ "''abcdef''" "\<lparr>br_start = 2, br_end = 5\<rparr>"]
    by (simp add: range_length_def sat_sub_def)
qed

text \<open>The two range parsers agree: full body, the same range, an unsatisfiable range where the
  older one reports a failed precondition, and a malformed header, in the same cases.\<close>

theorem range_parsers_agree:
  "same_range (parse_range_header hdr tot) (parse_range_header_v2 hdr tot)"
  by (auto simp: same_range_def parse_range_header_def parse_range_header_v2_def Let_def rbind_def ok_or_def
      split: option.splits)

text \<open>Every satisfiable range can be asked for: the header written with its bounds parses to it.\<close>

theorem range_header_roundtrip:
  assumes "s \<le> e" "e < tot"
  shows "parse_range_header_v2 (Some (''bytes='' @ show_u64 s @ ''-'' @ show_u64 e)) tot =
    Inr (Partial \<lparr>br_start = s, br_end = e\<rparr>)"
proof -
  let ?spec = "show_u64 s @ CHR ''-'' # show_u64 e"
  have d: "c \<notin> set (show_u64 w)" if "\<not> ascii_digit c" for c w using that show_u64_chars(2) by blast
  have nd: "\<not> ascii_digit (CHR ''-'')" "\<not> ascii_digit (CHR '','')" by (simp_all add: ascii_digit_def)
  have "plain (last (show_u64 e))" using show_u64_chars plain_digit last_in_set by metis
  then have t: "trim (''bytes='' @ ?spec) = ''bytes='' @ ?spec"
    using show_u64_chars(1) [of e] by (intro trim_id) (simp_all add: plain_def ascii_ws_def)
  have "tot \<noteq> 0" using assms(2) by auto
  moreover have "e \<le> tot - 1" using assms(2) by (simp add: word_le_nat_alt word_less_nat_alt unat_minus_1 [OF \<open>tot \<noteq> 0\<close>])
  moreover have "\<not> tot \<le> s" "\<not> e < s" using assms by auto
  moreover have "split_once (CHR ''-'') ?spec = Some (show_u64 s, show_u64 e)"
    using d [OF nd(1)] by simp
  moreover have "CHR '','' \<notin> set ?spec" using d [OF nd(2)] by simp
  ultimately show ?thesis
    using t show_u64_chars(1) parse_u64_show by (simp add: parse_range_header_v2_def Let_def min_def)
qed

theorem range_header_roundtrip_witness:
  "parse_range_header_v2 (Some (''bytes='' @ show_u64 3 @ ''-'' @ show_u64 7)) 10 =
     Inr (Partial \<lparr>br_start = 3, br_end = 7\<rparr>)"
  by (rule range_header_roundtrip) simp_all

text \<open>The etags a header field names, and what a field says of the current representation.\<close>

definition if_match_holds :: "string \<Rightarrow> string option \<Rightarrow> bool" where
  "if_match_holds h cur \<longleftrightarrow> (\<exists>e. cur = Some e \<and>
     (trim h = ''*'' \<or> e \<in> set (parse_etag_list (trim h)) \<or> ''*'' \<in> set (parse_etag_list (trim h))))"

definition if_none_match_hits :: "string \<Rightarrow> string option \<Rightarrow> bool" where
  "if_none_match_hits h cur \<longleftrightarrow> (\<exists>e. cur = Some e \<and> (trim h = ''*'' \<or> e \<in> set (parse_etag_list (trim h))))"

text \<open>A conditional request proceeds exactly when its \<open>If-Match\<close> holds of the current
  representation and its \<open>If-None-Match\<close> does not hit it; a hit is \<open>304\<close> for the safe methods
  alone, and every other failure is \<open>412\<close>.\<close>

theorem evaluate_preconditions_spec:
  "evaluate_preconditions meth cur im inm =
     (if \<exists>h. im = Some h \<and> \<not> if_match_holds h cur then Precondition_Failed
      else if \<exists>h. inm = Some h \<and> if_none_match_hits h cur
        then (if to_ascii_uppercase meth \<in> {''GET'', ''HEAD''} then NotModified else Precondition_Failed)
      else Proceed)"
proof -
  have m: "(case im of None \<Rightarrow> False
     | Some im \<Rightarrow> (let raw = trim im in if raw = ''*'' then cur = None
        else (case cur of None \<Rightarrow> True | Some c \<Rightarrow> \<not> list_ex (\<lambda>w. w = c \<or> w = ''*'') (parse_etag_list raw))))
     \<longleftrightarrow> (\<exists>h. im = Some h \<and> \<not> if_match_holds h cur)"
    by (auto simp: if_match_holds_def list_ex_iff Let_def split: option.splits)
  have n: "(case inm of None \<Rightarrow> False
     | Some inm \<Rightarrow> (let raw = trim inm in if raw = ''*'' then cur \<noteq> None
        else (case cur of None \<Rightarrow> False | Some c \<Rightarrow> list_ex (\<lambda>w. w = c) (parse_etag_list raw))))
     \<longleftrightarrow> (\<exists>h. inm = Some h \<and> if_none_match_hits h cur)"
    by (auto simp: if_none_match_hits_def list_ex_iff Let_def split: option.splits)
  show ?thesis unfolding evaluate_preconditions_def m n unfolding Let_def by simp
qed

text \<open>A \<open>Slug\<close> is accepted exactly when it is at most 255 bytes of \<open>[A-Za-z0-9._-]\<close> without two
  dots in a row, and then the target is the container's direct child of that name.\<close>

theorem resolve_slug_spec:
  assumes "s \<noteq> []"
  shows "resolve_slug uuid c (Some s) = Inr p \<longleftrightarrow>
    length s \<le> 255 \<and> list_all slug_char s \<and> \<not> contains_sub ''..'' s \<and>
    p = (if is_container c then c else c @ ''/'') @ s"
proof -
  have "CHR ''/'' \<notin> set s \<and> CHR 0x00 \<notin> set s" if "list_all slug_char s"
    using that by (auto simp: list_all_iff slug_char_def ascii_alphanumeric_def)
  moreover have "is_container c \<longleftrightarrow> ends_with ''/'' c"
    by (auto simp: is_container_def ends_with_def)
  ultimately show ?thesis
    using assms by (auto simp: resolve_slug_def slug_join_def MAX_SLUG_BYTES_def Let_def)
qed

theorem resolve_slug_spec_witness:
  "resolve_slug ''u'' ''/a/'' (Some ''note.ttl'') = Inr ''/a/note.ttl''"
  using resolve_slug_spec [of "''note.ttl''" "''u''" "''/a/''" "''/a/note.ttl''"]
  by (simp add: slug_char_def ascii_alphanumeric_def contains_sub_def find_sub_Cons find_sub_Nil is_container_def
      ends_with_def)

end
