(* ===== verification/Ldp_Graph.thy ===== *)
theory Ldp_Graph
  imports Ldp_Http Json "HOL-Library.Product_Lexorder" "HOL-Library.Option_ord"
begin

text \<open>
  The in-crate RDF model (\<open>ldp.rs\<close>): terms, triples, graphs, the N-Triples writer and reader, the
  server-managed triples and the container representations. A \<open>BTreeSet\<close> of triples is a finite
  set iterated in the order the source derives on \<open>Triple\<close>. The clock's renderings
  (\<open>DateTime::to_rfc3339\<close>, \<open>DateTime::timestamp\<close>) are parameters.
\<close>

section \<open>Terms and triples\<close>

datatype Term =
    Iri string
  | BlankNode string
  | Literal (lit_value: string) (lit_datatype: "string option") (lit_language: "string option")

datatype Triple = Triple (subject: Term) (predicate: Term) (object: Term)

type_synonym Graph = "Triple set"

definition term_literal :: "string \<Rightarrow> Term" where
  "term_literal v = Literal v None None"

definition typed_literal :: "string \<Rightarrow> string \<Rightarrow> Term" where
  "typed_literal v dt = Literal v (Some dt) None"

text \<open>\<open>derive(PartialOrd, Ord)\<close>: by variant, then field by field.\<close>

fun term_key :: "Term \<Rightarrow> nat \<times> string \<times> string option \<times> string option" where
  "term_key (Iri i) = (0, i, None, None)"
| "term_key (BlankNode b) = (1, b, None, None)"
| "term_key (Literal v d l) = (2, v, d, l)"

lemma term_key_inj: "term_key s = term_key t \<longleftrightarrow> s = t"
  by (cases s; cases t) auto

instantiation Term :: linorder
begin

definition less_eq_Term :: "Term \<Rightarrow> Term \<Rightarrow> bool" where
  "less_eq_Term s t \<longleftrightarrow> term_key s \<le> term_key t"

definition less_Term :: "Term \<Rightarrow> Term \<Rightarrow> bool" where
  "less_Term s t \<longleftrightarrow> term_key s < term_key t"

instance
  by standard (auto simp only: less_eq_Term_def less_Term_def less_le_not_le term_key_inj
      intro: order_trans order_antisym linear dest: order_antisym)

end

definition triple_key :: "Triple \<Rightarrow> Term \<times> Term \<times> Term" where
  "triple_key t = (subject t, predicate t, object t)"

lemma triple_key_inj: "triple_key s = triple_key t \<longleftrightarrow> s = t"
  by (cases s; cases t) (auto simp: triple_key_def)

instantiation Triple :: linorder
begin

definition less_eq_Triple :: "Triple \<Rightarrow> Triple \<Rightarrow> bool" where
  "less_eq_Triple s t \<longleftrightarrow> triple_key s \<le> triple_key t"

definition less_Triple :: "Triple \<Rightarrow> Triple \<Rightarrow> bool" where
  "less_Triple s t \<longleftrightarrow> triple_key s < triple_key t"

instance
  by standard (auto simp only: less_eq_Triple_def less_Triple_def less_le_not_le triple_key_inj
      intro: order_trans order_antisym linear dest: order_antisym)

end

section \<open>N-Triples\<close>

definition escape_char :: "char \<Rightarrow> string" where
  "escape_char c =
     (if c = CHR 0x5C then [CHR 0x5C, CHR 0x5C]
      else if c = CHR 0x22 then [CHR 0x5C, CHR 0x22]
      else if c = CHR 0x0A then [CHR 0x5C, CHR ''n'']
      else if c = CHR 0x0D then [CHR 0x5C, CHR ''r'']
      else if c = CHR 0x09 then [CHR 0x5C, CHR ''t'']
      else [c])"

definition write_ntriples :: "Term \<Rightarrow> string" where
  "write_ntriples t = (case t of
     Iri i \<Rightarrow> ''<'' @ i @ ''>''
   | BlankNode b \<Rightarrow> ''_:'' @ b
   | Literal v d l \<Rightarrow> [CHR 0x22] @ concat (map escape_char v) @ [CHR 0x22] @
       (case l of
          Some lang \<Rightarrow> ''@'' @ lang
        | None \<Rightarrow> (case d of Some dt \<Rightarrow> ''^^<'' @ dt @ ''>'' | None \<Rightarrow> [])))"

definition write_triple :: "Triple \<Rightarrow> string" where
  "write_triple t = write_ntriples (subject t) @ '' '' @ write_ntriples (predicate t) @ '' '' @
     write_ntriples (object t) @ '' .'' @ [CHR 0x0A]"

definition to_ntriples :: "Graph \<Rightarrow> string" where
  "to_ntriples g = concat (map write_triple (sorted_list_of_set g))"

text \<open>\<open>value.push(b as char)\<close> on a byte: a byte above ASCII becomes the code point of that number,
  which UTF-8 writes in two bytes.\<close>

definition push_byte :: "char \<Rightarrow> string" where
  "push_byte b = (let n = of_char b :: nat in
     if n < 128 then [b] else [char_of (192 + n div 64), char_of (128 + n mod 64)])"

definition unescape_byte :: "char \<Rightarrow> string" where
  "unescape_byte c =
     (if c = CHR ''n'' then [CHR 0x0A]
      else if c = CHR ''t'' then [CHR 0x09]
      else if c = CHR ''r'' then [CHR 0x0D]
      else if c = CHR 0x22 then [CHR 0x22]
      else if c = CHR 0x5C then [CHR 0x5C]
      else push_byte c)"

text \<open>The loop of \<open>read_literal\<close> after the opening quote: the value and what follows it.\<close>

fun read_lit_loop :: "bytes \<Rightarrow> string \<times> string" where
  "read_lit_loop [] = ([], [])"
| "read_lit_loop (b # bs) =
     (if b = CHR 0x5C \<and> bs \<noteq> [] then
        (case read_lit_loop (tl bs) of (v, rest) \<Rightarrow> (unescape_byte (hd bs) @ v, rest))
      else if b = CHR 0x22 then ([], bs)
      else (case read_lit_loop bs of (v, rest) \<Rightarrow> (push_byte b @ v, rest)))"

definition read_literal :: "string \<Rightarrow> string + (Term \<times> string)" where
  "read_literal input =
     (if \<not> starts_with [CHR 0x22] input then Inl (''expected '' @ [CHR 0x27, CHR 0x22, CHR 0x27])
      else (case read_lit_loop (tl input) of (v, rest) \<Rightarrow>
        (case strip_prefix ''^^<'' rest of
           Some r \<Rightarrow> (case find_char ((=) (CHR ''>'')) r of
               None \<Rightarrow> Inl ''unterminated datatype IRI''
             | Some e \<Rightarrow> Inr (Literal v (Some (take e r)) None, drop (e + 1) r))
         | None \<Rightarrow> (case strip_prefix ''@'' rest of
             Some r \<Rightarrow> (let e = unwrap_or (find_ws_or ''.'' r) (length r)
                        in Inr (Literal v None (Some (take e r)), drop e r))
           | None \<Rightarrow> Inr (Literal v None None, rest)))))"

definition first_char :: "string \<Rightarrow> string" where
  "first_char s = (if s = [] then ''?'' else take (max 1 (utf8_len s)) s)"

definition read_term :: "string \<Rightarrow> string + (Term \<times> string)" where
  "read_term input0 = (let input = trim_start input0 in
     case strip_prefix ''<'' input of
       Some rest \<Rightarrow> (case find_char ((=) (CHR ''>'')) rest of
           None \<Rightarrow> Inl ''unterminated IRI''
         | Some e \<Rightarrow> Inr (Iri (take e rest), drop (e + 1) rest))
     | None \<Rightarrow> (case strip_prefix ''_:'' input of
         Some rest \<Rightarrow> (let e = unwrap_or (find_ws_or ''.'' rest) (length rest)
                       in Inr (BlankNode (take e rest), drop e rest))
       | None \<Rightarrow>
           if starts_with [CHR 0x22] input then read_literal input
           else Inl (''unexpected char: '' @ first_char input)))"

definition parse_nt_line :: "string \<Rightarrow> string + Triple" where
  "parse_nt_line line0 = (let line = trim (trim_end_matches (CHR ''.'') line0) in
     rbind (read_term line) (\<lambda>(s, rest).
     rbind (read_term (trim_start rest)) (\<lambda>(p, rest).
     rbind (read_term (trim_start rest)) (\<lambda>(obj, _).
       Inr (Triple s p obj)))))"

fun parse_nt_lines :: "nat \<Rightarrow> string list \<Rightarrow> Graph \<Rightarrow> PodError + Graph" where
  "parse_nt_lines i [] g = Inr g"
| "parse_nt_lines i (line0 # ls) g = (let line = trim line0 in
     if line = [] \<or> starts_with ''#'' line then parse_nt_lines (i + 1) ls g
     else (case parse_nt_line line of
        Inl e \<Rightarrow> Inl (Unsupported (''N-Triples line '' @ show_nat (i + 1) @ '': '' @ e))
      | Inr t \<Rightarrow> parse_nt_lines (i + 1) ls (insert t g)))"

definition parse_ntriples :: "string \<Rightarrow> PodError + Graph" where
  "parse_ntriples input = parse_nt_lines 0 (str_lines input) {}"

section \<open>Server-managed triples\<close>

definition DCTERMS_NS :: string where
  "DCTERMS_NS = ''http://purl.org/dc/terms/''"

definition DCTERMS_MODIFIED :: string where
  "DCTERMS_MODIFIED = ''http://purl.org/dc/terms/modified''"

definition STAT_SIZE :: string where
  "STAT_SIZE = ''http://www.w3.org/ns/posix/stat#size''"

definition STAT_MTIME :: string where
  "STAT_MTIME = ''http://www.w3.org/ns/posix/stat#mtime''"

definition XSD_DATETIME :: string where
  "XSD_DATETIME = ''http://www.w3.org/2001/XMLSchema#dateTime''"

definition XSD_INTEGER :: string where
  "XSD_INTEGER = ''http://www.w3.org/2001/XMLSchema#integer''"

definition XSD_STRING :: string where
  "XSD_STRING = ''http://www.w3.org/2001/XMLSchema#string''"

definition LDP_CONTAINS :: string where
  "LDP_CONTAINS = ''http://www.w3.org/ns/ldp#contains''"

definition show_int :: "int \<Rightarrow> string" where
  "show_int i = (if i < 0 then ''-'' @ show_nat (nat (- i)) else show_nat (nat i))"

definition container_base :: "string \<Rightarrow> string" where
  "container_base path = (if ends_with ''/'' path then path else path @ ''/'')"

definition server_managed_triples ::
    "('t \<Rightarrow> string) \<Rightarrow> ('t \<Rightarrow> int) \<Rightarrow> string \<Rightarrow> 't \<Rightarrow> u64 \<Rightarrow> bool \<Rightarrow> string list \<Rightarrow> Graph" where
  "server_managed_triples to_rfc3339 timestamp resource_iri modified sz is_container_flag kids =
     {Triple (Iri resource_iri) (Iri DCTERMS_MODIFIED) (typed_literal (to_rfc3339 modified) XSD_DATETIME),
      Triple (Iri resource_iri) (Iri STAT_SIZE) (typed_literal (show_u64 sz) XSD_INTEGER),
      Triple (Iri resource_iri) (Iri STAT_MTIME) (typed_literal (show_int (timestamp modified)) XSD_INTEGER)} \<union>
     (if is_container_flag
      then set (map (\<lambda>child. Triple (Iri resource_iri) (Iri LDP_CONTAINS)
             (Iri (container_base resource_iri @ child))) kids)
      else {})"

definition SERVER_MANAGED_PREDICATES :: "string list" where
  "SERVER_MANAGED_PREDICATES = [DCTERMS_MODIFIED, STAT_SIZE, STAT_MTIME, LDP_CONTAINS]"

definition is_server_managed :: "Triple \<Rightarrow> bool" where
  "is_server_managed t = (case predicate t of
     Iri p \<Rightarrow> list_ex (\<lambda>sm. sm = p) SERVER_MANAGED_PREDICATES | _ \<Rightarrow> False)"

definition find_illegal_server_managed :: "Graph \<Rightarrow> Triple list" where
  "find_illegal_server_managed graph = filter is_server_managed (sorted_list_of_set graph)"

section \<open>Container representations\<close>

definition contained_iris_json :: "string \<Rightarrow> string list \<Rightarrow> json" where
  "contained_iris_json base members =
     JArray (map (\<lambda>m. JObject [(''@id'', JString (base @ m))]) members)"

definition member_json :: "string \<Rightarrow> string \<Rightarrow> json" where
  "member_json base m = JObject [(''@id'', JString (base @ m)),
     (''@type'', JArray (map JString (if ends_with ''/'' m
        then [LDP_BASIC_CONTAINER, LDP_CONTAINER, LDP_RESOURCE] else [LDP_RESOURCE])))]"

definition container_types :: json where
  "container_types = JArray (map JString [''ldp:Container'', ''ldp:BasicContainer'', ''ldp:Resource''])"

text \<open>\<open>serde_json\<close> keeps the members of an object sorted by key.\<close>

definition render_container_jsonld :: "string \<Rightarrow> string list \<Rightarrow> PreferHeader \<Rightarrow> json" where
  "render_container_jsonld container_path members prefer =
     (let base = container_base container_path in
      case ph_representation prefer of
        ContainedIRIsOnly \<Rightarrow> JObject
          [(''@id'', JString container_path), (''ldp:contains'', contained_iris_json base members)]
      | MinimalContainer \<Rightarrow> JObject
          [(''@context'', JObject [(''dcterms'', JString DCTERMS_NS), (''ldp'', JString LDP_NS)]),
           (''@id'', JString container_path), (''@type'', container_types)]
      | Full \<Rightarrow> JObject
          [(''@context'', JObject
             [(''contains'', JObject [(''@id'', JString ''ldp:contains''), (''@type'', JString ''@id'')]),
              (''dcterms'', JString DCTERMS_NS), (''ldp'', JString LDP_NS)]),
           (''@id'', JString container_path), (''@type'', container_types),
           (''ldp:contains'', JArray (map (member_json base) members))])"

definition render_container :: "string \<Rightarrow> string list \<Rightarrow> json" where
  "render_container container_path members =
     render_container_jsonld container_path members PreferHeader_default"

definition turtle_preamble :: string where
  "turtle_preamble = ''@prefix ldp: <'' @ LDP_NS @ ''> .'' @ [CHR 0x0A] @
     ''@prefix dcterms: <'' @ DCTERMS_NS @ ''> .'' @ [CHR 0x0A, CHR 0x0A]"

definition render_container_turtle :: "string \<Rightarrow> string list \<Rightarrow> PreferHeader \<Rightarrow> string" where
  "render_container_turtle container_path members prefer =
     (let base = container_base container_path in
      case ph_representation prefer of
        ContainedIRIsOnly \<Rightarrow> turtle_preamble @
          ''<'' @ container_path @ ''> ldp:contains'' @ [CHR 0x0A] @
          join ('','' @ [CHR 0x0A]) (map (\<lambda>m. ''    <'' @ base @ m @ ''>'') members) @ '' .'' @ [CHR 0x0A]
      | MinimalContainer \<Rightarrow> turtle_preamble @
          ''<'' @ container_path @ ''> a ldp:BasicContainer, ldp:Container, ldp:Resource .'' @ [CHR 0x0A]
      | Full \<Rightarrow>
          (let out = turtle_preamble @
             ''<'' @ container_path @ ''> a ldp:BasicContainer, ldp:Container, ldp:Resource ;'' @ [CHR 0x0A] in
           if members = [] then trim_end_matches (CHR '';'') (trim_end out) @ '' .'' @ [CHR 0x0A]
           else out @ join ('' ;'' @ [CHR 0x0A]) (map (\<lambda>m. ''    ldp:contains <'' @ base @ m @ ''>'') members)
             @ '' .'' @ [CHR 0x0A]))"

section \<open>Reading back N-Triples\<close>

definition nt_iri :: "string \<Rightarrow> bool" where
  "nt_iri i \<longleftrightarrow> CHR ''>'' \<notin> set i \<and> CHR 0x0A \<notin> set i"

definition nt_name :: "string \<Rightarrow> bool" where
  "nt_name b \<longleftrightarrow> list_all (\<lambda>c. plain c \<and> c \<noteq> CHR ''.'') b"

text \<open>The terms that N-Triples text carries faithfully: ASCII literal values, a language tag or a
  datatype but not both, no line feed or closing bracket inside an IRI.\<close>

fun nt_term :: "Term \<Rightarrow> bool" where
  "nt_term (Iri i) = nt_iri i"
| "nt_term (BlankNode b) = nt_name b"
| "nt_term (Literal v d l) = (list_all (\<lambda>c. \<not> digit7 c) v \<and>
     (case l of Some lang \<Rightarrow> nt_name lang \<and> d = None
      | None \<Rightarrow> (case d of Some dt \<Rightarrow> nt_iri dt | None \<Rightarrow> True)))"

definition nt_triple :: "Triple \<Rightarrow> bool" where
  "nt_triple t \<longleftrightarrow> nt_term (subject t) \<and> nt_term (predicate t) \<and> nt_term (object t)"

text \<open>What may stand after a term: the end, or a space.\<close>

definition term_end :: "string \<Rightarrow> bool" where
  "term_end y \<longleftrightarrow> y = [] \<or> hd y = CHR '' ''"

lemma push_byte_ascii: "\<not> digit7 c \<Longrightarrow> push_byte c = [c]"
proof -
  assume "\<not> digit7 c"
  then have "(of_char c :: nat) < 128"
    by (cases c) (auto simp: of_char_def)
  then show ?thesis by (simp add: push_byte_def)
qed

lemma read_lit_loop_escape:
  "list_all (\<lambda>c. \<not> digit7 c) v \<Longrightarrow> read_lit_loop (concat (map escape_char v) @ CHR 0x22 # y) = (v, y)"
  by (induction v) (auto simp: escape_char_def unescape_byte_def push_byte_ascii)

lemma find_gt: "nt_iri i \<Longrightarrow> find_char ((=) (CHR ''>'')) (i @ CHR ''>'' # y) = Some (length i)"
  by (rule find_char_append) (auto simp: nt_iri_def)

lemma find_name_end:
  "nt_name b \<Longrightarrow> term_end y \<Longrightarrow> unwrap_or (find_ws_or ''.'' (b @ y)) (length (b @ y)) = length b"
proof (induction b)
  case Nil
  then show ?case by (cases y) (auto simp: term_end_def ws_len_def ascii_ws_def)
next
  case (Cons c b)
  then show ?case
    by (cases "find_ws_or ''.'' (b @ y)") (auto simp: nt_name_def)
qed

lemma read_term_write:
  assumes "nt_term t" "term_end y"
  shows "read_term (write_ntriples t @ y) = Inr (t, y)"
proof (cases t)
  case (Iri i)
  then show ?thesis
    using assms find_gt [of i y] by (simp add: read_term_def write_ntriples_def plain_def ascii_ws_def)
next
  case (BlankNode b)
  then show ?thesis
    using assms find_name_end [of b y]
    by (simp add: read_term_def write_ntriples_def plain_def ascii_ws_def)
next
  case (Literal v d l)
  have y: "strip_prefix ''^^<'' y = None" "strip_prefix ''@'' y = None"
    using assms(2) by (cases y; simp add: term_end_def)+
  have q: "plain (CHR 0x22)" by (simp add: plain_def ascii_ws_def)
  have "read_literal (write_ntriples t @ y) = Inr (t, y)"
  proof (cases l)
    case None
    show ?thesis
    proof (cases d)
      case None
      then show ?thesis
        using \<open>l = None\<close> Literal assms y read_lit_loop_escape [of v y]
        by (simp add: read_literal_def write_ntriples_def)
    next
      case (Some dt)
      then show ?thesis
        using \<open>l = None\<close> Literal assms find_gt [of dt y] read_lit_loop_escape [of v "''^^<'' @ dt @ CHR ''>'' # y"]
        by (simp add: read_literal_def write_ntriples_def)
    qed
  next
    case (Some lang)
    then show ?thesis
      using Literal assms find_name_end [of lang y] read_lit_loop_escape [of v "CHR ''@'' # lang @ y"]
      by (simp add: read_literal_def write_ntriples_def)
  qed
  moreover have "trim_start (write_ntriples t @ y) = write_ntriples t @ y"
    "strip_prefix ''<'' (write_ntriples t @ y) = None" "strip_prefix ''_:'' (write_ntriples t @ y) = None"
    "starts_with [CHR 0x22] (write_ntriples t @ y)"
    using Literal q by (simp_all add: write_ntriples_def)
  ultimately show ?thesis by (simp add: read_term_def)
qed

lemma name_last: "nt_name b \<Longrightarrow> plain c \<Longrightarrow> c \<noteq> CHR ''.'' \<Longrightarrow> plain (last (c # b)) \<and> last (c # b) \<noteq> CHR ''.''"
  using last_in_set [of b] by (cases "b = []") (auto simp: nt_name_def list_all_iff)

lemma plain_punct: "plain (CHR '':'')" "plain (CHR ''@'')" "plain (CHR ''<'')" "plain (CHR ''>'')" "plain (CHR ''_'')"
    "plain (CHR 0x22)"
  by (simp_all add: plain_def ascii_ws_def)

lemma write_last: "nt_term t \<Longrightarrow> plain (last (write_ntriples t)) \<and> last (write_ntriples t) \<noteq> CHR ''.''"
proof (cases t)
  case (BlankNode b)
  assume "nt_term t"
  then show ?thesis
    using BlankNode name_last [OF _ plain_punct(1), of b] by (simp add: write_ntriples_def)
next
  case (Literal v d l)
  assume n: "nt_term t"
  show ?thesis
  proof (cases l)
    case None
    then show ?thesis using Literal by (cases d) (simp_all add: write_ntriples_def plain_punct)
  next
    case (Some lang)
    then show ?thesis
      using Literal n name_last [OF _ plain_punct(2), of lang] by (simp add: write_ntriples_def)
  qed
qed (simp add: write_ntriples_def plain_punct)

lemma write_hd: "write_ntriples t \<noteq> [] \<and> plain (hd (write_ntriples t)) \<and> hd (write_ntriples t) \<noteq> CHR ''#''"
  by (cases t) (simp_all add: write_ntriples_def plain_punct)

lemmas write_ends = write_last write_hd

lemma write_no_newline: "nt_term t \<Longrightarrow> CHR 0x0A \<notin> set (write_ntriples t)"
proof -
  have e: "CHR 0x0A \<notin> set (concat (map escape_char v))" for v
    by (induction v) (auto simp: escape_char_def)
  have n: "CHR 0x0A \<notin> set b" if "nt_name b" for b
    using that by (auto simp: nt_name_def list_all_iff plain_def ascii_ws_def)
  show "nt_term t \<Longrightarrow> CHR 0x0A \<notin> set (write_ntriples t)"
    using e n by (cases t) (auto simp: write_ntriples_def nt_iri_def split: option.splits)
qed

definition triple_text :: "Triple \<Rightarrow> string" where
  "triple_text t = write_ntriples (subject t) @ '' '' @ write_ntriples (predicate t) @ '' '' @
     write_ntriples (object t)"

lemma triple_text_ends:
  assumes "nt_triple t"
  shows "triple_text t \<noteq> []" "plain (hd (triple_text t))" "plain (last (triple_text t))"
    "hd (triple_text t) \<noteq> CHR ''#''" "CHR 0x0A \<notin> set (triple_text t)"
  using assms write_hd [of "subject t"] write_hd [of "object t"] write_last [of "object t"] write_no_newline
  by (auto simp: triple_text_def nt_triple_def hd_append last_append)

lemma parse_nt_line_text:
  assumes "nt_triple t"
  shows "parse_nt_line (triple_text t @ '' .'') = Inr t"
proof -
  have s: "nt_term (subject t)" "nt_term (predicate t)" "nt_term (object t)"
    using assms by (simp_all add: nt_triple_def)
  have "trim_end_matches (CHR ''.'') ((triple_text t @ '' '') @ ''.'') = triple_text t @ '' ''"
    using trim_end_matches_replicate [of "CHR ''.''" "triple_text t @ '' ''" 1]
    by (simp add: trim_end_matches_no)
  moreover have "trim (triple_text t @ '' '') = triple_text t"
  proof -
    have "trim_end (triple_text t @ [CHR '' '']) = trim_end (triple_text t)"
      by (rule trim_end_ws) (simp add: ascii_ws_def)
    then show ?thesis
      using triple_text_ends [OF assms] trim_end_plain_last [of "triple_text t"]
      by (cases "triple_text t") (simp_all add: trim_def)
  qed
  moreover have "read_term (triple_text t) =
      Inr (subject t, '' '' @ write_ntriples (predicate t) @ '' '' @ write_ntriples (object t))"
    using read_term_write [OF s(1), of "'' '' @ write_ntriples (predicate t) @ '' '' @ write_ntriples (object t)"]
    by (simp add: triple_text_def term_end_def)
  moreover have "trim_start ('' '' @ write_ntriples u @ y) = write_ntriples u @ y" if "nt_term u" for u y
    using write_hd [of u] by (cases "write_ntriples u") (simp_all add: ascii_ws_def)
  moreover from this [OF s(3), of "[]"]
  have "trim_start ('' '' @ write_ntriples (object t)) = write_ntriples (object t)" by simp
  ultimately show ?thesis
    using s read_term_write [OF s(2), of "'' '' @ write_ntriples (object t)"] read_term_write [OF s(3), of "[]"]
    by (simp add: parse_nt_line_def term_end_def)
qed

lemma str_lines_nl: "CHR 0x0A \<notin> set l \<Longrightarrow> strip_cr l = l \<Longrightarrow> str_lines (l @ CHR 0x0A # y) = l # str_lines y"
  by (simp add: str_lines_def split_on_append Let_def)

lemma parse_nt_lines_write:
  "\<forall>t \<in> set ts. nt_triple t \<Longrightarrow>
   parse_nt_lines i (str_lines (concat (map write_triple ts))) g = Inr (g \<union> set ts)"
proof (induction ts arbitrary: i g)
  case Nil
  then show ?case by (simp add: str_lines_def)
next
  case (Cons t ts)
  let ?l = "triple_text t @ '' .''"
  have t: "nt_triple t" using Cons.prems by simp
  have "strip_suffix [CHR 0x0D] ?l = None"
    by (simp add: strip_suffix_def ends_with_def)
  then have "strip_cr ?l = ?l" by (simp add: strip_cr_def)
  then have lines: "str_lines (concat (map write_triple (t # ts))) = ?l # str_lines (concat (map write_triple ts))"
    using triple_text_ends(5) [OF t] str_lines_nl [of ?l]
    by (simp add: write_triple_def triple_text_def)
  have "trim ?l = ?l"
    using triple_text_ends [OF t] by (intro trim_id) (simp_all add: plain_def ascii_ws_def)
  moreover have "\<not> starts_with ''#'' ?l"
    using triple_text_ends [OF t] by (cases "triple_text t") simp_all
  moreover have "insert t g \<union> set ts = g \<union> set (t # ts)" by auto
  ultimately show ?case
    using Cons parse_nt_line_text [OF t] unfolding lines by simp
qed

section \<open>Properties\<close>


definition ex_triple :: Triple where
  "ex_triple = Triple (Iri ''http://a/s'') (Iri ''http://a/p'') (Literal [CHR 0x22, CHR 0x0A, CHR ''x''] None (Some ''en''))"


text \<open>Outside ASCII the reader does not invert the writer: the literal \<open>e\<close> acute, two bytes in
  UTF-8, is read back as four.\<close>

theorem ntriples_mangles_non_ascii:
  "parse_ntriples (to_ntriples {Triple (Iri ''s'') (Iri ''p'') (term_literal [CHR 0xC3, CHR 0xA9])}) =
     Inr {Triple (Iri ''s'') (Iri ''p'') (term_literal [CHR 0xC3, CHR 0x83, CHR 0xC2, CHR 0xA9])}"
  by code_simp

text \<open>The triples a server manages are exactly those a client may not set: everything the server
  computes for a resource is flagged in a graph that contains it, and nothing else is.\<close>

theorem server_managed_flagged:
  assumes "finite g"
  shows "set (find_illegal_server_managed (g \<union> server_managed_triples rfc ts r m sz flag kids)) =
    server_managed_triples rfc ts r m sz flag kids \<union>
    {t \<in> g. \<exists>p. predicate t = Iri p \<and> p \<in> set SERVER_MANAGED_PREDICATES}"
proof -
  have m: "is_server_managed t \<longleftrightarrow> (\<exists>p. predicate t = Iri p \<and> p \<in> set SERVER_MANAGED_PREDICATES)" for t
    by (cases "predicate t") (auto simp: is_server_managed_def list_ex_iff)
  have "finite (server_managed_triples rfc ts r m sz flag kids)" by (simp add: server_managed_triples_def)
  moreover have "\<forall>t \<in> server_managed_triples rfc ts r m sz flag kids. is_server_managed t"
    by (auto simp: server_managed_triples_def is_server_managed_def SERVER_MANAGED_PREDICATES_def)
  ultimately show ?thesis using assms m by (auto simp: find_illegal_server_managed_def)
qed

theorem server_managed_flagged_witness:
  "set (find_illegal_server_managed ({ex_triple} \<union> server_managed_triples (\<lambda>_. ''t'') (\<lambda>t. t) ''/'' 0 0 True [''a''])) =
    server_managed_triples (\<lambda>_. ''t'') (\<lambda>t. t) ''/'' 0 0 True [''a''] \<union>
    {t \<in> {ex_triple}. \<exists>p. predicate t = Iri p \<and> p \<in> set SERVER_MANAGED_PREDICATES}"
  by (rule server_managed_flagged) simp

end
