(* ===== verification/Ldp_Patch.thy ===== *)
theory Ldp_Patch
  imports Ldp_Graph
begin

text \<open>
  RDF patches (\<open>ldp.rs\<close>): Solid's N3 patch, SPARQL Update, and patches that create a resource.
  The SPARQL parser is the \<open>spargebra\<close> crate's and is a parameter; the algebra it returns is the
  part of its documented data model the code matches on.
\<close>

record PatchOutcome =
  po_graph :: Graph
  po_inserted :: nat
  po_deleted :: nat

section \<open>N3 patches\<close>

text \<open>The length of the braced block at the start, up to the brace that closes it.\<close>

fun block_len :: "int \<Rightarrow> string \<Rightarrow> nat option" where
  "block_len depth [] = None"
| "block_len depth (c # cs) =
     (if c = CHR ''{'' then map_option Suc (block_len (depth + 1) cs)
      else if c = CHR ''}'' then
        (if depth - 1 = 0 then Some 1 else map_option Suc (block_len (depth - 1) cs))
      else map_option Suc (block_len depth cs))"

lemma find_sub_bound: "find_sub p s = Some i \<Longrightarrow> i + length p \<le> length s"
proof -
  assume *: "find_sub p s = Some i"
  then have "length s = length (take i s) + length p + (length s - (i + length p))"
    using find_sub_Some [OF *] by (metis add.assoc length_append length_drop)
  moreover have "i \<le> length s"
    using * by (induction s arbitrary: i) (auto simp: find_sub_Nil find_sub_Cons split: if_splits)
  ultimately show ?thesis by (auto simp: min_def split: if_splits)
qed

lemma extract_kw_progress:
  assumes "needle \<noteq> []" "find_sub needle (drop search_from low) = Some pos"
  shows "length low - (search_from + pos + length needle) < length low - search_from"
proof -
  have "pos + length needle \<le> length low - search_from" using find_sub_bound [OF assms(2)] by simp
  moreover have "0 < length needle" using assms(1) by simp
  ultimately show ?thesis by linarith
qed

text \<open>The \<open>while let\<close> loop for one keyword; the keywords are non-empty literals.\<close>

function extract_kw :: "string \<Rightarrow> string \<Rightarrow> string \<Rightarrow> nat \<Rightarrow> string option" where
  "extract_kw needle low source search_from =
     (if needle = [] then None
      else case find_sub needle (drop search_from low) of
        None \<Rightarrow> None
      | Some pos \<Rightarrow>
          (let abs = search_from + pos;
               after_kw = abs + length needle;
               left_ok = (abs = 0 \<or> \<not> (ascii_alphanumeric (low ! (abs - 1)) \<or> low ! (abs - 1) = CHR ''_''));
               trimmed = trim_start (drop after_kw source)
           in if \<not> left_ok then extract_kw needle low source after_kw
              else if \<not> starts_with ''{'' trimmed then extract_kw needle low source after_kw
              else (case block_len 0 trimmed of
                 Some e \<Rightarrow> Some (take e trimmed)
               | None \<Rightarrow> extract_kw needle low source after_kw)))"
  by pat_completeness auto

termination
  by (relation "measure (\<lambda>(_, low, _, from). length low - from)") (auto simp: extract_kw_progress)

declare extract_kw.simps [simp del]

fun extract_block :: "string \<Rightarrow> string list \<Rightarrow> string option" where
  "extract_block source [] = None"
| "extract_block source (kw # kws) =
     (case extract_kw (to_ascii_lowercase kw) (to_ascii_lowercase source) source 0 of
        Some b \<Rightarrow> Some b
      | None \<Rightarrow> extract_block source kws)"

definition strip_braces :: "string \<Rightarrow> string" where
  "strip_braces block = (let t0 = trim block; t1 = unwrap_or (strip_prefix ''{'' t0) t0;
     t2 = unwrap_or (strip_suffix ''}'' t1) t1 in trim t2)"

definition parse_block :: "string \<Rightarrow> PodError + Graph" where
  "parse_block b = (if b \<noteq> [] then parse_ntriples (strip_braces b) else Inr {})"

definition check_where :: "Graph \<Rightarrow> string option \<Rightarrow> PodError + unit" where
  "check_where target where_clause = (case where_clause of
     None \<Rightarrow> Inr ()
   | Some wc \<Rightarrow>
       if trim wc = [] then Inr ()
       else rbind (parse_ntriples (strip_braces wc)) (\<lambda>where_graph.
         if list_ex (\<lambda>t. t \<notin> target) (sorted_list_of_set where_graph)
         then Inl (PreconditionFailed ''WHERE clause triple missing: '') else Inr ()))"

definition apply_n3_patch :: "Graph \<Rightarrow> string \<Rightarrow> PodError + PatchOutcome" where
  "apply_n3_patch target patch =
     (let inserts = unwrap_or (extract_block patch [''insert'', ''inserts'', ''solid:inserts'']) [];
          deletes = unwrap_or (extract_block patch [''delete'', ''deletes'', ''solid:deletes'']) [];
          where_clause = extract_block patch [''where'', ''solid:where''] in
      rbind (parse_block inserts) (\<lambda>insert_graph.
      rbind (parse_block deletes) (\<lambda>delete_graph.
      rbind (check_where target where_clause) (\<lambda>_.
        Inr \<lparr>po_graph = (target - delete_graph) \<union> insert_graph,
             po_inserted = card insert_graph,
             po_deleted = length (filter (\<lambda>t. t \<in> target) (sorted_list_of_set delete_graph))\<rparr>))))"

section \<open>SPARQL Update\<close>

datatype SpLiteral = SpLiteral (sp_value: string) (sp_language: "string option") (sp_datatype: string)

datatype SpSubject = SubjNamedNode string | SubjBlankNode string

datatype SpTerm = TermNamedNode string | TermBlankNode string | TermLiteral SpLiteral

datatype GroundTerm = GroundNamedNode string | GroundLiteral SpLiteral

datatype GraphName = GraphNamed string | DefaultGraph

datatype GroundTermPattern = GtpNamedNode string | GtpLiteral SpLiteral | GtpVariable string

datatype NamedNodePattern = NnpNamedNode string | NnpVariable string

datatype TermPattern = TpNamedNode string | TpBlankNode string | TpLiteral SpLiteral | TpVariable string

datatype GraphNamePattern = GnpNamedNode string | GnpDefaultGraph | GnpVariable string

datatype Quad = Quad SpSubject string SpTerm GraphName

datatype GroundQuad = GroundQuad string string GroundTerm GraphName

datatype GroundQuadPattern = GroundQuadPattern GroundTermPattern NamedNodePattern GroundTermPattern GraphNamePattern

datatype QuadPattern = QuadPattern TermPattern NamedNodePattern TermPattern GraphNamePattern

datatype GraphUpdateOperation =
    InsertData "Quad list"
  | DeleteData "GroundQuad list"
  | DeleteInsert "GroundQuadPattern list" "QuadPattern list"
  | OtherOperation

definition build_literal :: "string \<Rightarrow> string option \<Rightarrow> string option \<Rightarrow> Term" where
  "build_literal value datatype0 language =
     Literal value (case datatype0 of Some d \<Rightarrow> if d \<noteq> XSD_STRING then Some d else None | None \<Rightarrow> None) language"

definition map_literal :: "SpLiteral \<Rightarrow> Term" where
  "map_literal lit = (case sp_language lit of
     Some lang \<Rightarrow> build_literal (sp_value lit) None (Some lang)
   | None \<Rightarrow> build_literal (sp_value lit) (Some (sp_datatype lit)) None)"

definition map_subject :: "SpSubject \<Rightarrow> Term option" where
  "map_subject s = (case s of SubjNamedNode n \<Rightarrow> Some (Iri n) | SubjBlankNode b \<Rightarrow> Some (BlankNode b))"

definition map_term :: "SpTerm \<Rightarrow> Term option" where
  "map_term t = (case t of TermNamedNode n \<Rightarrow> Some (Iri n) | TermBlankNode b \<Rightarrow> Some (BlankNode b)
     | TermLiteral lit \<Rightarrow> Some (map_literal lit))"

definition map_ground_term :: "GroundTerm \<Rightarrow> Term option" where
  "map_ground_term t = (case t of GroundNamedNode n \<Rightarrow> Some (Iri n) | GroundLiteral lit \<Rightarrow> Some (map_literal lit))"

definition map_ground_term_pattern :: "GroundTermPattern \<Rightarrow> Term option" where
  "map_ground_term_pattern t = (case t of GtpNamedNode n \<Rightarrow> Some (Iri n)
     | GtpLiteral lit \<Rightarrow> Some (map_literal lit) | GtpVariable v \<Rightarrow> None)"

definition mk_triple :: "Term option \<Rightarrow> Term \<Rightarrow> Term option \<Rightarrow> Triple option" where
  "mk_triple s p obj = (case s of None \<Rightarrow> None
     | Some s' \<Rightarrow> (case obj of None \<Rightarrow> None | Some o' \<Rightarrow> Some (Triple s' p o')))"

definition quad_to_triple :: "Quad \<Rightarrow> Triple option" where
  "quad_to_triple q = (case q of Quad s p obj gn \<Rightarrow>
     if gn \<noteq> DefaultGraph then None else mk_triple (map_subject s) (Iri p) (map_term obj))"

definition ground_quad_to_triple :: "GroundQuad \<Rightarrow> Triple option" where
  "ground_quad_to_triple q = (case q of GroundQuad s p obj gn \<Rightarrow>
     if gn \<noteq> DefaultGraph then None else mk_triple (Some (Iri s)) (Iri p) (map_ground_term obj))"

definition ground_quad_pattern_to_triple :: "GroundQuadPattern \<Rightarrow> Triple option" where
  "ground_quad_pattern_to_triple q = (case q of GroundQuadPattern s p obj gn \<Rightarrow>
     if gn \<noteq> GnpDefaultGraph then None
     else (case p of
        NnpVariable v \<Rightarrow> None
      | NnpNamedNode n \<Rightarrow>
          mk_triple (map_ground_term_pattern s) (Iri n) (map_ground_term_pattern obj)))"

definition ground_pattern :: "TermPattern \<Rightarrow> GroundTermPattern option" where
  "ground_pattern t = (case t of TpNamedNode n \<Rightarrow> Some (GtpNamedNode n) | TpLiteral l \<Rightarrow> Some (GtpLiteral l)
     | _ \<Rightarrow> None)"

definition convert_quad_pattern_to_ground :: "QuadPattern \<Rightarrow> GroundQuadPattern option" where
  "convert_quad_pattern_to_ground q = (case q of QuadPattern s p obj gn \<Rightarrow>
     (case ground_pattern s of None \<Rightarrow> None | Some s' \<Rightarrow>
     (case p of NnpVariable v \<Rightarrow> None | NnpNamedNode n \<Rightarrow>
     (case ground_pattern obj of None \<Rightarrow> None | Some o' \<Rightarrow>
     (case gn of GnpVariable v \<Rightarrow> None | _ \<Rightarrow> Some (GroundQuadPattern s' p o' gn))))))"

definition sp_insert :: "Triple option \<Rightarrow> PatchOutcome \<Rightarrow> PatchOutcome" where
  "sp_insert x out = (case x of None \<Rightarrow> out
     | Some tr \<Rightarrow> if tr \<in> po_graph out then out
         else out\<lparr>po_graph := insert tr (po_graph out), po_inserted := po_inserted out + 1\<rparr>)"

definition sp_remove :: "Triple option \<Rightarrow> PatchOutcome \<Rightarrow> PatchOutcome" where
  "sp_remove x out = (case x of None \<Rightarrow> out
     | Some tr \<Rightarrow> if tr \<in> po_graph out
         then out\<lparr>po_graph := po_graph out - {tr}, po_deleted := po_deleted out + 1\<rparr> else out)"

definition template_triple :: "QuadPattern \<Rightarrow> Triple option" where
  "template_triple q = (case convert_quad_pattern_to_ground q of None \<Rightarrow> None
     | Some g \<Rightarrow> ground_quad_pattern_to_triple g)"

fun sparql_ops :: "GraphUpdateOperation list \<Rightarrow> PatchOutcome \<Rightarrow> PodError + PatchOutcome" where
  "sparql_ops [] out = Inr out"
| "sparql_ops (InsertData qs # ops) out = sparql_ops ops (fold (sp_insert \<circ> quad_to_triple) qs out)"
| "sparql_ops (DeleteData qs # ops) out = sparql_ops ops (fold (sp_remove \<circ> ground_quad_to_triple) qs out)"
| "sparql_ops (DeleteInsert ds is # ops) out = sparql_ops ops
     (fold (sp_insert \<circ> template_triple) is (fold (sp_remove \<circ> ground_quad_pattern_to_triple) ds out))"
| "sparql_ops (OtherOperation # ops) out = Inl (Unsupported ''unsupported SPARQL operation: '')"

definition apply_sparql_patch ::
    "(string \<Rightarrow> GraphUpdateOperation list option) \<Rightarrow> Graph \<Rightarrow> string \<Rightarrow> PodError + PatchOutcome" where
  "apply_sparql_patch sparql_parse target update =
     rbind (ok_or (sparql_parse update) (Unsupported ''SPARQL parse error: ''))
       (\<lambda>ops. sparql_ops ops \<lparr>po_graph = target, po_inserted = 0, po_deleted = 0\<rparr>)"

section \<open>Patching an absent resource\<close>

datatype PatchCreateOutcome = PatchCreated nat Graph | PatchApplied nat nat Graph

definition apply_patch_to_absent :: "(string \<Rightarrow> GraphUpdateOperation list option) \<Rightarrow> PatchDialect \<Rightarrow> string
    \<Rightarrow> PodError + PatchCreateOutcome" where
  "apply_patch_to_absent sparql_parse dialect body = (case dialect of
     N3 \<Rightarrow> rbind (apply_n3_patch {} body)
       (\<lambda>out. Inr (PatchCreated (po_inserted out) (po_graph out)))
   | SparqlUpdate \<Rightarrow> rbind (apply_sparql_patch sparql_parse {} body)
       (\<lambda>out. Inr (PatchCreated (po_inserted out) (po_graph out)))
   | JsonPatch \<Rightarrow> Inl (Unsupported ''JSON Patch on absent resource''))"

section \<open>Finding the blocks of a patch document\<close>

lemma trim_start_split: "\<exists>w. s = w @ trim_start s \<and> (\<forall>c \<in> set w. ascii_ws c \<or> digit7 c)"
proof (induction s rule: trim_start.induct)
  case (1 s)
  show ?case
  proof (cases "ws_len s = 0")
    case True
    then show ?thesis by (simp add: trim_start.simps [of s])
  next
    case False
    have wide: "\<forall>w \<in> set wide_ws. \<forall>c \<in> set w. digit7 c" by (simp add: wide_ws_def)
    have "\<forall>c \<in> set (take (ws_len s) s). ascii_ws c \<or> digit7 c"
    proof (cases s)
      case (Cons a cs)
      show ?thesis
      proof (cases "ascii_ws a")
        case True
        then show ?thesis using Cons by (simp add: ws_len_def)
      next
        case na: False
        then obtain w where w: "find (\<lambda>w. starts_with w s) wide_ws = Some w" "ws_len s = length w"
          using False Cons by (auto simp: ws_len_def split: if_splits option.splits)
        then have "take (ws_len s) s = w" "w \<in> set wide_ws"
          by (auto simp: find_Some_iff starts_with_def)
        then show ?thesis using wide by auto
      qed
    qed simp
    moreover obtain w where d: "drop (ws_len s) s = w @ trim_start (drop (ws_len s) s)"
      and "\<forall>c \<in> set w. ascii_ws c \<or> digit7 c" using 1 False by blast
    moreover have "trim_start s = trim_start (drop (ws_len s) s)"
      using False by (simp add: trim_start.simps [of s])
    ultimately have "s = (take (ws_len s) s @ w) @ trim_start s \<and>
        (\<forall>c \<in> set (take (ws_len s) s @ w). ascii_ws c \<or> digit7 c)"
      unfolding set_append by (metis Un_iff append.assoc append_take_drop_id)
    then show ?thesis by blast
  qed
qed

lemma trim_start_no_brace:
  assumes "CHR ''{'' \<notin> set x"
  shows "\<not> starts_with ''{'' (trim_start (x @ CHR ''}'' # y))"
proof
  assume "starts_with ''{'' (trim_start (x @ CHR ''}'' # y))"
  then obtain r where r: "trim_start (x @ CHR ''}'' # y) = CHR ''{'' # r" by (auto simp: starts_with_iff)
  obtain w where w: "x @ CHR ''}'' # y = w @ CHR ''{'' # r" "\<forall>c \<in> set w. ascii_ws c \<or> digit7 c"
    using trim_start_split [of "x @ CHR ''}'' # y"] r by auto
  have "\<not> (ascii_ws (CHR ''}'') \<or> digit7 (CHR ''}''))" by (simp add: ascii_ws_def)
  then have "CHR ''}'' \<notin> set w" using w(2) by blast
  then have "length w \<le> length x"
    using arg_cong [OF w(1), of "\<lambda>l. l ! length x"] nth_mem [of "length x" w]
    by (metis leI nth_append nth_append_length)
  moreover have "length w \<noteq> length x"
    using arg_cong [OF w(1), of "\<lambda>l. l ! length x"] by (auto simp: nth_append)
  ultimately have "x ! length w = CHR ''{''" "length w < length x"
    using arg_cong [OF w(1), of "\<lambda>l. l ! length w"] by (auto simp: nth_append)
  then show False using assms nth_mem by metis
qed

lemma extract_kw_jump:
  assumes "needle \<noteq> []" "sep \<notin> set needle" "ascii_lower sep = sep" "low = to_ascii_lowercase source"
    and "drop from source = p @ sep # q" "find_sub needle (to_ascii_lowercase p) = None"
  shows "extract_kw needle low source from = extract_kw needle low source (from + length p + 1)"
proof -
  have d: "drop from low = to_ascii_lowercase p @ sep # to_ascii_lowercase q"
    using assms(3,4,5) by (simp add: to_ascii_lowercase_def drop_map)
  have "drop (from + length p + 1) source = q"
  proof -
    have "drop (from + length p + 1) source = drop (length p + 1) (drop from source)" by (simp add: add_ac)
    then show ?thesis using assms(5) by simp
  qed
  then have d': "drop (from + length p + 1) low = to_ascii_lowercase q"
    using assms(4) by (simp add: to_ascii_lowercase_def drop_map)
  have f: "find_sub needle (drop from low) =
      map_option (\<lambda>i. Suc (length p + i)) (find_sub needle (drop (from + length p + 1) low))"
    using find_sub_sep [OF assms(1,2), of "to_ascii_lowercase p" "to_ascii_lowercase q"] assms(6) d d'
    by (simp add: to_ascii_lowercase_def)
  show ?thesis
  proof (cases "find_sub needle (drop (from + length p + 1) low)")
    case None
    then show ?thesis using f by (subst (1 2) extract_kw.simps) simp
  next
    case (Some i)
    then have "find_sub needle (drop from low) = Some (length p + 1 + i)" using f by simp
    then show ?thesis
      using Some by (subst (1 2) extract_kw.simps) (simp add: Let_def algebra_simps)
  qed
qed

lemma extract_kw_skip:
  assumes "needle \<noteq> []" "CHR ''}'' \<notin> set needle" "low = to_ascii_lowercase source"
    and "drop from source = x @ CHR ''}'' # y" "CHR ''{'' \<notin> set x"
  shows "extract_kw needle low source from = extract_kw needle low source (from + length x + 1)"
  using assms(4,5)
proof (induction "length x" arbitrary: x "from" rule: less_induct)
  case less
  have lb: "ascii_lower (CHR ''}'') = CHR ''}''" by code_simp
  show ?case
  proof (cases "find_sub needle (to_ascii_lowercase x)")
    case None
    then show ?thesis using extract_kw_jump [OF assms(1,2) lb assms(3)] less.prems(1) by blast
  next
    case (Some i)
    let ?n = "i + length needle"
    have n: "?n \<le> length x" "0 < ?n"
      using find_sub_bound [OF Some] assms(1) by (simp_all add: to_ascii_lowercase_def)
    have d: "drop (from + ?n) source = drop ?n x @ CHR ''}'' # y"
    proof -
      have "drop (from + ?n) source = drop ?n (drop from source)" by (simp add: add.commute)
      then show ?thesis using less.prems(1) n(1) by simp
    qed
    have low: "drop from low = to_ascii_lowercase x @ CHR ''}'' # to_ascii_lowercase y"
      using less.prems(1) lb assms(3) by (simp add: to_ascii_lowercase_def drop_map)
    have "find_sub needle (drop from low) = Some i"
      using find_sub_sep [OF assms(1,2)] Some unfolding low by simp
    moreover have "\<not> starts_with ''{'' (trim_start (drop (from + i + length needle) source))"
      using trim_start_no_brace [of "drop ?n x" y] d less.prems(2) by (metis add.assoc in_set_dropD)
    ultimately have "extract_kw needle low source from = extract_kw needle low source (from + i + length needle)"
      using assms(1) by (subst extract_kw.simps) (simp add: Let_def)
    also have "\<dots> = extract_kw needle low source (from + ?n + length (drop ?n x) + 1)"
      using less.hyps [of "drop ?n x" "from + ?n"] d less.prems(2) n in_set_dropD
      by (metis add.assoc diff_less length_drop length_greater_0_conv less_le_trans)
    also have "from + ?n + length (drop ?n x) + 1 = from + length x + 1" using n by simp
    finally show ?thesis .
  qed
qed

lemma block_len_body: "CHR ''{'' \<notin> set a \<Longrightarrow> CHR ''}'' \<notin> set a \<Longrightarrow>
    block_len 1 (a @ CHR ''}'' # z) = Some (length a + 1)"
  by (induction a) auto

section \<open>Patch documents\<close>

text \<open>
  A document whose braces are not nested: a list of blocks, each a header and a body, and a tail. The
  body of a keyword is that of the first block whose header ends in the keyword, in any case, with white
  space after it and no letter, digit or underscore before it.
\<close>

definition n3_doc :: "(string \<times> string) list \<Rightarrow> string \<Rightarrow> string" where
  "n3_doc bs tail = concat (map (\<lambda>(h, b). h @ ''{'' @ b @ ''}'') bs) @ tail"

definition brace_free :: "string \<Rightarrow> bool" where
  "brace_free s \<longleftrightarrow> CHR ''{'' \<notin> set s \<and> CHR ''}'' \<notin> set s"

definition plain_doc :: "(string \<times> string) list \<Rightarrow> string \<Rightarrow> bool" where
  "plain_doc bs tail \<longleftrightarrow> list_all (\<lambda>(h, b). brace_free h \<and> brace_free b) bs \<and> brace_free tail"

definition word_char :: "char \<Rightarrow> bool" where
  "word_char c \<longleftrightarrow> ascii_alphanumeric c \<or> c = CHR ''_''"

definition headed_at :: "string \<Rightarrow> string \<Rightarrow> nat \<Rightarrow> bool" where
  "headed_at n h i \<longleftrightarrow> take (length n) (drop i (to_ascii_lowercase h)) = n \<and>
     (i = 0 \<or> \<not> word_char (to_ascii_lowercase h ! (i - 1))) \<and> trim_start (drop (i + length n) h) = []"

definition headed :: "string \<Rightarrow> string \<Rightarrow> bool" where
  "headed n h \<longleftrightarrow> list_ex (headed_at n h) [0..<length h]"

fun doc_block :: "(string \<times> string) list \<Rightarrow> string list \<Rightarrow> string option" where
  "doc_block bs [] = None"
| "doc_block bs (kw # kws) =
     (case find (\<lambda>(h, b). headed kw h) bs of Some (h, b) \<Rightarrow> Some b | None \<Rightarrow> doc_block bs kws)"

text \<open>The keywords do not overlap themselves at a place where they could start.\<close>

definition keyword :: "string \<Rightarrow> bool" where
  "keyword n \<longleftrightarrow> n \<noteq> [] \<and> brace_free n \<and> to_ascii_lowercase n = n \<and>
     list_all (\<lambda>i. \<not> starts_with (drop i n) n \<or> word_char (n ! (i - 1))) [1..<length n]"

lemma find_sub_least: "find_sub p s = Some i \<Longrightarrow> k < i \<Longrightarrow> \<not> starts_with p (drop k s)"
proof (induction s arbitrary: i k)
  case (Cons c s)
  then obtain j where j: "i = Suc j" "find_sub p s = Some j" "\<not> starts_with p (c # s)"
    by (auto simp: find_sub_Cons split: if_splits)
  then show ?case using Cons.IH [OF j(2)] Cons.prems(2) by (cases k) auto
qed (auto simp: find_sub_Nil split: if_splits)

lemma find_sub_none: "find_sub p s = None \<Longrightarrow> \<not> starts_with p (drop k s)"
proof (induction s arbitrary: k)
  case (Cons c s)
  then show ?case by (cases k) (auto simp: find_sub_Cons split: if_splits)
qed (auto simp: find_sub_Nil starts_with_iff split: if_splits)

lemma starts_with_take: "starts_with p s \<longleftrightarrow> take (length p) s = p"
  by (auto simp: starts_with_def)

lemma word_char_lower: "word_char (ascii_lower c) = word_char c"
  by (cases c) (auto simp: word_char_def ascii_alphanumeric_def ascii_lower_def)

lemma wide_ws_brace: "x \<in> set wide_ws \<Longrightarrow> CHR ''{'' \<notin> set x"
  by (auto simp: wide_ws_def)

lemma ws_len_brace: "ws_len (s @ CHR ''{'' # r) = ws_len s"
proof (cases s)
  case Nil
  then show ?thesis by (simp add: plain_def ascii_ws_def)
next
  case (Cons c cs)
  have "find (\<lambda>x. starts_with x (s @ CHR ''{'' # r)) wide_ws = find (\<lambda>x. starts_with x s) wide_ws"
    by (rule find_cong [OF refl]) (simp add: starts_with_sep [OF wide_ws_brace])
  then show ?thesis using Cons by (simp add: ws_len_def)
qed

lemma trim_start_brace: "trim_start (s @ CHR ''{'' # r) = trim_start s @ CHR ''{'' # r"
proof (induction s rule: trim_start.induct)
  case (1 s)
  show ?case
  proof (cases "ws_len s = 0")
    case False
    then show ?thesis
      using 1 ws_len_le [of s] by (subst (1 2) trim_start.simps) (simp add: ws_len_brace)
  qed (simp add: trim_start.simps [of s] trim_start.simps [of "s @ CHR ''{'' # r"] ws_len_brace)
qed

lemma trim_start_subset: "set (trim_start s) \<subseteq> set s"
  using trim_start_split [of s] by (metis Un_upper2 set_append)


lemma keyword_overlap:
  assumes "keyword n" "take (length n) (drop i l) = n" "take (length n) (drop k l) = n" "i < k" "k < i + length n"
  shows "word_char (l ! (k - 1))"
proof -
  have len: "length n \<le> length l - i" using assms(2) by (metis length_drop length_take min.cobounded1)
  let ?m = "k - i"
  have "drop ?m n = take (length n - ?m) (drop k l)"
    using assms(4) by (subst assms(2) [symmetric]) (simp add: drop_take)
  also have "\<dots> = take (length n - ?m) n" by (subst (2) assms(3) [symmetric]) simp
  finally have "starts_with (drop ?m n) n" using assms(4,5) by (auto simp: starts_with_take)
  moreover have "?m \<in> set [1..<length n]" using assms(4,5) by auto
  ultimately have "word_char (n ! (?m - 1))" using assms(1) by (auto simp: keyword_def list_all_iff)
  moreover have "n ! (?m - 1) = l ! (i + (?m - 1))"
    using assms(4,5) len by (subst assms(2) [symmetric]) simp
  ultimately show ?thesis using assms(4) by simp
qed

lemma headed_at_bound: "keyword n \<Longrightarrow> headed_at n h i \<Longrightarrow> i < length h"
proof (rule ccontr)
  assume n: "keyword n" and h: "headed_at n h i" and "\<not> i < length h"
  then have "drop i (to_ascii_lowercase h) = []" by (simp add: to_ascii_lowercase_def)
  then show False using n h by (simp add: headed_at_def keyword_def)
qed

lemma headed_iff: "keyword n \<Longrightarrow> headed n h \<longleftrightarrow> (\<exists>i. headed_at n h i)"
  using headed_at_bound by (auto simp: headed_def list_ex_iff)

lemma block_take: "brace_free b \<Longrightarrow> block_len 0 (CHR ''{'' # b @ CHR ''}'' # z) = Some (length b + 2)"
  using block_len_body by (simp add: brace_free_def)

lemma not_headed:
  assumes "h \<noteq> []" "plain (last h)" "\<not> ends_with n (to_ascii_lowercase h)"
  shows "\<not> headed n h"
proof
  assume "headed n h"
  then obtain i where i: "headed_at n h i" by (auto simp: headed_def list_ex_iff)
  then have "\<forall>c \<in> set (drop (i + length n) h). ascii_ws c \<or> digit7 c"
    using trim_start_split [of "drop (i + length n) h"] by (auto simp: headed_at_def)
  then have "drop (i + length n) h = []"
    using assms(2) last_in_set [of "drop (i + length n) h"] by (auto simp: plain_def last_drop)
  then have "length (to_ascii_lowercase h) - i \<le> length n" by (simp add: to_ascii_lowercase_def)
  then have "drop i (to_ascii_lowercase h) = n" using i by (simp add: headed_at_def)
  then show False using assms(3) unfolding ends_with_iff by (metis append_take_drop_id)
qed

text \<open>From inside a header, the search finds the block the header announces, or goes on behind it.\<close>

lemma extract_kw_header:
  assumes n: "keyword n" and low: "low = to_ascii_lowercase source"
    and d: "drop from source = h @ CHR ''{'' # b @ CHR ''}'' # rest" and free: "brace_free h" "brace_free b"
    and left: "from = 0 \<or> \<not> word_char (source ! (from - 1))" and "j \<le> length h"
  shows "extract_kw n low source (from + j) =
    (if \<exists>k \<ge> j. headed_at n h k then Some (''{'' @ b @ ''}'') else extract_kw n low source (from + length h + 1))"
  using assms(7)
proof (induction "length h - j" arbitrary: j rule: less_induct)
  case less
  let ?l = "to_ascii_lowercase h"
  have n': "n \<noteq> []" "CHR ''{'' \<notin> set n" using n by (simp_all add: keyword_def brace_free_def)
  have lb: "ascii_lower (CHR ''{'') = CHR ''{''" by code_simp
  have ds: "drop (from + m) source = drop m h @ CHR ''{'' # b @ CHR ''}'' # rest" if "m \<le> length h" for m
    using that drop_drop [of m "from" source, symmetric] by (simp add: d add.commute)
  note dj = ds [OF less.prems]
  have fl: "from < length source" by (rule ccontr) (use d in simp)
  have lowj: "drop (from + j) low = drop j ?l @ CHR ''{'' # to_ascii_lowercase (b @ CHR ''}'' # rest)"
    using dj low lb by (simp add: to_ascii_lowercase_def drop_map)
  show ?case
  proof (cases "find_sub n (drop j ?l)")
    case None
    then have "\<not> headed_at n h k" if "j \<le> k" for k
      using find_sub_none [OF None, of "k - j"] that by (auto simp: headed_at_def starts_with_take)
    moreover have "extract_kw n low source (from + j) = extract_kw n low source (from + j + length (drop j h) + 1)"
      by (rule extract_kw_jump [OF n' lb low dj]) (use None in \<open>simp add: to_ascii_lowercase_def drop_map\<close>)
    ultimately show ?thesis using less.prems by auto
  next
    case (Some i)
    let ?i = "j + i"
    have hit: "take (length n) (drop ?i ?l) = n" and len: "?i + length n \<le> length h"
    proof -
      have "length (take i (drop j ?l)) = i" using find_sub_bound [OF Some] by simp
      then have "drop i (drop j ?l) = n @ drop (i + length n) (drop j ?l)"
        using find_sub_Some [OF Some] by (metis append_eq_conv_conj)
      then show "take (length n) (drop ?i ?l) = n" by (simp add: add.commute)
      show "?i + length n \<le> length h" using find_sub_bound [OF Some] less.prems by (simp add: to_ascii_lowercase_def)
    qed
    have before: "\<not> headed_at n h k" if "j \<le> k" "k < ?i" for k
      using find_sub_least [OF Some, of "k - j"] that by (auto simp: headed_at_def starts_with_take)
    have f: "find_sub n (drop (from + j) low) = Some i"
      unfolding lowj using find_sub_sep [OF n'] Some by simp
    have after: "drop (from + j + i + length n) source = drop (?i + length n) h @ CHR ''{'' # b @ CHR ''}'' # rest"
      using ds [OF len] by (simp add: add.assoc)
    have prev: "(from + j + i = 0 \<or> \<not> word_char (low ! (from + j + i - 1))) \<longleftrightarrow> (?i = 0 \<or> \<not> word_char (?l ! (?i - 1)))"
    proof (cases "?i = 0")
      case True
      have "word_char (low ! (from - 1)) = word_char (source ! (from - 1))" if "0 < from"
      proof -
        have "from - 1 < length source" using fl by simp
        then show ?thesis using low word_char_lower by (simp add: to_ascii_lowercase_def)
      qed
      then show ?thesis using left True by auto
    next
      case False
      have "low ! (from + (?i - 1)) = drop from low ! (?i - 1)" by (rule nth_drop [symmetric]) (use fl low in \<open>simp add: to_ascii_lowercase_def\<close>)
      also have "drop from low = ?l @ to_ascii_lowercase (CHR ''{'' # b @ CHR ''}'' # rest)"
        using d low by (simp add: to_ascii_lowercase_def drop_map)
      also have "\<dots> ! (?i - 1) = ?l ! (?i - 1)"
      proof -
        have "0 < length n" using n'(1) by simp
        then have "?i - 1 < length h" using len by linarith
        then have "?i - 1 < length ?l" by (simp add: to_ascii_lowercase_def)
        then show ?thesis by (simp add: nth_append)
      qed
      finally show ?thesis using False by (auto simp: add.assoc)
    qed
    show ?thesis
    proof (cases "headed_at n h ?i")
      case True
      then have lo: "from + j + i = 0 \<or> \<not> word_char (low ! (from + j + i - 1))"
        using prev by (simp add: headed_at_def)
      have "trim_start (drop (from + j + i + length n) source) = CHR ''{'' # b @ CHR ''}'' # rest"
        unfolding after trim_start_brace using True by (simp add: headed_at_def)
      then have "extract_kw n low source (from + j) = Some (''{'' @ b @ ''}'')"
        using f n'(1) lo block_take [OF free(2), of rest]
        by (subst extract_kw.simps) (auto simp: Let_def word_char_def)
      then show ?thesis using True by auto
    next
      case False
      have skip: "extract_kw n low source (from + j) = extract_kw n low source (from + (?i + length n))"
      proof (cases "?i = 0 \<or> \<not> word_char (?l ! (?i - 1))")
        case True
        then have "trim_start (drop (?i + length n) h) \<noteq> []" using False hit by (simp add: headed_at_def)
        moreover have "CHR ''{'' \<notin> set (trim_start (drop (?i + length n) h))"
          using trim_start_subset [of "drop (?i + length n) h"] free(1) in_set_dropD by (fastforce simp: brace_free_def)
        ultimately have "\<not> starts_with ''{'' (trim_start (drop (from + j + i + length n) source))"
          unfolding after trim_start_brace by (cases "trim_start (drop (?i + length n) h)") auto
        then show ?thesis using f n'(1) by (subst extract_kw.simps) (simp add: Let_def add.assoc)
      next
        case False
        then have "from + j + i \<noteq> 0 \<and> word_char (low ! (from + j + i - 1))" using prev by blast
        then have "extract_kw n low source (from + j) = extract_kw n low source (from + j + i + length n)"
          using f n'(1) by (subst extract_kw.simps) (auto simp: Let_def word_char_def)
        then show ?thesis by (simp add: add.assoc)
      qed
      have overlap: "\<not> headed_at n h k" if "?i < k" "k < ?i + length n" for k
        using keyword_overlap [OF n hit _ that] that by (auto simp: headed_at_def)
      have "?i + length n \<le> k" if "headed_at n h k" "j \<le> k" for k
        using before [of k] overlap [of k] False that by (cases k ?i rule: linorder_cases) (auto simp: not_less [symmetric])
      then have ex: "(\<exists>k \<ge> j. headed_at n h k) \<longleftrightarrow> (\<exists>k \<ge> ?i + length n. headed_at n h k)"
        by (meson le_add1 le_trans)
      have "0 < length n" using n'(1) by simp
      then have "length h - (?i + length n) < length h - j" using len by linarith
      then show ?thesis unfolding skip ex by (rule less.hyps [OF _ len])
    qed
  qed
qed

text \<open>The whole document.\<close>

lemma extract_kw_tail:
  assumes "keyword n" "CHR ''{'' \<notin> set (drop from source)" "low = to_ascii_lowercase source"
  shows "extract_kw n low source from = None"
  using assms(2)
proof (induction "length source - from" arbitrary: "from" rule: less_induct)
  case less
  show ?case
  proof (cases "find_sub n (drop from low)")
    case None
    then show ?thesis by (subst extract_kw.simps) simp
  next
    case (Some i)
    let ?to = "from + i + length n"
    have n: "n \<noteq> []" using assms(1) by (simp add: keyword_def)
    have len: "?to \<le> length source" "from < ?to"
    proof -
      have "0 < length n" "i + length n \<le> length source - from"
        using find_sub_bound [OF Some] n assms(3) by (simp_all add: to_ascii_lowercase_def)
      then show "?to \<le> length source" "from < ?to" by linarith+
    qed
    have "set (drop ?to source) \<subseteq> set (drop from source)" by (rule set_drop_subset_set_drop) simp
    then have free: "CHR ''{'' \<notin> set (drop ?to source)" using less.prems by blast
    then have "CHR ''{'' \<notin> set (trim_start (drop ?to source))" using trim_start_subset by blast
    then have "\<not> starts_with ''{'' (trim_start (drop ?to source))" by (auto simp: starts_with_iff)
    then have "extract_kw n low source from = extract_kw n low source ?to"
      using Some n by (subst extract_kw.simps) (simp add: Let_def)
    then show ?thesis using less.hyps [OF _ free] len by simp
  qed
qed

lemma extract_kw_doc:
  assumes n: "keyword n" and low: "low = to_ascii_lowercase source"
    and "drop from source = n3_doc bs tail" "plain_doc bs tail" "from = 0 \<or> \<not> word_char (source ! (from - 1))"
  shows "extract_kw n low source from =
    map_option (\<lambda>(h, b). ''{'' @ b @ ''}'') (find (\<lambda>(h, b). headed n h) bs)"
  using assms(3-5)
proof (induction bs arbitrary: "from")
  case Nil
  then show ?case using extract_kw_tail [OF n _ low] by (simp add: n3_doc_def plain_doc_def brace_free_def)
next
  case (Cons hb bs)
  obtain h b where hb: "hb = (h, b)" by force
  have d: "drop from source = h @ CHR ''{'' # b @ CHR ''}'' # n3_doc bs tail"
    using Cons.prems(1) by (simp add: hb n3_doc_def)
  have free: "brace_free h" "brace_free b" "plain_doc bs tail" using Cons.prems(2) by (simp_all add: hb plain_doc_def)
  have step: "extract_kw n low source from =
      (if headed n h then Some (''{'' @ b @ ''}'') else extract_kw n low source (from + length h + 1))"
    using extract_kw_header [OF n low d free(1,2) Cons.prems(3), of 0] headed_iff [OF n] by simp
  let ?next = "from + length h + 1 + length b + 1"
  have d1: "drop (from + length h + 1) source = b @ CHR ''}'' # n3_doc bs tail"
    using arg_cong [OF d, of "drop (length h + 1)"] by (simp add: add.commute add.left_commute)
  have d2: "drop ?next source = n3_doc bs tail"
    using arg_cong [OF d1, of "drop (length b + 1)"] by (simp add: add.commute add.left_commute)
  have "from + length h + 1 + length b < length source" by (rule ccontr) (use arg_cong [OF d1, of length] in simp)
  then have "source ! (?next - 1) = drop (from + length h + 1) source ! length b" by simp
  then have "source ! (?next - 1) = CHR ''}''" unfolding d1 by simp
  then have left: "\<not> word_char (source ! (?next - 1))" by (simp add: word_char_def ascii_alphanumeric_def)
  have "extract_kw n low source (from + length h + 1) = extract_kw n low source ?next"
    by (rule extract_kw_skip [OF _ _ low d1]) (use n free(2) in \<open>auto simp: keyword_def brace_free_def\<close>)
  then show ?case using step Cons.IH [OF d2 free(3)] left by (simp add: hb)
qed

lemma extract_block_doc:
  assumes "plain_doc bs tail" "list_all keyword kws"
  shows "extract_block (n3_doc bs tail) kws = map_option (\<lambda>b. ''{'' @ b @ ''}'') (doc_block bs kws)"
  using assms(2)
proof (induction kws)
  case (Cons kw kws)
  then have k: "keyword kw" "to_ascii_lowercase kw = kw" by (simp_all add: keyword_def)
  have "extract_kw kw (to_ascii_lowercase (n3_doc bs tail)) (n3_doc bs tail) 0 =
      map_option (\<lambda>(h, b). ''{'' @ b @ ''}'') (find (\<lambda>(h, b). headed kw h) bs)"
    using extract_kw_doc [OF k(1) refl _ assms(1), of 0 "n3_doc bs tail"] by simp
  then show ?case using Cons k by (auto split: option.splits)
qed simp

definition insert_keywords :: "string list" where
  "insert_keywords = [''insert'', ''inserts'', ''solid:inserts'']"

definition delete_keywords :: "string list" where
  "delete_keywords = [''delete'', ''deletes'', ''solid:deletes'']"

definition where_keywords :: "string list" where
  "where_keywords = [''where'', ''solid:where'']"

lemma patch_keywords:
  "list_all keyword insert_keywords" "list_all keyword delete_keywords" "list_all keyword where_keywords"
  by code_simp+

lemma split_on_snoc: "split_on c (s @ [c]) = split_on c s @ [[]]"
  by (induction s) (auto split: list.splits)

lemma last_split_on: "s \<noteq> [] \<Longrightarrow> last s \<noteq> c \<Longrightarrow> last (split_on c s) \<noteq> [] \<and> last (last (split_on c s)) = last s"
proof (induction s)
  case (Cons x s)
  show ?case
  proof (cases "s = []")
    case False
    then have "last (split_on c s) \<noteq> [] \<and> last (last (split_on c s)) = last s"
      using Cons by simp
    then show ?thesis using False by (cases "split_on c s") auto
  qed (use Cons in simp)
qed simp

lemma str_lines_final_newline:
  assumes "s \<noteq> []" "last s \<noteq> CHR 0x0A" "last s \<noteq> CHR 0x0D"
  shows "str_lines (s @ [CHR 0x0A]) = str_lines s"
proof -
  let ?ps = "split_on (CHR 0x0A) s"
  have l: "last ?ps \<noteq> []" "last (last ?ps) = last s" using last_split_on [OF assms(1,2)] by auto
  then have "strip_cr (last ?ps) = last ?ps"
    using assms(3) by (cases "strip_suffix [CHR 0x0D] (last ?ps)") (auto simp: strip_cr_def strip_suffix_Some_iff)
  moreover have "map strip_cr ?ps = map strip_cr (butlast ?ps) @ [strip_cr (last ?ps)]"
    by (metis append_butlast_last_id list.simps(8,9) map_append split_on_not_Nil)
  ultimately show ?thesis using l(1) by (simp add: str_lines_def split_on_snoc Let_def)
qed

lemma to_ntriples_shape:
  assumes "finite g" "\<forall>t \<in> g. nt_triple t" "g \<noteq> {}"
  obtains s where "to_ntriples g = s @ [CHR 0x0A]" "s \<noteq> []" "last s = CHR ''.''" "plain (hd s)"
proof -
  obtain t ts where ts: "sorted_list_of_set g = t # ts"
    using assms(1,3) by (meson sorted_list_of_set_eq_Nil_iff neq_Nil_conv)
  then have t: "nt_triple t" using assms(1,2) by (metis list.set_intros(1) set_sorted_list_of_set)
  have "\<exists>s. concat (map write_triple ts') = s @ [CHR 0x0A] \<and> s \<noteq> [] \<and> last s = CHR ''.''"
    if "ts' \<noteq> []" for ts' :: "Triple list"
    using that
  proof (induction ts' rule: rev_induct)
    case (snoc u us)
    show ?case
      by (rule exI [of _ "concat (map write_triple us) @ triple_text u @ '' .''"])
        (simp add: write_triple_def [of u] triple_text_def)
  qed simp
  from this [of "t # ts"] obtain s where s: "to_ntriples g = s @ [CHR 0x0A]" "s \<noteq> []" "last s = CHR ''.''"
    unfolding to_ntriples_def ts by blast
  have "hd s = hd (to_ntriples g)" using s by (simp add: hd_append)
  also have "\<dots> = hd (triple_text t)"
    using triple_text_ends(1) [OF t] by (simp add: to_ntriples_def ts write_triple_def triple_text_def hd_append)
  finally show thesis using that s triple_text_ends(2) [OF t] by metis
qed

lemma strip_braces_block: "strip_braces (''{'' @ b @ ''}'') = trim b"
proof -
  have "trim (''{'' @ b @ ''}'') = ''{'' @ b @ ''}''"
    by (intro trim_id) (simp_all add: plain_def ascii_ws_def)
  then show ?thesis using strip_suffix_append [of "''}''" b] by (simp add: strip_braces_def Let_def)
qed

lemma parse_block_text:
  assumes "finite g" "\<forall>t \<in> g. nt_triple t"
  shows "parse_ntriples (strip_braces (''{'' @ (CHR 0x0A # to_ntriples g) @ ''}'')) = Inr g"
proof (cases "g = {}")
  case True
  then show ?thesis
    by (simp only: strip_braces_block) (simp add: to_ntriples_def trim_def ascii_ws_def parse_ntriples_def str_lines_def)
next
  case False
  obtain s where s: "to_ntriples g = s @ [CHR 0x0A]" "s \<noteq> []" "last s = CHR ''.''" "plain (hd s)"
    using to_ntriples_shape [OF assms False] .
  have "trim_end (s @ [CHR 0x0A]) = s"
    using s trim_end_ws [of "CHR 0x0A" s] trim_end_plain_last [of s] by (simp add: ascii_ws_def plain_def)
  then have "trim (CHR 0x0A # s @ [CHR 0x0A]) = s"
    using s by (cases s) (simp_all add: trim_def ascii_ws_def)
  then have "strip_braces (''{'' @ (CHR 0x0A # to_ntriples g) @ ''}'') = s"
    unfolding strip_braces_block s(1) by simp
  moreover have "parse_ntriples s = parse_ntriples (to_ntriples g)"
    using str_lines_final_newline [of s] s by (simp add: parse_ntriples_def)
  moreover have "parse_ntriples (to_ntriples g) = Inr g"
    using parse_nt_lines_write [of "sorted_list_of_set g" 0 "{}"] assms
    by (simp add: parse_ntriples_def to_ntriples_def)
  ultimately show ?thesis by simp
qed

lemma length_filter_sorted: "finite d \<Longrightarrow> length (filter P (sorted_list_of_set d)) = card {t \<in> d. P t}"
  by (metis (no_types, lifting) distinct_card distinct_filter distinct_sorted_list_of_set set_filter
      set_sorted_list_of_set Collect_cong)

section \<open>Properties\<close>

text \<open>The graph of a block; without a block it is empty.\<close>

definition block_graph :: "string option \<Rightarrow> PodError + Graph" where
  "block_graph sec = (case sec of None \<Rightarrow> Inr {} | Some b \<Rightarrow> parse_ntriples (trim b))"

lemma parse_ntriples_finite: "parse_ntriples s = Inr g \<Longrightarrow> finite g"
proof -
  have "parse_nt_lines i ls g0 = Inr g \<Longrightarrow> finite g0 \<Longrightarrow> finite g" for i ls g0
    by (induction i ls g0 rule: parse_nt_lines.induct) (auto simp: Let_def split: if_splits sum.splits)
  then show "parse_ntriples s = Inr g \<Longrightarrow> finite g" by (simp add: parse_ntriples_def)
qed

lemma block_graph_finite: "block_graph b = Inr g \<Longrightarrow> finite g"
  by (auto simp: block_graph_def intro: parse_ntriples_finite split: option.splits)

lemma parse_block_section: "parse_block (unwrap_or (map_option (\<lambda>b. ''{'' @ b @ ''}'') sec) []) = block_graph sec"
  using strip_braces_block by (cases sec) (simp_all add: parse_block_def block_graph_def)

lemma check_where_section:
  "check_where target (map_option (\<lambda>b. ''{'' @ b @ ''}'') sec) = rbind (block_graph sec) (\<lambda>whr.
     if whr \<subseteq> target then Inr () else Inl (PreconditionFailed ''WHERE clause triple missing: ''))"
proof (cases sec)
  case (Some b)
  have "trim (''{'' @ b @ ''}'') \<noteq> []" by (subst trim_id) (simp_all add: plain_def ascii_ws_def)
  then show ?thesis
    using Some strip_braces_block [of b] parse_ntriples_finite [of "trim b"]
    by (cases "parse_ntriples (trim b)") (auto simp: check_where_def block_graph_def list_ex_iff)
qed (simp add: check_where_def block_graph_def)

text \<open>A graph written into a block is the graph of the block.\<close>

definition patchable :: "Graph \<Rightarrow> bool" where
  "patchable g \<longleftrightarrow> finite g \<and> (\<forall>t \<in> g. nt_triple t) \<and> brace_free (to_ntriples g)"

lemma block_graph_written: "patchable g \<Longrightarrow> block_graph (Some (CHR 0x0A # to_ntriples g)) = Inr g"
  using parse_block_text [of g] strip_braces_block [of "CHR 0x0A # to_ntriples g"]
  by (simp add: patchable_def block_graph_def)


definition ex_patch :: "(string \<times> string) list" where
  "ex_patch = [(''_:p a solid:InsertDeletePatch; solid:where'',
      CHR 0x0A # to_ntriples {ex_triple}),
    ('';solid:inserts'', CHR 0x0A # to_ntriples {Triple (Iri ''s'') (Iri ''p'') (Iri ''o'')}),
    ('';solid:Deletes'', CHR 0x0A # to_ntriples {ex_triple})]"


lemma sp_insert_card:
  "finite (po_graph out) \<Longrightarrow> finite (po_graph (sp_insert x out)) \<and>
   card (po_graph (sp_insert x out)) + po_deleted (sp_insert x out) + po_inserted out =
   card (po_graph out) + po_deleted out + po_inserted (sp_insert x out)"
  by (auto simp: sp_insert_def split: option.splits)

lemma sp_remove_card:
  "finite (po_graph out) \<Longrightarrow> finite (po_graph (sp_remove x out)) \<and>
   card (po_graph (sp_remove x out)) + po_deleted (sp_remove x out) + po_inserted out =
   card (po_graph out) + po_deleted out + po_inserted (sp_remove x out)"
  using card_Suc_Diff1 [of "po_graph out"] by (auto simp: sp_remove_def split: option.splits)

lemma fold_card:
  assumes "\<And>x out. finite (po_graph out) \<Longrightarrow> finite (po_graph (f x out)) \<and>
     card (po_graph (f x out)) + po_deleted (f x out) + po_inserted out =
     card (po_graph out) + po_deleted out + po_inserted (f x out)"
  shows "finite (po_graph out) \<Longrightarrow> finite (po_graph (fold f xs out)) \<and>
     card (po_graph (fold f xs out)) + po_deleted (fold f xs out) + po_inserted out =
     card (po_graph out) + po_deleted out + po_inserted (fold f xs out)"
proof (induction xs arbitrary: out)
  case (Cons x xs)
  have "finite (po_graph (f x out))" using assms [OF Cons.prems] by simp
  then show ?case using Cons.IH [of "f x out"] assms [OF Cons.prems, of x] by simp
qed simp

lemma sparql_ops_card:
  "sparql_ops ops out = Inr out' \<Longrightarrow> finite (po_graph out) \<Longrightarrow>
   finite (po_graph out') \<and>
   card (po_graph out') + po_deleted out' + po_inserted out = card (po_graph out) + po_deleted out + po_inserted out'"
proof (induction ops out rule: sparql_ops.induct)
  case (2 qs ops out)
  have "finite (po_graph (fold (sp_insert \<circ> quad_to_triple) qs out)) \<and>
     card (po_graph (fold (sp_insert \<circ> quad_to_triple) qs out)) +
       po_deleted (fold (sp_insert \<circ> quad_to_triple) qs out) + po_inserted out =
     card (po_graph out) + po_deleted out + po_inserted (fold (sp_insert \<circ> quad_to_triple) qs out)"
    using 2(3) by (intro fold_card) (simp_all add: sp_insert_card)
  then show ?case using 2 by simp
next
  case (3 qs ops out)
  have "finite (po_graph (fold (sp_remove \<circ> ground_quad_to_triple) qs out)) \<and>
     card (po_graph (fold (sp_remove \<circ> ground_quad_to_triple) qs out)) +
       po_deleted (fold (sp_remove \<circ> ground_quad_to_triple) qs out) + po_inserted out =
     card (po_graph out) + po_deleted out + po_inserted (fold (sp_remove \<circ> ground_quad_to_triple) qs out)"
    using 3(3) by (intro fold_card) (simp_all add: sp_remove_card)
  then show ?case using 3 by simp
next
  case (4 ds "is" ops out)
  let ?mid = "fold (sp_remove \<circ> ground_quad_pattern_to_triple) ds out"
  have mid: "finite (po_graph ?mid) \<and> card (po_graph ?mid) + po_deleted ?mid + po_inserted out =
     card (po_graph out) + po_deleted out + po_inserted ?mid"
    using 4(3) by (intro fold_card) (simp_all add: sp_remove_card)
  let ?fin = "fold (sp_insert \<circ> template_triple) is ?mid"
  have "finite (po_graph ?fin) \<and> card (po_graph ?fin) + po_deleted ?fin + po_inserted ?mid =
     card (po_graph ?mid) + po_deleted ?mid + po_inserted ?fin"
    using mid by (intro fold_card) (simp_all add: sp_insert_card)
  then show ?case using 4 mid by simp
qed simp_all

text \<open>The counts a SPARQL update reports are exact: the size of the new graph is the size of the
  old one, plus the insertions reported, minus the deletions reported.\<close>

theorem sparql_patch_counts:
  assumes "apply_sparql_patch sparql_parse target update = Inr out" "finite target"
  shows "card (po_graph out) + po_deleted out = card target + po_inserted out"
  using assms sparql_ops_card by (fastforce simp: apply_sparql_patch_def rbind_Inr_conv)

theorem sparql_patch_counts_witness:
  "card {Triple (Iri ''s'') (Iri ''p'') (Iri ''o'')} + 1 = card {ex_triple} + 1"
proof -
  let ?parse = "\<lambda>_. Some [DeleteData [GroundQuad ''http://a/s'' ''http://a/p''
        (GroundLiteral (SpLiteral [CHR 0x22, CHR 0x0A, CHR ''x''] (Some ''en'') [])) DefaultGraph],
      InsertData [Quad (SubjNamedNode ''s'') ''p'' (TermNamedNode ''o'') DefaultGraph]]"
  have "apply_sparql_patch ?parse {ex_triple} [] =
      Inr \<lparr>po_graph = {Triple (Iri ''s'') (Iri ''p'') (Iri ''o'')}, po_inserted = 1, po_deleted = 1\<rparr>"
    by (simp add: apply_sparql_patch_def ground_quad_to_triple_def quad_to_triple_def mk_triple_def map_subject_def
        map_term_def map_ground_term_def map_literal_def build_literal_def sp_insert_def sp_remove_def ex_triple_def)
  from sparql_patch_counts [OF this] show ?thesis by simp
qed

end
