(* ===== verification/Json_Patch.thy ===== *)
theory Json_Patch
  imports Json Pod_Error "HOL-Library.AList"
begin

text \<open>
  JSON Patch (\<open>ldp.rs\<close>: \<open>apply_json_patch\<close> and its pointer helpers). The document is mutated in
  place, so every operation returns the document it leaves behind beside its \<open>Result\<close>: an error
  does not undo the operations before it. \<open>Value::pointer\<close> and \<open>Value::pointer_mut\<close> belong to
  \<open>serde_json\<close> and are the parameter \<open>jp\<close>: reading at a pointer, and writing through the reference
  at a pointer. What the proofs use of them is the locale \<open>serde_pointer\<close>, the laws of RFC 6901,
  which a direct definition of RFC 6901 lookup meets.
\<close>

section \<open>Model\<close>

record json_pointer =
  jp_get :: "json \<Rightarrow> string \<Rightarrow> json option"
  jp_put :: "json \<Rightarrow> string \<Rightarrow> json \<Rightarrow> json"

definition unescape_token :: "string \<Rightarrow> string" where
  "unescape_token tok = str_replace ''~0'' ''~'' (str_replace ''~1'' ''/'' tok)"

definition split_pointer :: "string \<Rightarrow> string \<times> string" where
  "split_pointer path = (case rfind_char (CHR ''/'') path of
     Some pos \<Rightarrow> (take pos path, unescape_token (drop (Suc pos) path))
   | None \<Rightarrow> ([], path))"

text \<open>\<open>Map::insert\<close> and \<open>Map::remove\<close> on members sorted by key.\<close>

fun obj_insert :: "(string \<times> json) list \<Rightarrow> string \<Rightarrow> json \<Rightarrow> (string \<times> json) list" where
  "obj_insert [] k v = [(k, v)]"
| "obj_insert ((k', v') # m) k v =
     (if k = k' then (k, v) # m
      else if k < k' then (k, v) # (k', v') # m
      else (k', v') # obj_insert m k v)"

definition obj_remove :: "(string \<times> json) list \<Rightarrow> string \<Rightarrow> (string \<times> json) list" where
  "obj_remove m k = filter (\<lambda>(k', _). k' \<noteq> k) m"

definition json_get :: "json \<Rightarrow> string \<Rightarrow> json option" where
  "json_get j k = (case j of JObject m \<Rightarrow> map_of m k | _ \<Rightarrow> None)"

definition as_str :: "json option \<Rightarrow> string option" where
  "as_str j = (case j of Some (JString s) \<Rightarrow> Some s | _ \<Rightarrow> None)"

definition json_pointer_get :: "json_pointer \<Rightarrow> json \<Rightarrow> string \<Rightarrow> json option" where
  "json_pointer_get jp target path = (if path = [] then Some target else jp_get jp target path)"

definition json_pointer_remove :: "json_pointer \<Rightarrow> json \<Rightarrow> string \<Rightarrow> json \<times> (PodError + unit)" where
  "json_pointer_remove jp target path =
     (if path = [] then (target, Inl (Unsupported ''cannot remove root''))
      else (let (parent_path, last_tok) = split_pointer path in
        case jp_get jp target parent_path of
          None \<Rightarrow> (target, Inl (PreconditionFailed (''remove path missing: '' @ path)))
        | Some (JObject m) \<Rightarrow>
            if map_of m last_tok = None then (target, Inl (PreconditionFailed (''remove key missing: '' @ path)))
            else (jp_put jp target parent_path (JObject (obj_remove m last_tok)), Inr ())
        | Some (JArray a) \<Rightarrow>
            (case parse_uint 64 last_tok of
               None \<Rightarrow> (target, Inl (Unsupported (''remove array index not numeric: '' @ last_tok)))
             | Some idx \<Rightarrow>
                 if idx \<ge> length a then (target, Inl (PreconditionFailed (''remove array out of bounds: '' @ show_nat idx)))
                 else (jp_put jp target parent_path (JArray (take idx a @ drop (Suc idx) a)), Inr ()))
        | Some _ \<Rightarrow> (target, Inl (PreconditionFailed (''remove target is not container: '' @ path)))))"

definition json_pointer_set :: "json_pointer \<Rightarrow> json \<Rightarrow> string \<Rightarrow> json \<Rightarrow> bool \<Rightarrow> json \<times> (PodError + unit)" where
  "json_pointer_set jp target path val add_mode =
     (if path = [] then (val, Inr ())
      else (let (parent_path, last_tok) = split_pointer path in
        case jp_get jp target parent_path of
          None \<Rightarrow> (target, Inl (PreconditionFailed (''set parent missing: '' @ path)))
        | Some (JObject m) \<Rightarrow>
            if \<not> add_mode \<and> map_of m last_tok = None
            then (target, Inl (PreconditionFailed (''replace missing key: '' @ path)))
            else (jp_put jp target parent_path (JObject (obj_insert m last_tok val)), Inr ())
        | Some (JArray a) \<Rightarrow>
            if last_tok = ''-'' then (jp_put jp target parent_path (JArray (a @ [val])), Inr ())
            else (case parse_uint 64 last_tok of
               None \<Rightarrow> (target, Inl (Unsupported (''array index not numeric: '' @ last_tok)))
             | Some idx \<Rightarrow>
                 if add_mode then
                   (if idx > length a
                    then (target, Inl (PreconditionFailed (''array add out of bounds: '' @ show_nat idx)))
                    else (jp_put jp target parent_path (JArray (take idx a @ val # drop idx a)), Inr ()))
                 else
                   (if idx \<ge> length a
                    then (target, Inl (PreconditionFailed (''array replace out of bounds: '' @ show_nat idx)))
                    else (jp_put jp target parent_path (JArray (a[idx := val])), Inr ())))
        | Some _ \<Rightarrow> (target, Inl (PreconditionFailed (''set parent not container: '' @ path)))))"

definition json_patch_op :: "json_pointer \<Rightarrow> json \<Rightarrow> json \<Rightarrow> json \<times> (PodError + unit)" where
  "json_patch_op jp target op =
     try_with target (ok_or (as_str (json_get op ''op'')) (Unsupported (''JSON Patch op missing '' @ [CHR 0x27] @ ''op'' @ [CHR 0x27]))) (\<lambda>op_name.
     try_with target (ok_or (as_str (json_get op ''path'')) (Unsupported (''JSON Patch op missing '' @ [CHR 0x27] @ ''path'' @ [CHR 0x27]))) (\<lambda>path.
     if op_name = ''add'' then
       try_with target (ok_or (json_get op ''value'') (Unsupported ''add requires value'')) (\<lambda>val.
         json_pointer_set jp target path val True)
     else if op_name = ''replace'' then
       try_with target (ok_or (json_get op ''value'') (Unsupported ''replace requires value'')) (\<lambda>val.
         json_pointer_set jp target path val False)
     else if op_name = ''remove'' then json_pointer_remove jp target path
     else if op_name = ''test'' then
       try_with target (ok_or (json_get op ''value'') (Unsupported ''test requires value'')) (\<lambda>val.
       try_with target (ok_or (json_pointer_get jp target path) (PreconditionFailed (''test path missing: '' @ path))) (\<lambda>actual.
         if actual \<noteq> val then (target, Inl (PreconditionFailed (''test failed at '' @ path)))
         else (target, Inr ())))
     else if op_name = ''copy'' then
       try_with target (ok_or (as_str (json_get op ''from'')) (Unsupported ''copy requires from'')) (\<lambda>frm.
       try_with target (ok_or (json_pointer_get jp target frm) (PreconditionFailed (''copy from missing: '' @ frm))) (\<lambda>val.
         json_pointer_set jp target path val True))
     else if op_name = ''move'' then
       try_with target (ok_or (as_str (json_get op ''from'')) (Unsupported ''move requires from'')) (\<lambda>frm.
       try_with target (ok_or (json_pointer_get jp target frm) (PreconditionFailed (''move from missing: '' @ frm))) (\<lambda>val.
         and_then (json_pointer_remove jp target frm) (\<lambda>target1 _.
           json_pointer_set jp target1 path val True)))
     else (target, Inl (Unsupported (''unsupported JSON Patch op: '' @ op_name)))))"

fun json_patch_ops :: "json_pointer \<Rightarrow> json \<Rightarrow> json list \<Rightarrow> json \<times> (PodError + unit)" where
  "json_patch_ops jp target [] = (target, Inr ())"
| "json_patch_ops jp target (op # ops) =
     and_then (json_patch_op jp target op) (\<lambda>target1 _. json_patch_ops jp target1 ops)"

definition apply_json_patch :: "json_pointer \<Rightarrow> json \<Rightarrow> json \<Rightarrow> json \<times> (PodError + unit)" where
  "apply_json_patch jp target patch =
     (case patch of
        JArray ops \<Rightarrow> json_patch_ops jp target ops
      | _ \<Rightarrow> (target, Inl (Unsupported ''JSON Patch must be an array'')))"

section \<open>What the code relies on of the pointer functions\<close>

text \<open>RFC 6901: an array index has no sign and no leading zero; a pointer is the lookup of its parent,
  then of its last reference token.\<close>

definition array_index :: "string \<Rightarrow> nat option" where
  "array_index tok =
     (if starts_with ''+'' tok \<or> (starts_with ''0'' tok \<and> length tok \<noteq> 1) then None else parse_uint 64 tok)"

definition json_child :: "json \<Rightarrow> string \<Rightarrow> json option" where
  "json_child j tok =
     (case j of
        JObject m \<Rightarrow> map_of m tok
      | JArray a \<Rightarrow> Option.bind (array_index tok) (\<lambda>i. if i < length a then Some (a ! i) else None)
      | _ \<Rightarrow> None)"

locale serde_pointer =
  fixes jp :: json_pointer
  assumes get_root: "jp_get jp t [] = Some t"
    and get_step: "CHR ''/'' \<notin> set tok \<Longrightarrow>
      jp_get jp t (p @ CHR ''/'' # tok) = Option.bind (jp_get jp t p) (\<lambda>u. json_child u (unescape_token tok))"
    and put_get: "jp_get jp t p = Some u \<Longrightarrow> jp_get jp (jp_put jp t p v) p = Some v"
    and put_put: "jp_get jp t p = Some u \<Longrightarrow> jp_put jp (jp_put jp t p v) p w = jp_put jp t p w"
    and put_same: "jp_get jp t p = Some u \<Longrightarrow> jp_put jp t p u = t"
begin

lemma get_put_child:
  assumes "jp_get jp t p = Some u" "CHR ''/'' \<notin> set tok"
  shows "jp_get jp (jp_put jp t p v) (p @ CHR ''/'' # tok) = json_child v (unescape_token tok)"
  using get_step [OF assms(2)] put_get [OF assms(1)] by simp

end

lemma map_of_obj_insert [simp]: "map_of (obj_insert m k v) = (map_of m)(k \<mapsto> v)"
  by (induction m k v rule: obj_insert.induct) (auto simp: fun_eq_iff)

lemma obj_remove_insert: "map_of m k = None \<Longrightarrow> obj_remove (obj_insert m k v) k = m"
proof (induction m k v rule: obj_insert.induct)
  case (2 k' v' m k v)
  have "filter (\<lambda>(k', _). k' \<noteq> k) m = m"
    using 2(2) by (auto simp: filter_id_conv map_of_eq_None_iff split: if_splits) (metis fst_conv imageI)
  then show ?case using 2 by (auto simp: obj_remove_def split: if_splits)
qed (simp add: obj_remove_def)

lemma split_pointer_eq: "CHR ''/'' \<notin> set tok \<Longrightarrow>
    split_pointer (p @ CHR ''/'' # tok) = (p, unescape_token tok)"
  by (simp add: split_pointer_def rfind_char_split)

lemma json_patch_ops_append:
  "json_patch_ops jp target (xs @ ys) = and_then (json_patch_ops jp target xs) (\<lambda>t _. json_patch_ops jp t ys)"
  by (induction jp target xs rule: json_patch_ops.induct) (auto simp: and_then_def split: sum.splits prod.splits)

section \<open>Effect of an added member\<close>

definition canonical_token :: "string \<Rightarrow> bool" where
  "canonical_token tok \<longleftrightarrow> tok \<noteq> ''-'' \<and> array_index tok = parse_uint 64 tok"

text \<open>Whether adding at the pointer makes a new member or element rather than overwriting one.\<close>

definition adds_new :: "json_pointer \<Rightarrow> json \<Rightarrow> string \<Rightarrow> string \<Rightarrow> bool" where
  "adds_new jp t p tok \<longleftrightarrow>
     (case jp_get jp t p of
        Some (JArray _) \<Rightarrow> True
      | Some (JObject m) \<Rightarrow> map_of m (unescape_token tok) = None
      | _ \<Rightarrow> False)"

context serde_pointer
begin

lemma set_visible:
  assumes tok: "CHR ''/'' \<notin> set tok" "canonical_token (unescape_token tok)"
    and set: "json_pointer_set jp t (p @ CHR ''/'' # tok) v True = (t', Inr ())"
  shows "json_pointer_get jp t' (p @ CHR ''/'' # tok) = Some v"
proof -
  obtain u where u: "jp_get jp t p = Some u"
    using set by (auto simp: json_pointer_set_def split_pointer_eq [OF tok(1)] split: option.splits)
  then show ?thesis
  proof (cases u)
    case (JObject m)
    then have "t' = jp_put jp t p (JObject (obj_insert m (unescape_token tok) v))"
      using set u by (auto simp: json_pointer_set_def split_pointer_eq [OF tok(1)])
    then show ?thesis using get_put_child [OF u tok(1)] by (simp add: json_pointer_get_def json_child_def)
  next
    case (JArray a)
    then obtain i where i: "parse_uint 64 (unescape_token tok) = Some i" "i \<le> length a"
        "t' = jp_put jp t p (JArray (take i a @ v # drop i a))"
      using set u tok(2) by (auto simp: json_pointer_set_def split_pointer_eq [OF tok(1)] canonical_token_def
          split: option.splits if_splits)
    then show ?thesis
      using get_put_child [OF u tok(1)] tok(2)
      by (simp add: json_pointer_get_def json_child_def canonical_token_def nth_append)
  qed (use set u in \<open>auto simp: json_pointer_set_def split_pointer_eq [OF tok(1)]\<close>)
qed

lemma set_remove:
  assumes tok: "CHR ''/'' \<notin> set tok" "canonical_token (unescape_token tok)"
    and set: "json_pointer_set jp t (p @ CHR ''/'' # tok) v True = (t', Inr ())"
    and new: "adds_new jp t p tok"
  shows "json_pointer_remove jp t' (p @ CHR ''/'' # tok) = (t, Inr ())"
proof (cases "jp_get jp t p")
  case (Some u)
  note u = Some
  show ?thesis
  proof (cases u)
    case (JObject m)
    then have "t' = jp_put jp t p (JObject (obj_insert m (unescape_token tok) v))" "map_of m (unescape_token tok) = None"
      using set u new by (auto simp: json_pointer_set_def split_pointer_eq [OF tok(1)] adds_new_def)
    then show ?thesis
      using put_get [OF u] put_put [OF u] put_same [OF u] JObject
      by (simp add: json_pointer_remove_def split_pointer_eq [OF tok(1)] obj_remove_insert)
  next
    case (JArray a)
    then obtain i where "parse_uint 64 (unescape_token tok) = Some i" "i \<le> length a"
        "t' = jp_put jp t p (JArray (take i a @ v # drop i a))"
      using set u tok(2) by (auto simp: json_pointer_set_def split_pointer_eq [OF tok(1)] canonical_token_def
          split: option.splits if_splits)
    then show ?thesis
      using put_get [OF u] put_put [OF u] put_same [OF u] JArray
      by (simp add: json_pointer_remove_def split_pointer_eq [OF tok(1)])
  qed (use new u in \<open>auto simp: adds_new_def\<close>)
qed (use new in \<open>simp add: adds_new_def\<close>)

end

section \<open>RFC 6901 lookup meets the laws\<close>

fun get_tokens :: "json \<Rightarrow> string list \<Rightarrow> json option" where
  "get_tokens t [] = Some t"
| "get_tokens t (k # ks) = Option.bind (json_child t k) (\<lambda>u. get_tokens u ks)"

definition json_put_child :: "json \<Rightarrow> string \<Rightarrow> json \<Rightarrow> json" where
  "json_put_child j tok v =
     (case j of
        JObject m \<Rightarrow> JObject (AList.update tok v m)
      | JArray a \<Rightarrow> (case array_index tok of Some i \<Rightarrow> JArray (a[i := v]) | None \<Rightarrow> j)
      | _ \<Rightarrow> j)"

fun put_tokens :: "json \<Rightarrow> string list \<Rightarrow> json \<Rightarrow> json" where
  "put_tokens t [] v = v"
| "put_tokens t (k # ks) v =
     (case json_child t k of None \<Rightarrow> t | Some u \<Rightarrow> json_put_child t k (put_tokens u ks v))"

definition pointer_tokens :: "string \<Rightarrow> string list option" where
  "pointer_tokens p =
     (case p of [] \<Rightarrow> Some []
      | c # cs \<Rightarrow> if c = CHR ''/'' then Some (map unescape_token (split_on (CHR ''/'') cs)) else None)"

definition rfc_pointer :: json_pointer where
  "rfc_pointer =
     \<lparr>jp_get = (\<lambda>t p. Option.bind (pointer_tokens p) (get_tokens t)),
      jp_put = (\<lambda>t p v. case pointer_tokens p of Some ks \<Rightarrow> put_tokens t ks v | None \<Rightarrow> t)\<rparr>"

lemma child_put_child: "json_child t k = Some u \<Longrightarrow>
    json_child (json_put_child t k v) k = Some v \<and>
    json_put_child (json_put_child t k v) k w = json_put_child t k w \<and> json_put_child t k u = t"
  by (cases t) (auto simp: json_child_def json_put_child_def update_conv' update_triv
      split: Option.bind_splits option.splits if_splits)

lemma get_tokens_append: "get_tokens t (xs @ ys) = Option.bind (get_tokens t xs) (\<lambda>u. get_tokens u ys)"
  by (induction t xs rule: get_tokens.induct) (auto split: Option.bind_splits)

lemma put_tokens_laws: "get_tokens t ks = Some u \<Longrightarrow>
    get_tokens (put_tokens t ks v) ks = Some v \<and>
    put_tokens (put_tokens t ks v) ks w = put_tokens t ks w \<and> put_tokens t ks u = t"
  by (induction t ks rule: get_tokens.induct) (auto simp: child_put_child split: Option.bind_splits)

lemma pointer_tokens_step: "CHR ''/'' \<notin> set tok \<Longrightarrow>
    pointer_tokens (p @ CHR ''/'' # tok) = map_option (\<lambda>ks. ks @ [unescape_token tok]) (pointer_tokens p)"
  by (cases p) (auto simp: pointer_tokens_def split_on_no_sep split_on_last)

interpretation rfc: serde_pointer rfc_pointer
proof unfold_locales
  fix tok p t
  assume "CHR ''/'' \<notin> set tok"
  then show "jp_get rfc_pointer t (p @ CHR ''/'' # tok) =
      Option.bind (jp_get rfc_pointer t p) (\<lambda>u. json_child u (unescape_token tok))"
    by (cases "pointer_tokens p") (simp_all add: rfc_pointer_def pointer_tokens_step get_tokens_append)
qed (auto simp: rfc_pointer_def pointer_tokens_def put_tokens_laws split: Option.bind_splits list.splits if_splits)

section \<open>Properties\<close>

definition add_op :: "string \<Rightarrow> json \<Rightarrow> json" where
  "add_op path v = JObject [(''op'', JString ''add''), (''path'', JString path), (''value'', v)]"

definition test_op :: "string \<Rightarrow> json \<Rightarrow> json" where
  "test_op path v = JObject [(''op'', JString ''test''), (''path'', JString path), (''value'', v)]"

definition remove_op :: "string \<Rightarrow> json" where
  "remove_op path = JObject [(''op'', JString ''remove''), (''path'', JString path)]"

lemma op_steps:
  "json_patch_op jp t (add_op path v) = json_pointer_set jp t path v True"
  "json_pointer_get jp t path = Some v \<Longrightarrow> json_patch_op jp t (test_op path v) = (t, Inr ())"
  "json_patch_op jp t (remove_op path) = json_pointer_remove jp t path"
  by (simp_all add: json_patch_op_def add_op_def test_op_def remove_op_def json_get_def as_str_def)

text \<open>A JSON Patch that adds a value is observable and reversible: when the \<open>add\<close> succeeds, a
  \<open>test\<close> for the value after it succeeds too and changes nothing, and when the \<open>add\<close> made a new
  member or array element, a \<open>remove\<close> after it restores the document exactly.\<close>

theorem json_patch_add_test_remove:
  assumes "serde_pointer jp" "CHR ''/'' \<notin> set tok" "canonical_token (unescape_token tok)"
    and "path = p @ CHR ''/'' # tok"
    and "apply_json_patch jp t (JArray [add_op path v]) = (t', Inr ())"
  shows "apply_json_patch jp t (JArray [add_op path v, test_op path v]) = (t', Inr ()) \<and>
    (adds_new jp t p tok \<longrightarrow> apply_json_patch jp t (JArray [add_op path v, remove_op path]) = (t, Inr ()))"
proof -
  have "json_pointer_set jp t path v True = (t', Inr ())"
    using assms(5) by (cases "json_pointer_set jp t path v True") (auto simp: apply_json_patch_def op_steps and_then_def split: sum.splits)
  then show ?thesis
    using serde_pointer.set_visible [OF assms(1-3)] serde_pointer.set_remove [OF assms(1-3)] assms(4)
    by (simp add: apply_json_patch_def op_steps)
qed

theorem json_patch_add_test_remove_witness:
  "apply_json_patch rfc_pointer (JObject [(''a'', JObject [])])
     (JArray [add_op ''/a/b'' (JBool True), remove_op ''/a/b'']) = (JObject [(''a'', JObject [])], Inr ())"
proof -
  have "canonical_token (unescape_token ''b'')" "adds_new rfc_pointer (JObject [(''a'', JObject [])]) ''/a'' ''b''"
    by code_simp+
  moreover have "apply_json_patch rfc_pointer (JObject [(''a'', JObject [])]) (JArray [add_op ''/a/b'' (JBool True)]) =
      (JObject [(''a'', JObject [(''b'', JBool True)])], Inr ())"
    by code_simp
  ultimately show ?thesis
    using json_patch_add_test_remove [OF rfc.serde_pointer_axioms, of "''b''" "''/a/b''" "''/a''"] by simp
qed

end
