(* ===== verification/Nip98.thy ===== *)
theory Nip98
  imports Pod_Error Json
begin

text \<open>
  NIP-98 authentication (\<open>auth/nip98.rs\<close>) and the fan-out over self-signed proof formats
  (\<open>auth/self_signed.rs\<close>). Base64, JSON, hex, SHA-256 and the Schnorr primitive belong to other
  crates and are the fields of an environment record; the feature \<open>nip98-schnorr\<close> is a flag.

  \<open>to_uppercase\<close> is compared with an HTTP method, which is ASCII, and \<open>to_lowercase\<close> with a
  hexadecimal digest: no non-ASCII character lower-cases to a hexadecimal digit.
\<close>

definition HTTP_AUTH_KIND :: u64 where
  "HTTP_AUTH_KIND = 27235"

definition TIMESTAMP_TOLERANCE :: u64 where
  "TIMESTAMP_TOLERANCE = 60"

definition MAX_EVENT_SIZE :: nat where
  "MAX_EVENT_SIZE = 65536"

definition NOSTR_PREFIX :: string where
  "NOSTR_PREFIX = ''Nostr ''"

record Nip98Event =
  ev_id :: string
  ev_pubkey :: string
  ev_created_at :: u64
  ev_kind :: u64
  ev_tags :: "string list list"
  ev_content :: string
  ev_sig :: string

record Nip98Verified =
  nv_pubkey :: string
  nv_url :: string
  nv_method :: string
  nv_payload_hash :: "string option"
  nv_created_at :: u64

record nip98_env =
  ne_base64_decode :: "string \<Rightarrow> bytes option"
  ne_event_from_slice :: "bytes \<Rightarrow> Nip98Event option"
  ne_json_to_string :: "json \<Rightarrow> string"
  ne_hex_decode :: "string \<Rightarrow> bytes option"
  ne_sha256_hex :: "bytes \<Rightarrow> string"
  ne_key_ok :: "bytes \<Rightarrow> bool"
  ne_sig_ok :: "bytes \<Rightarrow> bool"
  ne_schnorr_verify :: "bytes \<Rightarrow> bytes \<Rightarrow> bytes \<Rightarrow> bool"
  ne_schnorr_feature :: bool

definition abs_diff :: "u64 \<Rightarrow> u64 \<Rightarrow> u64" where
  "abs_diff a b = (if a < b then b - a else a - b)"

definition get_tag :: "Nip98Event \<Rightarrow> string \<Rightarrow> string option" where
  "get_tag event name =
     (case find (\<lambda>t. t \<noteq> [] \<and> hd t = name) (ev_tags event) of
        None \<Rightarrow> None
      | Some t \<Rightarrow> if 1 < length t then Some (t ! 1) else None)"

definition normalize_url :: "string \<Rightarrow> string" where
  "normalize_url u = trim_end_matches (CHR ''/'') u"

definition show_word :: "u64 \<Rightarrow> string" where
  "show_word w = show_nat (unat w)"

definition compute_event_id :: "nip98_env \<Rightarrow> Nip98Event \<Rightarrow> string" where
  "compute_event_id env event =
     ne_sha256_hex env (ne_json_to_string env (JArray
       [JNumber ''0'', JString (ev_pubkey event), JNumber (show_word (ev_created_at event)),
        JNumber (show_word (ev_kind event)), JArray (map (\<lambda>t. JArray (map JString t)) (ev_tags event)),
        JString (ev_content event)]))"

definition verify_schnorr_signature :: "nip98_env \<Rightarrow> Nip98Event \<Rightarrow> PodError + unit" where
  "verify_schnorr_signature env event =
     (if \<not> ne_schnorr_feature env then Inl (Unsupported ''nip98-schnorr feature not enabled'')
      else (let computed_id = compute_event_id env event in
        if to_ascii_lowercase computed_id \<noteq> to_ascii_lowercase (ev_id event) then
          Inl (Nip98 (''event id mismatch: computed='' @ computed_id @ '', claimed='' @ ev_id event))
        else
          rbind (ok_or (ne_hex_decode env (ev_pubkey event)) (Nip98 ''pubkey hex decode: '')) (\<lambda>pub_bytes.
          rbind (ok_or (ne_hex_decode env (ev_sig event)) (Nip98 ''sig hex decode: '')) (\<lambda>sig_bytes.
          if length sig_bytes \<noteq> 64 then Inl (Nip98 (''sig wrong length: '' @ show_nat (length sig_bytes)))
          else rbind (ok_or (ne_hex_decode env computed_id) (Nip98 ''id hex decode: '')) (\<lambda>id_bytes.
            if \<not> ne_key_ok env pub_bytes then Inl (Nip98 ''pubkey parse: '')
            else if \<not> ne_sig_ok env sig_bytes then Inl (Nip98 ''sig parse: '')
            else if \<not> ne_schnorr_verify env pub_bytes id_bytes sig_bytes then Inl (Nip98 ''schnorr verify: '')
            else Inr ())))))"

definition check_payload :: "nip98_env \<Rightarrow> string option \<Rightarrow> bytes option \<Rightarrow> PodError + string option" where
  "check_payload env payload_tag body =
     (if body \<noteq> None \<and> body \<noteq> Some [] then
        rbind (ok_or payload_tag (Nip98 ''body provided but no payload tag'')) (\<lambda>expected.
          if to_ascii_lowercase expected \<noteq> to_ascii_lowercase (ne_sha256_hex env (the body))
          then Inl (Nip98 ''payload hash mismatch'')
          else Inr (Some expected))
      else Inr payload_tag)"

definition verify_event ::
    "nip98_env \<Rightarrow> Nip98Event \<Rightarrow> string \<Rightarrow> string \<Rightarrow> bytes option \<Rightarrow> u64 \<Rightarrow> PodError + Nip98Verified" where
  "verify_event env event expected_url expected_method body now =
     (if ev_kind event \<noteq> HTTP_AUTH_KIND then
        Inl (Nip98 (''wrong kind: expected '' @ show_word HTTP_AUTH_KIND @ '', got '' @ show_word (ev_kind event)))
      else if length (ev_pubkey event) \<noteq> 64 \<or> ne_hex_decode env (ev_pubkey event) = None then
        Inl (Nip98 ''invalid pubkey'')
      else if abs_diff now (ev_created_at event) > TIMESTAMP_TOLERANCE then
        Inl (Nip98 (''timestamp outside tolerance: event='' @ show_word (ev_created_at event) @ '', now='' @ show_word now))
      else
        rbind (ok_or (get_tag event ''u'') (Nip98 (''missing '' @ [CHR 0x27] @ ''u'' @ [CHR 0x27] @ '' tag''))) (\<lambda>token_url.
        if normalize_url token_url \<noteq> normalize_url expected_url then
          Inl (Nip98 (''URL mismatch: token='' @ token_url @ '', expected='' @ expected_url))
        else
          rbind (ok_or (get_tag event ''method'') (Nip98 (''missing '' @ [CHR 0x27] @ ''method'' @ [CHR 0x27] @ '' tag'')))
            (\<lambda>token_method.
          if to_uppercase token_method \<noteq> to_uppercase expected_method then
            Inl (Nip98 (''method mismatch: token='' @ token_method @ '', expected='' @ expected_method))
          else
            rbind (check_payload env (get_tag event ''payload'') body) (\<lambda>verified_payload_hash.
            rbind (if ne_schnorr_feature env then verify_schnorr_signature env event else Inr ()) (\<lambda>_.
              Inr \<lparr>nv_pubkey = ev_pubkey event, nv_url = token_url, nv_method = token_method,
                   nv_payload_hash = verified_payload_hash, nv_created_at = ev_created_at event\<rparr>)))))"

definition verify_at ::
    "nip98_env \<Rightarrow> string \<Rightarrow> string \<Rightarrow> string \<Rightarrow> bytes option \<Rightarrow> u64 \<Rightarrow> PodError + Nip98Verified" where
  "verify_at env hdr expected_url expected_method body now =
     rbind (ok_or (strip_prefix NOSTR_PREFIX hdr)
              (Nip98 (''missing '' @ [CHR 0x27] @ ''Nostr '' @ [CHR 0x27] @ '' prefix''))) (\<lambda>token0.
     let token = trim token0 in
     if length token > MAX_EVENT_SIZE then Inl (Nip98 ''token too large'')
     else rbind (ok_or (ne_base64_decode env token) (Base64 [])) (\<lambda>json_bytes.
       if length json_bytes > MAX_EVENT_SIZE then Inl (Nip98 ''decoded token too large'')
       else rbind (ok_or (ne_event_from_slice env json_bytes) (Json [])) (\<lambda>event.
         verify_event env event expected_url expected_method body now)))"

definition nip98_verify ::
    "nip98_env \<Rightarrow> u64 \<Rightarrow> string \<Rightarrow> string \<Rightarrow> string \<Rightarrow> bytes option \<Rightarrow> PodError + string" where
  "nip98_verify env now hdr url meth body_hash = map_sum id nv_pubkey (verify_at env hdr url meth body_hash now)"

definition authorization_header :: "string \<Rightarrow> string" where
  "authorization_header token_b64 = NOSTR_PREFIX @ token_b64"

section \<open>Self-signed proofs\<close>

record ProofEnvelope =
  pe_proof :: string
  pe_method :: string
  pe_uri :: string
  pe_now_unix :: u64
  pe_expected_subject_hint :: "string option"

record VerifiedSubject =
  vs_did :: string
  vs_verification_method :: string

datatype SelfSignedError =
    Malformed string
  | ScopeMismatch string
  | InvalidSignature string
  | OutOfTimeWindow string
  | UnrecognisedFormat
  | OtherError string

record SelfSignedVerifier =
  sv_verify :: "ProofEnvelope \<Rightarrow> SelfSignedError + VerifiedSubject option"
  sv_name :: string

definition nip98_verifier_verify :: "nip98_env \<Rightarrow> ProofEnvelope \<Rightarrow> SelfSignedError + VerifiedSubject option" where
  "nip98_verifier_verify env envelope =
     (let looks_like_header = starts_with NOSTR_PREFIX (pe_proof envelope);
          hdr = (if looks_like_header then pe_proof envelope else NOSTR_PREFIX @ pe_proof envelope) in
      case verify_at env hdr (pe_uri envelope) (pe_method envelope) None (pe_now_unix envelope) of
        Inr v \<Rightarrow> Inr (Some \<lparr>vs_did = ''urn:nip98:'' @ nv_pubkey v,
                            vs_verification_method = ''urn:nip98:'' @ nv_pubkey v @ ''#key-0''\<rparr>)
      | Inl e \<Rightarrow>
          if \<not> looks_like_header then Inr None
          else (case e of
             Nip98 msg \<Rightarrow>
               if contains_sub ''timestamp'' msg then Inl (OutOfTimeWindow msg)
               else if contains_sub ''URL mismatch'' msg \<or> contains_sub ''method mismatch'' msg
                 then Inl (ScopeMismatch msg)
               else if contains_sub ''schnorr'' msg \<or> contains_sub ''id mismatch'' msg
                 then Inl (InvalidSignature msg)
               else Inl (Malformed msg)
           | _ \<Rightarrow> Inl (Malformed [])))"

definition Nip98Verifier :: "nip98_env \<Rightarrow> SelfSignedVerifier" where
  "Nip98Verifier env = \<lparr>sv_verify = nip98_verifier_verify env, sv_name = ''nip98''\<rparr>"

record CidVerifier =
  cv_inner :: "SelfSignedVerifier list"

definition CidVerifier_new :: CidVerifier where
  "CidVerifier_new = \<lparr>cv_inner = []\<rparr>"

definition cid_with :: "CidVerifier \<Rightarrow> SelfSignedVerifier \<Rightarrow> CidVerifier" where
  "cid_with c v = c\<lparr>cv_inner := cv_inner c @ [v]\<rparr>"

definition cid_registered :: "CidVerifier \<Rightarrow> string list" where
  "cid_registered c = map sv_name (cv_inner c)"

fun cid_loop :: "SelfSignedVerifier list \<Rightarrow> ProofEnvelope \<Rightarrow> SelfSignedError + VerifiedSubject option" where
  "cid_loop [] envelope = Inl UnrecognisedFormat"
| "cid_loop (v # vs) envelope = (case sv_verify v envelope of
     Inr (Some subj) \<Rightarrow> Inr (Some subj)
   | Inr None \<Rightarrow> cid_loop vs envelope
   | Inl UnrecognisedFormat \<Rightarrow> cid_loop vs envelope
   | Inl e \<Rightarrow> Inl e)"

definition cid_verify :: "CidVerifier \<Rightarrow> ProofEnvelope \<Rightarrow> SelfSignedError + VerifiedSubject option" where
  "cid_verify c envelope =
     (if cv_inner c = [] then Inl UnrecognisedFormat else cid_loop (cv_inner c) envelope)"

section \<open>Lemmas\<close>

text \<open>The event a header carries: the JSON of its base64 payload.\<close>

definition token_event :: "nip98_env \<Rightarrow> string \<Rightarrow> Nip98Event \<Rightarrow> bool" where
  "token_event env hdr ev \<longleftrightarrow>
     (\<exists>token bs. hdr = NOSTR_PREFIX @ token \<and> length (trim token) \<le> MAX_EVENT_SIZE \<and>
        ne_base64_decode env (trim token) = Some bs \<and> length bs \<le> MAX_EVENT_SIZE \<and>
        ne_event_from_slice env bs = Some ev)"

lemma verify_at_event:
  "verify_at env hdr url meth body now = Inr v \<Longrightarrow>
   \<exists>ev. token_event env hdr ev \<and> verify_event env ev url meth body now = Inr v"
  by (auto simp: verify_at_def token_event_def rbind_Inr_conv ok_or_def Let_def strip_prefix_Some_iff
      split: if_splits option.splits)

lemma verify_event_Inr:
  "verify_event env ev url meth body now = Inr v \<Longrightarrow>
   ev_kind ev = HTTP_AUTH_KIND \<and> length (ev_pubkey ev) = 64 \<and> abs_diff now (ev_created_at ev) \<le> TIMESTAMP_TOLERANCE \<and>
   get_tag ev ''u'' = Some (nv_url v) \<and> normalize_url (nv_url v) = normalize_url url \<and>
   get_tag ev ''method'' = Some (nv_method v) \<and> to_uppercase (nv_method v) = to_uppercase meth \<and>
   check_payload env (get_tag ev ''payload'') body = Inr (nv_payload_hash v) \<and>
   (ne_schnorr_feature env \<longrightarrow> verify_schnorr_signature env ev = Inr ()) \<and>
   nv_pubkey v = ev_pubkey ev \<and> nv_created_at v = ev_created_at ev"
  by (auto simp: verify_event_def rbind_Inr_conv ok_or_def Let_def split: if_splits option.splits)

lemma abs_diff_window: "abs_diff now c \<le> TIMESTAMP_TOLERANCE \<longleftrightarrow>
    unat now \<le> unat c + 60 \<and> unat c \<le> unat now + 60"
proof (cases "now < c")
  case True
  then have "unat (c - now) = unat c - unat now" by (simp add: unat_sub)
  moreover have "unat now < unat c" using True by (simp add: word_less_nat_alt)
  ultimately show ?thesis
    using True by (auto simp: abs_diff_def TIMESTAMP_TOLERANCE_def word_le_nat_alt)
next
  case False
  then have "unat (now - c) = unat now - unat c" by (simp add: unat_sub)
  moreover have "unat c \<le> unat now" using False by (simp add: word_less_nat_alt)
  ultimately show ?thesis
    using False by (auto simp: abs_diff_def TIMESTAMP_TOLERANCE_def word_le_nat_alt)
qed

lemma check_payload_body: "check_payload env tag (Some b) = Inr r \<Longrightarrow> b \<noteq> [] \<Longrightarrow>
    \<exists>h. tag = Some h \<and> to_ascii_lowercase h = to_ascii_lowercase (ne_sha256_hex env b)"
  by (cases tag) (auto simp: check_payload_def split: if_splits)

section \<open>Properties\<close>

text \<open>C14: A verified NIP-98 token is bound to the request: the signed event is of the HTTP-auth kind,
  was created within a minute of now on either side, names the request's URL up to trailing
  slashes and its method up to case, and, when a body is checked, carries that body's digest.\<close>

theorem nip98_binds_request:
  assumes "verify_at env hdr url meth body now = Inr v"
  shows "\<exists>ev. token_event env hdr ev \<and> ev_kind ev = 27235 \<and> nv_pubkey v = ev_pubkey ev \<and> length (nv_pubkey v) = 64 \<and>
    unat now \<le> unat (ev_created_at ev) + 60 \<and> unat (ev_created_at ev) \<le> unat now + 60 \<and>
    (\<exists>u. get_tag ev ''u'' = Some u \<and> normalize_url u = normalize_url url) \<and>
    (\<exists>m. get_tag ev ''method'' = Some m \<and> to_uppercase m = to_uppercase meth) \<and>
    (\<forall>b. body = Some b \<longrightarrow> b \<noteq> [] \<longrightarrow> (\<exists>h. get_tag ev ''payload'' = Some h \<and>
       to_ascii_lowercase h = to_ascii_lowercase (ne_sha256_hex env b)))"
proof -
  obtain ev where tk: "token_event env hdr ev" and ev: "verify_event env ev url meth body now = Inr v"
    using verify_at_event [OF assms] by blast
  have "\<exists>h. get_tag ev ''payload'' = Some h \<and> to_ascii_lowercase h = to_ascii_lowercase (ne_sha256_hex env b)"
    if "body = Some b" "b \<noteq> []" for b
    using verify_event_Inr [OF ev] check_payload_body [of env _ b] that by blast
  then show ?thesis
    using tk verify_event_Inr [OF ev] abs_diff_window [of now "ev_created_at ev"]
    by (intro exI [of _ ev]) (auto simp: HTTP_AUTH_KIND_def)
qed

definition ex_event :: Nip98Event where
  "ex_event = \<lparr>ev_id = [], ev_pubkey = replicate 64 (CHR ''a''), ev_created_at = 100, ev_kind = 27235,
     ev_tags = [[''u'', ''http://h/''], [''method'', ''put'']], ev_content = [], ev_sig = []\<rparr>"

definition ex_nip98_env :: nip98_env where
  "ex_nip98_env = \<lparr>ne_base64_decode = Some, ne_event_from_slice = (\<lambda>_. Some ex_event), ne_json_to_string = (\<lambda>_. []),
     ne_hex_decode = Some, ne_sha256_hex = id, ne_key_ok = (\<lambda>_. True), ne_sig_ok = (\<lambda>_. True),
     ne_schnorr_verify = (\<lambda>_ _ _. True), ne_schnorr_feature = False\<rparr>"

lemma ex_nip98_verifies:
  "verify_at ex_nip98_env ''Nostr x'' ''http://h'' ''PUT'' None 130 =
     Inr \<lparr>nv_pubkey = replicate 64 (CHR ''a''), nv_url = ''http://h/'', nv_method = ''put'',
          nv_payload_hash = None, nv_created_at = 100\<rparr>"
proof -
  have "to_uppercase ''put'' = to_uppercase ''PUT''" "normalize_url ''http://h/'' = normalize_url ''http://h''"
    "trim ''x'' = ''x''" by code_simp+
  then show ?thesis
    by (simp add: verify_at_def verify_event_def ex_nip98_env_def ex_event_def NOSTR_PREFIX_def MAX_EVENT_SIZE_def
        HTTP_AUTH_KIND_def TIMESTAMP_TOLERANCE_def abs_diff_def get_tag_def check_payload_def)
qed

theorem nip98_binds_request_witness:
  "\<exists>ev m. ev_kind ev = 27235 \<and> unat (ev_created_at ev) \<le> unat (130 :: u64) + 60 \<and>
     get_tag ev ''method'' = Some m \<and> to_uppercase m = to_uppercase ''PUT''"
  using nip98_binds_request [OF ex_nip98_verifies] by blast

text \<open>C15: With the Schnorr feature compiled in, a token verifies only if its event identifier is the
  NIP-01 digest of the event and the signature over it checks against the public key.\<close>

theorem nip98_signature_checked:
  assumes "verify_at env hdr url meth body now = Inr v" "ne_schnorr_feature env"
  shows "\<exists>ev pk sig idb. token_event env hdr ev \<and> nv_pubkey v = ev_pubkey ev \<and>
    to_ascii_lowercase (compute_event_id env ev) = to_ascii_lowercase (ev_id ev) \<and>
    ne_hex_decode env (ev_pubkey ev) = Some pk \<and> ne_hex_decode env (ev_sig ev) = Some sig \<and> length sig = 64 \<and>
    ne_hex_decode env (compute_event_id env ev) = Some idb \<and> ne_schnorr_verify env pk idb sig"
proof -
  obtain ev where tk: "token_event env hdr ev" and ev: "verify_event env ev url meth body now = Inr v"
    using verify_at_event [OF assms(1)] by blast
  then have "verify_schnorr_signature env ev = Inr ()" "nv_pubkey v = ev_pubkey ev"
    using verify_event_Inr [OF ev] assms(2) by auto
  with tk show ?thesis
    by (auto simp: verify_schnorr_signature_def rbind_Inr_conv ok_or_def Let_def split: if_splits option.splits)
qed

definition ex_schnorr_env :: nip98_env where
  "ex_schnorr_env = ex_nip98_env\<lparr>ne_schnorr_feature := True, ne_sha256_hex := (\<lambda>_. []),
     ne_hex_decode := (\<lambda>s. Some (if s = [] then replicate 64 (CHR 0x00) else s))\<rparr>"

theorem nip98_signature_checked_witness:
  "\<exists>ev. ev_pubkey ev = replicate 64 (CHR ''a'') \<and> to_ascii_lowercase (compute_event_id ex_schnorr_env ev) = to_ascii_lowercase (ev_id ev)"
proof -
  have "to_uppercase ''put'' = to_uppercase ''PUT''" "normalize_url ''http://h/'' = normalize_url ''http://h''"
    "trim ''x'' = ''x''" by code_simp+
  then have "verify_at ex_schnorr_env ''Nostr x'' ''http://h'' ''PUT'' None 130 =
     Inr \<lparr>nv_pubkey = replicate 64 (CHR ''a''), nv_url = ''http://h/'', nv_method = ''put'',
          nv_payload_hash = None, nv_created_at = 100\<rparr>"
    by (simp add: verify_at_def verify_event_def ex_schnorr_env_def ex_nip98_env_def ex_event_def NOSTR_PREFIX_def
        MAX_EVENT_SIZE_def HTTP_AUTH_KIND_def TIMESTAMP_TOLERANCE_def abs_diff_def get_tag_def check_payload_def
        verify_schnorr_signature_def compute_event_id_def Let_def)
  moreover have "ne_schnorr_feature ex_schnorr_env" by (simp add: ex_schnorr_env_def)
  ultimately obtain ev where "replicate 64 (CHR ''a'') = ev_pubkey ev"
    "to_ascii_lowercase (compute_event_id ex_schnorr_env ev) = to_ascii_lowercase (ev_id ev)"
    using nip98_signature_checked by (metis Nip98Verified.select_convs(1))
  then show ?thesis by (intro exI [of _ ev]) simp
qed

text \<open>The verifier fan-out returns a subject only from a verifier that accepted the proof, and only
  after every verifier registered before it passed the proof on.\<close>

theorem cid_verify_first_match:
  assumes "cid_verify c envelope = Inr r"
  shows "\<exists>pre v post subj. cv_inner c = pre @ v # post \<and> r = Some subj \<and> sv_verify v envelope = Inr (Some subj) \<and>
    list_all (\<lambda>u. sv_verify u envelope \<in> {Inr None, Inl UnrecognisedFormat}) pre"
proof -
  have "cid_loop vs envelope = Inr r \<Longrightarrow> \<exists>pre v post subj. vs = pre @ v # post \<and> r = Some subj \<and>
      sv_verify v envelope = Inr (Some subj) \<and>
      list_all (\<lambda>u. sv_verify u envelope \<in> {Inr None, Inl UnrecognisedFormat}) pre" for vs
  proof (induction vs)
    case (Cons v vs)
    consider subj where "sv_verify v envelope = Inr (Some subj)"
      | "sv_verify v envelope \<in> {Inr None, Inl UnrecognisedFormat}" "cid_loop vs envelope = Inr r"
      using Cons.prems by (auto split: sum.splits option.splits SelfSignedError.splits)
    then show ?case
    proof cases
      case (1 subj)
      then show ?thesis using Cons.prems by (intro exI [of _ "[]"]) auto
    next
      case 2
      then obtain pre w post subj where *: "vs = pre @ w # post" "r = Some subj" "sv_verify w envelope = Inr (Some subj)"
        "list_all (\<lambda>u. sv_verify u envelope \<in> {Inr None, Inl UnrecognisedFormat}) pre" using Cons.IH by blast
      then have "v # vs = (v # pre) @ w # post" "list_all (\<lambda>u. sv_verify u envelope \<in> {Inr None, Inl UnrecognisedFormat}) (v # pre)"
        using 2(1) by simp_all
      with * show ?thesis by blast
    qed
  qed simp
  then show ?thesis using assms by (auto simp: cid_verify_def split: if_splits)
qed

theorem cid_verify_first_match_witness:
  "\<exists>pre v post subj. cv_inner (cid_with CidVerifier_new (Nip98Verifier ex_nip98_env)) = pre @ v # post \<and>
     vs_did subj = ''urn:nip98:'' @ replicate 64 (CHR ''a'')"
proof -
  have "starts_with NOSTR_PREFIX ''Nostr x''" by (simp add: NOSTR_PREFIX_def)
  then have "cid_verify (cid_with CidVerifier_new (Nip98Verifier ex_nip98_env))
      \<lparr>pe_proof = ''Nostr x'', pe_method = ''PUT'', pe_uri = ''http://h'', pe_now_unix = 130, pe_expected_subject_hint = None\<rparr> =
      Inr (Some \<lparr>vs_did = ''urn:nip98:'' @ replicate 64 (CHR ''a''),
        vs_verification_method = ''urn:nip98:'' @ replicate 64 (CHR ''a'') @ ''#key-0''\<rparr>)"
    using ex_nip98_verifies
    by (simp add: cid_verify_def cid_with_def CidVerifier_new_def Nip98Verifier_def nip98_verifier_verify_def)
  from cid_verify_first_match [OF this] show ?thesis by (metis VerifiedSubject.select_convs(1) option.inject)
qed

end
