(* ===== verification/Dotfile.thy ===== *)
theory Dotfile
  imports Prelude
begin

text \<open>
  The dotfile filter (\<open>security/dotfile.rs\<close>): the configurable allowlist that the server's
  middleware consults, with its environment loader, and the free function with the static list.
  A path is walked as \<open>std::path::Path::components\<close> does on Unix: empty segments vanish, a \<open>.\<close>
  segment is a component only at the very start of a relative path, and \<open>..\<close> is always one.
  The deny counter of the metrics sink is the \<open>u64\<close> field \<open>df_denied\<close> (\<open>None\<close> without a sink);
  it wraps as the atomic addition does.
\<close>

section \<open>Model\<close>

definition DEFAULT_ALLOWED :: "string list" where
  "DEFAULT_ALLOWED = [''.acl'', ''.meta'', ''.account'']"

record DotfileAllowlist =
  df_allowed :: "string list"
  df_denied :: "u64 option"

definition normalise_entry :: "string \<Rightarrow> string" where
  "normalise_entry entry =
     (let trimmed = trim_start_matches (CHR ''/'') (trim entry) in
      if trimmed = [] then []
      else if starts_with ''.'' trimmed then trimmed
      else ''.'' @ trimmed)"

definition parse_csv :: "string \<Rightarrow> string list" where
  "parse_csv raw =
     filter (\<lambda>s. s \<noteq> [] \<and> s \<noteq> ''.'')
       (map normalise_entry (filter (\<lambda>s. s \<noteq> []) (map trim (split_on (CHR '','') raw))))"

definition with_defaults :: DotfileAllowlist where
  "with_defaults = \<lparr>df_allowed = DEFAULT_ALLOWED, df_denied = None\<rparr>"

definition dotfile_from_env :: "string option \<Rightarrow> DotfileAllowlist" where
  "dotfile_from_env var =
     (case var of
        Some raw \<Rightarrow>
          (let parsed = parse_csv raw in
           if parsed = [] then with_defaults else \<lparr>df_allowed = parsed, df_denied = None\<rparr>)
      | None \<Rightarrow> with_defaults)"

definition DotfileAllowlist_new :: "string list \<Rightarrow> DotfileAllowlist" where
  "DotfileAllowlist_new ents =
     \<lparr>df_allowed = filter (\<lambda>e. e \<noteq> [] \<and> e \<noteq> ''.'') (map normalise_entry ents), df_denied = None\<rparr>"

definition with_metrics :: "DotfileAllowlist \<Rightarrow> u64 \<Rightarrow> DotfileAllowlist" where
  "with_metrics al counter = al\<lparr>df_denied := Some counter\<rparr>"

datatype Component = RootDir | CurDir | ParentDir | Normal string

definition segment_component :: "string \<Rightarrow> Component" where
  "segment_component s = (if s = ''..'' then ParentDir else Normal s)"

text \<open>\<open>Path::components\<close>: interior \<open>.\<close> and empty segments are normalised away.\<close>

definition path_components :: "string \<Rightarrow> Component list" where
  "path_components p =
     (let segs = split_on (CHR ''/'') p;
          lead = (if starts_with ''/'' p then [RootDir] else if hd segs = ''.'' then [CurDir] else []) in
      lead @ map segment_component (filter (\<lambda>s. s \<noteq> [] \<and> s \<noteq> ''.'') segs))"

definition record_deny :: "DotfileAllowlist \<Rightarrow> DotfileAllowlist" where
  "record_deny al = (case df_denied al of Some n \<Rightarrow> al\<lparr>df_denied := Some (n + 1)\<rparr> | None \<Rightarrow> al)"

fun is_allowed_loop :: "DotfileAllowlist \<Rightarrow> Component list \<Rightarrow> DotfileAllowlist \<times> bool" where
  "is_allowed_loop al [] = (al, True)"
| "is_allowed_loop al (Normal s # cs) =
     (if starts_with ''.'' s \<and> \<not> list_ex (\<lambda>a. a = s) (df_allowed al) then (record_deny al, False)
      else is_allowed_loop al cs)"
| "is_allowed_loop al (CurDir # cs) = (record_deny al, False)"
| "is_allowed_loop al (ParentDir # cs) = (record_deny al, False)"
| "is_allowed_loop al (RootDir # cs) = is_allowed_loop al cs"

definition is_allowed :: "DotfileAllowlist \<Rightarrow> string \<Rightarrow> DotfileAllowlist \<times> bool" where
  "is_allowed al path = is_allowed_loop al (path_components path)"

datatype DotfilePathError =
    NotAllowed (seg: string) (seg_path: string)
  | ParentTraversal string
  | Malformed string

definition STATIC_ALLOWED_DOTFILES :: "string list" where
  "STATIC_ALLOWED_DOTFILES = [''.acl'', ''.meta'', ''.well-known'', ''.quota.json'', ''.acl.meta'', ''.account'']"

fun path_allowed_loop :: "string \<Rightarrow> string list \<Rightarrow> DotfilePathError + unit" where
  "path_allowed_loop path [] = Inr ()"
| "path_allowed_loop path (segment # rest) =
     (if segment = [] \<or> segment = ''.'' then path_allowed_loop path rest
      else if segment = ''..'' then Inl (ParentTraversal path)
      else if \<not> starts_with ''.'' segment then path_allowed_loop path rest
      else if List.member STATIC_ALLOWED_DOTFILES segment then path_allowed_loop path rest
      else Inl (NotAllowed segment path))"

definition is_path_allowed :: "string \<Rightarrow> DotfilePathError + unit" where
  "is_path_allowed path = path_allowed_loop path (split_on (CHR ''/'') path)"

section \<open>Lemmas\<close>

text \<open>What a filter promises: a segment that is hidden (starts with a dot) passes only when listed.\<close>

definition hidden :: "string \<Rightarrow> bool" where
  "hidden s \<longleftrightarrow> starts_with ''.'' s \<and> s \<noteq> ''.''"

definition segments_listed :: "string list \<Rightarrow> string \<Rightarrow> bool" where
  "segments_listed allowed p \<longleftrightarrow>
     list_all (\<lambda>s. hidden s \<longrightarrow> s \<noteq> ''..'' \<and> s \<in> set allowed) (split_on (CHR ''/'') p)"

definition dot_relative :: "string \<Rightarrow> bool" where
  "dot_relative p \<longleftrightarrow> \<not> starts_with ''/'' p \<and> hd (split_on (CHR ''/'') p) = ''.''"

lemma segments_listed_iff:
  "segments_listed allowed p \<longleftrightarrow>
     (\<forall>s \<in> set (split_on (CHR ''/'') p). hidden s \<longrightarrow> s \<noteq> ''..'' \<and> s \<in> set allowed)"
  by (simp add: segments_listed_def list_all_iff)

lemma is_allowed_loop_iff:
  "snd (is_allowed_loop al cs) \<longleftrightarrow>
     CurDir \<notin> set cs \<and> ParentDir \<notin> set cs \<and> (\<forall>s. Normal s \<in> set cs \<longrightarrow> starts_with ''.'' s \<longrightarrow> s \<in> set (df_allowed al))"
  by (induction al cs rule: is_allowed_loop.induct) (auto simp: list_ex_iff)

lemma is_allowed_loop_state: "fst (is_allowed_loop al cs) = (if snd (is_allowed_loop al cs) then al else record_deny al)"
  by (induction al cs rule: is_allowed_loop.induct) auto

lemma segment_component_mem:
  "CurDir \<in> set (path_components p) \<longleftrightarrow> \<not> starts_with ''/'' p \<and> hd (split_on (CHR ''/'') p) = ''.''"
  "ParentDir \<in> set (path_components p) \<longleftrightarrow> ''..'' \<in> set (split_on (CHR ''/'') p)"
  "Normal s \<in> set (path_components p) \<longleftrightarrow> s \<in> set (split_on (CHR ''/'') p) \<and> s \<noteq> [] \<and> s \<noteq> ''.'' \<and> s \<noteq> ''..''"
  by (auto simp: path_components_def segment_component_def Let_def image_iff)

lemma path_allowed_loop_iff:
  "path_allowed_loop path segs = Inr () \<longleftrightarrow>
     (\<forall>s \<in> set segs. hidden s \<longrightarrow> s \<noteq> ''..'' \<and> s \<in> set STATIC_ALLOWED_DOTFILES)"
  by (induction segs) (auto simp: hidden_def List.member_iff STATIC_ALLOWED_DOTFILES_def)

lemma path_allowed_loop_error:
  "path_allowed_loop path segs = Inl e \<Longrightarrow>
     (e = ParentTraversal path \<and> ''..'' \<in> set segs) \<or>
     (\<exists>s \<in> set segs. e = NotAllowed s path \<and> hidden s \<and> s \<notin> set STATIC_ALLOWED_DOTFILES)"
  by (induction segs) (auto simp: hidden_def List.member_iff split: if_splits)

lemma normalise_entry_dot: "normalise_entry e = [] \<or> starts_with ''.'' (normalise_entry e)"
  by (simp add: normalise_entry_def Let_def starts_with_iff)

lemma allowlist_entries_hidden:
  "e \<in> set (df_allowed (dotfile_from_env var)) \<Longrightarrow> hidden e"
  "e \<in> set (df_allowed (DotfileAllowlist_new ents)) \<Longrightarrow> hidden e"
  using normalise_entry_dot
  by (fastforce simp: dotfile_from_env_def with_defaults_def DEFAULT_ALLOWED_def parse_csv_def hidden_def
      DotfileAllowlist_new_def Let_def split: option.splits if_splits)+

section \<open>Properties\<close>

text \<open>C26: The allowlist lets a path through exactly when no segment of it is \<open>..\<close>, the path does not
  start at \<open>.\<close>, and every other hidden segment, at any depth, is listed: a \<open>..\<close> never passes, not
  even when the operator lists it. A refusal counts once, and an acceptance changes nothing.\<close>

theorem dotfile_filter_spec:
  "is_allowed al p =
     (if segments_listed (df_allowed al) p \<and> \<not> dot_relative p
      then (al, True)
      else (record_deny al, False))"
proof -
  have "snd (is_allowed al p) \<longleftrightarrow>
      segments_listed (df_allowed al) p \<and> \<not> dot_relative p"
    unfolding is_allowed_def is_allowed_loop_iff segment_component_mem hidden_def segments_listed_iff dot_relative_def
    by (auto simp: starts_with_iff)
  moreover have "fst (is_allowed al p) = (if snd (is_allowed al p) then al else record_deny al)"
    unfolding is_allowed_def by (rule is_allowed_loop_state)
  ultimately show ?thesis
    by (cases "snd (is_allowed al p)") (simp_all add: prod_eq_iff del: de_Morgan_conj)
qed

text \<open>Every path the default allowlist lets through also passes the free function, and a refusal of
  the free function names a segment of the path that is hidden and not listed.\<close>

theorem path_filters_agree:
  "(if segments_listed STATIC_ALLOWED_DOTFILES p then is_path_allowed p = Inr ()
    else is_path_allowed p = Inl (ParentTraversal p) \<and> ''..'' \<in> set (split_on (CHR ''/'') p) \<or>
         (\<exists>s. is_path_allowed p = Inl (NotAllowed s p) \<and> s \<in> set (split_on (CHR ''/'') p) \<and> hidden s \<and>
            s \<notin> set STATIC_ALLOWED_DOTFILES)) \<and>
   (segments_listed DEFAULT_ALLOWED p \<longrightarrow> segments_listed STATIC_ALLOWED_DOTFILES p)"
proof (intro conjI impI)
  assume "segments_listed DEFAULT_ALLOWED p"
  moreover have "set DEFAULT_ALLOWED \<subseteq> set STATIC_ALLOWED_DOTFILES"
    by (simp add: DEFAULT_ALLOWED_def STATIC_ALLOWED_DOTFILES_def)
  ultimately show "segments_listed STATIC_ALLOWED_DOTFILES p" unfolding segments_listed_iff by blast
next
  have iff: "is_path_allowed p = Inr () \<longleftrightarrow> segments_listed STATIC_ALLOWED_DOTFILES p"
    unfolding is_path_allowed_def path_allowed_loop_iff segments_listed_iff ..
  show "if segments_listed STATIC_ALLOWED_DOTFILES p then is_path_allowed p = Inr ()
    else is_path_allowed p = Inl (ParentTraversal p) \<and> ''..'' \<in> set (split_on (CHR ''/'') p) \<or>
         (\<exists>s. is_path_allowed p = Inl (NotAllowed s p) \<and> s \<in> set (split_on (CHR ''/'') p) \<and> hidden s \<and>
            s \<notin> set STATIC_ALLOWED_DOTFILES)"
  proof (cases "is_path_allowed p")
    case (Inl e)
    then show ?thesis
      using iff path_allowed_loop_error [of p "split_on (CHR ''/'') p" e] by (auto simp: is_path_allowed_def)
  next
    case (Inr u)
    then show ?thesis using iff by simp
  qed
qed

theorem path_filters_agree_witness:
  "is_path_allowed ''/pod/.acl'' = Inr () \<and> segments_listed STATIC_ALLOWED_DOTFILES ''/pod/.meta''"
proof -
  have "segments_listed STATIC_ALLOWED_DOTFILES ''/pod/.acl''" "segments_listed DEFAULT_ALLOWED ''/pod/.meta''" by code_simp+
  then show ?thesis using path_filters_agree [of "''/pod/.acl''"] path_filters_agree [of "''/pod/.meta''"] by simp
qed

end
