(* ===== verification/Interop.thy ===== *)
theory Interop
  imports Json Pod_Error
begin

text \<open>
  Discovery documents (\<open>interop.rs\<close>): the Solid well-known document, WebFinger, NIP-05 names, the
  \<open>did:nostr\<close> document and NodeInfo. A struct is a record, and its \<open>Serialize\<close> derivation the JSON
  object with the members in the order of the fields and the skip rules of its attributes; a
  \<open>json!\<close> literal has its members sorted by key. \<open>hex::decode\<close> is a parameter.
\<close>

section \<open>Model\<close>

record SolidWellKnown =
  wk_context :: json
  wk_solid_oidc_issuer :: string
  wk_notification_gateway :: string
  wk_storage :: string
  wk_webfinger :: "string option"

definition well_known_solid :: "string \<Rightarrow> string \<Rightarrow> SolidWellKnown" where
  "well_known_solid pod_base oidc_issuer =
     (let base = trim_end_matches (CHR ''/'') pod_base in
      \<lparr>wk_context = JString ''https://www.w3.org/ns/solid/terms'',
       wk_solid_oidc_issuer = trim_end_matches (CHR ''/'') oidc_issuer,
       wk_notification_gateway = base @ ''/.notifications'',
       wk_storage = base @ ''/'',
       wk_webfinger = Some (base @ ''/.well-known/webfinger'')\<rparr>)"

definition opt_member :: "string \<Rightarrow> string option \<Rightarrow> (string \<times> json) list" where
  "opt_member k v = (case v of None \<Rightarrow> [] | Some s \<Rightarrow> [(k, JString s)])"

definition SolidWellKnown_json :: "SolidWellKnown \<Rightarrow> json" where
  "SolidWellKnown_json d = JObject
     ([(''@context'', wk_context d), (''solid_oidc_issuer'', JString (wk_solid_oidc_issuer d)),
       (''notification_gateway'', JString (wk_notification_gateway d)), (''storage'', JString (wk_storage d))]
      @ opt_member ''webfinger'' (wk_webfinger d))"

record WebFingerLink =
  wl_rel :: string
  wl_href :: "string option"
  wl_content_type :: "string option"

record WebFingerJrd =
  wj_subject :: string
  wj_aliases :: "string list"
  wj_links :: "WebFingerLink list"

definition WebFingerLink_json :: "WebFingerLink \<Rightarrow> json" where
  "WebFingerLink_json l = JObject
     ([(''rel'', JString (wl_rel l))] @ opt_member ''href'' (wl_href l) @ opt_member ''type'' (wl_content_type l))"

definition WebFingerJrd_json :: "WebFingerJrd \<Rightarrow> json" where
  "WebFingerJrd_json j = JObject
     ([(''subject'', JString (wj_subject j))]
      @ (if wj_aliases j = [] then [] else [(''aliases'', JArray (map JString (wj_aliases j)))])
      @ (if wj_links j = [] then [] else [(''links'', JArray (map WebFingerLink_json (wj_links j)))]))"

definition webfinger_response :: "string \<Rightarrow> string \<Rightarrow> string \<Rightarrow> WebFingerJrd option" where
  "webfinger_response resource pod_base webid =
     (if \<not> starts_with ''acct:'' resource \<and> \<not> starts_with ''https://'' resource then None
      else (let base = trim_end_matches (CHR ''/'') pod_base in
        Some \<lparr>wj_subject = resource, wj_aliases = [webid],
          wj_links =
            [\<lparr>wl_rel = ''http://openid.net/specs/connect/1.0/issuer'', wl_href = Some (base @ ''/''), wl_content_type = None\<rparr>,
             \<lparr>wl_rel = ''http://www.w3.org/ns/solid#webid'', wl_href = Some webid, wl_content_type = None\<rparr>,
             \<lparr>wl_rel = ''http://www.w3.org/ns/pim/space#storage'', wl_href = Some (base @ ''/''), wl_content_type = None\<rparr>]\<rparr>))"

record Nip05Document =
  n5_names :: "string \<Rightarrow> string option"
  n5_relays :: "(string \<Rightarrow> string list option) option"

definition verify_nip05 :: "(string \<Rightarrow> bytes option) \<Rightarrow> string \<Rightarrow> Nip05Document \<Rightarrow> PodError + string" where
  "verify_nip05 hex_decode identifier document =
     rbind (ok_or (split_once (CHR ''@'') identifier) (Nip98 (''invalid NIP-05 identifier: '' @ identifier))) (\<lambda>(local, _).
     let lookup = (if local = [] then ''_'' else local) in
     rbind (ok_or (n5_names document lookup) (NotFound (''NIP-05 name not found: '' @ lookup))) (\<lambda>pubkey.
     if length pubkey \<noteq> 64 \<or> hex_decode pubkey = None
     then Inl (Nip98 (''NIP-05 pubkey malformed for '' @ identifier))
     else Inr pubkey))"

definition nip05_document :: "(string \<times> string) list \<Rightarrow> Nip05Document" where
  "nip05_document names = \<lparr>n5_names = map_of (rev names), n5_relays = None\<rparr>"

record DevSession =
  ds_webid :: string
  ds_pubkey :: "string option"
  ds_is_admin :: bool

definition dev_session :: "string \<Rightarrow> bool \<Rightarrow> DevSession" where
  "dev_session webid is_admin = \<lparr>ds_webid = webid, ds_pubkey = None, ds_is_admin = is_admin\<rparr>"

definition did_nostr_well_known_url :: "string \<Rightarrow> string \<Rightarrow> string" where
  "did_nostr_well_known_url origin pubkey =
     trim_end_matches (CHR ''/'') origin @ ''/.well-known/did/nostr/'' @ pubkey @ ''.json''"

definition did_nostr_document :: "string \<Rightarrow> string list \<Rightarrow> json" where
  "did_nostr_document pubkey also_known_as = JObject
     [(''@context'', JArray [JString ''https://www.w3.org/ns/did/v1'']),
      (''alsoKnownAs'', JArray (map JString also_known_as)),
      (''id'', JString (''did:nostr:'' @ pubkey)),
      (''verificationMethod'', JArray [JObject
         [(''controller'', JString (''did:nostr:'' @ pubkey)),
          (''id'', JString (''did:nostr:'' @ pubkey @ ''#nostr-schnorr'')),
          (''publicKeyHex'', JString pubkey),
          (''type'', JString ''NostrSchnorrKey2024'')]])]"

definition nodeinfo_discovery :: "string \<Rightarrow> json" where
  "nodeinfo_discovery base_url = JObject
     [(''links'', JArray [JObject
        [(''href'', JString (trim_end_matches (CHR ''/'') base_url @ ''/.well-known/nodeinfo/2.1'')),
         (''rel'', JString ''http://nodeinfo.diaspora.software/ns/schema/2.1'')]])]"

definition nodeinfo_2_1 :: "string \<Rightarrow> string \<Rightarrow> bool \<Rightarrow> u64 \<Rightarrow> json" where
  "nodeinfo_2_1 software_name software_version open_registrations total_users = JObject
     [(''metadata'', JObject []),
      (''openRegistrations'', JBool open_registrations),
      (''protocols'', JArray [JString ''solid'', JString ''activitypub'']),
      (''services'', JObject [(''inbound'', JArray []), (''outbound'', JArray [])]),
      (''software'', JObject
         [(''homepage'', JString ''https://github.com/dreamlab-ai/solid-pod-rs''),
          (''name'', JString software_name),
          (''repository'', JString ''https://github.com/dreamlab-ai/solid-pod-rs''),
          (''version'', JString software_version)]),
      (''usage'', JObject [(''users'', JObject [(''total'', JNumber (show_nat (unat total_users)))])]),
      (''version'', JString ''2.1'')]"

section \<open>Lemmas\<close>

lemma verify_nip05_Inr_iff:
  "verify_nip05 dec ident doc = Inr pk \<longleftrightarrow>
     (\<exists>l d. split_once (CHR ''@'') ident = Some (l, d) \<and>
        n5_names doc (if l = [] then ''_'' else l) = Some pk \<and> length pk = 64 \<and> dec pk \<noteq> None)"
proof (cases "split_once (CHR ''@'') ident")
  case (Some ld)
  then obtain l d where l: "split_once (CHR ''@'') ident = Some (l, d)" by (cases ld) auto
  define k where "k = (if l = [] then ''_'' else l)"
  have "verify_nip05 dec ident doc = Inr pk \<longleftrightarrow> n5_names doc k = Some pk \<and> length pk = 64 \<and> dec pk \<noteq> None"
    unfolding verify_nip05_def l by (cases "n5_names doc k") (auto simp: k_def [symmetric] split: if_splits)
  then show ?thesis using l by (auto simp: k_def)
qed (simp add: verify_nip05_def)

lemma nip05_roundtrip:
  assumes "distinct (map fst names)" "(n, pk) \<in> set names" "CHR ''@'' \<notin> set n" "n \<noteq> []" "length pk = 64" "dec pk \<noteq> None"
  shows "verify_nip05 dec (n @ ''@'' @ domain) (nip05_document names) = Inr pk"
proof -
  have "map_of (rev names) n = Some pk" using assms(1,2) by (simp add: map_of_eq_Some_iff rev_map [symmetric])
  then show ?thesis using assms(3-6) by (simp add: verify_nip05_Inr_iff nip05_document_def)
qed

end
