(* ===== verification/Server.thy ===== *)
theory Server
  imports Wac_Resolver Ldp_Patch Json_Patch Nip98 Dotfile Interop
begin

text \<open>
  The HTTP server (\<open>solid-pod-rs-server/src/lib.rs\<close>): error translation, NIP-98 authentication,
  WAC enforcement on writes, the LDP handlers, the discovery handlers, the two path guards and the
  dispatch that \<open>build_app\<close> sets up. The pod's storage is a state \<open>'s\<close> behind the trait's operations,
  and every handler returns the storage it leaves beside its \<open>Result\<close>. An \<open>ActixError\<close> is the
  response it renders to. Of the response headers the model has those the source sets.

  Parameters, in \<open>server_env\<close>: the clock, the slug generator, \<open>serde_json\<close>'s reader and writer, the
  SPARQL parser, \<open>http\<close>'s header-value checks, \<open>percent_encoding\<close>'s decoder, and actix's slash
  merging (\<open>NormalizePath\<close> with \<open>MergeOnly\<close>).
\<close>

section \<open>Requests, responses and the environment\<close>

record HttpRequest =
  rq_method :: string
  rq_path :: string
  rq_host :: string
  rq_headers :: "string \<Rightarrow> string option"
  rq_query_resource :: "string option"
  rq_body :: bytes

record HttpResponse =
  rs_status :: nat
  rs_headers :: "(string \<times> string) list"
  rs_body :: bytes

type_synonym ActixError = HttpResponse

record server_env =
  se_nip98 :: nip98_env
  se_now :: u64
  se_uuid :: string
  se_acl :: acl_config
  se_wac :: wac_env
  se_sparql :: "string \<Rightarrow> GraphUpdateOperation list option"
  se_json_from :: "bytes \<Rightarrow> json option"
  se_json_to :: "json \<Rightarrow> bytes"
  se_pointer :: json_pointer
  se_to_str_ok :: "string \<Rightarrow> bool"
  se_from_str_ok :: "string \<Rightarrow> bool"
  se_percent_decode :: "string \<Rightarrow> string"
  se_merge_slashes :: "string \<Rightarrow> string"

record NodeInfoMeta =
  ni_software_name :: string
  ni_software_version :: string
  ni_open_registrations :: bool
  ni_total_users :: u64
  ni_base_url :: string

record AppState =
  ap_dotfiles :: DotfileAllowlist
  ap_body_cap :: nat
  ap_nodeinfo :: NodeInfoMeta

definition response :: "nat \<Rightarrow> bytes \<Rightarrow> HttpResponse" where
  "response status body = \<lparr>rs_status = status, rs_headers = [], rs_body = body\<rparr>"

definition insert_header :: "string \<Rightarrow> string \<Rightarrow> HttpResponse \<Rightarrow> HttpResponse" where
  "insert_header name val rsp = rsp\<lparr>rs_headers := AList.update name val (rs_headers rsp)\<rparr>"

text \<open>\<open>if let Ok(v) = HeaderValue::from_str(..)\<close>: a value that is not a legal header is dropped.\<close>

definition insert_checked :: "server_env \<Rightarrow> string \<Rightarrow> string \<Rightarrow> HttpResponse \<Rightarrow> HttpResponse" where
  "insert_checked env name val rsp = (if se_from_str_ok env val then insert_header name val rsp else rsp)"

definition header_str :: "server_env \<Rightarrow> HttpRequest \<Rightarrow> string \<Rightarrow> string option" where
  "header_str env req name = Option.bind (rq_headers req name) (\<lambda>v. if se_to_str_ok env v then Some v else None)"

section \<open>Error translation and authentication\<close>

definition to_actix :: "PodError \<Rightarrow> ActixError" where
  "to_actix e = response
     (case e of
        NotFound _ \<Rightarrow> 404 | BadRequest _ \<Rightarrow> 400 | Unsupported _ \<Rightarrow> 415 | Forbidden \<Rightarrow> 403
      | Unauthenticated \<Rightarrow> 401 | PreconditionFailed _ \<Rightarrow> 412 | _ \<Rightarrow> 500)
     (pod_error_to_string e)"

definition extract_pubkey :: "server_env \<Rightarrow> HttpRequest \<Rightarrow> string option" where
  "extract_pubkey env req =
     Option.bind (header_str env req ''authorization'') (\<lambda>header_val.
       let url = ''http://'' @ rq_host req @ rq_path req in
       case nip98_verify (se_nip98 env) (se_now env) header_val url (rq_method req) None of
         Inr pk \<Rightarrow> Some pk | Inl _ \<Rightarrow> None)"

definition agent_uri :: "string option \<Rightarrow> string option" where
  "agent_uri pubkey = map_option (\<lambda>pk. ''did:nostr:'' @ pk) pubkey"

definition request_agent :: "server_env \<Rightarrow> HttpRequest \<Rightarrow> string option" where
  "request_agent env req = agent_uri (extract_pubkey env req)"

definition agent_context :: "string option \<Rightarrow> RequestContext" where
  "agent_context agent = \<lparr>rc_web_id = agent, rc_client_id = None, rc_issuer = None\<rparr>"

definition enforce_write :: "server_env \<Rightarrow> 's storage_ops \<Rightarrow> 's \<Rightarrow> string \<Rightarrow> AccessMode \<Rightarrow> string option
    \<Rightarrow> ActixError + unit" where
  "enforce_write env ops s path mode agent =
     (case find_effective_acl_dyn (se_acl env) (s_get ops s) path of
        Inl e \<Rightarrow> Inl (to_actix e)
      | Inr acl_doc \<Rightarrow>
          if evaluate_access_ctx_with_registry (se_wac env) acl_doc (agent_context agent) path mode None
               (static_is_member StaticGroupMembership_new) default_with_client_and_issuer
          then Inr ()
          else (let allow_header = wac_allow_header (se_wac env) acl_doc agent path;
                    status = (if agent = None then 401 else 403)
                in Inl (insert_header ''wac-allow'' (if se_from_str_ok env allow_header then allow_header else [])
                     (response status []))))"

section \<open>Handlers\<close>

definition set_link_headers :: "server_env \<Rightarrow> string \<Rightarrow> HttpResponse \<Rightarrow> HttpResponse" where
  "set_link_headers env path rsp = insert_checked env ''link'' (join '', '' (link_headers path)) rsp"

definition set_wac_allow :: "server_env \<Rightarrow> string \<Rightarrow> HttpResponse \<Rightarrow> HttpResponse" where
  "set_wac_allow env header_value rsp = insert_checked env ''wac-allow'' header_value rsp"

definition quoted :: "string \<Rightarrow> string" where
  "quoted s = [CHR 0x22] @ s @ [CHR 0x22]"

definition container_representation :: "'s storage_ops \<Rightarrow> 's \<Rightarrow> string \<Rightarrow> PodError + json" where
  "container_representation ops s path = map_sum id (render_container path) (s_list ops s path)"

definition handle_get :: "server_env \<Rightarrow> 's storage_ops \<Rightarrow> 's \<Rightarrow> HttpRequest \<Rightarrow> ActixError + HttpResponse" where
  "handle_get env ops s req =
     (let path = rq_path req;
          wac_allow = wac_allow_header (se_wac env) None (request_agent env req) path in
      if is_container path then
        (case container_representation ops s path of
           Inl e \<Rightarrow> Inl (to_actix e)
         | Inr v \<Rightarrow> Inr (set_link_headers env path (set_wac_allow env wac_allow
             (insert_header ''content-type'' ''application/ld+json'' (response 200 (se_json_to env v))))))
      else
        (case s_get ops s path of
           Inr (body, mt) \<Rightarrow> Inr (set_link_headers env path (set_wac_allow env wac_allow
             (insert_checked env ''etag'' (quoted (rm_etag mt))
               (insert_header ''content-type''
                  (if se_from_str_ok env (rm_content_type mt) then rm_content_type mt else ''application/octet-stream'')
                  (response 200 body)))))
         | Inl (NotFound _) \<Rightarrow> Inr (response 404 [])
         | Inl e \<Rightarrow> Inl (to_actix e)))"

definition store_put :: "'s storage_ops \<Rightarrow> 's \<Rightarrow> string \<Rightarrow> bytes \<Rightarrow> string \<Rightarrow> 's \<times> (ActixError + ResourceMeta)" where
  "store_put ops s path body ct = apsnd (map_sum to_actix id) (s_put ops s path body ct)"

definition handle_put :: "server_env \<Rightarrow> 's storage_ops \<Rightarrow> 's \<Rightarrow> HttpRequest \<Rightarrow> 's \<times> (ActixError + HttpResponse)" where
  "handle_put env ops s req =
     (let path = rq_path req in
      if is_container path then (s, Inr (response 405 ''cannot PUT to a container''))
      else try_with s (enforce_write env ops s path Write (request_agent env req)) (\<lambda>_.
        let ct = unwrap_or (header_str env req ''content-type'') ''application/octet-stream'' in
        and_then (store_put ops s path (rq_body req) ct) (\<lambda>s1 mt.
          (s1, Inr (set_link_headers env path (insert_checked env ''etag'' (quoted (rm_etag mt)) (response 201 [])))))))"

definition handle_post :: "server_env \<Rightarrow> 's storage_ops \<Rightarrow> 's \<Rightarrow> HttpRequest \<Rightarrow> 's \<times> (ActixError + HttpResponse)" where
  "handle_post env ops s req =
     (let path = rq_path req in
      try_with s (enforce_write env ops s path Append (request_agent env req)) (\<lambda>_.
      try_with s (map_sum to_actix id (resolve_slug (se_uuid env) path (header_str env req ''slug''))) (\<lambda>target.
        let ct = unwrap_or (header_str env req ''content-type'') ''application/octet-stream'' in
        and_then (store_put ops s target (rq_body req) ct) (\<lambda>s1 mt.
          (s1, Inr (set_link_headers env target (insert_checked env ''etag'' (quoted (rm_etag mt))
             (insert_checked env ''location'' target (response 201 [])))))))))"

definition patch_parse_err :: "PodError \<Rightarrow> ActixError" where
  "patch_parse_err e = (case e of
     Unsupported msg \<Rightarrow> response 400 msg
   | BadRequest msg \<Rightarrow> response 400 msg
   | other \<Rightarrow> to_actix other)"

definition graph_to_turtle :: "Graph \<Rightarrow> string" where
  "graph_to_turtle g = to_ntriples g"

text \<open>The two branches of \<open>handle_patch\<close>: on a resource that exists, and on one that does not.\<close>

definition patch_existing :: "server_env \<Rightarrow> 's storage_ops \<Rightarrow> 's \<Rightarrow> string \<Rightarrow> PatchDialect \<Rightarrow> string
    \<Rightarrow> bytes \<Rightarrow> ResourceMeta \<Rightarrow> 's \<times> (ActixError + HttpResponse)" where
  "patch_existing env ops s path dialect body_str current_body mt =
     (let finish = (\<lambda>out :: PodError + PatchOutcome.
          try_with s (map_sum patch_parse_err id out) (\<lambda>outcome.
            and_then (store_put ops s path (graph_to_turtle (po_graph outcome)) ''text/turtle'') (\<lambda>s1 _.
              (s1, Inr (response 204 [])))))
      in case dialect of
        N3 \<Rightarrow> finish (apply_n3_patch {} body_str)
      | SparqlUpdate \<Rightarrow> finish (apply_sparql_patch (se_sparql env) {} body_str)
      | JsonPatch \<Rightarrow>
          (let doc = unwrap_or (se_json_from env current_body) (JObject []) in
           try_with s (map_sum to_actix id (ok_or (se_json_from env body_str) (BadRequest []))) (\<lambda>patch.
           case apply_json_patch (se_pointer env) doc patch of
             (_, Inl e) \<Rightarrow> (s, Inl (to_actix e))
           | (doc1, Inr _) \<Rightarrow>
               and_then (store_put ops s path (se_json_to env doc1) (rm_content_type mt)) (\<lambda>s1 _.
                 (s1, Inr (response 204 []))))))"

definition patch_absent :: "server_env \<Rightarrow> 's storage_ops \<Rightarrow> 's \<Rightarrow> string \<Rightarrow> PatchDialect \<Rightarrow> string
    \<Rightarrow> 's \<times> (ActixError + HttpResponse)" where
  "patch_absent env ops s path dialect body_str =
     try_with s (map_sum patch_parse_err id (apply_patch_to_absent (se_sparql env) dialect body_str)) (\<lambda>create.
       case create of
         PatchCreated _ graph \<Rightarrow>
           and_then (store_put ops s path (graph_to_turtle graph) ''text/turtle'') (\<lambda>s1 _. (s1, Inr (response 201 [])))
       | PatchApplied _ _ _ \<Rightarrow> (s, Inl (to_actix (Unsupported ''unexpected patch outcome on absent resource''))))"

definition handle_patch :: "server_env \<Rightarrow> 's storage_ops \<Rightarrow> 's \<Rightarrow> HttpRequest \<Rightarrow> 's \<times> (ActixError + HttpResponse)" where
  "handle_patch env ops s req =
     (let path = rq_path req in
      if is_container path then (s, Inr (response 405 ''cannot PATCH a container''))
      else try_with s (enforce_write env ops s path Append (request_agent env req)) (\<lambda>_.
        let ct = unwrap_or (header_str env req ''content-type'') [] in
        case patch_dialect_from_mime ct of
          None \<Rightarrow> (s, Inr (response 415 ''unsupported patch dialect for content-type ''))
        | Some dialect \<Rightarrow>
            (case from_utf8 (rq_body req) of
               None \<Rightarrow> (s, Inr (response 400 ''patch body is not valid UTF-8''))
             | Some body_str \<Rightarrow>
                 (case s_get ops s path of
                    Inr (current_body, mt) \<Rightarrow> patch_existing env ops s path dialect body_str current_body mt
                  | Inl (NotFound _) \<Rightarrow> patch_absent env ops s path dialect body_str
                  | Inl e \<Rightarrow> (s, Inl (to_actix e))))))"

definition handle_delete :: "server_env \<Rightarrow> 's storage_ops \<Rightarrow> 's \<Rightarrow> HttpRequest \<Rightarrow> 's \<times> (ActixError + HttpResponse)" where
  "handle_delete env ops s req =
     (let path = rq_path req in
      try_with s (enforce_write env ops s path Write (request_agent env req)) (\<lambda>_.
        case s_delete ops s path of
          (s1, Inr _) \<Rightarrow> (s1, Inr (response 204 []))
        | (s1, Inl (NotFound _)) \<Rightarrow> (s1, Inr (response 404 []))
        | (s1, Inl e) \<Rightarrow> (s1, Inl (to_actix e))))"

definition handle_options :: "server_env \<Rightarrow> HttpRequest \<Rightarrow> HttpResponse" where
  "handle_options env req =
     (let opt = options_for (rq_path req);
          r1 = insert_checked env ''allow'' (join '', '' (or_allow opt)) (response 204 []);
          r2 = (case or_accept_post opt of Some ap \<Rightarrow> insert_checked env ''accept-post'' ap r1 | None \<Rightarrow> r1);
          r3 = insert_checked env ''accept-patch'' (or_accept_patch opt) r2
      in insert_checked env ''accept-ranges'' (or_accept_ranges opt) r3)"

section \<open>Discovery handlers\<close>

definition json_response :: "server_env \<Rightarrow> string \<Rightarrow> json \<Rightarrow> HttpResponse" where
  "json_response env ct j = insert_header ''content-type'' ct (response 200 (se_json_to env j))"

definition handle_well_known_solid :: "server_env \<Rightarrow> AppState \<Rightarrow> HttpResponse" where
  "handle_well_known_solid env app =
     json_response env ''application/ld+json''
       (SolidWellKnown_json (well_known_solid (ni_base_url (ap_nodeinfo app)) (ni_base_url (ap_nodeinfo app))))"

text \<open>\<open>trim_start_matches\<close> with a string pattern; every removal shortens the string.\<close>

fun trim_start_str :: "nat \<Rightarrow> string \<Rightarrow> string \<Rightarrow> string" where
  "trim_start_str 0 p s = s"
| "trim_start_str (Suc n) p s = (case strip_prefix p s of Some r \<Rightarrow> trim_start_str n p r | None \<Rightarrow> s)"

definition handle_well_known_webfinger :: "server_env \<Rightarrow> AppState \<Rightarrow> string option \<Rightarrow> HttpResponse" where
  "handle_well_known_webfinger env app q =
     (let base = ni_base_url (ap_nodeinfo app);
          host = trim_start_str (length base) ''https://'' (trim_start_str (length base) ''http://'' base);
          resource = unwrap_or q (''acct:anonymous@'' @ host);
          webid = trim_end_matches (CHR ''/'') base @ ''/profile/card#me'' in
      case webfinger_response resource base webid of
        Some jrd \<Rightarrow> json_response env ''application/jrd+json'' (WebFingerJrd_json jrd)
      | None \<Rightarrow> response 404 [])"

definition handle_well_known_nodeinfo :: "server_env \<Rightarrow> AppState \<Rightarrow> HttpResponse" where
  "handle_well_known_nodeinfo env app =
     json_response env ''application/json'' (nodeinfo_discovery (ni_base_url (ap_nodeinfo app)))"

definition handle_well_known_nodeinfo_2_1 :: "server_env \<Rightarrow> AppState \<Rightarrow> HttpResponse" where
  "handle_well_known_nodeinfo_2_1 env app = (let n = ap_nodeinfo app in
     json_response env ''application/json''
       (nodeinfo_2_1 (ni_software_name n) (ni_software_version n) (ni_open_registrations n) (ni_total_users n)))"

definition handle_well_known_did_nostr :: "server_env \<Rightarrow> AppState \<Rightarrow> string \<Rightarrow> HttpResponse" where
  "handle_well_known_did_nostr env app pubkey =
     json_response env ''application/did+json''
       (did_nostr_document pubkey [trim_end_matches (CHR ''/'') (ni_base_url (ap_nodeinfo app)) @ ''/profile/card#me''])"

section \<open>Guards and dispatch\<close>

definition path_is_traversal :: "server_env \<Rightarrow> string \<Rightarrow> bool" where
  "path_is_traversal env path =
     (let once = se_percent_decode env path; twice = se_percent_decode env once in
      if list_ex (\<lambda>sg. sg = ''..'' \<or> sg = ''.'') (split_on (CHR ''/'') once @ split_on (CHR ''/'') twice) then True
      else contains_sub ''/../'' twice \<or> starts_with ''../'' twice \<or> ends_with ''/..'' twice)"

definition dotfile_guard_denies :: "AppState \<Rightarrow> string \<Rightarrow> bool" where
  "dotfile_guard_denies app path \<longleftrightarrow>
     \<not> starts_with ''/.well-known/'' path \<and> \<not> snd (is_allowed (ap_dotfiles app) path)"

text \<open>The route table of \<open>build_app\<close>, in order. The pattern of the \<open>POST\<close> route needs a slash at both
  ends, and a request that no route takes is answered \<open>404\<close>; the handlers that take the body reject
  one over the configured cap.\<close>

definition with_body :: "AppState \<Rightarrow> 's \<Rightarrow> HttpRequest \<Rightarrow> 's \<times> (ActixError + HttpResponse) \<Rightarrow> 's \<times> (ActixError + HttpResponse)" where
  "with_body app s req r = (if length (rq_body req) > ap_body_cap app then (s, Inl (response 413 [])) else r)"

definition route :: "server_env \<Rightarrow> AppState \<Rightarrow> 's storage_ops \<Rightarrow> 's \<Rightarrow> HttpRequest \<Rightarrow> 's \<times> (ActixError + HttpResponse)" where
  "route env app ops s req =
     (let m = rq_method req; p = rq_path req in
      if m = ''GET'' \<and> p = ''/.well-known/solid'' then (s, Inr (handle_well_known_solid env app))
      else if m = ''GET'' \<and> p = ''/.well-known/webfinger'' then
        (s, Inr (handle_well_known_webfinger env app (rq_query_resource req)))
      else if m = ''GET'' \<and> p = ''/.well-known/nodeinfo'' then (s, Inr (handle_well_known_nodeinfo env app))
      else if m = ''GET'' \<and> p = ''/.well-known/nodeinfo/2.1'' then (s, Inr (handle_well_known_nodeinfo_2_1 env app))
      else if \<not> starts_with ''/'' p then (s, Inr (response 404 []))
      else if m = ''POST'' \<and> ends_with ''/'' (tl p) then with_body app s req (handle_post env ops s req)
      else if m = ''GET'' \<or> m = ''HEAD'' then (s, handle_get env ops s req)
      else if m = ''PUT'' then with_body app s req (handle_put env ops s req)
      else if m = ''PATCH'' then with_body app s req (handle_patch env ops s req)
      else if m = ''DELETE'' then handle_delete env ops s req
      else if m = ''OPTIONS'' then (s, Inr (handle_options env req))
      else (s, Inr (response 404 [])))"

text \<open>The middleware runs from the last one wrapped to the first: the dotfile guard, the traversal guard,
  slash merging, then the routes. The rendered answer is the response either way.\<close>

definition render_result :: "ActixError + HttpResponse \<Rightarrow> HttpResponse" where
  "render_result r = (case r of Inl e \<Rightarrow> e | Inr rsp \<Rightarrow> rsp)"

definition build_app :: "server_env \<Rightarrow> AppState \<Rightarrow> 's storage_ops \<Rightarrow> 's \<Rightarrow> HttpRequest \<Rightarrow> 's \<times> HttpResponse" where
  "build_app env app ops s req =
     (if dotfile_guard_denies app (rq_path req) then (s, response 403 ''dotfile path denied by allowlist'')
      else if path_is_traversal env (rq_path req) then (s, response 400 ''invalid path: traversal rejected'')
      else apsnd render_result (route env app ops s (req\<lparr>rq_path := se_merge_slashes env (rq_path req)\<rparr>)))"

end
