(* ===== verification/Server_Safety.thy ===== *)
theory Server_Safety
  imports Server
begin

text \<open>
  What the server guarantees about the pod it serves: which requests can change the storage, what
  they change, and what a client reads back. The effect of a request is found for any storage at all;
  what depends on the trait's contract (\<open>pod_storage\<close>) is proved for every storage that meets it, and
  holds for the in-memory backend by its interpretation.
\<close>

section \<open>The effect of a request\<close>

definition write_granted :: "server_env \<Rightarrow> 's storage_ops \<Rightarrow> 's \<Rightarrow> string \<Rightarrow> AccessMode \<Rightarrow> string option \<Rightarrow> bool" where
  "write_granted env ops s path mode agent \<longleftrightarrow>
     (case find_effective_acl_dyn (se_acl env) (s_get ops s) path of
        Inl _ \<Rightarrow> False
      | Inr acl_doc \<Rightarrow> evaluate_access_ctx_with_registry (se_wac env) acl_doc (agent_context agent) path mode None
          (static_is_member StaticGroupMembership_new) default_with_client_and_issuer)"

text \<open>The mode the server asks for, by method, and the resource a request may write.\<close>

definition required_mode :: "string \<Rightarrow> AccessMode option" where
  "required_mode m =
     (if m = ''PUT'' \<or> m = ''DELETE'' then Some Write
      else if m = ''POST'' \<or> m = ''PATCH'' then Some Append else None)"

definition write_target :: "server_env \<Rightarrow> HttpRequest \<Rightarrow> string option" where
  "write_target env req =
     (if rq_method req = ''POST''
      then (case resolve_slug (se_uuid env) (rq_path req) (header_str env req ''slug'') of Inr t \<Rightarrow> Some t | Inl _ \<Rightarrow> None)
      else Some (rq_path req))"

definition merged :: "server_env \<Rightarrow> HttpRequest \<Rightarrow> HttpRequest" where
  "merged env req = req\<lparr>rq_path := se_merge_slashes env (rq_path req)\<rparr>"

inductive store_step :: "'s storage_ops \<Rightarrow> string \<Rightarrow> 's \<Rightarrow> 's \<Rightarrow> bool" for ops where
  put: "s_put ops s t b ct = (s', Inr m) \<Longrightarrow> store_step ops t s s'"
| delete: "s_delete ops s t = (s', Inr ()) \<Longrightarrow> store_step ops t s s'"

inductive_cases store_stepE: "store_step ops t s s'"

text \<open>An authorised write: one storage operation on the target, answered with success.\<close>

definition authorised_write :: "server_env \<Rightarrow> 's storage_ops \<Rightarrow> 's \<Rightarrow> HttpRequest \<Rightarrow> 's \<Rightarrow> HttpResponse \<Rightarrow> bool" where
  "authorised_write env ops s req s' rsp \<longleftrightarrow>
     (\<exists>mode t. required_mode (rq_method req) = Some mode \<and> write_target env req = Some t \<and>
        write_granted env ops s (rq_path req) mode (request_agent env req) \<and>
        store_step ops t s s' \<and> rs_status rsp \<in> {201, 204})"

text \<open>A write the storage refused: the operation was granted and asked for, and the storage answered
  with an error, in whatever state that left it.\<close>

definition failed_write :: "server_env \<Rightarrow> 's storage_ops \<Rightarrow> 's \<Rightarrow> HttpRequest \<Rightarrow> 's \<Rightarrow> HttpResponse \<Rightarrow> bool" where
  "failed_write env ops s req s' rsp \<longleftrightarrow>
     (\<exists>mode t. required_mode (rq_method req) = Some mode \<and> write_target env req = Some t \<and>
        write_granted env ops s (rq_path req) mode (request_agent env req) \<and>
        ((\<exists>b ct e. s_put ops s t b ct = (s', Inl e)) \<or> (\<exists>e. s_delete ops s t = (s', Inl e))) \<and>
        rs_status rsp \<ge> 400)"

text \<open>A storage whose failed operations change nothing. The in-memory backend is one; the file-system
  backend is not, since its put writes the body before the sidecar.\<close>

definition failures_atomic :: "'s storage_ops \<Rightarrow> bool" where
  "failures_atomic ops \<longleftrightarrow>
     (\<forall>s p b ct s' e. s_put ops s p b ct = (s', Inl e) \<longrightarrow> s' = s) \<and>
     (\<forall>s p s' e. s_delete ops s p = (s', Inl e) \<longrightarrow> s' = s)"

lemma enforce_write_cases:
  obtains (granted) "enforce_write env ops s path mode agent = Inr ()" "write_granted env ops s path mode agent"
  | (denied) e where "enforce_write env ops s path mode agent = Inl e" "\<not> write_granted env ops s path mode agent"
  by (cases "enforce_write env ops s path mode agent")
     (auto simp: enforce_write_def write_granted_def Let_def split: sum.splits if_splits)

lemma status_simps [simp]:
  "rs_status (response c b) = c"
  "rs_status (insert_header n v r) = rs_status r"
  "rs_status (insert_checked env n v r) = rs_status r"
  "rs_status (set_link_headers env p r) = rs_status r"
  "rs_status (set_wac_allow env v r) = rs_status r"
  by (simp_all add: response_def insert_header_def insert_checked_def set_link_headers_def set_wac_allow_def)

lemma render_result_simps [simp]: "render_result (Inl e) = e" "render_result (Inr rsp) = rsp"
  by (simp_all add: render_result_def)

text \<open>On any storage, a handler leaves it alone, makes the authorised write, or is refused it by the
  storage.\<close>

definition safe_outcome :: "server_env \<Rightarrow> 's storage_ops \<Rightarrow> 's \<Rightarrow> HttpRequest \<Rightarrow> 's \<times> (ActixError + HttpResponse) \<Rightarrow> bool" where
  "safe_outcome env ops s req out \<longleftrightarrow>
     fst out = s \<or> authorised_write env ops s req (fst out) (render_result (snd out)) \<or>
     failed_write env ops s req (fst out) (render_result (snd out))"

lemma safe_outcome_same [simp]: "safe_outcome env ops s req (s, r)"
  by (simp add: safe_outcome_def)

lemma safe_try_with:
  "(\<And>a. r = Inr a \<Longrightarrow> safe_outcome env ops s req (k a)) \<Longrightarrow> safe_outcome env ops s req (try_with s r k)"
  by (cases r) simp_all

lemma safe_enforce:
  assumes "write_granted env ops s path mode agent \<Longrightarrow> safe_outcome env ops s req (k ())"
  shows "safe_outcome env ops s req (try_with s (enforce_write env ops s path mode agent) k)"
  by (rule enforce_write_cases [of env ops s path mode agent]) (use assms in simp_all)

lemma error_status:
  "rs_status (to_actix e) \<ge> 400" "rs_status (patch_parse_err e) \<ge> 400"
  by (cases e; simp add: to_actix_def patch_parse_err_def)+

lemma safe_put:
  assumes "write_granted env ops s (rq_path req) mode (request_agent env req)"
    and "required_mode (rq_method req) = Some mode" "write_target env req = Some t"
    and "\<And>s1 m. \<exists>rsp. k s1 m = (s1, Inr rsp) \<and> rs_status rsp \<in> {201, 204}"
  shows "safe_outcome env ops s req (and_then (store_put ops s t b ct) k)"
proof (cases "s_put ops s t b ct")
  case (Pair s1 r)
  show ?thesis
  proof (cases r)
    case (Inl e)
    then have "failed_write env ops s req s1 (to_actix e)"
      using Pair assms(1-3) error_status(1) unfolding failed_write_def by blast
    then show ?thesis using Pair Inl by (simp add: store_put_def safe_outcome_def)
  next
    case (Inr m)
    moreover obtain rsp where "k s1 m = (s1, Inr rsp)" "rs_status rsp \<in> {201, 204}" using assms(4) by blast
    moreover have "store_step ops t s s1" using Pair Inr by (auto intro: store_step.put)
    ultimately show ?thesis
      using Pair assms(1-3) by (auto simp: store_put_def safe_outcome_def authorised_write_def)
  qed
qed

lemma safe_handle_put:
  "rq_method req = ''PUT'' \<Longrightarrow> safe_outcome env ops s req (handle_put env ops s req)"
  unfolding handle_put_def Let_def
  by (auto intro!: safe_enforce safe_put simp: required_mode_def write_target_def)

lemma safe_handle_post:
  "rq_method req = ''POST'' \<Longrightarrow> safe_outcome env ops s req (handle_post env ops s req)"
  unfolding handle_post_def Let_def
  by (rule safe_enforce, rule safe_try_with, rule safe_put)
     (auto simp: required_mode_def write_target_def map_sum_def split: sum.splits)

lemma safe_handle_patch:
  assumes "rq_method req = ''PATCH''"
  shows "safe_outcome env ops s req (handle_patch env ops s req)"
proof -
  have rm: "required_mode (rq_method req) = Some Append" "write_target env req = Some (rq_path req)"
    using assms by (simp_all add: required_mode_def write_target_def)
  have ex: "safe_outcome env ops s req (patch_existing env ops s (rq_path req) d bs cb mt)"
    if "write_granted env ops s (rq_path req) Append (request_agent env req)" for d bs cb mt
    unfolding patch_existing_def Let_def
    by (auto intro!: safe_try_with safe_put [OF that rm] split: PatchDialect.splits prod.splits sum.splits)
  have ab: "safe_outcome env ops s req (patch_absent env ops s (rq_path req) d bs)"
    if "write_granted env ops s (rq_path req) Append (request_agent env req)" for d bs
    unfolding patch_absent_def Let_def
    by (auto intro!: safe_try_with safe_put [OF that rm] split: PatchCreateOutcome.splits)
  show ?thesis
    unfolding handle_patch_def Let_def
    by (auto intro!: safe_enforce ex ab split: option.splits sum.splits prod.splits PodError.splits)
qed

lemma safe_handle_delete:
  assumes "rq_method req = ''DELETE''"
  shows "safe_outcome env ops s req (handle_delete env ops s req)"
  unfolding handle_delete_def Let_def
proof (rule safe_enforce)
  assume g: "write_granted env ops s (rq_path req) Write (request_agent env req)"
  obtain s1 r where d: "s_delete ops s (rq_path req) = (s1, r)" by force
  show "safe_outcome env ops s req (case s_delete ops s (rq_path req) of
      (s1, Inr _) \<Rightarrow> (s1, Inr (response 204 []))
    | (s1, Inl (NotFound _)) \<Rightarrow> (s1, Inr (response 404 []))
    | (s1, Inl e) \<Rightarrow> (s1, Inl (to_actix e)))"
  proof (cases r)
    case (Inl e)
    then have "failed_write env ops s req s1 rsp" if "rs_status rsp \<ge> 400" for rsp
      using d g assms that by (auto simp: failed_write_def required_mode_def write_target_def)
    then show ?thesis using d Inl error_status(1) [of e] by (cases e) (simp_all add: safe_outcome_def)
  next
    case (Inr u)
    then have "store_step ops (rq_path req) s s1" using d by (auto intro: store_step.delete)
    then show ?thesis
      using d Inr g assms
      by (auto simp: safe_outcome_def authorised_write_def required_mode_def write_target_def)
  qed
qed

lemma safe_route: "safe_outcome env ops s req (route env app ops s req)"
  unfolding route_def Let_def with_body_def
  by (simp add: safe_handle_put safe_handle_post safe_handle_patch safe_handle_delete)

lemma build_app_outcome:
  assumes "build_app env app ops s req = (s', rsp)" "s' \<noteq> s"
  shows "authorised_write env ops s (merged env req) s' rsp \<or> failed_write env ops s (merged env req) s' rsp"
    and "\<not> dotfile_guard_denies app (rq_path req)" "\<not> path_is_traversal env (rq_path req)"
proof -
  obtain s1 r where r: "route env app ops s (merged env req) = (s1, r)" by force
  then have "s1 = s \<or> authorised_write env ops s (merged env req) s1 (render_result r) \<or>
      failed_write env ops s (merged env req) s1 (render_result r)"
    using safe_route [of env ops s "merged env req" app] by (simp add: safe_outcome_def)
  then show "authorised_write env ops s (merged env req) s' rsp \<or> failed_write env ops s (merged env req) s' rsp"
    "\<not> dotfile_guard_denies app (rq_path req)" "\<not> path_is_traversal env (rq_path req)"
    using assms r by (auto simp: build_app_def merged_def split: if_splits)
qed

lemma failed_write_atomic: "failures_atomic ops \<Longrightarrow> failed_write env ops s req s' rsp \<Longrightarrow> s' = s"
  unfolding failures_atomic_def failed_write_def by blast

context pod_storage
begin

lemma failures_atomic: "failures_atomic ops"
  unfolding failures_atomic_def using put_fail delete_fail by blast

lemma build_app_effect:
  assumes "build_app env app ops s req = (s', rsp)" "s' \<noteq> s"
  shows "authorised_write env ops s (merged env req) s' rsp"
    and "\<not> dotfile_guard_denies app (rq_path req)" "\<not> path_is_traversal env (rq_path req)"
  using build_app_outcome [OF assms] failed_write_atomic [OF failures_atomic] assms(2) by blast+

lemma store_step_invar: "store_step ops t s s' \<Longrightarrow> invar s \<Longrightarrow> invar s'"
  by (auto elim!: store_stepE intro: put_invar delete_invar)

lemma store_step_other: "store_step ops t s s' \<Longrightarrow> invar s \<Longrightarrow> key q \<noteq> key t \<Longrightarrow> s_get ops s' q = s_get ops s q"
  by (auto elim!: store_stepE intro: put_get_other delete_get_other)

end

section \<open>Reading back a write\<close>

definition well_known_paths :: "string list" where
  "well_known_paths = [''/.well-known/solid'', ''/.well-known/webfinger'', ''/.well-known/nodeinfo'', ''/.well-known/nodeinfo/2.1'']"

definition header_of :: "HttpResponse \<Rightarrow> string \<Rightarrow> string option" where
  "header_of rsp n = map_of (rs_headers rsp) n"

lemma header_simps [simp]:
  "header_of (insert_header n v r) k = (if k = n then Some v else header_of r k)"
  "header_of (insert_checked env n v r) k = (if k = n \<and> se_from_str_ok env v then Some v else header_of r k)"
  "header_of (set_link_headers env p r) k = (if k = ''link'' \<and> se_from_str_ok env (join '', '' (link_headers p))
     then Some (join '', '' (link_headers p)) else header_of r k)"
  "header_of (set_wac_allow env v r) k = (if k = ''wac-allow'' \<and> se_from_str_ok env v then Some v else header_of r k)"
  by (simp_all add: header_of_def insert_header_def insert_checked_def set_link_headers_def set_wac_allow_def update_conv')

lemma body_simps [simp]:
  "rs_body (response c b) = b"
  "rs_body (insert_header n v r) = rs_body r"
  "rs_body (insert_checked env n v r) = rs_body r"
  "rs_body (set_link_headers env p r) = rs_body r"
  "rs_body (set_wac_allow env v r) = rs_body r"
  by (simp_all add: response_def insert_header_def insert_checked_def set_link_headers_def set_wac_allow_def)

lemma enforce_write_status: "enforce_write env ops s path mode agent = Inl e \<Longrightarrow> rs_status e \<ge> 400"
  using error_status by (auto simp: enforce_write_def Let_def split: sum.splits if_splits)

lemma handle_put_created:
  assumes "handle_put env ops s req = (s', r)" "rs_status (render_result r) = 201"
  shows "\<not> is_container (rq_path req) \<and> (\<exists>mt. s_put ops s (rq_path req) (rq_body req)
      (unwrap_or (header_str env req ''content-type'') ''application/octet-stream'') = (s', Inr mt))"
proof -
  have c: "\<not> is_container (rq_path req)" using assms by (auto simp: handle_put_def)
  have "\<exists>mt. s_put ops s (rq_path req) (rq_body req)
      (unwrap_or (header_str env req ''content-type'') ''application/octet-stream'') = (s', Inr mt)"
  proof (rule enforce_write_cases [of env ops s "rq_path req" Write "request_agent env req"])
    fix e assume "enforce_write env ops s (rq_path req) Write (request_agent env req) = Inl e"
    then show ?thesis using c assms enforce_write_status by (fastforce simp: handle_put_def)
  next
    assume g: "enforce_write env ops s (rq_path req) Write (request_agent env req) = Inr ()"
    obtain s1 q where p: "s_put ops s (rq_path req) (rq_body req)
        (unwrap_or (header_str env req ''content-type'') ''application/octet-stream'') = (s1, q)" by force
    show ?thesis
    proof (cases q)
      case (Inl e)
      then have "r = Inl (to_actix e)" using p c g assms(1) by (simp add: handle_put_def store_put_def)
      then show ?thesis using assms(2) error_status(1) [of e] by simp
    qed (use p c g assms(1) in \<open>simp add: handle_put_def store_put_def\<close>)
  qed
  then show ?thesis using c by blast
qed

lemma build_app_put_created:
  assumes "build_app env app ops s req = (s', rsp)" "rq_method req = ''PUT''" "rs_status rsp = 201"
  shows "(\<exists>mt. s_put ops s (rq_path (merged env req)) (rq_body req)
      (unwrap_or (header_str env req ''content-type'') ''application/octet-stream'') = (s', Inr mt)) \<and>
    \<not> is_container (rq_path (merged env req)) \<and> starts_with ''/'' (rq_path (merged env req)) \<and>
    \<not> dotfile_guard_denies app (rq_path req) \<and> \<not> path_is_traversal env (rq_path req)"
proof -
  have guards: "\<not> dotfile_guard_denies app (rq_path req)" "\<not> path_is_traversal env (rq_path req)"
    using assms by (auto simp: build_app_def split: if_splits)
  obtain r where r: "route env app ops s (merged env req) = (s', r)" "rsp = render_result r"
    using assms(1) guards by (cases "route env app ops s (merged env req)") (auto simp: build_app_def merged_def)
  have m: "rq_method (merged env req) = ''PUT''" "rq_body (merged env req) = rq_body req"
    "header_str env (merged env req) = header_str env req"
    using assms(2) by (simp_all add: merged_def header_str_def fun_eq_iff)
  have "starts_with ''/'' (rq_path (merged env req))" "handle_put env ops s (merged env req) = (s', r)"
    using r assms(3) m(1) by (auto simp: route_def Let_def with_body_def split: if_splits)
  then show ?thesis using handle_put_created [of env ops s "merged env req" s' r] guards r(2) assms(3) m by simp
qed

lemma build_app_get:
  assumes "rq_method req = ''GET''" "\<not> dotfile_guard_denies app (rq_path req)" "\<not> path_is_traversal env (rq_path req)"
    and "\<not> is_container (rq_path (merged env req))" "starts_with ''/'' (rq_path (merged env req))"
    and "rq_path (merged env req) \<notin> set well_known_paths"
    and "s_get ops s (rq_path (merged env req)) = Inr (b, mt)"
  shows "\<exists>rsp. build_app env app ops s req = (s, rsp) \<and> rs_status rsp = 200 \<and> rs_body rsp = b \<and>
    (se_from_str_ok env (rm_content_type mt) \<longrightarrow> header_of rsp ''content-type'' = Some (rm_content_type mt))"
proof -
  let ?req = "merged env req"
  have m: "rq_method ?req = ''GET''" using assms(1) by (simp add: merged_def)
  have "route env app ops s ?req = (s, handle_get env ops s ?req)"
    using m assms(5,6) by (simp add: route_def Let_def well_known_paths_def)
  moreover have "\<exists>rsp. handle_get env ops s ?req = Inr rsp \<and> rs_status rsp = 200 \<and> rs_body rsp = b \<and>
    (se_from_str_ok env (rm_content_type mt) \<longrightarrow> header_of rsp ''content-type'' = Some (rm_content_type mt))"
    using assms(4,7) by (simp add: handle_get_def Let_def)
  ultimately show ?thesis using assms(2,3) by (auto simp: build_app_def merged_def)
qed

section \<open>A pod without access-control documents\<close>

lemma acl_key_suffix: "ends_with ''.acl'' (acl_key p)"
  by (auto simp: acl_key_def ends_with_iff)

lemma walk_without_acl:
  assumes "\<forall>k. ends_with ''.acl'' k \<longrightarrow> \<not> is_ok (get k)"
  shows "walk (try_acl_dyn cfg) get p = Inr None"
proof (induction p rule: measure_induct_rule [of walk_measure])
  case (less p)
  have "\<not> is_ok (get (acl_key p))" using assms acl_key_suffix by blast
  then have t: "try_acl_dyn cfg (get (acl_key p)) = None" by (cases "get (acl_key p)") (simp_all add: try_acl_dyn_def)
  show ?case
  proof (cases "p = ''/'' \<or> p = []")
    case False
    then have "walk (try_acl_dyn cfg) get (acl_parent p) = Inr None" using less acl_parent_measure by blast
    then show ?thesis using t False by (simp add: walk.simps [of _ _ p])
  qed (use t in \<open>auto simp: walk.simps [of _ _ p]\<close>)
qed

lemma not_granted_without_acl:
  assumes "\<forall>k. ends_with ''.acl'' k \<longrightarrow> \<not> is_ok (s_get ops s k)"
  shows "\<not> write_granted env ops s p mode agent"
  using walk_without_acl [OF assms]
  by (simp add: write_granted_def find_effective_acl_dyn_def evaluate_access_ctx_with_registry_def evaluate_access_ctx_inner_def)

text \<open>The storages a server can bring about, over any sequence of requests; the clock and the other
  parameters may differ from one request to the next.\<close>

inductive served :: "AppState \<Rightarrow> 's storage_ops \<Rightarrow> 's \<Rightarrow> 's \<Rightarrow> bool" for app ops s where
  start: "served app ops s s"
| request: "served app ops s s1 \<Longrightarrow> build_app env app ops s1 req = (s2, rsp) \<Longrightarrow> served app ops s s2"

section \<open>An example pod\<close>

definition ex_grant :: "string \<Rightarrow> AclDocument" where
  "ex_grant m = \<lparr>doc_context = None, doc_graph = Some [ex_public\<lparr>aa_default := Some (Single (IdRef ''/'')), aa_mode := Some (Single (IdRef m))\<rparr>]\<rparr>"

definition ex_server :: server_env where
  "ex_server = \<lparr>se_nip98 = ex_nip98_env, se_now = 0, se_uuid = ''u'',
     se_acl = \<lparr>ac_from_slice = (\<lambda>b. if b = ''W'' then Some (ex_grant ''acl:Write'')
        else if b = ''C'' then Some (ex_grant ''acl:Control'') else None), ac_env = (\<lambda>_. None)\<rparr>,
     se_wac = ex_env, se_sparql = (\<lambda>_. None), se_json_from = (\<lambda>_. None), se_json_to = (\<lambda>_. []),
     se_pointer = rfc_pointer, se_to_str_ok = (\<lambda>_. True), se_from_str_ok = (\<lambda>_. True),
     se_percent_decode = id, se_merge_slashes = id\<rparr>"

definition ex_app :: AppState where
  "ex_app = \<lparr>ap_dotfiles = with_defaults, ap_body_cap = 100, ap_nodeinfo =
     \<lparr>ni_software_name = [], ni_software_version = [], ni_open_registrations = False, ni_total_users = 0, ni_base_url = []\<rparr>\<rparr>"

definition ex_ops :: "MemoryBackend storage_ops" where
  "ex_ops = memory_ops id 0"

definition ex_pod :: MemoryBackend where
  "ex_pod = fst (mem_put id 0 MemoryBackend_new ''/.acl'' ''W'' ''application/ld+json'')"

definition ex_request :: "string \<Rightarrow> string \<Rightarrow> bytes \<Rightarrow> HttpRequest" where
  "ex_request m p b = \<lparr>rq_method = m, rq_path = p, rq_host = ''h'', rq_headers = (\<lambda>_. None), rq_query_resource = None, rq_body = b\<rparr>"

lemma ex_storage: "pod_storage ex_ops mem_normalize mem_invar"
  unfolding ex_ops_def by (rule mem.pod_storage_axioms)

lemma ex_pod_invar: "mem_invar ex_pod"
  unfolding ex_pod_def using mem_put_invar [OF mem_invar_new] by (metis prod.collapse)

lemma ex_parents:
  "acl_parent ''/a'' = ''/''" "acl_parent ''/a.acl'' = ''/''"
  "acl_key ''/a'' = ''/a.acl''" "acl_key ''/a.acl'' = ''/a.acl.acl''" "acl_key ''/'' = ''/.acl''"
  by code_simp+

lemma ex_resolved: "find_effective_acl_dyn (se_acl ex_server) (s_get ex_ops ex_pod) p = Inr (Some (ex_grant ''acl:Write''))"
  if "p = ''/a'' \<or> p = ''/a.acl''"
  using that
  by (elim disjE) (simp_all add: find_effective_acl_dyn_def walk.simps [of _ _ "''/a''"] walk.simps [of _ _ "''/a.acl''"]
    walk.simps [of _ _ "''/''"] ex_parents try_acl_dyn_def ex_ops_def memory_ops_def ex_pod_def mem_defs
    MemoryBackend_new_def mem_normalize_def ex_server_def parse_jsonld_acl_def parse_jsonld_acl_with_limits_def
    env_usize_def MAX_ACL_BYTES_def MAX_ACL_JSON_DEPTH_def check_json_depth_def)

lemma ex_granted:
  "write_granted ex_server ex_ops ex_pod ''/a'' Write None" "write_granted ex_server ex_ops ex_pod ''/a.acl'' Write None"
  "\<not> write_granted ex_server ex_ops ex_pod ''/a'' Control None"
  by (simp_all add: write_granted_def ex_resolved) code_simp+

lemma enforce_write_granted: "write_granted env ops s path mode agent \<Longrightarrow> enforce_write env ops s path mode agent = Inr ()"
  by (rule enforce_write_cases [of env ops s path mode agent]) simp_all

lemma ex_anonymous: "request_agent ex_server (ex_request m p b) = None"
  by (simp add: request_agent_def agent_uri_def extract_pubkey_def header_str_def ex_request_def)

lemma ex_guards:
  "\<not> dotfile_guard_denies ex_app ''/a''" "\<not> path_is_traversal ex_server ''/a''"
  "\<not> dotfile_guard_denies ex_app ''/a.acl''" "\<not> path_is_traversal ex_server ''/a.acl''"
  by code_simp+

definition ex_pod_after :: "string \<Rightarrow> bytes \<Rightarrow> MemoryBackend" where
  "ex_pod_after p b = fst (mem_put id 0 ex_pod p b ''application/octet-stream'')"

lemma ex_put:
  assumes "p = ''/a'' \<or> p = ''/a.acl''" "length b \<le> 100"
  shows "\<exists>rsp. build_app ex_server ex_app ex_ops ex_pod (ex_request ''PUT'' p b) = (ex_pod_after p b, rsp) \<and> rs_status rsp = 201"
proof -
  have g: "enforce_write ex_server ex_ops ex_pod p Write None = Inr ()"
    using assms(1) ex_granted by (auto intro: enforce_write_granted)
  have guards: "\<not> dotfile_guard_denies ex_app p" "\<not> path_is_traversal ex_server p" using assms(1) ex_guards by auto
  have p: "\<not> is_container p" "starts_with ''/'' p" using assms(1) by (auto simp: is_container_def ends_with_def)
  obtain mt where "s_put ex_ops ex_pod p b ''application/octet-stream'' = (ex_pod_after p b, Inr mt)"
    by (simp add: ex_ops_def memory_ops_def ex_pod_after_def mem_put_def Let_def)
  then have "\<exists>rsp. handle_put ex_server ex_ops ex_pod (ex_request ''PUT'' p b) = (ex_pod_after p b, Inr rsp) \<and> rs_status rsp = 201"
    using g p(1) ex_anonymous [of "''PUT''" p b]
    by (simp add: handle_put_def store_put_def ex_request_def header_str_def)
  then show ?thesis
    using guards p(2) assms(2)
    by (auto simp: build_app_def route_def Let_def with_body_def ex_app_def ex_request_def ex_server_def
        dotfile_guard_denies_def)
qed

section \<open>Properties\<close>

text \<open>C1: The storage changes only by authorised writes: whenever the server, on any request, leaves a
  different storage behind, the request passed both path guards, its method is one that writes, the
  effective ACL of its path grants the mode the method needs to the agent the request proved to be,
  the change is one storage operation on the request's target, and the answer is \<open>201\<close> or \<open>204\<close>.\<close>

theorem storage_changes_are_authorised:
  assumes "pod_storage ops key invar" "build_app env app ops s req = (s', rsp)" "s' \<noteq> s"
  shows "authorised_write env ops s (merged env req) s' rsp \<and>
    \<not> dotfile_guard_denies app (rq_path req) \<and> \<not> path_is_traversal env (rq_path req)"
  using pod_storage.build_app_effect [OF assms] by blast

theorem storage_changes_are_authorised_witness:
  "\<exists>rsp. authorised_write ex_server ex_ops ex_pod (merged ex_server (ex_request ''PUT'' ''/a'' ''x'')) (ex_pod_after ''/a'' ''x'') rsp"
proof -
  obtain rsp where r: "build_app ex_server ex_app ex_ops ex_pod (ex_request ''PUT'' ''/a'' ''x'') = (ex_pod_after ''/a'' ''x'', rsp)"
    using ex_put [of "''/a''" "''x''"] by auto
  have "mb_data (ex_pod_after ''/a'' ''x'') \<noteq> mb_data ex_pod"
    by (simp add: ex_pod_after_def ex_pod_def mem_put_def Let_def mem_normalize_def MemoryBackend_new_def)
  then have "ex_pod_after ''/a'' ''x'' \<noteq> ex_pod" by auto
  then show ?thesis using storage_changes_are_authorised [OF ex_storage r] by blast
qed

text \<open>C2: On any storage, whatever its operations do: after an answer of \<open>400\<close> or above the storage is
  what it was, unless the request passed both path guards, was granted the write it asks for, and the
  storage itself refused it; then the storage is exactly what that one failed operation on the
  request's target left. A guard, access control, a body limit or a failed precondition never changes
  anything; and where failed storage operations change nothing, as in the in-memory backend, no error
  answer does.\<close>

theorem error_answers_change_nothing:
  assumes "build_app env app ops s req = (s', rsp)" "rs_status rsp \<ge> 400"
  shows "(s' = s \<or>
      failed_write env ops s (merged env req) s' rsp \<and>
      \<not> dotfile_guard_denies app (rq_path req) \<and> \<not> path_is_traversal env (rq_path req)) \<and>
    (failures_atomic ops \<longrightarrow> s' = s)"
proof (cases "s' = s")
  case False
  have "failed_write env ops s (merged env req) s' rsp"
    using build_app_outcome(1) [OF assms(1) False] assms(2) by (auto simp: authorised_write_def)
  then show ?thesis
    using build_app_outcome(2,3) [OF assms(1) False] failed_write_atomic [of ops env s "merged env req" s' rsp] by simp
qed simp

theorem error_answers_change_nothing_witness:
  "fst (build_app ex_server ex_app ex_ops ex_pod (ex_request ''DELETE'' ''/.env'' [])) = ex_pod"
proof -
  have d: "dotfile_guard_denies ex_app ''/.env''" by code_simp
  then have "build_app ex_server ex_app ex_ops ex_pod (ex_request ''DELETE'' ''/.env'' []) =
      (ex_pod, response 403 ''dotfile path denied by allowlist'')"
    by (simp add: build_app_def ex_request_def)
  then show ?thesis
    using error_answers_change_nothing [of ex_server ex_app ex_ops ex_pod] pod_storage.failures_atomic [OF ex_storage] by simp
qed

text \<open>On a storage whose operations are local, a request touches no resource but its target: the one it
  names, or for \<open>POST\<close> the child its slug names. Every other resource reads as before, and the storage's
  invariant is kept.\<close>

theorem requests_are_local:
  assumes "pod_storage ops key invar" "invar s" "build_app env app ops s req = (s', rsp)"
    and "\<forall>t. write_target env (merged env req) = Some t \<longrightarrow> key q \<noteq> key t"
  shows "s_get ops s' q = s_get ops s q \<and> invar s'"
proof (cases "s' = s")
  case False
  then obtain t where "write_target env (merged env req) = Some t" "store_step ops t s s'"
    using pod_storage.build_app_effect(1) [OF assms(1,3)] by (auto simp: authorised_write_def)
  then show ?thesis
    using assms(4) pod_storage.store_step_other [OF assms(1) _ assms(2)] pod_storage.store_step_invar [OF assms(1) _ assms(2)]
    by blast
qed (use assms(2) in simp)

theorem requests_are_local_witness:
  "s_get ex_ops (ex_pod_after ''/a'' ''x'') ''/.acl'' = s_get ex_ops ex_pod ''/.acl''"
proof -
  obtain rsp where r: "build_app ex_server ex_app ex_ops ex_pod (ex_request ''PUT'' ''/a'' ''x'') = (ex_pod_after ''/a'' ''x'', rsp)"
    using ex_put [of "''/a''" "''x''"] by auto
  have "\<forall>t. write_target ex_server (merged ex_server (ex_request ''PUT'' ''/a'' ''x'')) = Some t \<longrightarrow>
      mem_normalize ''/.acl'' \<noteq> mem_normalize t"
    by (simp add: write_target_def merged_def ex_request_def ex_server_def mem_normalize_def)
  then show ?thesis using requests_are_local [OF ex_storage ex_pod_invar r] by blast
qed

text \<open>C3: What is put is what is got: after a \<open>PUT\<close> answered \<open>201\<close>, a \<open>GET\<close> of the same path is answered
  \<open>200\<close> with the same bytes and the media type of the \<open>PUT\<close>, whoever asks, unless the path is one of
  the discovery documents.\<close>

theorem put_then_get:
  assumes "pod_storage ops key invar" "invar s"
    and "build_app env app ops s req = (s', rsp)" "rq_method req = ''PUT''" "rs_status rsp = 201"
    and "rq_method req2 = ''GET''" "rq_path req2 = rq_path req"
    and "rq_path (merged env req) \<notin> set well_known_paths"
  shows "\<exists>rsp2. build_app env app ops s' req2 = (s', rsp2) \<and> rs_status rsp2 = 200 \<and> rs_body rsp2 = rq_body req \<and>
    (let ct = unwrap_or (header_str env req ''content-type'') ''application/octet-stream'' in
     se_from_str_ok env ct \<longrightarrow> header_of rsp2 ''content-type'' = Some ct)"
proof -
  have p: "rq_path (merged env req2) = rq_path (merged env req)" using assms(7) by (simp add: merged_def)
  obtain mt where put: "s_put ops s (rq_path (merged env req)) (rq_body req)
      (unwrap_or (header_str env req ''content-type'') ''application/octet-stream'') = (s', Inr mt)"
    using build_app_put_created [OF assms(3-5)] by blast
  then have "s_get ops s' (rq_path (merged env req2)) = Inr (rq_body req, mt)"
    and "rm_content_type mt = unwrap_or (header_str env req ''content-type'') ''application/octet-stream''"
    using pod_storage.put_get_same [OF assms(1,2)] pod_storage.put_meta [OF assms(1)] p by auto
  then show ?thesis
    using build_app_put_created [OF assms(3-5)] build_app_get [OF assms(6), of app env ops s'] assms(7,8) p
    by (simp add: Let_def)
qed

theorem put_then_get_witness:
  "\<exists>rsp. build_app ex_server ex_app ex_ops (ex_pod_after ''/a'' ''x'') (ex_request ''GET'' ''/a'' []) = (ex_pod_after ''/a'' ''x'', rsp) \<and>
     rs_status rsp = 200 \<and> rs_body rsp = ''x''"
proof -
  obtain rsp where "build_app ex_server ex_app ex_ops ex_pod (ex_request ''PUT'' ''/a'' ''x'') = (ex_pod_after ''/a'' ''x'', rsp)"
      "rs_status rsp = 201"
    using ex_put [of "''/a''" "''x''"] by auto
  moreover have "rq_path (merged ex_server (ex_request ''PUT'' ''/a'' ''x'')) \<notin> set well_known_paths"
    by (simp add: merged_def ex_request_def ex_server_def well_known_paths_def)
  ultimately have "\<exists>rsp2. build_app ex_server ex_app ex_ops (ex_pod_after ''/a'' ''x'') (ex_request ''GET'' ''/a'' []) =
      (ex_pod_after ''/a'' ''x'', rsp2) \<and> rs_status rsp2 = 200 \<and> rs_body rsp2 = rq_body (ex_request ''PUT'' ''/a'' ''x'')"
    using put_then_get [OF ex_storage ex_pod_invar, of ex_server ex_app "ex_request ''PUT'' ''/a'' ''x''" _ rsp "ex_request ''GET'' ''/a'' []"]
    by (auto simp: ex_request_def)
  then show ?thesis by (simp add: ex_request_def)
qed

text \<open>C4: Access is denied by default: a pod that holds no access-control document stays exactly as it is
  under every sequence of requests.\<close>

theorem pod_without_acl_is_frozen:
  assumes "pod_storage ops key invar" "\<forall>k. ends_with ''.acl'' k \<longrightarrow> \<not> is_ok (s_get ops s k)" "served app ops s s'"
  shows "s' = s"
  using assms(3)
proof (induction rule: served.induct)
  case (request s1 env req s2 rsp)
  then show ?case
    using pod_storage.build_app_effect(1) [OF assms(1) request.hyps(2)] not_granted_without_acl [OF assms(2)]
    by (auto simp: authorised_write_def)
qed simp

theorem pod_without_acl_is_frozen_witness:
  "fst (build_app ex_server ex_app ex_ops MemoryBackend_new (ex_request ''PUT'' ''/a'' ''x'')) = MemoryBackend_new"
proof (rule pod_without_acl_is_frozen [OF ex_storage])
  show "\<forall>k. ends_with ''.acl'' k \<longrightarrow> \<not> is_ok (s_get ex_ops MemoryBackend_new k)"
    by (simp add: ex_ops_def memory_ops_def MemoryBackend_new_def mem_get_def)
  show "served ex_app ex_ops MemoryBackend_new
      (fst (build_app ex_server ex_app ex_ops MemoryBackend_new (ex_request ''PUT'' ''/a'' ''x'')))"
    by (rule served.request [OF served.start]) (rule prod.collapse [symmetric])
qed

text \<open>C23: A patch forgets: on a resource that exists, an N3 patch answered \<open>204\<close> leaves the patch
  applied to the empty graph, whatever the resource held before.\<close>

theorem n3_patch_discards_content:
  assumes "pod_storage ops key invar" "invar s"
    and "handle_patch env ops s req = (s', Inr rsp)" "rs_status rsp = 204"
    and "patch_dialect_from_mime (unwrap_or (header_str env req ''content-type'') []) = Some N3"
    and "s_get ops s (rq_path req) = Inr (current, mt)"
  shows "\<exists>out mt'. apply_n3_patch {} (rq_body req) = Inr out \<and>
    s_get ops s' (rq_path req) = Inr (to_ntriples (po_graph out), mt')"
proof -
  have c: "\<not> is_container (rq_path req)" using assms(3,4) by (auto simp: handle_patch_def)
  have g: "enforce_write env ops s (rq_path req) Append (request_agent env req) = Inr ()"
    using assms(3) c by (cases rule: enforce_write_cases [of env ops s "rq_path req" Append "request_agent env req"])
      (auto simp: handle_patch_def)
  have u: "from_utf8 (rq_body req) = Some (rq_body req)"
    using assms(3-5) c g by (auto simp: handle_patch_def Let_def from_utf8_def split: if_splits)
  have e: "patch_existing env ops s (rq_path req) N3 (rq_body req) current mt = (s', Inr rsp)"
    using assms(3,5,6) c g u by (simp add: handle_patch_def Let_def)
  then obtain out where out: "apply_n3_patch {} (rq_body req) = Inr out"
    by (cases "apply_n3_patch {} (rq_body req)") (auto simp: patch_existing_def Let_def)
  obtain s1 q where q: "s_put ops s (rq_path req) (to_ntriples (po_graph out)) ''text/turtle'' = (s1, q)" by force
  then obtain mt' where "q = Inr mt'" "s1 = s'"
    using e out by (cases q) (auto simp: patch_existing_def Let_def store_put_def graph_to_turtle_def)
  then show ?thesis using out q pod_storage.put_get_same [OF assms(1,2)] by blast
qed

lemma ex_patch_granted: "write_granted ex_server ex_ops (ex_pod_after ''/a'' ''x'') ''/a'' Append None"
proof -
  have f: "find_effective_acl_dyn (se_acl ex_server) (s_get ex_ops (ex_pod_after ''/a'' ''x'')) ''/a'' = Inr (Some (ex_grant ''acl:Write''))"
    by (simp add: find_effective_acl_dyn_def walk.simps [of _ _ "''/a''"] walk.simps [of _ _ "''/''"] ex_parents
        try_acl_dyn_def ex_ops_def memory_ops_def ex_pod_after_def ex_pod_def mem_defs MemoryBackend_new_def
        mem_normalize_def ex_server_def parse_jsonld_acl_def parse_jsonld_acl_with_limits_def env_usize_def
        MAX_ACL_BYTES_def MAX_ACL_JSON_DEPTH_def check_json_depth_def)
  show ?thesis by (simp add: write_granted_def f) code_simp
qed

theorem n3_patch_discards_content_witness:
  "\<exists>s' mt. s_get ex_ops s' ''/a'' = Inr ([], mt)"
proof -
  let ?req = "(ex_request ''PATCH'' ''/a'' [])\<lparr>rq_headers := (\<lambda>n. if n = ''content-type'' then Some ''text/n3'' else None)\<rparr>"
  let ?pod = "ex_pod_after ''/a'' ''x''"
  have n3: "apply_n3_patch {} [] = Inr \<lparr>po_graph = {}, po_inserted = 0, po_deleted = 0\<rparr>" by code_simp
  have d: "patch_dialect_from_mime ''text/n3'' = Some N3" and u: "from_utf8 [] = Some []" and c: "\<not> is_container ''/a''"
    by code_simp+
  have h: "header_str ex_server ?req ''content-type'' = Some ''text/n3''"
    by (simp add: header_str_def ex_server_def)
  have "request_agent ex_server ?req = None"
    by (simp add: request_agent_def agent_uri_def extract_pubkey_def header_str_def)
  then have g: "enforce_write ex_server ex_ops ?pod ''/a'' Append (request_agent ex_server ?req) = Inr ()"
    using enforce_write_granted [OF ex_patch_granted] by simp
  obtain mt where get: "s_get ex_ops ?pod ''/a'' = Inr (''x'', mt)"
    by (simp add: ex_ops_def memory_ops_def ex_pod_after_def mem_defs mem_normalize_def update_conv')
  obtain s' mt' where "s_put ex_ops ?pod ''/a'' (to_ntriples {}) ''text/turtle'' = (s', Inr mt')"
    by (simp add: ex_ops_def memory_ops_def mem_put_def Let_def)
  then have p: "handle_patch ex_server ex_ops ?pod ?req = (s', Inr (response 204 []))"
    using g h d u c get n3
    by (simp add: handle_patch_def ex_request_def patch_existing_def Let_def store_put_def graph_to_turtle_def)
  have "mem_invar ?pod"
    unfolding ex_pod_after_def using mem_put_invar [OF ex_pod_invar] by (metis prod.collapse)
  then have "\<exists>out mt'. apply_n3_patch {} [] = Inr out \<and> s_get ex_ops s' ''/a'' = Inr (to_ntriples (po_graph out), mt')"
    using n3_patch_discards_content [OF ex_storage _ p] h d get by (simp add: ex_request_def)
  moreover have "to_ntriples {} = []" by code_simp
  ultimately show ?thesis using n3 by auto
qed

text \<open>Access control over access control is missing: on any pod, an agent with \<open>Write\<close> on the
  access-control document of a resource, and no \<open>Control\<close> over the resource, has whatever mode it likes
  on the resource after one \<open>PUT\<close> of a document that grants it.\<close>

lemma acl_put_escalates:
  assumes "pod_storage ops key invar" "invar s"
    and "handle_put env ops s req = (s', r)" "rs_status (render_result r) = 201" "rq_path req = acl_key path"
    and "\<And>m. try_acl_dyn (se_acl env) (Inr (rq_body req, m)) = Some (Inr doc)"
    and "evaluate_access_ctx_with_registry (se_wac env) (Some doc) (agent_context agent) path mode None
          (static_is_member StaticGroupMembership_new) default_with_client_and_issuer"
  shows "write_granted env ops s' path mode agent"
proof -
  obtain mt where "s_put ops s (acl_key path) (rq_body req)
      (unwrap_or (header_str env req ''content-type'') ''application/octet-stream'') = (s', Inr mt)"
    using handle_put_created [OF assms(3,4)] assms(5) by auto
  then have "s_get ops s' (acl_key path) = Inr (rq_body req, mt)"
    by (rule pod_storage.put_get_same [OF assms(1,2)])
  then have "find_effective_acl_dyn (se_acl env) (s_get ops s') path = Inr (Some doc)"
    using assms(6) by (simp add: find_effective_acl_dyn_def walk.simps [of _ _ path])
  then show ?thesis using assms(7) by (simp add: write_granted_def)
qed

end
