(* ===== verification/Cors.thy ===== *)
theory Cors
  imports Prelude
begin

text \<open>
  The CORS policy (\<open>security/cors.rs\<close>): the origin strategy, the policy built from defaults or from
  the environment, and the header sets of preflight and normal responses. The environment is passed
  as the values of the three variables; \<open>Duration\<close> is its number of seconds, all that is read of it.
\<close>

section \<open>Model\<close>

definition DEFAULT_MAX_AGE_SECS :: u64 where
  "DEFAULT_MAX_AGE_SECS = 3600"

definition DEFAULT_EXPOSE_HEADERS :: "string list" where
  "DEFAULT_EXPOSE_HEADERS = [''WAC-Allow'', ''Link'', ''ETag'', ''Accept-Patch'', ''Accept-Post'', ''Updates-Via'']"

datatype AllowedOrigins = Wildcard | Exact "string set"

record CorsPolicy =
  cp_allowed_origins :: AllowedOrigins
  cp_allow_credentials :: bool
  cp_expose_headers :: "string list"
  cp_max_age :: u64

definition CorsPolicy_new :: CorsPolicy where
  "CorsPolicy_new = \<lparr>cp_allowed_origins = Wildcard, cp_allow_credentials = False,
     cp_expose_headers = DEFAULT_EXPOSE_HEADERS, cp_max_age = DEFAULT_MAX_AGE_SECS\<rparr>"

definition parse_origins :: "string \<Rightarrow> AllowedOrigins" where
  "parse_origins raw =
     (let trimmed = trim raw in
      if trimmed = ''*'' then Wildcard
      else (let s = filter (\<lambda>s. s \<noteq> []) (map trim (split_on (CHR '','') trimmed)) in
        if s = [] then Wildcard else Exact (set s)))"

definition cors_from_env :: "string option \<Rightarrow> string option \<Rightarrow> string option \<Rightarrow> CorsPolicy" where
  "cors_from_env origins_var credentials_var max_age_var =
     \<lparr>cp_allowed_origins = (case origins_var of Some raw \<Rightarrow> parse_origins raw | None \<Rightarrow> Wildcard),
      cp_allow_credentials =
        unwrap_or (map_option (\<lambda>v. List.member [''1'', ''true'', ''yes'', ''on''] (to_ascii_lowercase (trim v))) credentials_var) False,
      cp_expose_headers = DEFAULT_EXPOSE_HEADERS,
      cp_max_age = unwrap_or (Option.bind max_age_var (\<lambda>v. parse_u64 (trim v))) DEFAULT_MAX_AGE_SECS\<rparr>"

definition with_allowed_origins :: "CorsPolicy \<Rightarrow> AllowedOrigins \<Rightarrow> CorsPolicy" where
  "with_allowed_origins p origins = p\<lparr>cp_allowed_origins := origins\<rparr>"

definition with_allow_credentials :: "CorsPolicy \<Rightarrow> bool \<Rightarrow> CorsPolicy" where
  "with_allow_credentials p allow = p\<lparr>cp_allow_credentials := allow\<rparr>"

definition with_expose_headers :: "CorsPolicy \<Rightarrow> string list \<Rightarrow> CorsPolicy" where
  "with_expose_headers p headers = p\<lparr>cp_expose_headers := headers\<rparr>"

definition with_max_age :: "CorsPolicy \<Rightarrow> u64 \<Rightarrow> CorsPolicy" where
  "with_max_age p duration = p\<lparr>cp_max_age := duration\<rparr>"

definition echo_origin :: "CorsPolicy \<Rightarrow> string option \<Rightarrow> string option" where
  "echo_origin p origin =
     (case cp_allowed_origins p of
        Wildcard \<Rightarrow> if cp_allow_credentials p then origin else Some (unwrap_or origin ''*'')
      | Exact s \<Rightarrow> Option.bind origin (\<lambda>o1. if o1 \<in> s then Some o1 else None))"

definition default_methods :: string where
  "default_methods = ''GET, HEAD, POST, PUT, PATCH, DELETE, OPTIONS''"

definition normalise_header_list :: "string \<Rightarrow> string" where
  "normalise_header_list raw = join '', '' (filter (\<lambda>s. s \<noteq> []) (map trim (split_on (CHR '','') raw)))"

definition preflight_headers :: "CorsPolicy \<Rightarrow> string option \<Rightarrow> string \<Rightarrow> string \<Rightarrow> (string \<times> string) list option" where
  "preflight_headers p origin req_method req_headers =
     Option.bind (echo_origin p origin) (\<lambda>echoed_origin.
       Some ([(''Access-Control-Allow-Origin'', echoed_origin), (''Vary'', ''Origin'')]
         @ (if cp_allow_credentials p then [(''Access-Control-Allow-Credentials'', ''true'')] else [])
         @ [(''Access-Control-Allow-Methods'',
               if trim req_method = [] then default_methods else to_ascii_uppercase (trim req_method)),
            (''Access-Control-Allow-Headers'', normalise_header_list req_headers),
            (''Access-Control-Max-Age'', show_nat (unat (cp_max_age p)))]))"

definition response_headers :: "CorsPolicy \<Rightarrow> string option \<Rightarrow> (string \<times> string) list" where
  "response_headers p origin =
     (case echo_origin p origin of
        Some echoed \<Rightarrow>
          [(''Access-Control-Allow-Origin'', echoed), (''Vary'', ''Origin'')]
          @ (if cp_allow_credentials p then [(''Access-Control-Allow-Credentials'', ''true'')] else [])
      | None \<Rightarrow> [])
     @ (if cp_expose_headers p \<noteq> [] then [(''Access-Control-Expose-Headers'', join '', '' (cp_expose_headers p))] else [])"

section \<open>Lemmas\<close>

definition origin_admitted :: "CorsPolicy \<Rightarrow> string option \<Rightarrow> bool" where
  "origin_admitted p origin \<longleftrightarrow>
     (case cp_allowed_origins p of
        Wildcard \<Rightarrow> cp_allow_credentials p \<longrightarrow> origin \<noteq> None
      | Exact s \<Rightarrow> origin \<noteq> None \<and> the origin \<in> s)"

lemma echo_origin_Some_iff:
  "echo_origin p origin = Some v \<longleftrightarrow>
     origin_admitted p origin \<and> v = (case origin of Some o1 \<Rightarrow> o1 | None \<Rightarrow> ''*'')"
  by (auto simp: echo_origin_def origin_admitted_def unwrap_or_def split: AllowedOrigins.splits option.splits Option.bind_splits if_splits)

lemma echo_origin_None_iff: "echo_origin p origin = None \<longleftrightarrow> \<not> origin_admitted p origin"
  using echo_origin_Some_iff [of p origin] by (cases "echo_origin p origin") auto

section \<open>Properties\<close>

text \<open>An \<open>Access-Control-Allow-Origin\<close> is sent exactly for an admitted origin, on preflight and on
  normal responses alike, with the request's own origin as its value, or \<open>*\<close> when there was none;
  it always comes with \<open>Vary: Origin\<close>, and credentials are allowed only together with it.\<close>

theorem cors_allow_origin_spec:
  "((''Access-Control-Allow-Origin'', v) \<in> set (response_headers p origin) \<longleftrightarrow>
      origin_admitted p origin \<and> v = (case origin of Some o1 \<Rightarrow> o1 | None \<Rightarrow> ''*'')) \<and>
   ((\<exists>hs. preflight_headers p origin rm rh = Some hs \<and> (''Access-Control-Allow-Origin'', v) \<in> set hs) \<longleftrightarrow>
      origin_admitted p origin \<and> v = (case origin of Some o1 \<Rightarrow> o1 | None \<Rightarrow> ''*'')) \<and>
   ((''Vary'', ''Origin'') \<in> set (response_headers p origin) \<longleftrightarrow> origin_admitted p origin) \<and>
   ((''Access-Control-Allow-Credentials'', ''true'') \<in> set (response_headers p origin) \<longleftrightarrow>
      origin_admitted p origin \<and> cp_allow_credentials p)"
proof (cases "origin_admitted p origin")
  case True
  then have "echo_origin p origin = Some (case origin of Some o1 \<Rightarrow> o1 | None \<Rightarrow> ''*'')"
    by (simp add: echo_origin_Some_iff)
  with True show ?thesis by (simp add: response_headers_def preflight_headers_def)
next
  case False
  then have "echo_origin p origin = None" by (simp add: echo_origin_None_iff)
  with False show ?thesis by (simp add: response_headers_def preflight_headers_def)
qed

text \<open>The combination that browsers forbid never leaves the policy: whatever the configuration, a
  response that allows credentials does not carry the wildcard origin unless the request itself
  claimed the origin \<open>*\<close>.\<close>

theorem cors_no_wildcard_with_credentials:
  assumes "(''Access-Control-Allow-Credentials'', c) \<in> set (response_headers p origin)" "origin \<noteq> Some ''*''"
  shows "(''Access-Control-Allow-Origin'', ''*'') \<notin> set (response_headers p origin)"
proof -
  have "cp_allow_credentials p" using assms(1)
    by (auto simp: response_headers_def split: option.splits if_splits)
  then have "echo_origin p origin \<noteq> Some ''*''"
    using assms(2) by (auto simp: echo_origin_def split: AllowedOrigins.splits Option.bind_splits if_splits)
  then show ?thesis by (auto simp: response_headers_def split: option.splits)
qed

theorem cors_no_wildcard_with_credentials_witness:
  "(''Access-Control-Allow-Origin'', ''*'') \<notin>
     set (response_headers (with_allow_credentials CorsPolicy_new True) (Some ''https://a''))"
  by (rule cors_no_wildcard_with_credentials [where c = "''true''"])
     (simp_all add: response_headers_def echo_origin_def with_allow_credentials_def CorsPolicy_new_def)

end
