(* ===== verification/Ssrf.thy ===== *)
theory Ssrf
  imports Prelude
begin

text \<open>
  The SSRF guard (\<open>security/ssrf.rs\<close>) and the counters it feeds (\<open>metrics.rs\<close>). Addresses are kept at
  their width: four octets, eight 16-bit segments. The predicates of \<open>std::net\<close> that the
  classification uses are written out. Name resolution (\<open>tokio::net::lookup_host\<close>) is a parameter,
  \<open>None\<close> where it fails, and so is \<open>Url::parse\<close>, of whose result the code uses the host and the port.
\<close>

unbundle bit_operations_syntax

section \<open>Addresses\<close>

datatype Ipv4Addr = Ipv4 u8 u8 u8 u8

datatype Ipv6Addr = Ipv6 u16 u16 u16 u16 u16 u16 u16 u16

datatype IpAddr = V4 Ipv4Addr | V6 Ipv6Addr

datatype IpClass = Public | Private | Loopback | LinkLocal | Multicast | Reserved

fun v4_is_documentation :: "Ipv4Addr \<Rightarrow> bool" where
  "v4_is_documentation (Ipv4 a b c d) \<longleftrightarrow>
     (a = 192 \<and> b = 0 \<and> c = 2) \<or> (a = 198 \<and> b = 51 \<and> c = 100) \<or> (a = 203 \<and> b = 0 \<and> c = 113)"

fun v4_is_private :: "Ipv4Addr \<Rightarrow> bool" where
  "v4_is_private (Ipv4 a b c d) \<longleftrightarrow> a = 10 \<or> (a = 172 \<and> 16 \<le> b \<and> b \<le> 31) \<or> (a = 192 \<and> b = 168)"

fun classify_v4 :: "Ipv4Addr \<Rightarrow> IpClass" where
  "classify_v4 (Ipv4 a b c d) =
     (if a = 169 \<and> b = 254 \<and> c = 169 \<and> d = 254 then Reserved
      else if (a = 0 \<and> b = 0 \<and> c = 0 \<and> d = 0) \<or> (a = 255 \<and> b = 255 \<and> c = 255 \<and> d = 255)
        \<or> v4_is_documentation (Ipv4 a b c d) then Reserved
      else if a = 127 then Loopback
      else if a = 169 \<and> b = 254 then LinkLocal
      else if 224 \<le> a \<and> a \<le> 239 then Multicast
      else if v4_is_private (Ipv4 a b c d) then Private
      else if a = 0 then Reserved
      else if a = 100 \<and> b AND 0xC0 = 0x40 then Reserved
      else if a = 192 \<and> b = 0 \<and> c = 0 then Reserved
      else if a = 192 \<and> b = 88 \<and> c = 99 then Reserved
      else if a = 198 \<and> (b = 18 \<or> b = 19) then Reserved
      else if 240 \<le> a then Reserved
      else Public)"

fun to_ipv4_mapped :: "Ipv6Addr \<Rightarrow> Ipv4Addr option" where
  "to_ipv4_mapped (Ipv6 s0 s1 s2 s3 s4 s5 s6 s7) =
     (if s0 = 0 \<and> s1 = 0 \<and> s2 = 0 \<and> s3 = 0 \<and> s4 = 0 \<and> s5 = 0xFFFF
      then Some (Ipv4 (ucast (drop_bit 8 s6)) (ucast s6) (ucast (drop_bit 8 s7)) (ucast s7)) else None)"

fun classify_v6 :: "Ipv6Addr \<Rightarrow> IpClass" where
  "classify_v6 (Ipv6 s0 s1 s2 s3 s4 s5 s6 s7) =
     (if s0 = 0xFD00 \<and> s1 = 0x0EC2 \<and> s2 = 0 \<and> s3 = 0 \<and> s4 = 0 \<and> s5 = 0 \<and> s6 = 0 \<and> s7 = 0x0254 then Reserved
      else if s0 = 0 \<and> s1 = 0 \<and> s2 = 0 \<and> s3 = 0 \<and> s4 = 0 \<and> s5 = 0 \<and> s6 = 0 \<and> s7 = 0 then Reserved
      else if s0 = 0 \<and> s1 = 0 \<and> s2 = 0 \<and> s3 = 0 \<and> s4 = 0 \<and> s5 = 0 \<and> s6 = 0 \<and> s7 = 1 then Loopback
      else if s0 AND 0xFF00 = 0xFF00 then Multicast
      else (case to_ipv4_mapped (Ipv6 s0 s1 s2 s3 s4 s5 s6 s7) of
        Some v4 \<Rightarrow> classify_v4 v4
      | None \<Rightarrow>
          if s0 AND 0xFFC0 = 0xFE80 then LinkLocal
          else if s0 AND 0xFE00 = 0xFC00 then Private
          else if s0 AND 0xFFC0 = 0xFEC0 then Private
          else if s0 = 0x0100 \<and> s1 = 0 \<and> s2 = 0 \<and> s3 = 0 then Reserved
          else if s0 = 0x2001 \<and> s1 = 0x0DB8 then Reserved
          else Public))"

fun classify :: "IpAddr \<Rightarrow> IpClass" where
  "classify (V4 v4) = classify_v4 v4"
| "classify (V6 v6) = classify_v6 v6"

section \<open>Metrics\<close>

record SecurityMetrics =
  sm_private :: u64
  sm_loopback :: u64
  sm_link_local :: u64
  sm_multicast :: u64
  sm_reserved :: u64

fun record_ssrf_block :: "IpClass \<Rightarrow> SecurityMetrics \<Rightarrow> SecurityMetrics" where
  "record_ssrf_block Private m = m\<lparr>sm_private := sm_private m + 1\<rparr>"
| "record_ssrf_block Loopback m = m\<lparr>sm_loopback := sm_loopback m + 1\<rparr>"
| "record_ssrf_block LinkLocal m = m\<lparr>sm_link_local := sm_link_local m + 1\<rparr>"
| "record_ssrf_block Multicast m = m\<lparr>sm_multicast := sm_multicast m + 1\<rparr>"
| "record_ssrf_block Reserved m = m\<lparr>sm_reserved := sm_reserved m + 1\<rparr>"
| "record_ssrf_block Public m = m\<lparr>sm_reserved := sm_reserved m + 1\<rparr>"

fun ssrf_blocked_total :: "SecurityMetrics \<Rightarrow> IpClass \<Rightarrow> u64" where
  "ssrf_blocked_total m Private = sm_private m"
| "ssrf_blocked_total m Loopback = sm_loopback m"
| "ssrf_blocked_total m LinkLocal = sm_link_local m"
| "ssrf_blocked_total m Multicast = sm_multicast m"
| "ssrf_blocked_total m Reserved = sm_reserved m"
| "ssrf_blocked_total m Public = sm_reserved m"

section \<open>Policy\<close>

datatype SsrfError =
    MissingHost string
  | DnsFailure string
  | NoAddresses string
  | Denylisted string IpAddr
  | BlockedClass string IpAddr IpClass

record SsrfPolicy =
  sp_allow_private :: bool
  sp_allow_loopback :: bool
  sp_allow_link_local :: bool
  sp_allowlist :: "string list"
  sp_denylist :: "string list"
  sp_metrics :: "SecurityMetrics option"

definition SsrfPolicy_new :: SsrfPolicy where
  "SsrfPolicy_new = \<lparr>sp_allow_private = False, sp_allow_loopback = False, sp_allow_link_local = False,
     sp_allowlist = [], sp_denylist = [], sp_metrics = None\<rparr>"

definition env_bool :: "string option \<Rightarrow> bool" where
  "env_bool var = unwrap_or (map_option (\<lambda>v. List.member [''1'', ''true'', ''yes'', ''on''] (to_ascii_lowercase (trim v))) var) False"

definition env_csv :: "string option \<Rightarrow> string list" where
  "env_csv var = unwrap_or (map_option (\<lambda>raw. filter (\<lambda>s. s \<noteq> []) (map trim (split_on (CHR '','') raw))) var) []"

definition ssrf_from_env :: "(string \<Rightarrow> string option) \<Rightarrow> SsrfPolicy" where
  "ssrf_from_env getenv = \<lparr>sp_allow_private = env_bool (getenv ''SSRF_ALLOW_PRIVATE''),
     sp_allow_loopback = env_bool (getenv ''SSRF_ALLOW_LOOPBACK''),
     sp_allow_link_local = env_bool (getenv ''SSRF_ALLOW_LINK_LOCAL''),
     sp_allowlist = env_csv (getenv ''SSRF_ALLOWLIST''), sp_denylist = env_csv (getenv ''SSRF_DENYLIST''),
     sp_metrics = None\<rparr>"

definition list_contains_host :: "string list \<Rightarrow> string \<Rightarrow> bool" where
  "list_contains_host hosts host_lower =
     list_ex (\<lambda>entry. let e = to_ascii_lowercase (trim entry); e_host = hd (split_on (CHR '':'') e) in
        e_host \<noteq> [] \<and> e_host = host_lower) hosts"

definition record_block :: "SsrfPolicy \<Rightarrow> IpClass \<Rightarrow> SsrfPolicy" where
  "record_block p cl = (case sp_metrics p of Some m \<Rightarrow> p\<lparr>sp_metrics := Some (record_ssrf_block cl m)\<rparr> | None \<Rightarrow> p)"

fun class_permitted :: "SsrfPolicy \<Rightarrow> IpClass \<Rightarrow> bool" where
  "class_permitted p Public = True"
| "class_permitted p Private = sp_allow_private p"
| "class_permitted p Loopback = sp_allow_loopback p"
| "class_permitted p LinkLocal = sp_allow_link_local p"
| "class_permitted p Multicast = False"
| "class_permitted p Reserved = False"

record parsed_url =
  pu_text :: string
  pu_host_str :: "string option"
  pu_host_ip :: "IpAddr option"
  pu_port :: "u16 option"

definition policy_resolve_and_check ::
    "(string \<Rightarrow> IpAddr list option) \<Rightarrow> SsrfPolicy \<Rightarrow> parsed_url \<Rightarrow> SsrfPolicy \<times> (SsrfError + IpAddr)" where
  "policy_resolve_and_check lookup_host p url =
     try_with p (ok_or (pu_host_str url) (MissingHost (pu_text url))) (\<lambda>host.
     let host_lower = to_ascii_lowercase host;
         lookup_target = host @ '':'' @ show_nat (unat (unwrap_or (pu_port url) 80)) in
     try_with p (ok_or (lookup_host lookup_target) (DnsFailure host)) (\<lambda>addrs.
     case addrs of
       [] \<Rightarrow> (p, Inl (NoAddresses host))
     | ip # _ \<Rightarrow>
         if list_contains_host (sp_denylist p) host_lower then (record_block p Reserved, Inl (Denylisted host ip))
         else if list_contains_host (sp_allowlist p) host_lower then (p, Inr ip)
         else if \<not> class_permitted p (classify ip) then
           (record_block p (classify ip), Inl (BlockedClass host ip (classify ip)))
         else (p, Inr ip)))"

section \<open>Free functions\<close>

definition is_known_metadata_hostname :: "string \<Rightarrow> bool" where
  "is_known_metadata_hostname host =
     List.member [''metadata.google.internal'', ''metadata'', ''metadata.goog'']
       (to_ascii_lowercase (hd (split_on (CHR '':'') host)))"

definition check_ip_safe :: "string \<Rightarrow> IpAddr \<Rightarrow> SsrfError + unit" where
  "check_ip_safe host ip = (if classify ip = Public then Inr () else Inl (BlockedClass host ip (classify ip)))"

definition metadata_ip :: IpAddr where
  "metadata_ip = V4 (Ipv4 169 254 169 254)"

text \<open>\<open>Url::parse\<close> gives \<open>None\<close> on a malformed URL; an IP host is rendered by the \<open>url\<close> crate.\<close>

definition is_safe_url :: "(string \<Rightarrow> parsed_url option) \<Rightarrow> string \<Rightarrow> SsrfError + unit" where
  "is_safe_url url_parse url =
     rbind (ok_or (url_parse url) (MissingHost url)) (\<lambda>parsed.
     rbind (ok_or (pu_host_str parsed) (MissingHost url)) (\<lambda>host.
     case pu_host_ip parsed of
       Some ip \<Rightarrow> check_ip_safe host ip
     | None \<Rightarrow> if is_known_metadata_hostname host then Inl (BlockedClass host metadata_ip Reserved) else Inr ()))"

fun check_all_safe :: "string \<Rightarrow> IpAddr option \<Rightarrow> IpAddr list \<Rightarrow> SsrfError + IpAddr option" where
  "check_all_safe host fst_ip [] = Inr fst_ip"
| "check_all_safe host fst_ip (ip # ips) =
     rbind (check_ip_safe host ip) (\<lambda>_. check_all_safe host (if fst_ip = None then Some ip else fst_ip) ips)"

definition resolve_and_check :: "(string \<Rightarrow> IpAddr list option) \<Rightarrow> string \<Rightarrow> SsrfError + IpAddr" where
  "resolve_and_check lookup_host host =
     (if is_known_metadata_hostname host then Inl (BlockedClass host metadata_ip Reserved)
      else (let lookup_target = (if CHR '':'' \<in> set host then host else host @ '':80'') in
        rbind (ok_or (lookup_host lookup_target) (DnsFailure host)) (\<lambda>addrs.
        rbind (check_all_safe host None addrs) (\<lambda>first. ok_or first (NoAddresses host)))))"

section \<open>Classification by address blocks\<close>

text \<open>The reference: the address as a number, and the blocks as network and prefix length.\<close>

fun ip_num :: "Ipv4Addr \<Rightarrow> nat" where
  "ip_num (Ipv4 a b c d) = unat a * 16777216 + unat b * 65536 + unat c * 256 + unat d"

definition net :: "nat \<Rightarrow> nat \<Rightarrow> nat \<Rightarrow> nat \<Rightarrow> nat" where
  "net a b c d = a * 16777216 + b * 65536 + c * 256 + d"

definition in_block :: "nat \<Rightarrow> nat \<times> nat \<Rightarrow> bool" where
  "in_block addr bl \<longleftrightarrow> addr div 2 ^ (32 - snd bl) = fst bl div 2 ^ (32 - snd bl)"

definition v4_blocks :: "((nat \<times> nat) \<times> IpClass) list" where
  "v4_blocks =
     [((net 169 254 169 254, 32), Reserved), ((net 0 0 0 0, 32), Reserved), ((net 255 255 255 255, 32), Reserved),
      ((net 192 0 2 0, 24), Reserved), ((net 198 51 100 0, 24), Reserved), ((net 203 0 113 0, 24), Reserved),
      ((net 127 0 0 0, 8), Loopback), ((net 169 254 0 0, 16), LinkLocal), ((net 224 0 0 0, 4), Multicast),
      ((net 10 0 0 0, 8), Private), ((net 172 16 0 0, 12), Private), ((net 192 168 0 0, 16), Private),
      ((net 0 0 0 0, 8), Reserved), ((net 100 64 0 0, 10), Reserved), ((net 192 0 0 0, 24), Reserved),
      ((net 192 88 99 0, 24), Reserved), ((net 198 18 0 0, 15), Reserved), ((net 240 0 0 0, 4), Reserved)]"

fun first_block :: "((nat \<times> nat) \<times> IpClass) list \<Rightarrow> nat \<Rightarrow> IpClass" where
  "first_block [] addr = Public"
| "first_block ((bl, cl) # bs) addr = (if in_block addr bl then cl else first_block bs addr)"

lemma u8_less: "unat (x :: u8) < 256"
proof -
  have "unat x < 2 ^ LENGTH(8)" by (rule unsigned_less)
  then show ?thesis by simp
qed

lemma u8_eq: "x = y \<longleftrightarrow> unat x = unat y" for x y :: u8
  by (rule word_unat_eq_iff)

lemma mask_c0: "b AND 0xC0 = 0x40 \<longleftrightarrow> unat b div 64 = 1" for b :: u8
proof -
  have "list_all (\<lambda>n. ((word_of_nat n :: u8) AND 0xC0 = 0x40) \<longleftrightarrow> n div 64 = 1) [0..<256]" by code_simp
  then have "(word_of_nat (unat b) :: u8) AND 0xC0 = 0x40 \<longleftrightarrow> unat b div 64 = 1"
    unfolding list_all_iff using u8_less [of b] by (metis atLeastLessThan_iff le0 set_upt)
  then show ?thesis by simp
qed

lemma digit_eq: "y < k \<Longrightarrow> y' < k \<Longrightarrow> x * k + y = x' * k + y' \<longleftrightarrow> x = x' \<and> y = y'" for x y x' y' k :: nat
  by (metis div_mult_self3 div_less add.commute add_cancel_left_right mod_mult_self3 mod_less gr_implies_not0)

text \<open>The leading bits of an address, in terms of its octets.\<close>

lemma ip_num_prefix:
  fixes a b c d :: u8
  defines "n \<equiv> unat a * 16777216 + unat b * 65536 + unat c * 256 + unat d"
  shows "n div 2 ^ 24 = unat a" "n div 2 ^ 16 = unat a * 256 + unat b"
    "n div 2 ^ 8 = unat a * 65536 + unat b * 256 + unat c"
    "n div 2 ^ 28 = unat a div 16" "n div 2 ^ 20 = unat a * 16 + unat b div 16"
    "n div 2 ^ 22 = unat a * 4 + unat b div 64" "n div 2 ^ 17 = unat a * 128 + unat b div 2"
  using u8_less [of a] u8_less [of b] u8_less [of c] u8_less [of d] unfolding n_def by simp_all

lemma blocks:
  fixes a b c d :: u8 and x y z w :: nat
  shows "in_block (ip_num (Ipv4 a b c d)) (net x 0 0 0, 8) \<longleftrightarrow> unat a = x"
    and "y < 256 \<Longrightarrow> in_block (ip_num (Ipv4 a b c d)) (net x y 0 0, 16) \<longleftrightarrow> unat a = x \<and> unat b = y"
    and "y < 256 \<Longrightarrow> z < 256 \<Longrightarrow> in_block (ip_num (Ipv4 a b c d)) (net x y z 0, 24) \<longleftrightarrow> unat a = x \<and> unat b = y \<and> unat c = z"
    and "y < 256 \<Longrightarrow> z < 256 \<Longrightarrow> w < 256 \<Longrightarrow> in_block (ip_num (Ipv4 a b c d)) (net x y z w, 32) \<longleftrightarrow>
      unat a = x \<and> unat b = y \<and> unat c = z \<and> unat d = w"
    and "in_block (ip_num (Ipv4 a b c d)) (net (x * 16) 0 0 0, 4) \<longleftrightarrow> unat a div 16 = x"
    and "y < 16 \<Longrightarrow> in_block (ip_num (Ipv4 a b c d)) (net x (y * 16) 0 0, 12) \<longleftrightarrow> unat a = x \<and> unat b div 16 = y"
    and "y < 4 \<Longrightarrow> in_block (ip_num (Ipv4 a b c d)) (net x (y * 64) 0 0, 10) \<longleftrightarrow> unat a = x \<and> unat b div 64 = y"
    and "y < 128 \<Longrightarrow> in_block (ip_num (Ipv4 a b c d)) (net x (y * 2) 0 0, 15) \<longleftrightarrow> unat a = x \<and> unat b div 2 = y"
proof -
  note u = u8_less [of a] u8_less [of b] u8_less [of c] u8_less [of d]
  note p = ip_num_prefix [of a b c d]
  show "in_block (ip_num (Ipv4 a b c d)) (net x 0 0 0, 8) \<longleftrightarrow> unat a = x"
    using p(1) by (simp add: in_block_def net_def)
  show "in_block (ip_num (Ipv4 a b c d)) (net x y 0 0, 16) \<longleftrightarrow> unat a = x \<and> unat b = y" if "y < 256"
    using p(2) u that digit_eq [of "unat b" 256 y "unat a" x] by (simp add: in_block_def net_def mult.commute)
  show "in_block (ip_num (Ipv4 a b c d)) (net x y z 0, 24) \<longleftrightarrow> unat a = x \<and> unat b = y \<and> unat c = z"
    if "y < 256" "z < 256"
    using p(3) u that digit_eq [of "unat c" 256 z "unat a * 256 + unat b" "x * 256 + y"] digit_eq [of "unat b" 256 y "unat a" x]
    by (simp add: in_block_def net_def algebra_simps)
  show "in_block (ip_num (Ipv4 a b c d)) (net x y z w, 32) \<longleftrightarrow> unat a = x \<and> unat b = y \<and> unat c = z \<and> unat d = w"
    if "y < 256" "z < 256" "w < 256"
    using u that digit_eq [of "unat d" 256 w "(unat a * 256 + unat b) * 256 + unat c" "(x * 256 + y) * 256 + z"]
      digit_eq [of "unat c" 256 z "unat a * 256 + unat b" "x * 256 + y"] digit_eq [of "unat b" 256 y "unat a" x]
    by (simp add: in_block_def net_def algebra_simps)
  show "in_block (ip_num (Ipv4 a b c d)) (net (x * 16) 0 0 0, 4) \<longleftrightarrow> unat a div 16 = x"
    using p(4) by (simp add: in_block_def net_def)
  show "in_block (ip_num (Ipv4 a b c d)) (net x (y * 16) 0 0, 12) \<longleftrightarrow> unat a = x \<and> unat b div 16 = y" if "y < 16"
  proof -
    have "unat b div 16 < 16" using u(2) by simp
    then show ?thesis
      using p(5) that digit_eq [of "unat b div 16" 16 y "unat a" x] by (simp add: in_block_def net_def mult.commute)
  qed
  show "in_block (ip_num (Ipv4 a b c d)) (net x (y * 64) 0 0, 10) \<longleftrightarrow> unat a = x \<and> unat b div 64 = y" if "y < 4"
  proof -
    have "unat b div 64 < 4" using u(2) by simp
    then show ?thesis
      using p(6) that digit_eq [of "unat b div 64" 4 y "unat a" x] by (simp add: in_block_def net_def mult.commute)
  qed
  show "in_block (ip_num (Ipv4 a b c d)) (net x (y * 2) 0 0, 15) \<longleftrightarrow> unat a = x \<and> unat b div 2 = y" if "y < 128"
  proof -
    have "unat b div 2 < 128" using u(2) by simp
    then show ?thesis
      using p(7) that digit_eq [of "unat b div 2" 128 y "unat a" x] by (simp add: in_block_def net_def mult.commute)
  qed
qed

lemma if_disj: "(if p \<or> q then x else y) = (if p then x else (if q then x else y))"
  by simp

lemma octet_ranges:
  fixes a :: u8
  shows "224 \<le> a \<and> a \<le> 239 \<longleftrightarrow> unat a div 16 = 14" "240 \<le> a \<longleftrightarrow> unat a div 16 = 15"
    "16 \<le> a \<and> a \<le> 31 \<longleftrightarrow> unat a div 16 = 1" "unat a div 2 = 9 \<longleftrightarrow> a = 18 \<or> a = 19"
  using u8_less [of a] by (auto simp: word_le_nat_alt word_unat_eq_iff)

lemma word_blocks:
  fixes a b c d x y z w :: u8
  shows "in_block (ip_num (Ipv4 a b c d)) (net (unat x) 0 0 0, 8) \<longleftrightarrow> a = x"
    and "in_block (ip_num (Ipv4 a b c d)) (net (unat x) (unat y) 0 0, 16) \<longleftrightarrow> a = x \<and> b = y"
    and "in_block (ip_num (Ipv4 a b c d)) (net (unat x) (unat y) (unat z) 0, 24) \<longleftrightarrow> a = x \<and> b = y \<and> c = z"
    and "in_block (ip_num (Ipv4 a b c d)) (net (unat x) (unat y) (unat z) (unat w), 32) \<longleftrightarrow> a = x \<and> b = y \<and> c = z \<and> d = w"
    and "in_block (ip_num (Ipv4 a b c d)) (net 224 0 0 0, 4) \<longleftrightarrow> 224 \<le> a \<and> a \<le> 239"
    and "in_block (ip_num (Ipv4 a b c d)) (net 240 0 0 0, 4) \<longleftrightarrow> 240 \<le> a"
    and "in_block (ip_num (Ipv4 a b c d)) (net 172 16 0 0, 12) \<longleftrightarrow> a = 172 \<and> 16 \<le> b \<and> b \<le> 31"
    and "in_block (ip_num (Ipv4 a b c d)) (net 100 64 0 0, 10) \<longleftrightarrow> a = 100 \<and> b AND 0xC0 = 0x40"
    and "in_block (ip_num (Ipv4 a b c d)) (net 198 18 0 0, 15) \<longleftrightarrow> a = 198 \<and> (b = 18 \<or> b = 19)"
proof -
  note w = blocks [where a = a and b = b and c = c and d = d]
  note u = u8_less [of y] u8_less [of z] u8_less [of w]
  show "in_block (ip_num (Ipv4 a b c d)) (net (unat x) 0 0 0, 8) \<longleftrightarrow> a = x"
    "in_block (ip_num (Ipv4 a b c d)) (net (unat x) (unat y) 0 0, 16) \<longleftrightarrow> a = x \<and> b = y"
    "in_block (ip_num (Ipv4 a b c d)) (net (unat x) (unat y) (unat z) 0, 24) \<longleftrightarrow> a = x \<and> b = y \<and> c = z"
    "in_block (ip_num (Ipv4 a b c d)) (net (unat x) (unat y) (unat z) (unat w), 32) \<longleftrightarrow> a = x \<and> b = y \<and> c = z \<and> d = w"
    using w(1-4) u by (simp_all only: u8_eq)
  show "in_block (ip_num (Ipv4 a b c d)) (net 224 0 0 0, 4) \<longleftrightarrow> 224 \<le> a \<and> a \<le> 239"
    using w(5) [of 14] by (simp only: octet_ranges(1)) simp
  show "in_block (ip_num (Ipv4 a b c d)) (net 240 0 0 0, 4) \<longleftrightarrow> 240 \<le> a"
    using w(5) [of 15] by (simp only: octet_ranges(2)) simp
  show "in_block (ip_num (Ipv4 a b c d)) (net 172 16 0 0, 12) \<longleftrightarrow> a = 172 \<and> 16 \<le> b \<and> b \<le> 31"
    using w(6) [of 1 172] by (simp only: octet_ranges(3) u8_eq [of a 172]) simp
  show "in_block (ip_num (Ipv4 a b c d)) (net 100 64 0 0, 10) \<longleftrightarrow> a = 100 \<and> b AND 0xC0 = 0x40"
    using w(7) [of 1 100] by (simp only: mask_c0 u8_eq [of a 100]) simp
  show "in_block (ip_num (Ipv4 a b c d)) (net 198 18 0 0, 15) \<longleftrightarrow> a = 198 \<and> (b = 18 \<or> b = 19)"
    using w(8) [of 9 198] by (simp only: octet_ranges(4) u8_eq [of a 198]) simp
qed

declare ip_num.simps [simp del]

section \<open>Properties\<close>

text \<open>C25: The octet tests and masks of the IPv4 classification implement the address blocks they are
  written for: an address is in the class of the first block, by network and prefix length, that
  contains it, and public when none does.\<close>

theorem classify_v4_blocks: "classify_v4 ip = first_block v4_blocks (ip_num ip)"
proof (cases ip)
  case (Ipv4 a b c d)
  note w = word_blocks [where a = a and b = b and c = c and d = d]
  note rows = w(1) [of 127, simplified] w(1) [of 10, simplified] w(1) [of 0, simplified]
    w(2) [of 169 254, simplified] w(2) [of 192 168, simplified]
    w(3) [of 192 0 2, simplified] w(3) [of 198 51 100, simplified] w(3) [of 203 0 113, simplified]
    w(3) [of 192 0 0, simplified] w(3) [of 192 88 99, simplified]
    w(4) [of 169 254 169 254, simplified] w(4) [of 0 0 0 0, simplified] w(4) [of 255 255 255 255, simplified] w(5-9)
  show ?thesis
    by (simp only: Ipv4 v4_blocks_def first_block.simps classify_v4.simps v4_is_documentation.simps v4_is_private.simps
        rows if_disj)
qed

lemma check_all_safe_Inr_iff:
  "check_all_safe host f ips = Inr r \<longleftrightarrow>
     list_all (\<lambda>i. classify i = Public) ips \<and> r = (case f of Some x \<Rightarrow> Some x | None \<Rightarrow> if ips = [] then None else Some (hd ips))"
proof (induction host f ips rule: check_all_safe.induct)
  case (2 host f ip ips)
  then show ?case by (cases "classify ip = Public") (auto simp: check_ip_safe_def split: option.splits)
qed (auto split: option.splits)

definition lookup_target :: "string \<Rightarrow> u16 option \<Rightarrow> string" where
  "lookup_target host port = host @ '':'' @ show_nat (unat (unwrap_or port 80))"

text \<open>C24: An outbound address is admitted exactly when the URL's host resolves to it first, the host is
  not on the denylist, and it is on the allowlist or the address is of a class the policy permits;
  whatever the switches, multicast and reserved addresses, the cloud metadata address among them,
  are never permitted by class. The guard without a policy admits a host exactly when it is no
  metadata name and every address it resolves to is public.\<close>

theorem ssrf_admission:
  "(snd (policy_resolve_and_check lookup p url) = Inr ip \<longleftrightarrow>
     (\<exists>host ips. pu_host_str url = Some host \<and> lookup (lookup_target host (pu_port url)) = Some (ip # ips) \<and>
        \<not> list_contains_host (sp_denylist p) (to_ascii_lowercase host) \<and>
        (list_contains_host (sp_allowlist p) (to_ascii_lowercase host) \<or> class_permitted p (classify ip)))) \<and>
   (resolve_and_check lookup h = Inr ip \<longleftrightarrow>
     \<not> is_known_metadata_hostname h \<and>
     (\<exists>ips. lookup (if CHR '':'' \<in> set h then h else h @ '':80'') = Some (ip # ips) \<and>
        list_all (\<lambda>i. classify i = Public) (ip # ips))) \<and>
   \<not> class_permitted p (classify metadata_ip)"
proof (intro conjI)
  show "snd (policy_resolve_and_check lookup p url) = Inr ip \<longleftrightarrow>
     (\<exists>host ips. pu_host_str url = Some host \<and> lookup (lookup_target host (pu_port url)) = Some (ip # ips) \<and>
        \<not> list_contains_host (sp_denylist p) (to_ascii_lowercase host) \<and>
        (list_contains_host (sp_allowlist p) (to_ascii_lowercase host) \<or> class_permitted p (classify ip)))"
  proof (cases "pu_host_str url")
    case (Some host)
    then show ?thesis
      by (cases "lookup (lookup_target host (pu_port url))")
         (auto simp: policy_resolve_and_check_def lookup_target_def Let_def split: list.splits)
  qed (simp add: policy_resolve_and_check_def)
  show "resolve_and_check lookup h = Inr ip \<longleftrightarrow>
     \<not> is_known_metadata_hostname h \<and>
     (\<exists>ips. lookup (if CHR '':'' \<in> set h then h else h @ '':80'') = Some (ip # ips) \<and>
        list_all (\<lambda>i. classify i = Public) (ip # ips))"
  proof (cases "lookup (if CHR '':'' \<in> set h then h else h @ '':80'')")
    case (Some addrs)
    then show ?thesis
      by (cases addrs) (auto simp: resolve_and_check_def Let_def rbind_Inr_conv check_all_safe_Inr_iff
          check_ip_safe_def split: if_splits)
  qed (auto simp: resolve_and_check_def Let_def)
  show "\<not> class_permitted p (classify metadata_ip)" by (simp add: metadata_ip_def)
qed

lemma v6_mapped: "to_ipv4_mapped v6 = Some v4 \<Longrightarrow> classify (V6 v6) = classify (V4 v4)"
  by (cases v6) (auto split: if_splits)

text \<open>Only the mapped form of an embedded IPv4 address is looked into: the IPv4-compatible loopback
  \<open>::127.0.0.1\<close> and the Teredo prefix \<open>2001::/32\<close> are classified public.\<close>

theorem v6_compatible_and_teredo_public:
  "classify (V6 (Ipv6 0 0 0 0 0 0 0x7F00 1)) = Public \<and> classify (V6 (Ipv6 0x2001 0 0 0 0 0 0x7F00 1)) = Public"
  by simp

end
