(* ===== verification/Lru.thy ===== *)
theory Lru
  imports Prelude
begin

text \<open>
  What the limiter and the replay caches rely on of the \<open>lru\<close> crate, as an interface. A cache of type
  \<open>'c\<close> with values \<open>'v\<close> is handled by the operations of \<open>lru_ops\<close>: \<open>peek\<close> reads without promoting,
  \<open>put\<close> inserts and may evict, \<open>entry\<close> is \<open>get_or_insert_mut\<close> followed by a write of the new value through
  the reference it returns, and \<open>pop\<close> removes. The law that carries the clients is that a cache
  forgets a key only when another key is inserted while it is full. The crate's behaviour as
  documented, a recency list with a capacity, meets the interface.
\<close>

record ('c, 'v) lru_ops =
  lru_new :: "nat \<Rightarrow> 'c"
  lru_peek :: "'c \<Rightarrow> string \<Rightarrow> 'v option"
  lru_put :: "'c \<Rightarrow> string \<Rightarrow> 'v \<Rightarrow> 'c"
  lru_entry :: "'c \<Rightarrow> string \<Rightarrow> 'v \<Rightarrow> ('v \<Rightarrow> 'v) \<Rightarrow> 'c"
  lru_pop :: "'c \<Rightarrow> string \<Rightarrow> 'c"
  lru_keys :: "'c \<Rightarrow> string list"
  lru_cap :: "'c \<Rightarrow> nat"

definition lru_room :: "('c, 'v) lru_ops \<Rightarrow> 'c \<Rightarrow> string \<Rightarrow> bool" where
  "lru_room L c k \<longleftrightarrow> lru_peek L c k \<noteq> None \<or> length (lru_keys L c) < lru_cap L c"

locale lru_cache =
  fixes L :: "('c, 'v) lru_ops"
    and invar :: "'c \<Rightarrow> bool"
  assumes new: "0 < n \<Longrightarrow> invar (lru_new L n) \<and> lru_peek L (lru_new L n) k = None \<and> lru_cap L (lru_new L n) = n"
    and keys: "invar c \<Longrightarrow> distinct (lru_keys L c) \<and> (k \<in> set (lru_keys L c) \<longleftrightarrow> lru_peek L c k \<noteq> None)"
    and bound: "invar c \<Longrightarrow> length (lru_keys L c) \<le> lru_cap L c"
    and put_invar: "invar c \<Longrightarrow> invar (lru_put L c k v) \<and> lru_cap L (lru_put L c k v) = lru_cap L c"
    and put_same: "invar c \<Longrightarrow> lru_peek L (lru_put L c k v) k = Some v"
    and put_other: "invar c \<Longrightarrow> q \<noteq> k \<Longrightarrow> lru_peek L (lru_put L c k v) q \<in> {None, lru_peek L c q}"
    and put_room: "invar c \<Longrightarrow> q \<noteq> k \<Longrightarrow> lru_room L c k \<Longrightarrow> lru_peek L (lru_put L c k v) q = lru_peek L c q"
    and entry_invar: "invar c \<Longrightarrow> invar (lru_entry L c k d f) \<and> lru_cap L (lru_entry L c k d f) = lru_cap L c"
    and entry_same: "invar c \<Longrightarrow>
      lru_peek L (lru_entry L c k d f) k = Some (f (case lru_peek L c k of Some v \<Rightarrow> v | None \<Rightarrow> d))"
    and entry_other: "invar c \<Longrightarrow> q \<noteq> k \<Longrightarrow> lru_peek L (lru_entry L c k d f) q \<in> {None, lru_peek L c q}"
    and entry_room: "invar c \<Longrightarrow> q \<noteq> k \<Longrightarrow> lru_room L c k \<Longrightarrow> lru_peek L (lru_entry L c k d f) q = lru_peek L c q"
    and pop_invar: "invar c \<Longrightarrow> invar (lru_pop L c k) \<and> lru_cap L (lru_pop L c k) = lru_cap L c"
    and pop: "invar c \<Longrightarrow> lru_peek L (lru_pop L c k) q = (if q = k then None else lru_peek L c q)"
begin

text \<open>As long as all keys ever used fit, there is always room.\<close>

lemma room_if_fits:
  assumes "invar c" "\<forall>q. lru_peek L c q \<noteq> None \<longrightarrow> q \<in> K" "k \<in> K" "finite K" "card K \<le> lru_cap L c"
  shows "lru_room L c k"
proof (cases "lru_peek L c k")
  case None
  then have "k \<notin> set (lru_keys L c)" using keys [OF assms(1)] by blast
  moreover have "set (lru_keys L c) \<subseteq> K" using keys [OF assms(1)] assms(2) by blast
  ultimately have "set (lru_keys L c) \<subset> K" using assms(3) by blast
  then have "card (set (lru_keys L c)) < card K" using assms(4) by (rule psubset_card_mono [rotated])
  then have "length (lru_keys L c) < lru_cap L c"
    using keys [OF assms(1)] assms(5) by (simp add: distinct_card)
  then show ?thesis by (simp add: lru_room_def)
qed (simp add: lru_room_def)

definition fits :: "'c \<Rightarrow> string set \<Rightarrow> bool" where
  "fits c K \<longleftrightarrow> invar c \<and> (\<forall>q. lru_peek L c q \<noteq> None \<longrightarrow> q \<in> K) \<and> finite K \<and> card K \<le> lru_cap L c"

lemma fits_room: "fits c K \<Longrightarrow> k \<in> K \<Longrightarrow> invar c \<and> lru_room L c k"
  using room_if_fits [of c K k] by (auto simp: fits_def)

lemma put_fits:
  assumes "fits c K" "k \<in> K"
  shows "fits (lru_put L c k v) K" "lru_peek L (lru_put L c k v) = (lru_peek L c)(k \<mapsto> v)"
proof -
  have i: "invar c" and r: "lru_room L c k" using fits_room [OF assms] by auto
  show p: "lru_peek L (lru_put L c k v) = (lru_peek L c)(k \<mapsto> v)"
    using put_same [OF i] put_room [OF i _ r] by (auto simp: fun_eq_iff)
  show "fits (lru_put L c k v) K"
    using assms put_invar [OF i, of k v] by (auto simp: fits_def p)
qed

lemma entry_fits:
  assumes "fits c K" "k \<in> K"
  shows "fits (lru_entry L c k d f) K"
    "lru_peek L (lru_entry L c k d f) = (lru_peek L c)(k \<mapsto> f (case lru_peek L c k of Some v \<Rightarrow> v | None \<Rightarrow> d))"
proof -
  have i: "invar c" and r: "lru_room L c k" using fits_room [OF assms] by auto
  show p: "lru_peek L (lru_entry L c k d f) = (lru_peek L c)(k \<mapsto> f (case lru_peek L c k of Some v \<Rightarrow> v | None \<Rightarrow> d))"
    using entry_same [OF i] entry_room [OF i _ r] by (auto simp: fun_eq_iff)
  show "fits (lru_entry L c k d f) K"
    using assms entry_invar [OF i, of k d f] by (auto simp: fits_def p)
qed

lemma new_fits: "finite K \<Longrightarrow> card K \<le> max n 1 \<Longrightarrow> fits (lru_new L (max n 1)) K"
  using new [of "max n 1"] by (auto simp: fits_def)

end

section \<open>The recency list\<close>

text \<open>The most recently used entry comes first, and the last one is evicted.\<close>

record 'v recency =
  rl_cap :: nat
  rl_entries :: "(string \<times> 'v) list"

definition rl_touch :: "'v recency \<Rightarrow> string \<Rightarrow> 'v \<Rightarrow> 'v recency" where
  "rl_touch c k v =
     (let others = filter (\<lambda>e. fst e \<noteq> k) (rl_entries c) in
      c\<lparr>rl_entries := (k, v) # (if map_of (rl_entries c) k = None then take (rl_cap c - 1) others else others)\<rparr>)"

definition recency_ops :: "('v recency, 'v) lru_ops" where
  "recency_ops = \<lparr>lru_new = (\<lambda>n. \<lparr>rl_cap = n, rl_entries = []\<rparr>), lru_peek = (\<lambda>c. map_of (rl_entries c)),
     lru_put = rl_touch, lru_entry = (\<lambda>c k d f. rl_touch c k (f (case map_of (rl_entries c) k of Some v \<Rightarrow> v | None \<Rightarrow> d))),
     lru_pop = (\<lambda>c k. c\<lparr>rl_entries := filter (\<lambda>e. fst e \<noteq> k) (rl_entries c)\<rparr>),
     lru_keys = (\<lambda>c. map fst (rl_entries c)), lru_cap = rl_cap\<rparr>"

definition recency_invar :: "'v recency \<Rightarrow> bool" where
  "recency_invar c \<longleftrightarrow> distinct (map fst (rl_entries c)) \<and> length (rl_entries c) \<le> rl_cap c \<and> 0 < rl_cap c"

lemma recency_sel [simp]:
  "lru_new recency_ops n = \<lparr>rl_cap = n, rl_entries = []\<rparr>"
  "lru_peek recency_ops c = map_of (rl_entries c)"
  "lru_put recency_ops = rl_touch"
  "lru_entry recency_ops c k d f = rl_touch c k (f (case map_of (rl_entries c) k of Some v \<Rightarrow> v | None \<Rightarrow> d))"
  "lru_pop recency_ops c k = c\<lparr>rl_entries := filter (\<lambda>e. fst e \<noteq> k) (rl_entries c)\<rparr>"
  "lru_keys recency_ops c = map fst (rl_entries c)"
  "lru_cap recency_ops = rl_cap"
  by (simp_all add: recency_ops_def)

lemma map_of_filter_key: "map_of (filter (\<lambda>e. fst e \<noteq> k) es) q = (if q = k then None else map_of es q)"
  by (induction es) auto

lemma map_of_take_distinct: "distinct (map fst es) \<Longrightarrow> map_of (take n es) q \<in> {None, map_of es q}"
proof (induction es arbitrary: n)
  case (Cons e es)
  show ?case
  proof (cases n)
    case (Suc m)
    then show ?thesis using Cons.IH [of m] Cons.prems by (cases e) (simp split: if_splits)
  qed simp
qed simp

lemma length_filter_key:
  assumes "distinct (map fst es)" "map_of es k \<noteq> None"
  shows "length (filter (\<lambda>e. fst e \<noteq> k) es) < length es"
proof -
  have "k \<in> fst ` set es" using assms(2) by (simp add: map_of_eq_None_iff)
  then obtain e where "e \<in> set es" "fst e = k" by (rule imageE) simp
  then show ?thesis by (intro length_filter_less [of e]) simp_all
qed

lemma filter_key_absent: "map_of es k = None \<Longrightarrow> filter (\<lambda>e. fst e \<noteq> k) es = es"
  by (induction es) (auto split: if_splits)

lemma distinct_filter_key: "distinct (map fst es) \<Longrightarrow> distinct (map fst (filter P es))"
  by (induction es) auto

lemma rl_touch_invar: "recency_invar c \<Longrightarrow> recency_invar (rl_touch c k v) \<and> rl_cap (rl_touch c k v) = rl_cap c"
proof -
  assume i: "recency_invar c"
  let ?o = "filter (\<lambda>e. fst e \<noteq> k) (rl_entries c)"
  have d: "distinct (map fst ?o)" "k \<notin> set (map fst ?o)"
    using i by (auto simp: recency_invar_def distinct_filter_key)
  show ?thesis
  proof (cases "map_of (rl_entries c) k")
    case None
    have "set (take (rl_cap c - 1) (map fst ?o)) \<subseteq> set (map fst ?o)" by (rule set_take_subset)
    then show ?thesis
      using i None d by (auto simp: recency_invar_def rl_touch_def Let_def take_map [symmetric])
  next
    case (Some w)
    then have "length ?o < length (rl_entries c)" using i by (intro length_filter_key) (auto simp: recency_invar_def)
    then show ?thesis using i Some d by (auto simp: recency_invar_def rl_touch_def)
  qed
qed

lemma rl_touch_peek:
  assumes "recency_invar c"
  shows "map_of (rl_entries (rl_touch c k v)) k = Some v"
    and "q \<noteq> k \<Longrightarrow> map_of (rl_entries (rl_touch c k v)) q \<in> {None, map_of (rl_entries c) q}"
    and "q \<noteq> k \<Longrightarrow> lru_room recency_ops c k \<Longrightarrow> map_of (rl_entries (rl_touch c k v)) q = map_of (rl_entries c) q"
proof -
  let ?o = "filter (\<lambda>e. fst e \<noteq> k) (rl_entries c)"
  show "map_of (rl_entries (rl_touch c k v)) k = Some v" by (simp add: rl_touch_def Let_def)
  have d: "distinct (map fst ?o)" using assms by (simp add: recency_invar_def distinct_filter_key)
  show "map_of (rl_entries (rl_touch c k v)) q \<in> {None, map_of (rl_entries c) q}" if "q \<noteq> k"
    using that map_of_take_distinct [OF d, of "rl_cap c - 1" q] map_of_filter_key [of k "rl_entries c" q]
    by (auto simp: rl_touch_def Let_def)
  show "map_of (rl_entries (rl_touch c k v)) q = map_of (rl_entries c) q" if "q \<noteq> k" "lru_room recency_ops c k"
  proof (cases "map_of (rl_entries c) k")
    case None
    then have "length ?o \<le> rl_cap c - 1"
      using that(2) by (simp add: lru_room_def recency_ops_def filter_key_absent)
    then show ?thesis using that(1) None by (simp add: rl_touch_def Let_def map_of_filter_key)
  qed (use that(1) in \<open>simp add: rl_touch_def Let_def map_of_filter_key\<close>)
qed

interpretation recency: lru_cache recency_ops recency_invar
proof unfold_locales
  fix c :: "'b recency" and k
  assume "recency_invar c"
  then show "recency_invar (lru_pop recency_ops c k) \<and> lru_cap recency_ops (lru_pop recency_ops c k) = lru_cap recency_ops c"
    by (auto simp: recency_invar_def distinct_filter_key intro: order_trans [OF length_filter_le])
next
  fix c :: "'b recency" and k
  assume "recency_invar c"
  then show "distinct (lru_keys recency_ops c) \<and> (k \<in> set (lru_keys recency_ops c) \<longleftrightarrow> lru_peek recency_ops c k \<noteq> None)"
    by (simp add: recency_invar_def map_of_eq_None_iff)
next
  fix c :: "'b recency"
  assume "recency_invar c"
  then show "length (lru_keys recency_ops c) \<le> lru_cap recency_ops c" by (simp add: recency_invar_def)
next
  fix n k
  show "0 < n \<Longrightarrow> recency_invar (lru_new recency_ops n :: 'b recency) \<and>
      lru_peek recency_ops (lru_new recency_ops n :: 'b recency) k = None \<and> lru_cap recency_ops (lru_new recency_ops n :: 'b recency) = n"
    by (simp add: recency_invar_def)
qed (simp_all only: recency_sel rl_touch_invar rl_touch_peek(1), (rule rl_touch_peek(2,3); assumption | simp add: map_of_filter_key)+)

end
