(* ===== verification/Rate_Limit.thy ===== *)
theory Rate_Limit
  imports Lru Ssrf
begin

text \<open>
  The rate limiter (\<open>security/rate_limit.rs\<close>): sliding windows of hits, keyed by route and subject, in
  an LRU cache. An \<open>Instant\<close> is the number of nanoseconds since the earliest the platform can
  represent, so that \<open>checked_sub\<close> fails exactly below zero; durations are nanoseconds. The text of an
  IP address is a parameter. The mutex makes each check one step.
\<close>

section \<open>Model\<close>

datatype RateLimitSubject = SubjectIp IpAddr | SubjectWebId string | SubjectCustom string

fun subject_canonical :: "(IpAddr \<Rightarrow> string) \<Rightarrow> RateLimitSubject \<Rightarrow> string" where
  "subject_canonical show_ip (SubjectIp ip) = ''ip:'' @ show_ip ip"
| "subject_canonical show_ip (SubjectWebId w) = ''webid:'' @ w"
| "subject_canonical show_ip (SubjectCustom c) = ''custom:'' @ c"

record RateLimitKey =
  rk_route :: string
  rk_subject :: RateLimitSubject

definition key_canonical :: "(IpAddr \<Rightarrow> string) \<Rightarrow> RateLimitKey \<Rightarrow> string" where
  "key_canonical show_ip k = rk_route k @ ''|'' @ subject_canonical show_ip (rk_subject k)"

datatype RateLimitDecision = Allow | Deny (retry_after_secs: nat) (limit: u32) (window_secs: nat)

record RoutePolicy =
  rp_route :: string
  rp_max :: u32
  rp_window :: nat

definition DEFAULT_LRU_CAPACITY :: nat where
  "DEFAULT_LRU_CAPACITY = 4096"

definition default_policy :: RoutePolicy where
  "default_policy = \<lparr>rp_route = [], rp_max = 60, rp_window = 60 * 1000000000\<rparr>"

record 'c LruRateLimiter =
  rl_buckets :: 'c
  rl_policies :: "RoutePolicy list"

text \<open>The constructor asserts that no limit and no window is zero; \<open>None\<close> is its panic.\<close>

definition with_capacity_and_policies ::
    "('c, nat list) lru_ops \<Rightarrow> nat \<Rightarrow> (string \<times> u32 \<times> nat) list \<Rightarrow> 'c LruRateLimiter option" where
  "with_capacity_and_policies L capacity policies =
     (if list_all (\<lambda>(_, mx, w). mx > 0 \<and> w \<noteq> 0) policies
      then Some \<lparr>rl_buckets = lru_new L (max capacity 1),
        rl_policies = map (\<lambda>(r, mx, w). \<lparr>rp_route = r, rp_max = mx, rp_window = w\<rparr>) policies\<rparr>
      else None)"

definition LruRateLimiter_new :: "('c, nat list) lru_ops \<Rightarrow> 'c LruRateLimiter option" where
  "LruRateLimiter_new L = with_capacity_and_policies L DEFAULT_LRU_CAPACITY []"

definition with_policy :: "('c, nat list) lru_ops \<Rightarrow> (string \<times> u32 \<times> nat) list \<Rightarrow> 'c LruRateLimiter option" where
  "with_policy L policies = with_capacity_and_policies L DEFAULT_LRU_CAPACITY policies"

definition policy_for :: "'c LruRateLimiter \<Rightarrow> string \<Rightarrow> RoutePolicy" where
  "policy_for rl route = (case find (\<lambda>p. rp_route p = route) (rl_policies rl) of Some p \<Rightarrow> p | None \<Rightarrow> default_policy)"

definition window_prune :: "nat \<Rightarrow> nat \<Rightarrow> nat list \<Rightarrow> nat list" where
  "window_prune now window hits = (if window \<le> now then filter (\<lambda>t. t > now - window) hits else [])"

definition ceil_secs :: "nat \<Rightarrow> nat" where
  "ceil_secs d = (if d mod 1000000000 > 0 then d div 1000000000 + 1 else d div 1000000000)"

text \<open>What \<open>check_sync\<close> does to the bucket it holds.\<close>

definition bucket_step :: "RoutePolicy \<Rightarrow> nat \<Rightarrow> nat list \<Rightarrow> nat list \<times> RateLimitDecision" where
  "bucket_step policy now hits0 =
     (let hits = window_prune now (rp_window policy) hits0;
          w_secs = max (rp_window policy div 1000000000) 1 in
      if (of_nat (length hits) :: u32) \<ge> rp_max policy then
        (let oldest = (case hits of t # _ \<Rightarrow> t | [] \<Rightarrow> now);
             elapsed = now - oldest;
             remaining = rp_window policy - elapsed;
             retry = max (ceil_secs remaining) 1
         in (hits, Deny retry (rp_max policy) w_secs))
      else (hits @ [now], Allow))"

definition check_sync :: "('c, nat list) lru_ops \<Rightarrow> (IpAddr \<Rightarrow> string) \<Rightarrow> 'c LruRateLimiter \<Rightarrow> RateLimitKey \<Rightarrow> nat
    \<Rightarrow> 'c LruRateLimiter \<times> RateLimitDecision" where
  "check_sync L show_ip rl key now =
     (let policy = policy_for rl (rk_route key); canonical = key_canonical show_ip key;
          bucket = (case lru_peek L (rl_buckets rl) canonical of Some b \<Rightarrow> b | None \<Rightarrow> [])
      in (rl\<lparr>rl_buckets := lru_entry L (rl_buckets rl) canonical [] (\<lambda>b. fst (bucket_step policy now b))\<rparr>,
          snd (bucket_step policy now bucket)))"

section \<open>Windows\<close>

text \<open>The hits that count at time \<open>T\<close>.\<close>

definition live :: "nat \<Rightarrow> nat \<Rightarrow> nat list \<Rightarrow> nat list" where
  "live w T hits = filter (\<lambda>x. T < x + w) hits"

lemma live_simps [simp]: "live w T (xs @ ys) = live w T xs @ live w T ys" "live w T [] = []"
  by (simp_all add: live_def)

lemma window_prune_live: "w \<le> now \<Longrightarrow> window_prune now w hits = live w now hits"
  by (auto simp: window_prune_def live_def intro!: filter_cong)

lemma live_live: "now \<le> T \<Longrightarrow> live w T (live w now hits) = live w T hits"
  by (auto simp: live_def filter_filter intro!: filter_cong)

definition allowed :: "RateLimitDecision \<Rightarrow> bool" where
  "allowed d \<longleftrightarrow> d = Allow"

lemma bucket_step_live:
  assumes "rp_window p \<le> now" "now \<le> T"
  shows "live (rp_window p) T (fst (bucket_step p now b)) =
    live (rp_window p) T (b @ (if allowed (snd (bucket_step p now b)) then [now] else []))"
  using assms live_live [OF assms(2), of "rp_window p" b]
  by (simp add: bucket_step_def Let_def window_prune_live allowed_def)

lemma bucket_step_allowed:
  assumes "rp_window p \<le> now" "length (live (rp_window p) now b) < 2 ^ 32"
  shows "allowed (snd (bucket_step p now b)) \<longleftrightarrow> length (live (rp_window p) now b) < unat (rp_max p)"
proof -
  have "unat (of_nat (length (live (rp_window p) now b)) :: u32) = length (live (rp_window p) now b)"
    using assms(2) by (simp add: unat_of_nat)
  then show ?thesis
    using assms(1) by (simp add: bucket_step_def Let_def window_prune_live allowed_def word_le_nat_alt)
qed

section \<open>Runs\<close>

fun limiter_run :: "('c, nat list) lru_ops \<Rightarrow> (IpAddr \<Rightarrow> string) \<Rightarrow> 'c LruRateLimiter \<Rightarrow> (RateLimitKey \<times> nat) list \<Rightarrow> RateLimitDecision list" where
  "limiter_run L show_ip rl [] = []"
| "limiter_run L show_ip rl ((k, now) # evs) =
     (let (rl1, d) = check_sync L show_ip rl k now in d # limiter_run L show_ip rl1 evs)"

text \<open>The times at which a run let the key through.\<close>

fun allowed_times :: "string \<Rightarrow> (IpAddr \<Rightarrow> string) \<Rightarrow> (RateLimitKey \<times> nat) list \<Rightarrow> RateLimitDecision list \<Rightarrow> nat list" where
  "allowed_times c show_ip ((k, now) # evs) (d # ds) =
     (if key_canonical show_ip k = c \<and> allowed d then [now] else []) @ allowed_times c show_ip evs ds"
| "allowed_times c show_ip _ _ = []"

definition window_count :: "nat \<Rightarrow> nat \<Rightarrow> nat list \<Rightarrow> nat" where
  "window_count w T xs = length (filter (\<lambda>x. x \<le> T \<and> T < x + w) xs)"

lemma window_count_le_live: "now \<le> T \<Longrightarrow> window_count w T xs \<le> length (live w now xs)"
  unfolding window_count_def live_def by (induction xs) auto

lemma window_count_live: "\<forall>x \<in> set xs. x \<le> now \<Longrightarrow> window_count w now xs = length (live w now xs)"
  unfolding window_count_def live_def by (induction xs) auto

lemma window_count_snoc:
  "window_count w T (xs @ [now]) = window_count w T xs + (if now \<le> T \<and> T < now + w then 1 else 0)"
  by (simp add: window_count_def)

text \<open>One accepted hit keeps every window within the limit.\<close>

lemma accept_keeps_windows:
  assumes "\<forall>T. window_count w T acc \<le> m" "length (live w now acc) < m"
  shows "\<forall>T. window_count w T (acc @ [now]) \<le> m"
proof
  fix T
  show "window_count w T (acc @ [now]) \<le> m"
    using assms(1) [rule_format, of T] assms(2) window_count_le_live [of now T w acc]
    by (auto simp: window_count_snoc)
qed

definition bucket_of :: "('c, nat list) lru_ops \<Rightarrow> 'c LruRateLimiter \<Rightarrow> string \<Rightarrow> nat list" where
  "bucket_of L rl c = (case lru_peek L (rl_buckets rl) c of Some b \<Rightarrow> b | None \<Rightarrow> [])"

lemma check_sync_snd: "snd (check_sync L show_ip rl k now) =
    snd (bucket_step (policy_for rl (rk_route k)) now (bucket_of L rl (key_canonical show_ip k)))"
  by (simp add: check_sync_def Let_def bucket_of_def)

lemma check_sync_policy [simp]: "policy_for (fst (check_sync L show_ip rl k now)) = policy_for rl"
  by (simp add: check_sync_def Let_def policy_for_def fun_eq_iff)

text \<open>A bucket is sorted, lies in the past, and never holds more hits than the policy allows.\<close>

definition bucket_ok :: "RoutePolicy \<Rightarrow> nat \<Rightarrow> nat list \<Rightarrow> bool" where
  "bucket_ok p now b \<longleftrightarrow> sorted b \<and> (\<forall>x \<in> set b. x \<le> now) \<and> length b \<le> unat (rp_max p)"

lemma bucket_ok_later: "bucket_ok p t0 b \<Longrightarrow> t0 \<le> now \<Longrightarrow> bucket_ok p now b"
  by (auto simp: bucket_ok_def)

lemma window_prune_ok: "bucket_ok p now b \<Longrightarrow> bucket_ok p now (window_prune now w b)"
  by (auto simp: bucket_ok_def window_prune_def sorted_wrt_filter intro: order_trans [OF length_filter_le])

lemma bucket_full_iff:
  assumes "bucket_ok p now b"
  shows "rp_max p \<le> of_nat (length b) \<longleftrightarrow> length b = unat (rp_max p)"
proof -
  have "unat (rp_max p) < 2 ^ LENGTH(32)" by (rule unsigned_less)
  then have "unat (of_nat (length b) :: u32) = length b"
    using assms by (simp add: bucket_ok_def unat_of_nat)
  then show ?thesis using assms by (auto simp: word_le_nat_alt bucket_ok_def)
qed

lemma bucket_step_ok:
  assumes "bucket_ok p now b"
  shows "bucket_ok p now (fst (bucket_step p now b))"
  using window_prune_ok [OF assms, of "rp_window p"] bucket_full_iff [OF window_prune_ok [OF assms, of "rp_window p"]]
  by (auto simp: bucket_step_def Let_def bucket_ok_def sorted_append)

lemma ceil_div_covers: "0 < m \<Longrightarrow> d \<le> (if d mod m > 0 then d div m + 1 else d div m) * m" for d m :: nat
proof -
  assume "0 < m"
  then have "d mod m < m" by simp
  moreover have "d = d div m * m + d mod m" by simp
  ultimately have "d \<le> d div m * m + m" "d mod m = 0 \<longrightarrow> d \<le> d div m * m" by linarith+
  then show ?thesis by simp
qed

lemma ceil_secs_covers: "d \<le> ceil_secs d * 1000000000"
  unfolding ceil_secs_def by (rule ceil_div_covers) simp

text \<open>A full bucket opens again at the advertised time.\<close>

lemma bucket_reopens:
  assumes ok: "bucket_ok p now b" and mx: "rp_max p > 0"
    and deny: "bucket_step p now b = (b1, Deny r l w)" and t: "now + r * 1000000000 \<le> t"
  shows "snd (bucket_step p t b1) = Allow"
proof -
  let ?h = "window_prune now (rp_window p) b"
  have h: "bucket_ok p now ?h" using ok by (rule window_prune_ok)
  have b1: "b1 = ?h" and full: "rp_max p \<le> of_nat (length ?h)"
    using deny by (auto simp: bucket_step_def Let_def split: if_splits)
  have "length ?h = unat (rp_max p)" using full bucket_full_iff [OF h] by simp
  moreover have "unat (rp_max p) > 0" using mx by (simp add: word_less_nat_alt)
  ultimately obtain x xs where xs: "?h = x # xs" by (cases ?h) auto
  have r: "r = max (ceil_secs (rp_window p - (now - x))) 1"
    using deny full xs by (simp add: bucket_step_def Let_def)
  have "rp_window p - (now - x) \<le> r * 1000000000"
    using ceil_secs_covers [of "rp_window p - (now - x)"] unfolding r by (rule order_trans) simp
  moreover have "x \<le> now" using h xs by (simp add: bucket_ok_def)
  ultimately have "x + rp_window p \<le> t" using t by simp
  then have "window_prune t (rp_window p) b1 = window_prune t (rp_window p) xs"
    unfolding b1 xs by (auto simp: window_prune_def)
  moreover have "length (window_prune t (rp_window p) xs) < unat (rp_max p)"
    using h unfolding xs by (auto simp: bucket_ok_def window_prune_def Suc_le_eq intro: order_le_less_trans [OF length_filter_le])
  moreover have "bucket_ok p t (window_prune t (rp_window p) b1)"
    using bucket_ok_later [OF h, of t] t b1 by (intro window_prune_ok) simp
  ultimately show ?thesis using bucket_full_iff [of p t "window_prune t (rp_window p) b1"]
    by (simp add: bucket_step_def Let_def)
qed

fun limiter_end :: "('c, nat list) lru_ops \<Rightarrow> (IpAddr \<Rightarrow> string) \<Rightarrow> 'c LruRateLimiter \<Rightarrow> (RateLimitKey \<times> nat) list \<Rightarrow> 'c LruRateLimiter" where
  "limiter_end L show_ip rl [] = rl"
| "limiter_end L show_ip rl ((k, now) # evs) = limiter_end L show_ip (fst (check_sync L show_ip rl k now)) evs"

lemma limiter_end_policy [simp]: "policy_for (limiter_end L show_ip rl evs) = policy_for rl"
  by (induction L show_ip rl evs rule: limiter_end.induct) simp_all

lemma policy_max_positive:
  "with_capacity_and_policies L cap pols = Some rl \<Longrightarrow> rp_max (policy_for rl route) > 0"
proof -
  assume "with_capacity_and_policies L cap pols = Some rl"
  then have all: "\<forall>p \<in> set (rl_policies rl). rp_max p > 0"
    by (force simp: with_capacity_and_policies_def list_all_iff split: if_splits)
  show ?thesis
  proof (cases "find (\<lambda>p. rp_route p = route) (rl_policies rl)")
    case (Some p)
    then have "p \<in> set (rl_policies rl)" by (auto simp: find_Some_iff)
    then show ?thesis using all Some by (simp add: policy_for_def)
  qed (simp add: policy_for_def default_policy_def)
qed

locale rate_cache = lru_cache L invar
  for L :: "('c, nat list) lru_ops" and invar
begin

lemma check_sync_bucket:
  assumes "fits (rl_buckets rl) K" "key_canonical show_ip k \<in> K"
  shows "fits (rl_buckets (fst (check_sync L show_ip rl k now))) K"
    and "bucket_of L (fst (check_sync L show_ip rl k now)) c =
      (if c = key_canonical show_ip k then fst (bucket_step (policy_for rl (rk_route k)) now (bucket_of L rl c))
       else bucket_of L rl c)"
  using entry_fits [OF assms] by (auto simp: check_sync_def Let_def bucket_of_def)

lemma windows_bounded:
  assumes "fits (rl_buckets rl) K" "\<forall>(k, _) \<in> set evs. key_canonical show_ip k \<in> K"
    and "\<forall>(k, _) \<in> set evs. key_canonical show_ip k = c \<longrightarrow> policy_for rl (rk_route k) = p"
    and "sorted (t0 # map snd evs)" "rp_window p \<le> t0"
    and "\<forall>x \<in> set acc. x \<le> t0" "\<forall>T \<ge> t0. live (rp_window p) T (bucket_of L rl c) = live (rp_window p) T acc"
    and "\<forall>T. window_count (rp_window p) T acc \<le> unat (rp_max p)"
  shows "window_count (rp_window p) T (acc @ allowed_times c show_ip evs (limiter_run L show_ip rl evs)) \<le> unat (rp_max p)"
  using assms
proof (induction evs arbitrary: rl acc t0)
  case (Cons ev evs)
  obtain k now where ev: "ev = (k, now)" by force
  let ?w = "rp_window p"
  obtain rl1 d where st: "check_sync L show_ip rl k now = (rl1, d)" by force
  have now: "t0 \<le> now" "?w \<le> now" "sorted (now # map snd evs)" using Cons.prems(4,5) ev by auto
  have kK: "key_canonical show_ip k \<in> K" using Cons.prems(2) ev by simp
  note b1 = check_sync_bucket [OF Cons.prems(1) kK, of now, unfolded st fst_conv]
  have pol: "policy_for rl1 = policy_for rl" using check_sync_policy [of L show_ip rl k now] st by simp
  define acc1 where "acc1 = acc @ (if key_canonical show_ip k = c \<and> allowed d then [now] else [])"
  have old: "live ?w T (bucket_of L rl c) = live ?w T acc" if "now \<le> T" for T using Cons.prems(7) now(1) that by simp
  have hit: "allowed d \<longleftrightarrow> length (live ?w now acc) < unat (rp_max p)"
    and bucket: "now \<le> T \<Longrightarrow> live ?w T (bucket_of L rl1 c) = live ?w T acc1" if c: "key_canonical show_ip k = c" for T
  proof -
    have p: "policy_for rl (rk_route k) = p" using Cons.prems(3) ev c by simp
    have d: "d = snd (bucket_step p now (bucket_of L rl c))"
      using check_sync_snd [of L show_ip rl k now] st p c by simp
    have "length (live ?w now acc) = window_count ?w now acc"
      using Cons.prems(6) now(1) by (intro window_count_live [symmetric]) force
    moreover have "unat (rp_max p) < 2 ^ LENGTH(32)" by (rule unsigned_less)
    ultimately have "length (live ?w now acc) < 2 ^ 32"
      using Cons.prems(8) [rule_format, of now] by simp
    then show "allowed d \<longleftrightarrow> length (live ?w now acc) < unat (rp_max p)"
      using bucket_step_allowed [of p now "bucket_of L rl c"] now(2) old [of now] d by simp
    show "now \<le> T \<Longrightarrow> live ?w T (bucket_of L rl1 c) = live ?w T acc1"
      using b1(2) [of c] bucket_step_live [OF now(2), of T "bucket_of L rl c"] old [of T] p c d by (simp add: acc1_def)
  qed
  have "\<forall>T \<ge> now. live ?w T (bucket_of L rl1 c) = live ?w T acc1"
    using bucket b1(2) [of c] old by (cases "key_canonical show_ip k = c") (auto simp: acc1_def)
  moreover have "\<forall>T. window_count ?w T acc1 \<le> unat (rp_max p)"
    unfolding acc1_def using hit accept_keeps_windows [OF Cons.prems(8), of now] Cons.prems(8)
    by (simp split: if_split) blast
  moreover have "\<forall>x \<in> set acc1. x \<le> now" using Cons.prems(6) now(1) by (auto simp: acc1_def)
  ultimately have "window_count ?w T (acc1 @ allowed_times c show_ip evs (limiter_run L show_ip rl1 evs)) \<le> unat (rp_max p)"
    using Cons.IH [of rl1 now acc1] b1(1) Cons.prems(2,3) now(2,3) pol by simp
  then show ?case using ev st by (simp add: acc1_def)
qed simp

lemma run_bucket_ok:
  assumes "fits (rl_buckets rl) K" "\<forall>(k, _) \<in> set evs. key_canonical show_ip k \<in> K"
    and "\<forall>(k, _) \<in> set evs. key_canonical show_ip k = c \<longrightarrow> policy_for rl (rk_route k) = p"
    and "sorted (t0 # map snd evs)" "bucket_ok p t0 (bucket_of L rl c)" "\<forall>t \<in> snd ` set evs. t \<le> t1" "t0 \<le> t1"
  shows "bucket_ok p t1 (bucket_of L (limiter_end L show_ip rl evs) c) \<and>
    fits (rl_buckets (limiter_end L show_ip rl evs)) K"
  using assms
proof (induction evs arbitrary: rl t0)
  case (Cons ev evs)
  obtain k now where ev: "ev = (k, now)" by force
  let ?rl = "fst (check_sync L show_ip rl k now)"
  have now: "t0 \<le> now" "now \<le> t1" using Cons.prems(4,6) ev by auto
  have kK: "key_canonical show_ip k \<in> K" using Cons.prems(2) ev by simp
  note b1 = check_sync_bucket [OF Cons.prems(1) kK, of now]
  have "bucket_ok p now (bucket_of L ?rl c)"
    using b1(2) [of c] bucket_step_ok [of p now] bucket_ok_later [OF Cons.prems(5) now(1)] Cons.prems(3) ev by auto
  then show ?case
    using Cons.IH [OF b1(1), of now] Cons.prems(2,3,4,6) now(2) ev by simp
qed (auto intro: bucket_ok_later)

end

interpretation rate: rate_cache recency_ops recency_invar ..

section \<open>The sliding-window limit\<close>

lemma new_limiter_bounded:
  assumes "rate_cache L invar" "with_capacity_and_policies L cap pols = Some rl"
    and "card (key_canonical show_ip ` fst ` set evs) \<le> max cap 1"
    and "\<forall>(k, _) \<in> set evs. key_canonical show_ip k = c \<longrightarrow> policy_for rl (rk_route k) = p"
    and "sorted (map snd evs)" "\<forall>t \<in> snd ` set evs. rp_window p \<le> t"
  shows "window_count (rp_window p) T (allowed_times c show_ip evs (limiter_run L show_ip rl evs)) \<le> unat (rp_max p)"
proof (cases evs)
  case (Cons ev evs')
  have rl: "rl_buckets rl = lru_new L (max cap 1)"
    using assms(2) by (auto simp: with_capacity_and_policies_def split: if_splits)
  have new: "lru_cache.fits L invar (rl_buckets rl) (key_canonical show_ip ` fst ` set evs)"
    unfolding rl by (rule lru_cache.new_fits [OF rate_cache.axioms [OF assms(1)]]) (use assms(3) in auto)
  have empty: "bucket_of L rl c = []"
    using lru_cache.new [OF rate_cache.axioms [OF assms(1)], of "max cap 1" c] by (simp add: bucket_of_def rl)
  have keys: "\<forall>(k, _) \<in> set evs. key_canonical show_ip k \<in> key_canonical show_ip ` fst ` set evs" by force
  have t0: "sorted (snd ev # map snd evs)" "rp_window p \<le> snd ev" using assms(5,6) Cons by auto
  show ?thesis
    using rate_cache.windows_bounded [OF assms(1) new keys assms(4) t0, of "[]" T] empty
    by (simp add: window_count_def)
qed (simp add: window_count_def)

text \<open>C27: However requests arrive, in no window of the policy's length does the limiter let through
more hits of one route and subject than the policy's limit, as long as the subjects in play fit the
cache (a full cache may evict a live bucket). The bound holds at every instant \<open>T\<close>, not only at the
instants of the requests.\<close>

theorem sliding_window_limit:
  assumes "rate_cache L invar" "with_capacity_and_policies L cap pols = Some rl"
    and "card (key_canonical show_ip ` fst ` set evs) \<le> max cap 1"
    and "\<forall>(k, _) \<in> set evs. key_canonical show_ip k = c \<longrightarrow> policy_for rl (rk_route k) = p"
    and "sorted (map snd evs)" "\<forall>t \<in> snd ` set evs. rp_window p \<le> t"
  shows "window_count (rp_window p) T (allowed_times c show_ip evs (limiter_run L show_ip rl evs)) \<le> unat (rp_max p)"
  using assms by (rule new_limiter_bounded)

text \<open>One policy of two hits in ten nanoseconds, and one subject.\<close>

definition sample_limiter :: "nat list recency LruRateLimiter" where
  "sample_limiter = \<lparr>rl_buckets = \<lparr>rl_cap = 1, rl_entries = []\<rparr>,
     rl_policies = [\<lparr>rp_route = ''w'', rp_max = 2, rp_window = 10\<rparr>]\<rparr>"

definition sample_key :: RateLimitKey where
  "sample_key = \<lparr>rk_route = ''w'', rk_subject = SubjectWebId ''a''\<rparr>"

lemma sample_limiter_new: "with_capacity_and_policies recency_ops 1 [(''w'', 2, 10)] = Some sample_limiter"
  by (simp add: with_capacity_and_policies_def sample_limiter_def)

lemma sample_policy: "policy_for sample_limiter (rk_route sample_key) = \<lparr>rp_route = ''w'', rp_max = 2, rp_window = 10\<rparr>"
  by (simp add: sample_limiter_def sample_key_def policy_for_def)

lemma sample_steps:
  "bucket_step \<lparr>rp_route = ''w'', rp_max = 2, rp_window = 10\<rparr> 10 [] = ([10], Allow)"
  "bucket_step \<lparr>rp_route = ''w'', rp_max = 2, rp_window = 10\<rparr> 12 [10] = ([10, 12], Allow)"
  "bucket_step \<lparr>rp_route = ''w'', rp_max = 2, rp_window = 10\<rparr> 15 [10, 12] = ([10, 12], Deny 1 2 1)"
  "bucket_step \<lparr>rp_route = ''w'', rp_max = 2, rp_window = 10\<rparr> 21 [10, 12] = ([12, 21], Allow)"
  by (simp_all add: bucket_step_def window_prune_def ceil_secs_def Let_def word_le_nat_alt)

lemmas sample_eval = check_sync_def sample_steps policy_for_def key_canonical_def rl_touch_def
  sample_limiter_def sample_key_def

lemma sample_run: "limiter_run recency_ops (\<lambda>_. []) sample_limiter
    [(sample_key, 10), (sample_key, 12), (sample_key, 15), (sample_key, 21)] = [Allow, Allow, Deny 1 2 1, Allow]"
  by (simp add: sample_eval Let_def)

theorem sliding_window_limit_witness:
  "limiter_run recency_ops (\<lambda>_. []) sample_limiter
    [(sample_key, 10), (sample_key, 12), (sample_key, 15), (sample_key, 21)] = [Allow, Allow, Deny 1 2 1, Allow] \<and>
   window_count 10 15 (allowed_times (key_canonical (\<lambda>_. []) sample_key) (\<lambda>_. [])
     [(sample_key, 10), (sample_key, 12), (sample_key, 15), (sample_key, 21)] [Allow, Allow, Deny 1 2 1, Allow]) \<le> 2"
  using sliding_window_limit [OF rate.rate_cache_axioms sample_limiter_new, where T = 15 and show_ip = "\<lambda>_. []" and
      evs = "[(sample_key, 10), (sample_key, 12), (sample_key, 15), (sample_key, 21)]" and c = "key_canonical (\<lambda>_. []) sample_key" and
      p = "\<lparr>rp_route = ''w'', rp_max = 2, rp_window = 10\<rparr>"]
  unfolding sample_run by (simp add: sample_policy del: allowed_times.simps)

text \<open>C28: The Retry-After value is honest. Once a key is refused with \<open>r\<close> seconds to wait, after any run of
the limiter, a check of that key at least \<open>r\<close> seconds later is let through.\<close>

theorem retry_after_honest:
  assumes "rate_cache L invar" "with_capacity_and_policies L cap pols = Some rl"
    and "card (key_canonical show_ip ` insert k (fst ` set evs)) \<le> max cap 1"
    and "\<forall>(q, _) \<in> set evs. key_canonical show_ip q = key_canonical show_ip k \<longrightarrow>
      policy_for rl (rk_route q) = policy_for rl (rk_route k)"
    and "sorted (map snd evs)" "\<forall>t \<in> snd ` set evs. t \<le> now"
    and "check_sync L show_ip (limiter_end L show_ip rl evs) k now = (rl1, Deny r l w)"
    and "now + r * 1000000000 \<le> t"
  shows "snd (check_sync L show_ip rl1 k t) = Allow"
proof -
  let ?K = "key_canonical show_ip ` insert k (fst ` set evs)" and ?c = "key_canonical show_ip k"
  let ?p = "policy_for rl (rk_route k)" and ?rl = "limiter_end L show_ip rl evs"
  note cache = rate_cache.axioms [OF assms(1)]
  have rl: "rl_buckets rl = lru_new L (max cap 1)"
    using assms(2) by (auto simp: with_capacity_and_policies_def split: if_splits)
  have new: "lru_cache.fits L invar (rl_buckets rl) ?K"
    unfolding rl by (rule lru_cache.new_fits [OF cache]) (use assms(3) in auto)
  have keys: "\<forall>(q, _) \<in> set evs. key_canonical show_ip q \<in> ?K" by force
  have empty: "bucket_ok ?p 0 (bucket_of L rl ?c)"
    using lru_cache.new [OF cache, of "max cap 1" ?c] by (simp add: bucket_of_def rl bucket_ok_def)
  have run: "bucket_ok ?p now (bucket_of L ?rl ?c)" "lru_cache.fits L invar (rl_buckets ?rl) ?K"
    using rate_cache.run_bucket_ok [OF assms(1) new keys assms(4) _ empty assms(6)] assms(5) by simp_all
  let ?b = "bucket_of L ?rl ?c"
  have b1: "bucket_of L rl1 ?c = fst (bucket_step ?p now ?b)"
    using rate_cache.check_sync_bucket(2) [OF assms(1) run(2), of show_ip k now ?c] assms(7) by simp
  have "snd (bucket_step ?p now ?b) = Deny r l w"
    using check_sync_snd [of L show_ip ?rl k now] assms(7) by simp
  then have deny: "bucket_step ?p now ?b = (bucket_of L rl1 ?c, Deny r l w)" by (simp add: b1 prod_eq_iff)
  have "policy_for rl1 = policy_for rl" using check_sync_policy [of L show_ip ?rl k now] assms(7) by simp
  then show ?thesis
    using bucket_reopens [OF run(1) policy_max_positive [OF assms(2)] deny assms(8)]
    by (simp add: check_sync_snd)
qed

theorem retry_after_honest_witness:
  "snd (check_sync recency_ops (\<lambda>_. []) (fst (check_sync recency_ops (\<lambda>_. [])
     (limiter_end recency_ops (\<lambda>_. []) sample_limiter [(sample_key, 10), (sample_key, 12)]) sample_key 15))
     sample_key 1000000015) = Allow"
proof -
  let ?rl = "limiter_end recency_ops (\<lambda>_. []) sample_limiter [(sample_key, 10), (sample_key, 12)]"
  have "snd (check_sync recency_ops (\<lambda>_. []) ?rl sample_key 15) = Deny 1 2 1"
    by (simp add: sample_eval Let_def)
  then have "check_sync recency_ops (\<lambda>_. []) ?rl sample_key 15 =
      (fst (check_sync recency_ops (\<lambda>_. []) ?rl sample_key 15), Deny 1 2 1)" by (simp add: prod_eq_iff)
  then show ?thesis
    by (rule retry_after_honest [OF rate.rate_cache_axioms sample_limiter_new, rotated 4]) simp_all
qed

end
