(* ===== verification/Replay.thy ===== *)
theory Replay
  imports Lru
begin

text \<open>
  The DPoP replay caches (\<open>oidc/replay.rs\<close>): \<open>DpopReplayCache\<close>, its counter, and the synchronous
  \<open>JtiReplayCache\<close>. Instants and durations are nanoseconds as natural numbers; the saturating
  difference of instants is then subtraction on \<open>nat\<close>, and \<open>SystemTime::duration_since\<close> with its
  fall-back to zero is the same. The mutex makes each call one step. The cache behind it is the
  interface \<open>lru_cache\<close>.
\<close>

section \<open>Model\<close>

definition DEFAULT_TTL_SECS :: nat where
  "DEFAULT_TTL_SECS = 60"

definition DEFAULT_MAX_SIZE :: nat where
  "DEFAULT_MAX_SIZE = 10000"

definition from_secs :: "nat \<Rightarrow> nat" where
  "from_secs s = s * 1000000000"

datatype ReplayError = Replayed nat

record 'c DpopReplayCache =
  dr_entries :: 'c
  dr_ttl :: nat
  dr_max_size :: nat

definition with_config :: "('c, nat) lru_ops \<Rightarrow> nat \<Rightarrow> nat \<Rightarrow> 'c DpopReplayCache" where
  "with_config L ttl max_size =
     \<lparr>dr_entries = lru_new L (max max_size 1), dr_ttl = ttl, dr_max_size = max max_size 1\<rparr>"

definition replay_from_env :: "('c, nat) lru_ops \<Rightarrow> string option \<Rightarrow> string option \<Rightarrow> 'c DpopReplayCache" where
  "replay_from_env L ttl_var size_var =
     (let ttl_secs = unwrap_or (Option.bind ttl_var (parse_uint 64)) DEFAULT_TTL_SECS;
          max_size = unwrap_or (Option.bind (Option.bind size_var (parse_uint 64)) (\<lambda>n. if n > 0 then Some n else None)) DEFAULT_MAX_SIZE
      in with_config L (from_secs ttl_secs) max_size)"

definition check_and_record :: "('c, nat) lru_ops \<Rightarrow> 'c DpopReplayCache \<Rightarrow> string \<Rightarrow> nat
    \<Rightarrow> 'c DpopReplayCache \<times> (ReplayError + unit)" where
  "check_and_record L c jti now =
     (case lru_peek L (dr_entries c) jti of
        Some first_seen \<Rightarrow>
          if now - first_seen < dr_ttl c then (c, Inl (Replayed (dr_ttl c)))
          else (c\<lparr>dr_entries := lru_put L (dr_entries c) jti now\<rparr>, Inr ())
      | None \<Rightarrow> (c\<lparr>dr_entries := lru_put L (dr_entries c) jti now\<rparr>, Inr ()))"

definition is_expired :: "('c, nat) lru_ops \<Rightarrow> 'c DpopReplayCache \<Rightarrow> nat \<Rightarrow> string \<Rightarrow> bool" where
  "is_expired L c now jti = (case lru_peek L (dr_entries c) jti of Some seen \<Rightarrow> now - seen \<ge> dr_ttl c | None \<Rightarrow> False)"

definition evict_expired :: "('c, nat) lru_ops \<Rightarrow> 'c DpopReplayCache \<Rightarrow> nat \<Rightarrow> 'c DpopReplayCache \<times> nat" where
  "evict_expired L c now =
     (let expired = filter (is_expired L c now) (lru_keys L (dr_entries c)) in
      (c\<lparr>dr_entries := fold (\<lambda>jti e. lru_pop L e jti) expired (dr_entries c)\<rparr>, length expired))"

record ReplayRejectedCounter =
  rc_value :: u64

definition counter_new :: ReplayRejectedCounter where
  "counter_new = \<lparr>rc_value = 0\<rparr>"

definition counter_increment :: "ReplayRejectedCounter \<Rightarrow> ReplayRejectedCounter" where
  "counter_increment r = r\<lparr>rc_value := rc_value r + 1\<rparr>"

definition JTI_DEFAULT_CAPACITY :: nat where
  "JTI_DEFAULT_CAPACITY = 10000"

definition JTI_DEFAULT_TTL :: nat where
  "JTI_DEFAULT_TTL = from_secs (5 * 60)"

record 'c JtiReplayCache =
  jr_entries :: 'c
  jr_ttl :: nat
  jr_capacity :: nat

definition JtiReplayCache_new :: "('c, nat) lru_ops \<Rightarrow> nat \<Rightarrow> nat \<Rightarrow> 'c JtiReplayCache" where
  "JtiReplayCache_new L capacity ttl =
     \<lparr>jr_entries = lru_new L (max capacity 1), jr_ttl = ttl, jr_capacity = max capacity 1\<rparr>"

definition check_and_insert :: "('c, nat) lru_ops \<Rightarrow> 'c JtiReplayCache \<Rightarrow> string \<Rightarrow> nat
    \<Rightarrow> 'c JtiReplayCache \<times> (ReplayError + unit)" where
  "check_and_insert L c jti now =
     (case lru_peek L (jr_entries c) jti of
        Some first_seen \<Rightarrow>
          if now - first_seen < jr_ttl c then (c, Inl (Replayed (jr_ttl c)))
          else (c\<lparr>jr_entries := lru_put L (jr_entries c) jti now\<rparr>, Inr ())
      | None \<Rightarrow> (c\<lparr>jr_entries := lru_put L (jr_entries c) jti now\<rparr>, Inr ()))"

section \<open>The unbounded reference\<close>

text \<open>A replay filter that never forgets: the time each identifier was last accepted.\<close>

definition once_step :: "nat \<Rightarrow> (string \<Rightarrow> nat option) \<Rightarrow> nat \<times> string \<Rightarrow> bool \<times> (string \<Rightarrow> nat option)" where
  "once_step ttl seen ev =
     (case seen (snd ev) of
        Some t \<Rightarrow> if fst ev - t < ttl then (False, seen) else (True, seen(snd ev \<mapsto> fst ev))
      | None \<Rightarrow> (True, seen(snd ev \<mapsto> fst ev)))"

fun once_run :: "nat \<Rightarrow> (string \<Rightarrow> nat option) \<Rightarrow> (nat \<times> string) list \<Rightarrow> bool list" where
  "once_run ttl seen [] = []"
| "once_run ttl seen (ev # evs) = (let (ok, seen1) = once_step ttl seen ev in ok # once_run ttl seen1 evs)"

fun replay_run :: "('c, nat) lru_ops \<Rightarrow> 'c DpopReplayCache \<Rightarrow> (nat \<times> string) list \<Rightarrow> bool list" where
  "replay_run L c [] = []"
| "replay_run L c (ev # evs) =
     (let (c1, r) = check_and_record L c (snd ev) (fst ev) in is_ok r # replay_run L c1 evs)"

lemma once_run_length [simp]: "length (once_run ttl seen evs) = length evs"
  by (induction ttl seen evs rule: once_run.induct) (simp_all split: prod.splits)

lemma once_run_after_accept:
  assumes "seen x = Some t" "j < length evs" "snd (evs ! j) = x" "once_run ttl seen evs ! j"
  shows "ttl \<le> fst (evs ! j) - t"
  using assms
proof (induction evs arbitrary: seen t j)
  case (Cons ev evs)
  obtain ok seen1 where st: "once_step ttl seen ev = (ok, seen1)" by force
  show ?case
  proof (cases j)
    case 0
    then show ?thesis using Cons.prems st by (auto simp: once_step_def split: if_splits option.splits)
  next
    case (Suc i)
    show ?thesis
    proof (cases "snd ev = x \<and> ok")
      case True
      then have "ttl \<le> fst ev - t" "seen1 x = Some (fst ev)"
        using Cons.prems(1) st by (auto simp: once_step_def split: if_splits option.splits)
      moreover have "ttl \<le> fst (evs ! i) - fst ev"
        using Cons.IH [of seen1 "fst ev" i] Cons.prems Suc st calculation(2) by simp
      ultimately show ?thesis using Suc by simp
    next
      case False
      then have "seen1 x = Some t"
        using Cons.prems(1) st by (auto simp: once_step_def split: if_splits option.splits)
      then show ?thesis using Cons.IH [of seen1 t i] Cons.prems Suc st by simp
    qed
  qed
qed simp

lemma once_run_spaced:
  assumes "i < j" "j < length evs" "snd (evs ! i) = snd (evs ! j)" "once_run ttl seen evs ! i" "once_run ttl seen evs ! j"
  shows "ttl \<le> fst (evs ! j) - fst (evs ! i)"
  using assms
proof (induction evs arbitrary: seen i j)
  case (Cons ev evs)
  obtain ok seen1 where st: "once_step ttl seen ev = (ok, seen1)" by force
  obtain k where j: "j = Suc k" using Cons.prems(1) by (cases j) auto
  show ?case
  proof (cases i)
    case 0
    then have "seen1 (snd ev) = Some (fst ev)"
      using Cons.prems(4) st by (auto simp: once_step_def split: if_splits option.splits)
    then show ?thesis
      using once_run_after_accept [of seen1 "snd ev" "fst ev" k evs ttl] Cons.prems j 0 st by simp
  next
    case (Suc m)
    then show ?thesis using Cons.IH [of m k seen1] Cons.prems j st by simp
  qed
qed simp

lemma once_run_fresh:
  assumes "j < length evs" "seen (snd (evs ! j)) = None" "\<forall>k < j. snd (evs ! k) \<noteq> snd (evs ! j)"
  shows "once_run ttl seen evs ! j"
  using assms
proof (induction evs arbitrary: seen j)
  case (Cons ev evs)
  obtain ok seen1 where st: "once_step ttl seen ev = (ok, seen1)" by force
  show ?case
  proof (cases j)
    case 0
    then show ?thesis using Cons.prems(2) st by (auto simp: once_step_def)
  next
    case (Suc m)
    have "snd ev \<noteq> snd (evs ! m)" using Cons.prems(3) Suc by (metis nth_Cons_0 nth_Cons_Suc zero_less_Suc)
    then have "seen1 (snd (evs ! m)) = None"
      using Cons.prems(2) Suc st by (auto simp: once_step_def split: option.splits if_splits)
    moreover have "\<forall>k < m. snd (evs ! k) \<noteq> snd (evs ! m)" using Cons.prems(3) Suc by fastforce
    ultimately show ?thesis using Cons.IH [of m seen1] Cons.prems(1) Suc st by simp
  qed
qed simp

text \<open>The caches as clients of the interface: while the identifiers fit, the cache is the reference.\<close>

locale replay_cache = lru_cache L invar
  for L :: "('c, nat) lru_ops" and invar
begin

lemma replay_run_once:
  assumes "fits (dr_entries c) K" "snd ` set evs \<subseteq> K"
  shows "replay_run L c evs = once_run (dr_ttl c) (lru_peek L (dr_entries c)) evs"
  using assms
proof (induction evs arbitrary: c)
  case (Cons ev evs)
  have k: "snd ev \<in> K" using Cons.prems(2) by simp
  obtain c1 r where st: "check_and_record L c (snd ev) (fst ev) = (c1, r)" by force
  then have "once_step (dr_ttl c) (lru_peek L (dr_entries c)) ev = (is_ok r, lru_peek L (dr_entries c1))"
    and "fits (dr_entries c1) K" "dr_ttl c1 = dr_ttl c"
    using put_fits [OF Cons.prems(1) k] Cons.prems(1)
    by (auto simp: check_and_record_def once_step_def split: option.splits if_splits)
  then show ?case using Cons.IH [of c1] Cons.prems(2) st by simp
qed simp

end

interpretation replay: replay_cache recency_ops recency_invar ..

section \<open>Properties\<close>

text \<open>A DPoP proof is accepted once per window: in any run of the cache from empty, over no more
  identifiers than its capacity, two accepted presentations of the same identifier are at least the
  time to live apart, and the first presentation of an identifier is always accepted.\<close>

theorem replay_accepts_once:
  assumes "replay_cache L invar" "card (snd ` set evs) \<le> max n 1" "j < length evs"
  shows "(i < j \<and> snd (evs ! i) = snd (evs ! j) \<and> replay_run L (with_config L ttl n) evs ! i \<and>
      replay_run L (with_config L ttl n) evs ! j \<longrightarrow> ttl \<le> fst (evs ! j) - fst (evs ! i)) \<and>
    ((\<forall>k < j. snd (evs ! k) \<noteq> snd (evs ! j)) \<longrightarrow> replay_run L (with_config L ttl n) evs ! j)"
proof -
  have r: "replay_run L (with_config L ttl n) evs = once_run ttl (\<lambda>_. None) evs"
  proof -
    have f: "lru_cache.fits L invar (lru_new L (max n 1)) (snd ` set evs)"
      using lru_cache.new_fits [of L invar] assms(1,2) by (simp add: replay_cache_def)
    have "lru_peek L (lru_new L (max n 1)) = (\<lambda>_. None)"
      using lru_cache.new [of L invar "max n 1"] assms(1) by (auto simp: replay_cache_def fun_eq_iff)
    then show ?thesis
      using replay_cache.replay_run_once [OF assms(1), of "with_config L ttl n" "snd ` set evs" evs] f
      by (simp add: with_config_def)
  qed
  then show ?thesis using once_run_spaced [of i j evs ttl "\<lambda>_. None"] once_run_fresh [of j evs "\<lambda>_. None" ttl] assms(3)
    by simp
qed

theorem replay_accepts_once_witness:
  "replay_run recency_ops (with_config recency_ops 10 2) [(0, ''a''), (5, ''a''), (7, ''b''), (12, ''a'')] = [True, False, True, True] \<and>
   10 \<le> (12 :: nat) - 0"
proof -
  have r: "replay_run recency_ops (with_config recency_ops 10 2) [(0, ''a''), (5, ''a''), (7, ''b''), (12, ''a'')] = [True, False, True, True]"
    by code_simp
  then show ?thesis
    using replay_accepts_once [OF replay.replay_cache_axioms, of "[(0, ''a''), (5, ''a''), (7, ''b''), (12, ''a'')]" 2 3 0 10]
    by simp
qed

end
