(* ===== verification/Oidc.thy ===== *)
theory Oidc
  imports Replay Pod_Error Json
begin

unbundle bit_operations_syntax

text \<open>
  Solid-OIDC on the server side (\<open>oidc/mod.rs\<close>): client registration, discovery, JWK thumbprints, DPoP
  proofs with the replay cache, access tokens, WebID extraction and introspection. JWT decoding with
  signature verification (\<open>jsonwebtoken\<close>), JSON, SHA-256 and base64 are the fields of an environment; a
  decoding key is of an abstract type. Random identifiers are arguments. Where the code renders a
  foreign error in a message, the literal part is kept.
\<close>

section \<open>Registration and discovery\<close>

record ClientRegistrationRequest =
  cr_redirect_uris :: "string list"
  cr_client_name :: "string option"
  cr_client_uri :: "string option"
  cr_grant_types :: "string list"
  cr_response_types :: "string list"
  cr_scope :: "string option"
  cr_token_endpoint_auth_method :: "string option"
  cr_application_type :: "string option"

record ClientRegistrationResponse =
  rs_client_id :: string
  rs_client_secret :: "string option"
  rs_client_id_issued_at :: u64
  rs_client_secret_expires_at :: u64
  rs_metadata :: "(string \<times> json) list"

definition json_strings :: "string list \<Rightarrow> json" where
  "json_strings ss = JArray (map JString ss)"

definition register_client :: "string \<Rightarrow> string \<Rightarrow> ClientRegistrationRequest \<Rightarrow> u64 \<Rightarrow> ClientRegistrationResponse" where
  "register_client uuid1 uuid2 req now =
     \<lparr>rs_client_id = ''client-'' @ uuid1,
      rs_client_secret = (if cr_token_endpoint_auth_method req = Some ''none'' then None else Some (''secret-'' @ uuid2)),
      rs_client_id_issued_at = now,
      rs_client_secret_expires_at = 0,
      rs_metadata =
        [(''redirect_uris'', json_strings (cr_redirect_uris req))]
        @ (case cr_client_name req of Some n \<Rightarrow> [(''client_name'', JString n)] | None \<Rightarrow> [])
        @ (case cr_scope req of Some s \<Rightarrow> [(''scope'', JString s)] | None \<Rightarrow> [])
        @ (if cr_grant_types req = [] then [] else [(''grant_types'', json_strings (cr_grant_types req))])
        @ (if cr_response_types req = [] then [] else [(''response_types'', json_strings (cr_response_types req))])\<rparr>"

record DiscoveryDocument =
  dd_issuer :: string
  dd_authorization_endpoint :: string
  dd_token_endpoint :: string
  dd_userinfo_endpoint :: string
  dd_jwks_uri :: string
  dd_registration_endpoint :: string
  dd_introspection_endpoint :: string
  dd_scopes_supported :: "string list"
  dd_response_types_supported :: "string list"
  dd_grant_types_supported :: "string list"
  dd_token_endpoint_auth_methods_supported :: "string list"
  dd_dpop_signing_alg_values_supported :: "string list"
  dd_solid_oidc_supported :: "string list"
  dd_id_token_signing_alg_values_supported :: "string list"

definition discovery_for :: "string \<Rightarrow> DiscoveryDocument" where
  "discovery_for issuer = (let b = trim_end_matches (CHR ''/'') issuer in
     \<lparr>dd_issuer = b, dd_authorization_endpoint = b @ ''/authorize'', dd_token_endpoint = b @ ''/token'',
      dd_userinfo_endpoint = b @ ''/userinfo'', dd_jwks_uri = b @ ''/jwks'', dd_registration_endpoint = b @ ''/register'',
      dd_introspection_endpoint = b @ ''/introspect'',
      dd_scopes_supported = [''openid'', ''profile'', ''webid'', ''offline_access''],
      dd_response_types_supported = [''code'', ''id_token''],
      dd_grant_types_supported = [''authorization_code'', ''refresh_token'', ''client_credentials''],
      dd_token_endpoint_auth_methods_supported = [''client_secret_basic'', ''client_secret_post'', ''private_key_jwt'', ''none''],
      dd_dpop_signing_alg_values_supported = [''ES256'', ''RS256''],
      dd_solid_oidc_supported = [''https://solidproject.org/TR/solid-oidc''],
      dd_id_token_signing_alg_values_supported = [''RS256'', ''ES256'']\<rparr>)"

section \<open>Keys\<close>

datatype Algorithm = HS256 | HS384 | HS512 | ES256 | ES384 | RS256 | RS384 | RS512 | PS256 | PS384 | PS512 | EdDSA

record Jwk =
  jk_kty :: string
  jk_alg :: "string option"
  jk_kid :: "string option"
  jk_use :: "string option"
  jk_crv :: "string option"
  jk_x :: "string option"
  jk_y :: "string option"
  jk_n :: "string option"
  jk_e :: "string option"
  jk_k :: "string option"

text \<open>The required members of a key, sorted by name.\<close>

definition member_of :: "string \<Rightarrow> string option \<Rightarrow> PodError + string" where
  "member_of what m = ok_or m (Unsupported what)"

definition thumbprint_members :: "Jwk \<Rightarrow> PodError + (string \<times> string) list" where
  "thumbprint_members j =
     (if jk_kty j = ''EC'' then
        rbind (member_of ''EC JWK missing crv'' (jk_crv j)) (\<lambda>crv.
        rbind (member_of ''EC JWK missing x'' (jk_x j)) (\<lambda>x.
        rbind (member_of ''EC JWK missing y'' (jk_y j)) (\<lambda>y.
          Inr [(''crv'', crv), (''kty'', ''EC''), (''x'', x), (''y'', y)])))
      else if jk_kty j = ''RSA'' then
        rbind (member_of ''RSA JWK missing e'' (jk_e j)) (\<lambda>e.
        rbind (member_of ''RSA JWK missing n'' (jk_n j)) (\<lambda>n.
          Inr [(''e'', e), (''kty'', ''RSA''), (''n'', n)]))
      else if jk_kty j = ''OKP'' then
        rbind (member_of ''OKP JWK missing crv'' (jk_crv j)) (\<lambda>crv.
        rbind (member_of ''OKP JWK missing x'' (jk_x j)) (\<lambda>x.
          Inr [(''crv'', crv), (''kty'', ''OKP''), (''x'', x)]))
      else if jk_kty j = ''oct'' then
        rbind (member_of ''oct JWK missing k'' (jk_k j)) (\<lambda>k. Inr [(''k'', k), (''kty'', ''oct'')])
      else Inl (Unsupported (''unsupported JWK kty: '' @ jk_kty j)))"

record DpopClaims =
  dc_htu :: string
  dc_htm :: string
  dc_iat :: u64
  dc_jti :: string
  dc_ath :: "string option"

record CnfClaim =
  cnf_jkt :: string

record SolidOidcClaims =
  sc_iss :: string
  sc_sub :: string
  sc_aud :: json
  sc_exp :: u64
  sc_iat :: u64
  sc_webid :: "string option"
  sc_client_id :: "string option"
  sc_cnf :: "CnfClaim option"
  sc_scope :: "string option"

record jwt_header =
  jh_typ :: "string option"
  jh_alg :: Algorithm
  jh_kid :: "string option"
  jh_jwk :: "json option"

text \<open>A key of a JWK set, as far as its selection looks into it.\<close>

record set_key =
  sk_kid :: "string option"
  sk_alg :: "Algorithm option"
  sk_jwk :: json

record 'k oidc_env =
  oe_decode_header :: "string \<Rightarrow> jwt_header option"
  oe_jwk_of :: "json \<Rightarrow> Jwk option"
  oe_decoding_key :: "json \<Rightarrow> 'k option"
  oe_from_secret :: "bytes \<Rightarrow> 'k"
  oe_decode_dpop :: "string \<Rightarrow> 'k \<Rightarrow> Algorithm \<Rightarrow> DpopClaims option"
  oe_decode_token :: "string \<Rightarrow> 'k \<Rightarrow> Algorithm \<Rightarrow> string \<Rightarrow> SolidOidcClaims option"
  oe_to_vec :: "(string \<times> string) list \<Rightarrow> bytes"
  oe_sha256 :: "bytes \<Rightarrow> bytes"
  oe_base64_url :: "bytes \<Rightarrow> string"

definition thumbprint :: "'k oidc_env \<Rightarrow> Jwk \<Rightarrow> PodError + string" where
  "thumbprint env j = rbind (thumbprint_members j) (\<lambda>ms. Inr (oe_base64_url env (oe_sha256 env (oe_to_vec env ms))))"

section \<open>DPoP proofs\<close>

record DpopVerified =
  dv_jkt :: string
  dv_htm :: string
  dv_htu :: string
  dv_iat :: u64
  dv_jti :: string
  dv_ath :: "string option"

definition byte_of :: "char \<Rightarrow> u8" where
  "byte_of c = of_nat (of_char c)"

definition constant_time_eq :: "bytes \<Rightarrow> bytes \<Rightarrow> bool" where
  "constant_time_eq a b =
     (if length a \<noteq> length b then False
      else fold (\<lambda>(x, y) diff. diff OR (byte_of x XOR byte_of y)) (zip a b) (0 :: u8) = 0)"

definition normalise_htu :: "string \<Rightarrow> string" where
  "normalise_htu u = to_ascii_lowercase (trim_end_matches (CHR ''/'') u)"

definition asymmetric :: "Algorithm \<Rightarrow> bool" where
  "asymmetric alg \<longleftrightarrow> alg \<in> {ES256, ES384, RS256, RS384, RS512, PS256, PS384, PS512, EdDSA}"

definition check_ath :: "string option \<Rightarrow> DpopClaims \<Rightarrow> PodError + unit" where
  "check_ath expected_ath claims =
     (case expected_ath of
        None \<Rightarrow> Inr ()
      | Some want \<Rightarrow> (case dc_ath claims of
          None \<Rightarrow> Inl (Nip98 ''DPoP proof missing ath but access token present'')
        | Some got \<Rightarrow> if constant_time_eq got want then Inr () else Inl (Nip98 ''DPoP ath does not match access-token hash'')))"

definition check_dpop_claims :: "string \<Rightarrow> string \<Rightarrow> u64 \<Rightarrow> u64 \<Rightarrow> string option \<Rightarrow> DpopClaims \<Rightarrow> PodError + unit" where
  "check_dpop_claims expected_htu expected_htm now skew expected_ath claims =
     (if to_uppercase (dc_htm claims) \<noteq> to_uppercase expected_htm then
        Inl (Nip98 (''DPoP htm mismatch: '' @ dc_htm claims @ '' vs '' @ expected_htm))
      else if normalise_htu (dc_htu claims) \<noteq> normalise_htu expected_htu then
        Inl (Nip98 (''DPoP htu mismatch: '' @ dc_htu claims @ '' vs '' @ expected_htu))
      else if sat_sub now (dc_iat claims) > skew \<or> sat_sub (dc_iat claims) now > skew then
        Inl (Nip98 ''DPoP iat outside tolerance'')
      else check_ath expected_ath claims)"

definition verify_dpop_proof_core :: "'k oidc_env \<Rightarrow> string \<Rightarrow> string \<Rightarrow> string \<Rightarrow> u64 \<Rightarrow> u64 \<Rightarrow> string option \<Rightarrow> PodError + DpopVerified" where
  "verify_dpop_proof_core env proof_s expected_htu expected_htm now skew expected_ath =
     rbind (ok_or (oe_decode_header env proof_s) (Nip98 ''DPoP header decode failed: '')) (\<lambda>header.
     if jh_typ header \<noteq> Some ''dpop+jwt'' then Inl (Nip98 ''DPoP typ must be dpop+jwt'')
     else rbind (ok_or (jh_jwk header) (Nip98 ''DPoP header missing jwk'')) (\<lambda>jwk_val.
     rbind (ok_or (oe_jwk_of env jwk_val) (Nip98 ''DPoP jwk parse failed: '')) (\<lambda>jwk.
     rbind (thumbprint env jwk) (\<lambda>jkt.
     if \<not> (asymmetric (jh_alg header) \<or> jh_alg header = HS256 \<and> jk_kty jwk = ''oct'') then
       Inl (Nip98 ''DPoP alg is not permitted'')
     else rbind (ok_or (oe_decoding_key env jwk_val) (Nip98 ''DPoP jwk to DecodingKey failed: '')) (\<lambda>key.
     rbind (ok_or (oe_decode_dpop env proof_s key (jh_alg header)) (Nip98 ''DPoP proof signature verification failed: '')) (\<lambda>claims.
     rbind (check_dpop_claims expected_htu expected_htm now skew expected_ath claims) (\<lambda>_.
       Inr \<lparr>dv_jkt = jkt, dv_htm = dc_htm claims, dv_htu = dc_htu claims, dv_iat = dc_iat claims,
         dv_jti = dc_jti claims, dv_ath = dc_ath claims\<rparr>)))))))"

text \<open>The replay cache is optional; it and the global counter of rejections are threaded. \<open>inst\<close> is the
  monotonic clock the cache reads.\<close>

definition verify_dpop_proof_with_ath :: "('c, nat) lru_ops \<Rightarrow> 'k oidc_env \<Rightarrow> string \<Rightarrow> string \<Rightarrow> string \<Rightarrow> u64 \<Rightarrow> u64 \<Rightarrow> string option
    \<Rightarrow> nat \<Rightarrow> 'c DpopReplayCache option \<times> ReplayRejectedCounter
    \<Rightarrow> ('c DpopReplayCache option \<times> ReplayRejectedCounter) \<times> (PodError + DpopVerified)" where
  "verify_dpop_proof_with_ath L env proof_s htu htm now skew ath inst st =
     try_with st (verify_dpop_proof_core env proof_s htu htm now skew ath) (\<lambda>verified.
       case fst st of
         None \<Rightarrow> (st, Inr verified)
       | Some cache \<Rightarrow> (case check_and_record L cache (dv_jti verified) inst of
           (cache', Inl (Replayed _)) \<Rightarrow>
             ((Some cache', counter_increment (snd st)), Inl (Nip98 ''DPoP jti replay detected: ''))
         | (cache', Inr _) \<Rightarrow> ((Some cache', snd st), Inr verified)))"

definition verify_dpop_proof :: "('c, nat) lru_ops \<Rightarrow> 'k oidc_env \<Rightarrow> string \<Rightarrow> string \<Rightarrow> string \<Rightarrow> u64 \<Rightarrow> u64
    \<Rightarrow> nat \<Rightarrow> 'c DpopReplayCache option \<times> ReplayRejectedCounter
    \<Rightarrow> ('c DpopReplayCache option \<times> ReplayRejectedCounter) \<times> (PodError + DpopVerified)" where
  "verify_dpop_proof L env proof_s htu htm now skew = verify_dpop_proof_with_ath L env proof_s htu htm now skew None"

section \<open>Access tokens\<close>

record AccessTokenVerified =
  av_webid :: string
  av_client_id :: "string option"
  av_iss :: string
  av_jkt :: string
  av_scope :: "string option"
  av_exp :: u64

datatype TokenVerifyKey = Symmetric bytes | Asymmetric "set_key list"

definition http_url :: "string \<Rightarrow> bool" where
  "http_url w \<longleftrightarrow> starts_with ''http://'' w \<or> starts_with ''https://'' w"

definition extract_webid :: "SolidOidcClaims \<Rightarrow> PodError + string" where
  "extract_webid claims =
     (case sc_webid claims of
        Some w \<Rightarrow> if http_url w then Inr w
          else if http_url (sc_sub claims) then Inr (sc_sub claims)
          else Inl (Nip98 ''no WebID present in access token (neither webid claim nor url-shaped sub)'')
      | None \<Rightarrow> if http_url (sc_sub claims) then Inr (sc_sub claims)
          else Inl (Nip98 ''no WebID present in access token (neither webid claim nor url-shaped sub)''))"

definition select_jwk :: "jwt_header \<Rightarrow> set_key list \<Rightarrow> PodError + set_key" where
  "select_jwk header ks =
     (case jh_kid header of
        Some kid \<Rightarrow> ok_or (find (\<lambda>j. sk_kid j = Some kid) ks)
          (Nip98 (''access token kid '' @ [CHR 0x27] @ kid @ [CHR 0x27] @ '' not present in configured JwkSet''))
      | None \<Rightarrow> ok_or (find (\<lambda>j. sk_alg j = Some (jh_alg header)) ks) (Nip98 ''access token alg has no matching JWK in keyset''))"

definition token_key :: "'k oidc_env \<Rightarrow> jwt_header \<Rightarrow> TokenVerifyKey \<Rightarrow> PodError + 'k" where
  "token_key env header keyset =
     (case keyset of
        Symmetric secret \<Rightarrow>
          if jh_alg header = HS256 then Inr (oe_from_secret env secret)
          else if jh_alg header \<in> {RS256, ES256, EdDSA} then
            Inl (Nip98 ''access token uses asymmetric alg but only a symmetric keyset is configured'')
          else Inl (Nip98 ''access token alg not permitted'')
      | Asymmetric ks \<Rightarrow>
          if jh_alg header = HS256 then Inl (Nip98 ''HS256 not permitted for external OIDC'')
          else if jh_alg header \<in> {RS256, ES256, EdDSA} then
            rbind (select_jwk header ks) (\<lambda>jwk. ok_or (oe_decoding_key env (sk_jwk jwk)) (Nip98 ''JwkSet to DecodingKey failed: ''))
          else Inl (Nip98 ''access token alg not permitted''))"

definition verify_access_token :: "'k oidc_env \<Rightarrow> string \<Rightarrow> TokenVerifyKey \<Rightarrow> string \<Rightarrow> string \<Rightarrow> u64 \<Rightarrow> PodError + AccessTokenVerified" where
  "verify_access_token env token keyset expected_issuer dpop_jkt now =
     rbind (ok_or (oe_decode_header env token) (Nip98 ''access token header decode failed: '')) (\<lambda>header.
     rbind (token_key env header keyset) (\<lambda>key.
     rbind (ok_or (oe_decode_token env token key (jh_alg header) expected_issuer) (Nip98 ''access token decode failed: '')) (\<lambda>claims.
     if sc_exp claims < now then Inl (Nip98 ''access token expired'')
     else rbind (ok_or (sc_cnf claims) (Nip98 ''access token missing cnf'')) (\<lambda>cnf.
     if cnf_jkt cnf \<noteq> dpop_jkt then Inl (Nip98 ''cnf.jkt does not match DPoP thumbprint'')
     else rbind (extract_webid claims) (\<lambda>webid.
       Inr \<lparr>av_webid = webid, av_client_id = sc_client_id claims, av_iss = sc_iss claims, av_jkt = cnf_jkt cnf,
         av_scope = sc_scope claims, av_exp = sc_exp claims\<rparr>)))))"

definition verify_access_token_hs256 :: "'k oidc_env \<Rightarrow> string \<Rightarrow> bytes \<Rightarrow> string \<Rightarrow> string \<Rightarrow> u64 \<Rightarrow> PodError + AccessTokenVerified" where
  "verify_access_token_hs256 env token secret = verify_access_token env token (Symmetric secret)"

record IntrospectionResponse =
  ir_active :: bool
  ir_webid :: "string option"
  ir_client_id :: "string option"
  ir_exp :: "u64 option"
  ir_iss :: "string option"
  ir_scope :: "string option"
  ir_cnf :: "CnfClaim option"

definition from_verified :: "AccessTokenVerified \<Rightarrow> IntrospectionResponse" where
  "from_verified v = \<lparr>ir_active = True, ir_webid = Some (av_webid v), ir_client_id = av_client_id v, ir_exp = Some (av_exp v),
     ir_iss = Some (av_iss v), ir_scope = av_scope v, ir_cnf = Some \<lparr>cnf_jkt = av_jkt v\<rparr>\<rparr>"

definition inactive :: IntrospectionResponse where
  "inactive = \<lparr>ir_active = False, ir_webid = None, ir_client_id = None, ir_exp = None, ir_iss = None, ir_scope = None, ir_cnf = None\<rparr>"

section \<open>Comparisons\<close>

lemma byte_of_eq [simp]: "byte_of x = byte_of y \<longleftrightarrow> x = y"
proof
  assume "byte_of x = byte_of y"
  then have "unat (byte_of x) = unat (byte_of y)" by simp
  moreover have "unat (byte_of c) = of_char c" for c
    by (simp add: byte_of_def unat_of_nat)
  ultimately have "(of_char x :: nat) = of_char y" by simp
  then show "x = y" by simp
qed simp

lemma xor_zero_iff: "a XOR b = 0 \<longleftrightarrow> a = b" for a b :: "'a :: len word"
  by (metis xor.assoc xor.left_neutral xor.right_neutral xor_self_eq)

lemma fold_diff_zero:
  "fold (\<lambda>(x, y) diff. diff OR (byte_of x XOR byte_of y)) xs d = 0 \<longleftrightarrow> d = 0 \<and> list_all (\<lambda>(x, y). x = y) xs"
proof (induction xs arbitrary: d)
  case (Cons e xs)
  have "d OR (byte_of (fst e) XOR byte_of (snd e)) = 0 \<longleftrightarrow> d = 0 \<and> fst e = snd e"
    unfolding or_eq_0_iff xor_zero_iff byte_of_eq ..
  then show ?case using Cons.IH by (simp add: case_prod_beta)
qed simp

lemma constant_time_eq_iff: "constant_time_eq a b \<longleftrightarrow> a = b"
  by (auto simp: constant_time_eq_def fold_diff_zero list_eq_iff_zip_eq list_all_iff)

lemma sat_sub_le_iff: "\<not> sat_sub a b > s \<longleftrightarrow> unat a \<le> unat b + unat s"
  by (auto simp: sat_sub_def not_less word_le_nat_alt unat_sub_if')

section \<open>What acceptance means\<close>

lemma check_dpop_claims_ok:
  "check_dpop_claims htu htm now skew ath c = Inr u \<longleftrightarrow>
     to_uppercase (dc_htm c) = to_uppercase htm \<and> normalise_htu (dc_htu c) = normalise_htu htu \<and>
     unat now \<le> unat (dc_iat c) + unat skew \<and> unat (dc_iat c) \<le> unat now + unat skew \<and>
     (ath = None \<or> dc_ath c = ath)"
  by (auto simp: check_dpop_claims_def check_ath_def constant_time_eq_iff sat_sub_le_iff [symmetric]
      split: option.splits if_splits)

definition dpop_alg_ok :: "Algorithm \<Rightarrow> Jwk \<Rightarrow> bool" where
  "dpop_alg_ok alg jwk \<longleftrightarrow> asymmetric alg \<or> alg = HS256 \<and> jk_kty jwk = ''oct''"

lemma core_ok:
  assumes "verify_dpop_proof_core env p htu htm now skew ath = Inr v"
  obtains h jv jwk key c where "oe_decode_header env p = Some h" "jh_typ h = Some ''dpop+jwt''" "jh_jwk h = Some jv"
    "oe_jwk_of env jv = Some jwk" "thumbprint env jwk = Inr (dv_jkt v)" "dpop_alg_ok (jh_alg h) jwk"
    "oe_decoding_key env jv = Some key" "oe_decode_dpop env p key (jh_alg h) = Some c"
    "check_dpop_claims htu htm now skew ath c = Inr ()"
    "v = \<lparr>dv_jkt = dv_jkt v, dv_htm = dc_htm c, dv_htu = dc_htu c, dv_iat = dc_iat c, dv_jti = dc_jti c, dv_ath = dc_ath c\<rparr>"
proof -
  obtain h where h: "oe_decode_header env p = Some h" using assms by (cases "oe_decode_header env p") (auto simp: verify_dpop_proof_core_def)
  have t: "jh_typ h = Some ''dpop+jwt''" using assms h by (auto simp: verify_dpop_proof_core_def split: if_splits)
  obtain jv where jv: "jh_jwk h = Some jv" using assms h t by (cases "jh_jwk h") (auto simp: verify_dpop_proof_core_def)
  obtain jwk where jwk: "oe_jwk_of env jv = Some jwk" using assms h t jv by (cases "oe_jwk_of env jv") (auto simp: verify_dpop_proof_core_def)
  obtain jkt where jkt: "thumbprint env jwk = Inr jkt" using assms h t jv jwk by (cases "thumbprint env jwk") (auto simp: verify_dpop_proof_core_def)
  have alg: "dpop_alg_ok (jh_alg h) jwk"
    using assms h t jv jwk jkt by (auto simp: verify_dpop_proof_core_def dpop_alg_ok_def split: if_splits)
  obtain key where key: "oe_decoding_key env jv = Some key"
    using assms h t jv jwk jkt alg by (cases "oe_decoding_key env jv") (auto simp: verify_dpop_proof_core_def dpop_alg_ok_def)
  obtain c where c: "oe_decode_dpop env p key (jh_alg h) = Some c"
    using assms h t jv jwk jkt alg key by (cases "oe_decode_dpop env p key (jh_alg h)") (auto simp: verify_dpop_proof_core_def dpop_alg_ok_def)
  have fin: "rbind (check_dpop_claims htu htm now skew ath c) (\<lambda>_. Inr \<lparr>dv_jkt = jkt, dv_htm = dc_htm c, dv_htu = dc_htu c,
      dv_iat = dc_iat c, dv_jti = dc_jti c, dv_ath = dc_ath c\<rparr>) = Inr v"
    using assms h t jv jwk jkt alg key c by (auto simp: verify_dpop_proof_core_def dpop_alg_ok_def split: if_splits)
  show ?thesis using that [OF h t jv jwk _ alg key c] fin jkt by (auto simp: rbind_Inr_conv)
qed

lemma with_ath_ok: "snd (verify_dpop_proof_with_ath L env p htu htm now skew ath inst st) = Inr v \<Longrightarrow>
    verify_dpop_proof_core env p htu htm now skew ath = Inr v"
  by (cases "verify_dpop_proof_core env p htu htm now skew ath")
     (auto simp: verify_dpop_proof_with_ath_def split: option.splits prod.splits sum.splits ReplayError.splits)

lemma token_ok:
  assumes "verify_access_token env tok ks iss jkt now = Inr a"
  obtains h key c cnf where "oe_decode_header env tok = Some h" "token_key env h ks = Inr key"
    "oe_decode_token env tok key (jh_alg h) iss = Some c" "now \<le> sc_exp c" "sc_cnf c = Some cnf" "cnf_jkt cnf = jkt"
    "extract_webid c = Inr (av_webid a)" "av_jkt a = jkt" "av_exp a = sc_exp c" "av_iss a = sc_iss c"
proof -
  obtain h where h: "oe_decode_header env tok = Some h" using assms by (cases "oe_decode_header env tok") (auto simp: verify_access_token_def)
  obtain key where key: "token_key env h ks = Inr key" using assms h by (cases "token_key env h ks") (auto simp: verify_access_token_def)
  obtain c where c: "oe_decode_token env tok key (jh_alg h) iss = Some c"
    using assms h key by (cases "oe_decode_token env tok key (jh_alg h) iss") (auto simp: verify_access_token_def)
  obtain cnf where cnf: "sc_cnf c = Some cnf" "now \<le> sc_exp c"
    using assms h key c by (cases "sc_cnf c") (auto simp: verify_access_token_def not_less split: if_splits)
  then have fin: "cnf_jkt cnf = jkt \<and> extract_webid c = Inr (av_webid a) \<and> av_jkt a = jkt \<and> av_exp a = sc_exp c \<and> av_iss a = sc_iss c"
    using assms h key c by (auto simp: verify_access_token_def rbind_Inr_conv not_less [symmetric] split: if_splits)
  show ?thesis using that [OF h key c cnf(2,1)] fin by blast
qed

lemma extract_webid_http: "extract_webid c = Inr w \<Longrightarrow> http_url w \<and> (sc_webid c = Some w \<or> sc_sub c = w)"
  by (auto simp: extract_webid_def split: option.splits if_splits)

section \<open>Runs of proofs\<close>

record dpop_request =
  dq_proof :: string
  dq_htu :: string
  dq_htm :: string
  dq_now :: u64
  dq_skew :: u64
  dq_ath :: "string option"
  dq_inst :: nat

definition dpop_step :: "('c, nat) lru_ops \<Rightarrow> 'k oidc_env \<Rightarrow> dpop_request \<Rightarrow> 'c DpopReplayCache option \<times> ReplayRejectedCounter
    \<Rightarrow> ('c DpopReplayCache option \<times> ReplayRejectedCounter) \<times> (PodError + DpopVerified)" where
  "dpop_step L env q = verify_dpop_proof_with_ath L env (dq_proof q) (dq_htu q) (dq_htm q) (dq_now q) (dq_skew q) (dq_ath q) (dq_inst q)"

fun dpop_run :: "('c, nat) lru_ops \<Rightarrow> 'k oidc_env \<Rightarrow> 'c DpopReplayCache option \<times> ReplayRejectedCounter \<Rightarrow> dpop_request list
    \<Rightarrow> (PodError + DpopVerified) list" where
  "dpop_run L env st [] = []"
| "dpop_run L env st (q # qs) = (let (st1, r) = dpop_step L env q st in r # dpop_run L env st1 qs)"

definition core_jti :: "'k oidc_env \<Rightarrow> dpop_request \<Rightarrow> string option" where
  "core_jti env q = (case verify_dpop_proof_core env (dq_proof q) (dq_htu q) (dq_htm q) (dq_now q) (dq_skew q) (dq_ath q) of
     Inr v \<Rightarrow> Some (dv_jti v) | Inl _ \<Rightarrow> None)"

definition core_jtis :: "'k oidc_env \<Rightarrow> dpop_request list \<Rightarrow> string set" where
  "core_jtis env qs = set (List.map_filter (core_jti env) qs)"

lemma core_jtis_simps [simp]:
  "core_jtis env [] = {}"
  "core_jtis env (q # qs) = (case core_jti env q of None \<Rightarrow> {} | Some j \<Rightarrow> {j}) \<union> core_jtis env qs"
  by (auto simp: core_jtis_def List.map_filter_simps split: option.splits)

context replay_cache
begin

lemma dpop_step_cache:
  assumes "fits (dr_entries c) K" "\<forall>j. core_jti env q = Some j \<longrightarrow> j \<in> K"
  obtains c1 k1 r where "dpop_step L env q (Some c, k) = ((Some c1, k1), r)" "fits (dr_entries c1) K" "dr_ttl c1 = dr_ttl c"
    "\<forall>v. r = Inr v \<longrightarrow> lru_peek L (dr_entries c1) = (lru_peek L (dr_entries c))(dv_jti v \<mapsto> dq_inst q) \<and>
       (\<forall>t. lru_peek L (dr_entries c) (dv_jti v) = Some t \<longrightarrow> dr_ttl c \<le> dq_inst q - t)"
    "\<forall>e. r = Inl e \<longrightarrow> c1 = c"
proof (cases "verify_dpop_proof_core env (dq_proof q) (dq_htu q) (dq_htm q) (dq_now q) (dq_skew q) (dq_ath q)")
  case (Inl e)
  then show ?thesis using that [of c k "Inl e"] assms(1) by (simp add: dpop_step_def verify_dpop_proof_with_ath_def)
next
  case (Inr v)
  then have K: "dv_jti v \<in> K" using assms(2) by (simp add: core_jti_def)
  obtain c1 r where cr: "check_and_record L c (dv_jti v) (dq_inst q) = (c1, r)" by force
  show ?thesis
  proof (cases r)
    case e: (Inl e)
    then have "c1 = c" using cr by (auto simp: check_and_record_def split: option.splits if_splits)
    then show ?thesis
      using that [of c "counter_increment k" "Inl (Nip98 ''DPoP jti replay detected: '')"] assms(1) Inr cr e
      by (cases e) (simp add: dpop_step_def verify_dpop_proof_with_ath_def)
  next
    case ok: (Inr u)
    have "dr_entries c1 = lru_put L (dr_entries c) (dv_jti v) (dq_inst q)" "dr_ttl c1 = dr_ttl c"
      "\<forall>t. lru_peek L (dr_entries c) (dv_jti v) = Some t \<longrightarrow> dr_ttl c \<le> dq_inst q - t"
      using cr ok by (auto simp: check_and_record_def split: option.splits if_splits)
    then show ?thesis
      using that [of c1 k "Inr v"] put_fits [OF assms(1) K] Inr cr ok
      by (simp add: dpop_step_def verify_dpop_proof_with_ath_def)
  qed
qed

lemma dpop_after_accept:
  assumes "fits (dr_entries c) K" "core_jtis env qs \<subseteq> K" "lru_peek L (dr_entries c) x = Some t"
    and "j < length qs" "dpop_run L env (Some c, k) qs ! j = Inr v" "dv_jti v = x"
  shows "dr_ttl c \<le> dq_inst (qs ! j) - t"
  using assms
proof (induction qs arbitrary: c k t j)
  case (Cons q qs)
  have K: "\<forall>j. core_jti env q = Some j \<longrightarrow> j \<in> K" using Cons.prems(2) by auto
  obtain c1 k1 r where st: "dpop_step L env q (Some c, k) = ((Some c1, k1), r)" "fits (dr_entries c1) K" "dr_ttl c1 = dr_ttl c"
    and acc: "\<forall>v. r = Inr v \<longrightarrow> lru_peek L (dr_entries c1) = (lru_peek L (dr_entries c))(dv_jti v \<mapsto> dq_inst q) \<and>
       (\<forall>t. lru_peek L (dr_entries c) (dv_jti v) = Some t \<longrightarrow> dr_ttl c \<le> dq_inst q - t)"
    and rej: "\<forall>e. r = Inl e \<longrightarrow> c1 = c"
    by (rule dpop_step_cache [OF Cons.prems(1) K, of k])
  show ?case
  proof (cases j)
    case 0
    then show ?thesis using acc [rule_format, of v] Cons.prems(3,5,6) st(1) by simp
  next
    case (Suc i)
    have ih: "dr_ttl c \<le> dq_inst (qs ! i) - t'" if "lru_peek L (dr_entries c1) x = Some t'" for t'
      using Cons.IH [OF st(2) _ that, of i k1] Cons.prems(2,4-6) Suc st(1,3) by simp
    show ?thesis
    proof (cases r)
      case (Inl e)
      then show ?thesis using ih [of t] rej Cons.prems(3) Suc by simp
    next
      case (Inr w)
      show ?thesis
      proof (cases "dv_jti w = x")
        case True
        then have "dr_ttl c \<le> dq_inst (qs ! i) - dq_inst q" "dr_ttl c \<le> dq_inst q - t"
          using ih [of "dq_inst q"] acc [rule_format, OF Inr] Cons.prems(3) by simp_all
        then show ?thesis using Suc by simp
      qed (use ih [of t] acc [rule_format, OF Inr] Cons.prems(3) Suc in simp)
    qed
  qed
qed simp

lemma dpop_spaced:
  assumes "fits (dr_entries c) K" "core_jtis env qs \<subseteq> K" "i < j" "j < length qs"
    and "dpop_run L env (Some c, k) qs ! i = Inr v" "dpop_run L env (Some c, k) qs ! j = Inr w" "dv_jti v = dv_jti w"
  shows "dr_ttl c \<le> dq_inst (qs ! j) - dq_inst (qs ! i)"
  using assms
proof (induction qs arbitrary: c k i j)
  case (Cons q qs)
  have K: "\<forall>j. core_jti env q = Some j \<longrightarrow> j \<in> K" using Cons.prems(2) by auto
  obtain c1 k1 r where st: "dpop_step L env q (Some c, k) = ((Some c1, k1), r)" "fits (dr_entries c1) K" "dr_ttl c1 = dr_ttl c"
    and acc: "\<forall>v. r = Inr v \<longrightarrow> lru_peek L (dr_entries c1) = (lru_peek L (dr_entries c))(dv_jti v \<mapsto> dq_inst q) \<and>
       (\<forall>t. lru_peek L (dr_entries c) (dv_jti v) = Some t \<longrightarrow> dr_ttl c \<le> dq_inst q - t)"
    and "\<forall>e. r = Inl e \<longrightarrow> c1 = c"
    by (rule dpop_step_cache [OF Cons.prems(1) K, of k])
  obtain n where j: "j = Suc n" using Cons.prems(3) by (cases j) auto
  show ?case
  proof (cases i)
    case 0
    then have "lru_peek L (dr_entries c1) (dv_jti w) = Some (dq_inst q)" using acc [rule_format, of v] Cons.prems(5,7) st(1) by simp
    then show ?thesis
      using dpop_after_accept [OF st(2), of env qs "dv_jti w" "dq_inst q" n k1 w] Cons.prems j 0 st by simp
  next
    case (Suc m)
    then show ?thesis using Cons.IH [OF st(2), of m n k1] Cons.prems j st by simp
  qed
qed simp

end

section \<open>An instance\<close>

text \<open>An environment with one proof and one token, for evaluation.\<close>

definition sample_oidc :: "string oidc_env" where
  "sample_oidc =
     \<lparr>oe_decode_header = (\<lambda>s. if s = ''proof'' then Some \<lparr>jh_typ = Some ''dpop+jwt'', jh_alg = ES256, jh_kid = None, jh_jwk = Some JNull\<rparr>
        else if s = ''tok'' then Some \<lparr>jh_typ = None, jh_alg = ES256, jh_kid = Some ''k1'', jh_jwk = None\<rparr> else None),
      oe_jwk_of = (\<lambda>_. Some \<lparr>jk_kty = ''EC'', jk_alg = None, jk_kid = None, jk_use = None, jk_crv = Some ''P-256'',
        jk_x = Some ''x'', jk_y = Some ''y'', jk_n = None, jk_e = None, jk_k = None\<rparr>),
      oe_decoding_key = (\<lambda>_. Some ''key''), oe_from_secret = id,
      oe_decode_dpop = (\<lambda>p k a. if p = ''proof'' then
        Some \<lparr>dc_htu = ''https://h/r/'', dc_htm = ''get'', dc_iat = 100, dc_jti = ''j1'', dc_ath = None\<rparr> else None),
      oe_decode_token = (\<lambda>t k a iss. if t = ''tok'' then
        Some \<lparr>sc_iss = iss, sc_sub = ''s'', sc_aud = JNull, sc_exp = 200, sc_iat = 90, sc_webid = Some ''https://me/'', sc_client_id = None,
          sc_cnf = Some \<lparr>cnf_jkt = ''JKT''\<rparr>, sc_scope = None\<rparr> else None),
      oe_to_vec = (\<lambda>_. []), oe_sha256 = id, oe_base64_url = (\<lambda>_. ''JKT'')\<rparr>"

definition sample_dpop :: "nat \<Rightarrow> dpop_request" where
  "sample_dpop t = \<lparr>dq_proof = ''proof'', dq_htu = ''https://H/r'', dq_htm = ''GET'', dq_now = 110, dq_skew = 60, dq_ath = None, dq_inst = t\<rparr>"

definition sample_verified :: DpopVerified where
  "sample_verified = \<lparr>dv_jkt = ''JKT'', dv_htm = ''get'', dv_htu = ''https://h/r/'', dv_iat = 100, dv_jti = ''j1'', dv_ath = None\<rparr>"

lemma sample_core: "verify_dpop_proof_core sample_oidc ''proof'' ''https://H/r'' ''GET'' 110 60 None = Inr sample_verified"
  by code_simp

lemma sample_accepted:
  "snd (verify_dpop_proof_with_ath recency_ops sample_oidc ''proof'' ''https://H/r'' ''GET'' 110 60 None 0 (None, counter_new)) = Inr sample_verified"
  by (simp add: verify_dpop_proof_with_ath_def sample_core)

section \<open>Properties\<close>

text \<open>C11: A DPoP proof that is accepted is bound to the request. If decoding a JWT checks its signature,
  then the proof is signed, under a permitted algorithm, with the key embedded in it; the reported
  thumbprint is the one of that key; and the claims name the method and the URL of the request, were
  issued within the tolerance on either side of now, computed without wrap-around, and carry the hash
  of the access token when the caller demands one.\<close>

theorem dpop_binds_request:
  assumes "\<forall>p k a c. oe_decode_dpop env p k a = Some c \<longrightarrow> authentic p k a c"
    and "snd (verify_dpop_proof_with_ath L env p htu htm now skew ath inst st) = Inr v"
  shows "\<exists>h jv jwk key c. oe_decode_header env p = Some h \<and> jh_jwk h = Some jv \<and> oe_jwk_of env jv = Some jwk \<and>
    oe_decoding_key env jv = Some key \<and> authentic p key (jh_alg h) c \<and>
    (asymmetric (jh_alg h) \<or> jh_alg h = HS256 \<and> jk_kty jwk = ''oct'') \<and> thumbprint env jwk = Inr (dv_jkt v) \<and>
    to_uppercase (dc_htm c) = to_uppercase htm \<and> normalise_htu (dc_htu c) = normalise_htu htu \<and>
    unat now \<le> unat (dc_iat c) + unat skew \<and> unat (dc_iat c) \<le> unat now + unat skew \<and>
    (ath = None \<or> dc_ath c = ath) \<and> dv_jti v = dc_jti c"
proof -
  have "verify_dpop_proof_core env p htu htm now skew ath = Inr v" using assms(2) by (rule with_ath_ok)
  then obtain h jv jwk key c where c: "oe_decode_header env p = Some h" "jh_jwk h = Some jv"
    "oe_jwk_of env jv = Some jwk" "thumbprint env jwk = Inr (dv_jkt v)" "dpop_alg_ok (jh_alg h) jwk"
    "oe_decoding_key env jv = Some key" "oe_decode_dpop env p key (jh_alg h) = Some c"
    "check_dpop_claims htu htm now skew ath c = Inr ()" "dv_jti v = dc_jti c"
    by (rule core_ok) (metis DpopVerified.select_convs(5))
  have "authentic p key (jh_alg h) c" using c(7) assms(1) by blast
  then show ?thesis using c unfolding check_dpop_claims_ok dpop_alg_ok_def by blast
qed

theorem dpop_binds_request_witness:
  "\<exists>h jv jwk key c. oe_decode_header sample_oidc ''proof'' = Some h \<and> jh_jwk h = Some jv \<and> oe_jwk_of sample_oidc jv = Some jwk \<and>
    oe_decoding_key sample_oidc jv = Some key \<and> thumbprint sample_oidc jwk = Inr ''JKT'' \<and>
    to_uppercase (dc_htm (c :: DpopClaims)) = to_uppercase ''GET'' \<and> normalise_htu (dc_htu c) = normalise_htu ''https://H/r''"
proof -
  have jkt: "dv_jkt sample_verified = ''JKT''" by (simp add: sample_verified_def)
  have "\<forall>p k a c. oe_decode_dpop sample_oidc p k a = Some c \<longrightarrow> p = ''proof''"
    by (simp add: sample_oidc_def split: if_splits)
  from dpop_binds_request [where authentic = "\<lambda>p k a c. p = ''proof''", OF this sample_accepted]
  show ?thesis unfolding jkt by blast
qed

text \<open>C12: A token is only as good as the proof it comes with. When a proof is accepted and a token then
  verifies against its thumbprint and a set of public keys, the token was decoded, for the expected
  issuer, with a key of that set under RS256, ES256 or EdDSA, never under a shared secret; it has not
  expired; it is bound to the thumbprint of the key that signed the proof; and the WebID it yields is an
  http or https URL from its own claims.\<close>

theorem token_bound_to_proof:
  assumes "snd (verify_dpop_proof_with_ath L env p htu htm now skew ath inst st) = Inr v"
    and "verify_access_token env tok (Asymmetric ks) iss (dv_jkt v) now = Inr a"
  shows "\<exists>h jwk th sk key c cnf. oe_decode_header env p = Some h \<and> Option.bind (jh_jwk h) (oe_jwk_of env) = Some jwk \<and>
    oe_decode_header env tok = Some th \<and> jh_alg th \<in> {RS256, ES256, EdDSA} \<and> sk \<in> set ks \<and>
    (\<forall>kid. jh_kid th = Some kid \<longrightarrow> sk_kid sk = Some kid) \<and> oe_decoding_key env (sk_jwk sk) = Some key \<and>
    oe_decode_token env tok key (jh_alg th) iss = Some c \<and> now \<le> sc_exp c \<and> sc_cnf c = Some cnf \<and>
    thumbprint env jwk = Inr (cnf_jkt cnf) \<and> http_url (av_webid a) \<and> (sc_webid c = Some (av_webid a) \<or> sc_sub c = av_webid a)"
proof -
  have "verify_dpop_proof_core env p htu htm now skew ath = Inr v" using assms(1) by (rule with_ath_ok)
  then obtain h jv jwk where p: "oe_decode_header env p = Some h" "jh_jwk h = Some jv" "oe_jwk_of env jv = Some jwk"
    "thumbprint env jwk = Inr (dv_jkt v)" by (rule core_ok) blast
  obtain th key c cnf where t: "oe_decode_header env tok = Some th" "token_key env th (Asymmetric ks) = Inr key"
    "oe_decode_token env tok key (jh_alg th) iss = Some c" "now \<le> sc_exp c" "sc_cnf c = Some cnf" "cnf_jkt cnf = dv_jkt v"
    "extract_webid c = Inr (av_webid a)" by (rule token_ok [OF assms(2)])
  have alg: "jh_alg th \<in> {RS256, ES256, EdDSA}" using t(2) by (auto simp: token_key_def split: if_splits)
  then obtain sk where sk: "select_jwk th ks = Inr sk" "oe_decoding_key env (sk_jwk sk) = Some key"
    using t(2) by (auto simp: token_key_def rbind_Inr_conv ok_or_def split: if_splits option.splits)
  have "sk \<in> set ks \<and> (\<forall>kid. jh_kid th = Some kid \<longrightarrow> sk_kid sk = Some kid)"
    using sk(1) by (auto simp: select_jwk_def ok_or_def find_Some_iff split: option.splits)
  then show ?thesis using p t alg sk(2) extract_webid_http [OF t(7)] by (auto simp del: insert_iff)
qed

theorem token_bound_to_proof_witness:
  "\<exists>a th c. verify_access_token sample_oidc ''tok'' (Asymmetric [\<lparr>sk_kid = Some ''k1'', sk_alg = None, sk_jwk = JNull\<rparr>]) ''https://op'' ''JKT'' 110 = Inr a \<and>
    oe_decode_header sample_oidc ''tok'' = Some th \<and> jh_alg th \<in> {RS256, ES256, EdDSA} \<and>
    oe_decode_token sample_oidc ''tok'' ''key'' (jh_alg th) ''https://op'' = Some c \<and> 110 \<le> sc_exp c \<and> http_url (av_webid a)"
proof -
  let ?ks = "[\<lparr>sk_kid = Some ''k1'', sk_alg = None, sk_jwk = JNull\<rparr>]"
  have "is_ok (verify_access_token sample_oidc ''tok'' (Asymmetric ?ks) ''https://op'' ''JKT'' 110)" by code_simp
  then obtain a where a: "verify_access_token sample_oidc ''tok'' (Asymmetric ?ks) ''https://op'' ''JKT'' 110 = Inr a"
    by (cases "verify_access_token sample_oidc ''tok'' (Asymmetric ?ks) ''https://op'' ''JKT'' 110") auto
  have jkt: "dv_jkt sample_verified = ''JKT''" by (simp add: sample_verified_def)
  have key: "oe_decoding_key sample_oidc j = Some k \<longleftrightarrow> k = ''key''" for j k by (auto simp: sample_oidc_def)
  show ?thesis
    using token_bound_to_proof [OF sample_accepted, unfolded jkt, OF a] a unfolding key by blast
qed

text \<open>C13: A proof is accepted once. In any run of the verifier with an empty replay cache, over no more
  identifiers of valid proofs than its capacity and whatever other requests come in between, two
  accepted proofs with the same identifier are at least the time to live apart.\<close>

theorem dpop_proof_accepted_once:
  assumes "replay_cache L invar" "card (core_jtis env qs) \<le> max n 1" "i < j" "j < length qs"
    and "dpop_run L env (Some (with_config L ttl n), k) qs ! i = Inr v"
    and "dpop_run L env (Some (with_config L ttl n), k) qs ! j = Inr w" "dv_jti v = dv_jti w"
  shows "ttl \<le> dq_inst (qs ! j) - dq_inst (qs ! i)"
proof -
  have "finite (core_jtis env qs)" by (simp add: core_jtis_def)
  then have "lru_cache.fits L invar (dr_entries (with_config L ttl n)) (core_jtis env qs)"
    using lru_cache.new_fits [of L invar] assms(1,2) by (simp add: replay_cache_def with_config_def)
  then show ?thesis
    using replay_cache.dpop_spaced [OF assms(1) _ subset_refl assms(3-7)] by (simp add: with_config_def)
qed

theorem dpop_proof_accepted_once_witness:
  "dpop_run recency_ops sample_oidc (Some (with_config recency_ops 10 4), counter_new) [sample_dpop 0, sample_dpop 5, sample_dpop 12] =
     [Inr sample_verified, Inl (Nip98 ''DPoP jti replay detected: ''), Inr sample_verified] \<and> (10 :: nat) \<le> 12 - 0"
proof -
  let ?qs = "[sample_dpop 0, sample_dpop 5, sample_dpop 12]"
  have r: "dpop_run recency_ops sample_oidc (Some (with_config recency_ops 10 4), counter_new) ?qs =
     [Inr sample_verified, Inl (Nip98 ''DPoP jti replay detected: ''), Inr sample_verified]" by code_simp
  have "core_jti sample_oidc (sample_dpop t) = Some ''j1''" for t
    by (simp add: core_jti_def sample_dpop_def sample_core) (simp add: sample_verified_def)
  then have "core_jtis sample_oidc ?qs = {''j1''}" by simp
  then have "card (core_jtis sample_oidc ?qs) \<le> max 4 1" by simp
  from dpop_proof_accepted_once [OF replay.replay_cache_axioms this, of 0 2 10 counter_new sample_verified sample_verified] r
  show ?thesis by (simp add: sample_dpop_def)
qed

end
