(* ===== verification/Multitenant.thy ===== *)
theory Multitenant
  imports Prelude
begin

text \<open>
  Pod resolution from the request host (\<open>multitenant.rs\<close>): the trait \<open>PodResolver\<close> as an interface, the
  path-based and the subdomain resolver as its providers, and the helpers that strip the port,
  recognise file-like labels and scrub dot-dot sequences. The scrubbing loop ends because a replacement
  that changes the string shortens it.
\<close>

section \<open>Model\<close>

record ResolvedPath =
  rp_pod :: "string option"
  rp_storage_path :: string

definition PathResolver_resolve :: "string \<Rightarrow> string \<Rightarrow> ResolvedPath" where
  "PathResolver_resolve host url_path = \<lparr>rp_pod = None, rp_storage_path = url_path\<rparr>"

definition FILE_EXTENSIONS :: "string list" where
  "FILE_EXTENSIONS = [''.ttl'', ''.html'', ''.ico'', ''.svg'', ''.json'', ''.jsonld'', ''.png'', ''.jpg'', ''.jpeg'',
     ''.gif'', ''.css'', ''.js'', ''.woff'', ''.woff2'', ''.txt'']"

definition is_file_like_label :: "string \<Rightarrow> bool" where
  "is_file_like_label label =
     (let lower = to_ascii_lowercase label in
      if CHR ''.'' \<notin> set lower then False
      else list_ex (\<lambda>ext. ends_with ext lower) FILE_EXTENSIONS)"

definition strip_port :: "string \<Rightarrow> string" where
  "strip_port host = (case rfind_char (CHR '':'') host of Some i \<Rightarrow> take i host | None \<Rightarrow> host)"

lemma replace_fuel_shrinks:
  "length s \<le> n \<Longrightarrow> p \<noteq> [] \<Longrightarrow> length (replace_fuel n p [] s) \<le> length s \<and>
     (length (replace_fuel n p [] s) = length s \<longrightarrow> replace_fuel n p [] s = s)"
proof (induction n p "[] :: string" s rule: replace_fuel.induct)
  case (2 n p s)
  show ?case
  proof (cases s)
    case (Cons c cs)
    show ?thesis
    proof (cases "starts_with p s")
      case True
      have pos: "0 < length p" "0 < length s" using 2(4) Cons by simp_all
      then have "length (drop (length p) s) \<le> n" using 2(3) unfolding length_drop by linarith
      then have "length (replace_fuel n p [] (drop (length p) s)) \<le> length s - length p"
        using 2(1) [OF Cons True] 2(4) by simp
      moreover note pos
      ultimately have "length (replace_fuel n p [] (drop (length p) s)) < length s" by linarith
      then show ?thesis using Cons True by (simp del: starts_with_simps)
    next
      case False
      then show ?thesis using 2(2) [OF Cons False] 2(3,4) Cons by (auto simp del: starts_with_simps)
    qed
  qed simp
qed simp

lemma str_replace_shrinks:
  "p \<noteq> [] \<Longrightarrow> str_replace p [] s \<noteq> s \<Longrightarrow> length (str_replace p [] s) < length s"
  using replace_fuel_shrinks [of s "length s" p] by (auto simp: str_replace_def le_less)

function scrub_dotdot :: "string \<Rightarrow> string" where
  "scrub_dotdot cur = (let next_s = str_replace ''..'' [] cur in if next_s = cur then next_s else scrub_dotdot next_s)"
  by pat_completeness auto
termination
  by (relation "measure length") (auto intro: str_replace_shrinks)

declare scrub_dotdot.simps [simp del]

record SubdomainResolver =
  base_domain :: string

definition SubdomainResolver_resolve :: "SubdomainResolver \<Rightarrow> string \<Rightarrow> string \<Rightarrow> ResolvedPath" where
  "SubdomainResolver_resolve self host url_path =
     (let host_no_port = strip_port host;
          base = to_ascii_lowercase (trim (base_domain self));
          host_lc = to_ascii_lowercase host_no_port;
          root = \<lparr>rp_pod = None, rp_storage_path = url_path\<rparr> in
      if host_lc = base then root
      else case strip_suffix (''.'' @ base) host_lc of
        Some stripped \<Rightarrow>
          if is_file_like_label stripped then root
          else (let safe = scrub_dotdot stripped in
            if safe \<noteq> [] \<and> CHR ''.'' \<notin> set safe \<and> CHR ''/'' \<notin> set safe \<and> \<not> contains_sub ''..'' safe
            then \<lparr>rp_pod = Some safe, rp_storage_path = url_path\<rparr> else root)
      | None \<Rightarrow> root)"

section \<open>Scrubbing\<close>

lemma replace_fuel_found:
  "length s \<le> n \<Longrightarrow> p \<noteq> [] \<Longrightarrow> contains_sub p s \<Longrightarrow> length (replace_fuel n p [] s) < length s"
proof (induction n p "[] :: string" s rule: replace_fuel.induct)
  case (1 p s)
  then show ?case by (auto simp: contains_sub_iff)
next
  case (2 n p s)
  show ?case
  proof (cases s)
    case Nil
    then show ?thesis using 2(4,5) by (auto simp: contains_sub_iff)
  next
    case (Cons c cs)
    have p: "0 < length p" using 2(4) by simp
    show ?thesis
    proof (cases "starts_with p s")
      case True
      have "length (drop (length p) s) \<le> n" using 2(3) p unfolding length_drop by linarith
      then have "length (replace_fuel n p [] (drop (length p) s)) \<le> length s - length p"
        using replace_fuel_shrinks [of "drop (length p) s" n p] 2(4) by simp
      moreover have "0 < length s" using Cons by simp
      ultimately have "length (replace_fuel n p [] (drop (length p) s)) < length s" using p by linarith
      then show ?thesis using Cons True by (simp del: starts_with_simps)
    next
      case False
      obtain a b where s: "s = a @ p @ b" using 2(5) by (auto simp: contains_sub_iff)
      have "a \<noteq> []" using False s by auto
      then have "contains_sub p cs" using s Cons by (auto simp: contains_sub_iff Cons_eq_append_conv)
      then show ?thesis using 2(2) [OF Cons False] 2(3,4) Cons False by (auto simp del: starts_with_simps)
    qed
  qed
qed

lemma str_replace_unchanged_iff: "p \<noteq> [] \<Longrightarrow> str_replace p [] s = s \<longleftrightarrow> \<not> contains_sub p s"
proof
  assume p: "p \<noteq> []"
  show "str_replace p [] s = s \<Longrightarrow> \<not> contains_sub p s"
    using replace_fuel_found [of s "length s" p] p by (auto simp: str_replace_def)
  have "replace_fuel n p [] s = s" if "\<not> contains_sub p s" for n s
    using that
  proof (induction n arbitrary: s)
    case (Suc n)
    have "\<not> starts_with p s" using Suc.prems by (force simp: contains_sub_iff starts_with_iff)
    moreover have "\<not> contains_sub p cs" if "s = c # cs" for c cs
      using Suc.prems that by (auto simp: contains_sub_iff) (metis append_Cons)
    ultimately show ?case using Suc.IH by (auto split: list.splits simp del: starts_with_simps)
  qed simp
  then show "\<not> contains_sub p s \<Longrightarrow> str_replace p [] s = s" by (simp add: str_replace_def)
qed

lemma scrub_dotdot_clean: "\<not> contains_sub ''..'' (scrub_dotdot s)"
proof (induction s rule: scrub_dotdot.induct)
  case (1 cur)
  show ?case
  proof (cases "str_replace ''..'' [] cur = cur")
    case True
    then have "scrub_dotdot cur = cur" by (simp add: scrub_dotdot.simps [of cur])
    moreover have "\<not> contains_sub ''..'' cur" using True by (simp add: str_replace_unchanged_iff)
    ultimately show ?thesis by simp
  next
    case False
    then show ?thesis using 1 by (simp add: scrub_dotdot.simps [of cur])
  qed
qed

lemma scrub_dotdot_id: "\<not> contains_sub ''..'' s \<Longrightarrow> scrub_dotdot s = s"
  by (simp add: scrub_dotdot.simps [of s] str_replace_unchanged_iff)

section \<open>The resolver interface\<close>

text \<open>A pod label is a single path segment: not empty, no dot, no slash.\<close>

definition safe_label :: "string \<Rightarrow> bool" where
  "safe_label l \<longleftrightarrow> l \<noteq> [] \<and> CHR ''.'' \<notin> set l \<and> CHR ''/'' \<notin> set l"

text \<open>
  What a caller relies on: the storage path is the URL path, and the pod, when there is one, is a
  safe label, so that joining it to a directory stays one level below that directory.
\<close>

locale pod_resolver =
  fixes resolve :: "string \<Rightarrow> string \<Rightarrow> ResolvedPath"
  assumes verbatim: "rp_storage_path (resolve host path) = path"
    and label: "rp_pod (resolve host path) = Some l \<Longrightarrow> safe_label l"
begin

text \<open>The directory of a tenant, as \<open>root.join(pod)\<close> builds it.\<close>

definition tenant_dir :: "string \<Rightarrow> string \<Rightarrow> string \<Rightarrow> string option" where
  "tenant_dir root host path = map_option (\<lambda>l. root @ ''/'' @ l) (rp_pod (resolve host path))"

lemma tenant_dir_below:
  assumes "tenant_dir root host path = Some d"
  shows "\<exists>l. d = root @ ''/'' @ l \<and> safe_label l \<and> \<not> contains_sub ''..'' l"
proof -
  obtain l where l: "rp_pod (resolve host path) = Some l" "d = root @ ''/'' @ l"
    using assms by (auto simp: tenant_dir_def)
  then have "safe_label l" by (intro label)
  then show ?thesis using l(2) by (auto simp: safe_label_def contains_sub_iff)
qed

lemma tenants_separate:
  assumes "tenant_dir root h p = Some d" "tenant_dir root h' p' = Some d'"
    and "rp_pod (resolve h p) \<noteq> rp_pod (resolve h' p')"
  shows "d \<noteq> d' \<and> \<not> starts_with (d @ ''/'') d'"
proof -
  obtain l l' where l: "rp_pod (resolve h p) = Some l" "d = root @ ''/'' @ l"
    "rp_pod (resolve h' p') = Some l'" "d' = root @ ''/'' @ l'"
    using assms(1,2) by (auto simp: tenant_dir_def)
  then show ?thesis using label [OF l(3)] assms(3) by (auto simp: starts_with_iff safe_label_def)
qed

end

interpretation by_path: pod_resolver PathResolver_resolve
  by unfold_locales (simp_all add: PathResolver_resolve_def)

interpretation by_subdomain: pod_resolver "SubdomainResolver_resolve self"
  by unfold_locales
     (auto simp: SubdomainResolver_resolve_def safe_label_def Let_def split: option.splits if_splits)

section \<open>Properties\<close>

lemma ascii_lower_eq:
  assumes "(of_char d :: nat) < 97"
  shows "ascii_lower c = d \<longleftrightarrow> c = d \<and> \<not> (65 \<le> (of_char d :: nat) \<and> (of_char d :: nat) \<le> 90)"
proof -
  have "(of_char c :: nat) + 32 = of_char d"
    if "(char_of ((of_char c :: nat) + 32) :: char) = d" "(of_char c :: nat) \<le> 90"
  proof -
    have "(of_char (char_of ((of_char c :: nat) + 32) :: char) :: nat) = ((of_char c :: nat) + 32) mod 256"
      by (rule of_char_of)
    then show ?thesis using that by simp
  qed
  then show ?thesis using assms by (auto simp: ascii_lower_def Let_def)
qed

lemma lower_keeps [simp]:
  "CHR ''.'' \<in> set (to_ascii_lowercase s) \<longleftrightarrow> CHR ''.'' \<in> set s"
  "CHR ''/'' \<in> set (to_ascii_lowercase s) \<longleftrightarrow> CHR ''/'' \<in> set s"
  by (auto simp: to_ascii_lowercase_def image_iff ascii_lower_eq eq_commute [of "CHR ''.''"] eq_commute [of "CHR ''/''"])

lemma to_ascii_lowercase_append: "to_ascii_lowercase (a @ b) = to_ascii_lowercase a @ to_ascii_lowercase b"
  by (simp add: to_ascii_lowercase_def)

lemma strip_port_authority: "CHR '':'' \<notin> set port \<Longrightarrow> strip_port (host @ '':'' @ port) = host"
  by (simp add: strip_port_def rfind_char_split)

lemma strip_port_absent: "CHR '':'' \<notin> set host \<Longrightarrow> strip_port host = host"
proof -
  assume "CHR '':'' \<notin> set host"
  then have "find_char ((=) (CHR '':'')) (rev host) = None" by (auto simp: find_char_None_iff)
  then show ?thesis by (simp add: strip_port_def rfind_char_def)
qed

lemma no_dot_clean: "CHR ''.'' \<notin> set l \<Longrightarrow> \<not> contains_sub ''..'' l"
  by (auto simp: contains_sub_iff)

lemma subdomain_label:
  assumes "safe_label l" "strip_port host = l @ ''.'' @ trim (base_domain self)"
  shows "SubdomainResolver_resolve self host path = \<lparr>rp_pod = Some (to_ascii_lowercase l), rp_storage_path = path\<rparr>"
proof -
  let ?l = "to_ascii_lowercase l" and ?base = "to_ascii_lowercase (trim (base_domain self))"
  have host: "to_ascii_lowercase (strip_port host) = ?l @ ''.'' @ ?base"
    using assms(2) ascii_lower_eq [of "CHR ''.''" "CHR ''.''"] by (simp add: to_ascii_lowercase_def)
  have l: "?l \<noteq> []" "CHR ''.'' \<notin> set ?l" "CHR ''/'' \<notin> set ?l"
    using assms(1) by (simp_all add: safe_label_def) (simp add: to_ascii_lowercase_def)
  have "\<not> is_file_like_label ?l" using l(2) by (simp add: is_file_like_label_def Let_def)
  moreover have "scrub_dotdot ?l = ?l" "\<not> contains_sub ''..'' ?l"
    using l(2) by (simp_all add: scrub_dotdot_id no_dot_clean)
  moreover have "strip_suffix (''.'' @ ?base) (?l @ ''.'' @ ?base) = Some ?l" by (simp add: strip_suffix_Some_iff)
  moreover have "?l @ ''.'' @ ?base \<noteq> ?base" by (rule notI, drule arg_cong [of _ _ length]) simp
  ultimately show ?thesis
    using l by (simp add: SubdomainResolver_resolve_def Let_def host del: append_Cons)
qed

lemma strip_port_name:
  assumes "CHR '':'' \<notin> set name" "host = name \<or> (\<exists>port. CHR '':'' \<notin> set port \<and> host = name @ '':'' @ port)"
  shows "strip_port host = name"
  using assms strip_port_absent strip_port_authority by auto

text \<open>C40: Tenancy by subdomain. Whatever the host header, the storage path is the URL path and a pod, when
  one is derived, is a single safe path segment. For a base domain that names no port, a host made of a
  safe label and the base domain, with or without a port of its own, is served from the pod of that
  label in lower case, so that two such hosts share a pod exactly when their labels agree up to ASCII
  case; the bare base domain, with or without a port, has no pod.\<close>

theorem subdomain_tenancy:
  "rp_storage_path (SubdomainResolver_resolve self host path) = path \<and>
   (rp_pod (SubdomainResolver_resolve self host path) = Some p \<longrightarrow> safe_label p \<and> scrub_dotdot p = p) \<and>
   (CHR '':'' \<notin> set (trim (base_domain self)) \<and> CHR '':'' \<notin> set port \<and> CHR '':'' \<notin> set l \<and> safe_label l \<and>
     h \<in> {l @ ''.'' @ trim (base_domain self), l @ ''.'' @ trim (base_domain self) @ '':'' @ port} \<longrightarrow>
     rp_pod (SubdomainResolver_resolve self h path) = Some (to_ascii_lowercase l)) \<and>
   (CHR '':'' \<notin> set (trim (base_domain self)) \<and> CHR '':'' \<notin> set port \<and>
     h \<in> {trim (base_domain self), trim (base_domain self) @ '':'' @ port} \<longrightarrow>
     rp_pod (SubdomainResolver_resolve self h path) = None)"
proof (intro conjI impI)
  show "rp_storage_path (SubdomainResolver_resolve self host path) = path" by (rule by_subdomain.verbatim)
  show p: "safe_label p" if "rp_pod (SubdomainResolver_resolve self host path) = Some p"
    using that by (rule by_subdomain.label)
  show "scrub_dotdot p = p" if "rp_pod (SubdomainResolver_resolve self host path) = Some p"
    using p [OF that] by (simp add: safe_label_def scrub_dotdot_id no_dot_clean)
next
  assume l: "CHR '':'' \<notin> set (trim (base_domain self)) \<and> CHR '':'' \<notin> set port \<and> CHR '':'' \<notin> set l \<and> safe_label l \<and>
     h \<in> {l @ ''.'' @ trim (base_domain self), l @ ''.'' @ trim (base_domain self) @ '':'' @ port}"
  then have "strip_port h = l @ ''.'' @ trim (base_domain self)" by (intro strip_port_name) auto
  then show "rp_pod (SubdomainResolver_resolve self h path) = Some (to_ascii_lowercase l)"
    using subdomain_label [of l h self path] l by simp
next
  assume h: "CHR '':'' \<notin> set (trim (base_domain self)) \<and> CHR '':'' \<notin> set port \<and>
     h \<in> {trim (base_domain self), trim (base_domain self) @ '':'' @ port}"
  then have "strip_port h = trim (base_domain self)" by (intro strip_port_name) auto
  then show "rp_pod (SubdomainResolver_resolve self h path) = None" by (simp add: SubdomainResolver_resolve_def Let_def)
qed

theorem subdomain_tenancy_witness:
  "rp_pod (SubdomainResolver_resolve \<lparr>base_domain = '' Pods.org''\<rparr> ''Al.Pods.org'' ''/x'') = Some ''al'' \<and>
   rp_pod (SubdomainResolver_resolve \<lparr>base_domain = '' Pods.org''\<rparr> ''Pods.org:80'' ''/x'') = None"
proof
  have t: "trim '' Pods.org'' = ''Pods.org''" "to_ascii_lowercase ''Al'' = ''al''" by code_simp+
  have "safe_label ''Al'' \<and> CHR '':'' \<notin> set ''80''" by (simp add: safe_label_def)
  then show "rp_pod (SubdomainResolver_resolve \<lparr>base_domain = '' Pods.org''\<rparr> ''Al.Pods.org'' ''/x'') = Some ''al''"
    using subdomain_tenancy [of "\<lparr>base_domain = '' Pods.org''\<rparr>" "[]" "''/x''" "[]" "''80''" "''Al''" "''Al.Pods.org''"] t by simp
  show "rp_pod (SubdomainResolver_resolve \<lparr>base_domain = '' Pods.org''\<rparr> ''Pods.org:80'' ''/x'') = None"
    using subdomain_tenancy [of "\<lparr>base_domain = '' Pods.org''\<rparr>" "[]" "''/x''" "[]" "''80''" "[]" "''Pods.org:80''"] t by simp
qed

end
