(* ===== verification/File_System.thy ===== *)
theory File_System
  imports Prelude "HOL-Library.AList" "HOL-Library.Sublist"
begin

text \<open>
  What the filesystem-backed components use of \<open>std::fs\<close> and \<open>std::path\<close>. The operations are a record
  over a disk type, with their contract as a locale: an operation on one path leaves the files at the
  paths it does not name, or lie below, as they were, a rename happens or does not, and a write that
  fails may leave a part of the data behind. The provider is a tree of directories and files whose
  state carries the faults to come, so that every mutating operation may fail at any time. Reads fail
  only for what the tree holds (no such file, a directory); a read that fails for a while is a change
  of the operations, which the quota store models (\<open>read_fault\<close>). Symbolic links and permissions are not modelled.
\<close>

datatype io_error = IoNotFound | IoNotADirectory | IoIsADirectory | IoInvalidInput | IoInvalidData | IoOther

datatype node = File bytes int | Dir "(string \<times> node) list"

section \<open>Paths\<close>

text \<open>The components of a path: empty ones and \<open>.\<close> are dropped, \<open>..\<close> goes up.\<close>

fun path_walk :: "string list \<Rightarrow> string list \<Rightarrow> string list" where
  "path_walk acc [] = acc"
| "path_walk acc (c # cs) =
     (if c = [] \<or> c = ''.'' then path_walk acc cs
      else if c = ''..'' then path_walk (butlast acc) cs
      else path_walk (acc @ [c]) cs)"

definition fs_path :: "string \<Rightarrow> string list" where
  "fs_path s = path_walk [] (split_on (CHR ''/'') s)"

definition wants_dir :: "string \<Rightarrow> bool" where
  "wants_dir s \<longleftrightarrow> last (split_on (CHR ''/'') s) \<in> {[], ''.'', ''..''}"

definition path_join :: "string \<Rightarrow> string \<Rightarrow> string" where
  "path_join root rel =
     (if starts_with ''/'' rel then rel
      else if root = [] \<or> ends_with ''/'' root then root @ rel
      else root @ ''/'' @ rel)"

text \<open>\<open>Path::parent\<close> by components: a final slash does not count, and the root has none.\<close>

definition path_parent :: "string \<Rightarrow> string option" where
  "path_parent s =
     (let t = trim_end_matches (CHR ''/'') s in
      if t = [] then None
      else case rfind_char (CHR ''/'') t of
        None \<Rightarrow> Some []
      | Some i \<Rightarrow> (let p = trim_end_matches (CHR ''/'') (take i t) in Some (if p = [] then ''/'' else p)))"

lemma path_walk_append: "path_walk acc (xs @ ys) = path_walk (path_walk acc xs) ys"
  by (induction acc xs rule: path_walk.induct) simp_all

text \<open>A name that can stand as the last component.\<close>

definition plain_name :: "string \<Rightarrow> bool" where
  "plain_name c \<longleftrightarrow> CHR ''/'' \<notin> set c \<and> c \<notin> {[], ''.'', ''..''}"

lemma fs_path_child: "plain_name c \<Longrightarrow> fs_path (s @ ''/'' @ c) = fs_path s @ [c]"
  by (simp add: fs_path_def plain_name_def split_on_last path_walk_append)

lemma fs_path_single: "plain_name c \<Longrightarrow> fs_path c = [c]"
  by (simp add: fs_path_def plain_name_def split_on_no_sep)

lemma fs_path_slash [simp]: "fs_path (s @ ''/'') = fs_path s"
  using split_on_last [of "CHR ''/''" "[]" s] by (simp add: fs_path_def path_walk_append)

lemma fs_path_Nil [simp]: "fs_path [] = []"
  by (simp add: fs_path_def)

lemma fs_path_slashes: "fs_path (s @ replicate n (CHR ''/'')) = fs_path s"
  by (induction n) (simp_all add: replicate_append_same [symmetric] append_assoc [symmetric] del: append_assoc)

lemma fs_path_trim [simp]: "fs_path (trim_end_matches (CHR ''/'') s) = fs_path s"
  using trim_end_matches_prefix [of s "CHR ''/''"] fs_path_slashes by metis

lemma wants_dir_child: "plain_name c \<Longrightarrow> \<not> wants_dir (s @ ''/'' @ c)"
  by (simp add: wants_dir_def plain_name_def split_on_last)

lemma path_join_plain:
  assumes "plain_name c"
  shows "fs_path (path_join s c) = fs_path s @ [c]" "\<not> wants_dir (path_join s c)" "path_join s c \<noteq> []"
proof -
  have "c \<noteq> []" "\<not> starts_with ''/'' c" using assms by (auto simp: plain_name_def starts_with_iff)
  moreover have "wants_dir c \<longleftrightarrow> False" using assms by (simp add: wants_dir_def plain_name_def split_on_no_sep)
  moreover have "\<exists>t. s = t @ ''/''" if "ends_with ''/'' s" using that by (simp add: ends_with_iff)
  ultimately show "fs_path (path_join s c) = fs_path s @ [c]" "\<not> wants_dir (path_join s c)" "path_join s c \<noteq> []"
    using assms fs_path_child [OF assms] fs_path_single [OF assms] wants_dir_child [OF assms]
    by (auto simp: path_join_def)
qed

lemma path_parent_join:
  assumes "plain_name c"
  shows "\<exists>p. path_parent (path_join s c) = Some p \<and> fs_path p = fs_path s"
proof -
  have c: "c \<noteq> []" "\<not> starts_with ''/'' c" "CHR ''/'' \<notin> set c" using assms by (auto simp: plain_name_def starts_with_iff)
  then have l: "last c \<noteq> CHR ''/''" using last_in_set by metis
  show ?thesis
  proof (cases "s = []")
    case True
    have "find_char ((=) (CHR ''/'')) (rev c) = None" using c by (auto simp: find_char_None_iff)
    then show ?thesis
      using True c l by (simp add: path_join_def path_parent_def trim_end_matches_no Let_def rfind_char_def)
  next
    case False
    obtain t where t: "path_join s c = t @ ''/'' @ c" "fs_path t = fs_path s"
      using c False that by (cases "ends_with ''/'' s") (auto simp: path_join_def ends_with_iff)
    have "trim_end_matches (CHR ''/'') (t @ ''/'' @ c) = t @ ''/'' @ c" using c l by (intro trim_end_matches_no) simp
    moreover have "rfind_char (CHR ''/'') (t @ ''/'' @ c) = Some (length t)" using c by (simp add: rfind_char_split)
    moreover have "fs_path t = []" if "trim_end_matches (CHR ''/'') t = []"
      using fs_path_trim [of t] unfolding that by simp
    ultimately show ?thesis
      using t fs_path_slash [of "[]"] by (auto simp: path_parent_def Let_def)
  qed
qed

section \<open>Operations\<close>

record 'd fs_ops =
  fo_tree :: "'d \<Rightarrow> string \<Rightarrow> io_error + node"
  fo_write :: "'d \<Rightarrow> string \<Rightarrow> bytes \<Rightarrow> 'd \<times> (io_error + unit)"
  fo_rename :: "'d \<Rightarrow> string \<Rightarrow> string \<Rightarrow> 'd \<times> (io_error + unit)"
  fo_remove_file :: "'d \<Rightarrow> string \<Rightarrow> 'd \<times> (io_error + unit)"
  fo_create_dir_all :: "'d \<Rightarrow> string \<Rightarrow> 'd \<times> (io_error + unit)"

text \<open>\<open>fs::read\<close>, \<open>fs::read_dir\<close>, \<open>fs::metadata\<close> and \<open>fs::try_exists\<close> only look. A directory entry has a name
  that is a single component.\<close>

definition fo_file :: "'d fs_ops \<Rightarrow> 'd \<Rightarrow> string \<Rightarrow> io_error + bytes \<times> int" where
  "fo_file D d p = rbind (fo_tree D d p) (\<lambda>n. case n of File b m \<Rightarrow> Inr (b, m) | Dir _ \<Rightarrow> Inl IoIsADirectory)"

definition fo_read :: "'d fs_ops \<Rightarrow> 'd \<Rightarrow> string \<Rightarrow> io_error + bytes" where
  "fo_read D d p = rbind (fo_tree D d p) (\<lambda>n. case n of File b _ \<Rightarrow> Inr b | Dir _ \<Rightarrow> Inl IoIsADirectory)"

lemma fo_read_file: "fo_read D d p = map_sum id fst (fo_file D d p)"
  by (cases "fo_tree D d p") (auto simp: fo_read_def fo_file_def split: node.splits)

definition fo_read_dir :: "'d fs_ops \<Rightarrow> 'd \<Rightarrow> string \<Rightarrow> io_error + (string \<times> node) list" where
  "fo_read_dir D d p = rbind (fo_tree D d p) (\<lambda>n. case n of
     Dir es \<Rightarrow> Inr (filter (\<lambda>e. plain_name (fst e)) es) | File _ _ \<Rightarrow> Inl IoNotADirectory)"

definition fo_exists :: "'d fs_ops \<Rightarrow> 'd \<Rightarrow> string \<Rightarrow> io_error + bool" where
  "fo_exists D d p = (case fo_tree D d p of Inr _ \<Rightarrow> Inr True | Inl IoNotFound \<Rightarrow> Inr False | Inl e \<Rightarrow> Inl e)"

lemma read_dir_plain: "fo_read_dir D d p = Inr es \<Longrightarrow> e \<in> set es \<Longrightarrow> plain_name (fst e)"
proof -
  assume "fo_read_dir D d p = Inr es" "e \<in> set es"
  then obtain n where "(case n of Dir es \<Rightarrow> Inr (filter (\<lambda>e. plain_name (fst e)) es) | File _ _ \<Rightarrow> Inl IoNotADirectory) = Inr es"
    by (auto simp: fo_read_dir_def rbind_Inr_conv)
  then show ?thesis using \<open>e \<in> set es\<close> by (cases n) auto
qed

text \<open>A path lies apart from another when it is neither that path nor below it.\<close>

definition apart :: "string \<Rightarrow> string \<Rightarrow> bool" where
  "apart q p \<longleftrightarrow> \<not> prefix (fs_path p) (fs_path q)"

locale file_system =
  fixes D :: "'d fs_ops"
  assumes file_path: "fs_path p = fs_path q \<Longrightarrow> p \<noteq> [] \<Longrightarrow> q \<noteq> [] \<Longrightarrow> wants_dir p = wants_dir q \<Longrightarrow>
      CHR 0x00 \<notin> set p \<Longrightarrow> CHR 0x00 \<notin> set q \<Longrightarrow> fo_file D d p = fo_file D d q"
    and write_same: "fo_write D d p b = (d', Inr ()) \<Longrightarrow> fo_read D d' p = Inr b"
    and file_write_other: "apart q p \<Longrightarrow> fo_file D (fst (fo_write D d p b)) q = fo_file D d q"
    and file_rename: "fo_rename D d p q = (d', Inr ()) \<Longrightarrow> fo_file D d' q = fo_file D d p"
    and file_rename_fail: "fo_rename D d p q = (d', Inl e) \<Longrightarrow> fo_file D d' s = fo_file D d s"
    and file_rename_other: "apart s p \<Longrightarrow> apart s q \<Longrightarrow> fo_file D (fst (fo_rename D d p q)) s = fo_file D d s"
    and file_remove: "fo_remove_file D d p = (d', Inr ()) \<Longrightarrow> fo_file D d' p = Inl IoNotFound"
    and file_remove_fail: "fo_remove_file D d p = (d', Inl e) \<Longrightarrow> fo_file D d' s = fo_file D d s"
    and file_remove_other: "apart s p \<Longrightarrow> fo_file D (fst (fo_remove_file D d p)) s = fo_file D d s"
    and file_mkdir_other: "\<not> prefix (fs_path s) (fs_path p) \<Longrightarrow> fo_file D (fst (fo_create_dir_all D d p)) s = fo_file D d s"
begin

lemma write_other: "apart q p \<Longrightarrow> fo_read D (fst (fo_write D d p b)) q = fo_read D d q"
  by (simp add: fo_read_file file_write_other)

lemma rename_ok: "fo_rename D d p q = (d', Inr ()) \<Longrightarrow> fo_read D d' q = fo_read D d p"
  by (simp add: fo_read_file file_rename)

lemma rename_fail: "fo_rename D d p q = (d', Inl e) \<Longrightarrow> fo_read D d' s = fo_read D d s"
  by (simp add: fo_read_file file_rename_fail)

lemma remove_other: "apart s p \<Longrightarrow> fo_read D (fst (fo_remove_file D d p)) s = fo_read D d s"
  by (simp add: fo_read_file file_remove_other)

lemma mkdir_other: "\<not> prefix (fs_path s) (fs_path p) \<Longrightarrow> fo_read D (fst (fo_create_dir_all D d p)) s = fo_read D d s"
  by (simp add: fo_read_file file_mkdir_other)

end

section \<open>The directory tree\<close>

fun fs_walk :: "node \<Rightarrow> string list \<Rightarrow> io_error + node" where
  "fs_walk n [] = Inr n"
| "fs_walk (File _ _) (c # cs) = Inl IoNotADirectory"
| "fs_walk (Dir es) (c # cs) = (case map_of es c of None \<Rightarrow> Inl IoNotFound | Some n \<Rightarrow> fs_walk n cs)"

text \<open>Change the entry a path names; its parent directory must be there.\<close>

fun fs_update :: "node \<Rightarrow> string list \<Rightarrow> (node option \<Rightarrow> io_error + node option) \<Rightarrow> io_error + node" where
  "fs_update n [] f = Inl IoOther"
| "fs_update (File _ _) (c # cs) f = Inl IoNotADirectory"
| "fs_update (Dir es) [c] f =
     rbind (f (map_of es c)) (\<lambda>r. Inr (Dir (case r of None \<Rightarrow> AList.delete c es | Some n \<Rightarrow> AList.update c n es)))"
| "fs_update (Dir es) (c # c' # cs) f =
     (case map_of es c of None \<Rightarrow> Inl IoNotFound
      | Some n \<Rightarrow> rbind (fs_update n (c' # cs) f) (\<lambda>n'. Inr (Dir (AList.update c n' es))))"

fun fs_mkdirs :: "node \<Rightarrow> string list \<Rightarrow> io_error + node" where
  "fs_mkdirs (File _ _) cs = Inl IoNotADirectory"
| "fs_mkdirs (Dir es) [] = Inr (Dir es)"
| "fs_mkdirs (Dir es) (c # cs) =
     rbind (fs_mkdirs (unwrap_or (map_of es c) (Dir [])) cs) (\<lambda>n. Inr (Dir (AList.update c n es)))"

text \<open>
  A disk holds the tree, the clock and the faults to come: at each mutating operation the next fault,
  when there is one, makes it fail, a write after some number of bytes.
\<close>

record disk =
  dk_root :: node
  dk_now :: int
  dk_faults :: "nat option list"

definition next_fault :: "disk \<Rightarrow> nat option \<times> disk" where
  "next_fault d = (case dk_faults d of [] \<Rightarrow> (None, d) | x # xs \<Rightarrow> (x, d\<lparr>dk_faults := xs\<rparr>))"

definition usable :: "string \<Rightarrow> io_error + string list" where
  "usable s = (if CHR 0x00 \<in> set s then Inl IoInvalidInput else if s = [] then Inl IoNotFound else Inr (fs_path s))"

definition disk_tree :: "disk \<Rightarrow> string \<Rightarrow> io_error + node" where
  "disk_tree d s = rbind (usable s) (\<lambda>p. rbind (fs_walk (dk_root d) p) (\<lambda>n.
     case n of File _ _ \<Rightarrow> if wants_dir s then Inl IoNotADirectory else Inr n | Dir _ \<Rightarrow> Inr n))"

definition commit :: "disk \<Rightarrow> io_error + node \<Rightarrow> disk \<times> (io_error + unit)" where
  "commit d r = (case r of Inl e \<Rightarrow> (d, Inl e) | Inr n \<Rightarrow> (d\<lparr>dk_root := n\<rparr>, Inr ()))"

definition file_slot :: "string \<Rightarrow> node option \<Rightarrow> node \<Rightarrow> io_error + node option" where
  "file_slot s old new =
     (case old of
        Some (Dir _) \<Rightarrow> Inl IoIsADirectory
      | Some (File _ _) \<Rightarrow> if wants_dir s then Inl IoNotADirectory else Inr (Some new)
      | None \<Rightarrow> if wants_dir s then Inl IoIsADirectory else Inr (Some new))"

definition disk_write :: "disk \<Rightarrow> string \<Rightarrow> bytes \<Rightarrow> disk \<times> (io_error + unit)" where
  "disk_write d0 s b = (let (fault, d) = next_fault d0 in
     case usable s of Inl e \<Rightarrow> (d, Inl e)
     | Inr p \<Rightarrow> (case fault of
         None \<Rightarrow> commit d (fs_update (dk_root d) p (\<lambda>old. file_slot s old (File b (dk_now d))))
       | Some k \<Rightarrow> (fst (commit d (fs_update (dk_root d) p (\<lambda>old. file_slot s old (File (take k b) (dk_now d))))), Inl IoOther)))"

definition disk_remove_file :: "disk \<Rightarrow> string \<Rightarrow> disk \<times> (io_error + unit)" where
  "disk_remove_file d0 s = (let (fault, d) = next_fault d0 in
     if fault \<noteq> None then (d, Inl IoOther)
     else case usable s of Inl e \<Rightarrow> (d, Inl e)
     | Inr p \<Rightarrow> commit d (fs_update (dk_root d) p (\<lambda>old. case old of
         None \<Rightarrow> Inl IoNotFound
       | Some (Dir _) \<Rightarrow> Inl IoIsADirectory
       | Some (File _ _) \<Rightarrow> if wants_dir s then Inl IoNotADirectory else Inr None)))"

text \<open>Only files are renamed here. The file is gone from the old place and at the new one in one step.\<close>

definition disk_rename :: "disk \<Rightarrow> string \<Rightarrow> string \<Rightarrow> disk \<times> (io_error + unit)" where
  "disk_rename d0 s t = (let (fault, d) = next_fault d0 in
     if fault \<noteq> None then (d, Inl IoOther)
     else commit d (rbind (disk_tree d s) (\<lambda>n. case n of
         Dir _ \<Rightarrow> Inl IoOther
       | File _ _ \<Rightarrow> rbind (usable s) (\<lambda>p. rbind (usable t) (\<lambda>q.
           if p = q then (if wants_dir t then Inl IoNotADirectory else Inr (dk_root d))
           else rbind (fs_update (dk_root d) q (\<lambda>old. file_slot t old n)) (\<lambda>r. fs_update r p (\<lambda>_. Inr None)))))))"

definition disk_create_dir_all :: "disk \<Rightarrow> string \<Rightarrow> disk \<times> (io_error + unit)" where
  "disk_create_dir_all d0 s = (let (fault, d) = next_fault d0 in
     if fault \<noteq> None then (d, Inl IoOther)
     else if s = [] then (d, Inr ())
     else commit d (rbind (usable s) (fs_mkdirs (dk_root d))))"

definition disk_ops :: "disk fs_ops" where
  "disk_ops = \<lparr>fo_tree = disk_tree, fo_write = disk_write, fo_rename = disk_rename,
     fo_remove_file = disk_remove_file, fo_create_dir_all = disk_create_dir_all\<rparr>"

section \<open>The tree meets the contract\<close>

lemma disk_sel [simp]:
  "fo_tree disk_ops = disk_tree" "fo_write disk_ops = disk_write" "fo_rename disk_ops = disk_rename"
  "fo_remove_file disk_ops = disk_remove_file" "fo_create_dir_all disk_ops = disk_create_dir_all"
  by (simp_all add: disk_ops_def)

definition rd :: "bool \<Rightarrow> io_error + node \<Rightarrow> io_error + bytes \<times> int" where
  "rd w r = rbind r (\<lambda>n. case n of File b m \<Rightarrow> if w then Inl IoNotADirectory else Inr (b, m) | Dir _ \<Rightarrow> Inl IoIsADirectory)"

lemma rd_simps [simp]:
  "rd w (Inl e) = Inl e" "rd w (Inr (Dir es)) = Inl IoIsADirectory"
  "rd w (Inr (File b m)) = (if w then Inl IoNotADirectory else Inr (b, m))"
  by (simp_all add: rd_def)

lemma disk_read: "fo_file disk_ops d s = rbind (usable s) (\<lambda>p. rd (wants_dir s) (fs_walk (dk_root d) p))"
  by (cases "usable s"; cases "fs_walk (dk_root d) (fs_path s)")
     (auto simp: fo_file_def disk_ops_def disk_tree_def usable_def split: if_splits node.splits)

lemma usable_Inr: "usable s = Inr p \<Longrightarrow> p = fs_path s"
  by (auto simp: usable_def split: if_splits)

lemma walk_update_same:
  "fs_update n p f = Inr n' \<Longrightarrow> \<exists>old r. f old = Inr r \<and> (old = None \<or> (\<exists>m. old = Some m \<and> fs_walk n p = Inr m)) \<and>
     fs_walk n' p = (case r of None \<Rightarrow> Inl IoNotFound | Some m \<Rightarrow> Inr m)"
proof (induction n p f arbitrary: n' rule: fs_update.induct)
  case (3 es c f)
  then obtain r where "f (map_of es c) = Inr r" "n' = Dir (case r of None \<Rightarrow> AList.delete c es | Some n \<Rightarrow> AList.update c n es)"
    by (auto simp: rbind_Inr_conv)
  then show ?case
    by (intro exI [of _ "map_of es c"] exI [of _ r]) (auto simp: update_conv' delete_conv' split: option.splits)
next
  case (4 es c c' cs f)
  then obtain n m where "map_of es c = Some n" "fs_update n (c' # cs) f = Inr m" "n' = Dir (AList.update c m es)"
    by (auto simp: rbind_Inr_conv split: option.splits)
  then show ?case using 4(1) by (simp add: update_conv')
qed simp_all

lemma walk_update_other:
  "fs_update n p f = Inr n' \<Longrightarrow> \<not> prefix p q \<Longrightarrow> rd w (fs_walk n' q) = rd w (fs_walk n q)"
proof (induction n p f arbitrary: n' q rule: fs_update.induct)
  case (3 es c f)
  then show ?case
    by (cases q) (auto simp: rbind_Inr_conv update_conv' delete_conv' split: option.splits)
next
  case (4 es c c' cs f)
  then obtain n m where n: "map_of es c = Some n" "fs_update n (c' # cs) f = Inr m" "n' = Dir (AList.update c m es)"
    by (auto simp: rbind_Inr_conv split: option.splits)
  then show ?case using 4(1) [of n m "tl q"] 4(3) by (cases q) (auto simp: update_conv')
qed simp_all

lemma walk_mkdirs: "fs_mkdirs n p = Inr n' \<Longrightarrow> \<not> prefix q p \<Longrightarrow> rd w (fs_walk n' q) = rd w (fs_walk n q)"
proof (induction n p arbitrary: n' q rule: fs_mkdirs.induct)
  case (3 es c cs)
  obtain m where m: "fs_mkdirs (unwrap_or (map_of es c) (Dir [])) cs = Inr m" "n' = Dir (AList.update c m es)"
    using 3(2) by (auto simp: rbind_Inr_conv)
  obtain x xs where q: "q = x # xs" using 3(3) by (cases q) auto
  show ?case
  proof (cases "x = c")
    case True
    then have "\<not> prefix xs cs" using 3(3) q by simp
    then have "rd w (fs_walk m xs) = rd w (fs_walk (unwrap_or (map_of es c) (Dir [])) xs)" "xs \<noteq> []"
      using 3(1) [OF m(1)] by auto
    then show ?thesis using m(2) q True by (cases xs) (auto simp: update_conv' split: option.splits)
  qed (use m(2) q in \<open>simp add: update_conv'\<close>)
qed auto

lemma next_fault_root [simp]: "next_fault d0 = (f, d) \<Longrightarrow> dk_root d = dk_root d0"
  by (auto simp: next_fault_def split: list.splits)

lemma commit_root: "dk_root (fst (commit d r)) = (case r of Inl _ \<Rightarrow> dk_root d | Inr n \<Rightarrow> n)"
  "snd (commit d r) = (case r of Inl e \<Rightarrow> Inl e | Inr _ \<Rightarrow> Inr ())"
  by (auto simp: commit_def split: sum.splits)

lemma disk_read_cong: "dk_root d = dk_root d' \<Longrightarrow> fo_file disk_ops d s = fo_file disk_ops d' s"
  by (simp add: disk_read)

lemma disk_update_other:
  assumes "apart q s" "usable s = Inr p"
  shows "fo_file disk_ops (fst (commit d (fs_update (dk_root d) p f))) q = fo_file disk_ops d q"
proof (cases "fs_update (dk_root d) p f")
  case (Inr n)
  have "\<not> prefix p (fs_path q)" using assms usable_Inr by (simp add: apart_def)
  then show ?thesis
    using walk_update_other [OF Inr] by (cases "usable q") (auto simp: disk_read commit_def Inr dest: usable_Inr)
qed (simp add: commit_def)

lemma file_slot_Inr: "file_slot s old new = Inr r \<longleftrightarrow> r = Some new \<and> \<not> wants_dir s \<and> (\<forall>es. old \<noteq> Some (Dir es))"
  by (auto simp: file_slot_def split: option.splits node.splits if_splits)

lemma disk_write_other: "apart q s \<Longrightarrow> fo_file disk_ops (fst (disk_write d s b)) q = fo_file disk_ops d q"
proof -
  assume a: "apart q s"
  obtain f d1 where n: "next_fault d = (f, d1)" by force
  have "fo_file disk_ops (fst (disk_write d s b)) q = fo_file disk_ops d1 q"
  proof (cases "usable s")
    case (Inr p)
    then show ?thesis
      using disk_update_other [OF a Inr] by (cases f) (simp_all add: disk_write_def n)
  qed (simp add: disk_write_def n)
  then show ?thesis using n disk_read_cong [of d1 d] by simp
qed

lemma disk_write_same: "disk_write d s b = (d', Inr ()) \<Longrightarrow> fo_read disk_ops d' s = Inr b"
proof -
  assume w: "disk_write d s b = (d', Inr ())"
  obtain f d1 where n: "next_fault d = (f, d1)" by force
  obtain p where p: "usable s = Inr p" using w n by (cases "usable s") (auto simp: disk_write_def)
  have f: "f = None" using w n p by (cases f) (auto simp: disk_write_def)
  then obtain m where m: "fs_update (dk_root d1) p (\<lambda>old. file_slot s old (File b (dk_now d1))) = Inr m" "d' = d1\<lparr>dk_root := m\<rparr>"
    using w n p by (auto simp: disk_write_def commit_def split: sum.splits)
  show ?thesis using walk_update_same [OF m(1)] m(2) p by (auto simp: fo_read_file disk_read file_slot_Inr)
qed

lemma disk_remove_ok: "disk_remove_file d s = (d', Inr ()) \<Longrightarrow> fo_file disk_ops d' s = Inl IoNotFound"
proof -
  assume w: "disk_remove_file d s = (d', Inr ())"
  obtain f d1 where n: "next_fault d = (f, d1)" by force
  have f: "f = None" using w n by (cases f) (auto simp: disk_remove_file_def)
  obtain p where p: "usable s = Inr p" using w n f by (cases "usable s") (auto simp: disk_remove_file_def)
  let ?f = "\<lambda>old. case old of None \<Rightarrow> Inl IoNotFound | Some (Dir _) \<Rightarrow> Inl IoIsADirectory
     | Some (File _ _) \<Rightarrow> if wants_dir s then Inl IoNotADirectory else Inr None"
  obtain m where m: "fs_update (dk_root d1) p ?f = Inr m" "d' = d1\<lparr>dk_root := m\<rparr>"
    using w n p f by (auto simp: disk_remove_file_def commit_def split: sum.splits)
  show ?thesis using walk_update_same [OF m(1)] m(2) p by (auto simp: disk_read split: option.splits node.splits if_splits)
qed

lemma disk_remove_other: "apart q s \<Longrightarrow> fo_file disk_ops (fst (disk_remove_file d s)) q = fo_file disk_ops d q"
proof -
  assume a: "apart q s"
  obtain f d1 where n: "next_fault d = (f, d1)" by force
  have "fo_file disk_ops (fst (disk_remove_file d s)) q = fo_file disk_ops d1 q"
  proof (cases "usable s")
    case (Inr p)
    then show ?thesis
      using disk_update_other [OF a Inr] by (simp add: disk_remove_file_def n)
  qed (simp add: disk_remove_file_def n)
  then show ?thesis using n disk_read_cong [of d1 d] by simp
qed

lemma commit_fail: "commit d r = (d', Inl e) \<Longrightarrow> d' = d"
  by (auto simp: commit_def split: sum.splits)

lemma disk_fail:
  "disk_remove_file d s = (d', Inl e) \<Longrightarrow> dk_root d' = dk_root d"
  "disk_rename d s t = (d', Inl e) \<Longrightarrow> dk_root d' = dk_root d"
  by (auto simp: disk_remove_file_def disk_rename_def split: prod.splits if_splits sum.splits dest!: commit_fail)

lemma file_blocks: "fs_walk n p = Inr (File b m) \<Longrightarrow> fs_update n q f = Inr n' \<Longrightarrow> \<not> strict_prefix p q"
proof (induction n q f arbitrary: n' p rule: fs_update.induct)
  case (3 es c f)
  then show ?case by (cases p) auto
next
  case (4 es c c' cs f)
  then obtain n m where n: "map_of es c = Some n" "fs_update n (c' # cs) f = Inr m"
    by (auto simp: rbind_Inr_conv split: option.splits)
  show ?case
  proof (cases p)
    case Nil
    then show ?thesis using 4(2) by simp
  next
    case (Cons x xs)
    then show ?thesis using 4(1) [OF n(1) _ n(2), of xs] 4(2) n(1) by auto
  qed
qed simp_all

lemma disk_rename_steps:
  assumes "disk_rename d s t = (d', Inr ())"
  obtains b m p q where "fs_walk (dk_root d) p = Inr (File b m)" "\<not> wants_dir s" "\<not> wants_dir t" "usable s = Inr p" "usable t = Inr q"
    and "p = q \<and> dk_root d' = dk_root d \<or>
      p \<noteq> q \<and> (\<exists>r. fs_update (dk_root d) q (\<lambda>old. file_slot t old (File b m)) = Inr r \<and> fs_update r p (\<lambda>_. Inr None) = Inr (dk_root d'))"
proof -
  obtain f d1 where n: "next_fault d = (f, d1)" by force
  have f: "f = None" using assms n by (cases f) (auto simp: disk_rename_def)
  obtain nd where nd: "disk_tree d1 s = Inr nd"
    using assms n f by (cases "disk_tree d1 s") (auto simp: disk_rename_def commit_def)
  obtain b m where b: "nd = File b m" using assms n f nd by (cases nd) (auto simp: disk_rename_def commit_def)
  obtain p where p: "usable s = Inr p" using nd by (cases "usable s") (auto simp: disk_tree_def)
  obtain q where q: "usable t = Inr q" using assms n f nd b p by (cases "usable t") (auto simp: disk_rename_def commit_def)
  have w: "fs_walk (dk_root d) p = Inr (File b m)" "\<not> wants_dir s"
    using nd b p n by (cases "fs_walk (dk_root d1) p"; auto simp: disk_tree_def split: node.splits if_splits)+
  show ?thesis
  proof (cases "p = q")
    case True
    then show ?thesis
      using that [OF w _ p q] assms n f nd b p q by (auto simp: disk_rename_def commit_def split: if_splits)
  next
    case False
    then obtain r where r: "fs_update (dk_root d1) q (\<lambda>old. file_slot t old (File b m)) = Inr r"
      "fs_update r p (\<lambda>_. Inr None) = Inr (dk_root d')"
      using assms n f nd b p q by (auto simp: disk_rename_def commit_def rbind_Inr_conv split: sum.splits)
    have "\<not> wants_dir t" using walk_update_same [OF r(1)] by (auto simp: file_slot_Inr)
    then show ?thesis using that [OF w _ p q] False r n by auto
  qed
qed

lemma disk_rename_ok: "disk_rename d s t = (d', Inr ()) \<Longrightarrow> fo_file disk_ops d' t = fo_file disk_ops d s"
proof (erule disk_rename_steps)
  fix b m p q
  assume w: "fs_walk (dk_root d) p = Inr (File b m)" "\<not> wants_dir s" "\<not> wants_dir t" "usable s = Inr p" "usable t = Inr q"
    and or: "p = q \<and> dk_root d' = dk_root d \<or>
      p \<noteq> q \<and> (\<exists>r. fs_update (dk_root d) q (\<lambda>old. file_slot t old (File b m)) = Inr r \<and> fs_update r p (\<lambda>_. Inr None) = Inr (dk_root d'))"
  show "fo_file disk_ops d' t = fo_file disk_ops d s"
  proof (cases "p = q")
    case False
    then obtain r where r: "fs_update (dk_root d) q (\<lambda>old. file_slot t old (File b m)) = Inr r"
      "fs_update r p (\<lambda>_. Inr None) = Inr (dk_root d')" using or by blast
    have "fs_walk r q = Inr (File b m)" using walk_update_same [OF r(1)] by (auto simp: file_slot_Inr)
    moreover have "\<not> prefix p q" using file_blocks [OF w(1) r(1)] False by (auto simp: strict_prefix_def)
    ultimately have "rd False (fs_walk (dk_root d') q) = Inr (b, m)" using walk_update_other [OF r(2), of q False] by simp
    then show ?thesis using w by (simp add: disk_read)
  qed (use w or in \<open>simp add: disk_read\<close>)
qed

lemma disk_rename_other:
  assumes "apart x s" "apart x t"
  shows "fo_file disk_ops (fst (disk_rename d s t)) x = fo_file disk_ops d x"
proof (cases "disk_rename d s t")
  case (Pair d' r)
  show ?thesis
  proof (cases r)
    case (Inr u)
    then have "disk_rename d s t = (d', Inr ())" using Pair by simp
    then show ?thesis
    proof (rule disk_rename_steps)
      fix b m p q
      assume w: "usable s = Inr p" "usable t = Inr q"
        and or: "p = q \<and> dk_root d' = dk_root d \<or>
          p \<noteq> q \<and> (\<exists>r. fs_update (dk_root d) q (\<lambda>old. file_slot t old (File b m)) = Inr r \<and> fs_update r p (\<lambda>_. Inr None) = Inr (dk_root d'))"
      have "\<not> prefix p (fs_path x)" "\<not> prefix q (fs_path x)" using assms w usable_Inr by (auto simp: apart_def)
      then have "rd v (fs_walk (dk_root d') (fs_path x)) = rd v (fs_walk (dk_root d) (fs_path x))" for v
        using or walk_update_other by fastforce
      then show ?thesis using Pair by (cases "usable x") (auto simp: disk_read dest: usable_Inr)
    qed
  qed (use Pair disk_fail(2) in \<open>auto intro: disk_read_cong\<close>)
qed

lemma disk_mkdir_other:
  assumes "\<not> prefix (fs_path s) (fs_path p)"
  shows "fo_file disk_ops (fst (disk_create_dir_all d p)) s = fo_file disk_ops d s"
proof -
  obtain f d1 where n: "next_fault d = (f, d1)" by force
  have "fo_file disk_ops (fst (disk_create_dir_all d p)) s = fo_file disk_ops d1 s"
  proof (cases "rbind (usable p) (fs_mkdirs (dk_root d1))")
    case (Inr r)
    then obtain q where q: "usable p = Inr q" "fs_mkdirs (dk_root d1) q = Inr r" by (auto simp: rbind_Inr_conv)
    then have "rd w (fs_walk r (fs_path s)) = rd w (fs_walk (dk_root d1) (fs_path s))" for w
      using walk_mkdirs [OF q(2)] assms usable_Inr [OF q(1)] by simp
    then show ?thesis
      by (cases "usable s") (auto simp: disk_create_dir_all_def n Inr disk_read commit_def dest: usable_Inr)
  qed (auto simp: disk_create_dir_all_def n commit_def)
  then show ?thesis using n disk_read_cong [of d1 d] by simp
qed

interpretation disk: file_system disk_ops
proof unfold_locales
  show "fo_file disk_ops d p = fo_file disk_ops d q"
    if "fs_path p = fs_path q" "p \<noteq> []" "q \<noteq> []" "wants_dir p = wants_dir q" "CHR 0x00 \<notin> set p" "CHR 0x00 \<notin> set q" for p q d
    using that by (simp add: disk_read usable_def)
qed (auto intro: disk_write_same disk_rename_ok disk_remove_ok disk_write_other disk_rename_other disk_remove_other
    disk_mkdir_other disk_read_cong dest: disk_fail)

end
