(* ===== verification/Quota.thy ===== *)
theory Quota
  imports File_System Pod_Error
begin

text \<open>
  The per-pod quota policy (\<open>quota/mod.rs\<close>): \<open>FsQuotaStore\<close> over the filesystem interface. The JSON codec of
  the sidecar (\<open>serde_json\<close>) is a pair of parameters, and so is the process id and time stamp that name
  a temporary file. Arithmetic on the counters is that of the release build; negating the least
  \<open>i64\<close> panics in a debug build and wraps, to the right magnitude, here.
\<close>

section \<open>Model\<close>

record QuotaUsage =
  qu_used_bytes :: u64
  qu_limit_bytes :: u64

record codec =
  to_vec_pretty :: "QuotaUsage \<Rightarrow> bytes"
  from_slice :: "bytes \<Rightarrow> QuotaUsage option"

definition QUOTA_FILE :: string where
  "QUOTA_FILE = ''.quota.json''"

record FsQuotaStore =
  qs_root :: string
  qs_default_limit :: u64

definition FsQuotaStore_new :: "string \<Rightarrow> u64 \<Rightarrow> FsQuotaStore" where
  "FsQuotaStore_new root default_limit = \<lparr>qs_root = root, qs_default_limit = default_limit\<rparr>"

definition pod_dir :: "FsQuotaStore \<Rightarrow> string \<Rightarrow> string" where
  "pod_dir self pod = path_join (qs_root self) pod"

definition quota_file :: "FsQuotaStore \<Rightarrow> string \<Rightarrow> string" where
  "quota_file self pod = path_join (path_join (qs_root self) pod) QUOTA_FILE"

definition read_sidecar :: "'d fs_ops \<Rightarrow> codec \<Rightarrow> FsQuotaStore \<Rightarrow> 'd \<Rightarrow> string \<Rightarrow> io_error + QuotaUsage option" where
  "read_sidecar D J self d pod =
     (case fo_read D d (quota_file self pod) of
        Inr bs \<Rightarrow> (case from_slice J bs of None \<Rightarrow> Inl IoInvalidData | Some u \<Rightarrow> Inr (Some u))
      | Inl IoNotFound \<Rightarrow> Inr None
      | Inl e \<Rightarrow> Inl e)"

definition tmp_file :: "FsQuotaStore \<Rightarrow> string \<Rightarrow> string \<Rightarrow> string" where
  "tmp_file self stamp pod = quota_file self pod @ ''.tmp-'' @ stamp"

definition write_sidecar :: "'d fs_ops \<Rightarrow> codec \<Rightarrow> FsQuotaStore \<Rightarrow> string \<Rightarrow> 'd \<Rightarrow> string \<Rightarrow> QuotaUsage \<Rightarrow> 'd \<times> (io_error + unit)" where
  "write_sidecar D J self stamp d pod usage =
     (let path = quota_file self pod in
      and_then (case path_parent path of Some parent \<Rightarrow> fo_create_dir_all D d parent | None \<Rightarrow> (d, Inr ())) (\<lambda>d1 _.
        let tmp = tmp_file self stamp pod in
        case fo_write D d1 tmp (to_vec_pretty J usage) of
          (d2, Inl e) \<Rightarrow> (fst (fo_remove_file D d2 tmp), Inl e)
        | (d2, Inr _) \<Rightarrow> (case fo_rename D d2 tmp path of
            (d3, Inl e) \<Rightarrow> (fst (fo_remove_file D d3 tmp), Inl e)
          | (d3, Inr _) \<Rightarrow> (d3, Inr ()))))"

definition is_orphan :: "string \<Rightarrow> bool" where
  "is_orphan name \<longleftrightarrow> utf8_valid name \<and> starts_with ''.quota.json.tmp-'' name"

fun sweep_loop :: "'d fs_ops \<Rightarrow> string \<Rightarrow> (string \<times> node) list \<Rightarrow> 'd \<Rightarrow> 'd" where
  "sweep_loop D dir [] d = d"
| "sweep_loop D dir ((name, _) # es) d =
     sweep_loop D dir es (if is_orphan name then fst (fo_remove_file D d (path_join dir name)) else d)"

definition sweep_quota_orphans :: "'d fs_ops \<Rightarrow> FsQuotaStore \<Rightarrow> 'd \<Rightarrow> string \<Rightarrow> 'd \<times> (io_error + unit)" where
  "sweep_quota_orphans D self d pod =
     (case path_parent (quota_file self pod) of
        None \<Rightarrow> (d, Inr ())
      | Some dir \<Rightarrow> (case fo_read_dir D d dir of
            Inr es \<Rightarrow> (sweep_loop D dir es d, Inr ())
          | Inl IoNotFound \<Rightarrow> (d, Inr ())
          | Inl e \<Rightarrow> (d, Inl e)))"

definition effective :: "'d fs_ops \<Rightarrow> codec \<Rightarrow> FsQuotaStore \<Rightarrow> 'd \<Rightarrow> string \<Rightarrow> io_error + QuotaUsage" where
  "effective D J self d pod = rbind (read_sidecar D J self d pod) (\<lambda>s. Inr (case s of
     Some u \<Rightarrow> if qu_limit_bytes u = 0 then u\<lparr>qu_limit_bytes := qs_default_limit self\<rparr> else u
   | None \<Rightarrow> \<lparr>qu_used_bytes = 0, qu_limit_bytes = qs_default_limit self\<rparr>))"

text \<open>The recursion of \<open>dir_size_boxed\<close> follows the directory tree.\<close>

fun node_size :: "node \<Rightarrow> u64" where
  "node_size (File b _) = of_nat (length b)"
| "node_size (Dir es) =
     foldl (\<lambda>acc e. if fst e = QUOTA_FILE then acc else sat_add acc (node_size (snd e))) 0 es"

definition dir_size_boxed :: "'d fs_ops \<Rightarrow> 'd \<Rightarrow> string \<Rightarrow> io_error + u64" where
  "dir_size_boxed D d dir =
     (case fo_read_dir D d dir of
        Inr es \<Rightarrow> Inr (node_size (Dir es))
      | Inl IoNotFound \<Rightarrow> Inr 0
      | Inl e \<Rightarrow> Inl e)"

definition seed :: "FsQuotaStore \<Rightarrow> QuotaUsage" where
  "seed self = \<lparr>qu_used_bytes = 0, qu_limit_bytes = qs_default_limit self\<rparr>"

definition current :: "'d fs_ops \<Rightarrow> codec \<Rightarrow> FsQuotaStore \<Rightarrow> 'd \<Rightarrow> string \<Rightarrow> QuotaUsage" where
  "current D J self d pod = (case effective D J self d pod of Inr u \<Rightarrow> u | Inl _ \<Rightarrow> seed self)"

definition quota_check :: "'d fs_ops \<Rightarrow> codec \<Rightarrow> FsQuotaStore \<Rightarrow> 'd \<Rightarrow> string \<Rightarrow> u64 \<Rightarrow> QuotaExceeded + unit" where
  "quota_check D J self d pod delta =
     (if delta = 0 then Inr ()
      else (let u = current D J self d pod in
        if qu_limit_bytes u = 0 then Inr ()
        else if sat_add (qu_used_bytes u) delta > qu_limit_bytes u
        then Inl \<lparr>qe_pod = pod, qe_used = qu_used_bytes u, qe_limit = qu_limit_bytes u\<rparr>
        else Inr ()))"

text \<open>The signed delta is a 64-bit word read by its sign.\<close>

definition quota_record :: "'d fs_ops \<Rightarrow> codec \<Rightarrow> FsQuotaStore \<Rightarrow> string \<Rightarrow> 'd \<Rightarrow> string \<Rightarrow> u64 \<Rightarrow> 'd" where
  "quota_record D J self stamp d pod delta =
     (let u = current D J self d pod;
          new_used = (if sint delta \<ge> 0 then sat_add (qu_used_bytes u) delta else sat_sub (qu_used_bytes u) (- delta))
      in fst (write_sidecar D J self stamp d pod \<lparr>qu_used_bytes = new_used, qu_limit_bytes = qu_limit_bytes u\<rparr>))"

definition quota_reconcile :: "'d fs_ops \<Rightarrow> codec \<Rightarrow> FsQuotaStore \<Rightarrow> string \<Rightarrow> 'd \<Rightarrow> string \<Rightarrow> 'd \<times> (io_error + QuotaUsage)" where
  "quota_reconcile D J self stamp d0 pod =
     (let d = fst (sweep_quota_orphans D self d0 pod) in
      try_with d (dir_size_boxed D d (pod_dir self pod)) (\<lambda>actual.
      try_with d (read_sidecar D J self d pod) (\<lambda>s.
        let lim = (case s of Some u \<Rightarrow> if qu_limit_bytes u > 0 then qu_limit_bytes u else qs_default_limit self
                   | None \<Rightarrow> qs_default_limit self);
            reconciled = \<lparr>qu_used_bytes = actual, qu_limit_bytes = lim\<rparr>
        in and_then (write_sidecar D J self stamp d pod reconciled) (\<lambda>d' _. (d', Inr reconciled)))))"

definition quota_usage :: "'d fs_ops \<Rightarrow> codec \<Rightarrow> FsQuotaStore \<Rightarrow> 'd \<Rightarrow> string \<Rightarrow> QuotaUsage option" where
  "quota_usage D J self d pod =
     (case read_sidecar D J self d pod of
        Inr (Some u) \<Rightarrow> Some (if qu_limit_bytes u = 0 then u\<lparr>qu_limit_bytes := qs_default_limit self\<rparr> else u)
      | _ \<Rightarrow> None)"

section \<open>The sidecar and its temporary file\<close>

lemma plain_quota: "plain_name QUOTA_FILE" "CHR ''/'' \<notin> set stamp \<Longrightarrow> plain_name (QUOTA_FILE @ ''.tmp-'' @ stamp)"
  by (simp_all add: plain_name_def QUOTA_FILE_def)

lemma tmp_file_join:
  "CHR ''/'' \<notin> set stamp \<Longrightarrow> tmp_file self stamp pod = path_join (path_join (qs_root self) pod) (QUOTA_FILE @ ''.tmp-'' @ stamp)"
  by (simp add: tmp_file_def quota_file_def path_join_def QUOTA_FILE_def)

lemma quota_file_path: "fs_path (quota_file self pod) = fs_path (pod_dir self pod) @ [QUOTA_FILE]"
  by (simp add: quota_file_def pod_dir_def path_join_plain plain_quota)

lemma tmp_file_path:
  "CHR ''/'' \<notin> set stamp \<Longrightarrow> fs_path (tmp_file self stamp pod) = fs_path (pod_dir self pod) @ [QUOTA_FILE @ ''.tmp-'' @ stamp]"
  unfolding tmp_file_join pod_dir_def by (rule path_join_plain(1)) (rule plain_quota)

lemma sidecar_apart:
  assumes "CHR ''/'' \<notin> set stamp"
  shows "apart (quota_file self pod) (tmp_file self stamp pod)"
  using tmp_file_path [OF assms, of self pod] by (simp add: apart_def quota_file_path prefix_def)

lemma quota_parent: "\<exists>p. path_parent (quota_file self pod) = Some p \<and> fs_path p = fs_path (pod_dir self pod)"
  using path_parent_join [OF plain_quota(1), of "pod_dir self pod"] by (simp add: quota_file_def pod_dir_def)

text \<open>What the client relies on of the codec.\<close>

locale quota_store = file_system D
  for D :: "'d fs_ops" +
  fixes J :: codec
  assumes codec: "from_slice J (to_vec_pretty J u) = Some u"
begin

lemma write_sidecar_read:
  assumes "CHR ''/'' \<notin> set stamp" "write_sidecar D J self stamp d pod u = (d', r)"
  shows "fo_read D d' (quota_file self pod) = (if is_ok r then Inr (to_vec_pretty J u) else fo_read D d (quota_file self pod))"
proof -
  let ?p = "quota_file self pod" and ?t = "tmp_file self stamp pod"
  note ap = sidecar_apart [OF assms(1), of self pod]
  obtain q where q: "path_parent ?p = Some q" "fs_path q = fs_path (pod_dir self pod)" using quota_parent by blast
  obtain d1 r1 where m: "fo_create_dir_all D d q = (d1, r1)" by force
  have "\<not> prefix (fs_path ?p) (fs_path q)" by (simp add: q quota_file_path prefix_def)
  then have s1: "fo_read D d1 ?p = fo_read D d ?p" using mkdir_other [of ?p q d] m by simp
  show ?thesis
  proof (cases r1)
    case (Inl e)
    then show ?thesis using assms(2) q m s1 by (auto simp: write_sidecar_def Let_def)
  next
    case (Inr x)
    obtain d2 r2 where w: "fo_write D d1 ?t (to_vec_pretty J u) = (d2, r2)" by force
    have s2: "fo_read D d2 ?p = fo_read D d ?p" using write_other [OF ap, of d1 "to_vec_pretty J u"] w s1 by simp
    have rm: "fo_read D (fst (fo_remove_file D d' ?t)) ?p = fo_read D d' ?p" for d' by (rule remove_other [OF ap])
    show ?thesis
    proof (cases r2)
      case (Inl e)
      then show ?thesis using assms(2) q m Inr w rm [of d2] s2 by (auto simp: write_sidecar_def Let_def)
    next
      case r2: (Inr y)
      obtain d3 r3 where n: "fo_rename D d2 ?t ?p = (d3, r3)" by force
      show ?thesis
      proof (cases r3)
        case (Inl e)
        then show ?thesis
          using assms(2) q m Inr w r2 n rm [of d3] s2 rename_fail [of d2 ?t ?p d3 e ?p] by (auto simp: write_sidecar_def Let_def)
      next
        case (Inr z)
        then have "fo_read D d3 ?p = Inr (to_vec_pretty J u)"
          using rename_ok [of d2 ?t ?p d3] write_same [of d1 ?t "to_vec_pretty J u" d2] w n r2 by simp
        then show ?thesis using assms(2) q m \<open>r1 = Inr x\<close> w r2 n Inr by (auto simp: write_sidecar_def Let_def)
      qed
    qed
  qed
qed

lemma write_sidecar_sidecar:
  assumes "CHR ''/'' \<notin> set stamp" "write_sidecar D J self stamp d pod u = (d', r)"
  shows "read_sidecar D J self d' pod = (if is_ok r then Inr (Some u) else read_sidecar D J self d pod)"
  using write_sidecar_read [OF assms] codec by (simp add: read_sidecar_def)

text \<open>The effective counters after a write to the sidecar.\<close>

lemma write_sidecar_current:
  assumes "CHR ''/'' \<notin> set stamp" "write_sidecar D J self stamp d pod u = (d', r)" "qu_limit_bytes u \<noteq> 0"
  shows "current D J self d' pod = (if is_ok r then u else current D J self d pod)"
  using write_sidecar_sidecar [OF assms(1,2)] assms(3) by (auto simp: current_def effective_def)

lemma current_limit: "qs_default_limit self \<noteq> 0 \<Longrightarrow> qu_limit_bytes (current D J self d pod) \<noteq> 0"
  by (cases "read_sidecar D J self d pod") (auto simp: current_def effective_def seed_def split: option.splits)

end

section \<open>Guarded writes\<close>

lemma sat_add_code [code]: "sat_add a b = (if a + b < a then - 1 else a + b)"
  using no_olen_add_nat [of a b] by (auto simp: sat_add_def not_less)

lemma sat_add_0 [simp]: "sat_add a 0 = a"
  using unsigned_less [of a, where 'a = nat] by (simp add: sat_add_def)

lemma sat_sub_below: "sat_sub a b \<le> a"
proof (cases "b \<le> a")
  case True
  then show ?thesis by (simp add: sat_sub_def word_sub_le)
qed (simp add: sat_sub_def)

text \<open>The filesystem while a read of it fails, for a reason other than a missing file. The store reads the
  sidecar once in each operation and never writes before it reads, so a fault that comes and goes is a
  fault of whole operations.\<close>

definition read_fault :: "bool \<Rightarrow> 'd fs_ops \<Rightarrow> 'd fs_ops" where
  "read_fault f D = (if f then D\<lparr>fo_tree := \<lambda>_ _. Inl IoOther\<rparr> else D)"

text \<open>A caller that follows the protocol: it checks before it records a write, and records deletions.
  The flags say whether the sidecar can be read in the check and in the record.\<close>

datatype quota_op = QWrite u64 bool bool | QDelete u64 bool

fun quota_step :: "'d fs_ops \<Rightarrow> codec \<Rightarrow> FsQuotaStore \<Rightarrow> string \<Rightarrow> string \<Rightarrow> 'd \<Rightarrow> quota_op \<Rightarrow> 'd" where
  "quota_step D J self stamp pod d (QWrite n check_fault record_fault) =
     (case quota_check (read_fault check_fault D) J self d pod n of Inl _ \<Rightarrow> d
      | Inr _ \<Rightarrow> quota_record (read_fault record_fault D) J self stamp d pod n)"
| "quota_step D J self stamp pod d (QDelete n record_fault) =
     (if sint n < 0 then quota_record (read_fault record_fault D) J self stamp d pod n else d)"

fun reads_agree :: "quota_op \<Rightarrow> bool" where
  "reads_agree (QWrite _ check_fault record_fault) \<longleftrightarrow> check_fault = record_fault"
| "reads_agree (QDelete _ _) \<longleftrightarrow> True"

fun reads_succeed :: "quota_op \<Rightarrow> bool" where
  "reads_succeed (QWrite _ check_fault record_fault) \<longleftrightarrow> \<not> check_fault \<and> \<not> record_fault"
| "reads_succeed (QDelete _ record_fault) \<longleftrightarrow> \<not> record_fault"

definition within_limit :: "QuotaUsage \<Rightarrow> bool" where
  "within_limit u \<longleftrightarrow> qu_used_bytes u \<le> qu_limit_bytes u"

definition charged :: "QuotaUsage \<Rightarrow> u64 \<Rightarrow> u64" where
  "charged u delta = (if sint delta \<ge> 0 then sat_add (qu_used_bytes u) delta else sat_sub (qu_used_bytes u) (- delta))"

lemma quota_record_alt:
  "quota_record D J self stamp d pod delta = fst (write_sidecar D J self stamp d pod
     \<lparr>qu_used_bytes = charged (current D J self d pod) delta, qu_limit_bytes = qu_limit_bytes (current D J self d pod)\<rparr>)"
  by (simp add: quota_record_def charged_def Let_def)

lemma check_admits:
  assumes "quota_check D J self d pod n = Inr ()" "within_limit (current D J self d pod)"
    and "qu_limit_bytes (current D J self d pod) \<noteq> 0"
  shows "charged (current D J self d pod) n \<le> qu_limit_bytes (current D J self d pod)"
proof (cases "n = 0")
  case True
  then show ?thesis using assms(2) by (simp add: charged_def within_limit_def)
next
  case False
  then have "sat_add (qu_used_bytes (current D J self d pod)) n \<le> qu_limit_bytes (current D J self d pod)"
    using assms(1,3) by (auto simp: quota_check_def Let_def not_less split: if_splits)
  then show ?thesis
    using assms(2) sat_sub_below [of "qu_used_bytes (current D J self d pod)" "- n"]
    by (auto simp: charged_def within_limit_def)
qed

lemma refund_within: "sint n < 0 \<Longrightarrow> within_limit u \<Longrightarrow> charged u n \<le> qu_limit_bytes u"
  using sat_sub_below [of "qu_used_bytes u" "- n"] by (auto simp: charged_def within_limit_def)

text \<open>An operation whose read fails takes the pod for empty, with the default limit.\<close>

lemma current_read_fault:
  "current (read_fault f D) J self d pod = (if f then seed self else current D J self d pod)"
  by (simp add: current_def effective_def read_sidecar_def fo_read_def read_fault_def)

lemma read_fault_writes:
  "fo_write (read_fault f D) = fo_write D" "fo_rename (read_fault f D) = fo_rename D"
  "fo_remove_file (read_fault f D) = fo_remove_file D" "fo_create_dir_all (read_fault f D) = fo_create_dir_all D"
  by (simp_all add: read_fault_def)

lemma write_sidecar_read_fault [simp]: "write_sidecar (read_fault f D) = write_sidecar D"
  by (intro ext) (unfold write_sidecar_def read_fault_writes, rule refl)

lemma check_read_fault:
  "quota_check (read_fault True D) J self d pod n = Inr () \<longleftrightarrow>
     n = 0 \<or> qs_default_limit self = 0 \<or> n \<le> qs_default_limit self"
proof -
  have "sat_add 0 n = n" using unsigned_less [of n, where 'a = nat] by (simp add: sat_add_def)
  then show ?thesis by (auto simp: quota_check_def current_read_fault seed_def Let_def not_less)
qed

lemma seed_within: "within_limit (seed self)" "qu_limit_bytes (seed self) = qs_default_limit self"
  by (simp_all add: seed_def within_limit_def)

context quota_store
begin

lemma record_current:
  assumes "CHR ''/'' \<notin> set stamp" "qs_default_limit self \<noteq> 0"
  shows "current D J self (quota_record (read_fault f D) J self stamp d pod n) pod \<in>
    {current D J self d pod,
     (let u = current (read_fault f D) J self d pod in
      \<lparr>qu_used_bytes = charged u n, qu_limit_bytes = qu_limit_bytes u\<rparr>)}"
proof -
  let ?u = "current (read_fault f D) J self d pod"
  have l: "qu_limit_bytes ?u \<noteq> 0"
    using current_limit [OF assms(2)] seed_within(2) [of self] assms(2) by (auto simp: current_read_fault)
  obtain d' r where "write_sidecar D J self stamp d pod
      \<lparr>qu_used_bytes = charged ?u n, qu_limit_bytes = qu_limit_bytes ?u\<rparr> = (d', r)" by force
  then show ?thesis
    using write_sidecar_current [OF assms(1)] l by (simp add: quota_record_alt Let_def)
qed

lemma step_charge:
  assumes "CHR ''/'' \<notin> set stamp" "qs_default_limit self \<noteq> 0" "within_limit u" "qu_limit_bytes u \<noteq> 0"
    and "current (read_fault f D) J self d pod = u" "charged u n \<le> qu_limit_bytes u" "within_limit (current D J self d pod)"
  shows "within_limit (current D J self (quota_record (read_fault f D) J self stamp d pod n) pod) \<and>
    (\<not> f \<longrightarrow> qu_limit_bytes (current D J self (quota_record (read_fault f D) J self stamp d pod n) pod) =
      qu_limit_bytes (current D J self d pod))"
  using record_current [OF assms(1,2), of f d pod n] assms(5-7)
  by (auto simp: within_limit_def Let_def current_read_fault split: if_splits)

lemma step_within:
  assumes "CHR ''/'' \<notin> set stamp" "qs_default_limit self \<noteq> 0" "within_limit (current D J self d pod)" "reads_agree op"
  shows "within_limit (current D J self (quota_step D J self stamp pod d op) pod) \<and>
    (reads_succeed op \<longrightarrow>
      qu_limit_bytes (current D J self (quota_step D J self stamp pod d op) pod) = qu_limit_bytes (current D J self d pod))"
proof -
  have u: "within_limit (current (read_fault f D) J self d pod)" "qu_limit_bytes (current (read_fault f D) J self d pod) \<noteq> 0" for f
    using assms(2,3) seed_within [of self] current_limit [OF assms(2)] by (auto simp: current_read_fault)
  show ?thesis
  proof (cases op)
    case (QWrite n f g)
    then have g: "g = f" using assms(4) by simp
    show ?thesis
    proof (cases "quota_check (read_fault f D) J self d pod n")
      case (Inr x)
      have step: "quota_step D J self stamp pod d op = quota_record (read_fault f D) J self stamp d pod n"
        using QWrite g Inr by simp
      show ?thesis
        unfolding step
        using step_charge [OF assms(1,2) u refl check_admits [OF _ u] assms(3), of f n] QWrite Inr by simp
    next
      case (Inl e)
      then have step: "quota_step D J self stamp pod d op = d" using QWrite by simp
      show ?thesis unfolding step using assms(3) by simp
    qed
  next
    case (QDelete n f)
    then show ?thesis
      using step_charge [OF assms(1,2) u refl refund_within [OF _ u(1)] assms(3)] assms(3) by simp
  qed
qed

lemma run_within:
  assumes "CHR ''/'' \<notin> set stamp" "qs_default_limit self \<noteq> 0" "within_limit (current D J self d pod)"
    and "list_all reads_agree ops"
  shows "within_limit (current D J self (foldl (quota_step D J self stamp pod) d ops) pod) \<and>
    (list_all reads_succeed ops \<longrightarrow>
      qu_limit_bytes (current D J self (foldl (quota_step D J self stamp pod) d ops) pod) = qu_limit_bytes (current D J self d pod))"
  using assms(3,4)
proof (induction ops arbitrary: d)
  case (Cons op ops)
  have st: "reads_agree op" using Cons.prems(2) by simp
  note st = step_within [OF assms(1,2) Cons.prems(1) st]
  show ?case using Cons.IH [OF conjunct1 [OF st]] Cons.prems(2) st by simp
qed simp

end

text \<open>A fault in the check alone breaks the guard, and one in both forgets what the pod holds.\<close>

lemma read_fault_exceeds:
  assumes "quota_store D J" "CHR ''/'' \<notin> set stamp" "qs_default_limit self \<noteq> 0"
    and "n \<le> qs_default_limit self" "sint n \<ge> 0" "current D J self d pod = u" "sat_add (qu_used_bytes u) n > qu_limit_bytes u"
    and "write_sidecar D J self stamp d pod (u\<lparr>qu_used_bytes := sat_add (qu_used_bytes u) n\<rparr>) = (d', Inr ())"
  shows "\<not> within_limit (current D J self (quota_step D J self stamp pod d (QWrite n True False)) pod)"
proof -
  have c: "quota_check (read_fault True D) J self d pod n = Inr ()" using assms(4) by (simp add: check_read_fault)
  have "qu_limit_bytes u \<noteq> 0" using quota_store.current_limit [OF assms(1,3), of d pod] assms(6) by simp
  then have "current D J self d' pod = u\<lparr>qu_used_bytes := sat_add (qu_used_bytes u) n\<rparr>"
    using quota_store.write_sidecar_current [OF assms(1,2,8)] by simp
  moreover have upd: "u\<lparr>qu_used_bytes := x\<rparr> = \<lparr>qu_used_bytes = x, qu_limit_bytes = qu_limit_bytes u\<rparr>" for x
    by simp
  have "quota_record D J self stamp d pod n = d'"
    using assms(5,8) unfolding upd quota_record_def Let_def assms(6) by simp
  then have "quota_step D J self stamp pod d (QWrite n True False) = d'"
    using c by (simp add: read_fault_def [of False])
  ultimately show ?thesis using assms(7) by (simp add: within_limit_def not_le)
qed

section \<open>Reconciliation\<close>

text \<open>The files of a tree with their paths, and the bytes of those the quota counts.\<close>

fun files_of :: "node \<Rightarrow> (string list \<times> bytes) list" where
  "files_of (File b _) = [([], b)]"
| "files_of (Dir es) = concat (map (\<lambda>e. map (\<lambda>(p, b). (fst e # p, b)) (files_of (snd e))) es)"

definition counted_bytes :: "node \<Rightarrow> nat" where
  "counted_bytes n = (\<Sum>(p, b) \<leftarrow> files_of n. if QUOTA_FILE \<in> set p then 0 else length b)"

definition cap64 :: "nat \<Rightarrow> nat" where
  "cap64 n = min n (2 ^ 64 - 1)"

lemma cap64_add: "cap64 (cap64 a + b) = cap64 (a + b)" "cap64 (a + cap64 b) = cap64 (a + b)"
  by (simp_all add: cap64_def min_def)

lemma counted_child:
  "(\<Sum>(p, b) \<leftarrow> map (\<lambda>(p, b). (c # p, b)) fs. if QUOTA_FILE \<in> set p then 0 else length b) =
     (if c = QUOTA_FILE then 0 else (\<Sum>(p, b) \<leftarrow> fs. if QUOTA_FILE \<in> set p then 0 else length b))"
  by (induction fs) auto

lemma counted_Dir: "counted_bytes (Dir es) = (\<Sum>e \<leftarrow> es. if fst e = QUOTA_FILE then 0 else counted_bytes (snd e))"
  unfolding counted_bytes_def by (induction es) (simp_all add: counted_child del: map_map)

text \<open>Files are at most \<open>u64::MAX\<close> bytes long.\<close>

fun small_files :: "node \<Rightarrow> bool" where
  "small_files (File b _) \<longleftrightarrow> length b < 2 ^ 64"
| "small_files (Dir es) \<longleftrightarrow> list_all (\<lambda>e. small_files (snd e)) es"

lemma node_size_counted: "small_files n \<Longrightarrow> unat (node_size n) = cap64 (counted_bytes n)"
proof (induction n rule: node_size.induct)
  case (1 b m)
  then show ?case by (simp add: counted_bytes_def cap64_def unat_of_nat)
next
  case (2 es)
  have "unat (foldl (\<lambda>acc e. if fst e = QUOTA_FILE then acc else sat_add acc (node_size (snd e))) a xs) =
      cap64 (unat a + (\<Sum>e \<leftarrow> xs. if fst e = QUOTA_FILE then 0 else counted_bytes (snd e)))"
    if "set xs \<subseteq> set es" for a xs
    using that
  proof (induction xs arbitrary: a)
    case Nil
    have "unat a < 2 ^ LENGTH(64)" by (rule unsigned_less)
    then show ?case by (simp add: cap64_def)
  next
    case (Cons e xs)
    have e: "unat (node_size (snd e)) = cap64 (counted_bytes (snd e))" if "fst e \<noteq> QUOTA_FILE"
      using 2(1) [of e] 2(2) Cons.prems that by (auto simp: list_all_iff)
    have "unat (sat_add a (node_size (snd e))) = cap64 (unat a + counted_bytes (snd e))" if "fst e \<noteq> QUOTA_FILE"
      using e [OF that] cap64_add(2) [of "unat a" "counted_bytes (snd e)"] by (simp add: sat_add_unat cap64_def)
    then show ?case
      using Cons by (cases "fst e = QUOTA_FILE") (simp_all add: cap64_add add.assoc)
  qed
  from this [of es 0] show ?case by (simp add: counted_Dir)
qed

context quota_store
begin

lemma sweep_loop_sidecar:
  assumes "\<forall>e \<in> set es. plain_name (fst e)" "fs_path dir = fs_path (pod_dir self pod)"
  shows "fo_read D (sweep_loop D dir es d) (quota_file self pod) = fo_read D d (quota_file self pod)"
  using assms(1)
proof (induction es arbitrary: d)
  case (Cons e es)
  obtain name n where e: "e = (name, n)" by force
  have "fo_read D (fst (fo_remove_file D d (path_join dir name))) (quota_file self pod) = fo_read D d (quota_file self pod)"
    if "is_orphan name"
  proof (rule remove_other)
    have "name \<noteq> QUOTA_FILE" using that by (auto simp: is_orphan_def QUOTA_FILE_def)
    then show "apart (quota_file self pod) (path_join dir name)"
      using Cons.prems e assms(2) by (simp add: apart_def path_join_plain quota_file_path prefix_def)
  qed
  then show ?case using Cons e by simp
qed simp

lemma sweep_sidecar:
  "read_sidecar D J self (fst (sweep_quota_orphans D self d pod)) pod = read_sidecar D J self d pod"
proof -
  obtain q where q: "path_parent (quota_file self pod) = Some q" "fs_path q = fs_path (pod_dir self pod)" using quota_parent by blast
  have "fo_read D (fst (sweep_quota_orphans D self d pod)) (quota_file self pod) = fo_read D d (quota_file self pod)"
  proof (cases "fo_read_dir D d q")
    case (Inl e)
    then show ?thesis by (cases e) (simp_all add: sweep_quota_orphans_def q)
  next
    case (Inr es)
    then have "\<forall>e \<in> set es. plain_name (fst e)" by (intro ballI) (rule read_dir_plain)
    then show ?thesis using sweep_loop_sidecar [OF _ q(2)] Inr by (simp add: sweep_quota_orphans_def q)
  qed
  then show ?thesis by (simp add: read_sidecar_def)
qed

definition kept_limit :: "FsQuotaStore \<Rightarrow> 'd \<Rightarrow> string \<Rightarrow> u64" where
  "kept_limit self d pod = (case read_sidecar D J self d pod of
     Inr (Some u) \<Rightarrow> if qu_limit_bytes u > 0 then qu_limit_bytes u else qs_default_limit self
   | _ \<Rightarrow> qs_default_limit self)"

lemma reconcile_result:
  assumes "CHR ''/'' \<notin> set stamp" "quota_reconcile D J self stamp d pod = (d', r)"
  shows "case r of
     Inl _ \<Rightarrow> read_sidecar D J self d' pod = read_sidecar D J self d pod
   | Inr u \<Rightarrow> read_sidecar D J self d' pod = Inr (Some u) \<and> qu_limit_bytes u = kept_limit self d pod \<and>
       dir_size_boxed D (fst (sweep_quota_orphans D self d pod)) (pod_dir self pod) = Inr (qu_used_bytes u)"
proof -
  let ?d = "fst (sweep_quota_orphans D self d pod)"
  show ?thesis
  proof (cases "dir_size_boxed D ?d (pod_dir self pod)")
    case (Inl e)
    then show ?thesis using assms(2) sweep_sidecar by (auto simp: quota_reconcile_def Let_def)
  next
    case size: (Inr n)
    show ?thesis
    proof (cases "read_sidecar D J self ?d pod")
      case (Inl e)
      then show ?thesis using assms(2) size sweep_sidecar by (auto simp: quota_reconcile_def Let_def)
    next
      case (Inr sc)
      let ?u = "\<lparr>qu_used_bytes = n, qu_limit_bytes = kept_limit self d pod\<rparr>"
      obtain d2 r2 where w: "write_sidecar D J self stamp ?d pod ?u = (d2, r2)" by force
      have "quota_reconcile D J self stamp d pod = and_then (d2, r2) (\<lambda>d' _. (d', Inr ?u))"
        using Inr size w sweep_sidecar [of self d pod]
        by (cases sc) (auto simp: quota_reconcile_def Let_def kept_limit_def)
      then show ?thesis
        using assms(2) write_sidecar_sidecar [OF assms(1) w] sweep_sidecar [of self d pod] size
        by (cases r2) auto
    qed
  qed
qed

end

section \<open>A codec\<close>

text \<open>Decimal counters with a comma in between, to instantiate the parameter.\<close>

definition comma_codec :: codec where
  "comma_codec = \<lparr>to_vec_pretty = (\<lambda>u. show_nat (unat (qu_used_bytes u)) @ '','' @ show_nat (unat (qu_limit_bytes u))),
     from_slice = (\<lambda>bs. case split_once (CHR '','') bs of None \<Rightarrow> None
       | Some (a, b) \<Rightarrow> (case (parse_digits 0 a, parse_digits 0 b) of
           (Some x, Some y) \<Rightarrow> Some \<lparr>qu_used_bytes = of_nat x, qu_limit_bytes = of_nat y\<rparr> | _ \<Rightarrow> None))\<rparr>"

lemma comma_not_in_show: "CHR '','' \<notin> set (show_nat n)"
  using show_nat_digits [of n] by (auto simp: list_all_iff ascii_digit_def)

interpretation comma: quota_store disk_ops comma_codec
  by unfold_locales (simp add: comma_codec_def comma_not_in_show parse_digits_show)

section \<open>Properties\<close>

text \<open>C20: A caller that checks before it records never drives a pod over its limit: in every run of
  guarded writes and recorded deletions, over any filesystem, whatever writes, renames, removals and
  directory creations fail on the way, the usage in force stays within the limit, as long as for each
  write the sidecar can be read in both the check and the record or in neither; and if every read
  succeeds the limit stays the same. (A fault in the check alone does break the guard, see
  \<open>read_fault_exceeds\<close>.)\<close>

theorem quota_never_exceeded:
  assumes "quota_store D J" "CHR ''/'' \<notin> set stamp" "qs_default_limit self \<noteq> 0"
    and "within_limit (current D J self d pod)" "list_all reads_agree ops"
  shows "within_limit (current D J self (foldl (quota_step D J self stamp pod) d ops) pod) \<and>
    (list_all reads_succeed ops \<longrightarrow>
      qu_limit_bytes (current D J self (foldl (quota_step D J self stamp pod) d ops) pod) =
      qu_limit_bytes (current D J self d pod))"
  by (rule quota_store.run_within [OF assms])

theorem quota_never_exceeded_witness:
  "within_limit (current disk_ops comma_codec \<lparr>qs_root = ''/r'', qs_default_limit = 10\<rparr>
     (foldl (quota_step disk_ops comma_codec \<lparr>qs_root = ''/r'', qs_default_limit = 10\<rparr> ''7-7'' ''pod'')
       \<lparr>dk_root = Dir [], dk_now = 0, dk_faults = [None, None, Some 3]\<rparr>
       [QWrite 8 False False, QWrite 2 False False, QWrite 1 True True, QDelete (- 4) True]) ''pod'')"
proof -
  let ?s = "\<lparr>qs_root = ''/r'', qs_default_limit = 10 :: u64\<rparr>" and ?d = "\<lparr>dk_root = Dir [], dk_now = 0, dk_faults = [None, None, Some 3]\<rparr>"
  have "fo_read disk_ops ?d (quota_file ?s ''pod'') = Inl IoNotFound" by code_simp
  then have "within_limit (current disk_ops comma_codec ?s ?d ''pod'')"
    by (simp add: current_def effective_def read_sidecar_def within_limit_def)
  then show ?thesis
    by (intro conjunct1 [OF quota_never_exceeded [OF comma.quota_store_axioms]]) simp_all
qed

text \<open>Reconciliation is all or nothing and reports the truth. When it fails, at whatever step, the
  sidecar reads as before; when it succeeds, the usage read back is the one returned, its limit is the
  one that was in force, and its count is the bytes of the files in the pod's directory, less the quota
  files themselves, capped at the largest 64-bit number.\<close>

theorem quota_reconcile_truth:
  assumes "quota_store D J" "CHR ''/'' \<notin> set stamp" "quota_reconcile D J self stamp d pod = (d', r)"
    and "fo_read_dir D (fst (sweep_quota_orphans D self d pod)) (pod_dir self pod) = Inr es" "small_files (Dir es)"
  shows "case r of
     Inl _ \<Rightarrow> read_sidecar D J self d' pod = read_sidecar D J self d pod
   | Inr u \<Rightarrow> quota_usage D J self d' pod = Some u \<and> unat (qu_used_bytes u) = cap64 (counted_bytes (Dir es)) \<and>
       (\<forall>v. quota_usage D J self d pod = Some v \<longrightarrow> qu_limit_bytes u = qu_limit_bytes v)"
proof (cases r)
  case (Inr u)
  note res = quota_store.reconcile_result [OF assms(1-3), unfolded Inr, simplified]
  have "qu_used_bytes u = node_size (Dir es)" using res assms(4) by (simp add: dir_size_boxed_def del: node_size.simps)
  then have "unat (qu_used_bytes u) = cap64 (counted_bytes (Dir es))" using node_size_counted [OF assms(5)] by simp
  moreover have "qu_limit_bytes u = 0 \<Longrightarrow> qs_default_limit self = 0"
    using res quota_store.kept_limit_def [OF assms(1), of self d pod] by (auto split: sum.splits option.splits if_splits)
  moreover have "qu_limit_bytes u = qu_limit_bytes v" if "quota_usage D J self d pod = Some v" for v
    using that res quota_store.kept_limit_def [OF assms(1), of self d pod]
    by (auto simp: quota_usage_def word_gt_0 split: sum.splits option.splits if_splits)
  ultimately show ?thesis using res Inr by (auto simp: quota_usage_def)
qed (use quota_store.reconcile_result [OF assms(1-3)] in simp)

definition sample_pod :: disk where
  "sample_pod = \<lparr>dk_root = Dir [(''r'', Dir [(''p'', Dir [(''a'', File ''hello'' 0), (''.quota.json.tmp-1'', File ''{'' 0)])])],
     dk_now = 0, dk_faults = []\<rparr>"

definition sample_store :: FsQuotaStore where
  "sample_store = \<lparr>qs_root = ''/r'', qs_default_limit = 10\<rparr>"

theorem quota_reconcile_truth_witness:
  "snd (quota_reconcile disk_ops comma_codec sample_store ''7'' sample_pod ''p'') = Inr \<lparr>qu_used_bytes = 5, qu_limit_bytes = 10\<rparr> \<and>
   quota_usage disk_ops comma_codec sample_store
     (fst (quota_reconcile disk_ops comma_codec sample_store ''7'' sample_pod ''p'')) ''p'' = Some \<lparr>qu_used_bytes = 5, qu_limit_bytes = 10\<rparr>"
proof -
  have r: "snd (quota_reconcile disk_ops comma_codec sample_store ''7'' sample_pod ''p'') = Inr \<lparr>qu_used_bytes = 5, qu_limit_bytes = 10\<rparr>"
    by code_simp
  have es: "fo_read_dir disk_ops (fst (sweep_quota_orphans disk_ops sample_store sample_pod ''p'')) (pod_dir sample_store ''p'') =
      Inr [(''a'', File ''hello'' 0)]" by code_simp
  show ?thesis
    using quota_reconcile_truth [OF comma.quota_store_axioms _ prod.collapse [symmetric] es, of "''7''"] r by simp
qed

end
