(* ===== verification/Fs_Backend.thy ===== *)
theory Fs_Backend
  imports File_System Storage Ldp_Http
begin

text \<open>
  The filesystem backend (\<open>storage/fs.rs\<close>) over the filesystem interface. A resource is a file below the
  root, and a second file with the suffix \<open>.meta.json\<close> holds its media type. The hash, the clock and the
  JSON codec of the sidecar are parameters. File names are UTF-8. The watcher (\<open>notify\<close>) is not modelled.
\<close>

section \<open>Model\<close>

definition META_SUFFIX :: string where
  "META_SUFFIX = ''.meta.json''"

record MetaSidecar =
  ms_content_type :: string
  ms_links :: "string list"

record 'd fs_env =
  fe_fs :: "'d fs_ops"
  fe_sha :: "bytes \<Rightarrow> string"
  fe_now :: int
  fe_to_vec :: "MetaSidecar \<Rightarrow> bytes"
  fe_from_slice :: "bytes \<Rightarrow> MetaSidecar option"

record FsBackend =
  fb_root :: string

definition FsBackend_new :: "'d fs_env \<Rightarrow> 'd \<Rightarrow> string \<Rightarrow> 'd \<times> (PodError + FsBackend)" where
  "FsBackend_new E d root =
     (case fo_create_dir_all (fe_fs E) d root of
        (d', Inl _) \<Rightarrow> (d', Inl (Io []))
      | (d', Inr _) \<Rightarrow> (d', Inr \<lparr>fb_root = root\<rparr>))"

definition fs_normalize :: "string \<Rightarrow> PodError + string" where
  "fs_normalize path =
     (let p = (if path = [] then ''/'' else if starts_with ''/'' path then path else ''/'' @ path) in
      if contains_sub ''..'' p \<or> CHR 0x00 \<in> set p then Inl (InvalidPath p) else Inr p)"

text \<open>\<open>Path::starts_with\<close> compares whole components, without looking at the disk.\<close>

definition lex_components :: "string \<Rightarrow> string list" where
  "lex_components s = filter (\<lambda>c. c \<noteq> [] \<and> c \<noteq> ''.'') (split_on (CHR ''/'') s)"

definition path_starts_with :: "string \<Rightarrow> string \<Rightarrow> bool" where
  "path_starts_with full base \<longleftrightarrow>
     (starts_with ''/'' full = starts_with ''/'' base) \<and> prefix (lex_components base) (lex_components full)"

definition fs_resolve :: "FsBackend \<Rightarrow> string \<Rightarrow> PodError + string" where
  "fs_resolve self path =
     rbind (fs_normalize path) (\<lambda>norm.
       let rel = trim_start_matches (CHR ''/'') norm;
           full = path_join (fb_root self) rel in
       if \<not> path_starts_with full (fb_root self) then Inl (InvalidPath norm) else Inr full)"

definition meta_path :: "string \<Rightarrow> string" where
  "meta_path data_path = data_path @ META_SUFFIX"

definition read_meta :: "'d fs_env \<Rightarrow> FsBackend \<Rightarrow> 'd \<Rightarrow> string \<Rightarrow> u64 \<Rightarrow> string \<Rightarrow> int \<Rightarrow> PodError + ResourceMeta" where
  "read_meta E self d path body_len etag modified =
     rbind (fs_resolve self path) (\<lambda>data_path.
       let fallback_ct = unwrap_or (infer_dotfile_content_type path) ''application/octet-stream'';
           fallback = \<lparr>ms_content_type = fallback_ct, ms_links = []\<rparr>;
           sidecar = (case fo_read (fe_fs E) d (meta_path data_path) of
               Inr bs \<Rightarrow> unwrap_or (fe_from_slice E bs) fallback
             | Inl _ \<Rightarrow> fallback) in
       Inr \<lparr>rm_etag = etag, rm_modified = modified, rm_size = body_len,
         rm_content_type = ms_content_type sidecar, rm_links = ms_links sidecar\<rparr>)"

definition modified_of :: "'d fs_env \<Rightarrow> int \<Rightarrow> int" where
  "modified_of E mtime = (if mtime \<ge> 0 then mtime else fe_now E)"

definition fs_get :: "'d fs_env \<Rightarrow> FsBackend \<Rightarrow> 'd \<Rightarrow> string \<Rightarrow> PodError + (bytes \<times> ResourceMeta)" where
  "fs_get E self d path =
     rbind (fs_resolve self path) (\<lambda>data_path.
       case fo_file (fe_fs E) d data_path of
         Inl IoNotFound \<Rightarrow> Inl (NotFound path)
       | Inl _ \<Rightarrow> Inl (Io [])
       | Inr (body, mtime) \<Rightarrow>
           rbind (read_meta E self d path (of_nat (length body)) (fe_sha E body) (modified_of E mtime))
             (\<lambda>m. Inr (body, m)))"

definition fs_put :: "'d fs_env \<Rightarrow> FsBackend \<Rightarrow> 'd \<Rightarrow> string \<Rightarrow> bytes \<Rightarrow> string \<Rightarrow> 'd \<times> (PodError + ResourceMeta)" where
  "fs_put E self d path body content_type =
     try_with d (fs_resolve self path) (\<lambda>data_path.
       let io = (\<lambda>dr :: 'd \<times> (io_error + unit). map_prod id (map_sum (\<lambda>_. Io []) id) dr);
           sidecar = \<lparr>ms_content_type = content_type, ms_links = []\<rparr> in
       and_then (case path_parent data_path of Some parent \<Rightarrow> io (fo_create_dir_all (fe_fs E) d parent) | None \<Rightarrow> (d, Inr ())) (\<lambda>d1 _.
       and_then (io (fo_write (fe_fs E) d1 data_path body)) (\<lambda>d2 _.
       and_then (io (fo_write (fe_fs E) d2 (meta_path data_path) (fe_to_vec E sidecar))) (\<lambda>d3 _.
         (d3, Inr \<lparr>rm_etag = fe_sha E body, rm_modified = fe_now E, rm_size = of_nat (length body),
            rm_content_type = content_type, rm_links = []\<rparr>)))))"

definition fs_delete :: "'d fs_env \<Rightarrow> FsBackend \<Rightarrow> 'd \<Rightarrow> string \<Rightarrow> 'd \<times> (PodError + unit)" where
  "fs_delete E self d path =
     try_with d (fs_resolve self path) (\<lambda>data_path.
       case fo_remove_file (fe_fs E) d data_path of
         (d1, Inl IoNotFound) \<Rightarrow> (d1, Inl (NotFound path))
       | (d1, Inl _) \<Rightarrow> (d1, Inl (Io []))
       | (d1, Inr _) \<Rightarrow> (fst (fo_remove_file (fe_fs E) d1 (meta_path data_path)), Inr ()))"

definition entry_name :: "string \<times> node \<Rightarrow> string" where
  "entry_name e = (case snd e of Dir _ \<Rightarrow> fst e @ ''/'' | File _ _ \<Rightarrow> fst e)"

definition fs_list :: "'d fs_env \<Rightarrow> FsBackend \<Rightarrow> 'd \<Rightarrow> string \<Rightarrow> PodError + string list" where
  "fs_list E self d container =
     rbind (fs_resolve self container) (\<lambda>container_path.
       case fo_read_dir (fe_fs E) d container_path of
         Inl IoNotFound \<Rightarrow> Inr []
       | Inl _ \<Rightarrow> Inl (Io [])
       | Inr es \<Rightarrow> Inr (sort (map entry_name (filter (\<lambda>e. \<not> ends_with META_SUFFIX (fst e)) es))))"

definition fs_head :: "'d fs_env \<Rightarrow> FsBackend \<Rightarrow> 'd \<Rightarrow> string \<Rightarrow> PodError + ResourceMeta" where
  "fs_head E self d path =
     rbind (fs_resolve self path) (\<lambda>data_path.
       case fo_tree (fe_fs E) d data_path of
         Inl IoNotFound \<Rightarrow> Inl (NotFound path)
       | Inl _ \<Rightarrow> Inl (Io [])
       | Inr (Dir _) \<Rightarrow> Inl (Io [])
       | Inr (File body mtime) \<Rightarrow>
           read_meta E self d path (of_nat (length body)) (fe_sha E body) (modified_of E mtime))"

definition fs_exists :: "'d fs_env \<Rightarrow> FsBackend \<Rightarrow> 'd \<Rightarrow> string \<Rightarrow> PodError + bool" where
  "fs_exists E self d path =
     rbind (fs_resolve self path) (\<lambda>data_path.
       Inr (case fo_exists (fe_fs E) d data_path of Inr b \<Rightarrow> b | Inl _ \<Rightarrow> False))"

definition fs_backend_ops :: "'d fs_env \<Rightarrow> FsBackend \<Rightarrow> 'd storage_ops" where
  "fs_backend_ops E self = \<lparr>s_get = fs_get E self, s_put = fs_put E self, s_delete = fs_delete E self,
     s_list = fs_list E self, s_head = fs_head E self, s_exists = fs_exists E self\<rparr>"

section \<open>Containment\<close>

lemma path_walk_plain:
  "''..'' \<notin> set cs \<Longrightarrow> path_walk acc cs = acc @ filter (\<lambda>c. c \<noteq> [] \<and> c \<noteq> ''.'') cs"
  by (induction acc cs rule: path_walk.induct) auto

lemma join_part: "w \<in> set ws \<Longrightarrow> \<exists>a b. join sep ws = a @ w @ b"
proof (induction sep ws rule: join.induct)
  case (3 sep v u ws)
  show ?case
  proof (cases "w = v")
    case False
    then obtain a b where "join sep (u # ws) = a @ w @ b" using 3 by auto
    then have "join sep (v # u # ws) = (v @ sep @ a) @ w @ b" by simp
    then show ?thesis by blast
  qed (auto intro: exI [of _ "[]"])
qed (auto intro: exI [of _ "[]"])

lemma split_part: "w \<in> set (split_on c s) \<Longrightarrow> contains_sub w s"
  using join_part [of w "split_on c s" "[c]"] by (simp add: join_split_on contains_sub_iff)

lemma contains_sub_suffix: "contains_sub p b \<Longrightarrow> contains_sub p (a @ b)"
  by (auto simp: contains_sub_iff) (metis append_assoc)

lemma dropWhile_suffix: "\<exists>a. s = a @ dropWhile P s"
  using takeWhile_dropWhile_id [of P s] by metis

lemma dropWhile_not_hd: "\<not> starts_with [c] (dropWhile ((=) c) s)"
  by (induction s) auto

lemma split_on_sep: "split_on c (r @ c # s) = split_on c r @ split_on c s"
  by (induction r) (auto split: list.splits)

text \<open>A path without dot-dot, joined below a root, stays below it.\<close>

lemma fs_path_join_below:
  assumes "\<not> contains_sub ''..'' rel" "\<not> starts_with ''/'' rel"
  shows "fs_path (path_join root rel) = fs_path root @ lex_components rel"
proof -
  have rel: "path_walk acc (split_on (CHR ''/'') rel) = acc @ lex_components rel" for acc
    unfolding lex_components_def using split_part [of "''..''" "CHR ''/''" rel] assms(1) by (intro path_walk_plain) blast
  have slash: "fs_path (r @ ''/'' @ rel) = fs_path r @ lex_components rel" for r
  proof -
    show ?thesis by (simp add: fs_path_def path_walk_append rel split_on_sep)
  qed
  show ?thesis
  proof (cases "root = []")
    case True
    then show ?thesis using assms(2) rel by (simp add: path_join_def fs_path_def)
  next
    case False
    then show ?thesis
      using assms(2) slash by (auto simp: path_join_def ends_with_iff)
  qed
qed

lemma fs_normalize_Inr: "fs_normalize path = Inr p \<longleftrightarrow>
    p = (if path = [] then ''/'' else if starts_with ''/'' path then path else ''/'' @ path) \<and> \<not> contains_sub ''..'' p \<and> CHR 0x00 \<notin> set p"
  unfolding fs_normalize_def Let_def by (auto split: if_split_asm simp del: starts_with_simps)

lemma lex_components_slash: "lex_components (CHR ''/'' # s) = lex_components s"
  by (simp add: lex_components_def)

lemma lex_components_trim: "lex_components (dropWhile ((=) (CHR ''/'')) s) = lex_components s"
  by (induction s) (auto simp: lex_components_slash)

lemma path_join_starts: "\<not> starts_with ''/'' rel \<Longrightarrow> path_starts_with (path_join root rel) root"
proof -
  assume rel: "\<not> starts_with ''/'' rel"
  have lex: "lex_components (r @ CHR ''/'' # s) = lex_components r @ lex_components s" for r s
    by (simp add: lex_components_def split_on_sep)
  consider "root = []" | t where "root = t @ ''/''" | "root \<noteq> []" "\<not> ends_with ''/'' root" by (auto simp: ends_with_iff)
  then show ?thesis
  proof cases
    case 1
    then show ?thesis using rel by (simp add: path_join_def path_starts_with_def lex_components_def)
  next
    case 2
    then have "starts_with ''/'' (root @ rel) = starts_with ''/'' root" by (cases t) auto
    then show ?thesis using 2 rel lex [of t "[]"] lex [of t rel]
      by (simp add: path_join_def path_starts_with_def) (simp add: lex_components_def)
  next
    case 3
    then have "starts_with ''/'' (root @ ''/'' @ rel) = starts_with ''/'' root" by (cases root) auto
    then show ?thesis using 3 rel lex by (simp add: path_join_def path_starts_with_def)
  qed
qed

lemma contains_dotdot_slash: "contains_sub ''..'' (CHR ''/'' # s) \<longleftrightarrow> contains_sub ''..'' s"
  by (auto simp: contains_sub_iff Cons_eq_append_conv)

lemma fs_resolve_ok: "is_ok (fs_resolve self path) \<longleftrightarrow> \<not> contains_sub ''..'' path \<and> CHR 0x00 \<notin> set path"
proof -
  let ?p = "if path = [] then ''/'' else if starts_with ''/'' path then path else ''/'' @ path"
  have p: "contains_sub ''..'' ?p = contains_sub ''..'' path" "CHR 0x00 \<in> set ?p \<longleftrightarrow> CHR 0x00 \<in> set path"
    using contains_dotdot_slash [of path] contains_dotdot_slash [of "[]"] by simp_all
  have "path_starts_with (path_join (fb_root self) (trim_start_matches (CHR ''/'') s)) (fb_root self)" for s
    unfolding trim_start_matches_def by (rule path_join_starts [OF dropWhile_not_hd])
  then show ?thesis unfolding fs_resolve_def fs_normalize_def Let_def p by simp
qed

lemma fs_resolve_Inr:
  assumes "fs_resolve self path = Inr full"
  shows "fs_path full = fs_path (fb_root self) @ lex_components path" "\<not> contains_sub ''..'' path" "CHR 0x00 \<notin> set path"
    and "full = path_join (fb_root self) (trim_start_matches (CHR ''/'') path)"
proof -
  obtain norm where n: "fs_normalize path = Inr norm" "full = path_join (fb_root self) (trim_start_matches (CHR ''/'') norm)"
    using assms by (auto simp: fs_resolve_def Let_def rbind_Inr_conv split: if_splits)
  have norm: "norm = path \<or> norm = ''/'' @ path" "\<not> contains_sub ''..'' norm" "CHR 0x00 \<notin> set norm"
    using n(1) unfolding fs_normalize_Inr by (auto split: if_splits simp del: starts_with_simps)
  have t: "trim_start_matches (CHR ''/'') norm = trim_start_matches (CHR ''/'') path"
    using norm(1) by (auto simp: trim_start_matches_def)
  show "\<not> contains_sub ''..'' path" using norm(1,2) contains_sub_suffix [of "''..''" path "''/''"] by metis
  show "CHR 0x00 \<notin> set path" using norm(1,3) by (elim disjE) simp_all
  show full: "full = path_join (fb_root self) (trim_start_matches (CHR ''/'') path)" using n(2) t by simp
  obtain a where "path = a @ trim_start_matches (CHR ''/'') path" using dropWhile_suffix unfolding trim_start_matches_def by blast
  then have "\<not> contains_sub ''..'' (trim_start_matches (CHR ''/'') path)"
    using \<open>\<not> contains_sub ''..'' path\<close> contains_sub_suffix by metis
  moreover have "\<not> starts_with ''/'' (trim_start_matches (CHR ''/'') path)"
    unfolding trim_start_matches_def by (rule dropWhile_not_hd)
  ultimately show "fs_path full = fs_path (fb_root self) @ lex_components path"
    using full lex_components_trim by (simp add: fs_path_join_below trim_start_matches_def)
qed

section \<open>The contract on resource paths\<close>

text \<open>A path names a resource when its last component is a file name.\<close>

definition resource_path :: "string \<Rightarrow> bool" where
  "resource_path path \<longleftrightarrow> plain_name (last (split_on (CHR ''/'') path))"

lemma split_on_butlast_last: "\<exists>a. s = a @ last (split_on c s) \<and> (a = [] \<or> last a = c)"
proof (induction s)
  case (Cons x xs)
  then obtain a where a: "xs = a @ last (split_on c xs)" "a = [] \<or> last a = c" by blast
  obtain w ws where w: "split_on c xs = w # ws" by (cases "split_on c xs") auto
  show ?case
  proof (cases "x = c")
    case True
    then show ?thesis using a w by (intro exI [of _ "c # a"]) auto
  next
    case False
    show ?thesis
    proof (cases ws)
      case Nil
      then have "xs = w" using join_split_on [of c xs] w by simp
      then show ?thesis using False w Nil by (intro exI [of _ "[]"]) simp
    next
      case (Cons v vs)
      then have "a \<noteq> []"
      proof -
        have "c \<in> set xs" using w Cons split_on_no_sep [of c xs] by auto
        moreover have "c \<notin> set (last (split_on c xs))" by (rule split_on_elem [of _ _ xs]) simp
        ultimately show ?thesis using a(1) by auto
      qed
      then show ?thesis using False w Cons a by (intro exI [of _ "x # a"]) auto
    qed
  qed
qed simp

lemma path_join_flat:
  "plain_name n \<Longrightarrow> x = [] \<or> last x = CHR ''/'' \<Longrightarrow> path_join x n = x @ n"
proof -
  assume n: "plain_name n" and x: "x = [] \<or> last x = CHR ''/''"
  have "\<not> starts_with ''/'' n" using n by (auto simp: plain_name_def starts_with_iff)
  moreover have "x = [] \<or> ends_with ''/'' x"
    using x by (cases x rule: rev_cases) auto
  ultimately show ?thesis by (auto simp: path_join_def)
qed

lemma plain_meta: "plain_name n \<Longrightarrow> plain_name (n @ META_SUFFIX)"
proof -
  assume n: "plain_name n"
  have "n @ META_SUFFIX \<noteq> s" if "length s \<le> 2" for s
  proof
    assume eq: "n @ META_SUFFIX = s"
    show False using arg_cong [OF eq, of length] that by (simp add: META_SUFFIX_def)
  qed
  from this [of "[]"] this [of "''.''"] this [of "''..''"]
  have "n @ META_SUFFIX \<notin> {[], ''.'', ''..''}" by simp
  moreover have "CHR ''/'' \<notin> set META_SUFFIX" by (simp add: META_SUFFIX_def)
  ultimately show ?thesis using n by (simp add: plain_name_def del: append_is_Nil_conv)
qed

lemma dropWhile_append_stop: "n = [] \<or> \<not> P (hd n) \<Longrightarrow> dropWhile P (a @ n) = dropWhile P a @ n"
  by (induction a) (cases n, auto)

lemma dropWhile_last: "dropWhile P (xs @ [x]) = [] \<or> last (dropWhile P (xs @ [x])) = x"
  by (induction xs) auto

lemma resource_rel:
  assumes "resource_path path"
  shows "\<exists>a. trim_start_matches (CHR ''/'') path = a @ last (split_on (CHR ''/'') path) \<and> (a = [] \<or> last a = CHR ''/'')"
proof -
  let ?n = "last (split_on (CHR ''/'') path)"
  obtain a where a: "path = a @ ?n" "a = [] \<or> last a = CHR ''/''" using split_on_butlast_last by blast
  have n: "?n \<noteq> []" "CHR ''/'' \<notin> set ?n" using assms by (auto simp: resource_path_def plain_name_def)
  then have "hd ?n \<noteq> CHR ''/''" using hd_in_set by metis
  then have "dropWhile ((=) (CHR ''/'')) (a @ ?n) = dropWhile ((=) (CHR ''/'')) a @ ?n"
    by (intro dropWhile_append_stop) auto
  then have "dropWhile ((=) (CHR ''/'')) path = dropWhile ((=) (CHR ''/'')) a @ ?n" by (simp only: a(1) [symmetric])
  moreover have "dropWhile ((=) (CHR ''/'')) a = [] \<or> last (dropWhile ((=) (CHR ''/'')) a) = CHR ''/''"
  proof (cases a rule: rev_cases)
    case (snoc ys y)
    then show ?thesis using a(2) dropWhile_last [of "(=) (CHR ''/'')" ys y] by auto
  qed simp
  ultimately show ?thesis unfolding trim_start_matches_def by blast
qed

lemma data_path_split:
  assumes "fs_resolve self path = Inr full" "resource_path path"
  shows "\<exists>x n. plain_name n \<and> full = path_join x n \<and> meta_path full = path_join x (n @ META_SUFFIX)"
proof -
  let ?n = "last (split_on (CHR ''/'') path)" and ?root = "fb_root self"
  have n: "plain_name ?n" using assms(2) by (simp add: resource_path_def)
  obtain a where a: "trim_start_matches (CHR ''/'') path = a @ ?n" "a = [] \<or> last a = CHR ''/''"
    using resource_rel [OF assms(2)] by blast
  have "\<not> starts_with ''/'' (a @ ?n)" unfolding a(1) [symmetric] trim_start_matches_def by (rule dropWhile_not_hd)
  then have "\<exists>x. path_join ?root (a @ ?n) = x @ ?n \<and> (x = [] \<or> last x = CHR ''/'')"
    using a(2) by (auto simp: path_join_def ends_with_iff intro: exI [of _ a])
  then obtain x where x: "full = x @ ?n" "x = [] \<or> last x = CHR ''/''"
    using fs_resolve_Inr(4) [OF assms(1)] a(1) by auto
  have "full = path_join x ?n" "meta_path full = path_join x (?n @ META_SUFFIX)"
    using path_join_flat [OF n x(2)] path_join_flat [OF plain_meta [OF n] x(2)] x(1) by (simp_all add: meta_path_def)
  then show ?thesis using n by blast
qed

text \<open>The data file and its sidecar lie apart.\<close>

lemma data_meta_apart:
  assumes "fs_resolve self path = Inr full" "resource_path path"
  shows "apart full (meta_path full)" "apart (meta_path full) full"
    and "fs_path (meta_path full) = butlast (fs_path full) @ [last (fs_path full) @ META_SUFFIX]" "fs_path full \<noteq> []"
    and "\<exists>p. path_parent full = Some p \<and> fs_path p = butlast (fs_path full)"
proof -
  obtain x n where n: "plain_name n" "full = path_join x n" "meta_path full = path_join x (n @ META_SUFFIX)"
    using data_path_split [OF assms] by blast
  note p = path_join_plain(1) [OF n(1), of x] path_join_plain(1) [OF plain_meta [OF n(1)], of x]
  show "fs_path (meta_path full) = butlast (fs_path full) @ [last (fs_path full) @ META_SUFFIX]" "fs_path full \<noteq> []"
    unfolding n(3) unfolding n(2) p by simp_all
  show "apart full (meta_path full)" "apart (meta_path full) full"
    unfolding apart_def n(3) unfolding n(2) p by (simp_all add: prefix_def META_SUFFIX_def)
  show "\<exists>p. path_parent full = Some p \<and> fs_path p = butlast (fs_path full)"
    using path_parent_join [OF n(1), of x] unfolding n(2) p by simp
qed

text \<open>
  The files of a resource, below the root: its own and its sidecar. Two resources are unrelated when
  none of the files of one is, or contains, a file of the other.
\<close>

definition resource_files :: "string \<Rightarrow> string list list" where
  "resource_files path = (let cs = lex_components path in [cs, butlast cs @ [last cs @ META_SUFFIX]])"

definition unrelated :: "string \<Rightarrow> string \<Rightarrow> bool" where
  "unrelated p q \<longleftrightarrow> list_all (\<lambda>x. list_all (\<lambda>y. \<not> prefix x y \<and> \<not> prefix y x) (resource_files q)) (resource_files p)"

lemma lex_last_not_Nil: "resource_path path \<Longrightarrow> lex_components path \<noteq> []"
proof -
  assume "resource_path path"
  then have "last (split_on (CHR ''/'') path) \<in> set (lex_components path)"
    using last_in_set [of "split_on (CHR ''/'') path"] by (auto simp: resource_path_def plain_name_def lex_components_def)
  then show ?thesis by auto
qed

lemma resource_files_of:
  assumes "fs_resolve self path = Inr full" "resource_path path"
  shows "fs_path full = fs_path (fb_root self) @ resource_files path ! 0"
    and "fs_path (meta_path full) = fs_path (fb_root self) @ resource_files path ! 1"
  using fs_resolve_Inr(1) [OF assms(1)] data_meta_apart(3) [OF assms] lex_last_not_Nil [OF assms(2)]
  by (simp_all add: resource_files_def Let_def butlast_append)

lemma unrelated_apart:
  assumes "fs_resolve self p = Inr fp" "resource_path p" "fs_resolve self q = Inr fq" "resource_path q" "unrelated p q"
  shows "apart fq fp" "apart fq (meta_path fp)" "apart (meta_path fq) fp" "apart (meta_path fq) (meta_path fp)"
    and "\<not> prefix (fs_path fq) (butlast (fs_path fp))" "\<not> prefix (fs_path (meta_path fq)) (butlast (fs_path fp))"
proof -
  note f = resource_files_of [OF assms(1,2)] resource_files_of [OF assms(3,4)]
  have u: "\<not> prefix (resource_files p ! i) (resource_files q ! j)" "\<not> prefix (resource_files q ! j) (resource_files p ! i)"
    if "i < 2" "j < 2" for i j
    using assms(5) that unfolding unrelated_def list_all_length by (simp_all add: resource_files_def Let_def)
  show "apart fq fp" "apart fq (meta_path fp)" "apart (meta_path fq) fp" "apart (meta_path fq) (meta_path fp)"
    unfolding apart_def f using u by simp_all
  have "\<not> prefix (fs_path fq) (fs_path fp)" "\<not> prefix (fs_path (meta_path fq)) (fs_path fp)"
    unfolding f using u by simp_all
  then show "\<not> prefix (fs_path fq) (butlast (fs_path fp))" "\<not> prefix (fs_path (meta_path fq)) (butlast (fs_path fp))"
    using prefix_order.trans [OF _ prefixeq_butlast, of _ "fs_path fp"] by blast+
qed

text \<open>What the backend relies on of the sidecar codec.\<close>

locale fs_backend = file_system "fe_fs E"
  for E :: "'d fs_env" +
  assumes codec: "fe_from_slice E (fe_to_vec E sc) = Some sc"
begin

lemma put_steps:
  assumes "fs_put E self d path b ct = (d', Inr m)"
  obtains full d1 d2 where "fs_resolve self path = Inr full"
    and "d1 = (case path_parent full of Some p \<Rightarrow> fst (fo_create_dir_all (fe_fs E) d p) | None \<Rightarrow> d)"
    and "fo_write (fe_fs E) d1 full b = (d2, Inr ())"
    and "fo_write (fe_fs E) d2 (meta_path full) (fe_to_vec E \<lparr>ms_content_type = ct, ms_links = []\<rparr>) = (d', Inr ())"
    and "m = \<lparr>rm_etag = fe_sha E b, rm_modified = fe_now E, rm_size = of_nat (length b), rm_content_type = ct, rm_links = []\<rparr>"
proof -
  obtain full where full: "fs_resolve self path = Inr full"
    using assms by (cases "fs_resolve self path") (auto simp: fs_put_def)
  define r0 where "r0 = (case path_parent full of Some p \<Rightarrow> fo_create_dir_all (fe_fs E) d p | None \<Rightarrow> (d, Inr ()))"
  obtain d1 e1 where r0: "r0 = (d1, e1)" by force
  obtain d2 e2 where w1: "fo_write (fe_fs E) d1 full b = (d2, e2)" by force
  obtain d3 e3 where w2: "fo_write (fe_fs E) d2 (meta_path full) (fe_to_vec E \<lparr>ms_content_type = ct, ms_links = []\<rparr>) = (d3, e3)" by force
  have pre: "(case path_parent full of Some p \<Rightarrow> map_prod id (map_sum (\<lambda>_. Io []) id) (fo_create_dir_all (fe_fs E) d p) | None \<Rightarrow> (d, Inr ())) =
      (d1, map_sum (\<lambda>_. Io []) id e1)"
    using r0 unfolding r0_def by (auto split: option.splits)
  have e: "e1 = Inr () \<and> e2 = Inr () \<and> e3 = Inr () \<and> d3 = d' \<and>
      m = \<lparr>rm_etag = fe_sha E b, rm_modified = fe_now E, rm_size = of_nat (length b), rm_content_type = ct, rm_links = []\<rparr>"
    using assms by (cases e1; cases e2; cases e3) (simp_all add: fs_put_def full Let_def pre w1 w2)
  have "d1 = (case path_parent full of Some p \<Rightarrow> fst (fo_create_dir_all (fe_fs E) d p) | None \<Rightarrow> d)"
    using r0 unfolding r0_def by (auto split: option.splits)
  then show ?thesis using that [OF full _ _ _ conjunct2 [OF conjunct2 [OF conjunct2 [OF conjunct2 [OF e]]]]] w1 w2 e by auto
qed

lemma put_get:
  assumes "fs_put E self d path b ct = (d', Inr m)" "resource_path path"
  shows "\<exists>t. fs_get E self d' path = Inr (b, m\<lparr>rm_modified := t\<rparr>)"
proof -
  obtain full d1 d2 where s: "fs_resolve self path = Inr full" "fo_write (fe_fs E) d1 full b = (d2, Inr ())"
    "fo_write (fe_fs E) d2 (meta_path full) (fe_to_vec E \<lparr>ms_content_type = ct, ms_links = []\<rparr>) = (d', Inr ())"
    "m = \<lparr>rm_etag = fe_sha E b, rm_modified = fe_now E, rm_size = of_nat (length b), rm_content_type = ct, rm_links = []\<rparr>"
    using put_steps [OF assms(1)] by metis
  have "fo_read (fe_fs E) d' full = Inr b"
    using write_same [OF s(2)] write_other [OF data_meta_apart(1) [OF s(1) assms(2)], of d2] s(3) by (metis fst_conv)
  then obtain t where "fo_file (fe_fs E) d' full = Inr (b, t)"
    by (cases "fo_file (fe_fs E) d' full") (auto simp: fo_read_file)
  then show ?thesis using write_same [OF s(3)] s(1,4) codec by (auto simp: fs_get_def read_meta_def Let_def)
qed

lemma get_cong:
  assumes "\<And>full. fs_resolve self q = Inr full \<Longrightarrow>
    fo_file (fe_fs E) d' full = fo_file (fe_fs E) d full \<and> fo_file (fe_fs E) d' (meta_path full) = fo_file (fe_fs E) d (meta_path full)"
  shows "fs_get E self d' q = fs_get E self d q"
proof (cases "fs_resolve self q")
  case (Inr full)
  then have "read_meta E self d' q = read_meta E self d q"
    using assms [OF Inr] by (simp add: read_meta_def fo_read_file fun_eq_iff)
  then show ?thesis
    using assms [OF Inr] Inr by (cases "fo_file (fe_fs E) d full") (auto simp: fs_get_def)
qed (simp add: fs_get_def)

text \<open>Whatever the outcome of a put, the disk is one of three: with the directories made, with the body
  written as well, in full or in part, or with the sidecar written as well.\<close>

lemma put_states:
  assumes "fs_put E self d path b ct = (d', r)" "fs_resolve self path = Inr full"
  defines "d1 \<equiv> case path_parent full of Some p \<Rightarrow> fst (fo_create_dir_all (fe_fs E) d p) | None \<Rightarrow> d"
  defines "d2 \<equiv> fst (fo_write (fe_fs E) d1 full b)"
  defines "d3 \<equiv> fst (fo_write (fe_fs E) d2 (meta_path full) (fe_to_vec E \<lparr>ms_content_type = ct, ms_links = []\<rparr>))"
  shows "d' \<in> {d1, d2, d3}"
proof -
  define r0 where "r0 = (case path_parent full of Some p \<Rightarrow> fo_create_dir_all (fe_fs E) d p | None \<Rightarrow> (d, Inr ()))"
  obtain e1 where r0: "r0 = (d1, e1)" unfolding r0_def d1_def by (cases "path_parent full") (auto intro: prod.collapse [symmetric])
  obtain e2 where w1: "fo_write (fe_fs E) d1 full b = (d2, e2)" unfolding d2_def by (metis prod.collapse)
  obtain e3 where w2: "fo_write (fe_fs E) d2 (meta_path full) (fe_to_vec E \<lparr>ms_content_type = ct, ms_links = []\<rparr>) = (d3, e3)"
    unfolding d3_def by (metis prod.collapse)
  have pre: "(case path_parent full of Some p \<Rightarrow> map_prod id (map_sum (\<lambda>_. Io []) id) (fo_create_dir_all (fe_fs E) d p) | None \<Rightarrow> (d, Inr ())) =
      (d1, map_sum (\<lambda>_. Io []) id e1)"
    using r0 unfolding r0_def by (auto split: option.splits)
  show ?thesis
    using assms(1) by (cases e1; cases e2; cases e3) (auto simp add: fs_put_def assms(2) Let_def pre w1 w2)
qed

lemma put_get_other:
  assumes "fs_put E self d p b ct = (d', r)" "resource_path p" "resource_path q" "unrelated p q"
  shows "fs_get E self d' q = fs_get E self d q"
proof (rule get_cong)
  fix fq assume fq: "fs_resolve self q = Inr fq"
  show "fo_file (fe_fs E) d' fq = fo_file (fe_fs E) d fq \<and> fo_file (fe_fs E) d' (meta_path fq) = fo_file (fe_fs E) d (meta_path fq)"
  proof (cases "fs_resolve self p")
    case (Inl e)
    then show ?thesis using assms(1) by (simp add: fs_put_def)
  next
    case (Inr fp)
    define d1 where "d1 = (case path_parent fp of Some p \<Rightarrow> fst (fo_create_dir_all (fe_fs E) d p) | None \<Rightarrow> d)"
    define d2 where "d2 = fst (fo_write (fe_fs E) d1 fp b)"
    note st = put_states [OF assms(1) Inr, folded d1_def, folded d2_def]
    note ap = unrelated_apart [OF Inr assms(2) fq assms(3,4)]
    obtain par where par: "path_parent fp = Some par" "fs_path par = butlast (fs_path fp)"
      using data_meta_apart(5) [OF Inr assms(2)] by blast
    have "fo_file (fe_fs E) d' x = fo_file (fe_fs E) d x"
      if "apart x fp" "apart x (meta_path fp)" "\<not> prefix (fs_path x) (butlast (fs_path fp))" for x
    proof -
      have "fo_file (fe_fs E) d1 x = fo_file (fe_fs E) d x" using file_mkdir_other [of x par d] that(3) par d1_def by simp
      then show ?thesis
        using st file_write_other [OF that(1), of d1 b] file_write_other [OF that(2), of d2] unfolding d2_def by auto
    qed
    then show ?thesis using ap by simp
  qed
qed

lemma delete_fail_get:
  assumes "fs_delete E self d p = (d', Inl e)"
  shows "fs_get E self d' q = fs_get E self d q"
proof (cases "fs_resolve self p")
  case (Inr fp)
  then obtain e' where "fo_remove_file (fe_fs E) d fp = (d', Inl e')"
    using assms by (cases "fo_remove_file (fe_fs E) d fp") (auto simp: fs_delete_def split: sum.splits io_error.splits)
  then show ?thesis using file_remove_fail by (intro get_cong) simp
qed (use assms in \<open>simp add: fs_delete_def\<close>)

lemma delete_get:
  assumes "fs_delete E self d p = (d', Inr ())" "resource_path p"
  shows "fs_get E self d' p = Inl (NotFound p)"
    and "resource_path q \<Longrightarrow> unrelated p q \<Longrightarrow> fs_get E self d' q = fs_get E self d q"
proof -
  obtain fp where fp: "fs_resolve self p = Inr fp" using assms(1) by (cases "fs_resolve self p") (auto simp: fs_delete_def)
  obtain d1 where r: "fo_remove_file (fe_fs E) d fp = (d1, Inr ())" "d' = fst (fo_remove_file (fe_fs E) d1 (meta_path fp))"
    using assms(1) fp by (auto simp: fs_delete_def split: prod.splits sum.splits io_error.splits)
  have "fo_file (fe_fs E) d' fp = Inl IoNotFound"
    using file_remove [OF r(1)] file_remove_other [OF data_meta_apart(1) [OF fp assms(2)], of d1] r(2) by simp
  then show "fs_get E self d' p = Inl (NotFound p)" using fp by (simp add: fs_get_def)
  assume q: "resource_path q" "unrelated p q"
  show "fs_get E self d' q = fs_get E self d q"
  proof (rule get_cong)
    fix fq assume fq: "fs_resolve self q = Inr fq"
    note ap = unrelated_apart [OF fp assms(2) fq q]
    have "fo_file (fe_fs E) d' x = fo_file (fe_fs E) d x" if "apart x fp" "apart x (meta_path fp)" for x
      using file_remove_other [OF that(1), of d] file_remove_other [OF that(2), of d1] r by simp
    then show "fo_file (fe_fs E) d' fq = fo_file (fe_fs E) d fq \<and> fo_file (fe_fs E) d' (meta_path fq) = fo_file (fe_fs E) d (meta_path fq)"
      using ap by simp
  qed
qed

lemma head_is_get: "fs_head E self d p = map_sum id snd (fs_get E self d p)"
proof (cases "fs_resolve self p")
  case (Inr full)
  have "map_sum id snd (rbind x (\<lambda>m. Inr (b :: bytes, m))) = x" for b and x :: "PodError + ResourceMeta"
    by (cases x) simp_all
  then show ?thesis
    using Inr by (auto simp: fs_head_def fs_get_def fo_file_def split: sum.splits node.splits io_error.splits)
qed (simp add: fs_head_def fs_get_def)

lemma get_exists: "is_ok (fs_get E self d p) \<Longrightarrow> fs_exists E self d p = Inr True"
  by (cases "fs_resolve self p"; cases "fo_tree (fe_fs E) d (projr (fs_resolve self p))")
     (auto simp: fs_exists_def fs_get_def fo_file_def fo_exists_def split: io_error.splits)

text \<open>A put is not atomic: when only the write of the sidecar fails, the put reports an error and the
  body is the new one all the same.\<close>

lemma put_partial:
  assumes "fs_resolve self p = Inr full" "resource_path p"
    and "path_parent full = Some par" "fo_create_dir_all (fe_fs E) d par = (d1, Inr ())"
    and "fo_write (fe_fs E) d1 full b = (d2, Inr ())"
    and "fo_write (fe_fs E) d2 (meta_path full) (fe_to_vec E \<lparr>ms_content_type = ct, ms_links = []\<rparr>) = (d3, Inl e)"
  shows "fs_put E self d p b ct = (d3, Inl (Io [])) \<and> (\<exists>m. fs_get E self d3 p = Inr (b, m))"
proof
  show "fs_put E self d p b ct = (d3, Inl (Io []))"
    using assms by (simp add: fs_put_def Let_def)
  have "fo_read (fe_fs E) d3 full = Inr b"
    using write_same [OF assms(5)] write_other [OF data_meta_apart(1) [OF assms(1,2)], of d2] assms(6) by (metis fst_conv)
  then obtain t where "fo_file (fe_fs E) d3 full = Inr (b, t)"
    by (cases "fo_file (fe_fs E) d3 full") (auto simp: fo_read_file)
  then show "\<exists>m. fs_get E self d3 p = Inr (b, m)" using assms(1) by (simp add: fs_get_def read_meta_def Let_def)
qed

end

section \<open>Sidecars are resources\<close>

lemma split_on_tail: "c \<notin> set s \<Longrightarrow> split_on c (a @ s) = butlast (split_on c a) @ [last (split_on c a) @ s]"
  by (induction a) (auto simp: split_on_no_sep split: list.splits)

lemma slash_free_suffix: "CHR ''/'' \<notin> set META_SUFFIX"
  by (simp add: META_SUFFIX_def)

lemma resource_path_suffix: "resource_path p \<Longrightarrow> resource_path (p @ META_SUFFIX)"
  by (simp add: resource_path_def split_on_tail [OF slash_free_suffix] plain_meta)

lemma resolve_suffix:
  assumes "resource_path p"
  shows "path_join root (trim_start_matches (CHR ''/'') (p @ META_SUFFIX)) =
    path_join root (trim_start_matches (CHR ''/'') p) @ META_SUFFIX"
proof -
  have ns: "\<not> starts_with ''/'' (trim_start_matches (CHR ''/'') q)" for q
    unfolding trim_start_matches_def by (rule dropWhile_not_hd)
  have "trim_start_matches (CHR ''/'') (p @ META_SUFFIX) = trim_start_matches (CHR ''/'') p @ META_SUFFIX"
    unfolding trim_start_matches_def by (rule dropWhile_append_stop) (simp add: META_SUFFIX_def)
  then show ?thesis using ns [of p] ns [of "p @ META_SUFFIX"] by (simp add: path_join_def del: starts_with_simps)
qed

section \<open>An instance\<close>

text \<open>A sidecar codec with the media type on the first line and a link on each other line, where no link
  holds a line feed; other sidecars keep a marker. It serves to instantiate the parameter.\<close>

fun enc_strings :: "string list \<Rightarrow> bytes" where
  "enc_strings [] = []"
| "enc_strings (s # ss) = show_nat (length s) @ '':'' @ s @ enc_strings ss"

fun dec_strings :: "nat \<Rightarrow> bytes \<Rightarrow> string list option" where
  "dec_strings 0 bs = (if bs = [] then Some [] else None)"
| "dec_strings (Suc k) bs = (if bs = [] then Some [] else
     case split_once (CHR '':'') bs of None \<Rightarrow> None
     | Some (l, rest) \<Rightarrow> (case parse_digits 0 l of None \<Rightarrow> None
         | Some n \<Rightarrow> map_option (Cons (take n rest)) (dec_strings k (drop n rest))))"

lemma dec_enc_strings: "length ss \<le> k \<Longrightarrow> dec_strings k (enc_strings ss) = Some ss"
proof (induction ss arbitrary: k)
  case Nil
  then show ?case by (cases k) simp_all
next
  case (Cons s ss)
  then obtain j where k: "k = Suc j" "length ss \<le> j" by (cases k) auto
  have "CHR '':'' \<notin> set (show_nat (length s))" using show_nat_digits [of "length s"] by (auto simp: list_all_iff ascii_digit_def)
  then show ?case using Cons.IH [OF k(2)] k(1) by (simp add: parse_digits_show)
qed

lemma enc_strings_length: "length ss \<le> length (enc_strings ss)"
  by (induction ss) auto

definition sample_env :: "disk fs_env" where
  "sample_env = \<lparr>fe_fs = disk_ops, fe_sha = id, fe_now = 7,
     fe_to_vec = (\<lambda>sc. enc_strings (ms_content_type sc # ms_links sc)),
     fe_from_slice = (\<lambda>bs. case dec_strings (length bs) bs of
        Some (ct # links) \<Rightarrow> Some \<lparr>ms_content_type = ct, ms_links = links\<rparr> | _ \<Rightarrow> None)\<rparr>"

interpretation sample: fs_backend sample_env
proof (rule fs_backend.intro)
  show "file_system (fe_fs sample_env)" by (simp add: sample_env_def disk.file_system_axioms)
  show "fs_backend_axioms sample_env"
    by unfold_locales (simp add: sample_env_def dec_enc_strings [OF enc_strings_length] del: enc_strings.simps)
qed

section \<open>Properties\<close>

text \<open>The filesystem backend never leaves its root: a path is refused exactly when it contains a
  dot-dot sequence or a NUL, and the file of a path that is not refused lies below the root at the
  components of the path.\<close>

theorem fs_resolve_contained:
  "(is_ok (fs_resolve self path) \<longleftrightarrow> \<not> contains_sub ''..'' path \<and> CHR 0x00 \<notin> set path) \<and>
   (fs_resolve self path = Inr full \<longrightarrow> fs_path full = fs_path (fb_root self) @ lex_components path)"
  using fs_resolve_ok fs_resolve_Inr(1) by blast

text \<open>C19: On resource paths the filesystem backend keeps the contract of the storage trait over any
  filesystem whose mutating operations may fail at any time. A put or delete, whether it succeeds or
  fails, changes nothing about what a get of an unrelated resource returns, where the file and the
  sidecar of the one are no file and no directory of the other. After a put that succeeds, a get
  returns the body with the entity tag, size and media type that the put reported and no links, and
  the head and existence operations agree; after a delete that succeeds, a get reports that there is no
  such resource; a delete that fails changes no get at all. A put that fails may leave its own
  resource changed, and only that.\<close>

theorem fs_backend_contract:
  assumes "fs_backend E" "resource_path p" "resource_path q" "unrelated p q"
  shows "(fs_put E self d p b ct = (d', r) \<longrightarrow>
      fs_get E self d' q = fs_get E self d q \<and>
      (\<forall>m. r = Inr m \<longrightarrow>
        (\<exists>t. fs_get E self d' p = Inr (b, m\<lparr>rm_modified := t\<rparr>) \<and> fs_head E self d' p = Inr (m\<lparr>rm_modified := t\<rparr>)) \<and>
        fs_exists E self d' p = Inr True \<and> rm_content_type m = ct \<and> rm_links m = [])) \<and>
    (fs_delete E self d p = (d', u) \<longrightarrow>
      fs_get E self d' q = fs_get E self d q \<and>
      (case u of Inr _ \<Rightarrow> fs_get E self d' p = Inl (NotFound p)
       | Inl _ \<Rightarrow> \<forall>x. fs_get E self d' x = fs_get E self d x))"
proof (rule conjI; rule impI)
  assume put: "fs_put E self d p b ct = (d', r)"
  have "(\<exists>t. fs_get E self d' p = Inr (b, m\<lparr>rm_modified := t\<rparr>) \<and> fs_head E self d' p = Inr (m\<lparr>rm_modified := t\<rparr>)) \<and>
      fs_exists E self d' p = Inr True \<and> rm_content_type m = ct \<and> rm_links m = []" if r: "r = Inr m" for m
  proof -
    obtain t where t: "fs_get E self d' p = Inr (b, m\<lparr>rm_modified := t\<rparr>)"
      using fs_backend.put_get [OF assms(1) put [unfolded r] assms(2)] by blast
    have "rm_content_type m = ct \<and> rm_links m = []" by (rule fs_backend.put_steps [OF assms(1) put [unfolded r]]) simp
    then show ?thesis
      using t fs_backend.head_is_get [OF assms(1), of self d' p] fs_backend.get_exists [OF assms(1), of self d' p] by auto
  qed
  then show "fs_get E self d' q = fs_get E self d q \<and> (\<forall>m. r = Inr m \<longrightarrow>
      (\<exists>t. fs_get E self d' p = Inr (b, m\<lparr>rm_modified := t\<rparr>) \<and> fs_head E self d' p = Inr (m\<lparr>rm_modified := t\<rparr>)) \<and>
      fs_exists E self d' p = Inr True \<and> rm_content_type m = ct \<and> rm_links m = [])"
    using fs_backend.put_get_other [OF assms(1) put assms(2-4)] by blast
next
  assume "fs_delete E self d p = (d', u)"
  then show "fs_get E self d' q = fs_get E self d q \<and>
      (case u of Inr _ \<Rightarrow> fs_get E self d' p = Inl (NotFound p) | Inl _ \<Rightarrow> \<forall>x. fs_get E self d' x = fs_get E self d x)"
    using fs_backend.delete_get [OF assms(1)] fs_backend.delete_fail_get [OF assms(1)] assms(2-4)
    by (cases u) auto
qed

definition sample_disk :: disk where
  "sample_disk = \<lparr>dk_root = Dir [], dk_now = 3, dk_faults = []\<rparr>"

theorem fs_resolve_contained_witness:
  "fs_resolve \<lparr>fb_root = ''/r''\<rparr> ''/a/./b'' = Inr ''/r/a/./b'' \<and> fs_path ''/r/a/./b'' = fs_path ''/r'' @ [''a'', ''b'']"
proof -
  have "fs_resolve \<lparr>fb_root = ''/r''\<rparr> ''/a/./b'' = Inr ''/r/a/./b''" by code_simp
  moreover have "lex_components ''/a/./b'' = [''a'', ''b'']" by code_simp
  ultimately show ?thesis using fs_resolve_contained [of "\<lparr>fb_root = ''/r''\<rparr>" "''/a/./b''" "''/r/a/./b''"] by simp
qed

theorem fs_backend_contract_witness:
  "\<exists>d' m t. fs_put sample_env \<lparr>fb_root = ''/r''\<rparr> sample_disk ''/a/x'' ''hi'' ''text/plain'' = (d', Inr m) \<and>
     fs_get sample_env \<lparr>fb_root = ''/r''\<rparr> d' ''/a/x'' = Inr (''hi'', m\<lparr>rm_modified := t\<rparr>)"
proof -
  let ?put = "fs_put sample_env \<lparr>fb_root = ''/r''\<rparr> sample_disk ''/a/x'' ''hi'' ''text/plain''"
  have "is_ok (snd ?put)" by code_simp
  then obtain m where m: "?put = (fst ?put, Inr m)" by (cases "snd ?put") (auto simp: prod_eq_iff)
  have "resource_path ''/a/x''" "resource_path ''/a/y''" "unrelated ''/a/x'' ''/a/y''" by code_simp+
  from fs_backend_contract [OF sample.fs_backend_axioms this] m show ?thesis by blast
qed

text \<open>The sidecar of one resource is the data file of another: a put to the path with the suffix
  rewrites the media type, and the links, of the resource without it.\<close>

theorem fs_sidecar_collision:
  assumes "fs_backend E" "resource_path p" "fs_put E self d p b ct = (d1, Inr m)"
    and "fs_put E self d1 (p @ META_SUFFIX) c dt = (d2, Inr m')" "fe_from_slice E c = Some sc"
    and "fs_get E self d2 p = Inr (b2, m2)"
  shows "rm_content_type m2 = ms_content_type sc"
proof -
  obtain full where full: "fs_resolve self p = Inr full" by (rule fs_backend.put_steps [OF assms(1,3)])
  obtain full' e1 e2 where s: "fs_resolve self (p @ META_SUFFIX) = Inr full'" "fo_write (fe_fs E) e1 full' c = (e2, Inr ())"
    "fo_write (fe_fs E) e2 (meta_path full') (fe_to_vec E \<lparr>ms_content_type = dt, ms_links = []\<rparr>) = (d2, Inr ())"
    using fs_backend.put_steps [OF assms(1,4)] by metis
  have rp: "resource_path (p @ META_SUFFIX)" using assms(2) by (rule resource_path_suffix)
  have f: "full' = meta_path full" using fs_resolve_Inr(4) [OF s(1)] fs_resolve_Inr(4) [OF full] resolve_suffix [OF assms(2)]
    by (simp add: meta_path_def)
  have fsys: "file_system (fe_fs E)" using assms(1) by (rule fs_backend.axioms(1))
  have "fo_read (fe_fs E) d2 (meta_path full) = Inr c"
    using file_system.write_same [OF fsys s(2)] file_system.write_other [OF fsys data_meta_apart(1) [OF s(1) rp], of e2] s(3) f
    by (metis fst_conv)
  then show ?thesis
    using assms(5,6) full by (auto simp: fs_get_def read_meta_def Let_def rbind_Inr_conv split: sum.splits io_error.splits)
qed

lemma is_ok_Inr: "is_ok r \<Longrightarrow> \<exists>a. r = Inr a"
  by (cases r) auto

lemma ok_pair: "is_ok (snd p) \<Longrightarrow> \<exists>m. p = (fst p, Inr m)"
  by (cases p; cases "snd p") auto

definition sample_put :: disk where
  "sample_put = fst (fs_put sample_env \<lparr>fb_root = ''/r''\<rparr> sample_disk ''/x'' ''hi'' ''text/plain'')"

definition sample_put2 :: disk where
  "sample_put2 = fst (fs_put sample_env \<lparr>fb_root = ''/r''\<rparr> sample_put ''/x.meta.json'' ''9:text/html'' ''text/plain'')"

theorem fs_sidecar_collision_witness:
  "map_sum id (rm_content_type \<circ> snd) (fs_get sample_env \<lparr>fb_root = ''/r''\<rparr> sample_put ''/x'') = Inr ''text/plain'' \<and>
   map_sum id (rm_content_type \<circ> snd) (fs_get sample_env \<lparr>fb_root = ''/r''\<rparr> sample_put2 ''/x'') = Inr ''text/html''"
proof
  show "map_sum id (rm_content_type \<circ> snd) (fs_get sample_env \<lparr>fb_root = ''/r''\<rparr> sample_put ''/x'') = Inr ''text/plain''"
    by code_simp
  let ?p1 = "fs_put sample_env \<lparr>fb_root = ''/r''\<rparr> sample_disk ''/x'' ''hi'' ''text/plain''"
    and ?p2 = "fs_put sample_env \<lparr>fb_root = ''/r''\<rparr> sample_put ''/x.meta.json'' ''9:text/html'' ''text/plain''"
    and ?g = "fs_get sample_env \<lparr>fb_root = ''/r''\<rparr> sample_put2 ''/x''"
  have "is_ok (snd ?p1)" "is_ok (snd ?p2)" "is_ok ?g" by code_simp+
  then obtain m m' b2 m2 where r: "?p1 = (sample_put, Inr m)" "?p2 = (sample_put2, Inr m')" "?g = Inr (b2, m2)"
    using ok_pair [of ?p1] ok_pair [of ?p2] is_ok_Inr [of ?g]
    unfolding sample_put_def [symmetric] sample_put2_def [symmetric] by auto
  have "resource_path ''/x''" "''/x'' @ META_SUFFIX = ''/x.meta.json''"
    "fe_from_slice sample_env ''9:text/html'' = Some \<lparr>ms_content_type = ''text/html'', ms_links = []\<rparr>" by code_simp+
  then have "rm_content_type m2 = ''text/html''"
    using fs_sidecar_collision [OF sample.fs_backend_axioms _ r(1), of "''9:text/html''" "''text/plain''" sample_put2 m'] r(2,3) by simp
  then show "map_sum id (rm_content_type \<circ> snd) ?g = Inr ''text/html''" using r(3) by simp
qed

end
