(* ===== verification/Webhook_Signing.thy ===== *)
theory Webhook_Signing
  imports Prelude
begin

text \<open>
  RFC 9421 message signatures on webhook deliveries (\<open>notifications/signing.rs\<close>): the signature base,
  the signer and the verifier. SHA-256, base64, the HTTP date format and Ed25519 are the fields of an
  environment; keys are of abstract types.
\<close>

record ('k, 'p) sign_env =
  se_sha256 :: "bytes \<Rightarrow> bytes"
  se_b64_encode :: "bytes \<Rightarrow> string"
  se_b64_decode :: "string \<Rightarrow> string + bytes"
  se_fmt_http_date :: "u64 \<Rightarrow> string"
  se_sign :: "'k \<Rightarrow> bytes \<Rightarrow> bytes"
  se_verify :: "'p \<Rightarrow> bytes \<Rightarrow> bytes \<Rightarrow> bool"

definition COVERED_COMPONENTS :: "string list" where
  "COVERED_COMPONENTS = [''@method'', ''@target-uri'', ''content-type'', ''content-digest'', ''date'',
     ''x-solid-notification-id'']"

record 'k SignerConfig =
  sc_keyid :: string
  sc_key :: 'k

record SignedRequest =
  sr_headers :: "(string \<times> string) list"
  sr_body :: bytes

datatype SignatureError =
    MissingHeader string
  | MalformedInput
  | MalformedSignature
  | KeyIdMismatch (kim_expected: string) (kim_got: string)
  | DigestMismatch
  | BadSignature
  | SigBase64 string

section \<open>Signing\<close>

definition covered_list :: string where
  "covered_list = ''('' @ join '' '' (map (\<lambda>c. [CHR 0x22] @ c @ [CHR 0x22]) COVERED_COMPONENTS) @ '')''"

definition signature_params_value :: "u64 \<Rightarrow> string \<Rightarrow> string" where
  "signature_params_value created keyid =
     covered_list @ '';created='' @ show_nat (unat created) @ '';keyid='' @ [CHR 0x22] @ keyid
       @ [CHR 0x22] @ '';alg='' @ [CHR 0x22] @ ''ed25519'' @ [CHR 0x22]"

definition base_line :: "string \<Rightarrow> string \<Rightarrow> string" where
  "base_line name v = [CHR 0x22] @ name @ [CHR 0x22] @ '': '' @ v"

definition build_signature_base ::
  "string \<Rightarrow> string \<Rightarrow> string \<Rightarrow> string \<Rightarrow> string \<Rightarrow> string \<Rightarrow> u64 \<Rightarrow> string \<Rightarrow> string" where
  "build_signature_base method target_uri content_type content_digest date notification_id created keyid =
     base_line ''@method'' (to_uppercase method) @ [CHR 0x0A]
     @ base_line ''@target-uri'' target_uri @ [CHR 0x0A]
     @ base_line ''content-type'' content_type @ [CHR 0x0A]
     @ base_line ''content-digest'' content_digest @ [CHR 0x0A]
     @ base_line ''date'' date @ [CHR 0x0A]
     @ base_line ''x-solid-notification-id'' notification_id @ [CHR 0x0A]
     @ base_line ''@signature-params'' (signature_params_value created keyid)"

definition content_digest_header :: "('k, 'p) sign_env \<Rightarrow> bytes \<Rightarrow> string" where
  "content_digest_header env body = ''sha-256=:'' @ se_b64_encode env (se_sha256 env body) @ '':''"

definition sign_request ::
  "('k, 'p) sign_env \<Rightarrow> 'k SignerConfig \<Rightarrow> string \<Rightarrow> string \<Rightarrow> string \<Rightarrow> bytes \<Rightarrow> string \<Rightarrow> u64 \<Rightarrow> SignedRequest" where
  "sign_request env cfg method target_uri content_type body notification_id now_unix =
     (let content_digest = content_digest_header env body;
          date = se_fmt_http_date env now_unix;
          base = build_signature_base method target_uri content_type content_digest date notification_id
                   now_unix (sc_keyid cfg);
          sig_b64 = se_b64_encode env (se_sign env (sc_key cfg) base);
          signature_input = ''sig1='' @ signature_params_value now_unix (sc_keyid cfg);
          signature = ''sig1=:'' @ sig_b64 @ '':''
      in \<lparr>sr_headers = [(''content-type'', content_type), (''content-digest'', content_digest),
             (''date'', date), (''x-solid-notification-id'', notification_id),
             (''signature-input'', signature_input), (''signature'', signature)],
          sr_body = body\<rparr>)"

section \<open>Verification\<close>

definition find_header :: "(string \<times> string) list \<Rightarrow> string \<Rightarrow> string option" where
  "find_header headers name =
     map_option snd (find (\<lambda>(n, v). to_ascii_lowercase n = to_ascii_lowercase name) headers)"

definition unquote :: "string \<Rightarrow> string option" where
  "unquote v = Option.bind (strip_prefix [CHR 0x22] v) (strip_suffix [CHR 0x22])"

text \<open>The loop over the \<open>;\<close>-separated parameters.\<close>

fun sig_params :: "string list \<Rightarrow> u64 option \<Rightarrow> string option \<Rightarrow> SignatureError + (u64 option \<times> string option)" where
  "sig_params [] created keyid = Inr (created, keyid)"
| "sig_params (p # ps) created keyid =
     (let part = trim p in
      if part = [] then sig_params ps created keyid
      else case split_once (CHR ''='') part of
        None \<Rightarrow> Inl MalformedInput
      | Some (k, v) \<Rightarrow>
          if k = ''created'' then (case parse_u64 v of None \<Rightarrow> Inl MalformedInput
            | Some n \<Rightarrow> sig_params ps (Some n) keyid)
          else if k = ''keyid'' then (case unquote v of None \<Rightarrow> Inl MalformedInput
            | Some w \<Rightarrow> sig_params ps created (Some w))
          else if k = ''alg'' then (case unquote v of None \<Rightarrow> Inl MalformedInput
            | Some w \<Rightarrow> if w \<noteq> ''ed25519'' then Inl MalformedInput else sig_params ps created keyid)
          else sig_params ps created keyid)"

definition parse_signature_input :: "string \<Rightarrow> SignatureError + (u64 \<times> string)" where
  "parse_signature_input raw =
     rbind (ok_or (strip_prefix ''sig1='' raw) MalformedInput) (\<lambda>after.
     rbind (ok_or (find_char ((=) (CHR '')'')) after) MalformedInput) (\<lambda>list_end.
       if take (Suc list_end) after \<noteq> covered_list then Inl MalformedInput
       else rbind (sig_params (split_on (CHR '';'') (drop (Suc list_end) after)) None None) (\<lambda>(created, keyid).
            rbind (ok_or created MalformedInput) (\<lambda>c.
            rbind (ok_or keyid MalformedInput) (\<lambda>k. Inr (c, k))))))"

definition parse_signature_header :: "('k, 'p) sign_env \<Rightarrow> string \<Rightarrow> SignatureError + bytes" where
  "parse_signature_header env raw =
     rbind (ok_or (Option.bind (strip_prefix ''sig1=:'' raw) (strip_suffix '':'')) MalformedSignature) (\<lambda>after.
       case se_b64_decode env after of Inl e \<Rightarrow> Inl (SigBase64 e) | Inr b \<Rightarrow> Inr b)"

definition require_header :: "(string \<times> string) list \<Rightarrow> string \<Rightarrow> SignatureError + string" where
  "require_header headers name = ok_or (find_header headers name) (MissingHeader name)"

definition verify_signed_request ::
  "('k, 'p) sign_env \<Rightarrow> 'p \<Rightarrow> string \<Rightarrow> (string \<times> string) list \<Rightarrow> string \<Rightarrow> string \<Rightarrow> bytes \<Rightarrow> SignatureError + unit" where
  "verify_signed_request env pubkey expected_keyid headers method target_uri body =
     rbind (require_header headers ''signature-input'') (\<lambda>sig_input.
     rbind (require_header headers ''signature'') (\<lambda>sig_value.
     rbind (require_header headers ''content-type'') (\<lambda>content_type.
     rbind (require_header headers ''content-digest'') (\<lambda>received_digest.
     rbind (require_header headers ''date'') (\<lambda>date.
     rbind (require_header headers ''x-solid-notification-id'') (\<lambda>notification_id.
       if content_digest_header env body \<noteq> received_digest then Inl DigestMismatch
       else rbind (parse_signature_input sig_input) (\<lambda>(created, keyid).
         if keyid \<noteq> expected_keyid then Inl (KeyIdMismatch expected_keyid keyid)
         else let base = build_signature_base method target_uri content_type received_digest date
                           notification_id created keyid in
           rbind (parse_signature_header env sig_value) (\<lambda>sig_bytes.
             if length sig_bytes \<noteq> 64 then Inl MalformedSignature
             else if se_verify env pubkey base sig_bytes then Inr () else Inl BadSignature))))))))"

section \<open>The parameters written are the parameters read\<close>

lemma set_show_nat: "set (show_nat n) \<subseteq> set ''0123456789''"
  using show_nat_digits [of n] ascii_digit_cases by (fastforce simp: list_all_iff)

lemma parse_u64_show_nat: "parse_u64 (show_nat (unat (n :: u64))) = Some n"
  using unsigned_less [of n, where ?'a = nat] parse_uint_show [of "unat n" 64] by (simp add: parse_u64_def)

lemma covered_list_eq: "\<exists>p. covered_list = p @ '')'' \<and> CHR '')'' \<notin> set p"
  by (intro exI [of _ "butlast covered_list"] conjI)
    (code_simp+)

lemma unquote_quoted: "unquote ([CHR 0x22] @ v @ [CHR 0x22]) = Some v"
  by (simp add: unquote_def flip: append_assoc)

lemma trim_param:
  assumes "plain c" and "plain d" shows "trim (c # v @ [d]) = c # v @ [d]"
  using assms by (intro trim_id) simp_all

lemma parse_signature_input_written:
  assumes "CHR '';'' \<notin> set keyid"
  shows "parse_signature_input (''sig1='' @ signature_params_value created keyid) = Inr (created, keyid)"
proof -
  let ?q = "[CHR 0x22]"
  let ?created = "''created='' @ show_nat (unat created)"
  let ?keyid = "''keyid='' @ ?q @ keyid @ ?q"
  let ?alg = "''alg='' @ ?q @ ''ed25519'' @ ?q"
  obtain p where p: "covered_list = p @ '')''" "CHR '')'' \<notin> set p" using covered_list_eq by blast
  define rest where "rest = CHR '';'' # ?created @ CHR '';'' # ?keyid @ CHR '';'' # ?alg"
  have v: "signature_params_value created keyid = p @ CHR '')'' # rest"
    by (simp add: signature_params_value_def p(1) rest_def)
  have f: "find_char ((=) (CHR '')'')) (p @ CHR '')'' # rest) = Some (length p)"
    using p(2) by (intro find_char_append) auto
  have semi: "CHR '';'' \<notin> set ?created" using set_show_nat [of "unat created"] by auto
  have semi2: "CHR '';'' \<notin> set ?keyid" using assms by simp
  have split: "split_on (CHR '';'') rest = [[], ?created, ?keyid, ?alg]"
  proof -
    have "split_on (CHR '';'') rest = [] # split_on (CHR '';'') (?created @ CHR '';'' # ?keyid @ CHR '';'' # ?alg)"
      by (simp only: rest_def split_on.simps(2) if_True simp_thms)
    also have "split_on (CHR '';'') (?created @ CHR '';'' # ?keyid @ CHR '';'' # ?alg)
        = ?created # split_on (CHR '';'') (?keyid @ CHR '';'' # ?alg)"
      using semi by (rule split_on_append)
    also have "split_on (CHR '';'') (?keyid @ CHR '';'' # ?alg) = ?keyid # split_on (CHR '';'') ?alg"
      using semi2 by (rule split_on_append)
    also have "split_on (CHR '';'') ?alg = [?alg]" by (rule split_on_no_sep) simp
    finally show ?thesis .
  qed
  obtain ds d where ds: "show_nat (unat created) = ds @ [d]"
    using show_nat_not_Nil by (metis rev_exhaust)
  have "plain d" using show_nat_digits [of "unat created"] ds plain_digit by simp
  then have t1: "trim ?created = ?created"
    using trim_param [of "CHR ''c''" d "''reated='' @ ds"] by (simp add: ds plain_def ascii_ws_def)
  have t2: "trim ?keyid = ?keyid"
    using trim_param [of "CHR ''k''" "CHR 0x22" "''eyid='' @ ?q @ keyid"] by (simp add: plain_def ascii_ws_def)
  have t3: "trim ?alg = ?alg"
    using trim_param [of "CHR ''a''" "CHR 0x22" "''lg='' @ ?q @ ''ed25519''"] by (simp add: plain_def ascii_ws_def)
  have u: "unquote (CHR 0x22 # keyid @ ?q) = Some keyid" "unquote (CHR 0x22 # ''ed25519'' @ ?q) = Some ''ed25519''"
    using unquote_quoted [of keyid] unquote_quoted [of "''ed25519''"] by simp_all
  have s: "sig_params [[], ?created, ?keyid, ?alg] None None = Inr (Some created, Some keyid)"
    using t1 t2 t3 u by (simp add: parse_u64_show_nat Let_def)
  show ?thesis
    unfolding parse_signature_input_def v
    using f s by (simp add: split p(1))
qed

section \<open>A signed request verifies\<close>

lemmas verify_simps = verify_signed_request_def require_header_def find_header_def sign_request_def
  parse_signature_header_def

lemma sent_request_verifies:
  assumes verifies: "se_verify env pubkey msg (se_sign env (sc_key cfg) msg)"
    and msg: "msg = build_signature_base method target_uri content_type (content_digest_header env body)
      (se_fmt_http_date env now) notification_id now (sc_keyid cfg)"
    and size64: "length (se_sign env (sc_key cfg) msg) = 64"
    and b64: "\<And>b. se_b64_decode env (se_b64_encode env b) = Inr b"
    and keyid: "CHR '';'' \<notin> set (sc_keyid cfg)"
  shows "verify_signed_request env pubkey (sc_keyid cfg)
           (sr_headers (sign_request env cfg method target_uri content_type body notification_id now))
           method target_uri (sr_body (sign_request env cfg method target_uri content_type body notification_id now))
         = Inr ()"
proof -
  have strip: "Option.bind (strip_prefix ''sig1=:'' (''sig1=:'' @ x @ '':'')) (strip_suffix '':'') = Some x" for x
    by (simp only: strip_prefix_append Option.bind.simps strip_suffix_append)
  have lower: "to_ascii_lowercase ''content-type'' = ''content-type''"
      "to_ascii_lowercase ''content-digest'' = ''content-digest''" "to_ascii_lowercase ''date'' = ''date''"
      "to_ascii_lowercase ''x-solid-notification-id'' = ''x-solid-notification-id''"
      "to_ascii_lowercase ''signature-input'' = ''signature-input''" "to_ascii_lowercase ''signature'' = ''signature''"
    by code_simp+
  show ?thesis
    using parse_signature_input_written [OF keyid, of now] strip
    by (simp add: verify_simps Let_def lower b64 size64 verifies flip: msg del: append_Cons append_Cons_eq_iff)
qed

text \<open>
  What the signer sends, the receiver accepts: with a matching key pair (\<open>verifies\<close>), 64-byte signatures
  and base64 that decodes what it encoded, a request signed by \<open>sign_request\<close> passes
  \<open>verify_signed_request\<close> for the same method, target and body, provided the key identifier has no
  semicolon.
\<close>

lemma signed_request_verifies:
  assumes "\<And>msg. se_verify env pubkey msg (se_sign env (sc_key cfg) msg)"
    and "\<And>msg. length (se_sign env (sc_key cfg) msg) = 64"
    and "\<And>b. se_b64_decode env (se_b64_encode env b) = Inr b"
    and "CHR '';'' \<notin> set (sc_keyid cfg)"
  shows "verify_signed_request env pubkey (sc_keyid cfg)
           (sr_headers (sign_request env cfg method target_uri content_type body notification_id now))
           method target_uri (sr_body (sign_request env cfg method target_uri content_type body notification_id now))
         = Inr ()"
  by (rule sent_request_verifies [OF assms(1) refl assms(2-4)])

section \<open>What a signature binds\<close>

lemma base_line_inj: "base_line n a = base_line n b \<Longrightarrow> a = b"
  by (simp add: base_line_def)

lemma line_unique:
  assumes "CHR 0x0A \<notin> set a" and "CHR 0x0A \<notin> set b" and "a @ [CHR 0x0A] @ r = b @ [CHR 0x0A] @ r'"
  shows "a = b \<and> r = r'"
proof -
  have "split_once (CHR 0x0A) (a @ [CHR 0x0A] @ r) = Some (a, r)"
       "split_once (CHR 0x0A) (b @ [CHR 0x0A] @ r') = Some (b, r')"
    using assms(1,2) by simp_all
  then show ?thesis unfolding assms(3) by (simp only: option.inject prod.inject simp_thms)
qed

definition one_line :: "string \<Rightarrow> bool" where
  "one_line s \<longleftrightarrow> CHR 0x0A \<notin> set s"

lemma base_line_one_line: "one_line n \<Longrightarrow> one_line v \<Longrightarrow> CHR 0x0A \<notin> set (base_line n v)"
  by (simp add: one_line_def base_line_def)

lemma signature_base_injective:
  assumes ol: "list_all one_line [to_uppercase m, u, ct, dg, dt, nid]"
      "list_all one_line [to_uppercase m', u', ct', dg', dt', nid']"
    and eq: "build_signature_base m u ct dg dt nid c k = build_signature_base m' u' ct' dg' dt' nid' c' k'"
  shows "to_uppercase m = to_uppercase m' \<and> u = u' \<and> ct = ct' \<and> dg = dg' \<and> dt = dt' \<and> nid = nid'"
proof -
  have n: "one_line ''@method''" "one_line ''@target-uri''" "one_line ''content-type''"
      "one_line ''content-digest''" "one_line ''date''" "one_line ''x-solid-notification-id''"
    by (simp_all add: one_line_def)
  note bl = base_line_one_line
  note e = eq [unfolded build_signature_base_def append_assoc]
  have 1: "list_all one_line [x] \<Longrightarrow> one_line x" for x by simp
  from ol have l: "one_line (to_uppercase m)" "one_line (to_uppercase m')" "one_line u" "one_line u'" "one_line ct"
      "one_line ct'" "one_line dg" "one_line dg'" "one_line dt" "one_line dt'" "one_line nid" "one_line nid'"
    by simp_all
  note s1 = line_unique [OF bl [OF n(1) l(1)] bl [OF n(1) l(2)] e]
  note s2 = line_unique [OF bl [OF n(2) l(3)] bl [OF n(2) l(4)] s1 [THEN conjunct2]]
  note s3 = line_unique [OF bl [OF n(3) l(5)] bl [OF n(3) l(6)] s2 [THEN conjunct2]]
  note s4 = line_unique [OF bl [OF n(4) l(7)] bl [OF n(4) l(8)] s3 [THEN conjunct2]]
  note s5 = line_unique [OF bl [OF n(5) l(9)] bl [OF n(5) l(10)] s4 [THEN conjunct2]]
  note s6 = line_unique [OF bl [OF n(6) l(11)] bl [OF n(6) l(12)] s5 [THEN conjunct2]]
  show ?thesis
    using s1 [THEN conjunct1] s2 [THEN conjunct1] s3 [THEN conjunct1] s4 [THEN conjunct1]
      s5 [THEN conjunct1] s6 [THEN conjunct1]
    by (blast dest: base_line_inj)
qed

lemma require_header_Inr: "require_header headers name = Inr v \<longleftrightarrow> find_header headers name = Some v"
  by (cases "find_header headers name") (simp_all add: require_header_def)

lemma verified_base:
  assumes "verify_signed_request env pubkey expected headers method target_uri body = Inr ()"
  shows "\<exists>ct date nid created sig.
    find_header headers ''content-type'' = Some ct \<and> find_header headers ''date'' = Some date
    \<and> find_header headers ''x-solid-notification-id'' = Some nid
    \<and> find_header headers ''content-digest'' = Some (content_digest_header env body)
    \<and> se_verify env pubkey (build_signature_base method target_uri ct (content_digest_header env body) date nid created expected) sig"
proof -
  from assms obtain si sv ct dg date nid where
    h: "find_header headers ''content-type'' = Some ct" "find_header headers ''date'' = Some date"
       "find_header headers ''x-solid-notification-id'' = Some nid" "find_header headers ''content-digest'' = Some dg"
    and rest: "(if content_digest_header env body \<noteq> dg then Inl DigestMismatch
       else rbind (parse_signature_input si) (\<lambda>(created, keyid).
         if keyid \<noteq> expected then Inl (KeyIdMismatch expected keyid)
         else let base = build_signature_base method target_uri ct dg date nid created keyid in
           rbind (parse_signature_header env sv) (\<lambda>sig_bytes.
             if length sig_bytes \<noteq> 64 then Inl MalformedSignature
             else if se_verify env pubkey base sig_bytes then Inr () else Inl BadSignature))) = Inr ()"
    unfolding verify_signed_request_def rbind_Inr_conv require_header_Inr by blast
  from rest have dg: "content_digest_header env body = dg" by (rule contrapos_pp) simp
  from rest obtain created sig where
    "se_verify env pubkey (build_signature_base method target_uri ct dg date nid created expected) sig"
    unfolding dg by (clarsimp simp: rbind_Inr_conv Let_def split: if_splits)
  then show ?thesis using h dg by blast
qed

text \<open>A request as it was handed to the signer.\<close>

record signing =
  sg_method :: string
  sg_target :: string
  sg_content_type :: string
  sg_body :: bytes
  sg_id :: string
  sg_now :: u64

definition signing_base :: "('k, 'p) sign_env \<Rightarrow> string \<Rightarrow> signing \<Rightarrow> string" where
  "signing_base env keyid g = build_signature_base (sg_method g) (sg_target g) (sg_content_type g)
     (content_digest_header env (sg_body g)) (se_fmt_http_date env (sg_now g)) (sg_id g) (sg_now g) keyid"

definition signing_lines :: "('k, 'p) sign_env \<Rightarrow> signing \<Rightarrow> bool" where
  "signing_lines env g = list_all one_line [to_uppercase (sg_method g), sg_target g, sg_content_type g,
     content_digest_header env (sg_body g), se_fmt_http_date env (sg_now g), sg_id g]"

text \<open>C39: An accepted request was signed: when only the requests of a list \<open>sigs\<close> carry signatures that verify
  under the public key, a request the receiver accepts has the method (up to case), the target, the
  content type, the date, the notification identifier and the body digest of one of them. The values of
  the accepted request and of the signed ones are single lines, as HTTP requires.
\<close>

theorem webhook_signature_binds:
  assumes ok: "verify_signed_request env pubkey keyid headers method target_uri body = Inr ()"
    and unforgeable: "\<And>msg sig. se_verify env pubkey msg sig \<Longrightarrow> \<exists>g \<in> set sigs. msg = signing_base env keyid g"
    and lines: "list_all (signing_lines env) sigs"
    and lines': "list_all one_line (to_uppercase method # target_uri # map snd headers)"
  shows "\<exists>g \<in> set sigs. to_uppercase method = to_uppercase (sg_method g) \<and> target_uri = sg_target g
     \<and> find_header headers ''content-type'' = Some (sg_content_type g)
     \<and> find_header headers ''date'' = Some (se_fmt_http_date env (sg_now g))
     \<and> find_header headers ''x-solid-notification-id'' = Some (sg_id g)
     \<and> content_digest_header env body = content_digest_header env (sg_body g)"
proof -
  obtain ct date nid created sig where
    h: "find_header headers ''content-type'' = Some ct" "find_header headers ''date'' = Some date"
      "find_header headers ''x-solid-notification-id'' = Some nid"
      "find_header headers ''content-digest'' = Some (content_digest_header env body)"
    and v: "se_verify env pubkey (build_signature_base method target_uri ct (content_digest_header env body) date nid created keyid) sig"
    using verified_base [OF ok] by blast
  have hl: "one_line x" if "find_header headers n = Some x" for n x
    using that lines' by (auto simp: find_header_def find_Some_iff list_all_iff) (metis nth_mem snd_conv)
  obtain g where g: "g \<in> set sigs"
    and eq: "build_signature_base method target_uri ct (content_digest_header env body) date nid created keyid
      = signing_base env keyid g"
    using unforgeable [OF v] by blast
  have l: "signing_lines env g" using lines g by (auto simp: list_all_iff)
  have l': "list_all one_line [to_uppercase method, target_uri, ct, content_digest_header env body, date, nid]"
    using lines' hl h by (simp del: map_eq_Cons_conv)
  show ?thesis
    using signature_base_injective [OF l' l [unfolded signing_lines_def] eq [unfolded signing_base_def]] h g
    by (intro bexI [of _ g]) simp_all
qed

section \<open>An example\<close>

text \<open>A toy environment in which the signature of a message is the message, without line feeds, padded or cut to 64 bytes.\<close>

definition ex_sign_env :: "(unit, unit) sign_env" where
  "ex_sign_env = \<lparr>se_sha256 = id, se_b64_encode = id, se_b64_decode = Inr, se_fmt_http_date = (\<lambda>_. ''now''),
     se_sign = (\<lambda>_ m. take 64 (filter (\<lambda>c. c \<noteq> CHR 0x0A) m @ replicate 64 CHR 0x20)),
     se_verify = (\<lambda>_ m s. s = take 64 (filter (\<lambda>c. c \<noteq> CHR 0x0A) m @ replicate 64 CHR 0x20))\<rparr>"

definition ex_signing :: signing where
  "ex_signing = \<lparr>sg_method = ''POST'', sg_target = ''https://h/'', sg_content_type = ''application/ld+json'', sg_body = ''{}'',
     sg_id = ''urn:uuid:1'', sg_now = 7\<rparr>"

definition ex_strict_env :: "(unit, unit) sign_env" where
  "ex_strict_env = ex_sign_env\<lparr>se_verify := (\<lambda>_ m _. m = signing_base ex_sign_env ''chan'' ex_signing)\<rparr>"

theorem webhook_signature_binds_witness:
  "content_digest_header ex_strict_env ''{}'' = content_digest_header ex_strict_env (sg_body ex_signing)
   \<and> ''https://h/'' = sg_target ex_signing"
proof -
  define hs where "hs = sr_headers (sign_request ex_strict_env \<lparr>sc_keyid = ''chan'', sc_key = ()\<rparr> ''POST'' ''https://h/''
    ''application/ld+json'' ''{}'' ''urn:uuid:1'' 7)"
  have base: "signing_base ex_strict_env k g = signing_base ex_sign_env k g" for k g
    by (simp add: signing_base_def content_digest_header_def ex_strict_env_def)
  have ok: "verify_signed_request ex_strict_env () ''chan'' hs ''POST'' ''https://h/'' ''{}'' = Inr ()"
    using sent_request_verifies [of ex_strict_env "()" "signing_base ex_sign_env ''chan'' ex_signing"
        "\<lparr>sc_keyid = ''chan'', sc_key = ()\<rparr>" "''POST''" "''https://h/''" "''application/ld+json''" "''{}''" 7 "''urn:uuid:1''"]
    by (simp add: hs_def ex_strict_env_def ex_sign_env_def signing_base_def ex_signing_def content_digest_header_def
        sign_request_def Let_def)
  have un: "se_verify ex_strict_env () msg sig \<Longrightarrow> \<exists>g \<in> set [ex_signing]. msg = signing_base ex_strict_env ''chan'' g" for msg sig
    by (simp add: base) (simp add: ex_strict_env_def)
  have l: "list_all (signing_lines ex_strict_env) [ex_signing]" by code_simp
  have l': "list_all one_line (to_uppercase ''POST'' # ''https://h/'' # map snd hs)" unfolding hs_def by code_simp
  show ?thesis using webhook_signature_binds [OF ok un l l'] by simp
qed

end
