(* ===== verification/Notifications.thy ===== *)
theory Notifications
  imports Webhook_Signing Storage Json "HOL-Library.AList"
begin

text \<open>
  Solid notifications (\<open>notifications/mod.rs\<close>): subscriptions, the three backends of the trait
  \<open>Notifications\<close> (in memory, WebSocket, webhook), change notifications, the retry loop and circuit breaker
  of webhook deliveries, and the discovery document. A duration is its number of nanoseconds. UUIDs and
  timestamps are arguments; the network, the clock, the random jitter and JSON text are the fields of an
  environment over a world of an abstract type.
\<close>

section \<open>Subscriptions and change notifications\<close>

datatype ChannelType = WebSocketChannel2023 | WebhookChannel2023

record Subscription =
  sub_id :: string
  sub_topic :: string
  sub_channel_type :: ChannelType
  sub_receive_from :: string

record ChangeNotification =
  cn_context :: string
  cn_id :: string
  cn_kind :: string
  cn_object :: string
  cn_published :: string

definition AS_CONTEXT :: string where "AS_CONTEXT = ''https://www.w3.org/ns/activitystreams''"
definition AS_CREATE :: string where "AS_CREATE = ''Create''"
definition AS_UPDATE :: string where "AS_UPDATE = ''Update''"
definition AS_DELETE :: string where "AS_DELETE = ''Delete''"

fun event_kind :: "StorageEvent \<Rightarrow> string" where
  "event_kind (Created p) = AS_CREATE"
| "event_kind (Updated p) = AS_UPDATE"
| "event_kind (Deleted p) = AS_DELETE"

definition from_storage_event :: "string \<Rightarrow> string \<Rightarrow> StorageEvent \<Rightarrow> string \<Rightarrow> ChangeNotification" where
  "from_storage_event uuid now event pod_base =
     \<lparr>cn_context = AS_CONTEXT, cn_id = ''urn:uuid:'' @ uuid, cn_kind = event_kind event,
      cn_object = trim_end_matches (CHR ''/'') pod_base @ event_path event, cn_published = now\<rparr>"

definition hex_upper :: "nat \<Rightarrow> char" where
  "hex_upper n = (if n < 10 then char_of (48 + n) else char_of (55 + n))"

definition url_safe :: "char \<Rightarrow> bool" where
  "url_safe c \<longleftrightarrow> ascii_alphanumeric c \<or> c \<in> set ''-_.~/''"

fun urlencoding :: "string \<Rightarrow> string" where
  "urlencoding [] = []"
| "urlencoding (b # bs) =
     (if url_safe b then [b]
      else [CHR ''%'', hex_upper (of_char b div 16), hex_upper (of_char b mod 16)]) @ urlencoding bs"

section \<open>In-memory backend\<close>

type_synonym InMemoryNotifications = "(string \<times> Subscription list) list"

definition inmem_new :: InMemoryNotifications where
  "inmem_new = []"

definition inmem_subscribe :: "InMemoryNotifications \<Rightarrow> Subscription \<Rightarrow> InMemoryNotifications" where
  "inmem_subscribe st s = AList.update (sub_topic s) (unwrap_or (map_of st (sub_topic s)) [] @ [s]) st"

definition inmem_unsubscribe :: "InMemoryNotifications \<Rightarrow> string \<Rightarrow> InMemoryNotifications" where
  "inmem_unsubscribe st i = map (\<lambda>(t, subs). (t, filter (\<lambda>s. sub_id s \<noteq> i) subs)) st"

definition inmem_publish :: "InMemoryNotifications \<Rightarrow> string \<Rightarrow> ChangeNotification \<Rightarrow> InMemoryNotifications \<times> (PodError + unit)" where
  "inmem_publish st topic note = (st, Inr ())"

section \<open>WebSocket channel\<close>

text \<open>The broadcast sender is the list of the notifications sent on it.\<close>

record WebSocketChannelManager =
  ws_subscriptions :: "(string \<times> Subscription) list"
  ws_sent :: "ChangeNotification list"
  ws_heartbeat_interval :: nat

definition WebSocketChannelManager_new :: WebSocketChannelManager where
  "WebSocketChannelManager_new = \<lparr>ws_subscriptions = [], ws_sent = [], ws_heartbeat_interval = 30 * 10 ^ 9\<rparr>"

definition ws_with_heartbeat :: "WebSocketChannelManager \<Rightarrow> nat \<Rightarrow> WebSocketChannelManager" where
  "ws_with_heartbeat m d = m\<lparr>ws_heartbeat_interval := d\<rparr>"

definition ws_subscribe_topic :: "string \<Rightarrow> WebSocketChannelManager \<Rightarrow> string \<Rightarrow> string \<Rightarrow> WebSocketChannelManager \<times> Subscription" where
  "ws_subscribe_topic uuid m topic base_url =
     (let sub = \<lparr>sub_id = uuid, sub_topic = topic, sub_channel_type = WebSocketChannel2023,
                 sub_receive_from = trim_end_matches (CHR ''/'') base_url @ ''/subscription/'' @ urlencoding topic\<rparr>
      in (m\<lparr>ws_subscriptions := AList.update uuid sub (ws_subscriptions m)\<rparr>, sub))"

definition ws_subscribe :: "WebSocketChannelManager \<Rightarrow> Subscription \<Rightarrow> WebSocketChannelManager" where
  "ws_subscribe m s = m\<lparr>ws_subscriptions := AList.update (sub_id s) s (ws_subscriptions m)\<rparr>"

definition ws_unsubscribe :: "WebSocketChannelManager \<Rightarrow> string \<Rightarrow> WebSocketChannelManager" where
  "ws_unsubscribe m i = m\<lparr>ws_subscriptions := AList.delete i (ws_subscriptions m)\<rparr>"

definition ws_active_subscriptions :: "WebSocketChannelManager \<Rightarrow> nat" where
  "ws_active_subscriptions m = length (ws_subscriptions m)"

definition ws_publish :: "WebSocketChannelManager \<Rightarrow> string \<Rightarrow> ChangeNotification \<Rightarrow> WebSocketChannelManager \<times> (PodError + unit)" where
  "ws_publish m topic note = (m\<lparr>ws_sent := ws_sent m @ [note]\<rparr>, Inr ())"

fun ws_pump_from_storage :: "WebSocketChannelManager \<Rightarrow> string \<Rightarrow> (string \<times> string \<times> StorageEvent) list \<Rightarrow> WebSocketChannelManager" where
  "ws_pump_from_storage m pod_base [] = m"
| "ws_pump_from_storage m pod_base ((uuid, now, ev) # evs) =
     ws_pump_from_storage (m\<lparr>ws_sent := ws_sent m @ [from_storage_event uuid now ev pod_base]\<rparr>) pod_base evs"

section \<open>Webhook channel\<close>

datatype WebhookDelivery =
    Delivered nat
  | FatalDrop nat
  | TransientRetry string

record 'k WebhookChannelManager =
  wh_subscriptions :: "(string \<times> Subscription) list"
  retry_base :: nat
  max_retries :: u32
  max_backoff :: nat
  circuit_threshold :: u32
  consecutive_failures :: u32
  signer :: "'k SignerConfig option"

definition WebhookChannelManager_new :: "'k WebhookChannelManager" where
  "WebhookChannelManager_new = \<lparr>wh_subscriptions = [], retry_base = 500 * 10 ^ 6, max_retries = 3,
     max_backoff = 3600 * 10 ^ 9, circuit_threshold = 10, consecutive_failures = 0, signer = None\<rparr>"

definition with_signer :: "'k WebhookChannelManager \<Rightarrow> 'k SignerConfig \<Rightarrow> 'k WebhookChannelManager" where
  "with_signer m s = m\<lparr>signer := Some s\<rparr>"

definition with_max_attempts :: "'k WebhookChannelManager \<Rightarrow> u32 \<Rightarrow> 'k WebhookChannelManager" where
  "with_max_attempts m attempts = m\<lparr>max_retries := (if attempts = 0 then 0 else attempts - 1)\<rparr>"

definition with_max_backoff :: "'k WebhookChannelManager \<Rightarrow> nat \<Rightarrow> 'k WebhookChannelManager" where
  "with_max_backoff m d = m\<lparr>max_backoff := d\<rparr>"

definition with_circuit_threshold :: "'k WebhookChannelManager \<Rightarrow> u32 \<Rightarrow> 'k WebhookChannelManager" where
  "with_circuit_threshold m n = m\<lparr>circuit_threshold := n\<rparr>"

definition circuit_open :: "'k WebhookChannelManager \<Rightarrow> bool" where
  "circuit_open m \<longleftrightarrow> circuit_threshold m \<le> consecutive_failures m"

definition reset_circuit :: "'k WebhookChannelManager \<Rightarrow> 'k WebhookChannelManager" where
  "reset_circuit m = m\<lparr>consecutive_failures := 0\<rparr>"

text \<open>\<open>fetch_add\<close> wraps around.\<close>

definition record_failure :: "'k WebhookChannelManager \<Rightarrow> 'k WebhookChannelManager" where
  "record_failure m = m\<lparr>consecutive_failures := consecutive_failures m + 1\<rparr>"

definition wh_subscribe_topic :: "string \<Rightarrow> 'k WebhookChannelManager \<Rightarrow> string \<Rightarrow> string \<Rightarrow> 'k WebhookChannelManager \<times> Subscription" where
  "wh_subscribe_topic uuid m topic target_url =
     (let sub = \<lparr>sub_id = uuid, sub_topic = topic, sub_channel_type = WebhookChannel2023, sub_receive_from = target_url\<rparr>
      in (m\<lparr>wh_subscriptions := AList.update uuid sub (wh_subscriptions m)\<rparr>, sub))"

definition wh_subscribe :: "'k WebhookChannelManager \<Rightarrow> Subscription \<Rightarrow> 'k WebhookChannelManager" where
  "wh_subscribe m s = m\<lparr>wh_subscriptions := AList.update (sub_id s) s (wh_subscriptions m)\<rparr>"

definition wh_unsubscribe :: "'k WebhookChannelManager \<Rightarrow> string \<Rightarrow> 'k WebhookChannelManager" where
  "wh_unsubscribe m i = m\<lparr>wh_subscriptions := AList.delete i (wh_subscriptions m)\<rparr>"

subsection \<open>One request\<close>

record hook_request =
  hr_url :: string
  hr_headers :: "(string \<times> string) list"
  hr_body :: bytes

text \<open>What the HTTP client reports: a status with the value of \<open>Retry-After\<close> when it is visible ASCII, or
  the text of a transport error.\<close>

datatype SendResult = Response nat "string option" | NetworkError string

text \<open>
  The environment. \<open>he_until\<close> is the time left until an HTTP date, \<open>None\<close> when the text is no date, the
  date is past or the build has no date parser. \<open>he_jitter\<close> is the product of a wait with the random
  factor, computed in floating point and truncated.
\<close>

record ('w, 'k, 'p) hook_env =
  he_to_vec :: "ChangeNotification \<Rightarrow> bytes"
  he_sign :: "('k, 'p) sign_env"
  he_now :: "'w \<Rightarrow> u64"
  he_send :: "'w \<Rightarrow> hook_request \<Rightarrow> SendResult \<times> 'w"
  he_until :: "'w \<Rightarrow> string \<Rightarrow> nat option"
  he_jitter :: "'w \<Rightarrow> nat \<Rightarrow> nat"

definition hook_request_of :: "('w, 'k, 'p) hook_env \<Rightarrow> 'k WebhookChannelManager \<Rightarrow> 'w \<Rightarrow> string \<Rightarrow> ChangeNotification \<Rightarrow> hook_request" where
  "hook_request_of env m w url note =
     (let body = he_to_vec env note;
          signed_headers = (case signer m of
              None \<Rightarrow> []
            | Some cfg \<Rightarrow> filter (\<lambda>(name, v). to_ascii_lowercase name \<noteq> ''content-type'')
                (sr_headers (sign_request (he_sign env) cfg ''POST'' url ''application/ld+json'' body (cn_id note) (he_now env w))))
      in \<lparr>hr_url = url, hr_headers = (''Content-Type'', ''application/ld+json'') # signed_headers, hr_body = body\<rparr>)"

definition send_once :: "('w, 'k, 'p) hook_env \<Rightarrow> 'k WebhookChannelManager \<Rightarrow> 'w \<Rightarrow> string \<Rightarrow> ChangeNotification \<Rightarrow> SendResult \<times> 'w" where
  "send_once env m w url note = he_send env w (hook_request_of env m w url note)"

subsection \<open>Waiting\<close>

definition DURATION_MAX :: nat where
  "DURATION_MAX = (2 ^ 64 - 1) * 10 ^ 9 + 999999999"

definition duration_saturating_mul :: "nat \<Rightarrow> nat \<Rightarrow> nat" where
  "duration_saturating_mul d n = min (d * n) DURATION_MAX"

definition parse_retry_after :: "('w, 'k, 'p) hook_env \<Rightarrow> 'w \<Rightarrow> string \<Rightarrow> nat option" where
  "parse_retry_after env w raw = (case parse_u64 (trim raw) of
     Some secs \<Rightarrow> Some (unat secs * 10 ^ 9)
   | None \<Rightarrow> he_until env w (trim raw))"

definition compute_backoff :: "('w, 'k, 'p) hook_env \<Rightarrow> 'k WebhookChannelManager \<Rightarrow> 'w \<Rightarrow> u32 \<Rightarrow> nat" where
  "compute_backoff env m w attempt =
     (let ex = duration_saturating_mul (retry_base m) (2 ^ min (unat attempt) 20);
          cap = min ex (max_backoff m)
      in min (he_jitter env w cap) (2 ^ 64 - 1))"

definition retry_after_or_backoff :: "('w, 'k, 'p) hook_env \<Rightarrow> 'k WebhookChannelManager \<Rightarrow> 'w \<Rightarrow> u32 \<Rightarrow> string option \<Rightarrow> nat" where
  "retry_after_or_backoff env m w attempt hdr =
     unwrap_or (Option.bind hdr (parse_retry_after env w)) (compute_backoff env m w attempt)"

subsection \<open>The retry loop\<close>

text \<open>What a result means: the end of the delivery, or a wait and the reason given when the attempts are
  used up after it.\<close>

datatype HookStep = Finish WebhookDelivery | Again nat string

definition hook_step :: "('w, 'k, 'p) hook_env \<Rightarrow> 'k WebhookChannelManager \<Rightarrow> 'w \<Rightarrow> u32 \<Rightarrow> SendResult \<Rightarrow> HookStep" where
  "hook_step env m w attempt r =
     (let after = '' after '' @ show_nat (unat (attempt + 1)) @ '' attempts'' in
      case r of
        Response status hdr \<Rightarrow>
          if 200 \<le> status \<and> status < 300 then Finish (Delivered status)
          else if status = 410 then Finish (FatalDrop status)
          else if status = 429 then Again (retry_after_or_backoff env m w attempt hdr) (''429'' @ after)
          else if 500 \<le> status \<and> status < 600 then Again (retry_after_or_backoff env m w attempt hdr) (''5xx'' @ after)
          else if 400 \<le> status \<and> status < 500 then Again (compute_backoff env m w attempt) (show_nat status @ after)
          else Again (compute_backoff env m w attempt) (''status '' @ show_nat status @ after)
      | NetworkError e \<Rightarrow> Again (compute_backoff env m w attempt) (''network error: '' @ e))"

text \<open>One entry of the trace of a delivery: the request sent, its result, and the sleep that followed.\<close>

type_synonym hook_trace = "(hook_request \<times> SendResult \<times> nat option) list"

function deliver_loop :: "('w, 'k, 'p) hook_env \<Rightarrow> string \<Rightarrow> ChangeNotification \<Rightarrow> u32 \<Rightarrow> 'k WebhookChannelManager \<Rightarrow> 'w \<Rightarrow> u32
    \<Rightarrow> 'k WebhookChannelManager \<times> 'w \<times> WebhookDelivery \<times> hook_trace" where
  "deliver_loop env url note total_attempts m w attempt =
     (let rq = hook_request_of env m w url note in
      case send_once env m w url note of (r, w') \<Rightarrow>
      (case hook_step env m w' attempt r of
         Finish d \<Rightarrow> (m\<lparr>consecutive_failures := 0\<rparr>, w', d, [(rq, r, None)])
       | Again wait reason \<Rightarrow>
           let attempt' = attempt + 1 in
           if total_attempts \<le> attempt' then (record_failure m, w', TransientRetry reason, [(rq, r, None)])
           else (case deliver_loop env url note total_attempts m w' attempt' of
             (m', w'', d, tr) \<Rightarrow> (m', w'', d, (rq, r, Some (min wait (max_backoff m))) # tr))))"
  by pat_completeness auto

text \<open>The attempts left decrease; a counter that wrapped around would still reach the total after it.\<close>

lemma attempt_decreases:
  fixes a t :: u32
  assumes "\<not> t \<le> a + 1"
  shows "(if a + 1 = - 1 then 2 ^ 32 else unat t - unat (a + 1)) < (if a = - 1 then 2 ^ 32 else unat t - unat a)"
proof -
  have t: "unat t < 2 ^ 32" using unsigned_less [of t, where ?'a = nat] by simp
  have ne: "a + 1 \<noteq> - 1" using assms word_order.extremum [of t] by metis
  have lt: "unat (a + 1) < unat t" using assms by (simp add: word_le_nat_alt)
  show ?thesis
  proof (cases "a = - 1")
    case True then show ?thesis using ne t by simp
  next
    case False
    then have "unat (a + 1) = unat a + 1" by (metis Suc_eq_plus1 add.commute eq_neg_iff_add_eq_0 unatSuc)
    then show ?thesis using False ne lt by simp
  qed
qed

termination deliver_loop
  by (relation "measure (\<lambda>(env, url, note, t, m, w, a). if a = - 1 then 2 ^ 32 else unat t - unat a)")
    (use attempt_decreases in \<open>simp_all\<close>)

declare deliver_loop.simps [simp del]

definition total_attempts_of :: "'k WebhookChannelManager \<Rightarrow> u32" where
  "total_attempts_of m = (if max_retries m = - 1 then - 1 else max_retries m + 1)"

definition deliver_one :: "('w, 'k, 'p) hook_env \<Rightarrow> 'k WebhookChannelManager \<Rightarrow> 'w \<Rightarrow> string \<Rightarrow> ChangeNotification
    \<Rightarrow> 'k WebhookChannelManager \<times> 'w \<times> WebhookDelivery \<times> hook_trace" where
  "deliver_one env m w url note =
     (if circuit_open m then (m, w, TransientRetry ''circuit open'', [])
      else deliver_loop env url note (total_attempts_of m) m w 0)"

subsection \<open>Delivering to every matching subscription\<close>

fun is_fatal :: "WebhookDelivery \<Rightarrow> bool" where
  "is_fatal (FatalDrop s) = True"
| "is_fatal d = False"

fun deliver_subs :: "('w, 'k, 'p) hook_env \<Rightarrow> ChangeNotification \<Rightarrow> Subscription list \<Rightarrow> 'k WebhookChannelManager \<Rightarrow> 'w
    \<Rightarrow> 'k WebhookChannelManager \<times> 'w \<times> (string \<times> WebhookDelivery) list \<times> hook_trace" where
  "deliver_subs env note [] m w = (m, w, [], [])"
| "deliver_subs env note (s # ss) m w =
     (case deliver_one env m w (sub_receive_from s) note of (m', w', d, tr) \<Rightarrow>
      case deliver_subs env note ss m' w' of (m'', w'', out, tr') \<Rightarrow>
        (m'', w'', (sub_id s, d) # out, tr @ tr'))"

definition deliver_all :: "('w, 'k, 'p) hook_env \<Rightarrow> 'k WebhookChannelManager \<Rightarrow> 'w \<Rightarrow> ChangeNotification \<Rightarrow> (string \<Rightarrow> bool)
    \<Rightarrow> 'k WebhookChannelManager \<times> 'w \<times> (string \<times> WebhookDelivery) list \<times> hook_trace" where
  "deliver_all env m w note topic_matches =
     (let subs = filter (\<lambda>s. topic_matches (sub_topic s)) (map snd (wh_subscriptions m)) in
      case deliver_subs env note subs m w of (m', w', out, tr) \<Rightarrow>
        let dropped = map fst (filter (\<lambda>(i, d). is_fatal d) out) in
        (m'\<lparr>wh_subscriptions := fold AList.delete dropped (wh_subscriptions m')\<rparr>, w', out, tr))"

fun wh_pump_from_storage :: "('w, 'k, 'p) hook_env \<Rightarrow> string \<Rightarrow> (string \<times> string \<times> StorageEvent) list \<Rightarrow> 'k WebhookChannelManager \<Rightarrow> 'w
    \<Rightarrow> 'k WebhookChannelManager \<times> 'w \<times> hook_trace" where
  "wh_pump_from_storage env pod_base [] m w = (m, w, [])"
| "wh_pump_from_storage env pod_base ((uuid, now, ev) # evs) m w =
     (case deliver_all env m w (from_storage_event uuid now ev pod_base) (\<lambda>topic. starts_with topic (event_path ev)) of
        (m', w', out, tr) \<Rightarrow>
        case wh_pump_from_storage env pod_base evs m' w' of (m'', w'', tr') \<Rightarrow> (m'', w'', tr @ tr'))"

definition wh_publish :: "('w, 'k, 'p) hook_env \<Rightarrow> 'k WebhookChannelManager \<Rightarrow> 'w \<Rightarrow> string \<Rightarrow> ChangeNotification
    \<Rightarrow> 'k WebhookChannelManager \<times> 'w \<times> (PodError + unit)" where
  "wh_publish env m w topic note =
     (case deliver_all env m w note (\<lambda>t. starts_with t topic \<or> t = topic) of (m', w', out, tr) \<Rightarrow> (m', w', Inr ()))"

section \<open>Discovery\<close>

definition channel_type_json :: "string \<Rightarrow> string \<Rightarrow> json" where
  "channel_type_json i endpoint = JObject [(''id'', JString i), (''endpoint'', JString endpoint),
     (''features'', JArray [JString ''as:Create'', JString ''as:Update'', JString ''as:Delete''])]"

definition discovery_document :: "string \<Rightarrow> json" where
  "discovery_document pod_base =
     (let base = trim_end_matches (CHR ''/'') pod_base in
      JObject [(''@context'', JArray [JString ''https://www.w3.org/ns/solid/notifications-context/v1'']),
        (''id'', JString (base @ ''/.notifications'')),
        (''channelTypes'', JArray
          [channel_type_json ''WebSocketChannel2023'' (base @ ''/.notifications/websocket''),
           channel_type_json ''WebhookChannel2023'' (base @ ''/.notifications/webhook'')])])"

section \<open>The retry loop: outcome and bounds\<close>

definition succeeds :: "SendResult \<Rightarrow> bool" where
  "succeeds r = (case r of Response s h \<Rightarrow> 200 \<le> s \<and> s < 300 | NetworkError e \<Rightarrow> False)"

definition gone :: "SendResult \<Rightarrow> bool" where
  "gone r = (case r of Response s h \<Rightarrow> s = 410 | NetworkError e \<Rightarrow> False)"

definition is_transient :: "WebhookDelivery \<Rightarrow> bool" where
  "is_transient d = (case d of TransientRetry r \<Rightarrow> True | _ \<Rightarrow> False)"

definition trace_sleeps :: "hook_trace \<Rightarrow> nat list" where
  "trace_sleeps tr = map the (filter (\<lambda>x. x \<noteq> None) (map (snd \<circ> snd) tr))"

definition trace_results :: "hook_trace \<Rightarrow> SendResult list" where
  "trace_results tr = map (fst \<circ> snd) tr"

lemma trace_simps [simp]:
  "trace_sleeps [] = []" "trace_sleeps ((q, r, None) # tr) = trace_sleeps tr"
  "trace_sleeps ((q, r, Some n) # tr) = n # trace_sleeps tr"
  "trace_sleeps (tr @ tr') = trace_sleeps tr @ trace_sleeps tr'"
  "trace_results [] = []" "trace_results (x # tr) = fst (snd x) # trace_results tr"
  "trace_results (tr @ tr') = trace_results tr @ trace_results tr'"
  by (simp_all add: trace_sleeps_def trace_results_def)

lemma hook_step_Finish:
  "hook_step env m w a r = Finish d \<Longrightarrow>
     (\<exists>s h. r = Response s h \<and> (d = Delivered s \<and> 200 \<le> s \<and> s < 300 \<or> d = FatalDrop s \<and> s = 410))"
  by (auto simp: hook_step_def Let_def split: SendResult.splits if_splits)

lemma hook_step_Again: "hook_step env m w a r = Again n e \<Longrightarrow> \<not> succeeds r \<and> \<not> gone r"
  by (auto simp: hook_step_def Let_def succeeds_def gone_def split: SendResult.splits if_splits)

text \<open>The result of a delivery, described by its trace.\<close>

definition delivery_ok :: "'k WebhookChannelManager \<Rightarrow> nat \<Rightarrow> 'k WebhookChannelManager \<Rightarrow> WebhookDelivery \<Rightarrow> hook_trace \<Rightarrow> bool" where
  "delivery_ok m n m' d tr \<longleftrightarrow>
     tr \<noteq> [] \<and> length tr \<le> n
     \<and> length (trace_sleeps tr) = length tr - 1 \<and> list_all (\<lambda>x. x \<le> max_backoff m) (trace_sleeps tr)
     \<and> list_all (\<lambda>r. \<not> succeeds r \<and> \<not> gone r) (butlast (trace_results tr))
     \<and> m' = (if is_transient d then record_failure m else reset_circuit m)
     \<and> (case d of
          Delivered s \<Rightarrow> 200 \<le> s \<and> s < 300 \<and> (\<exists>h. last (trace_results tr) = Response s h)
        | FatalDrop s \<Rightarrow> s = 410 \<and> (\<exists>h. last (trace_results tr) = Response s h)
        | TransientRetry e \<Rightarrow> length tr = n \<and> \<not> succeeds (last (trace_results tr)) \<and> \<not> gone (last (trace_results tr)))"

lemma delivery_ok_Cons:
  assumes "delivery_ok m n m' d tr" and "\<not> succeeds r" and "\<not> gone r" and "s \<le> max_backoff m"
  shows "delivery_ok m (Suc n) m' d ((rq, r, Some s) # tr)"
proof -
  have ne: "trace_results tr \<noteq> []" using assms(1) by (cases tr) (auto simp: delivery_ok_def)
  show ?thesis
    using assms ne by (cases d) (auto simp: delivery_ok_def)
qed

lemma deliver_loop_ok:
  assumes "a < t" and "deliver_loop env url nt t m w a = (m', w', d, tr)"
  shows "delivery_ok m (unat t - unat a) m' d tr"
  using assms
proof (induction env url nt t m w a arbitrary: m' w' d tr rule: deliver_loop.induct)
  case (1 env url nt t m w a)
  obtain r w1 where sent: "send_once env m w url nt = (r, w1)" by (cases "send_once env m w url nt")
  note step = "1.prems"(2) [unfolded deliver_loop.simps [of env url nt t m w a] sent Let_def prod.case]
  have room: "0 < unat t - unat a" using "1.prems"(1) by (simp add: word_less_nat_alt)
  show ?case
  proof (cases "hook_step env m w1 a r")
    case (Finish d0)
    then show ?thesis
      using step room hook_step_Finish [OF Finish] by (auto simp: delivery_ok_def is_transient_def reset_circuit_def)
  next
    case (Again n e)
    note bad = hook_step_Again [OF Again]
    have suc: "unat (a + 1) = Suc (unat a)"
      using "1.prems"(1) by (metis Suc_eq_plus1 add.commute unatSuc word_not_simps(2) word_order.extremum_strict
          add.right_inverse eq_neg_iff_add_eq_0)
    show ?thesis
    proof (cases "t \<le> a + 1")
      case True
      then have "unat t - unat a = 1" using room suc by (simp add: word_le_nat_alt)
      then show ?thesis using step Again True bad by (auto simp: delivery_ok_def is_transient_def)
    next
      case False
      obtain m2 w2 d2 tr2 where rec: "deliver_loop env url nt t m w1 (a + 1) = (m2, w2, d2, tr2)"
        by (metis prod_cases4)
      have eq: "m' = m2" "d = d2" "tr = (hook_request_of env m w url nt, r, Some (min n (max_backoff m))) # tr2"
        using step Again False rec by auto
      have "delivery_ok m (unat t - unat (a + 1)) m2 d2 tr2"
        using "1.IH" [OF refl sent [symmetric] Again refl False] rec False by (simp add: not_le)
      moreover have "unat t - unat a = Suc (unat t - unat (a + 1))"
        using False suc by (simp add: word_le_nat_alt)
      ultimately show ?thesis using bad by (simp add: eq delivery_ok_Cons)
    qed
  qed
qed

lemma total_attempts_unat: "unat (total_attempts_of m) \<le> Suc (unat (max_retries m)) \<and> 0 < total_attempts_of m"
proof (cases "max_retries m = - 1")
  case False
  then have "unat (max_retries m + 1) = Suc (unat (max_retries m))"
    by (metis Suc_eq_plus1 add.commute eq_neg_iff_add_eq_0 unatSuc)
  then show ?thesis using False by (simp add: total_attempts_of_def word_less_nat_alt)
next
  case True
  have "0 < (- 1 :: u32)" by (simp add: word_gt_0)
  then show ?thesis using True by (simp add: total_attempts_of_def)
qed

lemma deliver_one_closed:
  assumes "\<not> circuit_open m" and "deliver_one env m w url nt = (m', w', d, tr)"
  shows "delivery_ok m (unat (total_attempts_of m)) m' d tr"
  using deliver_loop_ok [of 0 "total_attempts_of m"] total_attempts_unat [of m] assms by (simp add: deliver_one_def)

lemma deliver_one_open [simp]: "circuit_open m \<Longrightarrow> deliver_one env m w url nt = (m, w, TransientRetry ''circuit open'', [])"
  by (simp add: deliver_one_def)

lemma sum_list_le_length: "list_all (\<lambda>x. x \<le> b) xs \<Longrightarrow> sum_list xs \<le> length xs * (b :: nat)"
  by (induction xs) auto

text \<open>C38: A delivery ends and stays within its bounds, whatever the network does: at most \<open>max_retries + 1\<close>
  requests are sent, no single wait exceeds \<open>max_backoff\<close> even when the receiver asks for a longer one with
  \<open>Retry-After\<close>, and all the waits together are at most \<open>max_retries\<close> times \<open>max_backoff\<close>. It gives up only after
  the last permitted attempt, reports delivery exactly on a 2xx answer and drops the receiver exactly on
  410; the failure counter is reset by the latter two and incremented by the former.
\<close>

theorem webhook_delivery_bounded:
  assumes "deliver_one env m w url nt = (m', w', d, tr)"
  shows "length tr \<le> Suc (unat (max_retries m))
     \<and> list_all (\<lambda>s. s \<le> max_backoff m) (trace_sleeps tr)
     \<and> sum_list (trace_sleeps tr) \<le> unat (max_retries m) * max_backoff m
     \<and> (if circuit_open m then tr = [] \<and> m' = m \<and> is_transient d
        else delivery_ok m (unat (total_attempts_of m)) m' d tr)"
proof (cases "circuit_open m")
  case True
  then show ?thesis using assms by (auto simp: is_transient_def)
next
  case False
  note ok = deliver_one_closed [OF False assms]
  have n: "length tr \<le> Suc (unat (max_retries m))"
    using ok total_attempts_unat [of m] by (auto simp: delivery_ok_def)
  have sl: "length (trace_sleeps tr) = length tr - 1" "list_all (\<lambda>s. s \<le> max_backoff m) (trace_sleeps tr)"
    using ok by (auto simp: delivery_ok_def)
  have "sum_list (trace_sleeps tr) \<le> (length tr - 1) * max_backoff m"
    using sum_list_le_length [OF sl(2)] sl(1) by simp
  also have "\<dots> \<le> unat (max_retries m) * max_backoff m" using n by (intro mult_right_mono) simp_all
  finally show ?thesis using False ok n sl(2) by simp
qed

section \<open>Signed deliveries\<close>

lemma verify_by_headers:
  assumes "\<And>n. n \<in> set (''signature-input'' # ''signature'' # COVERED_COMPONENTS) \<Longrightarrow> find_header hs n = find_header hs' n"
  shows "verify_signed_request env pk k hs method url body = verify_signed_request env pk k hs' method url body"
  using assms by (simp add: verify_signed_request_def require_header_def COVERED_COMPONENTS_def)

lemma find_header_hook:
  assumes "n \<in> set (''signature-input'' # ''signature'' # COVERED_COMPONENTS)"
  shows "find_header ((''Content-Type'', ct) # filter (\<lambda>(name, v). to_ascii_lowercase name \<noteq> ''content-type'') hs) n
    = (if n = ''content-type'' then Some ct else find_header hs n)"
proof -
  have lower: "to_ascii_lowercase ''Content-Type'' = ''content-type''" "to_ascii_lowercase ''content-type'' = ''content-type''"
    by code_simp+
  have n: "to_ascii_lowercase n = n"
    using assms unfolding COVERED_COMPONENTS_def set_simps insert_iff empty_iff by (elim disjE) (simp_all add: to_ascii_lowercase_def ascii_lower_def)
  show ?thesis
  proof (cases "n = ''content-type''")
    case True
    then show ?thesis by (simp add: find_header_def lower)
  next
    case False
    then have "find (\<lambda>(k, v). to_ascii_lowercase k = n) (filter (\<lambda>(k, v). to_ascii_lowercase k \<noteq> ''content-type'') hs)
      = find (\<lambda>(k, v). to_ascii_lowercase k = n) hs"
      by (induction hs) auto
    then show ?thesis using False by (simp add: find_header_def lower n)
  qed
qed

text \<open>Every request a manager with a signer sends is accepted by a receiver that verifies it with the
  channel's public key: the headers the delivery attaches authenticate the method, the target URL and
  the body.
\<close>

theorem signed_delivery_verifies:
  assumes "signer m = Some cfg"
    and "\<And>msg. se_verify (he_sign env) pubkey msg (se_sign (he_sign env) (sc_key cfg) msg)"
    and "\<And>msg. length (se_sign (he_sign env) (sc_key cfg) msg) = 64"
    and "\<And>b. se_b64_decode (he_sign env) (se_b64_encode (he_sign env) b) = Inr b"
    and "CHR '';'' \<notin> set (sc_keyid cfg)"
    and "rq = hook_request_of env m w url nt"
  shows "verify_signed_request (he_sign env) pubkey (sc_keyid cfg) (hr_headers rq) ''POST'' (hr_url rq) (hr_body rq) = Inr ()"
proof -
  let ?ct = "''application/ld+json''"
  let ?sr = "sign_request (he_sign env) cfg ''POST'' url ?ct (he_to_vec env nt) (cn_id nt) (he_now env w)"
  have ct: "find_header (sr_headers ?sr) ''content-type'' = Some ?ct"
    by (simp add: find_header_def sign_request_def Let_def)
  have rq: "rq = \<lparr>hr_url = url, hr_headers = (''Content-Type'', ?ct) #
      filter (\<lambda>(name, v). to_ascii_lowercase name \<noteq> ''content-type'') (sr_headers ?sr), hr_body = he_to_vec env nt\<rparr>"
    using assms(1,6) by (simp add: hook_request_of_def Let_def)
  have "verify_signed_request (he_sign env) pubkey (sc_keyid cfg) (hr_headers rq) ''POST'' url (he_to_vec env nt)
      = verify_signed_request (he_sign env) pubkey (sc_keyid cfg) (sr_headers ?sr) ''POST'' url (he_to_vec env nt)"
    by (rule verify_by_headers) (simp only: rq hook_request.simps find_header_hook ct split: if_split, simp add: ct)
  also have "\<dots> = Inr ()"
    using signed_request_verifies [OF assms(2-5), of "''POST''" url ?ct "he_to_vec env nt" "cn_id nt" "he_now env w"]
    by (simp add: sign_request_def Let_def)
  finally show ?thesis by (simp add: rq)
qed

section \<open>The circuit breaker\<close>

text \<open>Deliveries change nothing of the manager but the failure counter.\<close>

definition same_config :: "'k WebhookChannelManager \<Rightarrow> 'k WebhookChannelManager \<Rightarrow> bool" where
  "same_config m m' \<longleftrightarrow> m' = m\<lparr>consecutive_failures := consecutive_failures m'\<rparr>"

lemma deliver_one_config:
  assumes "deliver_one env m w url nt = (m', w', d, tr)" shows "same_config m m'"
  using assms deliver_one_closed [OF _ assms]
  by (cases "circuit_open m") (auto simp: delivery_ok_def same_config_def record_failure_def reset_circuit_def)

lemma same_config_refl [simp]: "same_config m m"
  by (simp add: same_config_def)

lemma same_config_trans: "same_config m m' \<Longrightarrow> same_config m' m'' \<Longrightarrow> same_config m m''"
  by (cases m; cases m'; cases m'') (simp add: same_config_def)

lemma deliver_subs_config: "deliver_subs env nt ss m w = (m', w', out, tr) \<Longrightarrow> same_config m m'"
proof (induction ss arbitrary: m w m' w' out tr)
  case (Cons s ss)
  obtain m1 w1 d t1 where 1: "deliver_one env m w (sub_receive_from s) nt = (m1, w1, d, t1)" by (metis prod_cases4)
  obtain m2 w2 o2 t2 where 2: "deliver_subs env nt ss m1 w1 = (m2, w2, o2, t2)" by (metis prod_cases4)
  have "m' = m2" using Cons.prems 1 2 by simp
  then show ?case using deliver_one_config [OF 1] Cons.IH [OF 2] same_config_trans by blast
qed simp

lemma deliver_subs_out: "deliver_subs env nt ss m w = (m', w', out, tr) \<Longrightarrow> map fst out = map sub_id ss"
  by (induction ss arbitrary: m w m' w' out tr) (auto split: prod.splits)

lemma fold_delete: "fold AList.delete ks al = filter (\<lambda>(k, v). k \<notin> set ks) al"
  by (induction ks arbitrary: al) (auto simp: AList.delete_eq filter_filter intro!: filter_cong)

text \<open>
  Fan-out of one notification: the outcomes are those of the subscriptions whose topic matches, in the
  iteration order of the map, and afterwards exactly the subscriptions without a 410 outcome remain.
\<close>

theorem deliver_all_outcomes:
  assumes "deliver_all env m w nt topic_matches = (m', w', out, tr)"
  shows "map fst out = map sub_id (filter (\<lambda>s. topic_matches (sub_topic s)) (map snd (wh_subscriptions m)))
     \<and> wh_subscriptions m' = filter (\<lambda>(k, s). \<not> (\<exists>d. (k, d) \<in> set out \<and> is_fatal d)) (wh_subscriptions m)"
proof -
  define subs where "subs = filter (\<lambda>s. topic_matches (sub_topic s)) (map snd (wh_subscriptions m))"
  obtain m1 w1 o1 t1 where 1: "deliver_subs env nt subs m w = (m1, w1, o1, t1)" by (metis prod_cases4)
  have o1: "out = o1" and m': "wh_subscriptions m' = fold AList.delete (map fst (filter (\<lambda>(i, d). is_fatal d) o1)) (wh_subscriptions m1)"
    using assms 1 by (auto simp: deliver_all_def subs_def Let_def)
  have "wh_subscriptions m1 = wh_subscriptions m"
    using deliver_subs_config [OF 1] by (metis WebhookChannelManager.ext_inject WebhookChannelManager.surjective
        WebhookChannelManager.update_convs(6) same_config_def)
  then have "wh_subscriptions m' = filter (\<lambda>(k, s). \<not> (\<exists>d. (k, d) \<in> set out \<and> is_fatal d)) (wh_subscriptions m)"
    unfolding m' o1 fold_delete by (intro filter_cong) (auto simp: image_iff)
  then show ?thesis using deliver_subs_out [OF 1] by (simp add: o1 subs_def)
qed

lemma deliver_subs_open:
  "circuit_open m \<Longrightarrow> deliver_subs env nt ss m w = (m, w, map (\<lambda>s. (sub_id s, TransientRetry ''circuit open'')) ss, [])"
  by (induction ss) simp_all

lemma deliver_all_open:
  assumes "circuit_open m"
  shows "\<exists>out. deliver_all env m w nt f = (m, w, out, [])"
proof -
  have "filter (\<lambda>(i, d). is_fatal d) (map (\<lambda>s. (sub_id s, TransientRetry ''circuit open'')) ss) = []" for ss :: "Subscription list"
    by (induction ss) simp_all
  then show ?thesis using assms by (simp add: deliver_all_def deliver_subs_open)
qed

text \<open>The breaker does not close by itself: once it is open, no stream of storage events sends a request or
  changes the manager, so only \<open>reset_circuit\<close> lets deliveries through again.
\<close>

theorem open_circuit_stays_open:
  assumes "circuit_open m"
  shows "wh_pump_from_storage env pod_base evs m w = (m, w, [])
     \<and> (0 < circuit_threshold m \<longrightarrow> \<not> circuit_open (reset_circuit m))"
proof -
  have "wh_pump_from_storage env pod_base evs m w = (m, w, [])"
  proof (induction evs)
    case (Cons e evs)
    obtain uuid now ev where "e = (uuid, now, ev)" by (cases e) auto
    then show ?case
      using Cons deliver_all_open [OF assms, of env w "from_storage_event uuid now ev pod_base" "\<lambda>topic. starts_with topic (event_path ev)"]
      by auto
  qed simp
  then show ?thesis by (simp add: circuit_open_def reset_circuit_def word_gt_0)
qed

text \<open>The failures left before the breaker opens, times the requests each may cost.\<close>

definition failures_left :: "'k WebhookChannelManager \<Rightarrow> nat" where
  "failures_left m = unat (circuit_threshold m) - unat (consecutive_failures m)"

definition request_budget :: "'k WebhookChannelManager \<Rightarrow> nat" where
  "request_budget m = failures_left m * Suc (unat (max_retries m))"

definition dead_network :: "('w, 'k, 'p) hook_env \<Rightarrow> bool" where
  "dead_network env \<longleftrightarrow> (\<forall>w rq. \<not> succeeds (fst (he_send env w rq)) \<and> \<not> gone (fst (he_send env w rq)))"

lemma deliver_loop_dead:
  assumes "dead_network env" and "deliver_loop env url nt t m w a = (m', w', d, tr)"
  shows "is_transient d"
  using assms
proof (induction env url nt t m w a arbitrary: m' w' d tr rule: deliver_loop.induct)
  case (1 env url nt t m w a)
  obtain r w1 where sent: "send_once env m w url nt = (r, w1)" by (cases "send_once env m w url nt")
  note step = "1.prems"(2) [unfolded deliver_loop.simps [of env url nt t m w a] sent Let_def prod.case]
  have dead: "\<not> succeeds r \<and> \<not> gone r"
    using "1.prems"(1) sent by (metis dead_network_def fst_conv send_once_def)
  show ?case
  proof (cases "hook_step env m w1 a r")
    case (Finish d0)
    then show ?thesis using hook_step_Finish [OF Finish] dead by (auto simp: succeeds_def gone_def)
  next
    case (Again n e)
    show ?thesis
    proof (cases "t \<le> a + 1")
      case True then show ?thesis using step Again by (auto simp: is_transient_def)
    next
      case False
      obtain m2 w2 d2 tr2 where rec: "deliver_loop env url nt t m w1 (a + 1) = (m2, w2, d2, tr2)" by (metis prod_cases4)
      then show ?thesis using step Again False "1.IH" [OF refl sent [symmetric] Again refl False "1.prems"(1) rec] by auto
    qed
  qed
qed

lemma same_config_simps:
  assumes "same_config m m'"
  shows "max_retries m' = max_retries m" "circuit_threshold m' = circuit_threshold m" "wh_subscriptions m' = wh_subscriptions m"
  by (subst assms [unfolded same_config_def], simp)+

lemma deliver_one_budget:
  assumes dead: "dead_network env" and one: "deliver_one env m w url nt = (m', w', d, tr)"
  shows "length tr + request_budget m' \<le> request_budget m"
proof (cases "circuit_open m")
  case True
  then show ?thesis using one by simp
next
  case False
  have tr: "is_transient d" using deliver_loop_dead [OF dead] one False by (auto simp: deliver_one_def)
  then have m': "m' = record_failure m" using deliver_one_closed [OF False one] by (simp add: delivery_ok_def)
  have lt: "consecutive_failures m < circuit_threshold m" using False by (simp add: circuit_open_def)
  then have "unat (consecutive_failures m + 1) = Suc (unat (consecutive_failures m))"
    by (metis Suc_eq_plus1 add.commute unatSuc word_order.extremum_strict eq_neg_iff_add_eq_0)
  then have "failures_left m = Suc (failures_left m')"
    using lt by (simp add: failures_left_def m' record_failure_def word_less_nat_alt)
  moreover have "length tr \<le> Suc (unat (max_retries m))"
    using deliver_one_closed [OF False one] total_attempts_unat [of m] by (auto simp: delivery_ok_def)
  ultimately show ?thesis by (simp add: request_budget_def m' record_failure_def)
qed

lemma deliver_subs_budget:
  "dead_network env \<Longrightarrow> deliver_subs env nt ss m w = (m', w', out, tr) \<Longrightarrow> length tr + request_budget m' \<le> request_budget m"
proof (induction ss arbitrary: m w m' w' out tr)
  case (Cons s ss)
  obtain m1 w1 d t1 where 1: "deliver_one env m w (sub_receive_from s) nt = (m1, w1, d, t1)" by (metis prod_cases4)
  obtain m2 w2 o2 t2 where 2: "deliver_subs env nt ss m1 w1 = (m2, w2, o2, t2)" by (metis prod_cases4)
  show ?case using deliver_one_budget [OF Cons.prems(1) 1] Cons.IH [OF Cons.prems(1) 2] Cons.prems(2) 1 2 by auto
qed simp

lemma deliver_all_budget:
  assumes "dead_network env" and "deliver_all env m w nt f = (m', w', out, tr)"
  shows "length tr + request_budget m' \<le> request_budget m"
proof -
  obtain m1 w1 o1 t1 where
    1: "deliver_subs env nt (filter (\<lambda>s. f (sub_topic s)) (map snd (wh_subscriptions m))) m w = (m1, w1, o1, t1)"
    by (metis prod_cases4)
  have "tr = t1" and "request_budget m' = request_budget m1"
    using assms(2) 1 by (auto simp: deliver_all_def Let_def request_budget_def failures_left_def)
  then show ?thesis using deliver_subs_budget [OF assms(1) 1] by simp
qed

text \<open>Dead receivers cost a bounded number of requests: while no request succeeds, any stream of storage
  events over any subscriptions sends at most \<open>circuit_threshold * (max_retries + 1)\<close> requests in all, less
  what earlier failures have used up.
\<close>

theorem dead_receivers_bounded:
  assumes "dead_network env" and "wh_pump_from_storage env pod_base evs m w = (m', w', tr)"
  shows "length tr \<le> (unat (circuit_threshold m) - unat (consecutive_failures m)) * Suc (unat (max_retries m))"
proof -
  have "length tr + request_budget m' \<le> request_budget m"
    using assms(2)
  proof (induction evs arbitrary: m w m' w' tr)
    case (Cons e evs)
    obtain uuid now ev where e: "e = (uuid, now, ev)" by (cases e) auto
    obtain m1 w1 o1 t1 where 1: "deliver_all env m w (from_storage_event uuid now ev pod_base)
        (\<lambda>topic. starts_with topic (event_path ev)) = (m1, w1, o1, t1)" by (metis prod_cases4)
    obtain m2 w2 t2 where 2: "wh_pump_from_storage env pod_base evs m1 w1 = (m2, w2, t2)" by (metis prod_cases3)
    show ?case using deliver_all_budget [OF assms(1) 1] Cons.IH [OF 2] Cons.prems 1 2 by (auto simp: e)
  qed simp
  then show ?thesis by (simp add: request_budget_def failures_left_def)
qed

section \<open>The contract of the backends\<close>

text \<open>
  The trait \<open>Notifications\<close>: what its implementations hold is a set of subscriptions. Registering one
  makes it present and leaves those with another identifier alone; removing an identifier removes
  every subscription with it and nothing else.
\<close>

datatype note_op = Subscribe Subscription | Unsubscribe string

locale notification_backend =
  fixes subscribe :: "'s \<Rightarrow> Subscription \<Rightarrow> 's"
    and unsubscribe :: "'s \<Rightarrow> string \<Rightarrow> 's"
    and subs :: "'s \<Rightarrow> Subscription set"
    and invar :: "'s \<Rightarrow> bool"
  assumes subscribe_invar: "invar st \<Longrightarrow> invar (subscribe st s)"
    and unsubscribe_invar: "invar st \<Longrightarrow> invar (unsubscribe st i)"
    and subscribe_present: "invar st \<Longrightarrow> s \<in> subs (subscribe st s)"
    and subscribe_other: "invar st \<Longrightarrow> sub_id t \<noteq> sub_id s \<Longrightarrow> t \<in> subs (subscribe st s) \<longleftrightarrow> t \<in> subs st"
    and unsubscribe_subs: "invar st \<Longrightarrow> subs (unsubscribe st i) = {s \<in> subs st. sub_id s \<noteq> i}"
begin

fun apply_op :: "'s \<Rightarrow> note_op \<Rightarrow> 's" where
  "apply_op st (Subscribe s) = subscribe st s"
| "apply_op st (Unsubscribe i) = unsubscribe st i"

lemma run_invar: "invar st \<Longrightarrow> invar (foldl apply_op st ops)"
proof (induction ops arbitrary: st)
  case (Cons x ops) then show ?case by (cases x) (simp_all add: subscribe_invar unsubscribe_invar)
qed simp

lemma unsubscribed_stays_out:
  assumes "invar st" and "\<forall>s. Subscribe s \<in> set ops \<longrightarrow> sub_id s \<noteq> i" and "s \<in> subs (foldl apply_op (unsubscribe st i) ops)"
  shows "sub_id s \<noteq> i"
proof -
  have "\<forall>s \<in> subs (foldl apply_op st' ops). sub_id s \<noteq> i"
    if "invar st'" and "\<forall>s \<in> subs st'. sub_id s \<noteq> i" for st'
    using that assms(2)
  proof (induction ops arbitrary: st')
    case (Cons x ops)
    have "\<forall>s \<in> subs (apply_op st' x). sub_id s \<noteq> i"
    proof (cases x)
      case (Subscribe t)
      then have "sub_id t \<noteq> i" using Cons.prems(3) by simp
      then show ?thesis using Subscribe Cons.prems(1,2) subscribe_other [OF Cons.prems(1), of _ t] by auto
    next
      case (Unsubscribe j) then show ?thesis using Cons.prems(1,2) by (simp add: unsubscribe_subs)
    qed
    moreover have "invar (apply_op st' x)" using Cons.prems(1) run_invar [of st' "[x]"] by simp
    ultimately show ?case using Cons.IH [of "apply_op st' x"] Cons.prems(3) by simp
  qed simp
  from this [of "unsubscribe st i"] show ?thesis
    using assms(1,3) by (simp add: unsubscribe_invar unsubscribe_subs)
qed

lemma subscribed_stays_in:
  assumes "invar st" and "\<forall>t. Subscribe t \<in> set ops \<longrightarrow> sub_id t \<noteq> sub_id s" and "Unsubscribe (sub_id s) \<notin> set ops"
  shows "s \<in> subs (foldl apply_op (subscribe st s) ops)"
proof -
  have "s \<in> subs (foldl apply_op st' ops)" if "invar st'" and "s \<in> subs st'" for st'
    using that assms(2,3)
  proof (induction ops arbitrary: st')
    case (Cons x ops)
    have "s \<in> subs (apply_op st' x)"
      using Cons.prems by (cases x) (auto simp: unsubscribe_subs subscribe_other)
    moreover have "invar (apply_op st' x)" using Cons.prems(1) run_invar [of st' "[x]"] by simp
    ultimately show ?case using Cons.IH [of "apply_op st' x"] Cons.prems(3,4) by simp
  qed simp
  then show ?thesis using assms(1) by (simp add: subscribe_invar subscribe_present)
qed

end

definition inmem_subs :: "InMemoryNotifications \<Rightarrow> Subscription set" where
  "inmem_subs st = (\<Union>(t, ss) \<in> set st. set ss)"

definition keyed :: "(string \<times> Subscription) list \<Rightarrow> bool" where
  "keyed al \<longleftrightarrow> distinct (map fst al) \<and> (\<forall>(k, s) \<in> set al. k = sub_id s)"

lemma keyed_update:
  assumes "keyed al"
  shows "keyed (AList.update (sub_id s) s al)" "s \<in> snd ` set (AList.update (sub_id s) s al)"
    "sub_id t \<noteq> sub_id s \<Longrightarrow> t \<in> snd ` set (AList.update (sub_id s) s al) \<longleftrightarrow> t \<in> snd ` set al"
proof -
  have d: "distinct (map fst (AList.update (sub_id s) s al))" using assms by (simp add: keyed_def distinct_update)
  have m: "(k, v) \<in> set (AList.update (sub_id s) s al) \<longleftrightarrow>
      (if k = sub_id s then v = s else (k, v) \<in> set al)" for k v
  proof -
    have "(k, v) \<in> set al \<longleftrightarrow> map_of al k = Some v" using assms by (simp add: keyed_def)
    moreover have "(k, v) \<in> set (AList.update (sub_id s) s al) \<longleftrightarrow> map_of (AList.update (sub_id s) s al) k = Some v"
      using d by simp
    ultimately show ?thesis by (auto simp: update_conv')
  qed
  show upd: "keyed (AList.update (sub_id s) s al)" using d assms by (auto simp: keyed_def m split: if_splits)
  show "s \<in> snd ` set (AList.update (sub_id s) s al)" using m [of "sub_id s" s] by force
  have own: "t \<in> snd ` set bl \<longleftrightarrow> (sub_id t, t) \<in> set bl" if "keyed bl" for bl t
    using that by (force simp: keyed_def)
  show "t \<in> snd ` set (AList.update (sub_id s) s al) \<longleftrightarrow> t \<in> snd ` set al" if "sub_id t \<noteq> sub_id s"
    using that by (simp add: own [OF assms] own [OF upd] m)
qed

lemma keyed_delete:
  assumes "keyed al"
  shows "keyed (AList.delete i al)" "snd ` set (AList.delete i al) = {s \<in> snd ` set al. sub_id s \<noteq> i}"
  using assms by (auto simp: keyed_def AList.delete_eq distinct_map_filter image_iff)

lemma inmem_subscribe_subs: "s' \<in> inmem_subs (inmem_subscribe st s) \<longleftrightarrow> s' = s \<or> s' \<in> inmem_subs st"
  if "distinct (map fst st)"
proof -
  have d: "distinct (map fst (inmem_subscribe st s))" using that by (simp add: inmem_subscribe_def distinct_update)
  have by_map: "s' \<in> inmem_subs al \<longleftrightarrow> (\<exists>t ss. map_of al t = Some ss \<and> s' \<in> set ss)" if "distinct (map fst al)" for al
    using that by (force simp: inmem_subs_def)
  have m: "map_of (inmem_subscribe st s) t
      = (if t = sub_topic s then Some (unwrap_or (map_of st (sub_topic s)) [] @ [s]) else map_of st t)" for t
    by (simp add: inmem_subscribe_def update_conv')
  have "(\<exists>t ss. map_of (inmem_subscribe st s) t = Some ss \<and> s' \<in> set ss) \<longleftrightarrow>
      s' \<in> set (unwrap_or (map_of st (sub_topic s)) [] @ [s]) \<or> (\<exists>t ss. t \<noteq> sub_topic s \<and> map_of st t = Some ss \<and> s' \<in> set ss)"
    unfolding m by (metis option.inject)
  also have "\<dots> \<longleftrightarrow> s' = s \<or> (\<exists>t ss. map_of st t = Some ss \<and> s' \<in> set ss)"
    by (cases "map_of st (sub_topic s)") (simp, metis option.distinct(1), simp, metis option.inject)
  finally show ?thesis unfolding by_map [OF d] by_map [OF that] .
qed

interpretation inmem: notification_backend inmem_subscribe inmem_unsubscribe inmem_subs "\<lambda>st. distinct (map fst st)"
proof
  fix st :: InMemoryNotifications and s t i
  assume d: "distinct (map fst st)"
  show "distinct (map fst (inmem_subscribe st s))" using d by (simp add: inmem_subscribe_def distinct_update)
  show "distinct (map fst (inmem_unsubscribe st i))"
    using d by (simp add: inmem_unsubscribe_def split_def comp_def)
  show "s \<in> inmem_subs (inmem_subscribe st s)" using inmem_subscribe_subs [OF d] by simp
  show "t \<in> inmem_subs (inmem_subscribe st s) \<longleftrightarrow> t \<in> inmem_subs st" if "sub_id t \<noteq> sub_id s"
    using inmem_subscribe_subs [OF d] that by auto
  show "inmem_subs (inmem_unsubscribe st i) = {s \<in> inmem_subs st. sub_id s \<noteq> i}"
  proof -
    have "x \<in> inmem_subs (inmem_unsubscribe st i) \<longleftrightarrow> (\<exists>(t, ss) \<in> set st. x \<in> set ss \<and> sub_id x \<noteq> i)" for x
      by (auto simp: inmem_unsubscribe_def inmem_subs_def split_def)
    then show ?thesis by (auto simp: set_eq_iff inmem_subs_def split_def)
  qed
qed

definition ws_subs :: "WebSocketChannelManager \<Rightarrow> Subscription set" where
  "ws_subs m = snd ` set (ws_subscriptions m)"

definition wh_subs :: "'k WebhookChannelManager \<Rightarrow> Subscription set" where
  "wh_subs m = snd ` set (wh_subscriptions m)"

interpretation wsb: notification_backend ws_subscribe ws_unsubscribe ws_subs "\<lambda>m. keyed (ws_subscriptions m)"
  by unfold_locales (simp_all add: ws_subscribe_def ws_unsubscribe_def ws_subs_def keyed_update keyed_delete)

interpretation whb: notification_backend wh_subscribe wh_unsubscribe wh_subs "\<lambda>m. keyed (wh_subscriptions m)"
  by unfold_locales (simp_all add: wh_subscribe_def wh_unsubscribe_def wh_subs_def keyed_update keyed_delete)

text \<open>
  An unsubscribed receiver is not called again: after \<open>unsubscribe\<close>, and until its identifier is registered
  anew, no later notification has an outcome for that identifier, whatever other subscriptions come and
  go in between.
\<close>

theorem unsubscribed_not_notified:
  assumes "keyed (wh_subscriptions m)" and "\<forall>s. Subscribe s \<in> set ops \<longrightarrow> sub_id s \<noteq> i"
    and "deliver_all env (foldl whb.apply_op (wh_unsubscribe m i) ops) w nt topic_matches = (m', w', out, tr)"
  shows "i \<notin> set (map fst out)"
proof
  assume "i \<in> set (map fst out)"
  then have "i \<in> sub_id ` wh_subs (foldl whb.apply_op (wh_unsubscribe m i) ops)"
    using deliver_all_outcomes [OF assms(3)] by (auto simp: wh_subs_def)
  then show False using whb.unsubscribed_stays_out [OF assms(1,2)] by blast
qed

section \<open>Percent-encoding of topics\<close>

lemma hex_upper_inj: "a < 16 \<Longrightarrow> b < 16 \<Longrightarrow> hex_upper a = hex_upper b \<longleftrightarrow> a = b"
proof -
  have "\<forall>a \<in> set [0..<16]. \<forall>b \<in> set [0..<16]. hex_upper a = hex_upper b \<longrightarrow> a = b" by code_simp
  then show "a < 16 \<Longrightarrow> b < 16 \<Longrightarrow> ?thesis" by auto
qed

lemma of_char_div_mod_inj:
  fixes b c :: char
  assumes "of_char b div 16 = (of_char c div 16 :: nat)" and "of_char b mod 16 = (of_char c mod 16 :: nat)"
  shows "b = c"
  using assms by (metis div_mult_mod_eq of_char_eq_iff)

lemma of_char_div_less: "of_char (c :: char) div 16 < (16 :: nat)"
  using nat_of_char_less_256 [of c] by linarith

text \<open>The encoded topic in a receive-from URL determines the topic: encoding is injective.\<close>

lemma urlencoding_inject: "urlencoding s = urlencoding t \<longleftrightarrow> s = t"
proof
  assume "urlencoding s = urlencoding t"
  then show "s = t"
  proof (induction s arbitrary: t)
    case Nil then show ?case by (cases t) (auto split: if_splits)
  next
    case (Cons a s)
    then obtain b t' where t: "t = b # t'" by (cases t) (auto split: if_splits)
    have pc: "\<not> url_safe (CHR ''%'')" by code_simp
    have "a = b \<and> urlencoding s = urlencoding t'"
      using Cons.prems pc of_char_div_mod_inj [of a b] of_char_div_less [of a] of_char_div_less [of b]
      by (auto simp: t hex_upper_inj split: if_splits)
    then show ?case using Cons.IH t by simp
  qed
qed simp

section \<open>Examples\<close>

text \<open>A network that fails every request, and one that asks for an hour's patience once and then delivers.\<close>

definition ex_hook_env :: "(nat \<Rightarrow> SendResult) \<Rightarrow> (nat, unit, unit) hook_env" where
  "ex_hook_env f = \<lparr>he_to_vec = cn_object, he_sign = ex_sign_env, he_now = (\<lambda>_. 0), he_send = (\<lambda>w rq. (f w, Suc w)),
     he_until = (\<lambda>_ _. None), he_jitter = (\<lambda>_ n. n)\<rparr>"

definition ex_manager :: "unit WebhookChannelManager" where
  "ex_manager = (let s = \<lparr>sub_id = ''a'', sub_topic = ''/p/'', sub_channel_type = WebhookChannel2023, sub_receive_from = ''https://h/''\<rparr>
     in \<lparr>wh_subscriptions = [(''a'', s)], retry_base = 5, max_retries = 1, max_backoff = 7, circuit_threshold = 1,
         consecutive_failures = 0, signer = None\<rparr>)"

definition ex_note :: ChangeNotification where
  "ex_note = from_storage_event ''u'' ''t'' (Created ''/p/x'') ''https://pod/''"

theorem webhook_delivery_bounded_witness:
  "case deliver_one (ex_hook_env (\<lambda>w. if w = 0 then Response 429 (Some ''3600'') else Response 200 None)) ex_manager 0 ''https://h/'' ex_note of
     (m', w', d, tr) \<Rightarrow> d = Delivered 200 \<and> length tr = 2 \<and> trace_sleeps tr = [7] \<and> length tr \<le> Suc (unat (max_retries ex_manager))"
proof -
  let ?env = "ex_hook_env (\<lambda>w. if w = 0 then Response 429 (Some ''3600'') else Response 200 None)"
  obtain m' w' d tr where 1: "deliver_one ?env ex_manager 0 ''https://h/'' ex_note = (m', w', d, tr)" by (metis prod_cases4)
  have "trim ''3600'' = ''3600''" by (rule trim_id) (simp_all add: plain_def ascii_ws_def)
  then have "parse_u64 (trim ''3600'') = Some 3600" by (simp add: parse_u64_def parse_uint_def ascii_digit_def)
  then have "d = Delivered 200 \<and> length tr = 2 \<and> trace_sleeps tr = [7]"
    using 1 by (auto simp: deliver_one_def deliver_loop.simps circuit_open_def total_attempts_of_def ex_manager_def
      send_once_def ex_hook_env_def hook_step_def retry_after_or_backoff_def parse_retry_after_def Let_def word_le_nat_alt)
  then show ?thesis using webhook_delivery_bounded [OF 1] by (simp add: 1)
qed

theorem signed_delivery_verifies_witness:
  "verify_signed_request ex_sign_env () ''chan'' (hr_headers (hook_request_of (ex_hook_env (\<lambda>_. Response 200 None))
      (with_signer ex_manager \<lparr>sc_keyid = ''chan'', sc_key = ()\<rparr>) 0 ''https://h/'' ex_note)) ''POST'' ''https://h/'' ''https://pod/p/x'' = Inr ()"
proof -
  have "hr_url (hook_request_of env m w url nt) = url" "hr_body (hook_request_of env m w url nt) = he_to_vec env nt"
    for env :: "(nat, unit, unit) hook_env" and m w url nt by (simp_all add: hook_request_of_def Let_def)
  moreover have "cn_object ex_note = ''https://pod/p/x''" by code_simp
  ultimately show ?thesis
    using signed_delivery_verifies [of "with_signer ex_manager \<lparr>sc_keyid = ''chan'', sc_key = ()\<rparr>" "\<lparr>sc_keyid = ''chan'', sc_key = ()\<rparr>"
        "ex_hook_env (\<lambda>_. Response 200 None)" "()" _ 0 "''https://h/''" ex_note]
    by (simp add: with_signer_def) (simp add: ex_hook_env_def ex_sign_env_def)
qed

theorem open_circuit_stays_open_witness:
  "wh_pump_from_storage (ex_hook_env (\<lambda>_. Response 200 None)) ''https://pod'' [(''u'', ''t'', Created ''/p/x'')] (record_failure ex_manager) 0
     = (record_failure ex_manager, 0, [])"
proof -
  have "circuit_open (record_failure ex_manager)" by code_simp
  from open_circuit_stays_open [OF this] show ?thesis by (rule conjunct1)
qed

theorem dead_receivers_bounded_witness:
  "length (snd (snd (wh_pump_from_storage (ex_hook_env (\<lambda>_. NetworkError ''down'')) ''https://pod''
     (replicate 5 (''u'', ''t'', Created ''/p/x'')) ex_manager 0))) \<le> 2"
proof -
  have dead: "dead_network (ex_hook_env (\<lambda>_. NetworkError ''down''))"
    by (simp add: dead_network_def ex_hook_env_def succeeds_def gone_def)
  obtain m' w' tr where 1: "wh_pump_from_storage (ex_hook_env (\<lambda>_. NetworkError ''down'')) ''https://pod''
     (replicate 5 (''u'', ''t'', Created ''/p/x'')) ex_manager 0 = (m', w', tr)" by (metis prod_cases3)
  show ?thesis using dead_receivers_bounded [OF dead 1] unfolding 1 by (simp add: ex_manager_def)
qed

theorem deliver_all_outcomes_witness:
  "wh_subscriptions (fst (deliver_all (ex_hook_env (\<lambda>_. Response 410 None)) ex_manager 0 ex_note (\<lambda>t. t = ''/p/''))) = []"
proof -
  let ?r = "deliver_all (ex_hook_env (\<lambda>_. Response 410 None)) ex_manager 0 ex_note (\<lambda>t. t = ''/p/'')"
  obtain m' w' out tr where 1: "?r = (m', w', out, tr)" by (metis prod_cases4)
  have "fst (snd (snd ?r)) = [(''a'', FatalDrop 410)]" by code_simp
  then have "out = [(''a'', FatalDrop 410)]" by (simp add: 1)
  then show ?thesis using deliver_all_outcomes [OF 1] unfolding 1 by (simp add: ex_manager_def)
qed

theorem unsubscribed_not_notified_witness:
  "''a'' \<notin> set (map fst (fst (snd (snd (deliver_all (ex_hook_env (\<lambda>_. Response 200 None)) (wh_unsubscribe ex_manager ''a'') 0 ex_note (\<lambda>_. True))))))"
proof -
  let ?r = "deliver_all (ex_hook_env (\<lambda>_. Response 200 None)) (wh_unsubscribe ex_manager ''a'') 0 ex_note (\<lambda>_. True)"
  obtain m' w' out tr where 1: "?r = (m', w', out, tr)" by (metis prod_cases4)
  have "keyed (wh_subscriptions ex_manager)" by (simp add: keyed_def ex_manager_def)
  from unsubscribed_not_notified [OF this, of "[]" "''a''", simplified, OF 1] show ?thesis by (simp add: 1)
qed

end
