(* ===== verification/Legacy_Notifications.thy ===== *)
theory Legacy_Notifications
  imports Storage
begin

text \<open>
  The legacy \<open>solid-0.1\<close> notification protocol: the channel with its subscription checks and codec, the
  per-connection session (\<open>notifications/legacy.rs\<close>), and the driver that runs a channel against a socket
  (\<open>handlers/legacy_notifications.rs\<close>). A \<open>HashSet\<close> is a finite set. URL parsing, the authorizer and the WAC
  check are parameters; the choices of \<open>select!\<close> are the list of inputs the driver receives.
\<close>

section \<open>Codec\<close>

definition MAX_SUBSCRIPTIONS_PER_CONNECTION :: nat where "MAX_SUBSCRIPTIONS_PER_CONNECTION = 100"
definition MAX_URL_LENGTH :: nat where "MAX_URL_LENGTH = 2048"
definition DEFAULT_HEARTBEAT_INTERVAL :: nat where "DEFAULT_HEARTBEAT_INTERVAL = 30"
definition PROTOCOL_GREETING :: string where "PROTOCOL_GREETING = ''protocol solid-0.1''"

datatype SolidZeroOp = OpSub | OpAck | OpErr | OpPub | OpUnsub

fun op_as_str :: "SolidZeroOp \<Rightarrow> string" where
  "op_as_str OpSub = ''sub''"
| "op_as_str OpAck = ''ack''"
| "op_as_str OpErr = ''err''"
| "op_as_str OpPub = ''pub''"
| "op_as_str OpUnsub = ''unsub''"

definition to_legacy_line :: "StorageEvent \<Rightarrow> string option" where
  "to_legacy_line event = Some (op_as_str OpPub @ '' '' @ event_path event)"

definition trim_end_crlf :: "string \<Rightarrow> string" where
  "trim_end_crlf s = rev (dropWhile (\<lambda>c. c = CHR 0x0D \<or> c = CHR 0x0A) (rev s))"

definition parse_prefixed :: "string \<Rightarrow> string \<Rightarrow> string option" where
  "parse_prefixed line prefix =
     (case strip_prefix prefix (trim_start (trim_end_crlf line)) of
        None \<Rightarrow> None
      | Some rest \<Rightarrow> let target = trim rest in if target = [] then None else Some target)"

definition parse_subscribe :: "string \<Rightarrow> string option" where
  "parse_subscribe line = parse_prefixed line ''sub ''"

definition parse_unsubscribe :: "string \<Rightarrow> string option" where
  "parse_unsubscribe line = parse_prefixed line ''unsub ''"

definition ack_line :: "string \<Rightarrow> string" where
  "ack_line target = op_as_str OpAck @ '' '' @ target"

definition err_line :: "string \<Rightarrow> string \<Rightarrow> string" where
  "err_line target reason = op_as_str OpErr @ '' '' @ target @ '' '' @ reason"

definition is_char_boundary :: "string \<Rightarrow> nat \<Rightarrow> bool" where
  "is_char_boundary s i \<longleftrightarrow> i = 0 \<or> i = length s \<or> i < length s \<and> \<not> in_rng 0x80 0xBF (s ! i)"

fun boundary_le :: "string \<Rightarrow> nat \<Rightarrow> nat" where
  "boundary_le s 0 = 0"
| "boundary_le s (Suc e) = (if is_char_boundary s (Suc e) then Suc e else boundary_le s e)"

definition truncate_str :: "string \<Rightarrow> nat \<Rightarrow> string" where
  "truncate_str s n = (if length s \<le> n then s else take (boundary_le s n) s)"

section \<open>The channel\<close>

datatype DenyReason = Forbidden | CrossOrigin

type_synonym authorizer = "string \<Rightarrow> string option \<Rightarrow> DenyReason + unit"

definition AllowAllAuthorizer :: authorizer where
  "AllowAllAuthorizer target subject = Inr ()"

definition DenyAllAuthorizer :: authorizer where
  "DenyAllAuthorizer target subject = Inl Forbidden"

record parsed_url =
  pu_scheme :: string
  pu_host_str :: "string option"
  pu_port :: "nat option"

record LegacyNotificationChannel =
  lc_subscriptions :: "string set"
  lc_url_cap_bytes :: nat
  lc_max_subs_per_conn :: nat
  lc_heartbeat_interval :: nat
  lc_authorizer :: authorizer
  lc_server_origin :: "string option"
  lc_web_id :: "string option"

definition LegacyNotificationChannel_new :: LegacyNotificationChannel where
  "LegacyNotificationChannel_new = \<lparr>lc_subscriptions = {}, lc_url_cap_bytes = MAX_URL_LENGTH,
     lc_max_subs_per_conn = MAX_SUBSCRIPTIONS_PER_CONNECTION, lc_heartbeat_interval = DEFAULT_HEARTBEAT_INTERVAL,
     lc_authorizer = DenyAllAuthorizer, lc_server_origin = None, lc_web_id = None\<rparr>"

definition lc_with_authorizer :: "LegacyNotificationChannel \<Rightarrow> authorizer \<Rightarrow> LegacyNotificationChannel" where
  "lc_with_authorizer c a = c\<lparr>lc_authorizer := a\<rparr>"

definition lc_with_server_origin :: "LegacyNotificationChannel \<Rightarrow> string \<Rightarrow> LegacyNotificationChannel" where
  "lc_with_server_origin c o' = c\<lparr>lc_server_origin := Some o'\<rparr>"

definition lc_with_web_id :: "LegacyNotificationChannel \<Rightarrow> string option \<Rightarrow> LegacyNotificationChannel" where
  "lc_with_web_id c w = c\<lparr>lc_web_id := w\<rparr>"

definition target_origin :: "parsed_url \<Rightarrow> string" where
  "target_origin u = pu_scheme u @ ''://'' @ unwrap_or (pu_host_str u) []
     @ (case pu_port u of None \<Rightarrow> [] | Some p \<Rightarrow> '':'' @ show_nat p)"

definition same_origin :: "(string \<Rightarrow> parsed_url option) \<Rightarrow> LegacyNotificationChannel \<Rightarrow> string \<Rightarrow> bool" where
  "same_origin url_parse c target = (case lc_server_origin c of
     None \<Rightarrow> True
   | Some so \<Rightarrow> (case url_parse target of Some u \<Rightarrow> target_origin u = so | None \<Rightarrow> False))"

definition lc_subscribe :: "(string \<Rightarrow> parsed_url option) \<Rightarrow> LegacyNotificationChannel \<Rightarrow> string \<Rightarrow> LegacyNotificationChannel \<times> (string + unit)" where
  "lc_subscribe url_parse c target =
     (if length target > lc_url_cap_bytes c then (c, Inl (''err '' @ truncate_str target 64 @ '' url-too-long''))
      else if \<not> same_origin url_parse c target then (c, Inl (''err '' @ target @ '' forbidden''))
      else if lc_max_subs_per_conn c \<le> card (lc_subscriptions c) \<and> target \<notin> lc_subscriptions c
        then (c, Inl (''err '' @ target @ '' subscription-limit''))
      else case lc_authorizer c target (lc_web_id c) of
          Inl reason \<Rightarrow> (c, Inl (''err '' @ target @ '' forbidden''))
        | Inr _ \<Rightarrow> (c\<lparr>lc_subscriptions := insert target (lc_subscriptions c)\<rparr>, Inr ()))"

definition lc_unsubscribe :: "LegacyNotificationChannel \<Rightarrow> string \<Rightarrow> LegacyNotificationChannel" where
  "lc_unsubscribe c target = c\<lparr>lc_subscriptions := lc_subscriptions c - {target}\<rparr>"

definition matches_subscription :: "LegacyNotificationChannel \<Rightarrow> string \<Rightarrow> bool" where
  "matches_subscription c uri \<longleftrightarrow>
     (\<exists>sub \<in> lc_subscriptions c. sub = uri \<or> ends_with ''/'' sub \<and> starts_with sub uri)"

section \<open>The driver\<close>

datatype OutboundFrame = Text string | Close string

definition first_token :: "string \<Rightarrow> string" where
  "first_token s = (case split_whitespace s of [] \<Rightarrow> [] | t # ts \<Rightarrow> t)"

definition handle_line :: "(string \<Rightarrow> parsed_url option) \<Rightarrow> LegacyNotificationChannel \<Rightarrow> string \<Rightarrow> LegacyNotificationChannel \<times> OutboundFrame list" where
  "handle_line url_parse c line =
     (let trimmed = trim line in
      if trimmed = [] then (c, [])
      else case parse_subscribe trimmed of
          Some target \<Rightarrow> (case lc_subscribe url_parse c target of
              (c', Inr _) \<Rightarrow> (c', [Text (ack_line target)])
            | (c', Inl e) \<Rightarrow> (c', [Text e]))
        | None \<Rightarrow> (case parse_unsubscribe trimmed of
              Some target \<Rightarrow> (lc_unsubscribe c target, [])
            | None \<Rightarrow> (c, [Close (''unknown opcode: '' @ first_token trimmed)])))"

text \<open>
  What the loop can receive: a frame or the end of the transport, an event of the broadcast (with
  whether the outbound queue is full just then), the notice that events were skipped, its end, a tick.
  The flag \<open>ld_closed\<close> says that the receiving side of the outbound queue is gone.
\<close>

datatype loop_input =
    Inbound "string option"
  | Upstream StorageEvent bool
  | UpstreamLagged nat
  | UpstreamClosed
  | Tick
  | ReceiverDropped

record LegacyWsDriver =
  ld_channel :: LegacyNotificationChannel
  ld_sent :: "OutboundFrame list"
  ld_closed :: bool
  ld_running :: bool

definition send_frames :: "LegacyWsDriver \<Rightarrow> OutboundFrame list \<Rightarrow> LegacyWsDriver" where
  "send_frames d fs = (if fs = [] then d else if ld_closed d then d\<lparr>ld_running := False\<rparr>
     else d\<lparr>ld_sent := ld_sent d @ fs\<rparr>)"

definition driver_start :: "LegacyNotificationChannel \<Rightarrow> bool \<Rightarrow> LegacyWsDriver" where
  "driver_start c closed = send_frames \<lparr>ld_channel = c, ld_sent = [], ld_closed = closed, ld_running = True\<rparr> [Text PROTOCOL_GREETING]"

fun driver_step :: "(string \<Rightarrow> parsed_url option) \<Rightarrow> LegacyWsDriver \<Rightarrow> loop_input \<Rightarrow> LegacyWsDriver" where
  "driver_step url_parse d (Inbound None) = d\<lparr>ld_running := False\<rparr>"
| "driver_step url_parse d (Inbound (Some line)) =
     (case handle_line url_parse (ld_channel d) line of (c', fs) \<Rightarrow> send_frames (d\<lparr>ld_channel := c'\<rparr>) fs)"
| "driver_step url_parse d (Upstream event full) =
     (if matches_subscription (ld_channel d) (event_path event) then
        (case to_legacy_line event of
           None \<Rightarrow> d
         | Some line \<Rightarrow> if full \<or> ld_closed d then d else d\<lparr>ld_sent := ld_sent d @ [Text line]\<rparr>)
      else d)"
| "driver_step url_parse d (UpstreamLagged n) = d"
| "driver_step url_parse d UpstreamClosed = d\<lparr>ld_running := False\<rparr>"
| "driver_step url_parse d Tick = send_frames d [Text []]"
| "driver_step url_parse d ReceiverDropped = d\<lparr>ld_closed := True\<rparr>"

fun run_loop :: "(string \<Rightarrow> parsed_url option) \<Rightarrow> LegacyWsDriver \<Rightarrow> loop_input list \<Rightarrow> LegacyWsDriver" where
  "run_loop url_parse d [] = d"
| "run_loop url_parse d (i # is) = (if ld_running d then run_loop url_parse (driver_step url_parse d i) is else d)"

section \<open>The session\<close>

datatype LegacyFrame = FrameAck string | FrameErr string | FramePub string

fun to_wire :: "LegacyFrame \<Rightarrow> string" where
  "to_wire (FrameAck u) = ''ack '' @ u"
| "to_wire (FrameErr m) = ''err '' @ m"
| "to_wire (FramePub u) = ''pub '' @ u"

type_synonym wac_read = "string option \<Rightarrow> string \<Rightarrow> bool"

record LegacyWebSocketSession =
  ls_subs :: "string set"
  ls_max_subs :: nat
  ls_max_uri_bytes :: nat
  ls_subscriber_webid :: "string option"

definition LegacyWebSocketSession_new :: "string option \<Rightarrow> LegacyWebSocketSession" where
  "LegacyWebSocketSession_new webid = \<lparr>ls_subs = {}, ls_max_subs = MAX_SUBSCRIPTIONS_PER_CONNECTION,
     ls_max_uri_bytes = MAX_URL_LENGTH, ls_subscriber_webid = webid\<rparr>"

definition with_max_subs :: "LegacyWebSocketSession \<Rightarrow> nat \<Rightarrow> LegacyWebSocketSession" where
  "with_max_subs s cap = s\<lparr>ls_max_subs := cap\<rparr>"

definition with_max_uri_bytes :: "LegacyWebSocketSession \<Rightarrow> nat \<Rightarrow> LegacyWebSocketSession" where
  "with_max_uri_bytes s cap = s\<lparr>ls_max_uri_bytes := cap\<rparr>"

definition handle_sub :: "wac_read \<Rightarrow> LegacyWebSocketSession \<Rightarrow> string \<Rightarrow> LegacyWebSocketSession \<times> LegacyFrame list" where
  "handle_sub can_read s uri =
     (if uri = [] then (s, [FrameErr ''unknown command''])
      else if length uri > ls_max_uri_bytes s then (s, [FrameErr ''uri too long''])
      else if uri \<notin> ls_subs s \<and> ls_max_subs s \<le> card (ls_subs s) then (s, [FrameErr ''subscription limit reached''])
      else if \<not> can_read (ls_subscriber_webid s) uri then (s, [FrameErr (uri @ '' forbidden'')])
      else (s\<lparr>ls_subs := insert uri (ls_subs s)\<rparr>, [FrameAck uri]))"

definition handle_unsub :: "LegacyWebSocketSession \<Rightarrow> string \<Rightarrow> LegacyWebSocketSession" where
  "handle_unsub s uri = (if uri \<noteq> [] then s\<lparr>ls_subs := ls_subs s - {uri}\<rparr> else s)"

definition handle_message :: "wac_read \<Rightarrow> LegacyWebSocketSession \<Rightarrow> string \<Rightarrow> LegacyWebSocketSession \<times> LegacyFrame list" where
  "handle_message can_read s msg =
     (let line = trim (trim_end_crlf msg) in
      if line = [] then (s, [])
      else case strip_prefix ''sub '' line of
          Some rest \<Rightarrow> handle_sub can_read s (trim rest)
        | None \<Rightarrow> (case strip_prefix ''unsub '' line of
              Some rest \<Rightarrow> (handle_unsub s (trim rest), [])
            | None \<Rightarrow> (s, [FrameErr ''unknown command''])))"

subsection \<open>Ancestor containers\<close>

definition find_origin_end :: "string \<Rightarrow> nat" where
  "find_origin_end uri = (case find_sub ''://'' uri of
     Some scheme_end \<Rightarrow>
       (let authority_start = scheme_end + 3 in
        case find_char ((=) (CHR ''/'')) (drop authority_start uri) of
          Some path_slash_rel \<Rightarrow> authority_start + path_slash_rel
        | None \<Rightarrow> length uri)
   | None \<Rightarrow> 0)"

lemma rfind_char_None: "rfind_char c s = None \<longleftrightarrow> c \<notin> set s"
  using find_char_None_iff [of "(=) c" "rev s"] by (cases "find_char ((=) c) (rev s)") (auto simp: rfind_char_def)

lemma rfind_char_Some:
  assumes "rfind_char c s = Some i"
  shows "i < length s \<and> s ! i = c \<and> c \<notin> set (drop (Suc i) s)"
proof -
  obtain k where k: "find_char ((=) c) (rev s) = Some k" and i: "i = length s - Suc k"
    using assms by (cases "find_char ((=) c) (rev s)") (auto simp: rfind_char_def)
  note f = find_char_Some [OF k]
  have kl: "k < length s" using f by simp
  have "rev s ! k = s ! i" unfolding i using kl by (rule rev_nth)
  moreover have "take k (rev s) = rev (drop (Suc i) s)" unfolding take_rev i using kl by (simp add: Suc_diff_Suc)
  ultimately show ?thesis using f kl i by auto
qed

text \<open>The loop: the cursor loses at least its last slash each round.\<close>

function ancestor_loop :: "nat \<Rightarrow> string \<Rightarrow> string list" where
  "ancestor_loop origin_end cursor =
     (case rfind_char (CHR ''/'') (drop origin_end cursor) of
        None \<Rightarrow> []
      | Some last_slash_rel \<Rightarrow>
          let last_slash_abs = origin_end + last_slash_rel;
              parent = take (Suc last_slash_abs) cursor in
          if length parent \<le> origin_end + 1 then [parent]
          else parent # ancestor_loop origin_end (take last_slash_abs cursor))"
  by pat_completeness auto
termination
proof (relation "measure (\<lambda>(e, c). length c)")
  fix e c i j p
  assume "rfind_char (CHR ''/'') (drop e c) = Some i" and j: "j = e + i"
  then have "i < length (drop e c)" using rfind_char_Some by blast
  then show "((e, take j c), e, c) \<in> measure (\<lambda>(e, c). length c)" using j by simp
qed simp

declare ancestor_loop.simps [simp del]

definition ancestor_containers :: "string \<Rightarrow> string list" where
  "ancestor_containers uri =
     (let trimmed = trim_end_matches (CHR ''/'') uri in
      if trimmed = [] then [] else ancestor_loop (find_origin_end trimmed) trimmed)"

subsection \<open>Fan-out\<close>

definition on_resource_change :: "wac_read \<Rightarrow> LegacyWebSocketSession \<Rightarrow> string \<Rightarrow> LegacyFrame list" where
  "on_resource_change can_read s changed_uri =
     (let candidates = (if changed_uri \<in> ls_subs s then {changed_uri} else {})
            \<union> set (filter (\<lambda>anc. anc \<in> ls_subs s) (ancestor_containers changed_uri)) in
      if candidates = {} then []
      else if can_read (ls_subscriber_webid s) changed_uri then [FramePub changed_uri]
      else [FrameErr (changed_uri @ '' forbidden'')])"

definition on_storage_event :: "wac_read \<Rightarrow> LegacyWebSocketSession \<Rightarrow> StorageEvent \<Rightarrow> LegacyFrame list" where
  "on_storage_event can_read s ev = on_resource_change can_read s (event_path ev)"

section \<open>Ancestor containers: what the loop computes\<close>

definition slashes_from :: "nat \<Rightarrow> string \<Rightarrow> nat list" where
  "slashes_from e s = filter (\<lambda>i. s ! i = CHR ''/'') [e..<length s]"

lemma slashes_from_last:
  assumes "rfind_char (CHR ''/'') (drop e s) = Some i"
  shows "slashes_from e s = slashes_from e (take (e + i) s) @ [e + i]"
proof -
  note r = rfind_char_Some [OF assms]
  have len: "e + i < length s" and at: "s ! (e + i) = CHR ''/''" using r by auto
  have after: "s ! j \<noteq> CHR ''/''" if "e + i < j" "j < length s" for j
  proof -
    have "s ! j \<in> set (drop (Suc i) (drop e s))"
      using that by (auto simp: in_set_conv_nth add.commute intro!: exI [of _ "j - Suc (e + i)"])
    then show ?thesis using r by auto
  qed
  have "[e..<length s] = [e..<e + i] @ (e + i) # [Suc (e + i)..<length s]"
    using len upt_add_eq_append [of e "e + i" "length s - (e + i)"] upt_conv_Cons [OF len] by simp
  moreover have "filter (\<lambda>j. s ! j = CHR ''/'') [Suc (e + i)..<length s] = []"
    using after by (auto simp: filter_empty_conv)
  moreover have "filter (\<lambda>j. s ! j = CHR ''/'') [e..<e + i] = slashes_from e (take (e + i) s)"
    using len by (auto simp: slashes_from_def min_def intro!: filter_cong)
  ultimately show ?thesis using at by (simp add: slashes_from_def)
qed

lemma ancestor_loop_eq: "ancestor_loop e s = map (\<lambda>i. take (Suc i) s) (rev (slashes_from e s))"
proof (induction e s rule: ancestor_loop.induct)
  case (1 e s)
  show ?case
  proof (cases "rfind_char (CHR ''/'') (drop e s)")
    case None
    then have "slashes_from e s = []"
      unfolding rfind_char_None slashes_from_def by (auto simp: filter_empty_conv in_set_conv_nth) (metis le_add_diff_inverse less_diff_conv add.commute)
    then show ?thesis using None by (simp add: ancestor_loop.simps)
  next
    case (Some i)
    have len: "e + i < length s" using rfind_char_Some [OF Some] by auto
    have shorter: "map (\<lambda>j. take (Suc j) (take (e + i) s)) (rev (slashes_from e (take (e + i) s)))
        = map (\<lambda>j. take (Suc j) s) (rev (slashes_from e (take (e + i) s)))"
      by (auto simp: slashes_from_def min_def)
    show ?thesis
    proof (cases "length (take (Suc (e + i)) s) \<le> e + 1")
      case True
      then have "i = 0" using len by simp
      then have "slashes_from e (take (e + i) s) = []" by (simp add: slashes_from_def)
      then show ?thesis using Some True slashes_from_last [OF Some] by (simp add: ancestor_loop.simps)
    next
      case False
      then show ?thesis
        using Some 1 [OF Some refl refl False] slashes_from_last [OF Some] shorter
        by (subst ancestor_loop.simps) (simp add: Let_def)
    qed
  qed
qed

text \<open>
  The ancestors of a URI are its prefixes that end with a slash, at or after the end of the origin, once
  trailing slashes are removed: every one is found, nearest first, the walk ends at the origin root and
  never climbs into the scheme or the authority.
\<close>

theorem ancestor_containers_spec:
  "ancestor_containers uri = (let t = trim_end_matches (CHR ''/'') uri in
     map (\<lambda>i. take (Suc i) t) (rev (filter (\<lambda>i. t ! i = CHR ''/'') [find_origin_end t..<length t])))"
  by (simp add: ancestor_containers_def ancestor_loop_eq slashes_from_def Let_def)

section \<open>The session as a state machine\<close>

datatype session_event = Message wac_read string | Change wac_read string

inductive session_step :: "LegacyWebSocketSession \<Rightarrow> session_event \<Rightarrow> LegacyFrame list \<Rightarrow> LegacyWebSocketSession \<Rightarrow> bool" where
  step_message: "handle_message can_read s msg = (s', fs) \<Longrightarrow> session_step s (Message can_read msg) fs s'"
| step_change: "on_resource_change can_read s uri = fs \<Longrightarrow> session_step s (Change can_read uri) fs s"

inductive_cases session_step_cases: "session_step s e fs s'"

lemma session_step_E:
  assumes "session_step s e fs s'"
  obtains (message) can_read msg where "e = Message can_read msg" and "handle_message can_read s msg = (s', fs)"
    | (change) can_read uri where "e = Change can_read uri" and "fs = on_resource_change can_read s uri" and "s' = s"
  using assms by (elim session_step_cases) blast+

inductive session_trace :: "LegacyWebSocketSession \<Rightarrow> (session_event \<times> LegacyFrame list) list \<Rightarrow> LegacyWebSocketSession \<Rightarrow> bool" where
  trace_start: "session_trace s [] s"
| trace_step: "session_trace s tr s' \<Longrightarrow> session_step s' e fs s'' \<Longrightarrow> session_trace s (tr @ [(e, fs)]) s''"

text \<open>A subscription that was acknowledged while the check allowed reading its URI.\<close>

definition granted :: "(session_event \<times> LegacyFrame list) list \<Rightarrow> string option \<Rightarrow> string \<Rightarrow> bool" where
  "granted tr webid uri \<longleftrightarrow> (\<exists>can_read msg. (Message can_read msg, [FrameAck uri]) \<in> set tr \<and> can_read webid uri)"

lemma granted_append: "granted tr webid uri \<Longrightarrow> granted (tr @ tr') webid uri"
  by (auto simp: granted_def)

lemma handle_message_cases:
  assumes "handle_message can_read s msg = (s', fs)"
  shows "(\<exists>uri. uri \<noteq> [] \<and> length uri \<le> ls_max_uri_bytes s \<and> (uri \<notin> ls_subs s \<longrightarrow> card (ls_subs s) < ls_max_subs s)
            \<and> can_read (ls_subscriber_webid s) uri \<and> fs = [FrameAck uri] \<and> s' = s\<lparr>ls_subs := insert uri (ls_subs s)\<rparr>)
       \<or> (\<exists>uri. fs = [] \<and> s' = s\<lparr>ls_subs := ls_subs s - {uri}\<rparr>)
       \<or> s' = s \<and> (\<forall>f \<in> set fs. \<exists>m. f = FrameErr m)"
proof -
  define line where "line = trim (trim_end_crlf msg)"
  note h = assms [unfolded handle_message_def, folded line_def, unfolded Let_def]
  show ?thesis
  proof (cases "strip_prefix ''sub '' line")
    case None
    then show ?thesis
      using h by (cases "strip_prefix ''unsub '' line") (auto simp: handle_unsub_def split: if_splits)
  next
    case (Some rest)
    then have "line \<noteq> []" by (auto simp: strip_prefix_Some_iff)
    then have "handle_sub can_read s (trim rest) = (s', fs)" using h Some by simp
    then show ?thesis by (auto simp: handle_sub_def split: if_splits)
  qed
qed

lemma session_config:
  "session_trace s0 tr s \<Longrightarrow> ls_max_subs s = ls_max_subs s0 \<and> ls_max_uri_bytes s = ls_max_uri_bytes s0
     \<and> ls_subscriber_webid s = ls_subscriber_webid s0"
proof (induction rule: session_trace.induct)
  case (trace_step s tr s' e fs s'')
  then show ?case by (auto elim!: session_step_cases dest!: handle_message_cases)
qed simp

definition session_ok :: "(session_event \<times> LegacyFrame list) list \<Rightarrow> LegacyWebSocketSession \<Rightarrow> bool" where
  "session_ok tr s \<longleftrightarrow> finite (ls_subs s) \<and> card (ls_subs s) \<le> ls_max_subs s
     \<and> (\<forall>u \<in> ls_subs s. u \<noteq> [] \<and> length u \<le> ls_max_uri_bytes s \<and> granted tr (ls_subscriber_webid s) u)"

lemma session_ok_step:
  assumes "session_ok tr s" and "session_step s e fs s'"
  shows "session_ok (tr @ [(e, fs)]) s'"
  using assms(2)
proof (cases rule: session_step_E)
  case (message can_read msg)
  from handle_message_cases [OF message(2)] show ?thesis
  proof (elim disjE exE conjE)
    fix uri
    assume u: "uri \<noteq> []" "length uri \<le> ls_max_uri_bytes s" "uri \<notin> ls_subs s \<longrightarrow> card (ls_subs s) < ls_max_subs s"
      "can_read (ls_subscriber_webid s) uri" and fs: "fs = [FrameAck uri]" and s': "s' = s\<lparr>ls_subs := insert uri (ls_subs s)\<rparr>"
    have "granted (tr @ [(e, fs)]) (ls_subscriber_webid s) uri" using u fs message(1) by (auto simp: granted_def)
    then show ?thesis using assms(1) u by (auto simp: session_ok_def s' card_insert_if intro: granted_append)
  next
    fix uri assume "s' = s\<lparr>ls_subs := ls_subs s - {uri}\<rparr>"
    moreover have "card (ls_subs s - {uri}) \<le> card (ls_subs s)" by (rule card_Diff1_le)
    ultimately show ?thesis using assms(1) by (auto simp: session_ok_def intro: granted_append)
  next
    assume "s' = s" then show ?thesis using assms(1) by (auto simp: session_ok_def intro: granted_append)
  qed
next
  case (change can_read uri)
  then show ?thesis using assms(1) by (auto simp: session_ok_def intro: granted_append)
qed

lemma session_trace_ok: "session_trace s0 tr s \<Longrightarrow> ls_subs s0 = {} \<Longrightarrow> session_ok tr s"
  by (induction rule: session_trace.induct) (simp add: session_ok_def, blast intro: session_ok_step)

lemma session_trace_split:
  "session_trace s0 tr s \<Longrightarrow> tr = tr1 @ (e, fs) # tr2 \<Longrightarrow> \<exists>s1 s2. session_trace s0 tr1 s1 \<and> session_step s1 e fs s2"
proof (induction arbitrary: tr2 rule: session_trace.induct)
  case (trace_step s tr s' e' fs' s'')
  show ?case
  proof (cases tr2 rule: rev_cases)
    case Nil then show ?thesis using trace_step by auto
  next
    case (snoc ys y) then show ?thesis using trace_step by auto
  qed
qed simp

lemma publish_step:
  assumes "session_step s e fs s'" and "FramePub u \<in> set fs"
  shows "\<exists>can_read. e = Change can_read u \<and> fs = [FramePub u] \<and> can_read (ls_subscriber_webid s) u
    \<and> (\<exists>v \<in> insert u (set (ancestor_containers u)). v \<in> ls_subs s)"
  using assms(1)
proof (cases rule: session_step_E)
  case (message can_read msg)
  then show ?thesis using handle_message_cases [OF message(2)] assms(2) by fastforce
next
  case (change can_read uri)
  then show ?thesis
    using assms(2) by (auto simp: on_resource_change_def Let_def filter_empty_conv split: if_splits)
qed

text \<open>C36: Legacy sessions: in every run of a connection, with access rights that may change at any time, the
  live subscriptions stay within the connection's limits and each was acknowledged while its URI was
  readable; and a \<open>pub\<close> frame is sent only for the URI that changed, only when the subscriber may read it
  at that moment, and only after a granted subscription to that URI or one of its ancestor containers.
\<close>

theorem legacy_session_safe:
  assumes "session_trace (LegacyWebSocketSession_new webid) tr s"
  shows "finite (ls_subs s) \<and> card (ls_subs s) \<le> MAX_SUBSCRIPTIONS_PER_CONNECTION
     \<and> (\<forall>u \<in> ls_subs s. u \<noteq> [] \<and> length u \<le> MAX_URL_LENGTH \<and> granted tr webid u)
     \<and> (\<forall>tr1 e fs tr2 u. tr = tr1 @ (e, fs) # tr2 \<and> FramePub u \<in> set fs \<longrightarrow>
          (\<exists>can_read. e = Change can_read u \<and> fs = [FramePub u] \<and> can_read webid u)
          \<and> (\<exists>v \<in> insert u (set (ancestor_containers u)). granted tr1 webid v))"
proof -
  have new: "ls_subs (LegacyWebSocketSession_new webid) = {}" by (simp add: LegacyWebSocketSession_new_def)
  have conf: "ls_max_subs s' = MAX_SUBSCRIPTIONS_PER_CONNECTION" "ls_max_uri_bytes s' = MAX_URL_LENGTH" "ls_subscriber_webid s' = webid"
    if "session_trace (LegacyWebSocketSession_new webid) t s'" for t s'
    using session_config [OF that] by (simp_all add: LegacyWebSocketSession_new_def)
  have pub: "(\<exists>can_read. e = Change can_read u \<and> fs = [FramePub u] \<and> can_read webid u)
      \<and> (\<exists>v \<in> insert u (set (ancestor_containers u)). granted tr1 webid v)"
    if split: "tr = tr1 @ (e, fs) # tr2" and u: "FramePub u \<in> set fs" for tr1 e fs tr2 u
  proof -
    obtain s1 s2 where 1: "session_trace (LegacyWebSocketSession_new webid) tr1 s1" and 2: "session_step s1 e fs s2"
      using session_trace_split [OF assms split] by blast
    show ?thesis
      using publish_step [OF 2 u] session_trace_ok [OF 1 new] conf [OF 1] unfolding session_ok_def by metis
  qed
  show ?thesis
    using session_trace_ok [OF assms new] conf [OF assms] pub unfolding session_ok_def by (intro conjI) auto
qed

section \<open>What the driver publishes\<close>

definition covers :: "string \<Rightarrow> string \<Rightarrow> bool" where
  "covers sub uri \<longleftrightarrow> sub = uri \<or> ends_with ''/'' sub \<and> starts_with sub uri"

definition admissible :: "(string \<Rightarrow> parsed_url option) \<Rightarrow> LegacyNotificationChannel \<Rightarrow> string \<Rightarrow> bool" where
  "admissible url_parse c target \<longleftrightarrow> length target \<le> lc_url_cap_bytes c \<and> same_origin url_parse c target
     \<and> lc_authorizer c target (lc_web_id c) = Inr ()"

definition is_pub :: "OutboundFrame \<Rightarrow> bool" where
  "is_pub f = (case f of Text line \<Rightarrow> starts_with ''pub '' line | Close r \<Rightarrow> False)"

definition channel_ok :: "(string \<Rightarrow> parsed_url option) \<Rightarrow> LegacyNotificationChannel \<Rightarrow> LegacyNotificationChannel \<Rightarrow> bool" where
  "channel_ok url_parse c0 c \<longleftrightarrow> c = c0\<lparr>lc_subscriptions := lc_subscriptions c\<rparr>
     \<and> finite (lc_subscriptions c) \<and> card (lc_subscriptions c) \<le> lc_max_subs_per_conn c0
     \<and> (\<forall>u \<in> lc_subscriptions c. admissible url_parse c0 u)"

lemma same_origin_subs [simp]: "same_origin url_parse (c\<lparr>lc_subscriptions := x\<rparr>) t = same_origin url_parse c t"
  by (simp add: same_origin_def)

lemma lc_subscribe_ok:
  assumes "channel_ok url_parse c0 c" and "lc_subscribe url_parse c target = (c', r)"
  shows "channel_ok url_parse c0 c' \<and> (\<forall>e. r = Inl e \<longrightarrow> starts_with ''err '' e)"
proof -
  have c: "c = c0\<lparr>lc_subscriptions := lc_subscriptions c\<rparr>" using assms(1) by (simp add: channel_ok_def)
  have conf: "lc_url_cap_bytes c = lc_url_cap_bytes c0" "lc_max_subs_per_conn c = lc_max_subs_per_conn c0"
      "lc_authorizer c = lc_authorizer c0" "lc_web_id c = lc_web_id c0" "same_origin url_parse c target = same_origin url_parse c0 target"
    by (subst c, simp)+
  show ?thesis
  proof (cases "\<exists>e. r = Inl e")
    case True
    then have "c' = c \<and> (\<forall>e. r = Inl e \<longrightarrow> starts_with ''err '' e)"
      using assms(2) by (auto simp: lc_subscribe_def split: if_splits sum.splits)
    then show ?thesis using assms(1) by simp
  next
    case False
    then have r: "r = Inr ()" by (cases r) auto
    have *: "length target \<le> lc_url_cap_bytes c" "same_origin url_parse c target"
        "target \<notin> lc_subscriptions c \<longrightarrow> card (lc_subscriptions c) < lc_max_subs_per_conn c"
        "lc_authorizer c target (lc_web_id c) = Inr ()" "c' = c\<lparr>lc_subscriptions := insert target (lc_subscriptions c)\<rparr>"
      using assms(2) r by (auto simp: lc_subscribe_def split: if_splits sum.splits)
    then have "admissible url_parse c0 target" by (simp add: admissible_def conf)
    moreover have "c' = c0\<lparr>lc_subscriptions := insert target (lc_subscriptions c)\<rparr>"
      unfolding *(5) by (subst c) simp
    ultimately show ?thesis using assms(1) * r by (auto simp: channel_ok_def card_insert_if conf)
  qed
qed

lemma not_pub: "starts_with ''err '' e \<Longrightarrow> \<not> is_pub (Text e)" "\<not> is_pub (Text (ack_line t))" "\<not> is_pub (Close r)"
    "\<not> is_pub (Text [])" "\<not> is_pub (Text PROTOCOL_GREETING)"
  by (auto simp: is_pub_def starts_with_iff ack_line_def PROTOCOL_GREETING_def)

lemma handle_line_ok:
  assumes "channel_ok url_parse c0 c" and "handle_line url_parse c line = (c', fs)"
  shows "channel_ok url_parse c0 c' \<and> list_all (\<lambda>f. \<not> is_pub f) fs"
proof (cases "trim line = []")
  case True
  then show ?thesis using assms by (simp add: handle_line_def Let_def)
next
  case False
  show ?thesis
  proof (cases "parse_subscribe (trim line)")
    case (Some target)
    obtain c1 r where sub: "lc_subscribe url_parse c target = (c1, r)" by (cases "lc_subscribe url_parse c target")
    show ?thesis
      using assms(2) Some False sub lc_subscribe_ok [OF assms(1) sub] not_pub
      by (cases r) (auto simp: handle_line_def Let_def)
  next
    case None
    have "channel_ok url_parse c0 (lc_unsubscribe c t)" for t
    proof -
      have "lc_unsubscribe c t = c0\<lparr>lc_subscriptions := lc_subscriptions c - {t}\<rparr>"
        using assms(1) unfolding channel_ok_def lc_unsubscribe_def by (metis LegacyNotificationChannel.fold_congs(1) LegacyNotificationChannel.update_convs(1) LegacyNotificationChannel.surjective)
      moreover have "card (lc_subscriptions c - {t}) \<le> card (lc_subscriptions c)" by (rule card_Diff1_le)
      ultimately show ?thesis using assms(1) by (auto simp: channel_ok_def)
    qed
    then show ?thesis
      using assms None False not_pub(3)
      by (cases "parse_unsubscribe (trim line)") (auto simp: handle_line_def Let_def)
  qed
qed

definition pub_ok :: "(string \<Rightarrow> parsed_url option) \<Rightarrow> LegacyNotificationChannel \<Rightarrow> loop_input list \<Rightarrow> OutboundFrame \<Rightarrow> bool" where
  "pub_ok url_parse c0 ins f \<longleftrightarrow> (is_pub f \<longrightarrow> (\<exists>ev sub full. Upstream ev full \<in> set ins \<and> f = Text (''pub '' @ event_path ev)
     \<and> admissible url_parse c0 sub \<and> covers sub (event_path ev)))"

definition driver_ok :: "(string \<Rightarrow> parsed_url option) \<Rightarrow> LegacyNotificationChannel \<Rightarrow> loop_input list \<Rightarrow> LegacyWsDriver \<Rightarrow> bool" where
  "driver_ok url_parse c0 ins d \<longleftrightarrow> channel_ok url_parse c0 (ld_channel d) \<and> list_all (pub_ok url_parse c0 ins) (ld_sent d)"

lemma send_frames_ok:
  "driver_ok url_parse c0 ins d \<Longrightarrow> list_all (\<lambda>f. \<not> is_pub f) fs \<Longrightarrow> driver_ok url_parse c0 ins (send_frames d fs)"
  by (auto simp: driver_ok_def send_frames_def pub_ok_def list_all_iff)

lemma driver_step_ok:
  assumes "driver_ok url_parse c0 ins d" and "i \<in> set ins"
  shows "driver_ok url_parse c0 ins (driver_step url_parse d i)"
proof (cases i)
  case (Inbound l)
  show ?thesis
  proof (cases l)
    case (Some line)
    obtain c' fs where h: "handle_line url_parse (ld_channel d) line = (c', fs)" by (cases "handle_line url_parse (ld_channel d) line")
    have "driver_ok url_parse c0 ins (d\<lparr>ld_channel := c'\<rparr>)" "list_all (\<lambda>f. \<not> is_pub f) fs"
      using assms(1) handle_line_ok [OF _ h] by (auto simp: driver_ok_def)
    then show ?thesis using Inbound Some h send_frames_ok by simp
  qed (use Inbound assms in \<open>simp add: driver_ok_def\<close>)
next
  case (Upstream ev full)
  have "pub_ok url_parse c0 ins (Text (''pub '' @ event_path ev))" if "matches_subscription (ld_channel d) (event_path ev)"
    using that assms Upstream unfolding pub_ok_def driver_ok_def channel_ok_def matches_subscription_def covers_def by blast
  then show ?thesis using assms(1) Upstream by (simp add: driver_ok_def to_legacy_line_def)
next
  case Tick
  then show ?thesis using assms(1) not_pub(4) by (simp add: send_frames_ok)
qed (use assms in \<open>simp_all add: driver_ok_def\<close>)

lemma run_loop_ok:
  "driver_ok url_parse c0 ins d \<Longrightarrow> set is \<subseteq> set ins \<Longrightarrow> driver_ok url_parse c0 ins (run_loop url_parse d is)"
  by (induction "is" arbitrary: d) (auto simp: driver_step_ok)

lemma driver_run_ok:
  assumes "lc_subscriptions c = {}"
  shows "driver_ok url_parse c ins (run_loop url_parse (driver_start c closed) ins)"
proof (rule run_loop_ok [OF _ subset_refl])
  show "driver_ok url_parse c ins (driver_start c closed)"
    unfolding driver_start_def using assms not_pub(5) by (intro send_frames_ok) (simp_all add: driver_ok_def channel_ok_def)
qed

text \<open>C37: The driver of a legacy connection, on any interleaving of client frames, storage events and ticks:
  the channel's subscriptions stay within the cap, each is short enough, of the server's origin and
  admitted by the authorizer, and a \<open>pub\<close> frame is sent only for a storage event whose path an admitted
  subscription covers. A channel with the default authorizer thus never publishes.
\<close>

theorem legacy_driver_safe:
  assumes "lc_subscriptions c = {}" and "d = run_loop url_parse (driver_start c closed) ins"
  shows "card (lc_subscriptions (ld_channel d)) \<le> lc_max_subs_per_conn c
     \<and> (\<forall>u \<in> lc_subscriptions (ld_channel d). admissible url_parse c u)
     \<and> (\<forall>f \<in> set (ld_sent d). is_pub f \<longrightarrow> (\<exists>ev full sub. Upstream ev full \<in> set ins \<and> f = Text (''pub '' @ event_path ev)
          \<and> admissible url_parse c sub \<and> covers sub (event_path ev)))
     \<and> (lc_authorizer c = DenyAllAuthorizer \<longrightarrow> lc_subscriptions (ld_channel d) = {} \<and> (\<forall>f \<in> set (ld_sent d). \<not> is_pub f))"
proof -
  note ok = driver_run_ok [OF assms(1), of url_parse ins closed, folded assms(2)]
  have "\<not> admissible url_parse c u" if "lc_authorizer c = DenyAllAuthorizer" for u
    using that by (simp add: admissible_def DenyAllAuthorizer_def)
  then show ?thesis using ok unfolding driver_ok_def channel_ok_def list_all_iff pub_ok_def by blast
qed

text \<open>With a server origin configured, the driver is silent on the events of the storage backends: their
  paths start with a slash, the same-origin check admits only absolute URLs, and a path is never
  equal to or below an absolute URL.
\<close>

theorem same_origin_driver_silent:
  assumes "lc_subscriptions c = {}" and "lc_server_origin c = Some so"
    and "\<And>r. url_parse (CHR ''/'' # r) = None"
    and "\<forall>ev full. Upstream ev full \<in> set ins \<longrightarrow> starts_with ''/'' (event_path ev)"
  shows "\<forall>f \<in> set (ld_sent (run_loop url_parse (driver_start c closed) ins)). \<not> is_pub f"
proof (intro ballI notI)
  fix f assume "f \<in> set (ld_sent (run_loop url_parse (driver_start c closed) ins))" and "is_pub f"
  then obtain ev full sub where ev: "Upstream ev full \<in> set ins" and sub: "admissible url_parse c sub" "covers sub (event_path ev)"
    using driver_run_ok [OF assms(1), of url_parse ins closed] by (auto simp: driver_ok_def list_all_iff pub_ok_def)
  obtain p where p: "event_path ev = CHR ''/'' # p" using assms(4) ev by (fastforce simp: starts_with_iff)
  obtain r where "sub = CHR ''/'' # r"
    using sub(2) p by (cases sub) (auto simp: covers_def ends_with_iff)
  then show False using sub(1) assms(2,3) by (simp add: admissible_def same_origin_def)
qed

section \<open>Examples\<close>

definition ex_read :: wac_read where
  "ex_read webid uri = starts_with ''/a/'' uri"

definition ex_subscribed :: LegacyWebSocketSession where
  "ex_subscribed = (LegacyWebSocketSession_new None)\<lparr>ls_subs := {''/a/''}\<rparr>"

theorem legacy_session_safe_witness:
  "\<exists>v \<in> insert ''/a/b'' (set (ancestor_containers ''/a/b'')). granted [(Message ex_read ''sub /a/'', [FrameAck ''/a/''])] None v"
proof -
  have "handle_message ex_read (LegacyWebSocketSession_new None) ''sub /a/'' = (ex_subscribed, [FrameAck ''/a/''])"
    by code_simp
  then have 1: "session_trace (LegacyWebSocketSession_new None) ([] @ [(Message ex_read ''sub /a/'', [FrameAck ''/a/''])]) ex_subscribed"
    by (intro trace_step [OF trace_start] step_message)
  have "on_resource_change ex_read ex_subscribed ''/a/b'' = [FramePub ''/a/b'']" by code_simp
  then have "session_trace (LegacyWebSocketSession_new None)
      (([] @ [(Message ex_read ''sub /a/'', [FrameAck ''/a/''])]) @ [(Change ex_read ''/a/b'', [FramePub ''/a/b''])]) ex_subscribed"
    by (intro trace_step [OF 1] step_change)
  note safe = legacy_session_safe [OF this, THEN conjunct2, THEN conjunct2, THEN conjunct2, rule_format,
      of "[(Message ex_read ''sub /a/'', [FrameAck ''/a/''])]" "Change ex_read ''/a/b''" "[FramePub ''/a/b'']" "[]" "''/a/b''"]
  show ?thesis by (rule safe [THEN conjunct2]) simp
qed

definition ex_channel :: LegacyNotificationChannel where
  "ex_channel = lc_with_server_origin (lc_with_authorizer LegacyNotificationChannel_new AllowAllAuthorizer) ''https://h''"

definition ex_url_parse :: "string \<Rightarrow> parsed_url option" where
  "ex_url_parse s = (if starts_with ''https://h/'' s then Some \<lparr>pu_scheme = ''https'', pu_host_str = Some ''h'', pu_port = None\<rparr> else None)"

theorem legacy_driver_safe_witness:
  "card (lc_subscriptions (ld_channel (run_loop ex_url_parse (driver_start ex_channel False)
     [Inbound (Some ''sub https://h/a/''), Upstream (Created ''https://h/a/b'') False]))) \<le> 100
   \<and> Text ''pub https://h/a/b'' \<in> set (ld_sent (run_loop ex_url_parse (driver_start ex_channel False)
     [Inbound (Some ''sub https://h/a/''), Upstream (Created ''https://h/a/b'') False]))"
proof -
  have sent: "Text ''pub https://h/a/b'' \<in> set (ld_sent (run_loop ex_url_parse (driver_start ex_channel False)
     [Inbound (Some ''sub https://h/a/''), Upstream (Created ''https://h/a/b'') False]))" by code_simp
  have c: "lc_subscriptions ex_channel = {}" "lc_max_subs_per_conn ex_channel = 100" by code_simp+
  show ?thesis using legacy_driver_safe [OF c(1) refl, of ex_url_parse False "[Inbound (Some ''sub https://h/a/''), Upstream (Created ''https://h/a/b'') False]"]
      sent unfolding c(2) by (intro conjI) (elim conjE)
qed

theorem same_origin_driver_silent_witness:
  "list_all (\<lambda>f. \<not> is_pub f) (ld_sent (run_loop ex_url_parse (driver_start ex_channel False)
     [Inbound (Some ''sub https://h/a/''), Upstream (Created ''/a/b'') False]))"
  unfolding list_all_iff
proof (rule same_origin_driver_silent [where so = "''https://h''"])
  show "lc_subscriptions ex_channel = {}" "lc_server_origin ex_channel = Some ''https://h''" by code_simp+
  show "ex_url_parse (CHR ''/'' # r) = None" for r by (simp add: ex_url_parse_def)
  show "\<forall>ev full. Upstream ev full \<in> set [Inbound (Some ''sub https://h/a/''), Upstream (Created ''/a/b'') False] \<longrightarrow>
      starts_with ''/'' (event_path ev)" by simp
qed

end
