(* ===== verification/Nostr_Relay.thy ===== *)
theory Nostr_Relay
  imports Json "HOL-Library.AList"
begin

text \<open>
  The embedded Nostr relay: events, filters, the event store and the relay
  (\<open>solid-pod-rs-nostr/src/relay.rs\<close>), and the wire protocol of a socket (\<open>solid-pod-rs-nostr/src/ws.rs\<close>). The
  store is an interface, the record of its operations, whose contract is the locale \<open>event_store\<close>; the
  bounded in-memory store provides it. Hexadecimal, SHA-256, Schnorr signatures and the JSON codec are
  the fields of an environment. The broadcast channel is the list of the events sent on it.
\<close>

section \<open>Events\<close>

record Event =
  e_id :: string
  e_pubkey :: string
  e_created_at :: u64
  e_kind :: u64
  e_tags :: "string list list"
  e_content :: string
  e_sig :: string

datatype RelayError =
    InvalidEvent string
  | IdMismatch
  | RelayBadSignature string
  | BadMessage string

fun relay_error_to_string :: "RelayError \<Rightarrow> string" where
  "relay_error_to_string (InvalidEvent m) = ''invalid event: '' @ m"
| "relay_error_to_string IdMismatch = ''event id mismatch''"
| "relay_error_to_string (RelayBadSignature m) = ''bad signature: '' @ m"
| "relay_error_to_string (BadMessage m) = ''bad wire message: '' @ m"

record Filter =
  fl_ids :: "string list option"
  fl_authors :: "string list option"
  fl_kinds :: "u64 list option"
  fl_since :: "u64 option"
  fl_until :: "u64 option"
  fl_limit :: "nat option"
  fl_tags :: "(string \<times> json) list"

record ('k, 's) relay_env =
  re_json_to_string :: "json \<Rightarrow> string"
  re_json_from_str :: "string \<Rightarrow> string + json"
  re_event_from_value :: "json \<Rightarrow> string + Event"
  re_event_to_value :: "Event \<Rightarrow> json"
  re_filter_from_value :: "json \<Rightarrow> string + Filter"
  re_hex_encode :: "bytes \<Rightarrow> string"
  re_hex_decode :: "string \<Rightarrow> string + bytes"
  re_sha256 :: "bytes \<Rightarrow> bytes"
  re_verifying_key :: "bytes \<Rightarrow> string + 'k"
  re_signature :: "bytes \<Rightarrow> string + 's"
  re_schnorr_verify :: "'k \<Rightarrow> bytes \<Rightarrow> 's \<Rightarrow> string + unit"

definition canonical_id :: "('k, 's) relay_env \<Rightarrow> Event \<Rightarrow> string" where
  "canonical_id env e =
     (let canonical = JArray [JNumber ''0'', JString (e_pubkey e), JNumber (show_nat (unat (e_created_at e))),
            JNumber (show_nat (unat (e_kind e))), JArray (map (\<lambda>t. JArray (map JString t)) (e_tags e)), JString (e_content e)]
      in re_hex_encode env (re_sha256 env (re_json_to_string env canonical)))"

text \<open>
  The computed identifier is hexadecimal, and no code point above ASCII has a lower-case mapping into
  the hexadecimal digits, so comparing the lower-case forms is the ASCII comparison.
\<close>

definition event_verify :: "('k, 's) relay_env \<Rightarrow> Event \<Rightarrow> RelayError + unit" where
  "event_verify env e =
     (if length (e_pubkey e) \<noteq> 64 \<or> \<not> is_ok (re_hex_decode env (e_pubkey e)) then Inl (InvalidEvent ''pubkey not 32-byte hex'')
      else if length (e_sig e) \<noteq> 128 \<or> \<not> is_ok (re_hex_decode env (e_sig e)) then Inl (InvalidEvent ''sig not 64-byte hex'')
      else let computed = canonical_id env e in
        if to_ascii_lowercase computed \<noteq> to_ascii_lowercase (e_id e) then Inl IdMismatch
        else rbind (map_err InvalidEvent (re_hex_decode env (e_pubkey e))) (\<lambda>pk_bytes.
             rbind (map_err InvalidEvent (re_hex_decode env (e_sig e))) (\<lambda>sig_bytes.
             rbind (map_err InvalidEvent (re_hex_decode env computed)) (\<lambda>id_bytes.
             rbind (map_err RelayBadSignature (re_verifying_key env pk_bytes)) (\<lambda>vk.
             rbind (map_err RelayBadSignature (re_signature env sig_bytes)) (\<lambda>sig.
               map_err RelayBadSignature (re_schnorr_verify env vk id_bytes sig)))))))"

definition tag_is :: "string \<Rightarrow> string list \<Rightarrow> bool" where
  "tag_is name t = (case t of [] \<Rightarrow> False | n # ns \<Rightarrow> n = name)"

definition tag_value :: "string list \<Rightarrow> string option" where
  "tag_value t = (case t of n # v # vs \<Rightarrow> Some v | _ \<Rightarrow> None)"

definition d_tag :: "Event \<Rightarrow> string option" where
  "d_tag e = Option.bind (find (tag_is ''d'') (e_tags e)) tag_value"

section \<open>Filters\<close>

text \<open>The keys of the JSON object that are no fields arrive in \<open>fl_tags\<close>; those of the form \<open>#x\<close> are kept.\<close>

definition normalise_tags :: "(string \<times> json) list \<Rightarrow> (string \<times> json) list" where
  "normalise_tags ts = List.map_filter (\<lambda>(k, v). case strip_prefix ''#'' k of
     None \<Rightarrow> None | Some short \<Rightarrow> if length short = 1 then Some (short, v) else None) ts"

definition filter_from_value :: "('k, 's) relay_env \<Rightarrow> json \<Rightarrow> RelayError + Filter" where
  "filter_from_value env v =
     rbind (map_err (\<lambda>e. BadMessage (''filter decode: '' @ e)) (re_filter_from_value env v))
       (\<lambda>f. Inr (f\<lparr>fl_tags := normalise_tags (fl_tags f)\<rparr>))"

definition eq_ignore_case :: "string \<Rightarrow> string \<Rightarrow> bool" where
  "eq_ignore_case a b \<longleftrightarrow> to_ascii_lowercase a = to_ascii_lowercase b"

definition tag_filter_matches :: "Event \<Rightarrow> string \<Rightarrow> json \<Rightarrow> bool" where
  "tag_filter_matches e tag_name values = (case values of
     JArray vs \<Rightarrow>
       (let event_tag_values = List.map_filter tag_value (filter (tag_is tag_name) (e_tags e)) in
        list_ex (\<lambda>v. case v of JString s \<Rightarrow> s \<in> set event_tag_values | _ \<Rightarrow> False) vs)
   | _ \<Rightarrow> False)"

definition filter_matches :: "Filter \<Rightarrow> Event \<Rightarrow> bool" where
  "filter_matches f e \<longleftrightarrow>
     (case fl_ids f of None \<Rightarrow> True | Some ids \<Rightarrow> list_ex (\<lambda>i. eq_ignore_case i (e_id e)) ids)
     \<and> (case fl_authors f of None \<Rightarrow> True | Some as \<Rightarrow> list_ex (\<lambda>a. eq_ignore_case a (e_pubkey e)) as)
     \<and> (case fl_kinds f of None \<Rightarrow> True | Some ks \<Rightarrow> e_kind e \<in> set ks)
     \<and> (case fl_since f of None \<Rightarrow> True | Some s \<Rightarrow> \<not> e_created_at e < s)
     \<and> (case fl_until f of None \<Rightarrow> True | Some u \<Rightarrow> \<not> e_created_at e > u)
     \<and> list_all (\<lambda>(tag_name, values). tag_filter_matches e tag_name values) (fl_tags f)"

definition is_replaceable :: "u64 \<Rightarrow> bool" where
  "is_replaceable kind \<longleftrightarrow> kind = 0 \<or> kind = 3 \<or> 10000 \<le> kind \<and> kind < 20000"

definition is_ephemeral :: "u64 \<Rightarrow> bool" where
  "is_ephemeral kind \<longleftrightarrow> 20000 \<le> kind \<and> kind < 30000"

definition is_parameterised_replaceable :: "u64 \<Rightarrow> bool" where
  "is_parameterised_replaceable kind \<longleftrightarrow> 30000 \<le> kind \<and> kind < 40000"

section \<open>Event stores\<close>

record 'st event_store_ops =
  es_put :: "'st \<Rightarrow> Event \<Rightarrow> 'st"
  es_remove :: "'st \<Rightarrow> string \<Rightarrow> 'st"
  es_snapshot :: "'st \<Rightarrow> Event list"
  es_replace_where :: "'st \<Rightarrow> (Event \<Rightarrow> bool) \<Rightarrow> Event \<Rightarrow> 'st \<times> bool"

record InMemoryEventStore =
  im_inner :: "Event list"
  im_max_events :: nat

definition InMemoryEventStore_new :: "nat \<Rightarrow> InMemoryEventStore" where
  "InMemoryEventStore_new n = \<lparr>im_inner = [], im_max_events = (if n \<le> 1 then 1 else n)\<rparr>"

definition im_put :: "InMemoryEventStore \<Rightarrow> Event \<Rightarrow> InMemoryEventStore" where
  "im_put st e = st\<lparr>im_inner := (if im_max_events st \<le> length (im_inner st) then tl (im_inner st) else im_inner st) @ [e]\<rparr>"

definition im_remove :: "InMemoryEventStore \<Rightarrow> string \<Rightarrow> InMemoryEventStore" where
  "im_remove st i = st\<lparr>im_inner := filter (\<lambda>e. e_id e \<noteq> i) (im_inner st)\<rparr>"

fun replace_first :: "('a \<Rightarrow> bool) \<Rightarrow> 'a \<Rightarrow> 'a list \<Rightarrow> 'a list \<times> bool" where
  "replace_first P y [] = ([], False)"
| "replace_first P y (x # xs) = (if P x then (y # xs, True)
     else case replace_first P y xs of (ys, b) \<Rightarrow> (x # ys, b))"

definition im_replace_where :: "InMemoryEventStore \<Rightarrow> (Event \<Rightarrow> bool) \<Rightarrow> Event \<Rightarrow> InMemoryEventStore \<times> bool" where
  "im_replace_where st P e = (case replace_first P e (im_inner st) of (es, b) \<Rightarrow> (st\<lparr>im_inner := es\<rparr>, b))"

definition in_memory_ops :: "InMemoryEventStore event_store_ops" where
  "in_memory_ops = \<lparr>es_put = im_put, es_remove = im_remove, es_snapshot = im_inner, es_replace_where = im_replace_where\<rparr>"

section \<open>The relay\<close>

record RelayInfo =
  ri_name :: string
  ri_description :: string
  ri_pubkey :: string
  ri_contact :: string
  ri_supported_nips :: "nat list"
  ri_software :: string
  ri_version :: string

definition jss_compatible :: "string \<Rightarrow> RelayInfo" where
  "jss_compatible pkg_version = \<lparr>ri_name = ''solid-pod-rs Nostr Relay'',
     ri_description = ''Embedded Nostr relay for solid-pod-rs pods'', ri_pubkey = [], ri_contact = [],
     ri_supported_nips = [1, 11, 16], ri_software = ''https://github.com/dreamlab-ai/solid-pod-rs'', ri_version = pkg_version\<rparr>"

record 'st Relay =
  rl_store :: 'st
  rl_sent :: "Event list"
  rl_info :: RelayInfo

definition Relay_new :: "'st \<Rightarrow> RelayInfo \<Rightarrow> 'st Relay" where
  "Relay_new store information = \<lparr>rl_store = store, rl_sent = [], rl_info = information\<rparr>"

definition Relay_in_memory :: "string \<Rightarrow> InMemoryEventStore Relay" where
  "Relay_in_memory pkg_version = Relay_new (InMemoryEventStore_new 1000) (jss_compatible pkg_version)"

definition same_slot :: "Event \<Rightarrow> Event \<Rightarrow> bool" where
  "same_slot event e \<longleftrightarrow> e_pubkey e = e_pubkey event \<and> e_kind e = e_kind event"

definition same_param_slot :: "Event \<Rightarrow> Event \<Rightarrow> bool" where
  "same_param_slot event e \<longleftrightarrow> e_pubkey e = e_pubkey event \<and> e_kind e = e_kind event \<and> d_tag e = d_tag event"

definition replace_or_put :: "'st event_store_ops \<Rightarrow> 'st \<Rightarrow> (Event \<Rightarrow> bool) \<Rightarrow> Event \<Rightarrow> 'st" where
  "replace_or_put ops st P e = (case es_replace_where ops st P e of (st', replaced) \<Rightarrow>
     if replaced then st' else es_put ops st' e)"

definition broadcast :: "'st Relay \<Rightarrow> Event \<Rightarrow> 'st Relay" where
  "broadcast r e = r\<lparr>rl_sent := rl_sent r @ [e]\<rparr>"

definition ingest :: "('k, 's) relay_env \<Rightarrow> 'st event_store_ops \<Rightarrow> 'st Relay \<Rightarrow> Event \<Rightarrow> 'st Relay \<times> (RelayError + unit)" where
  "ingest env ops r event = try_with r (event_verify env event) (\<lambda>_.
     if is_ephemeral (e_kind event) then (broadcast r event, Inr ())
     else if is_replaceable (e_kind event) then
       (broadcast (r\<lparr>rl_store := replace_or_put ops (rl_store r) (same_slot event) event\<rparr>) event, Inr ())
     else if is_parameterised_replaceable (e_kind event) then
       (broadcast (r\<lparr>rl_store := replace_or_put ops (rl_store r) (same_param_slot event) event\<rparr>) event, Inr ())
     else (broadcast (r\<lparr>rl_store := es_put ops (rl_store r) event\<rparr>) event, Inr ()))"

fun push_unseen :: "Event list \<Rightarrow> Event list \<Rightarrow> Event list" where
  "push_unseen out [] = out"
| "push_unseen out (e # es) = (if e_id e \<in> e_id ` set out then push_unseen out es else push_unseen (out @ [e]) es)"

definition filter_slice :: "Event list \<Rightarrow> Filter \<Rightarrow> Event list" where
  "filter_slice evs f =
     (let matched = filter (filter_matches f) evs in
      case fl_limit f of
        None \<Rightarrow> matched
      | Some lim \<Rightarrow> if lim < length matched then drop (length matched - lim) matched else matched)"

definition history :: "'st event_store_ops \<Rightarrow> 'st Relay \<Rightarrow> Filter list \<Rightarrow> Event list" where
  "history ops r filters =
     (let evs = es_snapshot ops (rl_store r) in foldl (\<lambda>out f. push_unseen out (filter_slice evs f)) [] filters)"

section \<open>The wire protocol\<close>

type_synonym subscriptions = "(string \<times> Filter list) list"

definition notice_frame :: "string \<Rightarrow> json" where
  "notice_frame msg = JArray [JString ''NOTICE'', JString msg]"

definition ok_frame :: "string \<Rightarrow> bool \<Rightarrow> string \<Rightarrow> json" where
  "ok_frame event_id accepted msg = JArray [JString ''OK'', JString event_id, JBool accepted, JString msg]"

definition event_frame :: "('k, 's) relay_env \<Rightarrow> string \<Rightarrow> Event \<Rightarrow> json" where
  "event_frame env sub_id e = JArray [JString ''EVENT'', JString sub_id, re_event_to_value env e]"

definition eose_frame :: "string \<Rightarrow> json" where
  "eose_frame sub_id = JArray [JString ''EOSE'', JString sub_id]"

definition json_str :: "json \<Rightarrow> string option" where
  "json_str v = (case v of JString s \<Rightarrow> Some s | _ \<Rightarrow> None)"

definition json_get :: "json \<Rightarrow> string \<Rightarrow> json option" where
  "json_get v k = (case v of JObject ms \<Rightarrow> map_of ms k | _ \<Rightarrow> None)"

definition handle_event :: "('k, 's) relay_env \<Rightarrow> 'st event_store_ops \<Rightarrow> 'st Relay \<Rightarrow> json list \<Rightarrow> 'st Relay \<times> json list" where
  "handle_event env ops r arr = (case arr of
     h # event_value # rest \<Rightarrow>
       (case re_event_from_value env event_value of
          Inl e \<Rightarrow> (r, [ok_frame (unwrap_or (Option.bind (json_get event_value ''id'') json_str) []) False (''invalid: '' @ e)])
        | Inr event \<Rightarrow> (case ingest env ops r event of
            (r', Inr _) \<Rightarrow> (r', [ok_frame (e_id event) True []])
          | (r', Inl e) \<Rightarrow> (r', [ok_frame (e_id event) False (relay_error_to_string e)])))
   | _ \<Rightarrow> (r, [notice_frame ''EVENT frame missing event payload'']))"

fun decode_filters :: "('k, 's) relay_env \<Rightarrow> json list \<Rightarrow> RelayError + Filter list" where
  "decode_filters env [] = Inr []"
| "decode_filters env (v # vs) = rbind (filter_from_value env v) (\<lambda>f. rbind (decode_filters env vs) (\<lambda>fs. Inr (f # fs)))"

definition second_str :: "json list \<Rightarrow> string option" where
  "second_str arr = (case arr of h # v # rest \<Rightarrow> json_str v | _ \<Rightarrow> None)"

definition handle_req :: "('k, 's) relay_env \<Rightarrow> 'st event_store_ops \<Rightarrow> 'st Relay \<Rightarrow> subscriptions \<Rightarrow> json list \<Rightarrow> subscriptions \<times> json list" where
  "handle_req env ops r subs arr = (case second_str arr of
     None \<Rightarrow> (subs, [notice_frame ''REQ frame missing subscription id''])
   | Some sub_id \<Rightarrow> (case decode_filters env (drop 2 arr) of
       Inl e \<Rightarrow> (subs, [notice_frame (''invalid filter: '' @ relay_error_to_string e)])
     | Inr filters \<Rightarrow>
         (AList.update sub_id filters subs, map (event_frame env sub_id) (history ops r filters) @ [eose_frame sub_id])))"

definition handle_close :: "subscriptions \<Rightarrow> json list \<Rightarrow> subscriptions \<times> json list" where
  "handle_close subs arr = (case second_str arr of
     None \<Rightarrow> (subs, [notice_frame ''CLOSE frame missing subscription id''])
   | Some sub_id \<Rightarrow> (AList.delete sub_id subs, []))"

definition dispatch_message :: "('k, 's) relay_env \<Rightarrow> 'st event_store_ops \<Rightarrow> 'st Relay \<Rightarrow> subscriptions \<Rightarrow> string
    \<Rightarrow> 'st Relay \<times> subscriptions \<times> json list" where
  "dispatch_message env ops r subs txt = (case re_json_from_str env txt of
     Inl e \<Rightarrow> (r, subs, [notice_frame (''bad JSON: '' @ e)])
   | Inr (JArray arr) \<Rightarrow>
       (case arr of
          JString head # rest \<Rightarrow>
            if head = ''EVENT'' then (case handle_event env ops r arr of (r', out) \<Rightarrow> (r', subs, out))
            else if head = ''REQ'' then (case handle_req env ops r subs arr of (subs', out) \<Rightarrow> (r, subs', out))
            else if head = ''CLOSE'' then (case handle_close subs arr of (subs', out) \<Rightarrow> (r, subs', out))
            else (r, subs, [notice_frame (''unknown frame type: '' @ head)])
        | _ \<Rightarrow> (r, subs, [notice_frame ''empty or malformed wire frame'']))
   | Inr _ \<Rightarrow> (r, subs, [notice_frame ''wire frame must be a JSON array'']))"

text \<open>What a socket sends for an event of the broadcast.\<close>

definition live_frames :: "('k, 's) relay_env \<Rightarrow> subscriptions \<Rightarrow> Event \<Rightarrow> json list" where
  "live_frames env subs event =
     map (\<lambda>(sub_id, fs). event_frame env sub_id event) (filter (\<lambda>(sub_id, fs). list_ex (\<lambda>f. filter_matches f event) fs) subs)"

text \<open>
  The loop of a socket over the inputs of its \<open>select!\<close>; \<open>WsPeers\<close> are the events other connections submit
  to the shared relay in between. The number beside an input is how many frames the
  socket still takes before a send fails.
\<close>

definition ingest_all :: "('k, 's) relay_env \<Rightarrow> 'st event_store_ops \<Rightarrow> 'st Relay \<Rightarrow> Event list \<Rightarrow> 'st Relay" where
  "ingest_all env ops r es = foldl (\<lambda>r e. fst (ingest env ops r e)) r es"

datatype ws_input =
    WsText string nat
  | WsBinary
  | WsPing bool
  | WsEnd
  | WsOther
  | WsLive Event nat
  | WsPeers "Event list"

record 'st socket =
  sk_relay :: "'st Relay"
  sk_subs :: subscriptions
  sk_out :: "json list"
  sk_open :: bool

definition emit :: "'st socket \<Rightarrow> json list \<Rightarrow> nat \<Rightarrow> 'st socket" where
  "emit k fs n = (if length fs \<le> n then k\<lparr>sk_out := sk_out k @ fs\<rparr>
     else k\<lparr>sk_out := sk_out k @ take n fs, sk_open := False\<rparr>)"

fun socket_step :: "('k, 's) relay_env \<Rightarrow> 'st event_store_ops \<Rightarrow> 'st socket \<Rightarrow> ws_input \<Rightarrow> 'st socket" where
  "socket_step env ops k (WsText txt n) =
     (case dispatch_message env ops (sk_relay k) (sk_subs k) txt of
        (r, subs, out) \<Rightarrow> emit (k\<lparr>sk_relay := r, sk_subs := subs\<rparr>) out n)"
| "socket_step env ops k WsBinary = k\<lparr>sk_out := sk_out k @ [notice_frame ''binary frames not accepted'']\<rparr>"
| "socket_step env ops k (WsPing ok) = (if ok then k else k\<lparr>sk_open := False\<rparr>)"
| "socket_step env ops k WsEnd = k\<lparr>sk_open := False\<rparr>"
| "socket_step env ops k WsOther = k"
| "socket_step env ops k (WsPeers es) = k\<lparr>sk_relay := ingest_all env ops (sk_relay k) es\<rparr>"
| "socket_step env ops k (WsLive e n) = emit k (live_frames env (sk_subs k) e) n"

fun serve_relay_ws_stream :: "('k, 's) relay_env \<Rightarrow> 'st event_store_ops \<Rightarrow> 'st socket \<Rightarrow> ws_input list \<Rightarrow> 'st socket" where
  "serve_relay_ws_stream env ops k [] = k"
| "serve_relay_ws_stream env ops k (i # is) =
     (if sk_open k then serve_relay_ws_stream env ops (socket_step env ops k i) is else k)"

section \<open>The contract of a store, and what the relay keeps in it\<close>

text \<open>
  A store's contents are its snapshot: a put appends the event and may evict older ones from the
  front, a removal drops the events with an identifier, and a replacement overwrites the first match.
\<close>

locale event_store =
  fixes ops :: "'st event_store_ops" and invar :: "'st \<Rightarrow> bool" and cap :: "'st \<Rightarrow> nat"
  assumes put_snapshot: "invar st \<Longrightarrow> \<exists>n. es_snapshot ops (es_put ops st e) = drop n (es_snapshot ops st) @ [e]"
    and replace_snapshot: "invar st \<Longrightarrow> es_replace_where ops st P e = (st', b) \<Longrightarrow> (es_snapshot ops st', b) = replace_first P e (es_snapshot ops st)"
    and remove_snapshot: "invar st \<Longrightarrow> es_snapshot ops (es_remove ops st i) = filter (\<lambda>e. e_id e \<noteq> i) (es_snapshot ops st)"
    and put_invar: "invar st \<Longrightarrow> invar (es_put ops st e) \<and> cap (es_put ops st e) = cap st"
    and replace_invar: "invar st \<Longrightarrow> invar (fst (es_replace_where ops st P e)) \<and> cap (fst (es_replace_where ops st P e)) = cap st"
    and remove_invar: "invar st \<Longrightarrow> invar (es_remove ops st i) \<and> cap (es_remove ops st i) = cap st"
    and bounded: "invar st \<Longrightarrow> length (es_snapshot ops st) \<le> cap st"

lemma replace_first_snd: "snd (replace_first P y xs) = list_ex P xs"
  by (induction xs) (simp_all add: split_def)

lemma replace_first_none: "\<not> list_ex P xs \<Longrightarrow> fst (replace_first P y xs) = xs"
  by (induction xs) (simp_all add: split_def)

lemma replace_first_length: "length (fst (replace_first P y xs)) = length xs"
  by (induction xs) (simp_all add: split_def)

lemma replace_first_True:
  "replace_first P y xs = (ys, True) \<Longrightarrow> \<exists>a x b. xs = a @ x # b \<and> ys = a @ y # b \<and> P x \<and> \<not> list_ex P a"
proof (induction xs arbitrary: ys)
  case (Cons x xs)
  show ?case
  proof (cases "P x")
    case True then show ?thesis using Cons.prems by (intro exI [of _ "[]"]) auto
  next
    case False
    then obtain zs where z: "replace_first P y xs = (zs, True)" "ys = x # zs"
      using Cons.prems by (auto split: prod.splits)
    obtain a x' b where "xs = a @ x' # b" "zs = a @ y # b" "P x'" "\<not> list_ex P a" using Cons.IH [OF z(1)] by blast
    then show ?thesis using False z(2) by (intro exI [of _ "x # a"] exI [of _ x'] exI [of _ b]) auto
  qed
qed simp

lemma im_ops [simp]: "es_put in_memory_ops = im_put" "es_remove in_memory_ops = im_remove"
    "es_snapshot in_memory_ops = im_inner" "es_replace_where in_memory_ops = im_replace_where"
  by (simp_all add: in_memory_ops_def)

definition im_invar :: "InMemoryEventStore \<Rightarrow> bool" where
  "im_invar st \<longleftrightarrow> 0 < im_max_events st \<and> length (im_inner st) \<le> im_max_events st"

interpretation im: event_store in_memory_ops im_invar im_max_events
proof
  fix st :: InMemoryEventStore and e i P st' b
  assume inv: "im_invar st"
  have "tl xs = drop 1 xs" for xs :: "Event list" by (simp add: drop_Suc)
  then show "\<exists>n. es_snapshot in_memory_ops (es_put in_memory_ops st e) = drop n (es_snapshot in_memory_ops st) @ [e]"
    by (cases "im_max_events st \<le> length (im_inner st)") (auto simp: im_put_def intro: exI [of _ 0] exI [of _ 1])
  show "(es_snapshot in_memory_ops st', b) = replace_first P e (es_snapshot in_memory_ops st)"
    if "es_replace_where in_memory_ops st P e = (st', b)"
    using that by (cases "replace_first P e (im_inner st)") (auto simp: im_replace_where_def)
  show "es_snapshot in_memory_ops (es_remove in_memory_ops st i) = filter (\<lambda>e. e_id e \<noteq> i) (es_snapshot in_memory_ops st)"
    by (simp add: im_remove_def)
  show "length (es_snapshot in_memory_ops st) \<le> im_max_events st" using inv by (simp add: im_invar_def)
  show "im_invar (es_put in_memory_ops st e) \<and> im_max_events (es_put in_memory_ops st e) = im_max_events st"
    using inv by (auto simp: im_put_def im_invar_def)
  show "im_invar (fst (es_replace_where in_memory_ops st P e)) \<and> im_max_events (fst (es_replace_where in_memory_ops st P e)) = im_max_events st"
    using inv by (simp add: im_replace_where_def split_def im_invar_def replace_first_length)
  show "im_invar (es_remove in_memory_ops st i) \<and> im_max_events (es_remove in_memory_ops st i) = im_max_events st"
    using inv by (auto simp: im_remove_def im_invar_def intro: order_trans [OF length_filter_le])
qed

text \<open>The slot of a replaceable event; other events have none.\<close>

definition slot_of :: "Event \<Rightarrow> (string \<times> u64 \<times> string option option) option" where
  "slot_of e = (if is_ephemeral (e_kind e) then None
     else if is_replaceable (e_kind e) then Some (e_pubkey e, e_kind e, None)
     else if is_parameterised_replaceable (e_kind e) then Some (e_pubkey e, e_kind e, Some (d_tag e))
     else None)"

definition relay_ok :: "('k, 's) relay_env \<Rightarrow> Event list \<Rightarrow> bool" where
  "relay_ok env evs \<longleftrightarrow> list_all (\<lambda>e. event_verify env e = Inr () \<and> \<not> is_ephemeral (e_kind e)) evs
     \<and> distinct (List.map_filter slot_of evs)"

lemma slot_of_same:
  "\<not> is_ephemeral (e_kind e) \<Longrightarrow> is_replaceable (e_kind e) \<Longrightarrow> same_slot e x \<longleftrightarrow> slot_of x = slot_of e"
  "\<not> is_ephemeral (e_kind e) \<Longrightarrow> \<not> is_replaceable (e_kind e) \<Longrightarrow> is_parameterised_replaceable (e_kind e) \<Longrightarrow>
     same_param_slot e x \<longleftrightarrow> slot_of x = slot_of e"
  by (auto simp: slot_of_def same_slot_def same_param_slot_def)

lemma map_filter_append: "List.map_filter f (xs @ ys) = List.map_filter f xs @ List.map_filter f ys"
  by (simp add: List.map_filter_def)

lemma set_map_filter: "set (List.map_filter f xs) = {y. \<exists>x \<in> set xs. f x = Some y}"
  by (force simp: List.map_filter_def)

lemma relay_ok_append:
  "relay_ok env (xs @ [e]) \<longleftrightarrow> relay_ok env xs \<and> event_verify env e = Inr () \<and> \<not> is_ephemeral (e_kind e)
     \<and> (slot_of e = None \<or> slot_of e \<notin> slot_of ` set xs)"
  by (cases "slot_of e") (auto simp: relay_ok_def map_filter_append set_map_filter List.map_filter_simps image_iff)

lemma relay_ok_drop: "relay_ok env xs \<Longrightarrow> relay_ok env (drop n xs)"
proof -
  assume "relay_ok env xs"
  then have "relay_ok env (take n xs @ drop n xs)" by simp
  then show ?thesis unfolding relay_ok_def map_filter_append list_all_append distinct_append by blast
qed

lemma relay_ok_replace:
  assumes "relay_ok env (a @ x # b)" and "event_verify env e = Inr ()" and "\<not> is_ephemeral (e_kind e)" and "slot_of x = slot_of e"
  shows "relay_ok env (a @ e # b)"
  using assms by (simp add: relay_ok_def map_filter_append List.map_filter_simps)

context event_store
begin

text \<open>Inserting into a slot replaces its event, or appends to a store that has none.\<close>

lemma replace_or_put_slot:
  assumes inv: "invar st" and P: "\<And>x. P x \<longleftrightarrow> slot_of x = slot_of e"
    and ok: "relay_ok env (es_snapshot ops st)" and e: "event_verify env e = Inr ()" "\<not> is_ephemeral (e_kind e)"
  shows "relay_ok env (es_snapshot ops (replace_or_put ops st P e)) \<and> e \<in> set (es_snapshot ops (replace_or_put ops st P e))
    \<and> set (es_snapshot ops (replace_or_put ops st P e)) \<subseteq> insert e (set (es_snapshot ops st))
    \<and> invar (replace_or_put ops st P e) \<and> cap (replace_or_put ops st P e) = cap st"
proof -
  obtain st' b where r: "es_replace_where ops st P e = (st', b)" by (cases "es_replace_where ops st P e")
  have inv': "invar st'" "cap st' = cap st" using replace_invar [OF inv, of P e] r by simp_all
  note snap = replace_snapshot [OF inv r]
  show ?thesis
  proof (cases b)
    case True
    obtain a x c where s: "es_snapshot ops st = a @ x # c" "es_snapshot ops st' = a @ e # c" "P x"
      using replace_first_True [of P e "es_snapshot ops st"] snap True by metis
    then have "relay_ok env (es_snapshot ops st')" using relay_ok_replace ok e P by metis
    then show ?thesis using s inv' True r by (auto simp: replace_or_put_def)
  next
    case False
    then have none: "\<not> list_ex P (es_snapshot ops st)" and eq: "es_snapshot ops st' = es_snapshot ops st"
      using snap replace_first_snd [of P e "es_snapshot ops st"] replace_first_none [of P "es_snapshot ops st" e]
      by (metis snd_conv, metis fst_conv snd_conv)
    obtain n where n: "es_snapshot ops (es_put ops st' e) = drop n (es_snapshot ops st) @ [e]"
      using put_snapshot [OF inv'(1), of e] eq by metis
    have "slot_of e \<notin> slot_of ` set (drop n (es_snapshot ops st))"
      using none P by (auto simp: list_ex_iff dest!: in_set_dropD)
    then have "relay_ok env (drop n (es_snapshot ops st) @ [e])" using e relay_ok_drop [OF ok] by (simp add: relay_ok_append)
    then show ?thesis
      using n False r put_invar [OF inv'(1), of e] inv'(2) set_drop_subset [of n "es_snapshot ops st"]
      by (auto simp: replace_or_put_def)
  qed
qed

lemma ingest_ok:
  assumes inv: "invar (rl_store r)" and ok: "relay_ok env (es_snapshot ops (rl_store r))"
    and run: "ingest env ops r e = (r', res)"
  shows "invar (rl_store r') \<and> cap (rl_store r') = cap (rl_store r) \<and> relay_ok env (es_snapshot ops (rl_store r'))
    \<and> (case res of Inl err \<Rightarrow> r' = r \<and> event_verify env e = Inl err
       | Inr _ \<Rightarrow> event_verify env e = Inr () \<and> rl_sent r' = rl_sent r @ [e]
           \<and> (is_ephemeral (e_kind e) \<longrightarrow> rl_store r' = rl_store r)
           \<and> (\<not> is_ephemeral (e_kind e) \<longrightarrow> e \<in> set (es_snapshot ops (rl_store r'))))"
proof (cases "event_verify env e")
  case (Inl err)
  then have "r' = r" "res = Inl err" using run by (simp_all add: ingest_def)
  then show ?thesis using Inl ok inv by simp
next
  case (Inr u)
  then have v: "event_verify env e = Inr ()" by simp
  have res: "res = Inr ()" using run v by (auto simp: ingest_def split: if_splits)
  show ?thesis
  proof (cases "is_ephemeral (e_kind e)")
    case True
    then have "r' = broadcast r e" using run v by (simp add: ingest_def)
    then show ?thesis using True ok inv v res by (simp add: broadcast_def)
  next
    case False
    note slot = slot_of_same [OF False]
    note rp = replace_or_put_slot [OF inv _ ok v False]
    have "\<exists>st'. r' = broadcast (r\<lparr>rl_store := st'\<rparr>) e \<and> relay_ok env (es_snapshot ops st') \<and> e \<in> set (es_snapshot ops st')
        \<and> invar st' \<and> cap st' = cap (rl_store r)"
    proof (cases "is_replaceable (e_kind e) \<or> is_parameterised_replaceable (e_kind e)")
      case True
      show ?thesis
      proof (cases "is_replaceable (e_kind e)")
        case rep: True
        then have "r' = broadcast (r\<lparr>rl_store := replace_or_put ops (rl_store r) (same_slot e) e\<rparr>) e"
          using run v False by (simp add: ingest_def)
        then show ?thesis using rp [OF slot(1) [OF rep]] by blast
      next
        case rep: False
        then have "r' = broadcast (r\<lparr>rl_store := replace_or_put ops (rl_store r) (same_param_slot e) e\<rparr>) e"
          using run v False True by (simp add: ingest_def)
        then show ?thesis using rp [OF slot(2) [OF rep]] True rep by blast
      qed
    next
      case plain: False
      obtain n where n: "es_snapshot ops (es_put ops (rl_store r) e) = drop n (es_snapshot ops (rl_store r)) @ [e]"
        using put_snapshot [OF inv, of e] by metis
      have "slot_of e = None" using plain by (simp add: slot_of_def)
      then have "relay_ok env (drop n (es_snapshot ops (rl_store r)) @ [e])"
        using v False relay_ok_drop [OF ok] by (simp add: relay_ok_append)
      moreover have "r' = broadcast (r\<lparr>rl_store := es_put ops (rl_store r) e\<rparr>) e"
        using run v False plain by (simp add: ingest_def)
      ultimately show ?thesis using n put_invar [OF inv, of e] by (metis in_set_conv_decomp)
    qed
    then show ?thesis using v res False by (elim exE) (simp add: broadcast_def)
  qed
qed

lemma ingest_all_ok:
  assumes "invar (rl_store r)" and "relay_ok env (es_snapshot ops (rl_store r))"
  shows "invar (rl_store (ingest_all env ops r es)) \<and> cap (rl_store (ingest_all env ops r es)) = cap (rl_store r)
    \<and> relay_ok env (es_snapshot ops (rl_store (ingest_all env ops r es)))
    \<and> rl_sent (ingest_all env ops r es) = rl_sent r @ filter (\<lambda>e. event_verify env e = Inr ()) es"
  using assms
proof (induction es arbitrary: r)
  case (Cons e es)
  obtain r' res where run: "ingest env ops r e = (r', res)" by (cases "ingest env ops r e")
  note ok = ingest_ok [OF Cons.prems run]
  have "rl_sent r' = rl_sent r @ filter (\<lambda>e. event_verify env e = Inr ()) [e]"
    using ok by (cases res) auto
  then show ?case using Cons.IH [of r'] ok run by (auto simp: ingest_all_def)
qed (simp add: ingest_all_def)

lemma ingest_replaces:
  assumes "invar (rl_store r)" and "relay_ok env (es_snapshot ops (rl_store r))"
    and "event_verify env e = Inr ()" and "slot_of e = slot_of x" and "slot_of x \<noteq> None" and "e \<noteq> x"
  shows "x \<notin> set (es_snapshot ops (rl_store (fst (ingest env ops r e)))) \<and> e \<in> set (es_snapshot ops (rl_store (fst (ingest env ops r e))))"
proof -
  obtain r' res where run: "ingest env ops r e = (r', res)" by (cases "ingest env ops r e")
  have eph: "\<not> is_ephemeral (e_kind e)" using assms(4,5) by (auto simp: slot_of_def split: if_splits)
  have ok: "relay_ok env (es_snapshot ops (rl_store r'))" "e \<in> set (es_snapshot ops (rl_store r'))"
    using ingest_ok [OF assms(1,2) run] assms(3) eph by (cases res; simp)+
  have "x \<notin> set (es_snapshot ops (rl_store r'))"
  proof
    assume x: "x \<in> set (es_snapshot ops (rl_store r'))"
    then obtain a b where split: "es_snapshot ops (rl_store r') = a @ x # b" by (meson split_list)
    then have "e \<in> set a \<or> e \<in> set b" using ok(2) assms(6) by auto
    moreover obtain s where "slot_of x = Some s" "slot_of e = Some s" using assms(4,5) by auto
    ultimately show False
      using ok(1) by (auto simp: relay_ok_def split map_filter_append List.map_filter_simps set_map_filter)
  qed
  then show ?thesis using ok(2) run by simp
qed

end

text \<open>C33: What a relay holds after any sequence of submissions, valid or not: never more events than its
  capacity, only events whose identifier and signature verify, no ephemeral event, and at most one
  event per replaceable slot; every verified submission, and nothing else, is broadcast in order.
\<close>

theorem nostr_relay_invariant:
  "let r = ingest_all env in_memory_ops (Relay_new (InMemoryEventStore_new n) information) es in
     length (im_inner (rl_store r)) \<le> max 1 n
     \<and> list_all (\<lambda>e. event_verify env e = Inr () \<and> \<not> is_ephemeral (e_kind e)) (im_inner (rl_store r))
     \<and> distinct (List.map_filter slot_of (im_inner (rl_store r)))
     \<and> rl_sent r = filter (\<lambda>e. event_verify env e = Inr ()) es"
proof -
  let ?r0 = "Relay_new (InMemoryEventStore_new n) information"
  have inv: "im_invar (rl_store ?r0)" by (simp add: im_invar_def Relay_new_def InMemoryEventStore_new_def)
  have ok: "relay_ok env (es_snapshot in_memory_ops (rl_store ?r0))"
    by (simp add: relay_ok_def Relay_new_def InMemoryEventStore_new_def List.map_filter_simps)
  have sent: "rl_sent ?r0 = []" and cap: "im_max_events (rl_store ?r0) = max 1 n"
    by (auto simp: Relay_new_def InMemoryEventStore_new_def)
  note all = im.ingest_all_ok [OF inv ok, of es]
  have "length (im_inner (rl_store (ingest_all env in_memory_ops ?r0 es))) \<le> max 1 n"
    using im.bounded [of "rl_store (ingest_all env in_memory_ops ?r0 es)"] all cap by simp
  then show ?thesis using all sent by (simp add: relay_ok_def Let_def)
qed

text \<open>C35: A replaceable event replaces the event of its slot whatever their timestamps: submitting a signed
  older event again puts it in the place of the newer one.
\<close>

theorem stale_event_replaces_newer:
  assumes "im_invar (rl_store r)" and "relay_ok env (im_inner (rl_store r))"
    and "event_verify env older = Inr ()" and "newer \<in> set (im_inner (rl_store r))"
    and "slot_of older = slot_of newer" and "slot_of newer \<noteq> None" and "e_created_at older < e_created_at newer"
  shows "older \<in> set (im_inner (rl_store (fst (ingest env in_memory_ops r older))))
     \<and> newer \<notin> set (im_inner (rl_store (fst (ingest env in_memory_ops r older))))"
proof -
  have "older \<noteq> newer" using assms(7) by auto
  then show ?thesis using im.ingest_replaces [of r env older newer] assms by simp
qed

section \<open>History\<close>

lemma push_unseen_prefix: "\<exists>ys. push_unseen out es = out @ ys \<and> set ys \<subseteq> set es"
proof (induction es arbitrary: out)
  case (Cons e es)
  show ?case
  proof (cases "e_id e \<in> e_id ` set out")
    case True then show ?thesis using Cons [of out] by auto
  next
    case False
    obtain ys where "push_unseen (out @ [e]) es = (out @ [e]) @ ys" "set ys \<subseteq> set es" using Cons [of "out @ [e]"] by blast
    then show ?thesis using False by (intro exI [of _ "e # ys"]) auto
  qed
qed simp

lemma push_unseen_ids: "e_id ` set (push_unseen out es) = e_id ` (set out \<union> set es)"
  by (induction es arbitrary: out) (auto simp: image_Un image_iff)

lemma push_unseen_distinct: "distinct (map e_id out) \<Longrightarrow> distinct (map e_id (push_unseen out es))"
  by (induction es arbitrary: out) auto

lemma history_fold:
  "distinct (map e_id out) \<Longrightarrow>
   distinct (map e_id (foldl (\<lambda>out f. push_unseen out (filter_slice evs f)) out fs))
   \<and> set (foldl (\<lambda>out f. push_unseen out (filter_slice evs f)) out fs) \<subseteq> set out \<union> (\<Union>f \<in> set fs. set (filter_slice evs f))
   \<and> e_id ` set (foldl (\<lambda>out f. push_unseen out (filter_slice evs f)) out fs) = e_id ` (set out \<union> (\<Union>f \<in> set fs. set (filter_slice evs f)))"
proof (induction fs arbitrary: out)
  case (Cons f fs)
  let ?o = "push_unseen out (filter_slice evs f)"
  obtain ys where ys: "?o = out @ ys" "set ys \<subseteq> set (filter_slice evs f)" using push_unseen_prefix by blast
  have ids: "e_id ` set ?o = e_id ` (set out \<union> set (filter_slice evs f))" by (rule push_unseen_ids)
  note ih = Cons.IH [OF push_unseen_distinct [OF Cons.prems, of "filter_slice evs f"]]
  have "e_id ` (set ?o \<union> (\<Union>f \<in> set fs. set (filter_slice evs f)))
      = e_id ` (set out \<union> (\<Union>f \<in> set (f # fs). set (filter_slice evs f)))"
    unfolding image_Un ids by (auto simp: image_Un)
  then show ?case using ih ys by auto
qed simp

lemma filter_slice_set: "set (filter_slice evs f) \<subseteq> {e \<in> set evs. filter_matches f e}"
  by (auto simp: filter_slice_def Let_def split: option.splits if_splits dest: in_set_dropD)

lemma filter_slice_newest:
  assumes "k < length (filter (filter_matches f) evs)" and "\<forall>lim. fl_limit f = Some lim \<longrightarrow> k < lim"
  shows "rev (filter (filter_matches f) evs) ! k \<in> set (filter_slice evs f)"
proof -
  define m where "m = filter (filter_matches f) evs"
  have k: "k < length m" using assms(1) by (simp add: m_def)
  have nth: "rev m ! k = m ! (length m - Suc k)" using k by (rule rev_nth)
  show ?thesis
  proof (cases "\<exists>lim. fl_limit f = Some lim \<and> lim < length m")
    case True
    then obtain lim where lim: "fl_limit f = Some lim" "lim < length m" by blast
    have sl: "filter_slice evs f = drop (length m - lim) m" using lim by (simp add: filter_slice_def m_def [symmetric])
    have klim: "k < lim" using assms(2) lim(1) by blast
    have "drop (length m - lim) m ! (lim - Suc k) = m ! (length m - lim + (lim - Suc k))" using lim klim by (intro nth_drop) simp
    also have "length m - lim + (lim - Suc k) = length m - Suc k" using lim klim by simp
    finally show ?thesis
      using lim klim unfolding m_def [symmetric] nth sl by (metis (no_types) diff_less length_drop nth_mem zero_less_Suc diff_diff_cancel less_imp_le less_nat_zero_code neq0_conv)
  next
    case False
    then have "filter_slice evs f = m" by (auto simp: filter_slice_def Let_def m_def split: option.splits)
    then show ?thesis unfolding m_def [symmetric] nth using k by simp
  qed
qed

lemma history_sound:
  assumes "e \<in> set (history ops r fs)"
  shows "e \<in> set (es_snapshot ops (rl_store r)) \<and> (\<exists>f \<in> set fs. filter_matches f e)"
proof -
  let ?evs = "es_snapshot ops (rl_store r)"
  have "set (history ops r fs) \<subseteq> (\<Union>f \<in> set fs. set (filter_slice ?evs f))"
    using history_fold [of "[]" ?evs fs] by (simp add: history_def)
  then obtain f where "f \<in> set fs" "e \<in> set (filter_slice ?evs f)" using assms by auto
  then show ?thesis using filter_slice_set [of ?evs f] by auto
qed

text \<open>
  The history a request is answered with: no identifier twice, only stored events that match one of
  the filters, and for every filter all its matches, or with a limit the newest that many of them.
\<close>

theorem history_spec:
  "distinct (map e_id (history ops r fs))
    \<and> (\<forall>e \<in> set (history ops r fs). e \<in> set (es_snapshot ops (rl_store r)) \<and> (\<exists>f \<in> set fs. filter_matches f e))
    \<and> (\<forall>f \<in> set fs. \<forall>k. k < length (filter (filter_matches f) (es_snapshot ops (rl_store r)))
         \<and> (\<forall>lim. fl_limit f = Some lim \<longrightarrow> k < lim) \<longrightarrow>
         e_id (rev (filter (filter_matches f) (es_snapshot ops (rl_store r))) ! k) \<in> e_id ` set (history ops r fs))"
proof -
  define evs where "evs = es_snapshot ops (rl_store r)"
  note h = history_fold [of "[]" evs fs, simplified]
  have eq: "history ops r fs = foldl (\<lambda>out f. push_unseen out (filter_slice evs f)) [] fs"
    by (simp add: history_def evs_def)
  have complete: "e_id (rev (filter (filter_matches f) evs) ! k) \<in> e_id ` set (history ops r fs)"
    if "f \<in> set fs" "k < length (filter (filter_matches f) evs)" "\<forall>lim. fl_limit f = Some lim \<longrightarrow> k < lim" for f k
  proof -
    have "rev (filter (filter_matches f) evs) ! k \<in> (\<Union>f \<in> set fs. set (filter_slice evs f))"
      using filter_slice_newest [OF that(2,3)] that(1) by blast
    then show ?thesis using h unfolding eq by (metis imageI)
  qed
  show ?thesis
    unfolding evs_def [symmetric] using h complete history_sound [of _ ops r fs, folded evs_def] by (intro conjI ballI allI impI) (simp_all only: eq, elim conjE)
qed

section \<open>What a client receives\<close>

text \<open>A filter the client asked for under a subscription identifier.\<close>

definition requested :: "('k, 's) relay_env \<Rightarrow> ws_input list \<Rightarrow> string \<Rightarrow> Filter \<Rightarrow> bool" where
  "requested env ins sub_id f \<longleftrightarrow> (\<exists>txt n arr fs. WsText txt n \<in> set ins \<and> re_json_from_str env txt = Inr (JArray arr)
     \<and> second_str arr = Some sub_id \<and> decode_filters env (drop 2 arr) = Inr fs \<and> f \<in> set fs)"

definition control_frame :: "json \<Rightarrow> bool" where
  "control_frame j \<longleftrightarrow> (\<exists>m. j = notice_frame m) \<or> (\<exists>i b m. j = ok_frame i b m) \<or> (\<exists>i. j = eose_frame i)"

definition served :: "('k, 's) relay_env \<Rightarrow> ws_input list \<Rightarrow> json \<Rightarrow> bool" where
  "served env ins j \<longleftrightarrow> control_frame j \<or> (\<exists>sub_id e f. j = event_frame env sub_id e \<and> event_verify env e = Inr ()
     \<and> requested env ins sub_id f \<and> filter_matches f e)"

definition subs_ok :: "('k, 's) relay_env \<Rightarrow> ws_input list \<Rightarrow> subscriptions \<Rightarrow> bool" where
  "subs_ok env ins subs \<longleftrightarrow> (\<forall>(sub_id, fs) \<in> set subs. \<forall>f \<in> set fs. requested env ins sub_id f)"

lemma control_frames [simp]: "control_frame (notice_frame m)" "control_frame (ok_frame i b m)" "control_frame (eose_frame i)"
  by (auto simp: control_frame_def)

lemma served_control [simp]: "control_frame j \<Longrightarrow> served env ins j"
  by (simp add: served_def)

lemma set_alist_update: "set (AList.update k v al) \<subseteq> insert (k, v) (set al)"
  by (induction al) auto

lemma set_alist_delete: "set (AList.delete k al) \<subseteq> set al"
  by (auto simp: AList.delete_eq)

lemma live_frames_served:
  assumes "subs_ok env ins subs" and "event_verify env e = Inr ()"
  shows "list_all (served env ins) (live_frames env subs e)"
  using assms by (fastforce simp: live_frames_def list_all_iff list_ex_iff served_def subs_ok_def)

lemma handle_req_served:
  assumes "subs_ok env ins subs" and "relay_ok env (es_snapshot ops (rl_store r))"
    and "WsText txt n \<in> set ins" and "re_json_from_str env txt = Inr (JArray arr)"
    and run: "handle_req env ops r subs arr = (subs', out)"
  shows "subs_ok env ins subs' \<and> list_all (served env ins) out"
proof (cases "second_str arr")
  case None
  then show ?thesis using run assms(1) by (auto simp: handle_req_def)
next
  case (Some i)
  show ?thesis
  proof (cases "decode_filters env (drop 2 arr)")
    case (Inl e)
    then show ?thesis using run assms(1) Some by (auto simp: handle_req_def)
  next
    case (Inr fs)
    have req: "requested env ins i f" if "f \<in> set fs" for f
      using assms(3,4) Some Inr that by (auto simp: requested_def)
    have s': "subs' = AList.update i fs subs" and out: "out = map (event_frame env i) (history ops r fs) @ [eose_frame i]"
      using run Some Inr by (auto simp: handle_req_def)
    have "served env ins (event_frame env i e)" if "e \<in> set (history ops r fs)" for e
    proof -
      have "e \<in> set (es_snapshot ops (rl_store r))" and "\<exists>f \<in> set fs. filter_matches f e"
        using history_sound [OF that] by auto
      then show ?thesis using assms(2) req by (auto simp: served_def relay_ok_def list_all_iff)
    qed
    moreover have "subs_ok env ins subs'"
      using set_alist_update [of i fs subs] assms(1) req unfolding s' subs_ok_def by fastforce
    ultimately show ?thesis by (simp add: out list_all_iff)
  qed
qed

definition socket_ok :: "('k, 's) relay_env \<Rightarrow> 'st event_store_ops \<Rightarrow> ('st \<Rightarrow> bool) \<Rightarrow> ws_input list \<Rightarrow> 'st socket \<Rightarrow> bool" where
  "socket_ok env ops holds ins k \<longleftrightarrow> holds (rl_store (sk_relay k)) \<and> relay_ok env (es_snapshot ops (rl_store (sk_relay k)))
     \<and> subs_ok env ins (sk_subs k) \<and> list_all (served env ins) (sk_out k)"

lemma emit_ok: "socket_ok env ops holds ins k \<Longrightarrow> list_all (served env ins) fs \<Longrightarrow> socket_ok env ops holds ins (emit k fs n)"
  by (auto simp: socket_ok_def emit_def list_all_iff dest: in_set_takeD)

context event_store
begin

lemma handle_event_ok:
  assumes "invar (rl_store r)" and "relay_ok env (es_snapshot ops (rl_store r))" and "handle_event env ops r arr = (r', out)"
  shows "invar (rl_store r') \<and> relay_ok env (es_snapshot ops (rl_store r')) \<and> list_all control_frame out"
proof (cases "\<exists>h v rest e. arr = h # v # rest \<and> re_event_from_value env v = Inr e")
  case True
  then obtain h v rest e where arr: "arr = h # v # rest" "re_event_from_value env v = Inr e" by blast
  obtain r1 res where 1: "ingest env ops r e = (r1, res)" by (cases "ingest env ops r e")
  have "r' = r1 \<and> list_all control_frame out"
    using assms(3) arr 1 by (cases res) (auto simp: handle_event_def)
  then show ?thesis using ingest_ok [OF assms(1,2) 1] by simp
next
  case False
  then have "r' = r \<and> list_all control_frame out"
    using assms(3) by (auto simp: handle_event_def split: list.splits sum.splits)
  then show ?thesis using assms(1,2) by simp
qed

lemma dispatch_ok:
  assumes "socket_ok env ops invar ins k" and "WsText txt n \<in> set ins"
    and run: "dispatch_message env ops (sk_relay k) (sk_subs k) txt = (r', subs', out)"
  shows "socket_ok env ops invar ins (k\<lparr>sk_relay := r', sk_subs := subs'\<rparr>) \<and> list_all (served env ins) out"
proof (cases "\<exists>arr head rest. re_json_from_str env txt = Inr (JArray arr) \<and> arr = JString head # rest")
  case False
  then have "r' = sk_relay k \<and> subs' = sk_subs k \<and> list_all control_frame out"
    using run by (auto simp: dispatch_message_def split: sum.splits json.splits list.splits)
  then show ?thesis using assms(1) by (auto simp: list_all_iff)
next
  case True
  then obtain arr head rest where j: "re_json_from_str env txt = Inr (JArray arr)" "arr = JString head # rest" by blast
  have ok: "invar (rl_store (sk_relay k))" "relay_ok env (es_snapshot ops (rl_store (sk_relay k)))" "subs_ok env ins (sk_subs k)"
      "list_all (served env ins) (sk_out k)"
    using assms(1) by (auto simp: socket_ok_def)
  consider "head = ''EVENT''" | "head = ''REQ''" | "head = ''CLOSE''" | "head \<notin> {''EVENT'', ''REQ'', ''CLOSE''}" by blast
  then show ?thesis
  proof cases
    case 1
    obtain r1 o1 where h: "handle_event env ops (sk_relay k) arr = (r1, o1)" by (cases "handle_event env ops (sk_relay k) arr")
    have "r' = r1" "subs' = sk_subs k" "out = o1" using run j 1 h by (simp_all add: dispatch_message_def)
    then show ?thesis using handle_event_ok [OF ok(1,2) h] ok by (auto simp: socket_ok_def list_all_iff)
  next
    case 2
    obtain s1 o1 where h: "handle_req env ops (sk_relay k) (sk_subs k) arr = (s1, o1)"
      by (cases "handle_req env ops (sk_relay k) (sk_subs k) arr")
    have "r' = sk_relay k" "subs' = s1" "out = o1" using run j 2 h by (auto simp: dispatch_message_def)
    then show ?thesis using handle_req_served [OF ok(3,2) assms(2) j(1) h] ok by (simp add: socket_ok_def)
  next
    case 3
    obtain s1 o1 where h: "handle_close (sk_subs k) arr = (s1, o1)" by (cases "handle_close (sk_subs k) arr")
    have eq: "r' = sk_relay k" "subs' = s1" "out = o1" using run j 3 h by (simp_all add: dispatch_message_def)
    have "set s1 \<subseteq> set (sk_subs k)" "list_all control_frame o1"
      using h by (auto simp: handle_close_def split: option.splits dest: subsetD [OF set_alist_delete])
    moreover have "subs_ok env ins s1" using calculation(1) ok(3) unfolding subs_ok_def by blast
    ultimately show ?thesis using ok eq by (auto simp: socket_ok_def list_all_iff)
  next
    case 4
    then show ?thesis using run j assms(1) by (auto simp: dispatch_message_def)
  qed
qed

lemma socket_step_ok:
  assumes "socket_ok env ops invar ins k" and "i \<in> set ins"
    and live: "\<And>e n. WsLive e n \<in> set ins \<Longrightarrow> event_verify env e = Inr ()"
  shows "socket_ok env ops invar ins (socket_step env ops k i)"
proof (cases i)
  case (WsText t n)
  obtain r' subs' out where d: "dispatch_message env ops (sk_relay k) (sk_subs k) t = (r', subs', out)"
    by (cases "dispatch_message env ops (sk_relay k) (sk_subs k) t") auto
  have "socket_ok env ops invar ins (k\<lparr>sk_relay := r', sk_subs := subs'\<rparr>) \<and> list_all (served env ins) out"
    by (rule dispatch_ok [OF assms(1) _ d, of n]) (use assms(2) WsText in simp)
  then show ?thesis using WsText d by (simp add: emit_ok)
next
  case (WsLive e n)
  have "list_all (served env ins) (live_frames env (sk_subs k) e)"
    using assms live WsLive by (intro live_frames_served) (auto simp: socket_ok_def)
  then show ?thesis using WsLive assms(1) emit_ok by simp
next
  case (WsPeers es)
  then show ?thesis using assms(1) ingest_all_ok [of "sk_relay k" env es] by (auto simp: socket_ok_def)
qed (use assms(1) in \<open>auto simp: socket_ok_def\<close>)

lemma serve_ok:
  assumes "\<And>e n. WsLive e n \<in> set ins \<Longrightarrow> event_verify env e = Inr ()"
  shows "socket_ok env ops invar ins k \<Longrightarrow> set is \<subseteq> set ins \<Longrightarrow> socket_ok env ops invar ins (serve_relay_ws_stream env ops k is)"
  using assms by (induction "is" arbitrary: k) (auto simp: socket_step_ok)

end

text \<open>C34: What a client of the relay receives over a connection, on any interleaving of its frames, the
  submissions of other clients and the broadcast: apart from notices, acknowledgements and end marks,
  only events that verify, under a subscription identifier the client used, matching a filter it gave
  for that identifier. The broadcast carries verified events, as the relay sends no others.
\<close>

theorem relay_serves_requested:
  assumes "k = \<lparr>sk_relay = Relay_new (InMemoryEventStore_new n) information, sk_subs = [], sk_out = [], sk_open = True\<rparr>"
    and "\<forall>e n. WsLive e n \<in> set ins \<longrightarrow> event_verify env e = Inr ()"
    and "j \<in> set (sk_out (serve_relay_ws_stream env in_memory_ops k ins))"
  shows "control_frame j \<or> (\<exists>sub_id e f. j = event_frame env sub_id e \<and> event_verify env e = Inr ()
     \<and> requested env ins sub_id f \<and> filter_matches f e)"
proof -
  have 1: "socket_ok env in_memory_ops im_invar ins k"
    by (simp add: socket_ok_def assms(1) im_invar_def Relay_new_def InMemoryEventStore_new_def relay_ok_def
        List.map_filter_simps subs_ok_def)
  have "socket_ok env in_memory_ops im_invar ins (serve_relay_ws_stream env in_memory_ops k ins)"
    by (rule im.serve_ok [OF _ 1 subset_refl]) (use assms(2) in blast)
  then show ?thesis using assms(3) by (auto simp: socket_ok_def list_all_iff served_def)
qed

section \<open>Examples\<close>

text \<open>An environment in which every well-sized event verifies and a frame is its own JSON value.\<close>

definition ex_relay_env :: "(bytes, bytes) relay_env" where
  "ex_relay_env = \<lparr>re_json_to_string = (\<lambda>_. []),
     re_json_from_str = (\<lambda>s. if s = ''req'' then Inr (JArray [JString ''REQ'', JString ''s'', JNull]) else Inl ''syntax''),
     re_event_from_value = (\<lambda>_. Inl ''none''), re_event_to_value = (\<lambda>e. JString (e_content e)),
     re_filter_from_value = (\<lambda>_. Inr \<lparr>fl_ids = None, fl_authors = None, fl_kinds = Some [0], fl_since = None, fl_until = None,
        fl_limit = Some 1, fl_tags = []\<rparr>),
     re_hex_encode = id, re_hex_decode = Inr, re_sha256 = id, re_verifying_key = Inr, re_signature = Inr,
     re_schnorr_verify = (\<lambda>_ _ _. Inr ())\<rparr>"

definition ex_event :: "u64 \<Rightarrow> string \<Rightarrow> Event" where
  "ex_event t c = \<lparr>e_id = [], e_pubkey = replicate 64 CHR ''a'', e_created_at = t, e_kind = 0, e_tags = [], e_content = c,
     e_sig = replicate 128 CHR ''b''\<rparr>"

lemma ex_event_verifies: "event_verify ex_relay_env (ex_event t c) = Inr ()"
  by (simp add: event_verify_def ex_event_def ex_relay_env_def canonical_id_def map_err_def to_ascii_lowercase_def Let_def)

definition ex_relay :: "InMemoryEventStore Relay" where
  "ex_relay = \<lparr>rl_store = \<lparr>im_inner = [ex_event 9 ''new''], im_max_events = 5\<rparr>, rl_sent = [], rl_info = jss_compatible ''1''\<rparr>"

theorem stale_event_replaces_newer_witness:
  "ex_event 3 ''old'' \<in> set (im_inner (rl_store (fst (ingest ex_relay_env in_memory_ops ex_relay (ex_event 3 ''old'')))))
   \<and> ex_event 9 ''new'' \<notin> set (im_inner (rl_store (fst (ingest ex_relay_env in_memory_ops ex_relay (ex_event 3 ''old'')))))"
proof (rule stale_event_replaces_newer)
  have slot: "slot_of (ex_event t c) = Some (replicate 64 CHR ''a'', 0, None)" "\<not> is_ephemeral (e_kind (ex_event t c))" for t c
    by (simp_all add: slot_of_def ex_event_def is_ephemeral_def is_replaceable_def)
  show "im_invar (rl_store ex_relay)" by (simp add: im_invar_def ex_relay_def)
  show "relay_ok ex_relay_env (im_inner (rl_store ex_relay))"
    by (simp add: relay_ok_def ex_relay_def ex_event_verifies slot List.map_filter_simps)
  show "event_verify ex_relay_env (ex_event 3 ''old'') = Inr ()" by (rule ex_event_verifies)
  show "ex_event 9 ''new'' \<in> set (im_inner (rl_store ex_relay))" by (simp add: ex_relay_def)
  show "slot_of (ex_event 3 ''old'') = slot_of (ex_event 9 ''new'')" "slot_of (ex_event 9 ''new'') \<noteq> None" by (simp_all add: slot)
  show "e_created_at (ex_event 3 ''old'') < e_created_at (ex_event 9 ''new'')" by (simp add: ex_event_def)
qed

theorem history_spec_witness:
  "distinct (map e_id (history in_memory_ops ex_relay [\<lparr>fl_ids = None, fl_authors = None, fl_kinds = Some [0], fl_since = None,
     fl_until = None, fl_limit = Some 1, fl_tags = []\<rparr>]))"
  using history_spec [of in_memory_ops ex_relay "[\<lparr>fl_ids = None, fl_authors = None, fl_kinds = Some [0], fl_since = None,
     fl_until = None, fl_limit = Some 1, fl_tags = []\<rparr>]"] by (rule conjunct1)

theorem relay_serves_requested_witness:
  "\<exists>sub_id e f. event_frame ex_relay_env ''s'' (ex_event 9 ''new'') = event_frame ex_relay_env sub_id e
     \<and> requested ex_relay_env [WsText ''req'' 9, WsLive (ex_event 9 ''new'') 9] sub_id f"
proof -
  let ?ins = "[WsText ''req'' 9, WsLive (ex_event 9 ''new'') 9]"
  let ?k = "\<lparr>sk_relay = Relay_new (InMemoryEventStore_new 5) (jss_compatible ''1''), sk_subs = [], sk_out = [], sk_open = True\<rparr>"
  have live: "\<forall>e n. WsLive e n \<in> set ?ins \<longrightarrow> event_verify ex_relay_env e = Inr ()"
    using ex_event_verifies by simp
  have frame: "event_frame ex_relay_env ''s'' (ex_event 9 ''new'') = JArray [JString ''EVENT'', JString ''s'', JString ''new'']"
    by (simp add: event_frame_def ex_relay_env_def ex_event_def)
  have out: "JArray [JString ''EVENT'', JString ''s'', JString ''new''] \<in> set (sk_out (serve_relay_ws_stream ex_relay_env in_memory_ops ?k ?ins))"
    by code_simp
  have "\<not> control_frame (JArray [JString ''EVENT'', JString ''s'', JString ''new''])"
    by (simp add: control_frame_def notice_frame_def ok_frame_def eose_frame_def)
  then have "\<exists>sub_id e f. JArray [JString ''EVENT'', JString ''s'', JString ''new''] = event_frame ex_relay_env sub_id e
      \<and> event_verify ex_relay_env e = Inr () \<and> requested ex_relay_env ?ins sub_id f \<and> filter_matches f e"
    using relay_serves_requested [OF refl live out] by (elim disjE) (erule (1) notE)
  then show ?thesis unfolding frame by (elim exE conjE) (intro exI conjI)
qed

end
