(* ===== verification/Idp_Stores.thy ===== *)
theory Idp_Stores
  imports Ssrf Json "HOL-Library.AList"
begin

text \<open>
  The stores of the identity provider (\<open>solid-pod-rs-idp\<close>): sessions and authorisation codes
  (\<open>session.rs\<close>), users (\<open>user_store.rs\<close>), invites (\<open>invites.rs\<close>), signing keys (\<open>jwks.rs\<close>) and clients with
  their identifier documents (\<open>registration.rs\<close>). A clock reading is a number of nanoseconds (of seconds
  for dates since the epoch); random tokens, password hashing, key generation and HTTP are parameters.
\<close>

section \<open>Sessions and authorisation codes\<close>

datatype SessionError = SessionUnknown | SessionExpired

record AuthCodeRecord =
  ac_code :: string
  ac_client_id :: string
  ac_account_id :: string
  ac_redirect_uri :: string
  ac_code_challenge :: "string option"
  ac_issued_at :: nat
  ac_requested_scope :: "string option"

record SessionRecord =
  sn_account_id :: string
  sn_created_at :: nat
  sn_last_access :: nat

record SessionStore =
  ss_sessions :: "(string \<times> SessionRecord) list"
  ss_codes :: "(string \<times> AuthCodeRecord) list"
  ss_session_ttl :: nat
  ss_code_ttl :: nat

definition SessionStore_new :: SessionStore where
  "SessionStore_new = \<lparr>ss_sessions = [], ss_codes = [], ss_session_ttl = 14 * 24 * 3600 * 10 ^ 9, ss_code_ttl = 10 * 60 * 10 ^ 9\<rparr>"

definition with_ttls :: "SessionStore \<Rightarrow> nat \<Rightarrow> nat \<Rightarrow> SessionStore" where
  "with_ttls st session_ttl code_ttl = st\<lparr>ss_session_ttl := session_ttl, ss_code_ttl := code_ttl\<rparr>"

definition SessionRecord_new :: "nat \<Rightarrow> string \<Rightarrow> SessionRecord" where
  "SessionRecord_new now account_id = \<lparr>sn_account_id = account_id, sn_created_at = now, sn_last_access = now\<rparr>"

definition create_session :: "string \<Rightarrow> nat \<Rightarrow> SessionStore \<Rightarrow> string \<Rightarrow> SessionStore \<times> string" where
  "create_session rnd now st account_id =
     (st\<lparr>ss_sessions := AList.update rnd (SessionRecord_new now account_id) (ss_sessions st)\<rparr>, rnd)"

definition session_lookup :: "nat \<Rightarrow> SessionStore \<Rightarrow> string \<Rightarrow> SessionStore \<times> (SessionError + SessionRecord)" where
  "session_lookup now st i = (case map_of (ss_sessions st) i of
     None \<Rightarrow> (st, Inl SessionUnknown)
   | Some entry \<Rightarrow>
       if now - sn_last_access entry > ss_session_ttl st
       then (st\<lparr>ss_sessions := AList.delete i (ss_sessions st)\<rparr>, Inl SessionExpired)
       else (let entry' = entry\<lparr>sn_last_access := now\<rparr> in
         (st\<lparr>ss_sessions := AList.update i entry' (ss_sessions st)\<rparr>, Inr entry')))"

definition session_revoke :: "SessionStore \<Rightarrow> string \<Rightarrow> SessionStore" where
  "session_revoke st i = st\<lparr>ss_sessions := AList.delete i (ss_sessions st)\<rparr>"

definition issue_code :: "string \<Rightarrow> nat \<Rightarrow> SessionStore \<Rightarrow> string \<Rightarrow> string \<Rightarrow> string \<Rightarrow> string option \<Rightarrow> string option
    \<Rightarrow> SessionStore \<times> AuthCodeRecord" where
  "issue_code rnd now st client_id account_id redirect_uri code_challenge requested_scope =
     (let rec = \<lparr>ac_code = rnd, ac_client_id = client_id, ac_account_id = account_id, ac_redirect_uri = redirect_uri,
            ac_code_challenge = code_challenge, ac_issued_at = now, ac_requested_scope = requested_scope\<rparr>
      in (st\<lparr>ss_codes := AList.update rnd rec (ss_codes st)\<rparr>, rec))"

definition take_code :: "nat \<Rightarrow> SessionStore \<Rightarrow> string \<Rightarrow> SessionStore \<times> AuthCodeRecord option" where
  "take_code now st code = (case map_of (ss_codes st) code of
     None \<Rightarrow> (st, None)
   | Some rec \<Rightarrow> (st\<lparr>ss_codes := AList.delete code (ss_codes st)\<rparr>,
       if now - ac_issued_at rec > ss_code_ttl st then None else Some rec))"

section \<open>Users\<close>

datatype UserStoreError = UserHash string | UserBackend string | UserPasswordTooShort nat | UserNotImplemented

record User =
  us_id :: string
  us_email :: string
  us_webid :: string
  us_name :: "string option"
  us_password_hash :: string

text \<open>
  The trait as a record of operations, and Argon2id: hashing a password with a fresh salt, and checking
  one against the text form of a hash, which may not parse.
\<close>

record 'u user_store_ops =
  uo_find_by_email :: "'u \<Rightarrow> string \<Rightarrow> UserStoreError + User option"
  uo_find_by_id :: "'u \<Rightarrow> string \<Rightarrow> UserStoreError + User option"
  uo_verify_password :: "'u \<Rightarrow> User \<Rightarrow> string \<Rightarrow> UserStoreError + bool"
  uo_delete :: "'u \<Rightarrow> string \<Rightarrow> 'u \<times> (UserStoreError + bool)"

record argon2 =
  ar_hash :: "string \<Rightarrow> bytes \<Rightarrow> string + string"
  ar_verify :: "string \<Rightarrow> bytes \<Rightarrow> string + bool"

definition MIN_PASSWORD_LENGTH :: nat where "MIN_PASSWORD_LENGTH = 8"

definition default_verify_password :: "argon2 \<Rightarrow> User \<Rightarrow> string \<Rightarrow> UserStoreError + bool" where
  "default_verify_password A user password =
     (case ar_verify A (us_password_hash user) password of Inl e \<Rightarrow> Inl (UserHash e) | Inr ok \<Rightarrow> Inr ok)"

type_synonym InMemoryUserStore = "(string \<times> User) list"

definition insert_user :: "argon2 \<Rightarrow> string \<Rightarrow> InMemoryUserStore \<Rightarrow> string \<Rightarrow> string \<Rightarrow> string \<Rightarrow> string option \<Rightarrow> string
    \<Rightarrow> InMemoryUserStore \<times> (UserStoreError + User)" where
  "insert_user A salt st i email webid name password =
     (if length password < MIN_PASSWORD_LENGTH then (st, Inl (UserPasswordTooShort MIN_PASSWORD_LENGTH))
      else case ar_hash A salt password of
          Inl e \<Rightarrow> (st, Inl (UserHash e))
        | Inr h \<Rightarrow>
            (let user = \<lparr>us_id = i, us_email = to_ascii_lowercase email, us_webid = webid, us_name = name, us_password_hash = h\<rparr>
             in (AList.update (us_email user) user st, Inr user)))"

definition mem_find_by_email :: "InMemoryUserStore \<Rightarrow> string \<Rightarrow> UserStoreError + User option" where
  "mem_find_by_email st email = Inr (map_of st (to_ascii_lowercase email))"

definition mem_find_by_id :: "InMemoryUserStore \<Rightarrow> string \<Rightarrow> UserStoreError + User option" where
  "mem_find_by_id st i = Inr (find (\<lambda>u. us_id u = i) (map snd st))"

definition mem_delete_user :: "InMemoryUserStore \<Rightarrow> string \<Rightarrow> InMemoryUserStore \<times> (UserStoreError + bool)" where
  "mem_delete_user st i = (case find (\<lambda>(k, u). us_id u = i) st of
     Some (k, u) \<Rightarrow> (AList.delete k st, Inr True)
   | None \<Rightarrow> (st, Inr False))"

definition mem_user_ops :: "argon2 \<Rightarrow> InMemoryUserStore user_store_ops" where
  "mem_user_ops A = \<lparr>uo_find_by_email = mem_find_by_email, uo_find_by_id = mem_find_by_id,
     uo_verify_password = (\<lambda>st. default_verify_password A), uo_delete = mem_delete_user\<rparr>"

text \<open>
  What the provider relies on of a user store: a lookup answers with an account of that identifier or
  e-mail address, and an account that was deleted is gone.
\<close>

locale user_directory =
  fixes ops :: "'u user_store_ops" and invar :: "'u \<Rightarrow> bool"
  assumes by_id: "invar s \<Longrightarrow> uo_find_by_id ops s i = Inr (Some u) \<Longrightarrow> us_id u = i"
    and by_email: "invar s \<Longrightarrow> uo_find_by_email ops s e = Inr (Some u) \<Longrightarrow> us_email u = to_ascii_lowercase e"
    and delete_invar: "invar s \<Longrightarrow> invar (fst (uo_delete ops s i))"
    and delete_gone: "invar s \<Longrightarrow> snd (uo_delete ops s i) = Inr b \<Longrightarrow> uo_find_by_id ops (fst (uo_delete ops s i)) i = Inr None"
    and delete_others: "invar s \<Longrightarrow> i \<noteq> k \<Longrightarrow> uo_find_by_id ops (fst (uo_delete ops s i)) k = uo_find_by_id ops s k"

text \<open>The in-memory store: accounts under their addresses, with different identifiers.\<close>

definition users_map_ok :: "(string \<rightharpoonup> User) \<Rightarrow> bool" where
  "users_map_ok m \<longleftrightarrow> (\<forall>k u. m k = Some u \<longrightarrow> us_email u = k) \<and> (\<forall>k u k' u'. m k = Some u \<longrightarrow> m k' = Some u' \<longrightarrow> us_id u = us_id u' \<longrightarrow> k = k')"

definition mem_users_ok :: "InMemoryUserStore \<Rightarrow> bool" where
  "mem_users_ok st \<longleftrightarrow> distinct (map fst st) \<and> users_map_ok (map_of st)"

lemma users_map_upd:
  "users_map_ok m \<Longrightarrow> (\<And>k v. m k = Some v \<Longrightarrow> us_id v = us_id u \<Longrightarrow> k = us_email u) \<Longrightarrow> users_map_ok (m(us_email u \<mapsto> u))"
  by (simp add: users_map_ok_def)

lemma users_map_del: "users_map_ok m \<Longrightarrow> users_map_ok (m(k := None))"
  by (simp add: users_map_ok_def)

lemma mem_users_entry:
  assumes "mem_users_ok st" "(k, u) \<in> set st" "(k', u') \<in> set st"
  shows "us_id u = us_id u' \<longleftrightarrow> k = k'"
proof -
  have m: "map_of st k = Some u" "map_of st k' = Some u'" using assms by (auto simp: mem_users_ok_def)
  then have "us_id u = us_id u' \<Longrightarrow> k = k'" using assms(1) unfolding mem_users_ok_def users_map_ok_def by blast
  moreover have "k = k' \<Longrightarrow> us_id u = us_id u'" using m by simp
  ultimately show ?thesis by blast
qed

lemma delete_filter: "AList.delete k xs = filter (\<lambda>(k', _). k' \<noteq> k) xs"
  by (auto simp: AList.delete_eq case_prod_unfold intro: filter_cong)

lemma mem_delete_conv:
  assumes "mem_users_ok st"
  shows "fst (mem_delete_user st i) = filter (\<lambda>(_, u). us_id u \<noteq> i) st"
proof (cases "find (\<lambda>(k, u). us_id u = i) st")
  case None
  then have "filter (\<lambda>(_, u). us_id u \<noteq> i) st = st" by (auto simp: find_None_iff filter_id_conv)
  then show ?thesis using None by (simp add: mem_delete_user_def)
next
  case (Some ku)
  obtain k u where ku: "ku = (k, u)" by force
  have e: "(k, u) \<in> set st" "us_id u = i" using Some ku by (auto simp: find_Some_iff in_set_conv_nth)
  have "k' \<noteq> k \<longleftrightarrow> us_id u' \<noteq> i" if "(k', u') \<in> set st" for k' u'
    using mem_users_entry [OF assms e(1) that] e(2) by auto
  then have "filter (\<lambda>(k', _). k' \<noteq> k) st = filter (\<lambda>(_, u). us_id u \<noteq> i) st" by (intro filter_cong) auto
  then show ?thesis using Some ku by (simp add: mem_delete_user_def delete_filter)
qed

lemma mem_users_delete: "mem_users_ok st \<Longrightarrow> mem_users_ok (fst (mem_delete_user st i))"
  by (simp add: mem_delete_user_def mem_users_ok_def delete_conv' distinct_delete users_map_del split: option.split)

lemma find_filter_other: "(\<And>x. Q x \<Longrightarrow> P x) \<Longrightarrow> find Q (filter P xs) = find Q xs"
  by (induction xs) auto

lemma mem_find_filter: "mem_find_by_id (filter (\<lambda>(_, u). us_id u \<noteq> i) st) k = (if i = k then Inr None else mem_find_by_id st k)"
proof -
  have "map snd (filter (\<lambda>(_, u). us_id u \<noteq> i) st) = filter (\<lambda>u. us_id u \<noteq> i) (map snd st)"
    by (induction st) auto
  then show ?thesis by (auto simp: mem_find_by_id_def find_None_iff intro: find_filter_other)
qed

interpretation mem_users: user_directory "mem_user_ops A" mem_users_ok
proof
  fix s i u assume "mem_users_ok s" "uo_find_by_id (mem_user_ops A) s i = Inr (Some u)"
  then show "us_id u = i" by (auto simp: mem_user_ops_def mem_find_by_id_def find_Some_iff)
next
  fix s e u assume "mem_users_ok s" "uo_find_by_email (mem_user_ops A) s e = Inr (Some u)"
  then show "us_email u = to_ascii_lowercase e" by (auto simp: mem_user_ops_def mem_find_by_email_def mem_users_ok_def users_map_ok_def simp del: map_of_eq_Some_iff)
next
  fix s i assume "mem_users_ok s"
  then show "mem_users_ok (fst (uo_delete (mem_user_ops A) s i))" by (simp add: mem_user_ops_def mem_users_delete)
qed (auto simp: mem_user_ops_def mem_delete_conv mem_find_filter)

text \<open>Inserting keeps the invariant when no account under another address has the identifier.\<close>

lemma insert_user_ok:
  assumes "mem_users_ok st" and "\<forall>k u. map_of st k = Some u \<longrightarrow> us_id u = i \<longrightarrow> k = to_ascii_lowercase email"
  shows "mem_users_ok (fst (insert_user A salt st i email webid name password))"
proof -
  have "mem_users_ok (AList.update (us_email u) u st)" if "us_id u = i" "us_email u = to_ascii_lowercase email" for u
    using assms that users_map_upd [of "map_of st" u] by (simp add: mem_users_ok_def update_conv' distinct_update)
  then show ?thesis using assms(1) by (simp add: insert_user_def Let_def split: sum.split)
qed

section \<open>Invites\<close>

record Invite =
  iv_token :: string
  iv_max_uses :: "u32 option"
  iv_expires_at :: "nat option"

type_synonym InMemoryInviteStore = "(string \<times> Invite) list"

definition invite_insert :: "InMemoryInviteStore \<Rightarrow> Invite \<Rightarrow> InMemoryInviteStore" where
  "invite_insert st v = (if map_of st (iv_token v) = None then AList.update (iv_token v) v st else st)"

definition invite_get :: "InMemoryInviteStore \<Rightarrow> string \<Rightarrow> Invite option" where
  "invite_get st token = map_of st token"

definition sat_mul :: "u64 \<Rightarrow> nat \<Rightarrow> u64" where
  "sat_mul n k = (if unat n * k < 2 ^ 64 then n * of_nat k else - 1)"

text \<open>Seconds; the text of an error is kept up to what \<open>Debug\<close> quotes.\<close>

definition parse_duration :: "string \<Rightarrow> string + u64" where
  "parse_duration input =
     (let trimmed = trim input in
      if trimmed = [] then Inl ''empty duration''
      else case parse_u64 trimmed of
        Some n \<Rightarrow> Inr n
      | None \<Rightarrow> (case find_char (\<lambda>c. \<not> ascii_digit c) trimmed of
          None \<Rightarrow> Inl ''no unit suffix''
        | Some i \<Rightarrow> (case parse_u64 (take i trimmed) of
            None \<Rightarrow> Inl ''invalid number''
          | Some n \<Rightarrow> (let unit = drop i trimmed in
              if unit = ''s'' then Inr n
              else if unit = ''m'' then Inr (sat_mul n 60)
              else if unit = ''h'' then Inr (sat_mul n 3600)
              else if unit = ''d'' then Inr (sat_mul n 86400)
              else if unit = ''w'' then Inr (sat_mul n 604800)
              else Inl ''unknown duration unit''))))"

section \<open>Signing keys\<close>

record PublicJwk =
  pj_kty :: string
  pj_crv :: string
  pj_x :: string
  pj_y :: string
  pj_kid :: string
  pj_alg :: string
  pj_use :: string

record SigningKey =
  sg_kid :: string
  sg_alg :: string
  sg_private_pem :: string
  sg_private_der :: bytes
  sg_public_jwk :: PublicJwk
  sg_created_at :: nat

text \<open>The P-256 key type and its PKCS8 forms; a coordinate is missing for the point at infinity.\<close>

record 'sk p256_ops =
  pk_x :: "'sk \<Rightarrow> bytes option"
  pk_y :: "'sk \<Rightarrow> bytes option"
  pk_to_pem :: "'sk \<Rightarrow> string + string"
  pk_to_der :: "'sk \<Rightarrow> string + bytes"
  pk_from_pem :: "string \<Rightarrow> string + 'sk"
  pk_base64_url :: "bytes \<Rightarrow> string"

definition es256_jwk :: "'sk p256_ops \<Rightarrow> string \<Rightarrow> bytes \<Rightarrow> bytes \<Rightarrow> PublicJwk" where
  "es256_jwk P kid x y = \<lparr>pj_kty = ''EC'', pj_crv = ''P-256'', pj_x = pk_base64_url P x, pj_y = pk_base64_url P y,
     pj_kid = kid, pj_alg = ''ES256'', pj_use = ''sig''\<rparr>"

text \<open>\<open>sk\<close> is the random key and \<open>uuid\<close> the random part of its identifier.\<close>

definition SigningKey_generate_es256 :: "'sk p256_ops \<Rightarrow> 'sk \<Rightarrow> string \<Rightarrow> nat \<Rightarrow> string + SigningKey" where
  "SigningKey_generate_es256 P sk uuid now =
     rbind (ok_or (pk_x P sk) ''EC point missing x coordinate'') (\<lambda>x.
     rbind (ok_or (pk_y P sk) ''EC point missing y coordinate'') (\<lambda>y.
     let kid = ''es256-'' @ uuid in
     rbind (case pk_to_pem P sk of Inl e \<Rightarrow> Inl (''PKCS8 PEM encode: '' @ e) | Inr s \<Rightarrow> Inr s) (\<lambda>private_pem.
     rbind (case pk_to_der P sk of Inl e \<Rightarrow> Inl (''PKCS8 DER encode: '' @ e) | Inr s \<Rightarrow> Inr s) (\<lambda>private_der.
       Inr \<lparr>sg_kid = kid, sg_alg = ''ES256'', sg_private_pem = private_pem, sg_private_der = private_der,
         sg_public_jwk = es256_jwk P kid x y, sg_created_at = now\<rparr>))))"

definition SigningKey_from_pem :: "'sk p256_ops \<Rightarrow> nat \<Rightarrow> string \<Rightarrow> string \<Rightarrow> string + SigningKey" where
  "SigningKey_from_pem P now kid pem =
     rbind (case pk_from_pem P pem of Inl e \<Rightarrow> Inl (''PKCS8 PEM decode: '' @ e) | Inr k \<Rightarrow> Inr k) (\<lambda>sk.
     rbind (ok_or (pk_x P sk) ''EC point missing x coordinate'') (\<lambda>x.
     rbind (ok_or (pk_y P sk) ''EC point missing y coordinate'') (\<lambda>y.
     rbind (case pk_to_der P sk of Inl e \<Rightarrow> Inl (''PKCS8 DER encode: '' @ e) | Inr s \<Rightarrow> Inr s) (\<lambda>private_der.
       Inr \<lparr>sg_kid = kid, sg_alg = ''ES256'', sg_private_pem = pem, sg_private_der = private_der,
         sg_public_jwk = es256_jwk P kid x y, sg_created_at = now\<rparr>))))"

record Jwks =
  jw_active :: SigningKey
  jw_retired :: "(SigningKey \<times> nat) list"
  jw_retention :: nat

definition from_active :: "SigningKey \<Rightarrow> Jwks" where
  "from_active k = \<lparr>jw_active = k, jw_retired = [], jw_retention = 7 * 24 * 3600 * 10 ^ 9\<rparr>"

definition with_retention :: "Jwks \<Rightarrow> nat \<Rightarrow> Jwks" where
  "with_retention j d = j\<lparr>jw_retention := d\<rparr>"

definition insert_signing_key :: "nat \<Rightarrow> Jwks \<Rightarrow> SigningKey \<Rightarrow> Jwks" where
  "insert_signing_key now j k = j\<lparr>jw_active := k, jw_retired := jw_retired j @ [(jw_active j, now)]\<rparr>"

text \<open>\<open>generated\<close> is the outcome of generating a key.\<close>

definition jwks_rotate :: "string + SigningKey \<Rightarrow> nat \<Rightarrow> Jwks \<Rightarrow> Jwks \<times> (string + SigningKey)" where
  "jwks_rotate generated now j = (case generated of
     Inl e \<Rightarrow> (j, Inl e)
   | Inr k \<Rightarrow> (j\<lparr>jw_active := k, jw_retired := jw_retired j @ [(jw_active j, now)]\<rparr>, Inr k))"

definition prune_expired :: "nat \<Rightarrow> Jwks \<Rightarrow> Jwks" where
  "prune_expired now j = j\<lparr>jw_retired := filter (\<lambda>(k, ts). now - ts < jw_retention j) (jw_retired j)\<rparr>"

definition public_document :: "Jwks \<Rightarrow> PublicJwk list" where
  "public_document j = sg_public_jwk (jw_active j) # map (\<lambda>(k, ts). sg_public_jwk k) (jw_retired j)"

section \<open>Clients\<close>

definition CLIENT_CACHE_TTL :: nat where "CLIENT_CACHE_TTL = 5 * 60 * 10 ^ 9"

record RegistrationRequest =
  rg_client_id :: "string option"
  rg_redirect_uris :: "string list"
  rg_client_name :: "string option"
  rg_scope :: "string option"
  rg_grant_types :: "string list"
  rg_response_types :: "string list"
  rg_token_endpoint_auth_method :: "string option"
  rg_application_type :: "string option"

record ClientDocument =
  cd_client_id :: string
  cd_client_secret :: "string option"
  cd_client_id_issued_at :: u64
  cd_redirect_uris :: "string list"
  cd_client_name :: "string option"
  cd_grant_types :: "string list"
  cd_response_types :: "string list"
  cd_token_endpoint_auth_method :: string
  cd_application_type :: "string option"
  cd_scope :: "string option"
  cd_client_id_document_url :: "string option"

datatype RegError =
    RegInvalidRequest string
  | RegSsrf SsrfError
  | RegFetch string
  | RegInvalidDocument string

record ClientStore =
  cs_registered :: "(string \<times> ClientDocument) list"
  cs_cache :: "(string \<times> ClientDocument \<times> nat) list"
  cs_http :: bool
  cs_allow_unsafe_urls :: bool

definition ClientStore_new :: "bool \<Rightarrow> ClientStore" where
  "ClientStore_new built = \<lparr>cs_registered = [], cs_cache = [], cs_http = built, cs_allow_unsafe_urls = False\<rparr>"

definition client_insert :: "ClientStore \<Rightarrow> ClientDocument \<Rightarrow> ClientStore" where
  "client_insert st d = st\<lparr>cs_registered := AList.update (cd_client_id d) d (cs_registered st)\<rparr>"

text \<open>An HTTP GET: a transport error, or a status and the body read as JSON.\<close>

record web_env =
  we_url_parse :: "string \<Rightarrow> parsed_url option"
  we_scheme :: "string \<Rightarrow> string"
  we_get :: "string \<Rightarrow> string + nat \<times> (string + json)"
  we_now :: nat
  we_now_secs :: u64

definition json_field :: "json \<Rightarrow> string \<Rightarrow> json option" where
  "json_field v k = (case v of JObject ms \<Rightarrow> map_of ms k | _ \<Rightarrow> None)"

definition json_text :: "json \<Rightarrow> string option" where
  "json_text v = (case v of JString s \<Rightarrow> Some s | _ \<Rightarrow> None)"

definition text_field :: "json \<Rightarrow> string \<Rightarrow> string option" where
  "text_field v k = Option.bind (json_field v k) json_text"

definition doc_redirect_uris :: "json \<Rightarrow> string list" where
  "doc_redirect_uris body = (case json_field body ''redirect_uris'' of
     Some (JArray vs) \<Rightarrow> List.map_filter json_text vs | _ \<Rightarrow> [])"

definition fetch_client_document :: "web_env \<Rightarrow> ClientStore \<Rightarrow> string \<Rightarrow> RegError + ClientDocument" where
  "fetch_client_document web st url =
     rbind (if cs_allow_unsafe_urls st then Inr ()
            else case is_safe_url (we_url_parse web) url of Inl e \<Rightarrow> Inl (RegSsrf e) | Inr u \<Rightarrow> Inr u) (\<lambda>_.
     if we_url_parse web url = None then Inl (RegInvalidDocument ''URL parse: '')
     else if we_scheme web url \<notin> {''http'', ''https''} then Inl (RegInvalidDocument (''unsupported scheme: '' @ we_scheme web url))
     else if \<not> cs_http st then Inl (RegFetch ''no HTTP client configured'')
     else case we_get web url of
       Inl e \<Rightarrow> Inl (RegFetch e)
     | Inr (status, parsed) \<Rightarrow>
         if \<not> (200 \<le> status \<and> status < 300) then Inl (RegFetch (''HTTP '' @ show_nat status @ '' from '' @ url))
         else case parsed of
           Inl e \<Rightarrow> Inl (RegInvalidDocument (''JSON parse: '' @ e))
         | Inr body \<Rightarrow>
             if text_field body ''client_id'' \<notin> {None, Some url} then Inl (RegInvalidDocument ''client_id mismatch'')
             else if doc_redirect_uris body = [] then Inl (RegInvalidDocument ''Client Identifier Document is missing redirect_uris'')
             else Inr \<lparr>cd_client_id = url, cd_client_secret = None, cd_client_id_issued_at = we_now_secs web,
               cd_redirect_uris = doc_redirect_uris body,
               cd_client_name = or_else (text_field body ''client_name'') (text_field body ''name''),
               cd_grant_types = [''authorization_code'', ''refresh_token''], cd_response_types = [''code''],
               cd_token_endpoint_auth_method = ''none'', cd_application_type = Some ''web'',
               cd_scope = or_else (text_field body ''scope'') (Some ''openid webid''), cd_client_id_document_url = Some url\<rparr>)"

definition url_shaped :: "string \<Rightarrow> bool" where
  "url_shaped s \<longleftrightarrow> starts_with ''http://'' s \<or> starts_with ''https://'' s"

definition find_uncached :: "web_env \<Rightarrow> ClientStore \<Rightarrow> string \<Rightarrow> ClientStore \<times> (RegError + ClientDocument option)" where
  "find_uncached web st client_id =
     (if url_shaped client_id then
        try_with st (fetch_client_document web st client_id) (\<lambda>d.
          (st\<lparr>cs_cache := AList.update client_id (d, we_now web) (cs_cache st)\<rparr>, Inr (Some d)))
      else (st, Inr None))"

definition client_find :: "web_env \<Rightarrow> ClientStore \<Rightarrow> string \<Rightarrow> ClientStore \<times> (RegError + ClientDocument option)" where
  "client_find web st client_id = (case map_of (cs_registered st) client_id of
     Some d \<Rightarrow> (st, Inr (Some d))
   | None \<Rightarrow>
       (case map_of (cs_cache st) client_id of
          Some (d, ts) \<Rightarrow> if we_now web - ts < CLIENT_CACHE_TTL then (st, Inr (Some d)) else find_uncached web st client_id
        | None \<Rightarrow> find_uncached web st client_id))"

definition base36_digit :: "nat \<Rightarrow> char" where
  "base36_digit d = ''0123456789abcdefghijklmnopqrstuvwxyz'' ! d"

fun base36_loop :: "nat \<Rightarrow> string" where
  "base36_loop n = (if n = 0 then [] else base36_digit (n mod 36) # base36_loop (n div 36))"

declare base36_loop.simps [simp del]

definition to_base36 :: "nat \<Rightarrow> string" where
  "to_base36 n = (if n = 0 then ''0'' else rev (base36_loop n))"

definition register_opaque :: "web_env \<Rightarrow> string \<Rightarrow> string \<Rightarrow> ClientStore \<Rightarrow> RegistrationRequest \<Rightarrow> ClientStore \<times> (RegError + ClientDocument)" where
  "register_opaque web rand_tail uuid st req =
     (if rg_redirect_uris req = [] then (st, Inl (RegInvalidRequest ''redirect_uris is required for authorization-code flow''))
      else let client_id = ''client_'' @ to_base36 (max (unat (we_now_secs web)) 1) @ ''_'' @ rand_tail;
               auth_method = unwrap_or (rg_token_endpoint_auth_method req) ''none'';
               d = \<lparr>cd_client_id = client_id, cd_client_secret = (if auth_method = ''none'' then None else Some (''secret-'' @ uuid)),
                 cd_client_id_issued_at = we_now_secs web, cd_redirect_uris = rg_redirect_uris req,
                 cd_client_name = rg_client_name req,
                 cd_grant_types = (if rg_grant_types req = [] then [''authorization_code'', ''refresh_token''] else rg_grant_types req),
                 cd_response_types = (if rg_response_types req = [] then [''code''] else rg_response_types req),
                 cd_token_endpoint_auth_method = auth_method,
                 cd_application_type = or_else (rg_application_type req) (Some ''web''),
                 cd_scope = or_else (rg_scope req) (Some ''openid webid''), cd_client_id_document_url = None\<rparr>
           in (client_insert st d, Inr d))"

text \<open>\<open>rand_tail\<close> is the random suffix and \<open>uuid\<close> the random part of a secret.\<close>

definition idp_register_client :: "web_env \<Rightarrow> string \<Rightarrow> string \<Rightarrow> ClientStore \<Rightarrow> RegistrationRequest \<Rightarrow> ClientStore \<times> (RegError + ClientDocument)" where
  "idp_register_client web rand_tail uuid st req = (case rg_client_id req of
     Some i \<Rightarrow> if url_shaped i then
         and_then (client_find web st i) (\<lambda>st' found. (st', ok_or found
           (RegInvalidDocument ''Client Identifier Document fetch returned no document'')))
       else register_opaque web rand_tail uuid st req
   | None \<Rightarrow> register_opaque web rand_tail uuid st req)"

section \<open>Clients come from registration or from a safe document\<close>

text \<open>
  The invariant of the client store: records are filed under their identifiers, and a cached document
  was fetched from a URL that passed the SSRF check, unless that is switched off, and names redirect URIs.
\<close>

definition clients_ok :: "(string \<Rightarrow> parsed_url option) \<Rightarrow> ClientStore \<Rightarrow> bool" where
  "clients_ok url_parse st \<longleftrightarrow> (\<forall>i d. map_of (cs_registered st) i = Some d \<longrightarrow> cd_client_id d = i)
     \<and> (\<forall>i d ts. map_of (cs_cache st) i = Some (d, ts) \<longrightarrow> cd_client_id d = i \<and> cd_redirect_uris d \<noteq> [] \<and> url_shaped i
          \<and> (cs_allow_unsafe_urls st \<or> is_safe_url url_parse i = Inr ()))"

lemma fetch_ok:
  assumes "fetch_client_document web st url = Inr d"
  shows "cd_client_id d = url \<and> cd_redirect_uris d \<noteq> [] \<and> cd_client_secret d = None
    \<and> (cs_allow_unsafe_urls st \<or> is_safe_url (we_url_parse web) url = Inr ())"
proof -
  have safe: "cs_allow_unsafe_urls st \<or> is_safe_url (we_url_parse web) url = Inr ()"
    using assms by (auto simp: fetch_client_document_def split: if_splits sum.splits)
  moreover have "cd_client_id d = url \<and> cd_redirect_uris d \<noteq> [] \<and> cd_client_secret d = None"
    using assms by (auto simp: fetch_client_document_def rbind_Inr_conv split: if_splits sum.splits prod.splits)
  ultimately show ?thesis by blast
qed

lemma find_uncached_ok:
  assumes "clients_ok (we_url_parse web) st" and "find_uncached web st i = (st', r)"
  shows "clients_ok (we_url_parse web) st' \<and> cs_registered st' = cs_registered st \<and> cs_allow_unsafe_urls st' = cs_allow_unsafe_urls st
    \<and> (\<forall>d. r = Inr (Some d) \<longrightarrow> cd_client_id d = i \<and> cd_redirect_uris d \<noteq> [] \<and> url_shaped i
         \<and> (cs_allow_unsafe_urls st \<or> is_safe_url (we_url_parse web) i = Inr ()))"
proof (cases "url_shaped i")
  case False
  then have "st' = st" "r = Inr None" using assms(2) by (auto simp: find_uncached_def)
  then show ?thesis using assms(1) by simp
next
  case True
  show ?thesis
  proof (cases "fetch_client_document web st i")
    case (Inl e) then show ?thesis using assms True by (auto simp: find_uncached_def)
  next
    case (Inr d)
    have eq: "st' = st\<lparr>cs_cache := AList.update i (d, we_now web) (cs_cache st)\<rparr>" "r = Inr (Some d)"
      using assms(2) True Inr by (auto simp: find_uncached_def)
    show ?thesis using assms(1) fetch_ok [OF Inr] True by (auto simp: eq clients_ok_def update_conv')
  qed
qed

lemma client_find_ok:
  assumes "clients_ok (we_url_parse web) st" and "client_find web st i = (st', r)"
  shows "clients_ok (we_url_parse web) st' \<and> cs_registered st' = cs_registered st \<and> cs_allow_unsafe_urls st' = cs_allow_unsafe_urls st
    \<and> (\<forall>d. r = Inr (Some d) \<longrightarrow> cd_client_id d = i \<and> (map_of (cs_registered st) i = Some d
         \<or> cd_redirect_uris d \<noteq> [] \<and> url_shaped i \<and> (cs_allow_unsafe_urls st \<or> is_safe_url (we_url_parse web) i = Inr ())))"
proof (cases "map_of (cs_registered st) i")
  case (Some d)
  then show ?thesis using assms by (auto simp: client_find_def clients_ok_def)
next
  case None
  show ?thesis
  proof (cases "\<exists>d ts. map_of (cs_cache st) i = Some (d, ts) \<and> we_now web - ts < CLIENT_CACHE_TTL")
    case True
    then obtain d ts where hit: "map_of (cs_cache st) i = Some (d, ts)" "we_now web - ts < CLIENT_CACHE_TTL" by blast
    then have "st' = st" "r = Inr (Some d)" using assms(2) None by (auto simp: client_find_def)
    moreover have "cd_client_id d = i \<and> cd_redirect_uris d \<noteq> [] \<and> url_shaped i
        \<and> (cs_allow_unsafe_urls st \<or> is_safe_url (we_url_parse web) i = Inr ())"
      using assms(1) hit(1) unfolding clients_ok_def by blast
    ultimately show ?thesis using assms(1) by simp
  next
    case False
    then have "find_uncached web st i = (st', r)"
      using assms(2) None by (auto simp: client_find_def split: option.splits prod.splits if_splits)
    from find_uncached_ok [OF assms(1) this] show ?thesis by blast
  qed
qed

lemma client_insert_ok: "clients_ok u st \<Longrightarrow> clients_ok u (client_insert st d)"
  by (auto simp: clients_ok_def client_insert_def update_conv')

section \<open>Published keys\<close>

text \<open>A generated key comes back from its PEM text, but for the creation date.\<close>

lemma signing_key_pem_roundtrip:
  assumes "SigningKey_generate_es256 P sk uuid now = Inr k" and "\<forall>s t. pk_to_pem P s = Inr t \<longrightarrow> pk_from_pem P t = Inr s"
  shows "SigningKey_from_pem P now' (sg_kid k) (sg_private_pem k) = Inr (k\<lparr>sg_created_at := now'\<rparr>) \<and> pj_kid (sg_public_jwk k) = sg_kid k"
  using assms by (auto simp: SigningKey_generate_es256_def SigningKey_from_pem_def rbind_Inr_conv es256_jwk_def Let_def split: sum.splits)

datatype jwks_op = JwksRotate "string + SigningKey" nat | JwksInsert SigningKey nat | JwksPrune nat

fun jwks_step :: "Jwks \<Rightarrow> jwks_op \<Rightarrow> Jwks" where
  "jwks_step j (JwksRotate g now) = fst (jwks_rotate g now j)"
| "jwks_step j (JwksInsert k now) = insert_signing_key now j k"
| "jwks_step j (JwksPrune now) = prune_expired now j"

fun jwks_op_time :: "jwks_op \<Rightarrow> nat" where
  "jwks_op_time (JwksRotate g now) = now"
| "jwks_op_time (JwksInsert k now) = now"
| "jwks_op_time (JwksPrune now) = now"

definition published_since :: "nat \<Rightarrow> SigningKey \<Rightarrow> Jwks \<Rightarrow> bool" where
  "published_since t k j \<longleftrightarrow> jw_active j = k \<or> (\<exists>ts. t \<le> ts \<and> (k, ts) \<in> set (jw_retired j))"

lemma jwks_step_published:
  assumes "published_since t k j" and "t \<le> jwks_op_time o'" and "jwks_op_time o' < t + jw_retention j"
  shows "published_since t k (jwks_step j o') \<and> jw_retention (jwks_step j o') = jw_retention j"
proof (cases o')
  case (JwksRotate g now)
  then show ?thesis using assms by (cases g) (auto simp: published_since_def jwks_rotate_def)
next
  case (JwksInsert k' now)
  then show ?thesis using assms by (auto simp: published_since_def insert_signing_key_def)
next
  case (JwksPrune now)
  have "now - ts < jw_retention j" if "t \<le> ts" for ts 
    using assms(2,3) JwksPrune that by simp
  then show ?thesis using JwksPrune assms(1) by (auto simp: published_since_def prune_expired_def)
qed

text \<open>
  Key rotation: the key that is active at an instant, and may sign a token then, stays in the published
  key set through any sequence of rotations, insertions and prunings within the retention period.
\<close>

theorem signing_key_stays_published:
  assumes "list_all (\<lambda>o'. t \<le> jwks_op_time o' \<and> jwks_op_time o' < t + jw_retention j) ops"
  shows "sg_public_jwk (jw_active j) \<in> set (public_document (foldl jwks_step j ops))"
proof -
  have "published_since t k (foldl jwks_step j ops)" if "published_since t k j" for k
    using that assms
  proof (induction ops arbitrary: j)
    case (Cons o' ops)
    then show ?case using jwks_step_published [of t k j o'] by simp
  qed simp
  then have "published_since t (jw_active j) (foldl jwks_step j ops)" by (simp add: published_since_def)
  then show ?thesis by (force simp: published_since_def public_document_def)
qed

end
