(* ===== verification/Idp_Provider.thy ===== *)
theory Idp_Provider
  imports Idp_Stores Oidc Rate_Limit
begin

text \<open>
  The identity provider: its errors (\<open>error.rs\<close>), access tokens (\<open>tokens.rs\<close>), the discovery document
  (\<open>discovery.rs\<close>), the authorisation-code flow with PKCE and DPoP (\<open>provider.rs\<close>), and the password login
  (\<open>credentials.rs\<close>), over the stores of \<open>Idp_Stores\<close>, the DPoP and token verifiers of \<open>Oidc\<close> and the limiter
  of \<open>Rate_Limit\<close>. JWT encoding and SHA-256 are the fields of an environment.
\<close>

section \<open>Errors\<close>

text \<open>Where the code keeps the text of an inner error the constructor here keeps the inner error.\<close>

datatype ProviderError =
    PvInvalidRequest string
  | PvInvalidGrant string
  | PvInvalidClient string
  | PvInvalidDpop string
  | PvClientDocument RegError
  | PvPasswordTooShort nat
  | PvRateLimited nat
  | PvUserStore UserStoreError
  | PvCrypto string
  | PvSession string
  | PvCore PodError
  | PvIo string
  | PvInternal string

fun provider_error_code :: "ProviderError \<Rightarrow> string" where
  "provider_error_code (PvInvalidRequest _) = ''invalid_request''"
| "provider_error_code (PvPasswordTooShort _) = ''invalid_request''"
| "provider_error_code (PvInvalidGrant _) = ''invalid_grant''"
| "provider_error_code (PvInvalidClient _) = ''invalid_client''"
| "provider_error_code (PvInvalidDpop _) = ''invalid_dpop_proof''"
| "provider_error_code (PvClientDocument _) = ''invalid_client''"
| "provider_error_code (PvRateLimited _) = ''rate_limited''"
| "provider_error_code (PvUserStore _) = ''server_error''"
| "provider_error_code (PvSession _) = ''server_error''"
| "provider_error_code (PvInternal _) = ''server_error''"
| "provider_error_code (PvIo _) = ''server_error''"
| "provider_error_code (PvCrypto _) = ''server_error''"
| "provider_error_code (PvCore _) = ''server_error''"

section \<open>Tokens\<close>

record AccessTokenPayload =
  at_iss :: string
  at_sub :: string
  at_aud :: string
  at_webid :: string
  at_iat :: u64
  at_exp :: u64
  at_jti :: string
  at_client_id :: string
  at_scope :: string
  at_cnf :: "CnfClaim option"

record AccessToken =
  tk_jwt :: string
  tk_payload :: AccessTokenPayload

record idp_env =
  ie_jwt_encode :: "jwt_header \<Rightarrow> AccessTokenPayload \<Rightarrow> bytes \<Rightarrow> string + string"
  ie_sha256 :: "bytes \<Rightarrow> bytes"
  ie_base64_url :: "bytes \<Rightarrow> string"
  ie_set_key :: "PublicJwk \<Rightarrow> set_key option"

text \<open>The addition is the release build's, which wraps; \<open>uuid\<close> is the random token identifier.\<close>

definition issue_access_token :: "idp_env \<Rightarrow> string \<Rightarrow> SigningKey \<Rightarrow> string \<Rightarrow> string \<Rightarrow> string \<Rightarrow> string \<Rightarrow> string \<Rightarrow> string option
    \<Rightarrow> u64 \<Rightarrow> u64 \<Rightarrow> string + AccessToken" where
  "issue_access_token env uuid key issuer webid account_id client_id scope dpop_jkt now ttl_secs =
     (let payload = \<lparr>at_iss = issuer, at_sub = account_id, at_aud = ''solid'', at_webid = webid, at_iat = now,
            at_exp = now + ttl_secs, at_jti = uuid, at_client_id = client_id, at_scope = scope,
            at_cnf = map_option (\<lambda>j. \<lparr>cnf_jkt = j\<rparr>) dpop_jkt\<rparr>;
          header = \<lparr>jh_typ = Some ''JWT'', jh_alg = ES256, jh_kid = Some (sg_kid key), jh_jwk = None\<rparr>
      in rbind (ie_jwt_encode env header payload (sg_private_der key)) (\<lambda>jwt. Inr \<lparr>tk_jwt = jwt, tk_payload = payload\<rparr>))"

definition ath_hash :: "idp_env \<Rightarrow> string \<Rightarrow> string" where
  "ath_hash env token = ie_base64_url env (ie_sha256 env token)"

section \<open>Discovery\<close>

record IdpDiscoveryDocument =
  id_issuer :: string
  id_authorization_endpoint :: string
  id_token_endpoint :: string
  id_userinfo_endpoint :: string
  id_jwks_uri :: string
  id_registration_endpoint :: string
  id_introspection_endpoint :: string
  id_revocation_endpoint :: string
  id_end_session_endpoint :: string
  id_scopes_supported :: "string list"
  id_response_types_supported :: "string list"
  id_response_modes_supported :: "string list"
  id_grant_types_supported :: "string list"
  id_subject_types_supported :: "string list"
  id_id_token_signing_alg_values_supported :: "string list"
  id_token_endpoint_auth_methods_supported :: "string list"
  id_claims_supported :: "string list"
  id_code_challenge_methods_supported :: "string list"
  id_dpop_signing_alg_values_supported :: "string list"
  id_authorization_response_iss_parameter_supported :: bool
  id_solid_oidc_supported :: string

definition build_discovery :: "string \<Rightarrow> IdpDiscoveryDocument" where
  "build_discovery issuer =
     (let base = trim_end_matches (CHR ''/'') issuer in
      \<lparr>id_issuer = (if ends_with ''/'' issuer then issuer else issuer @ ''/''),
       id_authorization_endpoint = base @ ''/idp/auth'', id_token_endpoint = base @ ''/idp/token'',
       id_userinfo_endpoint = base @ ''/idp/me'', id_jwks_uri = base @ ''/.well-known/jwks.json'',
       id_registration_endpoint = base @ ''/idp/reg'', id_introspection_endpoint = base @ ''/idp/token/introspection'',
       id_revocation_endpoint = base @ ''/idp/token/revocation'', id_end_session_endpoint = base @ ''/idp/session/end'',
       id_scopes_supported = [''openid'', ''webid'', ''profile'', ''email'', ''offline_access''],
       id_response_types_supported = [''code''], id_response_modes_supported = [''query'', ''fragment'', ''form_post''],
       id_grant_types_supported = [''authorization_code'', ''refresh_token'', ''client_credentials''],
       id_subject_types_supported = [''public''], id_id_token_signing_alg_values_supported = [''ES256''],
       id_token_endpoint_auth_methods_supported = [''none'', ''client_secret_basic'', ''client_secret_post''],
       id_claims_supported = [''sub'', ''webid'', ''name'', ''email'', ''email_verified''],
       id_code_challenge_methods_supported = [''S256''], id_dpop_signing_alg_values_supported = [''ES256''],
       id_authorization_response_iss_parameter_supported = True,
       id_solid_oidc_supported = ''https://solidproject.org/TR/solid-oidc''\<rparr>)"

section \<open>The provider\<close>

record ProviderConfig =
  pc_issuer :: string
  pc_access_token_ttl_secs :: u64
  pc_dpop_skew_secs :: u64

definition ProviderConfig_new :: "string \<Rightarrow> ProviderConfig" where
  "ProviderConfig_new issuer = \<lparr>pc_issuer = issuer, pc_access_token_ttl_secs = 3600, pc_dpop_skew_secs = 60\<rparr>"

record 'u Provider =
  pv_config :: ProviderConfig
  pv_client_store :: ClientStore
  pv_session_store :: SessionStore
  pv_user_store :: 'u
  pv_jwks :: Jwks

record AuthorizeRequest =
  ar_client_id :: string
  ar_response_type :: string
  ar_redirect_uri :: string
  ar_state :: "string option"
  ar_code_challenge :: "string option"
  ar_code_challenge_method :: "string option"
  ar_scope :: "string option"
  ar_session_account_id :: "string option"

datatype AuthorizeResponse =
    Redirect (rd_redirect_uri: string) (rd_code: string) (rd_state: "string option") (rd_iss: string)
  | NeedsLogin string string "string option" "string option" "string option"

record TokenRequest =
  tr_grant_type :: string
  tr_code :: string
  tr_redirect_uri :: string
  tr_client_id :: string
  tr_code_verifier :: "string option"
  tr_dpop_proof :: "string option"
  tr_now_unix :: u64

record TokenResponse =
  ts_access_token :: string
  ts_token_type :: string
  ts_expires_in :: u64
  ts_scope :: string
  ts_webid :: "string option"

record UserInfo =
  ui_sub :: string
  ui_webid :: string
  ui_client_id :: "string option"
  ui_scope :: "string option"

text \<open>\<open>rnd\<close> is the random code and \<open>web\<close> the network and the clock at the time of the request.\<close>

definition authorize :: "web_env \<Rightarrow> string \<Rightarrow> 'u Provider \<Rightarrow> AuthorizeRequest \<Rightarrow> 'u Provider \<times> (ProviderError + AuthorizeResponse)" where
  "authorize web rnd p req =
     (case client_find web (pv_client_store p) (ar_client_id req) of (cs, found) \<Rightarrow>
      let p1 = p\<lparr>pv_client_store := cs\<rparr> in
      try_with p1 (case found of Inl e \<Rightarrow> Inl (PvClientDocument e) | Inr x \<Rightarrow> Inr x) (\<lambda>copt.
      try_with p1 (ok_or copt (PvInvalidClient (''unknown: '' @ ar_client_id req))) (\<lambda>client.
      if ar_response_type req \<noteq> ''code'' then (p1, Inl (PvInvalidRequest
        (''response_type must be '' @ [CHR 0x27] @ ''code'' @ [CHR 0x27] @ '', got '' @ [CHR 0x27] @ ar_response_type req @ [CHR 0x27])))
      else if ar_redirect_uri req \<notin> set (cd_redirect_uris client) then
        (p1, Inl (PvInvalidRequest (''redirect_uri not registered: '' @ ar_redirect_uri req)))
      else if ar_code_challenge_method req \<noteq> Some ''S256'' then
        (p1, Inl (PvInvalidRequest ''PKCE S256 is required (code_challenge_method)''))
      else if ar_code_challenge req = None then (p1, Inl (PvInvalidRequest ''code_challenge is required''))
      else case ar_session_account_id req of
        None \<Rightarrow> (p1, Inr (NeedsLogin (ar_client_id req) (ar_redirect_uri req) (ar_state req) (ar_code_challenge req) (ar_scope req)))
      | Some account_id \<Rightarrow>
          (case issue_code rnd (we_now web) (pv_session_store p1) (cd_client_id client) account_id (ar_redirect_uri req)
                  (ar_code_challenge req) (ar_scope req) of
             (ss, rec) \<Rightarrow> (p1\<lparr>pv_session_store := ss\<rparr>,
               Inr (Redirect (ar_redirect_uri req) (ac_code rec) (ar_state req) (pc_issuer (pv_config p1))))))))"

definition pkce_s256 :: "idp_env \<Rightarrow> string \<Rightarrow> string" where
  "pkce_s256 env verifier = ie_base64_url env (ie_sha256 env verifier)"

definition token_htu :: "ProviderConfig \<Rightarrow> string" where
  "token_htu c = trim_end_matches (CHR ''/'') (pc_issuer c) @ ''/idp/token''"

definition check_pkce :: "idp_env \<Rightarrow> AuthCodeRecord \<Rightarrow> TokenRequest \<Rightarrow> ProviderError + unit" where
  "check_pkce env code req = (case ac_code_challenge code of
     None \<Rightarrow> Inr ()
   | Some challenge \<Rightarrow>
       rbind (ok_or (tr_code_verifier req) (PvInvalidRequest ''code_verifier required for PKCE'')) (\<lambda>verifier.
         if pkce_s256 env verifier \<noteq> challenge then Inl (PvInvalidGrant ''PKCE verifier mismatch'') else Inr ()))"

text \<open>The redemption after the code was taken: no more state changes. \<open>uuid\<close> is the token identifier.\<close>

definition redeem :: "idp_env \<Rightarrow> 'u user_store_ops \<Rightarrow> string \<Rightarrow> 'u Provider \<Rightarrow> TokenRequest \<Rightarrow> string \<Rightarrow> AuthCodeRecord \<Rightarrow> ProviderError + TokenResponse" where
  "redeem env uops uuid p req jkt code =
     (if ac_client_id code \<noteq> tr_client_id req then Inl (PvInvalidGrant ''code issued to different client_id'')
      else if ac_redirect_uri code \<noteq> tr_redirect_uri req then Inl (PvInvalidGrant ''redirect_uri mismatch'')
      else rbind (check_pkce env code req) (\<lambda>_.
      rbind (case uo_find_by_id uops (pv_user_store p) (ac_account_id code) of Inl e \<Rightarrow> Inl (PvUserStore e) | Inr x \<Rightarrow> Inr x) (\<lambda>uopt.
      rbind (ok_or uopt (PvInvalidGrant ''account not found'')) (\<lambda>user.
      rbind (case issue_access_token env uuid (jw_active (pv_jwks p)) (pc_issuer (pv_config p)) (us_webid user) (us_id user)
               (ac_client_id code) (unwrap_or (ac_requested_scope code) ''openid webid'') (Some jkt) (tr_now_unix req)
               (pc_access_token_ttl_secs (pv_config p)) of Inl e \<Rightarrow> Inl (PvCrypto e) | Inr x \<Rightarrow> Inr x) (\<lambda>tok.
        Inr \<lparr>ts_access_token = tk_jwt tok, ts_token_type = ''DPoP'', ts_expires_in = pc_access_token_ttl_secs (pv_config p),
          ts_scope = at_scope (tk_payload tok), ts_webid = Some (us_webid user)\<rparr>)))))"

definition verify_proof :: "'k oidc_env \<Rightarrow> ProviderConfig \<Rightarrow> TokenRequest \<Rightarrow> ProviderError + DpopVerified" where
  "verify_proof oenv c req =
     rbind (ok_or (tr_dpop_proof req) (PvInvalidDpop ''missing DPoP header'')) (\<lambda>dpop_proof.
       case snd (verify_dpop_proof recency_ops oenv dpop_proof (token_htu c) ''POST'' (tr_now_unix req) (pc_dpop_skew_secs c) 0
                   (None :: nat recency DpopReplayCache option, counter_new)) of
         Inl e \<Rightarrow> Inl (PvInvalidDpop (pod_error_to_string e)) | Inr v \<Rightarrow> Inr v)"

definition token :: "idp_env \<Rightarrow> 'k oidc_env \<Rightarrow> 'u user_store_ops \<Rightarrow> nat \<Rightarrow> string \<Rightarrow> 'u Provider \<Rightarrow> TokenRequest
    \<Rightarrow> 'u Provider \<times> (ProviderError + TokenResponse)" where
  "token env oenv uops now uuid p req =
     (if tr_grant_type req \<noteq> ''authorization_code'' then (p, Inl (PvInvalidRequest
        (''grant_type must be '' @ [CHR 0x27] @ ''authorization_code'' @ [CHR 0x27] @ '', got '' @ [CHR 0x27] @ tr_grant_type req @ [CHR 0x27])))
      else try_with p (verify_proof oenv (pv_config p) req) (\<lambda>verified.
      case take_code now (pv_session_store p) (tr_code req) of (ss, taken) \<Rightarrow>
      let p1 = p\<lparr>pv_session_store := ss\<rparr> in
      try_with p1 (ok_or taken (PvInvalidGrant ''code expired or unknown'')) (\<lambda>code.
        (p1, redeem env uops uuid p1 req (dv_jkt verified) code))))"

definition build_jwk_set :: "idp_env \<Rightarrow> Jwks \<Rightarrow> set_key list" where
  "build_jwk_set env j = List.map_filter (ie_set_key env) (public_document j)"

definition userinfo :: "idp_env \<Rightarrow> 'k oidc_env \<Rightarrow> 'u Provider \<Rightarrow> string \<Rightarrow> string \<Rightarrow> u64 \<Rightarrow> ProviderError + UserInfo" where
  "userinfo env oenv p access_token dpop_jkt now =
     (case verify_access_token oenv access_token (Asymmetric (build_jwk_set env (pv_jwks p))) (pc_issuer (pv_config p)) dpop_jkt now of
        Inl e \<Rightarrow> Inl (PvInvalidDpop (pod_error_to_string e))
      | Inr v \<Rightarrow> Inr \<lparr>ui_sub = av_webid v, ui_webid = av_webid v, ui_client_id = av_client_id v, ui_scope = av_scope v\<rparr>)"

section \<open>Password login\<close>

definition RATE_LIMIT_ROUTE :: string where "RATE_LIMIT_ROUTE = ''idp_credentials''"

datatype LoginError =
    LgRateLimited nat
  | LgInvalidGrant
  | LgPasswordTooShort nat
  | LgInvalidRequest string
  | LgUserStore UserStoreError
  | LgToken string

record CredentialsResponse =
  cr_access_token :: string
  cr_token_type :: string
  cr_expires_in :: u64
  cr_webid :: string
  cr_id :: string

definition validate_password_length :: "string \<Rightarrow> LoginError + unit" where
  "validate_password_length password =
     (if length password < MIN_PASSWORD_LENGTH then Inl (LgPasswordTooShort MIN_PASSWORD_LENGTH) else Inr ())"

definition authenticate :: "idp_env \<Rightarrow> 'u user_store_ops \<Rightarrow> string \<Rightarrow> 'u \<Rightarrow> Jwks \<Rightarrow> string \<Rightarrow> string option \<Rightarrow> string \<Rightarrow> string \<Rightarrow> u64 \<Rightarrow> u64
    \<Rightarrow> LoginError + CredentialsResponse" where
  "authenticate env uops uuid users jwks issuer dpop_jkt email password now ttl_secs =
     (if email = [] \<or> password = [] then Inl (LgInvalidRequest ''email and password are required'')
      else rbind (case uo_find_by_email uops users email of Inl e \<Rightarrow> Inl (LgUserStore e) | Inr x \<Rightarrow> Inr x) (\<lambda>uopt.
      rbind (ok_or uopt LgInvalidGrant) (\<lambda>user.
      rbind (case uo_verify_password uops users user password of Inl e \<Rightarrow> Inl (LgUserStore e) | Inr x \<Rightarrow> Inr x) (\<lambda>good.
      if \<not> good then Inl LgInvalidGrant
      else rbind (case issue_access_token env uuid (jw_active jwks) issuer (us_webid user) (us_id user) ''credentials_client''
                    ''openid webid'' dpop_jkt now ttl_secs of Inl e \<Rightarrow> Inl (LgToken e) | Inr x \<Rightarrow> Inr x) (\<lambda>tok.
        Inr \<lparr>cr_access_token = tk_jwt tok, cr_token_type = (if dpop_jkt \<noteq> None then ''DPoP'' else ''Bearer''),
          cr_expires_in = ttl_secs, cr_webid = us_webid user, cr_id = us_id user\<rparr>)))))"

definition login_key :: "IpAddr \<Rightarrow> RateLimitKey" where
  "login_key ip = \<lparr>rk_route = RATE_LIMIT_ROUTE, rk_subject = SubjectIp ip\<rparr>"

text \<open>The limiter is the LRU limiter, \<open>inst\<close> its monotonic clock.\<close>

definition login :: "idp_env \<Rightarrow> 'u user_store_ops \<Rightarrow> ('c, nat list) lru_ops \<Rightarrow> (IpAddr \<Rightarrow> string) \<Rightarrow> string \<Rightarrow> 'u \<Rightarrow> Jwks \<Rightarrow> string
    \<Rightarrow> string option \<Rightarrow> nat \<Rightarrow> u64 \<Rightarrow> u64 \<Rightarrow> 'c LruRateLimiter \<Rightarrow> IpAddr \<Rightarrow> string \<Rightarrow> string
    \<Rightarrow> 'c LruRateLimiter \<times> (LoginError + CredentialsResponse)" where
  "login env uops L show_ip uuid users jwks issuer dpop_jkt inst now ttl_secs rl ip email password =
     (case check_sync L show_ip rl (login_key ip) inst of
        (rl', Deny retry _ _) \<Rightarrow> (rl', Inl (LgRateLimited retry))
      | (rl', Allow) \<Rightarrow> (rl', authenticate env uops uuid users jwks issuer dpop_jkt email password now ttl_secs))"

section \<open>The authorisation-code flow\<close>

text \<open>
  A run of the provider: authorisation and token requests in any order, each logged with the state it
  found and its answer, and between them any change of the provider that leaves the codes alone, such
  as logins, registrations, account changes and key rotations.
\<close>

datatype 'u idp_event =
    AuthEv web_env "'u Provider" AuthorizeRequest "ProviderError + AuthorizeResponse"
  | TokenEv nat "'u Provider" TokenRequest "ProviderError + TokenResponse"

definition same_codes :: "'u Provider \<Rightarrow> 'u Provider \<Rightarrow> bool" where
  "same_codes p q \<longleftrightarrow> ss_codes (pv_session_store q) = ss_codes (pv_session_store p)
     \<and> ss_code_ttl (pv_session_store q) = ss_code_ttl (pv_session_store p)"

inductive idp_run :: "idp_env \<Rightarrow> 'k oidc_env \<Rightarrow> 'u user_store_ops \<Rightarrow> 'u Provider \<Rightarrow> 'u idp_event list \<Rightarrow> 'u Provider \<Rightarrow> bool"
  for env oenv uops p0 where
  idp_start: "idp_run env oenv uops p0 [] p0"
| idp_auth: "idp_run env oenv uops p0 tr p \<Longrightarrow> authorize web rnd p req = (p', r)
    \<Longrightarrow> idp_run env oenv uops p0 (tr @ [AuthEv web p req r]) p'"
| idp_token: "idp_run env oenv uops p0 tr p \<Longrightarrow> token env oenv uops now uuid p req = (p', r)
    \<Longrightarrow> idp_run env oenv uops p0 (tr @ [TokenEv now p req r]) p'"
| idp_other: "idp_run env oenv uops p0 tr p \<Longrightarrow> same_codes p p' \<Longrightarrow> idp_run env oenv uops p0 tr p'"

fun redeems :: "string \<Rightarrow> 'u idp_event \<Rightarrow> bool" where
  "redeems c (TokenEv now p req r) \<longleftrightarrow> tr_code req = c \<and> is_ok r"
| "redeems c (AuthEv web p req r) \<longleftrightarrow> False"

text \<open>The request that a code in the store goes back to.\<close>

definition grants :: "'u idp_event \<Rightarrow> string \<Rightarrow> AuthCodeRecord \<Rightarrow> bool" where
  "grants ev c rec \<longleftrightarrow> (\<exists>web p req client ch. ev = AuthEv web p req (Inr (Redirect (ac_redirect_uri rec) c (ar_state req) (pc_issuer (pv_config p))))
     \<and> snd (client_find web (pv_client_store p) (ar_client_id req)) = Inr (Some client) \<and> cd_client_id client = ac_client_id rec
     \<and> ac_redirect_uri rec \<in> set (cd_redirect_uris client) \<and> ar_session_account_id req = Some (ac_account_id rec)
     \<and> ar_code_challenge_method req = Some ''S256'' \<and> ar_code_challenge req = Some ch \<and> ac_code_challenge rec = Some ch
     \<and> ac_requested_scope rec = ar_scope req \<and> ac_issued_at rec = we_now web)"

lemma authorize_step:
  assumes "authorize web rnd p req = (p', r)"
  shows "ss_code_ttl (pv_session_store p') = ss_code_ttl (pv_session_store p) \<and>
    (ss_codes (pv_session_store p') = ss_codes (pv_session_store p) \<or>
     (\<exists>rec. ss_codes (pv_session_store p') = AList.update rnd rec (ss_codes (pv_session_store p)) \<and> grants (AuthEv web p req r) rnd rec))"
proof -
  obtain cs found where f: "client_find web (pv_client_store p) (ar_client_id req) = (cs, found)" by fastforce
  show ?thesis
  proof (cases "\<exists>client ch acct. found = Inr (Some client) \<and> ar_response_type req = ''code'' \<and> ar_redirect_uri req \<in> set (cd_redirect_uris client)
      \<and> ar_code_challenge_method req = Some ''S256'' \<and> ar_code_challenge req = Some ch \<and> ar_session_account_id req = Some acct")
    case True
    then obtain client ch acct where g: "found = Inr (Some client)" "ar_response_type req = ''code''"
      "ar_redirect_uri req \<in> set (cd_redirect_uris client)" "ar_code_challenge_method req = Some ''S256''"
      "ar_code_challenge req = Some ch" "ar_session_account_id req = Some acct" by blast
    let ?rec = "\<lparr>ac_code = rnd, ac_client_id = cd_client_id client, ac_account_id = acct, ac_redirect_uri = ar_redirect_uri req,
      ac_code_challenge = Some ch, ac_issued_at = we_now web, ac_requested_scope = ar_scope req\<rparr>"
    have "p' = p\<lparr>pv_client_store := cs, pv_session_store := (pv_session_store p)\<lparr>ss_codes := AList.update rnd ?rec (ss_codes (pv_session_store p))\<rparr>\<rparr>"
      "r = Inr (Redirect (ar_redirect_uri req) rnd (ar_state req) (pc_issuer (pv_config p)))"
      using assms by (auto simp: authorize_def f g issue_code_def Let_def ok_or_def)
    then show ?thesis using g f by (auto simp: grants_def intro!: exI [of _ ?rec])
  next
    case False
    then have "pv_session_store p' = pv_session_store p"
      using assms by (auto simp: authorize_def f Let_def ok_or_def split: sum.splits option.splits if_splits)
    then show ?thesis by simp
  qed
qed

lemma token_step:
  assumes "token env oenv uops now uuid p req = (p', r)"
  shows "ss_code_ttl (pv_session_store p') = ss_code_ttl (pv_session_store p) \<and>
    (\<forall>c rec. map_of (ss_codes (pv_session_store p')) c = Some rec \<longrightarrow>
      map_of (ss_codes (pv_session_store p)) c = Some rec \<and> (is_ok r \<longrightarrow> c \<noteq> tr_code req))"
  using assms
  by (auto simp: token_def take_code_def Let_def try_with_def ok_or_def delete_conv' is_ok_def
      split: if_splits sum.splits option.splits prod.splits)

lemma redeem_session [simp]: "redeem env uops uuid (p\<lparr>pv_session_store := ss\<rparr>) = redeem env uops uuid p"
  by (simp add: redeem_def fun_eq_iff)

lemma token_success:
  assumes "token env oenv uops now uuid p req = (p', Inr resp)"
  obtains rec v where "map_of (ss_codes (pv_session_store p)) (tr_code req) = Some rec"
    "now - ac_issued_at rec \<le> ss_code_ttl (pv_session_store p)" "verify_proof oenv (pv_config p) req = Inr v"
    "redeem env uops uuid p req (dv_jkt v) rec = Inr resp" "tr_grant_type req = ''authorization_code''"
  using assms that
  by (auto simp: token_def take_code_def Let_def try_with_def ok_or_def not_less
      split: if_splits sum.splits option.splits prod.splits)

lemma map_err_Inr: "(case r of Inl e \<Rightarrow> Inl (f e) | Inr x \<Rightarrow> Inr x) = Inr y \<longleftrightarrow> r = Inr y"
  by (cases r) auto

lemma redeem_issues:
  assumes "redeem env uops uuid p req jkt rec = Inr resp"
  shows "ac_client_id rec = tr_client_id req \<and> ac_redirect_uri rec = tr_redirect_uri req \<and> check_pkce env rec req = Inr () \<and>
    (\<exists>user tok. uo_find_by_id uops (pv_user_store p) (ac_account_id rec) = Inr (Some user) \<and>
       issue_access_token env uuid (jw_active (pv_jwks p)) (pc_issuer (pv_config p)) (us_webid user) (us_id user) (tr_client_id req)
         (unwrap_or (ac_requested_scope rec) ''openid webid'') (Some jkt) (tr_now_unix req) (pc_access_token_ttl_secs (pv_config p)) = Inr tok \<and>
       ts_access_token resp = tk_jwt tok \<and> ts_webid resp = Some (us_webid user) \<and> ts_scope resp = at_scope (tk_payload tok))"
  using assms by (auto simp: redeem_def rbind_Inr_conv map_err_Inr ok_or_def split: if_splits option.splits)

lemma check_pkce_ok:
  "check_pkce env rec req = Inr () \<Longrightarrow> ac_code_challenge rec = Some ch \<Longrightarrow> \<exists>ver. tr_code_verifier req = Some ver \<and> pkce_s256 env ver = ch"
  by (auto simp: check_pkce_def rbind_Inr_conv ok_or_def split: if_splits option.splits)

text \<open>Every code in the store goes back to a granted request that no redemption has followed.\<close>

definition codes_granted :: "'u idp_event list \<Rightarrow> 'u Provider \<Rightarrow> bool" where
  "codes_granted tr p \<longleftrightarrow> (\<forall>c rec. map_of (ss_codes (pv_session_store p)) c = Some rec \<longrightarrow>
     (\<exists>a ev b. tr = a @ ev # b \<and> grants ev c rec \<and> \<not> list_ex (redeems c) b))"

lemma codes_granted_keep:
  assumes "codes_granted tr p"
    and "\<And>c rec. map_of (ss_codes (pv_session_store p')) c = Some rec \<Longrightarrow> map_of (ss_codes (pv_session_store p)) c = Some rec \<and> \<not> redeems c ev"
  shows "codes_granted (tr @ [ev]) p'"
proof (unfold codes_granted_def, intro allI impI)
  fix c rec assume "map_of (ss_codes (pv_session_store p')) c = Some rec"
  then have kept: "map_of (ss_codes (pv_session_store p)) c = Some rec" "\<not> redeems c ev" using assms(2) by auto
  with assms(1) obtain a ev' b where
    "tr = a @ ev' # b" "grants ev' c rec" "\<not> list_ex (redeems c) b" "\<not> redeems c ev" unfolding codes_granted_def by blast
  then show "\<exists>a ev' b. tr @ [ev] = a @ ev' # b \<and> grants ev' c rec \<and> \<not> list_ex (redeems c) b"
    by (intro exI [of _ a] exI [of _ ev'] exI [of _ "b @ [ev]"]) auto
qed

lemma codes_granted_update:
  assumes "codes_granted tr p" and "grants ev c rec" and "\<And>c'. \<not> redeems c' ev"
    and "ss_codes (pv_session_store p') = AList.update c rec (ss_codes (pv_session_store p))"
  shows "codes_granted (tr @ [ev]) p'"
proof (unfold codes_granted_def, intro allI impI)
  fix c' rec' assume m: "map_of (ss_codes (pv_session_store p')) c' = Some rec'"
  show "\<exists>a ev' b. tr @ [ev] = a @ ev' # b \<and> grants ev' c' rec' \<and> \<not> list_ex (redeems c') b"
  proof (cases "c' = c")
    case True
    then have "rec' = rec" using m assms(4) by (simp add: update_conv')
    then show ?thesis using True assms(2) by (intro exI [of _ tr] exI [of _ ev] exI [of _ "[]"]) simp
  next
    case False
    then have "map_of (ss_codes (pv_session_store p)) c' = Some rec'" using m assms(4) by (simp add: update_conv')
    then obtain a ev' b where "tr = a @ ev' # b" "grants ev' c' rec'" "\<not> list_ex (redeems c') b"
      using assms(1) unfolding codes_granted_def by blast
    then show ?thesis using assms(3) by (intro exI [of _ a] exI [of _ ev'] exI [of _ "b @ [ev]"]) auto
  qed
qed

lemma idp_run_codes:
  assumes "idp_run env oenv uops p0 tr p" and "ss_codes (pv_session_store p0) = []"
  shows "codes_granted tr p \<and> ss_code_ttl (pv_session_store p) = ss_code_ttl (pv_session_store p0)"
  using assms
proof (induction rule: idp_run.induct)
  case idp_start
  then show ?case by (simp add: codes_granted_def)
next
  case (idp_auth tr p web rnd req p' r)
  then have g: "codes_granted tr p" by simp
  from authorize_step [OF idp_auth.hyps(2)] consider
      "ss_codes (pv_session_store p') = ss_codes (pv_session_store p)"
    | rec where "ss_codes (pv_session_store p') = AList.update rnd rec (ss_codes (pv_session_store p))" "grants (AuthEv web p req r) rnd rec"
    by blast
  then have "codes_granted (tr @ [AuthEv web p req r]) p'"
    by cases (use g in \<open>auto intro: codes_granted_keep codes_granted_update\<close>)
  then show ?case using idp_auth authorize_step [OF idp_auth.hyps(2)] by simp
next
  case (idp_token tr p now uuid req p' r)
  then have "codes_granted (tr @ [TokenEv now p req r]) p'"
    using token_step [OF idp_token.hyps(2)] by (intro codes_granted_keep [of tr p]) auto
  then show ?case using idp_token token_step [OF idp_token.hyps(2)] by simp
next
  case (idp_other tr p p')
  then show ?case by (simp add: codes_granted_def same_codes_def)
qed

lemma idp_run_prefix:
  assumes "idp_run env oenv uops p0 (pre @ TokenEv now q req r # post) p"
  shows "idp_run env oenv uops p0 pre q \<and> (\<exists>uuid q'. token env oenv uops now uuid q req = (q', r))"
  using assms
proof (induction "pre @ TokenEv now q req r # post" p arbitrary: post rule: idp_run.induct)
  case (idp_auth tr p web rnd req' p' r')
  then show ?case by (cases post rule: rev_cases) auto
next
  case (idp_token tr p now' uuid req' p' r')
  then show ?case by (cases post rule: rev_cases) auto
qed auto

section \<open>Tokens that are issued verify\<close>

text \<open>What a verifier reads from a token that was issued with some payload.\<close>

definition claims_of :: "AccessTokenPayload \<Rightarrow> SolidOidcClaims" where
  "claims_of pl = \<lparr>sc_iss = at_iss pl, sc_sub = at_sub pl, sc_aud = JString (at_aud pl), sc_exp = at_exp pl, sc_iat = at_iat pl,
     sc_webid = Some (at_webid pl), sc_client_id = Some (at_client_id pl), sc_cnf = at_cnf pl, sc_scope = Some (at_scope pl)\<rparr>"

text \<open>
  What the code relies on of the JWT and key libraries, for one signing key: its published form is
  converted to a key with the same identifier, and a token encoded with the private half decodes, with
  the public half and for the issuer in it, to its header and claims.
\<close>

definition jwt_codec :: "idp_env \<Rightarrow> 'k oidc_env \<Rightarrow> SigningKey \<Rightarrow> bool" where
  "jwt_codec env oenv k \<longleftrightarrow> (\<exists>sk key. ie_set_key env (sg_public_jwk k) = Some sk \<and> oe_decoding_key oenv (sk_jwk sk) = Some key
     \<and> (\<forall>h pl t. ie_jwt_encode env h pl (sg_private_der k) = Inr t \<longrightarrow> oe_decode_header oenv t = Some h
          \<and> oe_decode_token oenv t key (jh_alg h) (at_iss pl) = Some (claims_of pl)))"

lemma find_unique:
  assumes "x \<in> set xs" "P x" "\<And>y. y \<in> set xs \<Longrightarrow> P y \<Longrightarrow> y = x"
  shows "find P xs = Some x"
proof (cases "find P xs")
  case None
  then show ?thesis using assms(1,2) by (simp add: find_None_iff)
next
  case (Some y)
  then have "y \<in> set xs \<and> P y" by (auto simp: find_Some_iff)
  then show ?thesis using assms(3) Some by simp
qed

lemma kid_selects:
  assumes "k \<in> set (public_document j)" "ie_set_key env k = Some sk" "distinct (map pj_kid (public_document j))"
    and "\<forall>q s. ie_set_key env q = Some s \<longrightarrow> sk_kid s = Some (pj_kid q)" "jh_kid h = Some (pj_kid k)"
  shows "select_jwk h (build_jwk_set env j) = Inr sk"
proof -
  have set_eq: "s \<in> set (build_jwk_set env j) \<longleftrightarrow> (\<exists>q \<in> set (public_document j). ie_set_key env q = Some s)" for s
    by (auto simp: build_jwk_set_def List.map_filter_def intro!: rev_image_eqI)
  have "sk_kid sk = Some (pj_kid k)" using assms(2,4) by blast
  moreover have "s = sk" if s: "s \<in> set (build_jwk_set env j)" "sk_kid s = Some (pj_kid k)" for s
  proof -
    obtain q where q: "q \<in> set (public_document j)" "ie_set_key env q = Some s" using s(1) set_eq by blast
    then have "pj_kid q = pj_kid k" using s(2) assms(4) by fastforce
    then have "q = k" using assms(1,3) q(1) by (auto simp: distinct_map inj_on_def)
    then show ?thesis using q(2) assms(2) by simp
  qed
  ultimately have "find (\<lambda>s. sk_kid s = Some (pj_kid k)) (build_jwk_set env j) = Some sk"
    using assms(1,2) set_eq by (intro find_unique) auto
  then show ?thesis by (simp add: select_jwk_def assms(5) ok_or_def)
qed

lemma token_success_issues:
  assumes "token env oenv uops now uuid p req = (p', Inr resp)"
  obtains v and user :: User and tok where "verify_proof oenv (pv_config p) req = Inr v"
    "issue_access_token env uuid (jw_active (pv_jwks p)) (pc_issuer (pv_config p)) (us_webid user) (us_id user) (tr_client_id req)
       (ts_scope resp) (Some (dv_jkt v)) (tr_now_unix req) (pc_access_token_ttl_secs (pv_config p)) = Inr tok"
    "ts_access_token resp = tk_jwt tok" "ts_webid resp = Some (us_webid user)"
proof -
  obtain rec v where c: "verify_proof oenv (pv_config p) req = Inr v"
    "redeem env uops uuid p req (dv_jkt v) rec = Inr resp" by (rule token_success [OF assms])
  then obtain user :: User and tok where "issue_access_token env uuid (jw_active (pv_jwks p)) (pc_issuer (pv_config p)) (us_webid user) (us_id user)
      (tr_client_id req) (unwrap_or (ac_requested_scope rec) ''openid webid'') (Some (dv_jkt v)) (tr_now_unix req) (pc_access_token_ttl_secs (pv_config p)) = Inr tok"
    "ts_access_token resp = tk_jwt tok" "ts_webid resp = Some (us_webid user)" "ts_scope resp = at_scope (tk_payload tok)"
    using redeem_issues [OF c(2)] by blast
  moreover from this(1) have "at_scope (tk_payload tok) = unwrap_or (ac_requested_scope rec) ''openid webid''"
    by (auto simp: issue_access_token_def Let_def rbind_Inr_conv)
  ultimately show ?thesis using that c(1) by simp
qed

lemma issued_verifies:
  assumes "issue_access_token env uuid k iss webid acct cid scope (Some jkt) t ttl = Inr tok"
    and "jwt_codec env oenv k" "pj_kid (sg_public_jwk k) = sg_kid k" "sg_public_jwk k \<in> set (public_document j)"
    and "distinct (map pj_kid (public_document j))" "\<forall>q s. ie_set_key env q = Some s \<longrightarrow> sk_kid s = Some (pj_kid q)"
    and "http_url webid"
  shows "verify_access_token oenv (tk_jwt tok) (Asymmetric (build_jwk_set env j)) iss jkt' now =
    (if t + ttl < now then Inl (Nip98 ''access token expired'')
     else if jkt \<noteq> jkt' then Inl (Nip98 ''cnf.jkt does not match DPoP thumbprint'')
     else Inr \<lparr>av_webid = webid, av_client_id = Some cid, av_iss = iss, av_jkt = jkt, av_scope = Some scope, av_exp = t + ttl\<rparr>)"
proof -
  let ?h = "\<lparr>jh_typ = Some ''JWT'', jh_alg = ES256, jh_kid = Some (sg_kid k), jh_jwk = None\<rparr>"
  let ?pl = "\<lparr>at_iss = iss, at_sub = acct, at_aud = ''solid'', at_webid = webid, at_iat = t, at_exp = t + ttl, at_jti = uuid,
    at_client_id = cid, at_scope = scope, at_cnf = Some \<lparr>cnf_jkt = jkt\<rparr>\<rparr>"
  have enc: "ie_jwt_encode env ?h ?pl (sg_private_der k) = Inr (tk_jwt tok)"
    using assms(1) by (auto simp: issue_access_token_def Let_def rbind_Inr_conv)
  from assms(2) obtain sk key where sk: "ie_set_key env (sg_public_jwk k) = Some sk" "oe_decoding_key oenv (sk_jwk sk) = Some key"
    and dec: "\<forall>h pl t. ie_jwt_encode env h pl (sg_private_der k) = Inr t \<longrightarrow> oe_decode_header oenv t = Some h
          \<and> oe_decode_token oenv t key (jh_alg h) (at_iss pl) = Some (claims_of pl)" unfolding jwt_codec_def by blast
  have hdr: "oe_decode_header oenv (tk_jwt tok) = Some ?h" and claims: "oe_decode_token oenv (tk_jwt tok) key ES256 iss = Some (claims_of ?pl)"
    using dec [rule_format, OF enc] by simp_all
  have "select_jwk ?h (build_jwk_set env j) = Inr sk"
    by (rule kid_selects [OF assms(4) sk(1) assms(5,6)]) (simp add: assms(3))
  then have "token_key oenv ?h (Asymmetric (build_jwk_set env j)) = Inr key" by (simp add: token_key_def sk(2) ok_or_def)
  then show ?thesis using assms(7) by (simp add: verify_access_token_def hdr ok_or_def claims) (simp add: claims_of_def ok_or_def extract_webid_def)
qed

lemma userinfo_of_issued:
  assumes "token env oenv uops now uuid p req = (p', Inr resp)"
    and "jwt_codec env oenv (jw_active (pv_jwks p))" "pj_kid (sg_public_jwk (jw_active (pv_jwks p))) = sg_kid (jw_active (pv_jwks p))"
    and "\<forall>q s. ie_set_key env q = Some s \<longrightarrow> sk_kid s = Some (pj_kid q)"
    and "sg_public_jwk (jw_active (pv_jwks p)) \<in> set (public_document (pv_jwks q))" "distinct (map pj_kid (public_document (pv_jwks q)))"
    and "pv_config q = pv_config p" "ts_webid resp = Some webid" "http_url webid"
  obtains v where "verify_proof oenv (pv_config p) req = Inr v"
    "\<And>jkt t. userinfo env oenv q (ts_access_token resp) jkt t =
       (if tr_now_unix req + pc_access_token_ttl_secs (pv_config p) < t then Inl (PvInvalidDpop (pod_error_to_string (Nip98 ''access token expired'')))
        else if dv_jkt v \<noteq> jkt then Inl (PvInvalidDpop (pod_error_to_string (Nip98 ''cnf.jkt does not match DPoP thumbprint'')))
        else Inr \<lparr>ui_sub = webid, ui_webid = webid, ui_client_id = Some (tr_client_id req), ui_scope = Some (ts_scope resp)\<rparr>)"
proof -
  obtain v and user :: User and tok where i: "verify_proof oenv (pv_config p) req = Inr v"
    "issue_access_token env uuid (jw_active (pv_jwks p)) (pc_issuer (pv_config p)) (us_webid user) (us_id user) (tr_client_id req)
       (ts_scope resp) (Some (dv_jkt v)) (tr_now_unix req) (pc_access_token_ttl_secs (pv_config p)) = Inr tok"
    "ts_access_token resp = tk_jwt tok" "ts_webid resp = Some (us_webid user)"
    by (rule token_success_issues [OF assms(1)])
  have "http_url (us_webid user)" using i(4) assms(8,9) by simp
  note ver = issued_verifies [OF i(2) assms(2,3,5,6,4) this]
  show ?thesis using that [OF i(1)] i(3,4) assms(7,8) by (simp add: userinfo_def ver)
qed

section \<open>An instance\<close>

text \<open>One client, one account, one code, and an environment that signs one token.\<close>

definition sample_jwt_header :: jwt_header where
  "sample_jwt_header = \<lparr>jh_typ = Some ''JWT'', jh_alg = ES256, jh_kid = Some ''k1'', jh_jwk = None\<rparr>"

definition sample_payload :: AccessTokenPayload where
  "sample_payload = \<lparr>at_iss = ''https://op/'', at_sub = ''u1'', at_aud = ''solid'', at_webid = ''https://me/'', at_iat = 110, at_exp = 3710,
     at_jti = ''id1'', at_client_id = ''c1'', at_scope = ''openid webid'', at_cnf = Some \<lparr>cnf_jkt = ''JKT''\<rparr>\<rparr>"

definition sample_idp_env :: idp_env where
  "sample_idp_env = \<lparr>ie_jwt_encode = (\<lambda>h pl k. if h = sample_jwt_header \<and> pl = sample_payload then Inr ''tok'' else Inl ''x''),
     ie_sha256 = id, ie_base64_url = id, ie_set_key = (\<lambda>k. Some \<lparr>sk_kid = Some (pj_kid k), sk_alg = None, sk_jwk = JNull\<rparr>)\<rparr>"

definition sample_idp_oidc :: "string oidc_env" where
  "sample_idp_oidc = sample_oidc\<lparr>
     oe_decode_header := (\<lambda>s. if s = ''proof'' then Some \<lparr>jh_typ = Some ''dpop+jwt'', jh_alg = ES256, jh_kid = None, jh_jwk = Some JNull\<rparr>
        else if s = ''tok'' then Some sample_jwt_header else None),
     oe_decode_dpop := (\<lambda>p k a. if p = ''proof'' then
        Some \<lparr>dc_htu = ''https://op/idp/token'', dc_htm = ''POST'', dc_iat = 100, dc_jti = ''j1'', dc_ath = None\<rparr> else None),
     oe_decode_token := (\<lambda>t k a iss. if t = ''tok'' then Some (claims_of sample_payload) else None)\<rparr>"

definition sample_signing_key :: SigningKey where
  "sample_signing_key = \<lparr>sg_kid = ''k1'', sg_alg = ''ES256'', sg_private_pem = ''pem'', sg_private_der = ''der'',
     sg_public_jwk = \<lparr>pj_kty = ''EC'', pj_crv = ''P-256'', pj_x = ''x'', pj_y = ''y'', pj_kid = ''k1'', pj_alg = ''ES256'', pj_use = ''sig''\<rparr>,
     sg_created_at = 0\<rparr>"

definition sample_argon2 :: argon2 where
  "sample_argon2 = \<lparr>ar_hash = (\<lambda>salt p. Inr p), ar_verify = (\<lambda>h p. Inr (h = p))\<rparr>"

definition sample_user :: User where
  "sample_user = \<lparr>us_id = ''u1'', us_email = ''a@x'', us_webid = ''https://me/'', us_name = None, us_password_hash = ''password''\<rparr>"

definition sample_client :: ClientDocument where
  "sample_client = \<lparr>cd_client_id = ''c1'', cd_client_secret = None, cd_client_id_issued_at = 0, cd_redirect_uris = [''cb''], cd_client_name = None,
     cd_grant_types = [], cd_response_types = [], cd_token_endpoint_auth_method = ''none'', cd_application_type = None, cd_scope = None,
     cd_client_id_document_url = None\<rparr>"

definition sample_provider :: "InMemoryUserStore Provider" where
  "sample_provider = \<lparr>pv_config = \<lparr>pc_issuer = ''https://op/'', pc_access_token_ttl_secs = 3600, pc_dpop_skew_secs = 60\<rparr>,
     pv_client_store = \<lparr>cs_registered = [(''c1'', sample_client)], cs_cache = [], cs_http = True, cs_allow_unsafe_urls = False\<rparr>,
     pv_session_store = \<lparr>ss_sessions = [], ss_codes = [], ss_session_ttl = 50, ss_code_ttl = 10\<rparr>,
     pv_user_store = [(''a@x'', sample_user)], pv_jwks = \<lparr>jw_active = sample_signing_key, jw_retired = [], jw_retention = 7\<rparr>\<rparr>"

definition sample_web :: web_env where
  "sample_web = \<lparr>we_url_parse = (\<lambda>_. None), we_scheme = (\<lambda>_. []), we_get = (\<lambda>_. Inl []), we_now = 5, we_now_secs = 0\<rparr>"

definition sample_areq :: AuthorizeRequest where
  "sample_areq = \<lparr>ar_client_id = ''c1'', ar_response_type = ''code'', ar_redirect_uri = ''cb'', ar_state = None, ar_code_challenge = Some ''v'',
     ar_code_challenge_method = Some ''S256'', ar_scope = None, ar_session_account_id = Some ''u1''\<rparr>"

definition sample_treq :: TokenRequest where
  "sample_treq = \<lparr>tr_grant_type = ''authorization_code'', tr_code = ''code1'', tr_redirect_uri = ''cb'', tr_client_id = ''c1'',
     tr_code_verifier = Some ''v'', tr_dpop_proof = Some ''proof'', tr_now_unix = 110\<rparr>"

definition sample_after_auth :: "InMemoryUserStore Provider" where
  "sample_after_auth = fst (authorize sample_web ''code1'' sample_provider sample_areq)"

definition sample_response :: TokenResponse where
  "sample_response = \<lparr>ts_access_token = ''tok'', ts_token_type = ''DPoP'', ts_expires_in = 3600, ts_scope = ''openid webid'', ts_webid = Some ''https://me/''\<rparr>"

lemma sample_auth_step: "snd (authorize sample_web ''code1'' sample_provider sample_areq) = Inr (Redirect ''cb'' ''code1'' None ''https://op/'')"
  by (simp add: authorize_def client_find_def sample_provider_def sample_areq_def sample_client_def issue_code_def Let_def ok_or_def)

lemma sample_session: "sample_after_auth = sample_provider\<lparr>pv_session_store := \<lparr>ss_sessions = [],
    ss_codes = [(''code1'', \<lparr>ac_code = ''code1'', ac_client_id = ''c1'', ac_account_id = ''u1'', ac_redirect_uri = ''cb'',
      ac_code_challenge = Some ''v'', ac_issued_at = 5, ac_requested_scope = None\<rparr>)], ss_session_ttl = 50, ss_code_ttl = 10\<rparr>\<rparr>"
  by (simp add: sample_after_auth_def authorize_def client_find_def sample_provider_def sample_areq_def sample_client_def sample_web_def issue_code_def Let_def ok_or_def)

lemma sample_no_codes: "ss_codes (pv_session_store sample_provider) = []"
  by (simp add: sample_provider_def)

lemma sample_proof: "\<exists>v. verify_proof sample_idp_oidc (pv_config sample_after_auth) sample_treq = Inr v \<and> dv_jkt v = ''JKT''"
proof -
  have "(case verify_proof sample_idp_oidc (pv_config sample_provider) sample_treq of Inr v \<Rightarrow> dv_jkt v = ''JKT'' | Inl _ \<Rightarrow> False)" by code_simp
  then show ?thesis by (auto simp: sample_session split: sum.splits)
qed

lemma sample_token_step: "snd (token sample_idp_env sample_idp_oidc (mem_user_ops sample_argon2) 6 ''id1'' sample_after_auth sample_treq) = Inr sample_response"
proof -
  obtain v where v: "verify_proof sample_idp_oidc (pv_config sample_after_auth) sample_treq = Inr v" "dv_jkt v = ''JKT''" using sample_proof by blast
  have "tr_grant_type sample_treq = ''authorization_code''" by (simp add: sample_treq_def)
  then show ?thesis unfolding token_def v(1) try_with_simps
    by (simp add: sample_session sample_treq_def take_code_def Let_def ok_or_def v(2) redeem_def check_pkce_def pkce_s256_def sample_idp_env_def
      mem_user_ops_def mem_find_by_id_def sample_provider_def sample_user_def issue_access_token_def sample_signing_key_def sample_jwt_header_def
      sample_payload_def sample_response_def)
qed

section \<open>Properties\<close>

text \<open>C9: The authorisation-code flow. In a run that starts with no codes, a token is handed out only for a
  code that an earlier authorisation request was redirected with and that no other redemption has used
  since; that request came from a session, named the redirect URI that the token request repeats and that
  the client had registered, and carried an S256 challenge that the verifier now hashes to; the code has
  not outlived its time; the account still exists; and the token is for that account, signed with the
  active key and bound to the key of the DPoP proof of this request.\<close>

theorem code_flow_sound:
  assumes "idp_run env oenv uops p0 (pre @ TokenEv now q req (Inr resp) # post) p" and "ss_codes (pv_session_store p0) = []"
  shows "\<exists>a b web pa areq client ver acct user v uuid tok.
    pre = a @ AuthEv web pa areq (Inr (Redirect (tr_redirect_uri req) (tr_code req) (ar_state areq) (pc_issuer (pv_config pa)))) # b
    \<and> \<not> list_ex (redeems (tr_code req)) b
    \<and> snd (client_find web (pv_client_store pa) (ar_client_id areq)) = Inr (Some client) \<and> cd_client_id client = tr_client_id req
    \<and> tr_redirect_uri req \<in> set (cd_redirect_uris client)
    \<and> tr_code_verifier req = Some ver \<and> ar_code_challenge areq = Some (pkce_s256 env ver)
    \<and> now - we_now web \<le> ss_code_ttl (pv_session_store p0)
    \<and> ar_session_account_id areq = Some acct \<and> uo_find_by_id uops (pv_user_store q) acct = Inr (Some user)
    \<and> verify_proof oenv (pv_config q) req = Inr v
    \<and> issue_access_token env uuid (jw_active (pv_jwks q)) (pc_issuer (pv_config q)) (us_webid user) (us_id user) (tr_client_id req)
        (unwrap_or (ar_scope areq) ''openid webid'') (Some (dv_jkt v)) (tr_now_unix req) (pc_access_token_ttl_secs (pv_config q)) = Inr tok
    \<and> ts_access_token resp = tk_jwt tok"
proof -
  obtain uuid q' where run: "idp_run env oenv uops p0 pre q" and tok: "token env oenv uops now uuid q req = (q', Inr resp)"
    using idp_run_prefix [OF assms(1)] by blast
  obtain rec v where c: "map_of (ss_codes (pv_session_store q)) (tr_code req) = Some rec"
    "now - ac_issued_at rec \<le> ss_code_ttl (pv_session_store q)" "verify_proof oenv (pv_config q) req = Inr v"
    "redeem env uops uuid q req (dv_jkt v) rec = Inr resp" by (rule token_success [OF tok])
  have inv: "codes_granted pre q" "ss_code_ttl (pv_session_store q) = ss_code_ttl (pv_session_store p0)"
    using idp_run_codes [OF run assms(2)] by auto
  then obtain a ev b where ev: "pre = a @ ev # b" "grants ev (tr_code req) rec" "\<not> list_ex (redeems (tr_code req)) b"
    using c(1) unfolding codes_granted_def by blast
  obtain web pa areq client ch where g: "ev = AuthEv web pa areq (Inr (Redirect (ac_redirect_uri rec) (tr_code req) (ar_state areq) (pc_issuer (pv_config pa))))"
    "snd (client_find web (pv_client_store pa) (ar_client_id areq)) = Inr (Some client)" "cd_client_id client = ac_client_id rec"
    "ac_redirect_uri rec \<in> set (cd_redirect_uris client)" "ar_session_account_id areq = Some (ac_account_id rec)"
    "ar_code_challenge areq = Some ch" "ac_code_challenge rec = Some ch" "ac_requested_scope rec = ar_scope areq" "ac_issued_at rec = we_now web"
    using ev(2) unfolding grants_def by blast
  obtain ver user tok' where r: "ac_client_id rec = tr_client_id req" "ac_redirect_uri rec = tr_redirect_uri req"
    "tr_code_verifier req = Some ver" "pkce_s256 env ver = ch" "uo_find_by_id uops (pv_user_store q) (ac_account_id rec) = Inr (Some user)"
    "issue_access_token env uuid (jw_active (pv_jwks q)) (pc_issuer (pv_config q)) (us_webid user) (us_id user) (tr_client_id req)
        (unwrap_or (ac_requested_scope rec) ''openid webid'') (Some (dv_jkt v)) (tr_now_unix req) (pc_access_token_ttl_secs (pv_config q)) = Inr tok'"
    "ts_access_token resp = tk_jwt tok'" using redeem_issues [OF c(4)] check_pkce_ok [OF _ g(7)] by blast
  show ?thesis
    by (rule exI [of _ a], rule exI [of _ b], rule exI [of _ web], rule exI [of _ pa], rule exI [of _ areq], rule exI [of _ client],
        rule exI [of _ ver], rule exI [of _ "ac_account_id rec"], rule exI [of _ user], rule exI [of _ v], rule exI [of _ uuid], rule exI [of _ tok'])
       (use g r c(2,3) ev(1,3) inv(2) in simp)
qed

theorem code_flow_sound_witness:
  "idp_run sample_idp_env sample_idp_oidc (mem_user_ops sample_argon2) sample_provider
     ([AuthEv sample_web sample_provider sample_areq (Inr (Redirect ''cb'' ''code1'' None ''https://op/''))] @
      TokenEv 6 sample_after_auth sample_treq (Inr sample_response) # [])
     (fst (token sample_idp_env sample_idp_oidc (mem_user_ops sample_argon2) 6 ''id1'' sample_after_auth sample_treq)) \<and>
   (\<exists>web pa (areq :: AuthorizeRequest) client ver. ar_code_challenge areq = Some (pkce_s256 sample_idp_env ver) \<and> tr_code_verifier sample_treq = Some ver \<and>
     snd (client_find web pa (ar_client_id areq)) = Inr (Some client) \<and> ''cb'' \<in> set (cd_redirect_uris client))"
proof (rule conjI)
  let ?run0 = "idp_run sample_idp_env sample_idp_oidc (mem_user_ops sample_argon2) sample_provider"
  have "?run0 ([] @ [AuthEv sample_web sample_provider sample_areq (Inr (Redirect ''cb'' ''code1'' None ''https://op/''))]) sample_after_auth"
    by (rule idp_auth [OF idp_start, of _ "''code1''"]) (simp add: prod_eq_iff sample_after_auth_def sample_auth_step)
  from idp_token [OF this, of 6 "''id1''" sample_treq _ "Inr sample_response"] show run: "?run0
     ([AuthEv sample_web sample_provider sample_areq (Inr (Redirect ''cb'' ''code1'' None ''https://op/''))] @
      TokenEv 6 sample_after_auth sample_treq (Inr sample_response) # [])
     (fst (token sample_idp_env sample_idp_oidc (mem_user_ops sample_argon2) 6 ''id1'' sample_after_auth sample_treq))"
    by (simp add: prod_eq_iff sample_token_step)
  have cb: "tr_redirect_uri sample_treq = ''cb''" by (simp add: sample_treq_def)
  show "\<exists>web pa (areq :: AuthorizeRequest) client ver. ar_code_challenge areq = Some (pkce_s256 sample_idp_env ver) \<and> tr_code_verifier sample_treq = Some ver \<and>
     snd (client_find web pa (ar_client_id areq)) = Inr (Some client) \<and> ''cb'' \<in> set (cd_redirect_uris client)"
    using code_flow_sound [OF run sample_no_codes] unfolding cb by (elim exE conjE) (intro exI conjI; assumption)
qed

text \<open>C10: Tokens work until they expire, across key rotation. After a successful token request, whatever
  rotations, insertions and prunings of keys follow within the retention period, the user-info endpoint
  answers for the issued token with the account's WebID, the client and the granted scope to a caller
  whose DPoP key is the one of the token request, and refuses any other key, and any time after the
  expiry. The JWT library is assumed to decode what it encoded, and key identifiers to differ.\<close>

theorem issued_token_accepted:
  assumes "token env oenv uops now uuid p req = (p', Inr resp)"
    and "jwt_codec env oenv (jw_active (pv_jwks p))" "pj_kid (sg_public_jwk (jw_active (pv_jwks p))) = sg_kid (jw_active (pv_jwks p))"
    and "\<forall>k s. ie_set_key env k = Some s \<longrightarrow> sk_kid s = Some (pj_kid k)"
    and "list_all (\<lambda>o'. t0 \<le> jwks_op_time o' \<and> jwks_op_time o' < t0 + jw_retention (pv_jwks p)) ops"
    and "pv_jwks q = foldl jwks_step (pv_jwks p) ops" "pv_config q = pv_config p"
    and "distinct (map pj_kid (public_document (pv_jwks q)))" "ts_webid resp = Some webid" "http_url webid"
  shows "\<exists>v. verify_proof oenv (pv_config p) req = Inr v \<and>
    userinfo env oenv q (ts_access_token resp) jkt t =
       (if tr_now_unix req + pc_access_token_ttl_secs (pv_config p) < t then Inl (PvInvalidDpop (pod_error_to_string (Nip98 ''access token expired'')))
        else if dv_jkt v \<noteq> jkt then Inl (PvInvalidDpop (pod_error_to_string (Nip98 ''cnf.jkt does not match DPoP thumbprint'')))
        else Inr \<lparr>ui_sub = webid, ui_webid = webid, ui_client_id = Some (tr_client_id req), ui_scope = Some (ts_scope resp)\<rparr>)"
proof -
  have "sg_public_jwk (jw_active (pv_jwks p)) \<in> set (public_document (pv_jwks q))"
    unfolding assms(6) by (rule signing_key_stays_published [OF assms(5)])
  then show ?thesis by (rule userinfo_of_issued [OF assms(1-4) _ assms(8,7,9,10)]) (intro exI conjI)
qed

theorem issued_token_accepted_witness:
  "userinfo sample_idp_env sample_idp_oidc (sample_after_auth\<lparr>pv_jwks := jwks_step (pv_jwks sample_after_auth) (JwksPrune 3)\<rparr>) ''tok'' ''JKT'' 200 =
     Inr \<lparr>ui_sub = ''https://me/'', ui_webid = ''https://me/'', ui_client_id = Some ''c1'', ui_scope = Some ''openid webid''\<rparr>"
proof -
  let ?p = sample_after_auth
  let ?q = "?p\<lparr>pv_jwks := jwks_step (pv_jwks ?p) (JwksPrune 3)\<rparr>"
  have key: "jw_active (pv_jwks ?p) = sample_signing_key" "jw_retention (pv_jwks ?p) = 7" "jw_retired (pv_jwks ?p) = []"
    by (simp_all add: sample_session sample_provider_def)
  obtain p' where tok: "token sample_idp_env sample_idp_oidc (mem_user_ops sample_argon2) 6 ''id1'' ?p sample_treq = (p', Inr sample_response)"
    using sample_token_step by (metis prod.collapse)
  have codec: "jwt_codec sample_idp_env sample_idp_oidc (jw_active (pv_jwks ?p))"
    by (auto simp: jwt_codec_def sample_idp_env_def sample_idp_oidc_def sample_oidc_def)
  have kid: "pj_kid (sg_public_jwk (jw_active (pv_jwks ?p))) = sg_kid (jw_active (pv_jwks ?p))" by (simp add: key sample_signing_key_def)
  have conv: "\<forall>k s. ie_set_key sample_idp_env k = Some s \<longrightarrow> sk_kid s = Some (pj_kid k)" by (auto simp: sample_idp_env_def)
  have ops: "list_all (\<lambda>o'. 0 \<le> jwks_op_time o' \<and> jwks_op_time o' < 0 + jw_retention (pv_jwks ?p)) [JwksPrune 3]" by (simp add: key)
  have dist: "distinct (map pj_kid (public_document (pv_jwks ?q)))" by (simp add: public_document_def prune_expired_def key)
  have q: "pv_jwks ?q = foldl jwks_step (pv_jwks ?p) [JwksPrune 3]" "pv_config ?q = pv_config ?p" by simp_all
  have webid: "ts_webid sample_response = Some ''https://me/''" by (simp add: sample_response_def)
  have url: "http_url ''https://me/''" by code_simp
  have vals: "tr_now_unix sample_treq = 110" "tr_client_id sample_treq = ''c1''" "pc_access_token_ttl_secs (pv_config ?p) = 3600"
    "ts_scope sample_response = ''openid webid''" "ts_access_token sample_response = ''tok''"
    by (simp_all add: sample_treq_def sample_session sample_provider_def sample_response_def)
  have late: "\<not> (110 + 3600 :: u64) < 200" by simp
  obtain v where "verify_proof sample_idp_oidc (pv_config ?p) sample_treq = Inr v" "dv_jkt v = ''JKT''" using sample_proof by blast
  then show ?thesis
    using issued_token_accepted [OF tok codec kid conv ops q dist webid url, of "''JKT''" 200] unfolding vals if_not_P [OF late] by auto
qed

section \<open>Deleted accounts and discovery\<close>

context user_directory
begin

lemma redeem_needs_account:
  assumes "invar (pv_user_store p)" "redeem env ops uuid p req jkt rec = Inr resp"
  shows "\<exists>user :: User. us_id user = ac_account_id rec \<and> ts_webid resp = Some (us_webid user)"
  using redeem_issues [OF assms(2)] by_id [OF assms(1)] by blast

lemma deleted_cannot_redeem:
  assumes "invar (pv_user_store p)" "snd (uo_delete ops (pv_user_store p) (ac_account_id rec)) = Inr b"
  shows "\<not> is_ok (redeem env ops uuid (p\<lparr>pv_user_store := fst (uo_delete ops (pv_user_store p) (ac_account_id rec))\<rparr>) req jkt rec)"
proof
  let ?p = "p\<lparr>pv_user_store := fst (uo_delete ops (pv_user_store p) (ac_account_id rec))\<rparr>"
  assume "is_ok (redeem env ops uuid ?p req jkt rec)"
  then obtain resp where "redeem env ops uuid ?p req jkt rec = Inr resp" by (cases "redeem env ops uuid ?p req jkt rec") auto
  from redeem_issues [OF this] show False using delete_gone [OF assms] by simp
qed

end

lemma deleted_account_code_void:
  "mem_users_ok (pv_user_store p) \<Longrightarrow>
    \<not> is_ok (redeem env (mem_user_ops A) uuid (p\<lparr>pv_user_store := fst (mem_delete_user (pv_user_store p) (ac_account_id rec))\<rparr>) req jkt rec)"
proof -
  assume ok: "mem_users_ok (pv_user_store p)"
  have "\<exists>b. snd (mem_delete_user (pv_user_store p) (ac_account_id rec)) = Inr b"
    by (auto simp: mem_delete_user_def split: option.split)
  then show ?thesis using mem_users.deleted_cannot_redeem [OF ok] by (auto simp: mem_user_ops_def)
qed

text \<open>The issuer that discovery announces always ends in a slash, while tokens carry the configured
  issuer as it is: the two agree exactly when the configured issuer ends in a slash.\<close>

theorem discovery_issuer_vs_token:
  assumes "issue_access_token env uuid k issuer webid acct cid scope jkt now ttl = Inr tok"
  shows "at_iss (tk_payload tok) = id_issuer (build_discovery issuer) \<longleftrightarrow> ends_with ''/'' issuer"
  using assms by (auto simp: issue_access_token_def build_discovery_def Let_def rbind_Inr_conv)

section \<open>Password guessing\<close>

text \<open>
  A run of the login endpoint. Which tokens and texts the attempts produce does not matter here; an
  attempt is let through when its answer is anything but the refusal of the limiter.
\<close>

record login_attempt =
  la_ip :: IpAddr
  la_inst :: nat
  la_now :: u64
  la_jti :: string
  la_dpop_jkt :: "string option"
  la_email :: string
  la_password :: string

definition login_step :: "idp_env \<Rightarrow> 'u user_store_ops \<Rightarrow> ('c, nat list) lru_ops \<Rightarrow> (IpAddr \<Rightarrow> string) \<Rightarrow> 'u \<Rightarrow> Jwks \<Rightarrow> string \<Rightarrow> u64
    \<Rightarrow> 'c LruRateLimiter \<Rightarrow> login_attempt \<Rightarrow> 'c LruRateLimiter \<times> (LoginError + CredentialsResponse)" where
  "login_step env uops L show_ip users jwks issuer ttl rl a =
     login env uops L show_ip (la_jti a) users jwks issuer (la_dpop_jkt a) (la_inst a) (la_now a) ttl rl (la_ip a) (la_email a) (la_password a)"

fun login_run :: "('s \<Rightarrow> login_attempt \<Rightarrow> 's \<times> (LoginError + CredentialsResponse)) \<Rightarrow> 's \<Rightarrow> login_attempt list
    \<Rightarrow> (LoginError + CredentialsResponse) list" where
  "login_run step s [] = []"
| "login_run step s (a # as) = (let (s', r) = step s a in r # login_run step s' as)"

definition let_through :: "LoginError + CredentialsResponse \<Rightarrow> bool" where
  "let_through r \<longleftrightarrow> (\<forall>n. r \<noteq> Inl (LgRateLimited n))"

definition guess_times :: "(IpAddr \<Rightarrow> string) \<Rightarrow> IpAddr \<Rightarrow> login_attempt list \<Rightarrow> (LoginError + CredentialsResponse) list \<Rightarrow> nat list" where
  "guess_times show_ip ip as rs = map (la_inst \<circ> fst) (filter (\<lambda>(a, r). show_ip (la_ip a) = show_ip ip \<and> let_through r) (zip as rs))"

lemma authenticate_let_through: "let_through (authenticate env uops uuid users jwks issuer jkt email password now ttl)"
  by (auto simp: let_through_def authenticate_def ok_or_def rbind_def split: if_splits sum.splits option.splits)

lemma authenticate_ok:
  assumes "authenticate env uops uuid users jwks issuer jkt email password now ttl = Inr r"
  shows "\<exists>user. uo_find_by_email uops users email = Inr (Some user) \<and> uo_verify_password uops users user password = Inr True
    \<and> cr_webid r = us_webid user \<and> cr_id r = us_id user"
  using assms by (auto simp: authenticate_def rbind_Inr_conv map_err_Inr ok_or_def split: if_splits option.splits)

lemma login_step_conv:
  "fst (login_step env uops L show_ip users jwks issuer ttl rl a) = fst (check_sync L show_ip rl (login_key (la_ip a)) (la_inst a))"
  "let_through (snd (login_step env uops L show_ip users jwks issuer ttl rl a)) \<longleftrightarrow>
     allowed (snd (check_sync L show_ip rl (login_key (la_ip a)) (la_inst a)))"
  by (auto simp: login_step_def login_def allowed_def authenticate_let_through let_through_def [of "Inl _"] split: prod.split RateLimitDecision.split)

lemma login_key_canonical [simp]:
  "key_canonical show_ip (login_key ip) = key_canonical show_ip (login_key ip') \<longleftrightarrow> show_ip ip = show_ip ip'"
  by (simp add: key_canonical_def login_key_def)

lemma guess_times_allowed:
  "guess_times show_ip ip as (login_run (login_step env uops L show_ip users jwks issuer ttl) rl as) =
   allowed_times (key_canonical show_ip (login_key ip)) show_ip (map (\<lambda>a. (login_key (la_ip a), la_inst a)) as)
     (limiter_run L show_ip rl (map (\<lambda>a. (login_key (la_ip a), la_inst a)) as))"
proof (induction as arbitrary: rl)
  case (Cons a as)
  show ?case
    using Cons [of "fst (check_sync L show_ip rl (login_key (la_ip a)) (la_inst a))"] login_step_conv [of env uops L show_ip users jwks issuer ttl rl a]
    by (simp add: guess_times_def case_prod_unfold Let_def)
qed (simp add: guess_times_def)

text \<open>C29: Guessing passwords is bounded. However login attempts arrive, from however many addresses the
  limiter's cache can hold, the attempts from one address that get past the limiter, and so have their
  password checked, number at most the limit of the login route in any window of the route's length; and
  every attempt that succeeds got past the limiter and passed the password check of the account with that
  address.\<close>

theorem login_guesses_bounded:
  assumes "rate_cache L invar" "with_capacity_and_policies L cap pols = Some rl"
    and "card ((\<lambda>a. key_canonical show_ip (login_key (la_ip a))) ` set as) \<le> max cap 1"
    and "sorted (map la_inst as)" "\<forall>a \<in> set as. rp_window (policy_for rl RATE_LIMIT_ROUTE) \<le> la_inst a"
    and "rs = login_run (login_step env uops L show_ip users jwks issuer ttl) rl as"
  shows "window_count (rp_window (policy_for rl RATE_LIMIT_ROUTE)) T (guess_times show_ip ip as rs) \<le> unat (rp_max (policy_for rl RATE_LIMIT_ROUTE))
    \<and> (\<forall>i r. i < length as \<longrightarrow> rs ! i = Inr r \<longrightarrow> (\<exists>user. uo_find_by_email uops users (la_email (as ! i)) = Inr (Some user)
          \<and> uo_verify_password uops users user (la_password (as ! i)) = Inr True \<and> cr_webid r = us_webid user))"
proof
  let ?evs = "map (\<lambda>a. (login_key (la_ip a), la_inst a)) as"
  have "key_canonical show_ip ` fst ` set ?evs = (\<lambda>a. key_canonical show_ip (login_key (la_ip a))) ` set as" by (auto simp: image_image)
  then show "window_count (rp_window (policy_for rl RATE_LIMIT_ROUTE)) T (guess_times show_ip ip as rs) \<le> unat (rp_max (policy_for rl RATE_LIMIT_ROUTE))"
    unfolding assms(6) guess_times_allowed using assms(3-5)
    by (intro new_limiter_bounded [OF assms(1,2)]) (auto simp: login_key_def comp_def)
next
  have "rs ! i = Inr r \<longrightarrow> (\<exists>user. uo_find_by_email uops users (la_email (as ! i)) = Inr (Some user)
      \<and> uo_verify_password uops users user (la_password (as ! i)) = Inr True \<and> cr_webid r = us_webid user)" if "i < length as" for i r
    using that unfolding assms(6)
  proof (induction as arbitrary: rl i)
    case (Cons a as)
    show ?case
    proof (cases i)
      case 0
      then show ?thesis
        by (auto simp: login_step_def login_def Let_def dest!: authenticate_ok split: prod.splits RateLimitDecision.splits)
    next
      case (Suc j)
      then show ?thesis using Cons by (simp add: Let_def case_prod_unfold)
    qed
  qed simp
  then show "\<forall>i r. i < length as \<longrightarrow> rs ! i = Inr r \<longrightarrow> (\<exists>user. uo_find_by_email uops users (la_email (as ! i)) = Inr (Some user)
      \<and> uo_verify_password uops users user (la_password (as ! i)) = Inr True \<and> cr_webid r = us_webid user)" by blast
qed

definition sample_attempt :: "nat \<Rightarrow> login_attempt" where
  "sample_attempt t = \<lparr>la_ip = V4 (Ipv4 1 2 3 4), la_inst = t, la_now = 110, la_jti = ''id1'', la_dpop_jkt = None, la_email = ''a@x'', la_password = ''guess''\<rparr>"

theorem login_guesses_bounded_witness:
  "\<exists>rl. with_capacity_and_policies recency_ops 1 [(RATE_LIMIT_ROUTE, 1, 10)] = Some rl \<and>
    window_count 10 15 (guess_times (\<lambda>_. []) (V4 (Ipv4 1 2 3 4)) [sample_attempt 10, sample_attempt 12]
      (login_run (login_step sample_idp_env (mem_user_ops sample_argon2) recency_ops (\<lambda>_. []) [(''a@x'', sample_user)]
         (from_active sample_signing_key) ''https://op/'' 3600) rl [sample_attempt 10, sample_attempt 12])) \<le> 1"
proof -
  let ?rl = "\<lparr>rl_buckets = \<lparr>rl_cap = 1, rl_entries = []\<rparr>, rl_policies = [\<lparr>rp_route = RATE_LIMIT_ROUTE, rp_max = 1, rp_window = 10\<rparr>]\<rparr>"
  have new: "with_capacity_and_policies recency_ops 1 [(RATE_LIMIT_ROUTE, 1, 10)] = Some ?rl" by (simp add: with_capacity_and_policies_def)
  have pol: "rp_window (policy_for ?rl RATE_LIMIT_ROUTE) = 10" "rp_max (policy_for ?rl RATE_LIMIT_ROUTE) = 1" by (simp_all add: policy_for_def)
  have "card ((\<lambda>a. key_canonical (\<lambda>_. []) (login_key (la_ip a))) ` set [sample_attempt 10, sample_attempt 12]) \<le> max 1 1"
    by (simp add: sample_attempt_def)
  moreover have "sorted (map la_inst [sample_attempt 10, sample_attempt 12])"
    "\<forall>a \<in> set [sample_attempt 10, sample_attempt 12]. rp_window (policy_for ?rl RATE_LIMIT_ROUTE) \<le> la_inst a"
    unfolding pol by (simp_all add: sample_attempt_def)
  ultimately have "window_count 10 15 (guess_times (\<lambda>_. []) (V4 (Ipv4 1 2 3 4)) [sample_attempt 10, sample_attempt 12]
      (login_run (login_step sample_idp_env (mem_user_ops sample_argon2) recency_ops (\<lambda>_. []) [(''a@x'', sample_user)]
         (from_active sample_signing_key) ''https://op/'' 3600) ?rl [sample_attempt 10, sample_attempt 12])) \<le> unat (1 :: u32)"
    using login_guesses_bounded [OF rate.rate_cache_axioms new _ _ _ refl, of "\<lambda>_. []" "[sample_attempt 10, sample_attempt 12]" 15
      "V4 (Ipv4 1 2 3 4)" sample_idp_env "mem_user_ops sample_argon2" "[(''a@x'', sample_user)]" "from_active sample_signing_key" "''https://op/''" 3600]
    unfolding pol by blast
  then show ?thesis using new by (intro exI [of _ ?rl]) (simp del: login_run.simps)
qed

end
