(* ===== verification/Webid.thy ===== *)
theory Webid
  imports Json_Patch
begin

text \<open>
  WebID profile documents (\<open>webid.rs\<close>): the HTML page with its JSON-LD data island, and the functions
  that read the issuer back from one. Writing and reading JSON text are parameters.
\<close>

section \<open>Writing\<close>

definition webid_context :: json where
  "webid_context = JObject
     [(''foaf'', JString ''http://xmlns.com/foaf/0.1/''), (''solid'', JString ''http://www.w3.org/ns/solid/terms#''),
      (''schema'', JString ''http://schema.org/''), (''cid'', JString ''https://www.w3.org/ns/cid/v1#''),
      (''lws'', JString ''https://www.w3.org/ns/lws#''),
      (''isPrimaryTopicOf'', JObject [(''@id'', JString ''foaf:isPrimaryTopicOf''), (''@type'', JString ''@id'')]),
      (''mainEntityOfPage'', JObject [(''@id'', JString ''schema:mainEntityOfPage''), (''@type'', JString ''@id'')]),
      (''service'', JObject [(''@id'', JString ''cid:service''), (''@container'', JString ''@set'')]),
      (''serviceEndpoint'', JObject [(''@id'', JString ''cid:serviceEndpoint''), (''@type'', JString ''@id'')])]"

text \<open>Assignment to a member, \<open>v[k] = x\<close>, on an object.\<close>

definition json_set :: "json \<Rightarrow> string \<Rightarrow> json \<Rightarrow> json" where
  "json_set v k x = (case v of JObject ms \<Rightarrow> JObject (AList.update k x ms) | JNull \<Rightarrow> JObject [(k, x)] | _ \<Rightarrow> v)"

definition pod_url_of :: "string \<Rightarrow> string \<Rightarrow> string" where
  "pod_url_of pod_base pubkey = pod_base @ ''/pods/'' @ pubkey @ ''/''"

definition webid_of :: "string \<Rightarrow> string \<Rightarrow> string" where
  "webid_of pod_base pubkey = pod_base @ ''/pods/'' @ pubkey @ ''/profile/card#me''"

definition webid_body :: "string \<Rightarrow> string \<Rightarrow> string \<Rightarrow> string option \<Rightarrow> json" where
  "webid_body pubkey display_name pod_base oidc_issuer =
     (let pod_url = pod_url_of pod_base pubkey; webid = webid_of pod_base pubkey;
          doc_url = hd (split_on (CHR ''#'') webid);
          body = JObject
            [(''@context'', webid_context), (''@id'', JString webid), (''@type'', JString ''foaf:Person''),
             (''foaf:name'', JString display_name), (''foaf:isPrimaryTopicOf'', JString []),
             (''schema:mainEntityOfPage'', JString []), (''solid:account'', JString pod_url),
             (''solid:privateTypeIndex'', JString (pod_url @ ''settings/privateTypeIndex'')),
             (''solid:publicTypeIndex'', JString (pod_url @ ''settings/publicTypeIndex'')),
             (''schema:identifier'', JString (''did:nostr:'' @ pubkey))]
      in case oidc_issuer of
           None \<Rightarrow> body
         | Some iss \<Rightarrow> json_set (json_set body ''solid:oidcIssuer'' (JObject [(''@id'', JString iss)]))
             ''service'' (JArray [JObject [(''@id'', JString (doc_url @ ''#oidc'')), (''@type'', JString ''lws:OpenIdProvider''),
                (''serviceEndpoint'', JString iss)]]))"

definition html_lines :: "string list \<Rightarrow> string" where
  "html_lines ls = join [CHR 0x0A] ls"

definition generate_webid_html_with_issuer :: "(json \<Rightarrow> string) \<Rightarrow> string \<Rightarrow> string option \<Rightarrow> string \<Rightarrow> string option \<Rightarrow> string" where
  "generate_webid_html_with_issuer to_pretty pubkey name pod_base oidc_issuer =
     (let display_name = unwrap_or name ''Solid Pod User'';
          pod_url = pod_url_of pod_base pubkey; webid = webid_of pod_base pubkey; q = [CHR 0x22]
      in html_lines
        [''<!DOCTYPE html>'', ''<html>'', ''<head>'', ''  <meta charset='' @ q @ ''utf-8'' @ q @ ''>'',
         ''  <title>'' @ display_name @ ''</title>'', ''  <script type='' @ q @ ''application/ld+json'' @ q @ ''>'',
         to_pretty (webid_body pubkey display_name pod_base oidc_issuer), ''  </script>'', ''</head>'', ''<body>'',
         ''  <h1>'' @ display_name @ ''</h1>'', ''  <p>WebID: <a href='' @ q @ webid @ q @ ''>'' @ webid @ ''</a></p>'',
         ''  <p>Pod: <a href='' @ q @ pod_url @ q @ ''>'' @ pod_url @ ''</a></p>'', ''</body>'', ''</html>''])"

definition generate_webid_html :: "(json \<Rightarrow> string) \<Rightarrow> string \<Rightarrow> string option \<Rightarrow> string \<Rightarrow> string" where
  "generate_webid_html to_pretty pubkey name pod_base = generate_webid_html_with_issuer to_pretty pubkey name pod_base None"

section \<open>Reading\<close>

definition parse_json_ld :: "(string \<Rightarrow> string + json) \<Rightarrow> bytes \<Rightarrow> string + json option" where
  "parse_json_ld from_str data =
     rbind (ok_or (from_utf8 data) ''WebID profile must be valid UTF-8'') (\<lambda>txt.
     case find_sub ''application/ld+json'' txt of
       None \<Rightarrow> Inr None
     | Some start \<Rightarrow>
         (case find_char ((=) (CHR ''>'')) (drop start txt) of
            None \<Rightarrow> Inr None
          | Some tag_end \<Rightarrow>
              (let rest = drop (start + tag_end + 1) txt in
               case find_sub ''</script>'' rest of
                 None \<Rightarrow> Inr None
               | Some script_end \<Rightarrow>
                   (case from_str (trim (take script_end rest)) of
                      Inl e \<Rightarrow> Inl (''WebID JSON-LD parse error: '' @ e) | Inr v \<Rightarrow> Inr (Some v)))))"

definition issuer_value :: "json option \<Rightarrow> string option" where
  "issuer_value v = (case v of
     Some (JString s) \<Rightarrow> Some s
   | Some (JObject ms) \<Rightarrow> as_str (map_of ms ''@id'')
   | _ \<Rightarrow> None)"

definition extract_oidc_issuer :: "(string \<Rightarrow> string + json) \<Rightarrow> bytes \<Rightarrow> string + string option" where
  "extract_oidc_issuer from_str data =
     rbind (parse_json_ld from_str data) (\<lambda>parsed. case parsed of
       None \<Rightarrow> Inr None
     | Some v \<Rightarrow> Inr (issuer_value (or_else (json_get v ''solid:oidcIssuer'')
         (json_get v ''http://www.w3.org/ns/solid/terms#oidcIssuer''))))"

definition is_provider_type :: "json option \<Rightarrow> bool" where
  "is_provider_type t = (let named = (\<lambda>s. s = ''lws:OpenIdProvider'' \<or> s = ''https://www.w3.org/ns/lws#OpenIdProvider'') in
     case t of
       Some (JString s) \<Rightarrow> named s
     | Some (JArray ts) \<Rightarrow> list_ex (\<lambda>x. case x of JString s \<Rightarrow> named s | _ \<Rightarrow> False) ts
     | _ \<Rightarrow> False)"

fun first_provider :: "json list \<Rightarrow> string option" where
  "first_provider [] = None"
| "first_provider (entry # arr) = (case entry of
     JObject obj \<Rightarrow>
       if \<not> is_provider_type (map_of obj ''@type'') then first_provider arr
       else (case issuer_value (or_else (map_of obj ''serviceEndpoint'') (or_else (map_of obj ''cid:serviceEndpoint'')
                     (map_of obj ''https://www.w3.org/ns/cid/v1#serviceEndpoint''))) of
               Some s \<Rightarrow> Some s | None \<Rightarrow> first_provider arr)
   | _ \<Rightarrow> first_provider arr)"

definition extract_cid_openid_provider :: "(string \<Rightarrow> string + json) \<Rightarrow> bytes \<Rightarrow> string + string option" where
  "extract_cid_openid_provider from_str data =
     rbind (parse_json_ld from_str data) (\<lambda>parsed. case parsed of
       None \<Rightarrow> Inr None
     | Some v \<Rightarrow> (case or_else (json_get v ''service'') (or_else (json_get v ''cid:service'') (json_get v ''https://www.w3.org/ns/cid/v1#service'')) of
         Some (JArray arr) \<Rightarrow> Inr (first_provider arr)
       | _ \<Rightarrow> Inr None))"

definition validate_webid_html :: "(string \<Rightarrow> string + json) \<Rightarrow> bytes \<Rightarrow> string + unit" where
  "validate_webid_html from_str data =
     rbind (ok_or (from_utf8 data) ''WebID profile must be valid UTF-8'') (\<lambda>txt.
     if \<not> contains_sub ''application/ld+json'' txt then
       Inl (''WebID profile must contain a <script type='' @ [CHR 0x22] @ ''application/ld+json'' @ [CHR 0x22] @ ''> block'')
     else rbind (parse_json_ld from_str data) (\<lambda>_. Inr ()))"

section \<open>The issuer survives the page\<close>

text \<open>Where the data island stands in a page.\<close>

definition page_head :: "string \<Rightarrow> string" where
  "page_head display_name = html_lines [''<!DOCTYPE html>'', ''<html>'', ''<head>'', ''  <meta charset='' @ [CHR 0x22] @ ''utf-8'' @ [CHR 0x22] @ ''>'',
     ''  <title>'' @ display_name]"

lemma page_shape: "\<exists>post. generate_webid_html_with_issuer to_pretty pubkey name pod_base iss =
    page_head (unwrap_or name ''Solid Pod User'') @ CHR ''<'' # ''/title>'' @ [CHR 0x0A] @ ''  <script type='' @ CHR 0x22 # ''application/ld+json'' @ CHR 0x22 # ''>'' @ [CHR 0x0A]
      @ to_pretty (webid_body pubkey (unwrap_or name ''Solid Pod User'') pod_base iss) @ [CHR 0x0A, CHR '' '', CHR '' ''] @ ''</script>'' @ post"
  by (simp add: generate_webid_html_with_issuer_def page_head_def html_lines_def Let_def)

text \<open>What the reader relies on of the JSON library: text written is read back, and an object is written
  between braces.\<close>

definition json_text_codec :: "(json \<Rightarrow> string) \<Rightarrow> (string \<Rightarrow> string + json) \<Rightarrow> json \<Rightarrow> bool" where
  "json_text_codec to_pretty from_str v \<longleftrightarrow> from_str (to_pretty v) = Inr v \<and> to_pretty v \<noteq> [] \<and> hd (to_pretty v) = CHR ''{'' \<and> last (to_pretty v) = CHR ''}''"

lemma page_head_find:
  assumes "\<not> contains_sub ''application/ld+json'' name"
  shows "find_sub ''application/ld+json'' (page_head name @ CHR ''<'' # ''/title>'' @ [CHR 0x0A] @ ''  <script type='' @ CHR 0x22 # ''application/ld+json'' @ post)
    = Some (length (page_head name) + 25)"
proof -
  let ?p = "''application/ld+json''"
  let ?l = "''<!DOCTYPE html>'' @ [CHR 0x0A] @ ''<html>'' @ [CHR 0x0A] @ ''<head>'' @ [CHR 0x0A] @ ''  <meta charset='' @ [CHR 0x22] @ ''utf-8'' @ [CHR 0x22] @ ''>''
    @ [CHR 0x0A] @ ''  <title''"
  let ?m = "''/title>'' @ [CHR 0x0A] @ ''  <script type=''"
  have ph: "page_head name = ?l @ CHR ''>'' # name" by (simp add: page_head_def html_lines_def)
  have l: "find_sub ?p ?l = None" and m: "find_sub ?p ?m = None" by code_simp+
  have n: "find_sub ?p name = None" using assms by (simp add: contains_sub_def)
  have "find_sub ?p (page_head name) = None" unfolding ph using l n by (subst find_sub_sep) simp_all
  moreover have "find_sub ?p (?p @ post) = Some 0" by (subst find_sub.simps) (simp add: starts_with_def)
  ultimately show ?thesis using m find_sub_sep [of ?p "CHR ''<''" "page_head name" "?m @ CHR 0x22 # ?p @ post"]
      find_sub_sep [of ?p "CHR 0x22" ?m "?p @ post"] by simp
qed

lemma island_end:
  assumes "\<not> contains_sub ''</script>'' t"
  shows "find_sub ''</script>'' (CHR 0x0A # t @ CHR 0x0A # CHR '' '' # CHR '' '' # ''</script>'' @ post) = Some (length t + 4)"
proof -
  let ?p = "''</script>''"
  have t: "find_sub ?p t = None" using assms by (simp add: contains_sub_def)
  have e: "find_sub ?p (?p @ post) = Some 0" by (subst find_sub.simps) (simp add: starts_with_def)
  have "find_sub ?p (CHR '' '' # CHR '' '' # ?p @ post) = Some 2"
    using e find_sub_sep [of ?p "CHR '' ''" "[]" "CHR '' '' # ?p @ post"] find_sub_sep [of ?p "CHR '' ''" "[]" "?p @ post"]
    by (simp add: find_sub_Nil)
  then show ?thesis
    using t find_sub_sep [of ?p "CHR 0x0A" "[]" "t @ CHR 0x0A # CHR '' '' # CHR '' '' # ?p @ post"]
      find_sub_sep [of ?p "CHR 0x0A" t "CHR '' '' # CHR '' '' # ?p @ post"] by (simp add: find_sub_Nil)
qed

lemma parse_generated:
  assumes "v = webid_body pubkey (unwrap_or name ''Solid Pod User'') pod_base iss" "json_text_codec to_pretty from_str v"
    and "\<not> contains_sub ''application/ld+json'' (unwrap_or name ''Solid Pod User'')" "\<not> contains_sub ''</script>'' (to_pretty v)"
    and "utf8_valid (generate_webid_html_with_issuer to_pretty pubkey name pod_base iss)"
  shows "parse_json_ld from_str (generate_webid_html_with_issuer to_pretty pubkey name pod_base iss) = Inr (Some v)"
proof -
  let ?page = "generate_webid_html_with_issuer to_pretty pubkey name pod_base iss" and ?h = "page_head (unwrap_or name ''Solid Pod User'')"
  let ?mid = "CHR ''<'' # ''/title>'' @ [CHR 0x0A] @ ''  <script type='' @ [CHR 0x22]" and ?t = "to_pretty v"
  obtain post where page: "?page = ?h @ ?mid @ ''application/ld+json'' @ CHR 0x22 # CHR ''>'' # CHR 0x0A # ?t @ CHR 0x0A # CHR '' '' # CHR '' '' # ''</script>'' @ post"
    using page_shape [of to_pretty pubkey name pod_base iss] unfolding assms(1) [symmetric] by auto
  let ?rest = "CHR 0x0A # ?t @ CHR 0x0A # CHR '' '' # CHR '' '' # ''</script>'' @ post"
  have start: "find_sub ''application/ld+json'' ?page = Some (length ?h + 25)"
    unfolding page using page_head_find [OF assms(3)] by simp
  have len: "length ?mid = 25" by simp
  have d: "drop (length ?h + 25) ?page = ''application/ld+json'' @ CHR 0x22 # CHR ''>'' # ?rest" unfolding page by simp
  have tag: "find_char ((=) (CHR ''>'')) (drop (length ?h + 25) ?page) = Some 20" unfolding d by simp
  have r: "drop (length ?h + 25 + 20 + 1) ?page = ?rest" unfolding page by simp
  have ends: "?t \<noteq> []" "plain (hd ?t)" "plain (last ?t)" using assms(2) by (auto simp: json_text_codec_def plain_def ascii_ws_def)
  have "take (length ?t + 4) ?rest = [CHR 0x0A] @ ?t @ [CHR 0x0A, CHR '' '', CHR '' '']" by (simp add: numeral_eq_Suc)
  moreover have "trim ([CHR 0x0A] @ ?t @ [CHR 0x0A, CHR '' '', CHR '' '']) = ?t"
    by (rule trim_pad [OF ends]) (simp_all add: ascii_ws_def)
  ultimately have read: "from_str (trim (take (length ?t + 4) ?rest)) = Inr v" using assms(2) by (simp add: json_text_codec_def)
  have u: "from_utf8 ?page = Some ?page" using assms(5) by (simp add: from_utf8_def)
  show ?thesis unfolding parse_json_ld_def u ok_or_simps rbind_simps start option.case tag Let_def r island_end [OF assms(4)] read sum.case ..
qed

lemma body_issuer:
  "issuer_value (or_else (json_get (webid_body pubkey n base iss) ''solid:oidcIssuer'')
     (json_get (webid_body pubkey n base iss) ''http://www.w3.org/ns/solid/terms#oidcIssuer'')) = iss"
  by (cases iss) (simp_all add: webid_body_def json_get_def json_set_def issuer_value_def as_str_def Let_def)

lemma provider_case: "(case x of Some (JArray arr) \<Rightarrow> Inr (first_provider arr) | _ \<Rightarrow> Inr None) =
    (Inr (case x of Some (JArray arr) \<Rightarrow> first_provider arr | _ \<Rightarrow> None) :: string + string option)"
  by (simp split: option.split json.split)

lemma body_provider:
  "(case or_else (json_get (webid_body pubkey n base iss) ''service'') (or_else (json_get (webid_body pubkey n base iss) ''cid:service'')
      (json_get (webid_body pubkey n base iss) ''https://www.w3.org/ns/cid/v1#service'')) of Some (JArray arr) \<Rightarrow> first_provider arr | _ \<Rightarrow> None) = iss"
  by (cases iss) (simp_all add: webid_body_def json_get_def json_set_def issuer_value_def as_str_def is_provider_type_def Let_def)

text \<open>The issuer that a profile page is generated with is what both readers, the one of the Solid-OIDC
  predicate and the one of the controlled-identifier service, extract from the page, for any key, name and
  pod, provided that the JSON text does not close the script element and the name does not imitate the
  media type; the page also validates.\<close>

theorem webid_issuer_roundtrip:
  assumes "v = webid_body pubkey (unwrap_or name ''Solid Pod User'') pod_base iss" "json_text_codec to_pretty from_str v"
    and "\<not> contains_sub ''application/ld+json'' (unwrap_or name ''Solid Pod User'')" "\<not> contains_sub ''</script>'' (to_pretty v)"
    and "page = generate_webid_html_with_issuer to_pretty pubkey name pod_base iss" "utf8_valid page"
  shows "extract_oidc_issuer from_str page = Inr iss \<and> extract_cid_openid_provider from_str page = Inr iss
    \<and> validate_webid_html from_str page = Inr ()"
proof (intro conjI)
  note parsed = parse_generated [OF assms(1-4) assms(6) [unfolded assms(5)], folded assms(5)]
  show "extract_oidc_issuer from_str page = Inr iss"
    unfolding extract_oidc_issuer_def parsed rbind_simps option.case assms(1) body_issuer ..
  show "extract_cid_openid_provider from_str page = Inr iss"
    unfolding extract_cid_openid_provider_def parsed rbind_simps option.case assms(1) provider_case body_provider ..
  have "contains_sub ''application/ld+json'' page"
    unfolding assms(5) using page_shape [of to_pretty pubkey name pod_base iss] page_head_find [OF assms(3)] by (auto simp: contains_sub_def)
  then show "validate_webid_html from_str page = Inr ()"
    using assms(6) by (simp add: validate_webid_html_def from_utf8_def parsed)
qed

theorem webid_issuer_roundtrip_witness:
  "extract_oidc_issuer (\<lambda>_. Inr (webid_body ''k'' ''A'' ''https://p'' (Some ''https://op'')))
     (generate_webid_html_with_issuer (\<lambda>_. ''{}'') ''k'' (Some ''A'') ''https://p'' (Some ''https://op'')) = Inr (Some ''https://op'')"
proof -
  let ?v = "webid_body ''k'' ''A'' ''https://p'' (Some ''https://op'')"
  let ?page = "generate_webid_html_with_issuer (\<lambda>_. ''{}'') ''k'' (Some ''A'') ''https://p'' (Some ''https://op'')"
  have "json_text_codec (\<lambda>_. ''{}'') (\<lambda>_. Inr ?v) ?v" by (simp add: json_text_codec_def)
  moreover have "\<not> contains_sub ''application/ld+json'' ''A''" "\<not> contains_sub ''</script>'' ''{}''" "utf8_valid ?page" by code_simp+
  ultimately show ?thesis
    using webid_issuer_roundtrip [of ?v "''k''" "Some ''A''" "''https://p''" "Some ''https://op''" "\<lambda>_. ''{}''" "\<lambda>_. Inr ?v" ?page] by simp
qed

end
