(* ===== verification/Provision.thy ===== *)
theory Provision
  imports Webid Ldp_Http Wac_Roundtrip Wac_Resolver Oidc
begin

text \<open>
  Pod provisioning (\<open>provision.rs\<close>): seeding of containers, profile, root ACL and type indexes through
  the storage trait, the quota tracker, and the admin override. Writing JSON text is a parameter.
\<close>

section \<open>The plan\<close>

record ProvisionPlan =
  pp_pubkey :: string
  pp_display_name :: "string option"
  pp_pod_base :: string
  pp_containers :: "string list"
  pp_root_acl :: "AclDocument option"
  pp_quota_bytes :: "u64 option"

record ProvisionOutcome =
  po_webid :: string
  po_pod_root :: string
  po_containers_created :: "string list"
  po_quota_bytes :: "u64 option"
  po_public_type_index :: string
  po_private_type_index :: string
  po_public_type_index_acl :: string

definition PUBLIC_TYPE_INDEX_PATH :: string where "PUBLIC_TYPE_INDEX_PATH = ''/settings/publicTypeIndex.jsonld''"

definition PRIVATE_TYPE_INDEX_PATH :: string where "PRIVATE_TYPE_INDEX_PATH = ''/settings/privateTypeIndex.jsonld''"

definition PUBLIC_TYPE_INDEX_ACL_PATH :: string where "PUBLIC_TYPE_INDEX_ACL_PATH = ''/settings/publicTypeIndex.jsonld.acl''"

text \<open>The JSON library: writing a value indented, and writing an ACL document, which may fail.\<close>

record json_writer =
  jw_pretty :: "json \<Rightarrow> string"
  jw_acl :: "AclDocument \<Rightarrow> string + bytes"

definition render_type_index_body :: "json_writer \<Rightarrow> string \<Rightarrow> string" where
  "render_type_index_body w visibility_marker = jw_pretty w (JObject
     [(''@context'', JObject [(''solid'', JString ''http://www.w3.org/ns/solid/terms#'')]), (''@id'', JString []),
      (''@type'', JArray [JString ''solid:TypeIndex'', JString visibility_marker])])"

definition build_public_type_index_acl :: "string \<Rightarrow> string \<Rightarrow> AclDocument" where
  "build_public_type_index_acl webid resource_path =
     (let owner = \<lparr>aa_id = Some ''#owner'', aa_type = Some ''acl:Authorization'', aa_agent = Some (Single (IdRef webid)),
            aa_agent_class = None, aa_agent_group = None, aa_origin = None, aa_access_to = Some (Single (IdRef resource_path)),
            aa_default = None, aa_mode = Some (Multiple [IdRef ''acl:Read'', IdRef ''acl:Write'', IdRef ''acl:Control'']), aa_condition = None\<rparr>;
          public = \<lparr>aa_id = Some ''#public'', aa_type = Some ''acl:Authorization'', aa_agent = None,
            aa_agent_class = Some (Single (IdRef ''foaf:Agent'')), aa_agent_group = None, aa_origin = None,
            aa_access_to = Some (Single (IdRef resource_path)), aa_default = None, aa_mode = Some (Single (IdRef ''acl:Read'')),
            aa_condition = None\<rparr>
      in \<lparr>doc_context = None, doc_graph = Some [owner, public]\<rparr>)"

section \<open>Seeding\<close>

definition meta_key :: "string \<Rightarrow> string" where
  "meta_key c = trim_end_matches (CHR ''/'') c @ ''.meta''"

fun seed_containers :: "'s storage_ops \<Rightarrow> 's \<Rightarrow> string list \<Rightarrow> string list \<Rightarrow> 's \<times> (PodError + string list)" where
  "seed_containers ops s created [] = (s, Inr created)"
| "seed_containers ops s created (c # cs) =
     (if \<not> is_container c then (s, Inl (InvalidPath (''not a container: '' @ c)))
      else case s_put ops s (meta_key c) ''{}'' ''application/ld+json'' of
          (s1, Inr _) \<Rightarrow> seed_containers ops s1 (created @ [c]) cs
        | (s1, Inl (AlreadyExists _)) \<Rightarrow> seed_containers ops s1 created cs
        | (s1, Inl e) \<Rightarrow> (s1, Inl e))"

definition all_containers :: "ProvisionPlan \<Rightarrow> string list" where
  "all_containers plan = sort (remdups (pp_containers plan @ [''/'', ''/profile/'', ''/settings/'']))"

definition pod_root_of :: "ProvisionPlan \<Rightarrow> string" where
  "pod_root_of plan = trim_end_matches (CHR ''/'') (pp_pod_base plan) @ ''/pods/'' @ pp_pubkey plan @ ''/''"

definition type_index_acl_text :: "ProvisionPlan \<Rightarrow> string" where
  "type_index_acl_text plan = serialize_turtle_acl (build_public_type_index_acl (pod_root_of plan @ ''profile/card#me'')
     (trim_end_matches (CHR ''/'') (pod_root_of plan) @ PUBLIC_TYPE_INDEX_PATH))"

definition write_root_acl :: "json_writer \<Rightarrow> 's storage_ops \<Rightarrow> 's \<Rightarrow> AclDocument option \<Rightarrow> 's \<times> (PodError + unit)" where
  "write_root_acl w ops s root_acl = (case root_acl of
     None \<Rightarrow> (s, Inr ())
   | Some acl \<Rightarrow> try_with s (case jw_acl w acl of Inl e \<Rightarrow> Inl (Json e) | Inr b \<Rightarrow> Inr b) (\<lambda>body.
       and_then (s_put ops s ''/.acl'' body ''application/ld+json'') (\<lambda>s1 _. (s1, Inr ()))))"

definition provision_pod :: "json_writer \<Rightarrow> 's storage_ops \<Rightarrow> 's \<Rightarrow> ProvisionPlan \<Rightarrow> 's \<times> (PodError + ProvisionOutcome)" where
  "provision_pod w ops s plan =
     and_then (seed_containers ops s [] (all_containers plan)) (\<lambda>s1 created.
     and_then (s_put ops s1 ''/profile/card''
       (generate_webid_html (jw_pretty w) (pp_pubkey plan) (pp_display_name plan) (pp_pod_base plan)) ''text/html'') (\<lambda>s2 _.
     and_then (write_root_acl w ops s2 (pp_root_acl plan)) (\<lambda>s3 _.
     and_then (s_put ops s3 PUBLIC_TYPE_INDEX_PATH (render_type_index_body w ''solid:ListedDocument'') ''application/ld+json'') (\<lambda>s4 _.
     and_then (s_put ops s4 PRIVATE_TYPE_INDEX_PATH (render_type_index_body w ''solid:UnlistedDocument'') ''application/ld+json'') (\<lambda>s5 _.
     and_then (s_put ops s5 PUBLIC_TYPE_INDEX_ACL_PATH (type_index_acl_text plan) ''text/turtle'') (\<lambda>s6 _.
       (s6, Inr \<lparr>po_webid = pod_root_of plan @ ''profile/card#me'', po_pod_root = pod_root_of plan, po_containers_created = created,
         po_quota_bytes = pp_quota_bytes plan, po_public_type_index = PUBLIC_TYPE_INDEX_PATH,
         po_private_type_index = PRIVATE_TYPE_INDEX_PATH, po_public_type_index_acl = PUBLIC_TYPE_INDEX_ACL_PATH\<rparr>)))))))"

section \<open>The quota tracker\<close>

record QuotaTracker =
  qt_quota_bytes :: "u64 option"
  qt_used_bytes :: u64

definition QuotaTracker_new :: "u64 option \<Rightarrow> QuotaTracker" where
  "QuotaTracker_new q = \<lparr>qt_quota_bytes = q, qt_used_bytes = 0\<rparr>"

definition with_initial_used :: "u64 option \<Rightarrow> u64 \<Rightarrow> QuotaTracker" where
  "with_initial_used q initial = \<lparr>qt_quota_bytes = q, qt_used_bytes = initial\<rparr>"

text \<open>A reservation is two atomic steps: the load with the check, and the addition, which wraps.\<close>

definition reserve_check :: "QuotaTracker \<Rightarrow> u64 \<Rightarrow> PodError + unit" where
  "reserve_check t sz = (case qt_quota_bytes t of
     Some q \<Rightarrow> if sat_add (qt_used_bytes t) sz > q
       then Inl (PreconditionFailed (''quota exceeded: '' @ show_nat (unat (qt_used_bytes t)) @ ''+'' @ show_nat (unat sz) @ '' > '' @ show_nat (unat q)))
       else Inr ()
   | None \<Rightarrow> Inr ())"

definition reserve_add :: "QuotaTracker \<Rightarrow> u64 \<Rightarrow> QuotaTracker" where
  "reserve_add t sz = t\<lparr>qt_used_bytes := qt_used_bytes t + sz\<rparr>"

definition quota_reserve :: "QuotaTracker \<Rightarrow> u64 \<Rightarrow> QuotaTracker \<times> (PodError + unit)" where
  "quota_reserve t sz = try_with t (reserve_check t sz) (\<lambda>_. (reserve_add t sz, Inr ()))"

definition quota_release :: "QuotaTracker \<Rightarrow> u64 \<Rightarrow> QuotaTracker" where
  "quota_release t sz = t\<lparr>qt_used_bytes := qt_used_bytes t - sz\<rparr>"

section \<open>The admin override\<close>

datatype AdminOverride = AdminOverride

definition check_admin_override :: "string option \<Rightarrow> string option \<Rightarrow> AdminOverride option" where
  "check_admin_override hdr configured = (case (hdr, configured) of
     (Some h, Some c) \<Rightarrow>
       if length h \<noteq> length c then None
       else if fold (\<lambda>(a, b) acc. acc OR (byte_of a XOR byte_of b)) (zip h c) (0 :: u8) = 0 then Some AdminOverride
       else None
   | _ \<Rightarrow> None)"

section \<open>Sequences of writes\<close>

type_synonym store_write = "string \<times> bytes \<times> string"

fun put_all :: "'s storage_ops \<Rightarrow> 's \<Rightarrow> store_write list \<Rightarrow> 's option" where
  "put_all ops s [] = Some s"
| "put_all ops s ((p, b, ct) # ws) = (case s_put ops s p b ct of (s1, Inr _) \<Rightarrow> put_all ops s1 ws | _ \<Rightarrow> None)"

lemma put_all_append: "put_all ops s (ws @ vs) = Option.bind (put_all ops s ws) (\<lambda>s1. put_all ops s1 vs)"
  by (induction ops s ws rule: put_all.induct) (auto split: prod.split sum.split)

text \<open>Writes to one resource that agree on its content.\<close>

definition consistent :: "(string \<Rightarrow> string) \<Rightarrow> store_write list \<Rightarrow> bool" where
  "consistent key ws \<longleftrightarrow> (\<forall>p c q d. (p, c) \<in> set ws \<longrightarrow> (q, d) \<in> set ws \<longrightarrow> key p = key q \<longrightarrow> c = d)"

context pod_storage
begin

lemma put_all_other:
  "invar s \<Longrightarrow> put_all ops s ws = Some s' \<Longrightarrow> key q \<notin> key ` fst ` set ws \<Longrightarrow> s_get ops s' q = s_get ops s q \<and> invar s'"
proof (induction ws arbitrary: s)
  case (Cons w ws)
  obtain p b ct where w: "w = (p, b, ct)" by (cases w)
  with Cons.prems obtain s1 m where p1: "s_put ops s p b ct = (s1, Inr m)" "put_all ops s1 ws = Some s'"
    by (auto split: prod.splits sum.splits)
  then show ?case using Cons.IH [OF put_invar [OF Cons.prems(1) p1(1)] p1(2)] put_get_other [OF Cons.prems(1) p1(1), of q] Cons.prems(3) w by auto
qed simp

lemma put_all_get:
  "invar s \<Longrightarrow> put_all ops s ws = Some s' \<Longrightarrow> consistent key ws \<Longrightarrow> (p, b, ct) \<in> set ws \<Longrightarrow>
    \<exists>m. s_get ops s' p = Inr (b, m) \<and> rm_content_type m = ct"
proof (induction ws arbitrary: s p b ct)
  case (Cons w ws)
  obtain q c dt where w: "w = (q, c, dt)" by (cases w)
  with Cons.prems obtain s1 m where p1: "s_put ops s q c dt = (s1, Inr m)" "put_all ops s1 ws = Some s'"
    by (auto split: prod.splits sum.splits)
  have inv: "invar s1" by (rule put_invar [OF Cons.prems(1) p1(1)])
  have cons: "consistent key ws" using Cons.prems(3) by (auto simp: consistent_def)
  show ?case
  proof (cases "key p \<in> key ` fst ` set ws")
    case True
    then obtain p' c' d' where p': "(p', c', d') \<in> set ws" "key p = key p'" by auto
    then have "(c', d') = (b, ct)" using Cons.prems(3,4) unfolding consistent_def by (metis list.set_intros(2))
    then show ?thesis using Cons.IH [OF inv p1(2) cons] p' get_key [OF p'(2)] by auto
  next
    case False
    then have "(p, b, ct) = w" using Cons.prems(4) by force
    then show ?thesis using put_all_other [OF inv p1(2) False] put_get_same [OF Cons.prems(1) p1(1)] put_meta [OF p1(1)] w by auto
  qed
qed simp

end

section \<open>What a provisioned pod holds\<close>

definition provision_writes :: "json_writer \<Rightarrow> ProvisionPlan \<Rightarrow> store_write list" where
  "provision_writes w plan =
     map (\<lambda>c. (meta_key c, ''{}'', ''application/ld+json'')) (all_containers plan) @
     [(''/profile/card'', generate_webid_html (jw_pretty w) (pp_pubkey plan) (pp_display_name plan) (pp_pod_base plan), ''text/html'')] @
     (case pp_root_acl plan of None \<Rightarrow> [] | Some acl \<Rightarrow> (case jw_acl w acl of Inl e \<Rightarrow> [] | Inr b \<Rightarrow> [(''/.acl'', b, ''application/ld+json'')])) @
     [(PUBLIC_TYPE_INDEX_PATH, render_type_index_body w ''solid:ListedDocument'', ''application/ld+json''),
      (PRIVATE_TYPE_INDEX_PATH, render_type_index_body w ''solid:UnlistedDocument'', ''application/ld+json''),
      (PUBLIC_TYPE_INDEX_ACL_PATH, type_index_acl_text plan, ''text/turtle'')]"

lemma mem_put_ok: "\<exists>s1 m. s_put (memory_ops sha now) s p b ct = (s1, Inr m)"
  by (simp add: memory_ops_def mem_put_def Let_def)

lemma put_all_mem: "\<exists>s1. put_all (memory_ops sha now) s ws = Some s1"
proof (induction ws arbitrary: s)
  case (Cons w ws)
  obtain p b ct where w: "w = (p, b, ct)" by (cases w)
  obtain s1 m where "s_put (memory_ops sha now) s p b ct = (s1, Inr m)" using mem_put_ok by blast
  then show ?case using w Cons [of s1] by simp
qed simp

lemma seed_containers_mem:
  assumes "list_all is_container cs"
  shows "seed_containers (memory_ops sha now) s created cs =
    (the (put_all (memory_ops sha now) s (map (\<lambda>c. (meta_key c, ''{}'', ''application/ld+json'')) cs)), Inr (created @ cs))"
  using assms
proof (induction cs arbitrary: s created)
  case (Cons c cs)
  obtain s1 m where "s_put (memory_ops sha now) s (meta_key c) ''{}'' ''application/ld+json'' = (s1, Inr m)" using mem_put_ok by blast
  then show ?case using Cons by simp
qed simp

lemma set_all_containers: "set (all_containers plan) = set (pp_containers plan) \<union> {''/'', ''/profile/'', ''/settings/''}"
  by (auto simp: all_containers_def)

lemma meta_key_end: "ends_with ''.meta'' (mem_normalize (meta_key c))"
  by (auto simp: mem_normalize_def meta_key_def ends_with_def starts_with_def)

lemma provision_writes_consistent: "consistent mem_normalize (provision_writes w plan)"
proof -
  let ?F = "{''/profile/card'', ''/.acl'', PUBLIC_TYPE_INDEX_PATH, PRIVATE_TYPE_INDEX_PATH, PUBLIC_TYPE_INDEX_ACL_PATH}"
  have fixed: "\<not> ends_with ''.meta'' p \<and> mem_normalize p = p" if "p \<in> ?F" for p
    using that by (auto simp: PUBLIC_TYPE_INDEX_PATH_def PRIVATE_TYPE_INDEX_PATH_def PUBLIC_TYPE_INDEX_ACL_PATH_def ends_with_def starts_with_def mem_normalize_def)
  then have ne: "mem_normalize (meta_key c) \<noteq> p" if "p \<in> ?F" for p c using that meta_key_end [of c] by metis
  have paths: "''/profile/card'' \<noteq> ''/.acl''" "''/profile/card'' \<noteq> PUBLIC_TYPE_INDEX_PATH" "''/profile/card'' \<noteq> PRIVATE_TYPE_INDEX_PATH"
    "''/profile/card'' \<noteq> PUBLIC_TYPE_INDEX_ACL_PATH" "''/.acl'' \<noteq> PUBLIC_TYPE_INDEX_PATH" "''/.acl'' \<noteq> PRIVATE_TYPE_INDEX_PATH"
    "''/.acl'' \<noteq> PUBLIC_TYPE_INDEX_ACL_PATH" "PUBLIC_TYPE_INDEX_PATH \<noteq> PRIVATE_TYPE_INDEX_PATH" "PUBLIC_TYPE_INDEX_PATH \<noteq> PUBLIC_TYPE_INDEX_ACL_PATH"
    "PRIVATE_TYPE_INDEX_PATH \<noteq> PUBLIC_TYPE_INDEX_ACL_PATH"
    by (simp_all add: PUBLIC_TYPE_INDEX_PATH_def PRIVATE_TYPE_INDEX_PATH_def PUBLIC_TYPE_INDEX_ACL_PATH_def)
  have norm: "mem_normalize ''/profile/card'' = ''/profile/card''" "mem_normalize ''/.acl'' = ''/.acl''"
    "mem_normalize PUBLIC_TYPE_INDEX_PATH = PUBLIC_TYPE_INDEX_PATH" "mem_normalize PRIVATE_TYPE_INDEX_PATH = PRIVATE_TYPE_INDEX_PATH"
    "mem_normalize PUBLIC_TYPE_INDEX_ACL_PATH = PUBLIC_TYPE_INDEX_ACL_PATH" using fixed by auto
  have nes: "mem_normalize (meta_key c) \<noteq> ''/profile/card''" "mem_normalize (meta_key c) \<noteq> ''/.acl''" "mem_normalize (meta_key c) \<noteq> PUBLIC_TYPE_INDEX_PATH"
    "mem_normalize (meta_key c) \<noteq> PRIVATE_TYPE_INDEX_PATH" "mem_normalize (meta_key c) \<noteq> PUBLIC_TYPE_INDEX_ACL_PATH" for c using ne by auto
  show ?thesis unfolding consistent_def provision_writes_def
    by (cases "pp_root_acl plan"; cases "jw_acl w (the (pp_root_acl plan))")
       (auto simp: norm nes nes [symmetric] paths paths [symmetric])
qed


lemma provision_mem:
  assumes "list_all is_container (pp_containers plan)" "case pp_root_acl plan of None \<Rightarrow> True | Some acl \<Rightarrow> is_ok (jw_acl w acl)"
  shows "\<exists>s' out. provision_pod w (memory_ops sha now) s plan = (s', Inr out) \<and> put_all (memory_ops sha now) s (provision_writes w plan) = Some s'
    \<and> po_containers_created out = all_containers plan"
proof -
  let ?ops = "memory_ops sha now"
  have cs: "list_all is_container (all_containers plan)"
    using assms(1) by (auto simp: list_all_iff set_all_containers is_container_def ends_with_def starts_with_def)
  obtain s1 where s1: "put_all ?ops s (map (\<lambda>c. (meta_key c, ''{}'', ''application/ld+json'')) (all_containers plan)) = Some s1" using put_all_mem by blast
  obtain s2 m2 where s2: "s_put ?ops s1 ''/profile/card'' (generate_webid_html (jw_pretty w) (pp_pubkey plan) (pp_display_name plan) (pp_pod_base plan)) ''text/html'' = (s2, Inr m2)"
    using mem_put_ok by blast
  obtain s3 where s3: "write_root_acl w ?ops s2 (pp_root_acl plan) = (s3, Inr ())"
    "put_all ?ops s2 (case pp_root_acl plan of None \<Rightarrow> [] | Some acl \<Rightarrow> (case jw_acl w acl of Inl e \<Rightarrow> [] | Inr b \<Rightarrow> [(''/.acl'', b, ''application/ld+json'')])) = Some s3"
  proof (cases "pp_root_acl plan")
    case None
    then show ?thesis using that [of s2] by (simp add: write_root_acl_def)
  next
    case (Some acl)
    then obtain b where b: "jw_acl w acl = Inr b" using assms(2) by (cases "jw_acl w acl") auto
    obtain s3 m3 where "s_put ?ops s2 ''/.acl'' b ''application/ld+json'' = (s3, Inr m3)" using mem_put_ok by blast
    then show ?thesis using that [of s3] Some b by (simp add: write_root_acl_def)
  qed
  obtain s4 m4 where s4: "s_put ?ops s3 PUBLIC_TYPE_INDEX_PATH (render_type_index_body w ''solid:ListedDocument'') ''application/ld+json'' = (s4, Inr m4)" using mem_put_ok by blast
  obtain s5 m5 where s5: "s_put ?ops s4 PRIVATE_TYPE_INDEX_PATH (render_type_index_body w ''solid:UnlistedDocument'') ''application/ld+json'' = (s5, Inr m5)" using mem_put_ok by blast
  obtain s6 m6 where s6: "s_put ?ops s5 PUBLIC_TYPE_INDEX_ACL_PATH (type_index_acl_text plan) ''text/turtle'' = (s6, Inr m6)" using mem_put_ok by blast
  show ?thesis
    by (simp add: provision_pod_def provision_writes_def put_all_append seed_containers_mem [OF cs] s1 s2 s3 s4 s5 s6)
qed

text \<open>Provisioning a pod in memory, from any state and for any plan whose containers end in a slash and
  whose root ACL can be written, succeeds, reports every container as created, writes exactly the planned
  resources (a metadata document per container, the profile page, the root ACL if there is one, the two
  type indexes and the ACL of the public one) with their contents and media types, and leaves every other
  resource of the storage as it was.\<close>

theorem provision_lays_out:
  assumes "mem_invar s" "list_all is_container (pp_containers plan)" "case pp_root_acl plan of None \<Rightarrow> True | Some acl \<Rightarrow> is_ok (jw_acl w acl)"
  shows "\<exists>s' out. provision_pod w (memory_ops sha now) s plan = (s', Inr out) \<and> po_containers_created out = all_containers plan
    \<and> list_all (\<lambda>(p, b, ct). \<exists>m. mem_get s' p = Inr (b, m) \<and> rm_content_type m = ct) (provision_writes w plan)
    \<and> (\<forall>q. mem_normalize q \<in> mem_normalize ` fst ` set (provision_writes w plan) \<or> mem_get s' q = mem_get s q)"
proof -
  obtain s' out where p: "provision_pod w (memory_ops sha now) s plan = (s', Inr out)"
    "put_all (memory_ops sha now) s (provision_writes w plan) = Some s'" "po_containers_created out = all_containers plan"
    using provision_mem [OF assms(2,3)] by blast
  have "\<exists>m. mem_get s' q = Inr (b, m) \<and> rm_content_type m = ct" if "(q, b, ct) \<in> set (provision_writes w plan)" for q b ct
    using mem.put_all_get [OF assms(1) p(2) provision_writes_consistent that] by (simp add: memory_ops_def)
  then have held: "list_all (\<lambda>(p, b, ct). \<exists>m. mem_get s' p = Inr (b, m) \<and> rm_content_type m = ct) (provision_writes w plan)"
    by (auto simp: list_all_iff)
  have "\<forall>q. mem_normalize q \<in> mem_normalize ` fst ` set (provision_writes w plan) \<or> mem_get s' q = mem_get s q"
    using mem.put_all_other [OF assms(1) p(2)] by (simp add: memory_ops_def) blast
  then show ?thesis using p(1,3) held by blast
qed


definition sample_plan :: ProvisionPlan where
  "sample_plan = \<lparr>pp_pubkey = ''k1'', pp_display_name = None, pp_pod_base = ''https://p'', pp_containers = [''/a/''], pp_root_acl = None, pp_quota_bytes = None\<rparr>"

definition sample_writer :: json_writer where
  "sample_writer = \<lparr>jw_pretty = (\<lambda>_. ''{}''), jw_acl = (\<lambda>_. Inl ''x'')\<rparr>"

theorem provision_lays_out_witness:
  "\<exists>s' out m. provision_pod sample_writer (memory_ops id 0) MemoryBackend_new sample_plan = (s', Inr out)
    \<and> mem_get s' PUBLIC_TYPE_INDEX_PATH = Inr (''{}'', m)"
proof -
  have "list_all is_container (pp_containers sample_plan)" by code_simp
  moreover have "case pp_root_acl sample_plan of None \<Rightarrow> True | Some acl \<Rightarrow> is_ok (jw_acl sample_writer acl)" by (simp add: sample_plan_def)
  ultimately obtain s' out where p: "provision_pod sample_writer (memory_ops id 0) MemoryBackend_new sample_plan = (s', Inr out)"
    "list_all (\<lambda>(p, b, ct). \<exists>m. mem_get s' p = Inr (b, m) \<and> rm_content_type m = ct) (provision_writes sample_writer sample_plan)"
    using provision_lays_out [OF mem_invar_new, of sample_plan sample_writer id 0] by blast
  moreover have "(PUBLIC_TYPE_INDEX_PATH, ''{}'', ''application/ld+json'') \<in> set (provision_writes sample_writer sample_plan)"
    by (simp add: provision_writes_def render_type_index_body_def sample_writer_def)
  ultimately show ?thesis unfolding list_all_iff by fastforce
qed

section \<open>The ACL of the public type index\<close>

lemma trim_end_http: "starts_with ''http'' s \<Longrightarrow> starts_with ''http'' (trim_end_matches (CHR ''/'') s @ t)"
proof -
  assume s: "starts_with ''http'' s"
  obtain n where n: "s = trim_end_matches (CHR ''/'') s @ replicate n (CHR ''/'')" using trim_end_matches_prefix by blast
  obtain r where r: "s = ''http'' @ r" using s by (auto simp: starts_with_iff)
  obtain m where m: "r = trim_end_matches (CHR ''/'') r @ replicate m (CHR ''/'')" using trim_end_matches_prefix by blast
  have "trim_end_matches (CHR ''/'') (''http'' @ trim_end_matches (CHR ''/'') r) = ''http'' @ trim_end_matches (CHR ''/'') r"
    using trim_end_matches_last [of "CHR ''/''" r] by (intro trim_end_matches_no) auto
  then have "trim_end_matches (CHR ''/'') s = ''http'' @ trim_end_matches (CHR ''/'') r"
    using trim_end_matches_replicate [of "CHR ''/''" "''http'' @ trim_end_matches (CHR ''/'') r" m] m r by simp
  then show ?thesis by (simp add: starts_with_def)
qed

lemma http_rule_misses_path:
  assumes "starts_with ''http'' r"
  shows "\<not> path_matches r (CHR ''/'' # x) False"
proof -
  obtain t where t: "normalize_path r = ''http'' @ t"
  proof -
    have "normalize_path r = trim_end_matches (CHR ''/'') r" if "trim_end_matches (CHR ''/'') r \<noteq> []"
      using assms that by (cases r) (auto simp: normalize_path_def strip_prefix_def starts_with_def or_else_def Let_def)
    then show ?thesis using that trim_end_http [OF assms, of "[]"] by (auto simp: starts_with_iff)
  qed
  obtain u where u: "normalize_path (CHR ''/'' # x) = CHR ''/'' # u"
  proof -
    have "normalize_path (CHR ''/'' # x) = (if trim_end_matches (CHR ''/'') (CHR ''/'' # x) = [] then ''/'' else trim_end_matches (CHR ''/'') (CHR ''/'' # x))"
      by (simp add: normalize_path_def strip_prefix_def starts_with_def or_else_def Let_def)
    then show ?thesis using that trim_end_matches_hd [of "CHR ''/''" "CHR ''/'' # x"]
      by (cases "trim_end_matches (CHR ''/'') (CHR ''/'' # x)") auto
  qed
  show ?thesis unfolding path_matches_def Let_def t u by (simp add: strip_prefix_def starts_with_def)
qed

lemma http_expand: "safe_id r \<Longrightarrow> starts_with ''http'' r \<Longrightarrow> expand_curie_or_iri initial_prefixes r = r"
  by (erule expand_cases) (auto simp: starts_with_def)

lemma json_depth_none:
  "list_all (\<lambda>c. c \<noteq> CHR 0x22 \<and> c \<noteq> CHR ''{'' \<and> c \<noteq> CHR ''['') t \<Longrightarrow> json_depth_loop m d False False t = Inr ()"
  by (induction t arbitrary: d) auto

text \<open>The characters of a base URL and a key that the Turtle writer and reader agree on.\<close>

definition web_char :: "char \<Rightarrow> bool" where
  "web_char c \<longleftrightarrow> iri_char c \<and> c \<noteq> CHR ''{''"

definition text_char :: "char \<Rightarrow> bool" where
  "text_char c \<longleftrightarrow> c \<noteq> CHR 0x22 \<and> c \<noteq> CHR ''{'' \<and> c \<noteq> CHR ''['' \<and> \<not> digit7 c"

lemma web_text: "list_all web_char s \<Longrightarrow> list_all text_char s"
  by (auto simp: list_all_iff web_char_def text_char_def iri_char_def plain_def)

lemma acl_text_chars:
  assumes "starts_with ''http'' w" "starts_with ''http'' r" "list_all web_char w" "list_all web_char r"
  shows "list_all text_char (serialize_turtle_acl (build_public_type_index_acl w r))"
proof -
  have "show_nat 0 = ''0''" "show_nat (Suc 0) = ''1''" by code_simp+
  then show ?thesis using assms(1,2) web_text [OF assms(3)] web_text [OF assms(4)]
    by (simp add: serialize_turtle_acl_def build_public_type_index_acl_def Let_def emit_auth_def emit_pairs_def emit_with_def emit_conditions_def
      get_ids_def render_id_def text_char_def starts_with_def)
qed

lemma type_index_acl_safe:
  assumes "starts_with ''http'' w" "starts_with ''http'' r" "list_all web_char w" "list_all web_char r"
  shows "list_all safe_auth (the (doc_graph (build_public_type_index_acl w r)))"
proof -
  have "safe_id s" if "starts_with ''http'' s" "list_all web_char s" for s
  proof -
    have "list_all iri_char s" using that(2) by (simp add: list_all_iff web_char_def)
    moreover have "s \<noteq> []" using that(1) by (auto simp: starts_with_def)
    ultimately show ?thesis using that(1) by (simp add: safe_id_def)
  qed
  then have ids: "safe_id w" "safe_id r" using assms by blast+
  have "safe_id ''acl:Read''" "safe_id ''acl:Write''" "safe_id ''acl:Control''" "safe_id ''foaf:Agent''" by code_simp+
  then show ?thesis using ids by (simp add: build_public_type_index_acl_def Let_def safe_auth_def Wac_Roundtrip.fields_def get_ids_def)
qed


text \<open>Where the plan's URLs lie: under an http or https base, of ordinary characters.\<close>

definition plan_urls_ok :: "ProvisionPlan \<Rightarrow> bool" where
  "plan_urls_ok plan \<longleftrightarrow> starts_with ''http'' (pp_pod_base plan) \<and> list_all web_char (pp_pod_base plan) \<and> list_all web_char (pp_pubkey plan)"

lemma plan_urls:
  assumes "plan_urls_ok plan"
  shows "starts_with ''http'' (pod_root_of plan @ t)" "starts_with ''http'' (trim_end_matches (CHR ''/'') (pod_root_of plan) @ t)"
    and "list_all web_char (pod_root_of plan)" "list_all web_char (trim_end_matches (CHR ''/'') (pod_root_of plan))"
proof -
  have root: "starts_with ''http'' (pod_root_of plan)"
    using assms trim_end_http unfolding plan_urls_ok_def pod_root_of_def by blast
  then show "starts_with ''http'' (pod_root_of plan @ t)" by (auto simp: starts_with_iff)
  show "starts_with ''http'' (trim_end_matches (CHR ''/'') (pod_root_of plan) @ t)" using root by (rule trim_end_http)
  have sub: "set (trim_end_matches c s) \<subseteq> set s" for c and s :: string
    using trim_end_matches_prefix [of s c] by (metis set_append Un_upper1)
  have "list_all web_char ''/pods/''" by code_simp
  then show "list_all web_char (pod_root_of plan)"
    using assms sub [of "CHR ''/''" "pp_pod_base plan"] by (auto simp: plan_urls_ok_def pod_root_of_def list_all_iff)
  then show "list_all web_char (trim_end_matches (CHR ''/'') (pod_root_of plan))"
    using sub [of "CHR ''/''" "pod_root_of plan"] by (auto simp: list_all_iff)
qed

lemma type_index_acl_parsed:
  assumes "plan_urls_ok plan" "ac_from_slice cfg (type_index_acl_text plan) = None"
    and "length (type_index_acl_text plan) \<le> env_usize (ac_env cfg) ''JSS_MAX_ACL_BYTES'' MAX_ACL_BYTES"
    and "rm_content_type mt = ''text/turtle''"
  shows "\<exists>doc. try_acl cfg (Inr (type_index_acl_text plan, mt)) = Some (Inr doc)
    \<and> (\<forall>ctx m gr disp. doc_graph doc \<noteq> None \<and> \<not> base_grant (the (doc_graph doc)) ctx PUBLIC_TYPE_INDEX_PATH m gr disp)"
proof -
  let ?w = "pod_root_of plan @ ''profile/card#me''" and ?r = "trim_end_matches (CHR ''/'') (pod_root_of plan) @ PUBLIC_TYPE_INDEX_PATH"
  let ?d = "build_public_type_index_acl ?w ?r" and ?t = "type_index_acl_text plan"
  have lits: "list_all web_char ''profile/card#me''" "list_all web_char PUBLIC_TYPE_INDEX_PATH" by code_simp+
  have w: "starts_with ''http'' ?w" "list_all web_char ?w" using plan_urls [OF assms(1)] lits(1) by simp_all
  have r: "starts_with ''http'' ?r" "list_all web_char ?r" using plan_urls [OF assms(1)] lits(2) by simp_all
  have safe: "list_all safe_auth (the (doc_graph ?d))" by (rule type_index_acl_safe [OF w(1) r(1) w(2) r(2)])
  have chars: "list_all text_char ?t" unfolding type_index_acl_text_def by (rule acl_text_chars [OF w(1) r(1) w(2) r(2)])
  have u: "from_utf8 ?t = Some ?t" using chars by (intro utf8_ascii) (simp add: list_all_iff text_char_def)
  have "check_json_depth ?t k = Inr ()" for k
    unfolding check_json_depth_def using chars by (intro json_depth_none) (simp add: list_all_iff text_char_def)
  then have json: "parse_jsonld_acl (ac_from_slice cfg) (ac_env cfg) ?t = Inl (AclParse ''JSON-LD ACL parse: '')"
    using assms(2,3) by (simp add: parse_jsonld_acl_def parse_jsonld_acl_with_limits_def)
  obtain g where g: "doc_graph ?d = Some g" "g \<noteq> []" by (simp add: build_public_type_index_acl_def Let_def)
  let ?doc = "\<lparr>doc_context = None, doc_graph = Some (map expand_auth g)\<rparr>"
  have "parse_turtle_acl (ac_env cfg) ?t = Inr ?doc"
    unfolding parse_turtle_acl_def type_index_acl_text_def
    using parse_serialize [OF g(1), of "env_usize (ac_env cfg) ''JSS_MAX_ACL_BYTES'' MAX_ACL_BYTES"] safe g assms(3) by (simp add: type_index_acl_text_def)
  moreover have "to_ascii_lowercase ''text/turtle'' = ''text/turtle''" "starts_with ''text/turtle'' ''text/turtle''" by code_simp+
  ultimately have "try_turtle cfg ?t mt = Some ?doc" by (simp add: try_turtle_def u assms(4))
  then have "try_acl cfg (Inr (?t, mt)) = Some (Inr ?doc)" by (simp add: try_acl_def json)
  moreover have "\<not> base_grant (map expand_auth g) ctx PUBLIC_TYPE_INDEX_PATH m gr disp" for ctx m gr disp
  proof -
    have "safe_id ?r" using safe by (simp add: build_public_type_index_acl_def Let_def safe_auth_def Wac_Roundtrip.fields_def get_ids_def)
    then have "expand_curie_or_iri initial_prefixes ?r = ?r" using r(1) by (rule http_expand)
    moreover have "\<not> path_matches ?r PUBLIC_TYPE_INDEX_PATH False"
      using http_rule_misses_path [OF r(1), of "tl PUBLIC_TYPE_INDEX_PATH"] by (simp add: PUBLIC_TYPE_INDEX_PATH_def)
    moreover have "get_ids (aa_access_to a) = [?r]" "get_ids (aa_default a) = []" if "a \<in> set g" for a
      using that g(1) by (auto simp: build_public_type_index_acl_def Let_def get_ids_def)
    ultimately have "\<not> target_matches (expand_auth a) PUBLIC_TYPE_INDEX_PATH" if "a \<in> set g" for a
      using that by (simp add: target_matches_def expand_auth_def)
    then show ?thesis unfolding base_grant_iff by auto
  qed
  ultimately show ?thesis by (intro exI [of _ ?doc]) simp
qed


lemma type_index_acl_key: "acl_key PUBLIC_TYPE_INDEX_PATH = PUBLIC_TYPE_INDEX_ACL_PATH"
  by code_simp

context pod_storage
begin

lemma seed_invar: "invar s \<Longrightarrow> seed_containers ops s created cs = (s', r) \<Longrightarrow> invar s'"
proof (induction cs arbitrary: s created)
  case (Cons c cs)
  obtain s1 r1 where put: "s_put ops s (meta_key c) ''{}'' ''application/ld+json'' = (s1, r1)" by force
  note inv = put_invar [OF Cons.prems(1) put]
  show ?case
  proof (cases "is_container c")
    case True
    then show ?thesis using Cons.prems(2) Cons.IH inv put Cons.prems(1) by (cases r1) (auto split: PodError.splits)
  next
    case False
    then show ?thesis using Cons.prems by simp
  qed
qed simp

lemma write_root_acl_invar: "invar s \<Longrightarrow> write_root_acl w ops s acl = (s', r) \<Longrightarrow> invar s'"
  by (auto simp: write_root_acl_def try_with_def and_then_def split: option.splits sum.splits prod.splits intro: put_invar)

lemma provision_last_write:
  assumes "invar s" "provision_pod w ops s plan = (s', Inr out)"
  shows "\<exists>m. s_get ops s' PUBLIC_TYPE_INDEX_ACL_PATH = Inr (type_index_acl_text plan, m) \<and> rm_content_type m = ''text/turtle''"
proof -
  obtain s1 s2 s3 s4 s5 a b d e f where st: "seed_containers ops s [] (all_containers plan) = (s1, Inr a)"
    "s_put ops s1 ''/profile/card'' (generate_webid_html (jw_pretty w) (pp_pubkey plan) (pp_display_name plan) (pp_pod_base plan)) ''text/html'' = (s2, Inr b)"
    "write_root_acl w ops s2 (pp_root_acl plan) = (s3, Inr ())"
    "s_put ops s3 PUBLIC_TYPE_INDEX_PATH (render_type_index_body w ''solid:ListedDocument'') ''application/ld+json'' = (s4, Inr d)"
    "s_put ops s4 PRIVATE_TYPE_INDEX_PATH (render_type_index_body w ''solid:UnlistedDocument'') ''application/ld+json'' = (s5, Inr e)"
    "s_put ops s5 PUBLIC_TYPE_INDEX_ACL_PATH (type_index_acl_text plan) ''text/turtle'' = (s', Inr f)"
    using assms(2) unfolding provision_pod_def and_then_Inr_conv by auto
  have "invar s1" using seed_invar [OF assms(1) st(1)] .
  then have "invar s2" using put_invar st(2) by blast
  then have "invar s3" using write_root_acl_invar st(3) by blast
  then have "invar s4" using put_invar st(4) by blast
  then have "invar s5" using put_invar st(5) by blast
  then show ?thesis using put_get_same [OF _ st(6)] put_meta [OF st(6)] by blast
qed

end

text \<open>The ACL that provisioning writes for the public type index grants nothing. On every storage that
  keeps the contract, and for every http or https base URL of ordinary characters, the effective ACL of the
  index is that document, and it refuses every mode to every agent, the owner included: its targets are
  absolute IRIs, while requests are matched by path. Nothing but the ACL text, which is no JSON, within the
  size limit is assumed.\<close>

theorem type_index_acl_grants_nothing:
  assumes "pod_storage ops key invar" "invar s" "provision_pod w ops s plan = (s', Inr out)" "plan_urls_ok plan"
    and "ac_from_slice cfg (type_index_acl_text plan) = None"
    and "length (type_index_acl_text plan) \<le> env_usize (ac_env cfg) ''JSS_MAX_ACL_BYTES'' MAX_ACL_BYTES"
  shows "\<exists>doc. find_effective_acl cfg (s_get ops s') PUBLIC_TYPE_INDEX_PATH = Inr (Some doc) \<and>
    \<not> evaluate_access_ctx env (Some doc) ctx PUBLIC_TYPE_INDEX_PATH mode org gr disp"
proof -
  obtain m where m: "s_get ops s' PUBLIC_TYPE_INDEX_ACL_PATH = Inr (type_index_acl_text plan, m)" "rm_content_type m = ''text/turtle''"
    using pod_storage.provision_last_write [OF assms(1-3)] by blast
  obtain doc where doc: "try_acl cfg (Inr (type_index_acl_text plan, m)) = Some (Inr doc)" "doc_graph doc \<noteq> None"
    "\<not> base_grant (the (doc_graph doc)) ctx PUBLIC_TYPE_INDEX_PATH mode gr disp" for mode
    using type_index_acl_parsed [OF assms(4-6) m(2)] by metis
  then have "find_effective_acl cfg (s_get ops s') PUBLIC_TYPE_INDEX_PATH = Inr (Some doc)"
    by (simp add: find_effective_acl_def walk.simps [of _ _ PUBLIC_TYPE_INDEX_PATH] type_index_acl_key m(1))
  moreover have "\<not> evaluate_access_ctx env (Some doc) ctx PUBLIC_TYPE_INDEX_PATH mode org gr disp"
    using doc(2,3) by (auto simp: evaluate_access_ctx_def evaluate_access_ctx_inner_def)
  ultimately show ?thesis by blast
qed


theorem type_index_acl_grants_nothing_witness:
  "\<exists>s' out doc. provision_pod sample_writer (memory_ops id 0) MemoryBackend_new sample_plan = (s', Inr out) \<and>
    find_effective_acl \<lparr>ac_from_slice = (\<lambda>_. None), ac_env = (\<lambda>_. None)\<rparr> (s_get (memory_ops id 0) s') PUBLIC_TYPE_INDEX_PATH = Inr (Some doc) \<and>
    \<not> evaluate_access_ctx ex_env (Some doc) \<lparr>rc_web_id = Some ''https://p/pods/k1/profile/card#me'', rc_client_id = None, rc_issuer = None\<rparr>
      PUBLIC_TYPE_INDEX_PATH Read None NoGroupMembership EmptyDispatcher"
proof -
  let ?cfg = "\<lparr>ac_from_slice = (\<lambda>_. None), ac_env = (\<lambda>_. None)\<rparr> :: acl_config"
  obtain s' out where p: "provision_pod sample_writer (memory_ops id 0) MemoryBackend_new sample_plan = (s', Inr out)"
    using provision_mem [of sample_plan sample_writer id 0 MemoryBackend_new] by (auto simp: sample_plan_def is_container_def ends_with_def starts_with_def)
  have urls: "plan_urls_ok sample_plan" by code_simp
  have "length (type_index_acl_text sample_plan) \<le> 1000" by code_simp
  then have len: "length (type_index_acl_text sample_plan) \<le> env_usize (ac_env ?cfg) ''JSS_MAX_ACL_BYTES'' MAX_ACL_BYTES"
    by (simp add: env_usize_def MAX_ACL_BYTES_def)
  show ?thesis using p type_index_acl_grants_nothing [OF mem.pod_storage_axioms mem_invar_new p urls _ len] by auto
qed

section \<open>Quotas and the admin secret\<close>

text \<open>Below the largest quota, whose saturated sum can no longer exceed it, the check is the exact comparison.\<close>

lemma u64_less: "unat (q :: u64) < 2 ^ 64"
  using unsigned_less [where 'b = 64 and 'a = nat, of q] by simp

lemma reserve_check_ok:
  assumes "qt_quota_bytes t = Some q" "q \<noteq> - 1"
  shows "reserve_check t sz = Inr u \<longleftrightarrow> unat (qt_used_bytes t) + unat sz \<le> unat q"
proof -
  have "unat q \<noteq> unat (- 1 :: u64)" using assms(2) by (simp only: word_unat_eq_iff not_False_eq_True)
  moreover have "unat (- 1 :: u64) = 2 ^ 64 - 1" by (simp add: unsigned_minus_1_eq_mask mask_eq_exp_minus_1)
  moreover note u64_less [of q]
  ultimately show ?thesis using assms(1) by (auto simp: reserve_check_def word_less_nat_alt sat_add_unat)
qed

text \<open>A reservation that succeeds adds exactly its size and stays within the quota; one that fails changes nothing.\<close>

lemma quota_reserve_spec:
  assumes "qt_quota_bytes t = Some q" "q \<noteq> - 1"
  shows "quota_reserve t sz = (t', r) \<Longrightarrow>
    if unat (qt_used_bytes t) + unat sz \<le> unat q
    then r = Inr () \<and> unat (qt_used_bytes t') = unat (qt_used_bytes t) + unat sz \<and> qt_quota_bytes t' = Some q
    else isl r \<and> t' = t"
proof -
  assume run: "quota_reserve t sz = (t', r)"
  show ?thesis
  proof (cases "unat (qt_used_bytes t) + unat sz \<le> unat q")
    case True
    then have "unat (qt_used_bytes t) + unat sz < 2 ^ 64" using u64_less [of q] by linarith
    then have "unat (qt_used_bytes t + sz) = unat (qt_used_bytes t) + unat sz" by (simp add: unat_add_lem [THEN iffD1])
    then show ?thesis
      using True run reserve_check_ok [OF assms, of sz "()"] assms(1) by (auto simp: quota_reserve_def try_with_def reserve_add_def)
  next
    case False
    then show ?thesis
      using run reserve_check_ok [OF assms, of sz] by (auto simp: quota_reserve_def try_with_def split: sum.splits dest: sym)
  qed
qed

text \<open>The largest quota is no limit: the saturated sum never exceeds it, and the counter wraps.\<close>

lemma largest_quota_unlimited:
  "qt_quota_bytes t = Some (- 1) \<Longrightarrow> quota_reserve t sz = (t\<lparr>qt_used_bytes := qt_used_bytes t + sz\<rparr>, Inr ())"
  by (simp add: quota_reserve_def reserve_check_def try_with_def reserve_add_def)

text \<open>Two requests that both check before either adds: both are admitted and the quota is exceeded.\<close>

lemma reserve_race:
  "let t = QuotaTracker_new (Some 100) in
   reserve_check t 60 = Inr () \<and> reserve_check t 60 = Inr () \<and> qt_used_bytes (reserve_add (reserve_add t 60) 60) = 120"
  by (simp add: QuotaTracker_new_def reserve_check_def reserve_add_def sat_add_def)

text \<open>Releasing more than is in use wraps: afterwards a bounded tracker admits nothing.\<close>

lemma release_wraps: "qt_used_bytes (quota_release (QuotaTracker_new q) 1) = - 1"
  by (simp add: QuotaTracker_new_def quota_release_def)

lemma check_admin_override_iff:
  "check_admin_override hdr configured = Some AdminOverride \<longleftrightarrow> hdr \<noteq> None \<and> hdr = configured"
  by (auto simp: check_admin_override_def fold_diff_zero list_eq_iff_zip_eq list_all_iff split: option.splits)

end
