(* ===== verification/Ap_Store.thy ===== *)
theory Ap_Store
  imports Webid
begin

text \<open>
  The persistence of the ActivityPub crate (\<open>solid-pod-rs-activitypub/src/store.rs\<close>). SQLite is a record of
  tables, each the list of its rows; a statement is one atomic step that the database may refuse, and the
  store carries the refusals to come. Instants are integers that count nanoseconds; JSON text is written and
  read by parameters. SQLite leaves the order of a selection without an \<open>ORDER BY\<close> open: here it is the order
  of insertion.
\<close>

section \<open>Tables\<close>

datatype SqlxError = SqlxError string

record FollowerRow =
  fr_actor :: string
  fr_follower :: string
  fr_inbox :: "string option"
  fr_accepted_at :: int

record FollowingRow =
  fg_actor :: string
  fg_target :: string
  fg_requested_at :: int
  fg_accepted :: bool

record InboxRecord =
  ib_id :: string
  ib_actor :: string
  ib_activity :: string
  ib_received_at :: int

record OutboxRecord =
  ob_id :: string
  ob_actor :: string
  ob_activity :: string
  ob_created_at :: int
  ob_state :: string

record QueueRecord =
  dq_id :: int
  dq_activity :: string
  dq_inbox :: string
  dq_attempts :: int
  dq_next_retry :: int
  dq_last_error :: "string option"

record ActorRecord =
  ar_id :: string
  ar_data :: string
  ar_fetched_at :: int

record ApStore =
  as_followers :: "FollowerRow list"
  as_following :: "FollowingRow list"
  as_inbox :: "InboxRecord list"
  as_outbox :: "OutboxRecord list"
  as_queue :: "QueueRecord list"
  as_queue_seq :: int
  as_actors :: "ActorRecord list"
  as_faults :: "SqlxError option list"

definition ApStore_empty :: ApStore where
  "ApStore_empty = \<lparr>as_followers = [], as_following = [], as_inbox = [], as_outbox = [], as_queue = [], as_queue_seq = 0,
     as_actors = [], as_faults = []\<rparr>"

text \<open>What the crate hands out.\<close>

record InboxRow =
  ix_id :: string
  ix_actor_id :: string
  ix_activity :: json
  ix_received_at :: int

record DeliveryItem =
  di_queue_id :: int
  di_activity_id :: string
  di_inbox_url :: string
  di_attempts :: int
  di_last_error :: "string option"

record ap_json =
  aj_to_string :: "json \<Rightarrow> string option"
  aj_from_str :: "string \<Rightarrow> json option"

text \<open>One statement.\<close>

definition exec :: "ApStore \<Rightarrow> (ApStore \<Rightarrow> ApStore \<times> 'a) \<Rightarrow> ApStore \<times> (SqlxError + 'a)" where
  "exec s stmt = (let s1 = s\<lparr>as_faults := tl (as_faults s)\<rparr> in
     case as_faults s of
       Some e # _ \<Rightarrow> (s1, Inl e)
     | _ \<Rightarrow> (let (s2, a) = stmt s1 in (s2, Inr a)))"

text \<open>\<open>INSERT OR REPLACE\<close>: the rows with the same primary key go, the new row comes. An update and a
  deletion report the number of rows they met.\<close>

definition replace_row :: "('r \<Rightarrow> bool) \<Rightarrow> 'r \<Rightarrow> 'r list \<Rightarrow> 'r list" where
  "replace_row same r rows = filter (\<lambda>x. \<not> same x) rows @ [r]"

definition update_rows :: "('r \<Rightarrow> bool) \<Rightarrow> ('r \<Rightarrow> 'r) \<Rightarrow> 'r list \<Rightarrow> 'r list" where
  "update_rows p f rows = map (\<lambda>x. if p x then f x else x) rows"

definition count_rows :: "('r \<Rightarrow> bool) \<Rightarrow> 'r list \<Rightarrow> nat" where
  "count_rows p rows = length (filter p rows)"

section \<open>Followers and following\<close>

definition add_follower :: "ApStore \<Rightarrow> int \<Rightarrow> string \<Rightarrow> string \<Rightarrow> string option \<Rightarrow> ApStore \<times> (SqlxError + unit)" where
  "add_follower s now actor follower inbox = exec s (\<lambda>s. (s\<lparr>as_followers :=
     replace_row (\<lambda>r. fr_actor r = actor \<and> fr_follower r = follower)
       \<lparr>fr_actor = actor, fr_follower = follower, fr_inbox = inbox, fr_accepted_at = now\<rparr> (as_followers s)\<rparr>, ()))"

definition remove_follower :: "ApStore \<Rightarrow> string \<Rightarrow> string \<Rightarrow> ApStore \<times> (SqlxError + nat)" where
  "remove_follower s actor follower = exec s (\<lambda>s.
     let p = (\<lambda>r. fr_actor r = actor \<and> fr_follower r = follower)
     in (s\<lparr>as_followers := filter (\<lambda>r. \<not> p r) (as_followers s)\<rparr>, count_rows p (as_followers s)))"

definition is_follower :: "ApStore \<Rightarrow> string \<Rightarrow> string \<Rightarrow> ApStore \<times> (SqlxError + bool)" where
  "is_follower s actor follower = exec s (\<lambda>s. (s, list_ex (\<lambda>r. fr_actor r = actor \<and> fr_follower r = follower) (as_followers s)))"

definition inboxes_of :: "FollowerRow list \<Rightarrow> string \<Rightarrow> string list" where
  "inboxes_of rows actor = remdups (List.map_filter (\<lambda>r. if fr_actor r = actor then fr_inbox r else None) rows)"

definition follower_inboxes :: "ApStore \<Rightarrow> string \<Rightarrow> ApStore \<times> (SqlxError + string list)" where
  "follower_inboxes s actor = exec s (\<lambda>s. (s, inboxes_of (as_followers s) actor))"

definition get_follower_inboxes :: "ApStore \<Rightarrow> string \<Rightarrow> ApStore \<times> (SqlxError + string list)" where
  "get_follower_inboxes s actor = follower_inboxes s actor"

definition follower_count :: "ApStore \<Rightarrow> string \<Rightarrow> ApStore \<times> (SqlxError + nat)" where
  "follower_count s actor = exec s (\<lambda>s. (s, count_rows (\<lambda>r. fr_actor r = actor) (as_followers s)))"

definition add_following :: "ApStore \<Rightarrow> int \<Rightarrow> string \<Rightarrow> string \<Rightarrow> ApStore \<times> (SqlxError + unit)" where
  "add_following s now actor target = exec s (\<lambda>s. (s\<lparr>as_following :=
     replace_row (\<lambda>r. fg_actor r = actor \<and> fg_target r = target)
       \<lparr>fg_actor = actor, fg_target = target, fg_requested_at = now, fg_accepted = False\<rparr> (as_following s)\<rparr>, ()))"

definition accept_following :: "ApStore \<Rightarrow> string \<Rightarrow> string \<Rightarrow> ApStore \<times> (SqlxError + nat)" where
  "accept_following s actor target = exec s (\<lambda>s.
     let p = (\<lambda>r. fg_actor r = actor \<and> fg_target r = target)
     in (s\<lparr>as_following := update_rows p (fg_accepted_update (\<lambda>_. True)) (as_following s)\<rparr>, count_rows p (as_following s)))"

definition is_following :: "ApStore \<Rightarrow> string \<Rightarrow> string \<Rightarrow> ApStore \<times> (SqlxError + bool)" where
  "is_following s actor target = exec s (\<lambda>s. (s, case find (\<lambda>r. fg_actor r = actor \<and> fg_target r = target) (as_following s) of
     Some r \<Rightarrow> fg_accepted r | None \<Rightarrow> False))"

section \<open>Inbox and outbox\<close>

definition json_text :: "ap_json \<Rightarrow> json \<Rightarrow> string" where
  "json_text J v = unwrap_or (aj_to_string J v) ''{}''"

definition record_inbox :: "ap_json \<Rightarrow> ApStore \<Rightarrow> int \<Rightarrow> string \<Rightarrow> json \<Rightarrow> ApStore \<times> (SqlxError + bool)" where
  "record_inbox J s now actor activity =
     (let id = unwrap_or (as_str (json_get activity ''id'')) [] in
      if id = [] then (s, Inr False)
      else exec s (\<lambda>s.
        if list_ex (\<lambda>r. ib_id r = id) (as_inbox s) then (s, False)
        else (s\<lparr>as_inbox := as_inbox s @ [\<lparr>ib_id = id, ib_actor = actor, ib_activity = json_text J activity, ib_received_at = now\<rparr>]\<rparr>, True)))"

definition get_inbox :: "ap_json \<Rightarrow> ApStore \<Rightarrow> string \<Rightarrow> ApStore \<times> (SqlxError + InboxRow option)" where
  "get_inbox J s rid = exec s (\<lambda>s. (s, map_option (\<lambda>r. \<lparr>ix_id = ib_id r, ix_actor_id = ib_actor r,
       ix_activity = unwrap_or (aj_from_str J (ib_activity r)) JNull, ix_received_at = ib_received_at r\<rparr>)
     (find (\<lambda>r. ib_id r = rid) (as_inbox s))))"

definition inbox_count :: "ApStore \<Rightarrow> ApStore \<times> (SqlxError + nat)" where
  "inbox_count s = exec s (\<lambda>s. (s, length (as_inbox s)))"

text \<open>\<open>uuid\<close> is the random identifier an activity without one gets.\<close>

definition record_outbox :: "ap_json \<Rightarrow> ApStore \<Rightarrow> int \<Rightarrow> string \<Rightarrow> string \<Rightarrow> json \<Rightarrow> ApStore \<times> (SqlxError + string)" where
  "record_outbox J s now uuid actor activity =
     (let id = unwrap_or (as_str (json_get activity ''id'')) (''urn:uuid:'' @ uuid) in
      exec s (\<lambda>s. (s\<lparr>as_outbox := replace_row (\<lambda>r. ob_id r = id)
        \<lparr>ob_id = id, ob_actor = actor, ob_activity = json_text J activity, ob_created_at = now, ob_state = ''pending''\<rparr> (as_outbox s)\<rparr>, id)))"

definition mark_outbox_state :: "ApStore \<Rightarrow> string \<Rightarrow> string \<Rightarrow> ApStore \<times> (SqlxError + nat)" where
  "mark_outbox_state s rid state = exec s (\<lambda>s.
     (s\<lparr>as_outbox := update_rows (\<lambda>r. ob_id r = rid) (ob_state_update (\<lambda>_. state)) (as_outbox s)\<rparr>,
      count_rows (\<lambda>r. ob_id r = rid) (as_outbox s)))"

definition outbox_count :: "ApStore \<Rightarrow> ApStore \<times> (SqlxError + nat)" where
  "outbox_count s = exec s (\<lambda>s. (s, length (as_outbox s)))"

definition load_activity :: "ap_json \<Rightarrow> ApStore \<Rightarrow> string \<Rightarrow> ApStore \<times> (SqlxError + json option)" where
  "load_activity J s rid = exec s (\<lambda>s. (s, Option.bind (find (\<lambda>r. ob_id r = rid) (as_outbox s)) (\<lambda>r. aj_from_str J (ob_activity r))))"

section \<open>The delivery queue\<close>

definition enqueue_delivery :: "ApStore \<Rightarrow> int \<Rightarrow> string \<Rightarrow> string \<Rightarrow> ApStore \<times> (SqlxError + int)" where
  "enqueue_delivery s now activity inbox = exec s (\<lambda>s. let id = as_queue_seq s + 1 in
     (s\<lparr>as_queue := as_queue s @ [\<lparr>dq_id = id, dq_activity = activity, dq_inbox = inbox, dq_attempts = 0, dq_next_retry = now, dq_last_error = None\<rparr>],
        as_queue_seq := id\<rparr>, id))"

definition item_of :: "QueueRecord \<Rightarrow> DeliveryItem" where
  "item_of r = \<lparr>di_queue_id = dq_id r, di_activity_id = dq_activity r, di_inbox_url = dq_inbox r, di_attempts = dq_attempts r,
     di_last_error = dq_last_error r\<rparr>"

definition first_due :: "int \<Rightarrow> QueueRecord list \<Rightarrow> QueueRecord option" where
  "first_due now rows = (case sort_key dq_id (filter (\<lambda>r. dq_next_retry r \<le> now) rows) of [] \<Rightarrow> None | r # _ \<Rightarrow> Some r)"

definition next_due_delivery :: "ApStore \<Rightarrow> int \<Rightarrow> ApStore \<times> (SqlxError + DeliveryItem option)" where
  "next_due_delivery s now = exec s (\<lambda>s. (s, map_option item_of (first_due now (as_queue s))))"

definition drop_delivery :: "ApStore \<Rightarrow> int \<Rightarrow> ApStore \<times> (SqlxError + nat)" where
  "drop_delivery s rid = exec s (\<lambda>s.
     (s\<lparr>as_queue := filter (\<lambda>r. dq_id r \<noteq> rid) (as_queue s)\<rparr>, count_rows (\<lambda>r. dq_id r = rid) (as_queue s)))"

definition SECOND :: int where "SECOND = 1000000000"

definition reschedule_delivery :: "ApStore \<Rightarrow> int \<Rightarrow> int \<Rightarrow> int \<Rightarrow> string \<Rightarrow> ApStore \<times> (SqlxError + nat)" where
  "reschedule_delivery s now rid delay_secs err = exec s (\<lambda>s.
     (s\<lparr>as_queue := update_rows (\<lambda>r. dq_id r = rid)
         (\<lambda>r. r\<lparr>dq_attempts := dq_attempts r + 1, dq_next_retry := now + max delay_secs 0 * SECOND, dq_last_error := Some err\<rparr>) (as_queue s)\<rparr>,
      count_rows (\<lambda>r. dq_id r = rid) (as_queue s)))"

section \<open>The actor cache\<close>

definition cache_actor :: "ap_json \<Rightarrow> ApStore \<Rightarrow> int \<Rightarrow> string \<Rightarrow> json \<Rightarrow> ApStore \<times> (SqlxError + unit)" where
  "cache_actor J s now actor data = exec s (\<lambda>s. (s\<lparr>as_actors := replace_row (\<lambda>r. ar_id r = actor)
     \<lparr>ar_id = actor, ar_data = json_text J data, ar_fetched_at = now\<rparr> (as_actors s)\<rparr>, ()))"

definition get_cached_actor :: "ap_json \<Rightarrow> ApStore \<Rightarrow> string \<Rightarrow> ApStore \<times> (SqlxError + (json \<times> int) option)" where
  "get_cached_actor J s actor = exec s (\<lambda>s. (s, map_option (\<lambda>r. (unwrap_or (aj_from_str J (ar_data r)) JNull, ar_fetched_at r))
     (find (\<lambda>r. ar_id r = actor) (as_actors s))))"

definition is_actor_cache_fresh :: "ap_json \<Rightarrow> ApStore \<Rightarrow> int \<Rightarrow> string \<Rightarrow> int \<Rightarrow> ApStore \<times> (SqlxError + bool)" where
  "is_actor_cache_fresh J s now actor max_age = and_then (get_cached_actor J s actor) (\<lambda>s row.
     (s, Inr (case row of Some (_, fetched_at) \<Rightarrow> fetched_at \<ge> now - max_age | None \<Rightarrow> False)))"

section \<open>Statements\<close>

lemma exec_cases:
  "exec s stmt = (s', r) \<Longrightarrow>
     (\<exists>e fs. as_faults s = Some e # fs \<and> s' = s\<lparr>as_faults := fs\<rparr> \<and> r = Inl e)
   \<or> (\<exists>s1 a. stmt (s\<lparr>as_faults := tl (as_faults s)\<rparr>) = (s1, a) \<and> s' = s1 \<and> r = Inr a \<and> (as_faults s = [] \<or> hd (as_faults s) = None))"
  by (cases "as_faults s"; cases "hd (as_faults s)") (auto simp: exec_def split: prod.splits)

lemma exec_ok: "as_faults s = [] \<Longrightarrow> exec s stmt = (case stmt s of (s1, a) \<Rightarrow> (s1, Inr a))"
  by (cases s) (simp add: exec_def)

text \<open>The statements of the store as one type, so that sequences of them can be run.\<close>

datatype ap_statement =
    AddFollower int string string "string option"
  | RemoveFollower string string
  | AddFollowing int string string
  | AcceptFollowing string string
  | RecordInbox int string json
  | RecordOutbox int string string json
  | MarkOutbox string string
  | EnqueueDelivery int string string
  | DropDelivery int
  | RescheduleDelivery int int int string
  | CacheActor int string json

fun run_statement :: "ap_json \<Rightarrow> ap_statement \<Rightarrow> ApStore \<Rightarrow> ApStore" where
  "run_statement J (AddFollower now a f i) s = fst (add_follower s now a f i)"
| "run_statement J (RemoveFollower a f) s = fst (remove_follower s a f)"
| "run_statement J (AddFollowing now a t) s = fst (add_following s now a t)"
| "run_statement J (AcceptFollowing a t) s = fst (accept_following s a t)"
| "run_statement J (RecordInbox now a v) s = fst (record_inbox J s now a v)"
| "run_statement J (RecordOutbox now u a v) s = fst (record_outbox J s now u a v)"
| "run_statement J (MarkOutbox i st) s = fst (mark_outbox_state s i st)"
| "run_statement J (EnqueueDelivery now a u) s = fst (enqueue_delivery s now a u)"
| "run_statement J (DropDelivery q) s = fst (drop_delivery s q)"
| "run_statement J (RescheduleDelivery now q d e) s = fst (reschedule_delivery s now q d e)"
| "run_statement J (CacheActor now a v) s = fst (cache_actor J s now a v)"

text \<open>The schema: primary keys are unique, queue identifiers grow and were all handed out.\<close>

definition schema_ok :: "ApStore \<Rightarrow> bool" where
  "schema_ok s \<longleftrightarrow> distinct (map (\<lambda>r. (fr_actor r, fr_follower r)) (as_followers s))
     \<and> distinct (map (\<lambda>r. (fg_actor r, fg_target r)) (as_following s))
     \<and> distinct (map ib_id (as_inbox s)) \<and> list_all (\<lambda>r. ib_id r \<noteq> []) (as_inbox s)
     \<and> distinct (map ob_id (as_outbox s)) \<and> distinct (map ar_id (as_actors s))
     \<and> sorted_wrt (<) (map dq_id (as_queue s)) \<and> list_all (\<lambda>r. dq_id r \<le> as_queue_seq s \<and> 0 \<le> dq_attempts r) (as_queue s)"

lemma distinct_map_filter: "distinct (map f xs) \<Longrightarrow> distinct (map f (filter p xs))"
  by (induction xs) auto

lemma replace_row_distinct:
  assumes "distinct (map f rows)" "\<And>x. same x \<longleftrightarrow> f x = f r"
  shows "distinct (map f (replace_row same r rows))"
  unfolding replace_row_def assms(2) using distinct_map_filter [OF assms(1)] by auto

lemma update_rows_map: "(\<And>x. f (g x) = f x) \<Longrightarrow> map f (update_rows p g rows) = map f rows"
  by (simp add: update_rows_def comp_def if_distrib cong: if_cong)

lemma set_update_rows: "set (update_rows p g rows) = (\<lambda>x. if p x then g x else x) ` set rows"
  by (simp add: update_rows_def)

lemma sorted_wrt_map_filter: "sorted_wrt r (map f xs) \<Longrightarrow> sorted_wrt r (map f (filter p xs))"
  by (induction xs) auto

lemma exec_schema:
  assumes "schema_ok s" "\<And>s. schema_ok s \<Longrightarrow> schema_ok (fst (stmt s))"
  shows "schema_ok (fst (exec s stmt))"
proof -
  have "schema_ok (s\<lparr>as_faults := fs\<rparr>)" for fs using assms(1) by (simp add: schema_ok_def)
  then show ?thesis using assms(2) exec_cases [of s stmt "fst (exec s stmt)" "snd (exec s stmt)"] by (metis fst_conv surjective_pairing)
qed

lemmas statement_defs = add_follower_def remove_follower_def add_following_def accept_following_def record_inbox_def record_outbox_def
  mark_outbox_state_def enqueue_delivery_def drop_delivery_def reschedule_delivery_def cache_actor_def

lemma statement_schema: "schema_ok s \<Longrightarrow> schema_ok (run_statement J st s)"
  by (cases st; simp add: statement_defs Let_def; intro conjI impI exec_schema)
     (auto simp: schema_ok_def replace_row_distinct distinct_map_filter update_rows_map sorted_wrt_map_filter list_all_iff
        sorted_wrt_append set_update_rows list_ex_iff)

lemma statements_schema: "schema_ok s \<Longrightarrow> schema_ok (fold (run_statement J) sts s)"
  by (induction sts arbitrary: s) (simp_all add: statement_schema)

lemma store_well_formed_start: "schema_ok ApStore_empty"
  by (simp add: ApStore_empty_def schema_ok_def)


end
