(* ===== verification/Ap_Signature.thy ===== *)
theory Ap_Signature
  imports Webid
begin

text \<open>
  HTTP signatures of the ActivityPub crate (\<open>solid-pod-rs-activitypub/src/http_sig.rs\<close>, \<open>error.rs\<close>): the parser of
  the \<open>Signature\<close> header, the signature base, verification of inbound requests and signing of deliveries. RSA,
  SHA-256, Base64, URL parsing and the fetch of an actor document are parameters. A header map is an
  association list with distinct lower-case names.
\<close>

section \<open>Data\<close>

datatype SigError =
    MissingHeader string
  | MalformedSignature string
  | MissingKeyId
  | UnsupportedAlgorithm string
  | DigestMismatch
  | ActorFetch string string
  | NoPublicKey
  | VerifyFailed string
  | SigBase64 string
  | SigRsa string
  | SigUrl string

fun SigError_text :: "SigError \<Rightarrow> string" where
  "SigError_text (MissingHeader h) = ''missing required header: '' @ h"
| "SigError_text (MalformedSignature e) = ''malformed Signature header: '' @ e"
| "SigError_text MissingKeyId = ''missing keyId in signature''"
| "SigError_text (UnsupportedAlgorithm a) = ''unsupported signature algorithm: '' @ a"
| "SigError_text DigestMismatch = ''digest mismatch (body tampered)''"
| "SigError_text (ActorFetch u e) = ''failed to fetch remote actor key at '' @ u @ '': '' @ e"
| "SigError_text NoPublicKey = ''actor has no usable public key''"
| "SigError_text (VerifyFailed e) = ''signature verification failed: '' @ e"
| "SigError_text (SigBase64 e) = ''base64 decode error: '' @ e"
| "SigError_text (SigRsa e) = ''RSA error: '' @ e"
| "SigError_text (SigUrl e) = ''URL parse error: '' @ e"

record ApSignedRequest =
  asr_method :: string
  asr_path :: string
  asr_headers :: "(string \<times> string) list"
  asr_body :: bytes

definition ApSignedRequest_new :: "string \<Rightarrow> string \<Rightarrow> bytes \<Rightarrow> ApSignedRequest" where
  "ApSignedRequest_new meth path body = \<lparr>asr_method = meth, asr_path = path, asr_headers = [], asr_body = body\<rparr>"

definition with_header :: "ApSignedRequest \<Rightarrow> string \<Rightarrow> string \<Rightarrow> ApSignedRequest" where
  "with_header r name v = r\<lparr>asr_headers := AList.update (to_ascii_lowercase name) v (asr_headers r)\<rparr>"

definition asr_get :: "ApSignedRequest \<Rightarrow> string \<Rightarrow> string option" where
  "asr_get r name = map_of (asr_headers r) name"

record OutboundRequest =
  obr_method :: string
  obr_url :: string
  obr_headers :: "(string \<times> string) list"
  obr_body :: bytes

record VerifiedActor =
  va_key_id :: string
  va_actor_url :: string
  va_public_key_pem :: string

record SignatureHeader =
  sh_key_id :: string
  sh_algorithm :: string
  sh_headers :: "string list"
  sh_signature_b64 :: string

text \<open>What the code takes from other crates.\<close>

record parsed_url =
  url_host :: "string option"
  url_path :: string
  url_query :: "string option"

record ('priv, 'pub, 'sig) http_crypto =
  hc_sha256 :: "bytes \<Rightarrow> bytes"
  hc_b64_encode :: "bytes \<Rightarrow> string"
  hc_b64_decode :: "string \<Rightarrow> string + bytes"
  hc_public_from_pem :: "string \<Rightarrow> string + 'pub"
  hc_private_from_pem :: "string \<Rightarrow> string + 'priv"
  hc_sign :: "'priv \<Rightarrow> bytes \<Rightarrow> 'sig"
  hc_signature_bytes :: "'sig \<Rightarrow> bytes"
  hc_signature_of_bytes :: "bytes \<Rightarrow> string + 'sig"
  hc_verify :: "'pub \<Rightarrow> bytes \<Rightarrow> 'sig \<Rightarrow> string + unit"
  hc_parse_url :: "string \<Rightarrow> string + parsed_url"

section \<open>Resolving the key of an actor\<close>

text \<open>The answer to a \<open>GET\<close>: the status with its text, and the body read as JSON.\<close>

record fetch_answer =
  fa_status :: nat
  fa_status_text :: string
  fa_json :: "string + json"

definition resolve_http :: "(string \<Rightarrow> string \<Rightarrow> string + fetch_answer) \<Rightarrow> string \<Rightarrow> SigError + VerifiedActor" where
  "resolve_http get key_id =
     (let actor_url = (case split_once (CHR ''#'') key_id of Some (u, _) \<Rightarrow> u | None \<Rightarrow> key_id) in
      rbind (map_err (ActorFetch actor_url) (get actor_url ''application/activity+json'')) (\<lambda>resp.
      if \<not> (200 \<le> fa_status resp \<and> fa_status resp < 300) then Inl (ActorFetch actor_url (''status '' @ fa_status_text resp))
      else rbind (map_err (ActorFetch actor_url) (fa_json resp)) (\<lambda>doc.
      rbind (ok_or (as_str (Option.bind (json_get doc ''publicKey'') (\<lambda>k. json_get k ''publicKeyPem''))) NoPublicKey) (\<lambda>pem.
      Inr \<lparr>va_key_id = key_id, va_actor_url = actor_url, va_public_key_pem = pem\<rparr>))))"

section \<open>The \<open>Signature\<close> header\<close>

definition is_ascii_whitespace :: "char \<Rightarrow> bool" where
  "is_ascii_whitespace c \<longleftrightarrow> c = CHR 0x20 \<or> c = CHR 0x09 \<or> c = CHR 0x0A \<or> c = CHR 0x0C \<or> c = CHR 0x0D"

fun split_ascii_ws :: "string \<Rightarrow> string \<Rightarrow> string list" where
  "split_ascii_ws cur [] = (if cur = [] then [] else [cur])"
| "split_ascii_ws cur (c # cs) =
     (if is_ascii_whitespace c then (if cur = [] then split_ascii_ws [] cs else cur # split_ascii_ws [] cs)
      else split_ascii_ws (cur @ [c]) cs)"

record attr_scan =
  sc_attrs :: "(string \<times> string) list"
  sc_key :: string
  sc_val :: string
  sc_in_val :: bool
  sc_in_quote :: bool
  sc_expecting_eq :: bool

definition scan_start :: attr_scan where
  "scan_start = \<lparr>sc_attrs = [], sc_key = [], sc_val = [], sc_in_val = False, sc_in_quote = False, sc_expecting_eq = False\<rparr>"

definition push_attr :: "attr_scan \<Rightarrow> attr_scan" where
  "push_attr st = st\<lparr>sc_attrs := sc_attrs st @ [(to_ascii_lowercase (sc_key st), sc_val st)], sc_key := [], sc_val := []\<rparr>"

definition scan_char :: "char \<Rightarrow> attr_scan \<Rightarrow> attr_scan" where
  "scan_char ch st =
     (if \<not> sc_in_val st then
        (if ch = CHR ''='' then st\<lparr>sc_in_val := True, sc_expecting_eq := False\<rparr>
         else if (ch = CHR '','' \<or> ch = CHR '' '' \<or> ch = CHR 0x09) \<and> sc_key st = [] then st
         else if is_ascii_whitespace ch then st\<lparr>sc_expecting_eq := True\<rparr>
         else if sc_expecting_eq st then st\<lparr>sc_key := sc_key st @ [ch], sc_expecting_eq := False\<rparr>
         else st\<lparr>sc_key := sc_key st @ [ch]\<rparr>)
      else
        (if ch = CHR 0x22 then
           (if sc_in_quote st then (push_attr st)\<lparr>sc_in_quote := False, sc_in_val := False\<rparr>
            else st\<lparr>sc_in_quote := True\<rparr>)
         else if ch = CHR '','' \<and> \<not> sc_in_quote st then
           (if sc_key st \<noteq> [] then push_attr st else st)\<lparr>sc_in_val := False\<rparr>
         else if sc_in_quote st \<or> \<not> is_ascii_whitespace ch then st\<lparr>sc_val := sc_val st @ [ch]\<rparr>
         else st))"

definition scan_attrs :: "string \<Rightarrow> (string \<times> string) list" where
  "scan_attrs raw = (let st = fold scan_char raw scan_start in
     if sc_key st \<noteq> [] \<and> (sc_in_val st \<or> sc_val st \<noteq> []) then sc_attrs st @ [(to_ascii_lowercase (sc_key st), sc_val st)]
     else sc_attrs st)"

definition set_attr :: "string \<times> string \<Rightarrow> SignatureHeader \<Rightarrow> SignatureHeader" where
  "set_attr kv out = (let (k, v) = kv in
     if k = ''keyid'' then out\<lparr>sh_key_id := v\<rparr>
     else if k = ''algorithm'' then out\<lparr>sh_algorithm := to_ascii_lowercase v\<rparr>
     else if k = ''headers'' then out\<lparr>sh_headers := map to_ascii_lowercase (split_ascii_ws [] v)\<rparr>
     else if k = ''signature'' then out\<lparr>sh_signature_b64 := v\<rparr>
     else out)"

definition ap_parse_signature_header :: "string \<Rightarrow> SigError + SignatureHeader" where
  "ap_parse_signature_header raw =
     (let out = fold set_attr (scan_attrs raw) \<lparr>sh_key_id = [], sh_algorithm = [], sh_headers = [], sh_signature_b64 = []\<rparr> in
      if sh_key_id out = [] then Inl MissingKeyId
      else if sh_signature_b64 out = [] then Inl (MalformedSignature ''missing signature= value'')
      else Inr (out\<lparr>sh_algorithm := (if sh_algorithm out = [] then ''rsa-sha256'' else sh_algorithm out),
                    sh_headers := (if sh_headers out = [] then [''date''] else sh_headers out)\<rparr>))"

section \<open>Verifying\<close>

fun base_lines :: "ApSignedRequest \<Rightarrow> string list \<Rightarrow> SigError + string list" where
  "base_lines req [] = Inr []"
| "base_lines req (h # hs) =
     rbind (if h = ''(request-target)''
            then Inr (''(request-target): '' @ to_ascii_lowercase (asr_method req) @ '' '' @ asr_path req)
            else rbind (ok_or (asr_get req h) (VerifyFailed (''missing covered header: '' @ h))) (\<lambda>v. Inr (h @ '': '' @ v)))
       (\<lambda>l. rbind (base_lines req hs) (\<lambda>ls. Inr (l # ls)))"

definition ap_signature_base :: "ApSignedRequest \<Rightarrow> string list \<Rightarrow> SigError + string" where
  "ap_signature_base req header_list = rbind (base_lines req header_list) (\<lambda>ls. Inr (join [CHR 0x0A] ls))"

definition digest_header :: "('priv, 'pub, 'sig) http_crypto \<Rightarrow> bytes \<Rightarrow> string" where
  "digest_header hc body = ''SHA-256='' @ hc_b64_encode hc (hc_sha256 hc body)"

definition digest_accepted :: "('priv, 'pub, 'sig) http_crypto \<Rightarrow> string \<Rightarrow> bytes \<Rightarrow> bool" where
  "digest_accepted hc received body \<longleftrightarrow>
     received = digest_header hc body \<or> to_ascii_lowercase received = to_ascii_lowercase (digest_header hc body)
     \<or> received = ''sha-256=:'' @ hc_b64_encode hc (hc_sha256 hc body) @ '':''"

definition check_digest :: "('priv, 'pub, 'sig) http_crypto \<Rightarrow> ApSignedRequest \<Rightarrow> string list \<Rightarrow> SigError + unit" where
  "check_digest hc req covered =
     (if ''digest'' \<in> set covered
      then rbind (ok_or (asr_get req ''digest'') (MissingHeader ''digest'')) (\<lambda>received.
           if digest_accepted hc received (asr_body req) then Inr () else Inl DigestMismatch)
      else Inr ())"

definition ap_verify_request_signature :: "('priv, 'pub, 'sig) http_crypto \<Rightarrow> ApSignedRequest \<Rightarrow> (string \<Rightarrow> SigError + VerifiedActor) \<Rightarrow> SigError + VerifiedActor" where
  "ap_verify_request_signature hc req resolver =
     rbind (ok_or (asr_get req ''signature'') (MissingHeader ''signature'')) (\<lambda>sig_raw.
     rbind (ap_parse_signature_header sig_raw) (\<lambda>parsed.
     if sh_algorithm parsed \<noteq> ''rsa-sha256'' \<and> sh_algorithm parsed \<noteq> ''hs2019'' then Inl (UnsupportedAlgorithm (sh_algorithm parsed))
     else rbind (check_digest hc req (sh_headers parsed)) (\<lambda>_.
     rbind (resolver (sh_key_id parsed)) (\<lambda>actor.
     rbind (map_err SigRsa (hc_public_from_pem hc (va_public_key_pem actor))) (\<lambda>pub_key.
     rbind (ap_signature_base req (sh_headers parsed)) (\<lambda>base.
     rbind (map_err SigBase64 (hc_b64_decode hc (sh_signature_b64 parsed))) (\<lambda>sig_bytes.
     rbind (map_err MalformedSignature (hc_signature_of_bytes hc sig_bytes)) (\<lambda>sig.
     rbind (map_err VerifyFailed (hc_verify hc pub_key base sig)) (\<lambda>_. Inr actor)))))))))"

section \<open>Signing\<close>

definition request_path :: "parsed_url \<Rightarrow> string" where
  "request_path u = (case url_query u of Some q \<Rightarrow> url_path u @ ''?'' @ q | None \<Rightarrow> url_path u)"

definition signing_base :: "string \<Rightarrow> string \<Rightarrow> string \<Rightarrow> string \<Rightarrow> string \<Rightarrow> string" where
  "signing_base meth path host date digest = join [CHR 0x0A]
     [''(request-target): '' @ to_ascii_lowercase meth @ '' '' @ path, ''host: '' @ host, ''date: '' @ date, ''digest: '' @ digest]"

definition covered_headers :: "string list" where
  "covered_headers = [''(request-target)'', ''host'', ''date'', ''digest'']"

definition signature_header_text :: "string \<Rightarrow> string \<Rightarrow> string" where
  "signature_header_text key_id sig_b64 = (let q = [CHR 0x22] in
     ''keyId='' @ q @ key_id @ q @ '',algorithm='' @ q @ ''rsa-sha256'' @ q @ '',headers='' @ q @ join '' '' covered_headers @ q
     @ '',signature='' @ q @ sig_b64 @ q)"

text \<open>\<open>date\<close> is the rendered clock.\<close>

definition ap_sign_request :: "('priv, 'pub, 'sig) http_crypto \<Rightarrow> string \<Rightarrow> OutboundRequest \<Rightarrow> string \<Rightarrow> string \<Rightarrow> SigError + OutboundRequest" where
  "ap_sign_request hc date req private_key_pem key_id =
     rbind (map_err SigUrl (hc_parse_url hc (obr_url req))) (\<lambda>url.
     rbind (ok_or (url_host url) (SigUrl ''url has no host'')) (\<lambda>host.
     let path = request_path url; digest = digest_header hc (obr_body req);
         base = signing_base (obr_method req) path host date digest
     in rbind (map_err SigRsa (hc_private_from_pem hc private_key_pem)) (\<lambda>sk.
        let sig_b64 = hc_b64_encode hc (hc_signature_bytes hc (hc_sign hc sk base))
        in Inr (req\<lparr>obr_headers :=
             filter (\<lambda>(n, _). to_ascii_lowercase n \<notin> {''host'', ''date'', ''digest'', ''signature''}) (obr_headers req)
             @ [(''Host'', host), (''Date'', date), (''Digest'', digest), (''Signature'', signature_header_text key_id sig_b64)]\<rparr>))))"

section \<open>The header that is written parses\<close>

definition clean :: "(string \<times> string) list \<Rightarrow> attr_scan" where
  "clean attrs = \<lparr>sc_attrs = attrs, sc_key = [], sc_val = [], sc_in_val = False, sc_in_quote = False, sc_expecting_eq = False\<rparr>"

definition key_char :: "char \<Rightarrow> bool" where
  "key_char c \<longleftrightarrow> c \<noteq> CHR ''='' \<and> c \<noteq> CHR '','' \<and> \<not> is_ascii_whitespace c"

lemma scan_key:
  "list_all key_char k \<Longrightarrow> \<not> sc_in_val st \<Longrightarrow> \<not> sc_expecting_eq st \<Longrightarrow> fold scan_char k st = st\<lparr>sc_key := sc_key st @ k\<rparr>"
  by (induction k arbitrary: st) (auto simp: scan_char_def key_char_def is_ascii_whitespace_def)

lemma scan_val:
  "CHR 0x22 \<notin> set v \<Longrightarrow> sc_in_val st \<Longrightarrow> sc_in_quote st \<Longrightarrow> fold scan_char v st = st\<lparr>sc_val := sc_val st @ v\<rparr>"
  by (induction v arbitrary: st) (auto simp: scan_char_def)

lemma scan_attr:
  assumes "list_all key_char k" "CHR 0x22 \<notin> set v"
  shows "fold scan_char (k @ ''='' @ [CHR 0x22] @ v @ [CHR 0x22]) (clean attrs) = clean (attrs @ [(to_ascii_lowercase k, v)])"
  using assms by (simp add: scan_key scan_val clean_def) (simp add: scan_char_def scan_val assms(2) push_attr_def)

lemma scan_comma: "scan_char (CHR '','') (clean attrs) = clean attrs"
  by (simp add: scan_char_def clean_def)

lemma scan_attr_then:
  assumes "list_all key_char k" "CHR 0x22 \<notin> set v"
  shows "fold scan_char (k @ ''='' @ [CHR 0x22] @ v @ [CHR 0x22] @ CHR '','' # rest) (clean attrs)
    = fold scan_char rest (clean (attrs @ [(to_ascii_lowercase k, v)]))"
proof -
  have "k @ ''='' @ [CHR 0x22] @ v @ [CHR 0x22] @ CHR '','' # rest = (k @ ''='' @ [CHR 0x22] @ v @ [CHR 0x22]) @ CHR '','' # rest" by simp
  then show ?thesis using scan_attr [OF assms, of attrs] scan_comma by (simp only: fold_append o_apply fold_simps)
qed

lemma scan_header_text:
  assumes "CHR 0x22 \<notin> set k" "CHR 0x22 \<notin> set s"
  shows "scan_attrs (signature_header_text k s) =
    [(''keyid'', k), (''algorithm'', ''rsa-sha256''), (''headers'', ''(request-target) host date digest''), (''signature'', s)]"
proof -
  let ?q = "[CHR 0x22]"
  have shape: "signature_header_text k s = ''keyId'' @ ''='' @ ?q @ k @ ?q @ CHR '','' # ''algorithm'' @ ''='' @ ?q @ ''rsa-sha256'' @ ?q @ CHR '','' #
     ''headers'' @ ''='' @ ?q @ ''(request-target) host date digest'' @ ?q @ CHR '','' # ''signature'' @ ''='' @ ?q @ s @ ?q"
    by (simp add: signature_header_text_def covered_headers_def)
  have keys: "list_all key_char ''keyId''" "list_all key_char ''algorithm''" "list_all key_char ''headers''" "list_all key_char ''signature''"
    by code_simp+
  have lower: "to_ascii_lowercase ''keyId'' = ''keyid''" "to_ascii_lowercase ''algorithm'' = ''algorithm''"
    "to_ascii_lowercase ''headers'' = ''headers''" "to_ascii_lowercase ''signature'' = ''signature''" by code_simp+
  have vals: "CHR 0x22 \<notin> set ''rsa-sha256''" "CHR 0x22 \<notin> set ''(request-target) host date digest''" by simp_all
  have "fold scan_char (signature_header_text k s) (clean []) =
     clean [(''keyid'', k), (''algorithm'', ''rsa-sha256''), (''headers'', ''(request-target) host date digest''), (''signature'', s)]"
    unfolding shape scan_attr_then [OF keys(1) assms(1)] scan_attr_then [OF keys(2) vals(1)] scan_attr_then [OF keys(3) vals(2)]
      scan_attr [OF keys(4) assms(2)] lower by simp
  moreover have "scan_start = clean []" by (simp add: scan_start_def clean_def)
  ultimately show ?thesis by (simp add: scan_attrs_def clean_def)
qed

lemma parse_header_text:
  assumes "CHR 0x22 \<notin> set k" "CHR 0x22 \<notin> set s" "k \<noteq> []" "s \<noteq> []"
  shows "ap_parse_signature_header (signature_header_text k s) =
    Inr \<lparr>sh_key_id = k, sh_algorithm = ''rsa-sha256'', sh_headers = covered_headers, sh_signature_b64 = s\<rparr>"
proof -
  have "map to_ascii_lowercase (split_ascii_ws [] ''(request-target) host date digest'') = covered_headers" by code_simp
  moreover have "to_ascii_lowercase ''rsa-sha256'' = ''rsa-sha256''" by code_simp
  moreover have "covered_headers \<noteq> []" by (simp add: covered_headers_def)
  ultimately show ?thesis
    using assms(3,4) by (simp add: ap_parse_signature_header_def scan_header_text [OF assms(1,2)] set_attr_def Let_def)
qed

section \<open>Signed requests verify\<close>

text \<open>The request as it arrives: every header line becomes an entry of the map.\<close>

definition received :: "OutboundRequest \<Rightarrow> string \<Rightarrow> ApSignedRequest" where
  "received req path = fold (\<lambda>(n, v) r. with_header r n v) (obr_headers req) (ApSignedRequest_new (obr_method req) path (obr_body req))"

lemma received_parts:
  "asr_method (received req path) = obr_method req \<and> asr_path (received req path) = path \<and> asr_body (received req path) = obr_body req"
proof -
  have "asr_method (fold (\<lambda>(n, v) r. with_header r n v) hs r) = asr_method r \<and> asr_path (fold (\<lambda>(n, v) r. with_header r n v) hs r) = asr_path r
    \<and> asr_body (fold (\<lambda>(n, v) r. with_header r n v) hs r) = asr_body r" for hs r
    by (induction hs arbitrary: r) (auto simp: with_header_def)
  then show ?thesis by (simp add: received_def ApSignedRequest_new_def)
qed

lemma asr_get_with_header: "asr_get (with_header r n v) m = (if m = to_ascii_lowercase n then Some v else asr_get r m)"
  by (simp add: asr_get_def with_header_def update_conv')

lemma received_header:
  assumes "obr_headers req = hs @ [(''Host'', a), (''Date'', b), (''Digest'', c), (''Signature'', d)]"
  shows "asr_get (received req path) ''host'' = Some a" "asr_get (received req path) ''date'' = Some b"
    "asr_get (received req path) ''digest'' = Some c" "asr_get (received req path) ''signature'' = Some d"
proof -
  have "to_ascii_lowercase ''Host'' = ''host''" "to_ascii_lowercase ''Date'' = ''date''" "to_ascii_lowercase ''Digest'' = ''digest''"
    "to_ascii_lowercase ''Signature'' = ''signature''" by code_simp+
  then show "asr_get (received req path) ''host'' = Some a" "asr_get (received req path) ''date'' = Some b"
    "asr_get (received req path) ''digest'' = Some c" "asr_get (received req path) ''signature'' = Some d"
    by (simp_all add: received_def assms asr_get_with_header)
qed

lemma base_of_covered:
  assumes "asr_get r ''host'' = Some a" "asr_get r ''date'' = Some b" "asr_get r ''digest'' = Some c"
  shows "ap_signature_base r covered_headers = Inr (signing_base (asr_method r) (asr_path r) a b c)"
  using assms by (simp add: ap_signature_base_def covered_headers_def signing_base_def)

text \<open>What the round trip takes from RSA and Base64: a key pair signs and verifies, encodings decode, and
  Base64 text is not empty and has no quotation mark.\<close>

definition sound_pair :: "('priv, 'pub, 'sig) http_crypto \<Rightarrow> 'priv \<Rightarrow> 'pub \<Rightarrow> bool" where
  "sound_pair hc sk pk \<longleftrightarrow> (\<forall>m. hc_verify hc pk m (hc_sign hc sk m) = Inr ()
     \<and> hc_signature_of_bytes hc (hc_signature_bytes hc (hc_sign hc sk m)) = Inr (hc_sign hc sk m)
     \<and> hc_signature_bytes hc (hc_sign hc sk m) \<noteq> [])"

definition sound_b64 :: "('priv, 'pub, 'sig) http_crypto \<Rightarrow> bool" where
  "sound_b64 hc \<longleftrightarrow> (\<forall>b. hc_b64_decode hc (hc_b64_encode hc b) = Inr b \<and> CHR 0x22 \<notin> set (hc_b64_encode hc b)
     \<and> (b \<noteq> [] \<longrightarrow> hc_b64_encode hc b \<noteq> []))"

text \<open>A delivery that was signed is accepted on arrival: for any key pair, whatever headers the request
  already had, the receiver that resolves the key identifier to the actor with the public key verifies the
  request, at the path the URL names, as coming from that actor. The identifier is any text without a
  quotation mark.\<close>

theorem outbound_request_verifies:
  assumes "ap_sign_request hc date req priv_pem key_id = Inr req'"
    and "hc_private_from_pem hc priv_pem = Inr sk" "hc_public_from_pem hc (va_public_key_pem actor) = Inr pk"
    and "sound_pair hc sk pk" "sound_b64 hc" "resolver key_id = Inr actor" "key_id \<noteq> []" "CHR 0x22 \<notin> set key_id"
  shows "\<exists>u. hc_parse_url hc (obr_url req) = Inr u \<and> ap_verify_request_signature hc (received req' (request_path u)) resolver = Inr actor"
proof -
  obtain u host where u: "hc_parse_url hc (obr_url req) = Inr u" "url_host u = Some host"
    using assms(1) unfolding ap_sign_request_def rbind_Inr_conv ok_or_Inr_conv map_err_Inr_conv by blast
  let ?digest = "digest_header hc (obr_body req)"
  let ?base = "signing_base (obr_method req) (request_path u) host date ?digest"
  let ?b64 = "hc_b64_encode hc (hc_signature_bytes hc (hc_sign hc sk ?base))"
  obtain hs where req': "req' = req\<lparr>obr_headers := hs @ [(''Host'', host), (''Date'', date), (''Digest'', ?digest), (''Signature'', signature_header_text key_id ?b64)]\<rparr>"
    using assms(1,2) u by (auto simp: ap_sign_request_def Let_def)
  let ?r = "received req' (request_path u)"
  have parts: "asr_method ?r = obr_method req" "asr_path ?r = request_path u" "asr_body ?r = obr_body req"
    using received_parts [of req' "request_path u"] by (simp_all add: req')
  have "obr_headers req' = hs @ [(''Host'', host), (''Date'', date), (''Digest'', ?digest), (''Signature'', signature_header_text key_id ?b64)]"
    by (simp add: req')
  note get = received_header [OF this, of "request_path u"]
  have base: "ap_signature_base ?r covered_headers = Inr ?base" using base_of_covered [OF get(1-3)] parts by simp
  have digest: "check_digest hc ?r covered_headers = Inr ()" using get(3) parts(3) by (simp add: check_digest_def digest_accepted_def)
  have "CHR 0x22 \<notin> set ?b64" "?b64 \<noteq> []" using assms(4,5) by (auto simp: sound_b64_def sound_pair_def)
  note parsed = parse_header_text [OF assms(8) this(1) assms(7) this(2)]
  have "hc_b64_decode hc ?b64 = Inr (hc_signature_bytes hc (hc_sign hc sk ?base))" using assms(5) by (simp add: sound_b64_def)
  then have "ap_verify_request_signature hc ?r resolver = Inr actor"
    using assms(3,4,6) by (simp add: ap_verify_request_signature_def get(4) parsed digest base sound_pair_def)
  then show ?thesis using u(1) by blast
qed

section \<open>Verified requests were signed\<close>

lemma split_ascii_ws_words: "w \<in> set (split_ascii_ws cur s) \<Longrightarrow> list_all (\<lambda>c. \<not> is_ascii_whitespace c) cur \<Longrightarrow> list_all (\<lambda>c. \<not> is_ascii_whitespace c) w"
  by (induction cur s rule: split_ascii_ws.induct) (auto split: if_splits)

lemma ascii_lower_whitespace [simp]: "is_ascii_whitespace (ascii_lower c) = is_ascii_whitespace c"
  unfolding is_ascii_whitespace_def by (simp add: ascii_lower_fixed)

definition word_list :: "string list \<Rightarrow> bool" where
  "word_list ws \<longleftrightarrow> list_all (list_all (\<lambda>c. \<not> is_ascii_whitespace c)) ws"

lemma set_attr_words: "word_list (sh_headers out) \<Longrightarrow> word_list (sh_headers (set_attr kv out))"
  by (auto simp: set_attr_def word_list_def list_all_iff to_ascii_lowercase_def Let_def split: prod.splits
      dest: split_ascii_ws_words [unfolded list_all_iff])

lemma parsed_words:
  assumes "ap_parse_signature_header raw = Inr p"
  shows "word_list (sh_headers p)" "sh_headers p \<noteq> []"
proof -
  have "word_list (sh_headers (fold set_attr kvs out))" if "word_list (sh_headers out)" for kvs out
    using that by (induction kvs arbitrary: out) (simp_all add: set_attr_words)
  moreover have "word_list []" "word_list [''date'']" by code_simp+
  ultimately show "word_list (sh_headers p)"
    using assms by (auto simp: ap_parse_signature_header_def Let_def split: if_splits)
  show "sh_headers p \<noteq> []" using assms by (auto simp: ap_parse_signature_header_def Let_def split: if_splits)
qed

lemma space_free: "list_all (\<lambda>c. \<not> is_ascii_whitespace c) h \<Longrightarrow> CHR '' '' \<notin> set h \<and> CHR 0x0A \<notin> set h"
  by (auto simp: list_all_iff is_ascii_whitespace_def)

text \<open>A line of the base gives its name back: the text before the first space, less the colon.\<close>

definition line_name :: "string \<Rightarrow> string" where
  "line_name l = takeWhile (\<lambda>c. c \<noteq> CHR '' '') l"

lemma line_name_line: "CHR '' '' \<notin> set h \<Longrightarrow> line_name (h @ CHR '':'' # CHR '' '' # v) = h @ '':''"
  by (induction h) (auto simp: line_name_def)

definition line_value :: "ApSignedRequest \<Rightarrow> string \<Rightarrow> string option" where
  "line_value req h = (if h = ''(request-target)'' then Some (to_ascii_lowercase (asr_method req) @ '' '' @ asr_path req) else asr_get req h)"

lemma base_lines_values:
  "base_lines req hs = Inr ls \<Longrightarrow> list_all2 (\<lambda>h l. \<exists>v. line_value req h = Some v \<and> l = h @ '': '' @ v) hs ls"
proof (induction hs arbitrary: ls)
  case (Cons h hs)
  then show ?case by (auto simp: rbind_Inr_conv ok_or_Inr_conv line_value_def split: if_splits)
qed simp

lemma base_lines_names:
  assumes "base_lines req hs = Inr ls" "word_list hs"
  shows "map line_name ls = map (\<lambda>h. h @ '':'') hs"
  using base_lines_values [OF assms(1)] assms(2)
  by (induction hs ls rule: list_all2_induct) (auto simp: word_list_def line_name_line dest!: space_free)

lemma line_value_update:
  "h \<noteq> ''(request-target)'' \<Longrightarrow> line_value (req\<lparr>asr_method := m, asr_path := p, asr_body := b\<rparr>) h = line_value req h"
  by (simp add: line_value_def asr_get_def)

text \<open>Header fields and request lines have no line breaks, and methods no spaces.\<close>

definition one_line :: "string \<Rightarrow> bool" where
  "one_line s \<longleftrightarrow> CHR 0x0A \<notin> set s"

definition wire_request :: "ApSignedRequest \<Rightarrow> bool" where
  "wire_request req \<longleftrightarrow> one_line (asr_path req) \<and> one_line (asr_method req) \<and> CHR '' '' \<notin> set (asr_method req)
     \<and> list_all (\<lambda>(n, v). one_line v) (asr_headers req)"

record sent_request =
  sr_method :: string
  sr_path :: string
  sr_host :: string
  sr_date :: string
  sr_body :: bytes

definition sent_base :: "('priv, 'pub, 'sig) http_crypto \<Rightarrow> sent_request \<Rightarrow> string" where
  "sent_base hc t = signing_base (sr_method t) (sr_path t) (sr_host t) (sr_date t) (digest_header hc (sr_body t))"

definition wire_sent :: "('priv, 'pub, 'sig) http_crypto \<Rightarrow> sent_request \<Rightarrow> bool" where
  "wire_sent hc t \<longleftrightarrow> one_line (sr_path t) \<and> one_line (sr_method t) \<and> CHR '' '' \<notin> set (sr_method t) \<and> one_line (sr_host t)
     \<and> one_line (sr_date t) \<and> one_line (digest_header hc (sr_body t))"


lemma join_lines: "ls \<noteq> [] \<Longrightarrow> list_all one_line ls \<Longrightarrow> split_on (CHR 0x0A) (join [CHR 0x0A] ls) = ls"
  by (rule split_on_join) (auto simp: one_line_def list_all_iff)

lemma one_line_lower [simp]: "one_line (to_ascii_lowercase s) = one_line s"
  by (simp add: one_line_def lowercase_fixed)

lemma line_value_one_line:
  assumes "wire_request req" "line_value req h = Some v"
  shows "one_line v"
proof (cases "h = ''(request-target)''")
  case True
  then show ?thesis using assms by (auto simp: line_value_def wire_request_def one_line_def lowercase_fixed)
next
  case False
  then have "(h, v) \<in> set (asr_headers req)" using assms(2) by (auto simp: line_value_def asr_get_def dest: map_of_SomeD)
  then show ?thesis using assms(1) by (auto simp: wire_request_def list_all_iff)
qed

lemma base_lines_one_line:
  assumes "wire_request req" "base_lines req hs = Inr ls" "word_list hs"
  shows "list_all one_line ls"
  using base_lines_values [OF assms(2)] assms(3)
proof (induction hs ls rule: list_all2_induct)
  case (Cons h hs l ls)
  then obtain v where v: "line_value req h = Some v" "l = h @ '': '' @ v" by blast
  have "CHR 0x0A \<notin> set h" using Cons.prems by (auto simp: word_list_def dest: space_free)
  then have "one_line l" using line_value_one_line [OF assms(1) v(1)] v(2) by (simp add: one_line_def)
  then show ?case using Cons by (simp add: word_list_def)
qed simp

lemma method_path_unique:
  assumes "CHR '' '' \<notin> set m" "CHR '' '' \<notin> set m'" "to_ascii_lowercase m @ '' '' @ p = to_ascii_lowercase m' @ '' '' @ p'"
  shows "to_ascii_lowercase m = to_ascii_lowercase m' \<and> p = p'"
proof -
  have "split_once (CHR '' '') (to_ascii_lowercase k @ CHR '' '' # q) = Some (to_ascii_lowercase k, q)" if "CHR '' '' \<notin> set k" for k q
    using that by (simp add: lowercase_fixed)
  then show ?thesis using assms by (metis append_Cons append_Nil option.inject prod.inject)
qed

lemma covered_words: "word_list covered_headers"
  by code_simp

lemma sent_lines:
  assumes "wire_request req" "wire_sent hc t" "word_list L" "L \<noteq> []" "ap_signature_base req L = Inr (sent_base hc t)"
  shows "L = covered_headers \<and> to_ascii_lowercase (asr_method req) = to_ascii_lowercase (sr_method t) \<and> asr_path req = sr_path t
    \<and> asr_get req ''host'' = Some (sr_host t) \<and> asr_get req ''date'' = Some (sr_date t) \<and> asr_get req ''digest'' = Some (digest_header hc (sr_body t))"
proof -
  let ?sent = "[''(request-target): '' @ to_ascii_lowercase (sr_method t) @ '' '' @ sr_path t, ''host: '' @ sr_host t, ''date: '' @ sr_date t, ''digest: '' @ digest_header hc (sr_body t)]"
  obtain ls where ls: "base_lines req L = Inr ls" "join [CHR 0x0A] ls = join [CHR 0x0A] ?sent"
    using assms(5) by (auto simp: ap_signature_base_def rbind_Inr_conv sent_base_def signing_base_def)
  note vals = base_lines_values [OF ls(1)]
  have "ls \<noteq> []" using vals assms(4) by auto
  then have "split_on (CHR 0x0A) (join [CHR 0x0A] ls) = ls" using base_lines_one_line [OF assms(1) ls(1) assms(3)] by (rule join_lines)
  moreover have "list_all one_line ?sent"
    using assms(2) unfolding wire_sent_def by (simp add: one_line_def lowercase_fixed)
  then have "split_on (CHR 0x0A) (join [CHR 0x0A] ?sent) = ?sent" by (intro join_lines) simp_all
  ultimately have eq: "ls = ?sent" using ls(2) by simp
  have "map line_name ?sent = map (\<lambda>h. h @ '':'') covered_headers"
    by (simp add: covered_headers_def line_name_def)
  then have "map (\<lambda>h. h @ '':'') L = map (\<lambda>h. h @ '':'') covered_headers" using base_lines_names [OF ls(1) assms(3)] eq by simp
  then have L: "L = covered_headers" by (simp add: inj_def inj_map_eq_map)
  have "line_value req ''(request-target)'' = Some (to_ascii_lowercase (sr_method t) @ '' '' @ sr_path t)"
    "line_value req ''host'' = Some (sr_host t)" "line_value req ''date'' = Some (sr_date t)" "line_value req ''digest'' = Some (digest_header hc (sr_body t))"
    using vals unfolding L eq covered_headers_def by simp_all
  then show ?thesis
    using L method_path_unique [of "asr_method req" "sr_method t" "asr_path req" "sr_path t"] assms(1,2)
    by (simp add: line_value_def wire_request_def wire_sent_def)
qed

text \<open>C30: A request that is accepted in the name of an actor is one that the actor signed, if the actor signs
  nothing but deliveries of this crate and its key verifies nothing else: the method (up to case), the path,
  the host, the date are the ones of the signed delivery, and the body has the digest of the signed body,
  compared without regard to case. In particular the four headers are all covered, whatever list the request
  names.\<close>

theorem verified_request_was_signed:
  assumes "ap_verify_request_signature hc req resolver = Inr actor" "hc_public_from_pem hc (va_public_key_pem actor) = Inr pk"
    and "\<forall>m sig. hc_verify hc pk m sig = Inr () \<longrightarrow> (\<exists>t \<in> set sent. m = sent_base hc t)"
    and "wire_request req" "list_all (wire_sent hc) sent"
  shows "\<exists>t \<in> set sent. to_ascii_lowercase (asr_method req) = to_ascii_lowercase (sr_method t) \<and> asr_path req = sr_path t
    \<and> asr_get req ''host'' = Some (sr_host t) \<and> asr_get req ''date'' = Some (sr_date t)
    \<and> digest_accepted hc (digest_header hc (sr_body t)) (asr_body req)"
proof -
  obtain raw p base sig where steps: "ap_parse_signature_header raw = Inr p" "check_digest hc req (sh_headers p) = Inr ()"
    "ap_signature_base req (sh_headers p) = Inr base" "hc_verify hc pk base sig = Inr ()"
    using assms(1,2) unfolding ap_verify_request_signature_def rbind_Inr_conv ok_or_Inr_conv map_err_Inr_conv if_Inl_Inr_conv by auto
  obtain t where t: "t \<in> set sent" "base = sent_base hc t" using assms(3) steps(4) by blast
  have "wire_sent hc t" using assms(5) t(1) by (simp add: list_all_iff)
  note sent = sent_lines [OF assms(4) this parsed_words [OF steps(1)] steps(3) [unfolded t(2)]]
  then have "check_digest hc req covered_headers = Inr ()" using steps(2) by simp
  then have "digest_accepted hc (digest_header hc (sr_body t)) (asr_body req)"
    using sent by (simp add: check_digest_def covered_headers_def split: if_splits)
  then show ?thesis using sent t(1) by blast
qed

text \<open>What the signature does not cover is not checked, and the sender chooses what it covers: when the
  covered list has neither \<open>digest\<close> nor \<open>(request-target)\<close>, as the default list has when the attribute is
  missing, the same signature is accepted with any method, path and body.\<close>

theorem uncovered_parts_unchecked:
  assumes "asr_get req ''signature'' = Some raw" "ap_parse_signature_header raw = Inr p"
    and "''digest'' \<notin> set (sh_headers p)" "''(request-target)'' \<notin> set (sh_headers p)"
  shows "ap_verify_request_signature hc (req\<lparr>asr_method := m, asr_path := path, asr_body := b\<rparr>) resolver
    = ap_verify_request_signature hc req resolver"
proof -
  let ?req = "req\<lparr>asr_method := m, asr_path := path, asr_body := b\<rparr>"
  have "asr_get ?req n = asr_get req n" for n by (simp add: asr_get_def)
  moreover have "base_lines ?req L = base_lines req L" if "''(request-target)'' \<notin> set L" for L
    using that by (induction L) (auto simp: asr_get_def)
  ultimately show ?thesis
    using assms by (simp add: ap_verify_request_signature_def check_digest_def ap_signature_base_def)
qed

section \<open>Concrete instances\<close>

text \<open>A text encoding without quotation marks and line breaks, and signatures that are the signed text.\<close>

fun esc :: "string \<Rightarrow> string" where
  "esc [] = []"
| "esc (c # cs) = (if c = CHR 0x22 then ''ab'' else if c = CHR ''a'' then ''ac'' else if c = CHR 0x0A then ''ad'' else [c]) @ esc cs"

fun unesc :: "string \<Rightarrow> string" where
  "unesc [] = []"
| "unesc [c] = [c]"
| "unesc (c # d # cs) = (if c = CHR ''a'' then (if d = CHR ''b'' then CHR 0x22 else if d = CHR ''d'' then CHR 0x0A else CHR ''a'') # unesc cs else c # unesc (d # cs))"

lemma unesc_esc: "unesc (esc s) = s"
proof (induction s)
  case (Cons c s)
  then show ?case by (cases "esc s") auto
qed simp

lemma esc_plain: "CHR 0x22 \<notin> set (esc s)"
  by (induction s) auto

definition toy_crypto :: "(string \<Rightarrow> bool) \<Rightarrow> (string, string, string) http_crypto" where
  "toy_crypto ok = \<lparr>hc_sha256 = id, hc_b64_encode = esc, hc_b64_decode = (\<lambda>s. Inr (unesc s)), hc_public_from_pem = Inr,
     hc_private_from_pem = Inr, hc_sign = (\<lambda>sk m. ''s'' @ m), hc_signature_bytes = id, hc_signature_of_bytes = Inr,
     hc_verify = (\<lambda>pk m s. if s = ''s'' @ m \<and> ok m then Inr () else Inl ''no''),
     hc_parse_url = (\<lambda>u. case strip_prefix ''https://b.example'' u of
        Some p \<Rightarrow> Inr \<lparr>url_host = Some ''b.example'', url_path = p, url_query = None\<rparr> | None \<Rightarrow> Inl ''relative URL without a base'')\<rparr>"

definition sample_outbound :: OutboundRequest where
  "sample_outbound = \<lparr>obr_method = ''POST'', obr_url = ''https://b.example/inbox'', obr_headers = [(''Content-Type'', ''application/activity+json'')], obr_body = ''{}''\<rparr>"

definition sample_signer :: VerifiedActor where
  "sample_signer = \<lparr>va_key_id = ''https://a.example/actor#k'', va_actor_url = ''https://a.example/actor'', va_public_key_pem = ''PEM''\<rparr>"

definition sample_resolver :: "string \<Rightarrow> SigError + VerifiedActor" where
  "sample_resolver k = (if k = va_key_id sample_signer then Inr sample_signer else Inl NoPublicKey)"

definition sample_inbound :: ApSignedRequest where
  "sample_inbound = (case ap_sign_request (toy_crypto (\<lambda>_. True)) ''Thu'' sample_outbound ''SK'' (va_key_id sample_signer) of
     Inr r \<Rightarrow> received r ''/inbox'' | Inl _ \<Rightarrow> ApSignedRequest_new [] [] [])"

definition sample_sent :: sent_request where
  "sample_sent = \<lparr>sr_method = ''POST'', sr_path = ''/inbox'', sr_host = ''b.example'', sr_date = ''Thu'', sr_body = ''{}''\<rparr>"

theorem outbound_request_verifies_witness:
  "\<exists>req' u. ap_sign_request (toy_crypto (\<lambda>_. True)) ''Thu'' sample_outbound ''SK'' (va_key_id sample_signer) = Inr req'
    \<and> ap_verify_request_signature (toy_crypto (\<lambda>_. True)) (received req' (request_path u)) sample_resolver = Inr sample_signer"
proof -
  let ?hc = "toy_crypto (\<lambda>_. True)"
  obtain req' where r: "ap_sign_request ?hc ''Thu'' sample_outbound ''SK'' (va_key_id sample_signer) = Inr req'"
    by (simp add: ap_sign_request_def toy_crypto_def sample_outbound_def Let_def)
  have "sound_pair ?hc ''SK'' ''PEM''" "sound_b64 ?hc"
    using unesc_esc esc_plain by (auto simp: sound_pair_def sound_b64_def toy_crypto_def neq_Nil_conv)
  then show ?thesis
    using r outbound_request_verifies [OF r, of "''SK''" sample_signer "''PEM''" sample_resolver]
    by (auto simp: toy_crypto_def sample_signer_def sample_resolver_def)
qed

theorem verified_request_was_signed_witness:
  "asr_path sample_inbound = ''/inbox'' \<and>
   digest_accepted (toy_crypto (\<lambda>m. m = sent_base (toy_crypto (\<lambda>_. True)) sample_sent)) (digest_header (toy_crypto (\<lambda>_. True)) ''{}'') (asr_body sample_inbound)"
proof -
  let ?hc = "toy_crypto (\<lambda>m. m = sent_base (toy_crypto (\<lambda>_. True)) sample_sent)"
  have v: "ap_verify_request_signature ?hc sample_inbound sample_resolver = Inr sample_signer" by code_simp
  have k: "hc_public_from_pem ?hc (va_public_key_pem sample_signer) = Inr ''PEM''" by (simp add: toy_crypto_def sample_signer_def)
  have "sent_base ?hc sample_sent = sent_base (toy_crypto (\<lambda>_. True)) sample_sent" by (simp add: sent_base_def digest_header_def toy_crypto_def)
  then have only: "\<forall>m sig. hc_verify ?hc ''PEM'' m sig = Inr () \<longrightarrow> (\<exists>t \<in> set [sample_sent]. m = sent_base ?hc t)"
    by (auto simp: toy_crypto_def split: if_splits)
  have wire: "wire_request sample_inbound" "list_all (wire_sent ?hc) [sample_sent]" by code_simp+
  have "digest_header ?hc b = digest_header (toy_crypto (\<lambda>_. True)) b" for b by (simp add: digest_header_def toy_crypto_def)
  then show ?thesis using verified_request_was_signed [OF v k only wire] by (auto simp: sample_sent_def)
qed

definition date_only_request :: ApSignedRequest where
  "date_only_request = with_header (with_header (ApSignedRequest_new ''GET'' ''/'' []) ''Date'' ''Thu'')
     ''Signature'' (''keyId='' @ [CHR 0x22] @ ''https://a.example/actor#k'' @ [CHR 0x22] @ '',signature='' @ [CHR 0x22] @ ''sdacte: Thu'' @ [CHR 0x22])"

theorem uncovered_parts_unchecked_witness:
  "ap_verify_request_signature (toy_crypto (\<lambda>_. True)) (date_only_request\<lparr>asr_method := ''POST'', asr_path := ''/inbox'', asr_body := ''forged''\<rparr>) sample_resolver
    = ap_verify_request_signature (toy_crypto (\<lambda>_. True)) date_only_request sample_resolver
   \<and> is_ok (ap_verify_request_signature (toy_crypto (\<lambda>_. True)) date_only_request sample_resolver)"
proof -
  let ?raw = "''keyId='' @ [CHR 0x22] @ ''https://a.example/actor#k'' @ [CHR 0x22] @ '',signature='' @ [CHR 0x22] @ ''sdacte: Thu'' @ [CHR 0x22]"
  have get: "asr_get date_only_request ''signature'' = Some ?raw" by code_simp
  have parsed: "ap_parse_signature_header ?raw = Inr \<lparr>sh_key_id = ''https://a.example/actor#k'', sh_algorithm = ''rsa-sha256'', sh_headers = [''date''], sh_signature_b64 = ''sdacte: Thu''\<rparr>"
    by code_simp
  have "is_ok (ap_verify_request_signature (toy_crypto (\<lambda>_. True)) date_only_request sample_resolver)" by code_simp
  then show ?thesis using uncovered_parts_unchecked [OF get parsed, of "toy_crypto (\<lambda>_. True)" "''forged''" "''/inbox''" "''POST''" sample_resolver] by simp
qed

end
