(* ===== verification/Ap_Federation.thy ===== *)
theory Ap_Federation
  imports Ap_Store Ap_Signature
begin

text \<open>
  Federation (\<open>solid-pod-rs-activitypub/src\<close>): the actor document (\<open>actor.rs\<close>), NodeInfo (\<open>discovery.rs\<close>), the inbox
  (\<open>inbox.rs\<close>) and the outbox (\<open>outbox.rs\<close>) over the store. Clock readings and random identifiers are
  arguments, one per reading.
\<close>

section \<open>Actor documents\<close>

record PublicKey =
  pk_id :: string
  pk_owner :: string
  pk_public_key_pem :: string

record Endpoints =
  ep_shared_inbox :: "string option"

record Actor =
  ac_context :: "json list"
  ac_id :: string
  ac_actor_type :: string
  ac_preferred_username :: string
  ac_name :: string
  ac_summary :: "string option"
  ac_inbox :: string
  ac_outbox :: string
  ac_followers :: string
  ac_following :: string
  ac_public_key :: PublicKey
  ac_endpoints :: "Endpoints option"
  ac_also_known_as :: "string list"

definition optional_member :: "string \<Rightarrow> json option \<Rightarrow> (string \<times> json) list" where
  "optional_member k v = (case v of Some x \<Rightarrow> [(k, x)] | None \<Rightarrow> [])"

definition PublicKey_json :: "PublicKey \<Rightarrow> json" where
  "PublicKey_json k = JObject [(''id'', JString (pk_id k)), (''owner'', JString (pk_owner k)), (''publicKeyPem'', JString (pk_public_key_pem k))]"

definition Endpoints_json :: "Endpoints \<Rightarrow> json" where
  "Endpoints_json e = JObject (optional_member ''sharedInbox'' (map_option JString (ep_shared_inbox e)))"

definition Actor_json :: "Actor \<Rightarrow> json" where
  "Actor_json a = JObject ([(''@context'', JArray (ac_context a)), (''id'', JString (ac_id a)), (''type'', JString (ac_actor_type a)),
     (''preferredUsername'', JString (ac_preferred_username a)), (''name'', JString (ac_name a))]
     @ optional_member ''summary'' (map_option JString (ac_summary a))
     @ [(''inbox'', JString (ac_inbox a)), (''outbox'', JString (ac_outbox a)), (''followers'', JString (ac_followers a)),
        (''following'', JString (ac_following a)), (''publicKey'', PublicKey_json (ac_public_key a))]
     @ optional_member ''endpoints'' (map_option Endpoints_json (ac_endpoints a))
     @ optional_member ''alsoKnownAs'' (if ac_also_known_as a = [] then None else Some (JArray (map JString (ac_also_known_as a)))))"

definition render_actor :: "string \<Rightarrow> string \<Rightarrow> string \<Rightarrow> string option \<Rightarrow> string \<Rightarrow> Actor" where
  "render_actor base_url preferred_username display_name summary pubkey_pem =
     (let base = trim_end_matches (CHR ''/'') base_url; profile = base @ ''/profile/card.jsonld''; actor_id = profile @ ''#me''
      in \<lparr>ac_context = [JString ''https://www.w3.org/ns/activitystreams'', JString ''https://w3id.org/security/v1''],
          ac_id = actor_id, ac_actor_type = ''Person'', ac_preferred_username = preferred_username, ac_name = display_name,
          ac_summary = summary, ac_inbox = profile @ ''/inbox'', ac_outbox = profile @ ''/outbox'', ac_followers = profile @ ''/followers'',
          ac_following = profile @ ''/following'',
          ac_public_key = \<lparr>pk_id = profile @ ''#main-key'', pk_owner = actor_id, pk_public_key_pem = pubkey_pem\<rparr>,
          ac_endpoints = Some \<lparr>ep_shared_inbox = Some (base @ ''/inbox'')\<rparr>, ac_also_known_as = []\<rparr>)"

datatype ActorFormat = ActivityJson | LdpProfile

definition negotiate_actor_format :: "string \<Rightarrow> ActorFormat" where
  "negotiate_actor_format accept = (let lower = to_ascii_lowercase accept in
     if contains_sub ''application/activity+json'' lower then ActivityJson
     else if contains_sub ''application/ld+json'' lower \<and> contains_sub ''https://www.w3.org/ns/activitystreams'' lower then ActivityJson
     else LdpProfile)"

definition with_also_known_as :: "Actor \<Rightarrow> string list \<Rightarrow> Actor" where
  "with_also_known_as a also = a\<lparr>ac_also_known_as := ac_also_known_as a @ also\<rparr>"

section \<open>NodeInfo\<close>

definition nodeinfo_wellknown :: "string \<Rightarrow> json" where
  "nodeinfo_wellknown base_url = JObject [(''links'', JArray [JObject
     [(''rel'', JString ''http://nodeinfo.diaspora.software/ns/schema/2.1''),
      (''href'', JString (trim_end_matches (CHR ''/'') base_url @ ''/.well-known/nodeinfo/2.1''))]])]"

definition nodeinfo_2_1_document :: "string \<Rightarrow> string \<Rightarrow> u64 \<Rightarrow> u64 \<Rightarrow> json" where
  "nodeinfo_2_1_document software_name software_version user_count local_posts =
     (let num = (\<lambda>n :: u64. JNumber (show_nat (unat n))) in JObject
       [(''version'', JString ''2.1''),
        (''software'', JObject [(''name'', JString software_name), (''version'', JString software_version),
           (''repository'', JString ''https://github.com/dreamlab-ai/solid-pod-rs'')]),
        (''protocols'', JArray [JString ''activitypub'', JString ''solid'']),
        (''services'', JObject [(''inbound'', JArray []), (''outbound'', JArray [])]),
        (''usage'', JObject [(''users'', JObject [(''total'', num user_count), (''activeMonth'', num user_count), (''activeHalfyear'', num user_count)]),
           (''localPosts'', num local_posts)]),
        (''openRegistrations'', JBool True),
        (''metadata'', JObject [(''nodeName'', JString ''solid-pod-rs''), (''nodeDescription'', JString ''SAND Stack: Solid + ActivityPub + Nostr + DID'')])])"

section \<open>Errors\<close>

datatype InboxError =
    IbInvalidJson string
  | IbMissingType
  | IbStorage SqlxError
  | IbSignature SigError

datatype OutboxError =
    ObInvalidActivity string
  | ObStorage SqlxError
  | ObSignature SigError
  | ObDelivery string

definition lift_err :: "('e \<Rightarrow> 'f) \<Rightarrow> 's \<times> ('e + 'a) \<Rightarrow> 's \<times> ('f + 'a)" where
  "lift_err f sr = (fst sr, map_err f (snd sr))"

lemma lift_err_simps [simp]: "lift_err f (s, Inl e) = (s, Inl (f e))" "lift_err f (s, Inr a) = (s, Inr a)"
  by (simp_all add: lift_err_def)

lemma lift_err_Inr_conv: "lift_err f sr = (s, Inr a) \<longleftrightarrow> sr = (s, Inr a)"
  by (cases sr) (auto simp: lift_err_def)

section \<open>The inbox\<close>

datatype InboxOutcome =
    Accepted
  | Duplicate
  | Ignored
  | FollowAccepted string "string option" json
  | FollowRemoved string
  | FollowAcknowledged string

text \<open>\<open>trim_end_matches\<close> with a string: every copy of the suffix goes.\<close>

function trim_end_str :: "string \<Rightarrow> string \<Rightarrow> string" where
  "trim_end_str p s = (if p = [] then s else case strip_suffix p s of Some r \<Rightarrow> trim_end_str p r | None \<Rightarrow> s)"
  by pat_completeness auto
termination by (relation "measure (length o snd)") (auto simp: strip_suffix_Some_iff)

declare trim_end_str.simps [simp del]

definition str_member :: "json \<Rightarrow> string \<Rightarrow> string option" where
  "str_member v k = as_str (json_get v k)"

definition build_accept :: "string \<Rightarrow> string \<Rightarrow> json \<Rightarrow> json" where
  "build_accept uuid local_actor_id follow = JObject
     [(''@context'', JString ''https://www.w3.org/ns/activitystreams''),
      (''id'', JString (trim_end_str ''#me'' local_actor_id @ ''/accept/'' @ uuid)),
      (''type'', JString ''Accept''), (''actor'', JString local_actor_id), (''object'', follow)]"

definition handle_follow :: "ApStore \<Rightarrow> int \<Rightarrow> string \<Rightarrow> string \<Rightarrow> VerifiedActor \<Rightarrow> json \<Rightarrow> ApStore \<times> (InboxError + InboxOutcome)" where
  "handle_follow s now uuid local_actor_id verified activity =
     (let follower_id = unwrap_or (str_member activity ''actor'') (va_actor_url verified);
          follower_inbox = str_member activity ''actorInbox''
      in and_then (lift_err IbStorage (add_follower s now local_actor_id follower_id follower_inbox)) (\<lambda>s _.
         (s, Inr (FollowAccepted follower_id follower_inbox (build_accept uuid local_actor_id activity)))))"

definition handle_undo :: "ApStore \<Rightarrow> string \<Rightarrow> VerifiedActor \<Rightarrow> json \<Rightarrow> ApStore \<times> (InboxError + InboxOutcome)" where
  "handle_undo s local_actor_id verified activity =
     (if as_str (Option.bind (json_get activity ''object'') (\<lambda>v. json_get v ''type'')) = Some ''Follow''
      then (let follower_id = unwrap_or (str_member activity ''actor'') (va_actor_url verified) in
        and_then (lift_err IbStorage (remove_follower s local_actor_id follower_id)) (\<lambda>s _. (s, Inr (FollowRemoved follower_id))))
      else (s, Inr Ignored))"

definition handle_accept :: "ApStore \<Rightarrow> string \<Rightarrow> json \<Rightarrow> ApStore \<times> (InboxError + InboxOutcome)" where
  "handle_accept s local_actor_id activity =
     (let inner = json_get activity ''object'' in
      if as_str (Option.bind inner (\<lambda>v. json_get v ''type'')) = Some ''Follow''
      then (let target_id = unwrap_or (as_str (Option.bind inner (\<lambda>v. json_get v ''object''))) local_actor_id in
        and_then (lift_err IbStorage (accept_following s local_actor_id target_id)) (\<lambda>s _. (s, Inr (FollowAcknowledged target_id))))
      else (s, Inr Ignored))"

text \<open>\<open>now\<close> and \<open>later\<close> are the readings of the two insertions.\<close>

definition handle_inbox :: "ap_json \<Rightarrow> ApStore \<Rightarrow> int \<Rightarrow> int \<Rightarrow> string \<Rightarrow> string \<Rightarrow> VerifiedActor \<Rightarrow> json \<Rightarrow> ApStore \<times> (InboxError + InboxOutcome)" where
  "handle_inbox J s now later uuid local_actor_id verified activity =
     (case str_member activity ''type'' of
        None \<Rightarrow> (s, Inl IbMissingType)
      | Some activity_type \<Rightarrow>
          and_then (lift_err IbStorage (record_inbox J s now local_actor_id activity)) (\<lambda>s was_new.
          if \<not> was_new then (s, Inr Duplicate)
          else if activity_type = ''Follow'' then handle_follow s later uuid local_actor_id verified activity
          else if activity_type = ''Undo'' then handle_undo s local_actor_id verified activity
          else if activity_type = ''Accept'' then handle_accept s local_actor_id activity
          else if activity_type \<in> {''Create'', ''Like'', ''Announce'', ''Delete''} then (s, Inr Accepted)
          else (s, Inr Ignored)))"

section \<open>The outbox\<close>

record OutboundDelivery =
  od_activity_id :: string
  od_queued_inboxes :: nat
  od_activity :: json

definition blank :: "string option \<Rightarrow> bool" where
  "blank v \<longleftrightarrow> (case v of Some s \<Rightarrow> s = [] | None \<Rightarrow> True)"

definition stamp_activity :: "string \<Rightarrow> Actor \<Rightarrow> json \<Rightarrow> json" where
  "stamp_activity uuid actor activity =
     (let a = (if blank (str_member activity ''id'')
               then json_set activity ''id'' (JString (trim_end_str ''#me'' (ac_id actor) @ ''/activities/'' @ uuid)) else activity)
      in if str_member a ''actor'' = None then json_set a ''actor'' (JString (ac_id actor)) else a)"

text \<open>The insertions of a fan-out, each with its own clock reading.\<close>

fun enqueue_all :: "ApStore \<Rightarrow> (nat \<Rightarrow> int) \<Rightarrow> string \<Rightarrow> string list \<Rightarrow> ApStore \<times> (OutboxError + unit)" where
  "enqueue_all s clock activity_id [] = (s, Inr ())"
| "enqueue_all s clock activity_id (inbox # inboxes) =
     and_then (lift_err ObStorage (enqueue_delivery s (clock 0) activity_id inbox)) (\<lambda>s _. enqueue_all s (clock o Suc) activity_id inboxes)"

definition delivery_targets :: "ApStore \<Rightarrow> Actor \<Rightarrow> string \<Rightarrow> json \<Rightarrow> ApStore \<times> (OutboxError + string list)" where
  "delivery_targets s actor activity_type activity =
     (if activity_type = ''Follow'' then (s, Inr (case str_member activity ''targetInbox'' of Some u \<Rightarrow> [u] | None \<Rightarrow> []))
      else lift_err ObStorage (follower_inboxes s (ac_id actor)))"

text \<open>\<open>uuids 0\<close> is the identifier of the activity; \<open>uuids 1\<close> the one the store would draw.\<close>

definition handle_outbox :: "ap_json \<Rightarrow> ApStore \<Rightarrow> (nat \<Rightarrow> int) \<Rightarrow> (nat \<Rightarrow> string) \<Rightarrow> Actor \<Rightarrow> json \<Rightarrow> ApStore \<times> (OutboxError + OutboundDelivery)" where
  "handle_outbox J s clock uuids actor activity0 =
     try_with s (ok_or (str_member activity0 ''type'') (ObInvalidActivity ''missing type'')) (\<lambda>activity_type.
       let activity = stamp_activity (uuids 0) actor activity0 in
       and_then (lift_err ObStorage (record_outbox J s (clock 0) (uuids 1) (ac_id actor) activity)) (\<lambda>s activity_id.
       and_then (delivery_targets s actor activity_type activity) (\<lambda>s inboxes.
       and_then (enqueue_all s (clock o Suc) activity_id inboxes) (\<lambda>s _.
       (s, Inr \<lparr>od_activity_id = activity_id, od_queued_inboxes = length inboxes, od_activity = activity\<rparr>)))))"

text \<open>\<open>published\<close> is the rendered clock, \<open>uuids 2\<close> and \<open>uuids 3\<close> the identifiers of activity and note.\<close>

definition wrap_note_in_create :: "string \<Rightarrow> (nat \<Rightarrow> string) \<Rightarrow> Actor \<Rightarrow> json \<Rightarrow> json" where
  "wrap_note_in_create published uuids actor note0 =
     (let base = trim_end_str ''#me'' (ac_id actor);
          n1 = (if blank (str_member note0 ''id'') then json_set note0 ''id'' (JString (base @ ''/posts/'' @ uuids 3)) else note0);
          n2 = (if json_get n1 ''attributedTo'' = None then json_set n1 ''attributedTo'' (JString (ac_id actor)) else n1);
          n3 = (if json_get n2 ''published'' = None then json_set n2 ''published'' (JString published) else n2)
      in JObject [(''@context'', JString ''https://www.w3.org/ns/activitystreams''), (''type'', JString ''Create''),
           (''id'', JString (base @ ''/activities/'' @ uuids 2)), (''actor'', JString (ac_id actor)),
           (''published'', JString published), (''object'', n3)])"

definition outbox_types :: "string list" where
  "outbox_types = [''Create'', ''Follow'', ''Update'', ''Delete'', ''Announce'', ''Like'', ''Undo'', ''Accept'', ''Reject'', ''Add'', ''Remove'', ''Block'']"

definition outbox_activity :: "string \<Rightarrow> (nat \<Rightarrow> string) \<Rightarrow> Actor \<Rightarrow> json \<Rightarrow> OutboxError + json" where
  "outbox_activity published uuids actor body =
     (let activity_type = unwrap_or (str_member body ''type'') [] in
      if activity_type \<in> set outbox_types then Inr body
      else if activity_type = ''Note'' then Inr (wrap_note_in_create published uuids actor body)
      else if activity_type = [] \<and> json_get body ''content'' \<noteq> None
        then Inr (wrap_note_in_create published uuids actor (json_set body ''type'' (JString ''Note'')))
      else Inl (ObInvalidActivity (''unsupported activity type for outbox POST: '' @ activity_type)))"

definition handle_outbox_post :: "ap_json \<Rightarrow> ApStore \<Rightarrow> (nat \<Rightarrow> int) \<Rightarrow> string \<Rightarrow> (nat \<Rightarrow> string) \<Rightarrow> Actor \<Rightarrow> json \<Rightarrow> ApStore \<times> (OutboxError + OutboundDelivery)" where
  "handle_outbox_post J s clock published uuids actor body =
     try_with s (outbox_activity published uuids actor body) (handle_outbox J s clock uuids actor)"

section \<open>Replays\<close>

text \<open>The tables, without the refusals to come.\<close>

definition tables :: "ApStore \<Rightarrow> ApStore" where
  "tables s = s\<lparr>as_faults := []\<rparr>"

definition inbox_has :: "ApStore \<Rightarrow> string \<Rightarrow> bool" where
  "inbox_has s i \<longleftrightarrow> list_ex (\<lambda>r. ib_id r = i) (as_inbox s)"

lemma exec_inbox_has:
  assumes "inbox_has s i" "\<And>s. inbox_has s i \<Longrightarrow> inbox_has (fst (stmt s)) i"
  shows "inbox_has (fst (exec s stmt)) i"
proof -
  have "inbox_has (s\<lparr>as_faults := fs\<rparr>) i" for fs using assms(1) by (simp add: inbox_has_def)
  then show ?thesis using assms(2) exec_cases [of s stmt "fst (exec s stmt)" "snd (exec s stmt)"] by (metis fst_conv surjective_pairing)
qed

text \<open>No statement deletes from the inbox.\<close>

lemma statement_inbox_has: "inbox_has s i \<Longrightarrow> inbox_has (run_statement J st s) i"
  by (cases st; simp add: statement_defs Let_def; intro conjI impI exec_inbox_has) (auto simp: inbox_has_def)

lemma statements_inbox_has: "inbox_has s i \<Longrightarrow> inbox_has (fold (run_statement J) sts s) i"
  by (induction sts arbitrary: s) (simp_all add: statement_inbox_has)

lemma record_inbox_has:
  assumes "record_inbox J s now actor activity = (s', Inr b)" "str_member activity ''id'' = Some i" "i \<noteq> []"
  shows "inbox_has s' i"
proof -
  have "exec s (\<lambda>s. if inbox_has s i then (s, False)
      else (s\<lparr>as_inbox := as_inbox s @ [\<lparr>ib_id = i, ib_actor = actor, ib_activity = json_text J activity, ib_received_at = now\<rparr>]\<rparr>, True)) = (s', Inr b)"
    using assms by (simp add: record_inbox_def str_member_def inbox_has_def)
  then show ?thesis by (auto simp: inbox_has_def dest!: exec_cases split: if_splits)
qed

lemma handle_inbox_statements:
  assumes "handle_inbox J s now later uuid me verified activity = (s', r)" "str_member activity ''type'' \<noteq> None"
  shows "\<exists>s1 r1 sts. record_inbox J s now me activity = (s1, r1) \<and> s' = fold (run_statement J) sts s1 \<and> (\<forall>e. r1 = Inl e \<longrightarrow> r = Inl (IbStorage e))"
proof -
  obtain ty s1 r1 where ty: "str_member activity ''type'' = Some ty" "record_inbox J s now me activity = (s1, r1)"
    using assms(2) by force
  have fst_and_then: "fst (and_then (lift_err f x) (\<lambda>s y. (s, g y))) = fst x" for f and x :: "ApStore \<times> (SqlxError + 'x)" and g :: "'x \<Rightarrow> InboxError + InboxOutcome"
    by (cases x; cases "snd x") auto
  have sub: "\<exists>sts. fst (handle_follow s1 later uuid me verified activity) = fold (run_statement J) sts s1"
    "\<exists>sts. fst (handle_undo s1 me verified activity) = fold (run_statement J) sts s1"
    "\<exists>sts. fst (handle_accept s1 me activity) = fold (run_statement J) sts s1"
  proof -
    show "\<exists>sts. fst (handle_follow s1 later uuid me verified activity) = fold (run_statement J) sts s1"
      by (rule exI [of _ "[AddFollower later me (unwrap_or (str_member activity ''actor'') (va_actor_url verified)) (str_member activity ''actorInbox'')]"])
         (simp add: handle_follow_def fst_and_then Let_def)
    have "fst (handle_undo s1 me verified activity) = fold (run_statement J) [] s1
       \<or> fst (handle_undo s1 me verified activity) = fold (run_statement J) [RemoveFollower me (unwrap_or (str_member activity ''actor'') (va_actor_url verified))] s1"
      by (simp add: handle_undo_def fst_and_then Let_def)
    then show "\<exists>sts. fst (handle_undo s1 me verified activity) = fold (run_statement J) sts s1" by blast
    have "fst (handle_accept s1 me activity) = fold (run_statement J) [] s1
       \<or> fst (handle_accept s1 me activity) = fold (run_statement J) [AcceptFollowing me (unwrap_or (as_str (Option.bind (json_get activity ''object'') (\<lambda>v. json_get v ''object''))) me)] s1"
      by (simp add: handle_accept_def fst_and_then Let_def)
    then show "\<exists>sts. fst (handle_accept s1 me activity) = fold (run_statement J) sts s1" by blast
  qed
  have none: "\<exists>sts. s1 = fold (run_statement J) sts s1" by (rule exI [of _ "[]"]) simp
  have "s' = fst (handle_inbox J s now later uuid me verified activity)" using assms(1) by simp
  then have "\<exists>sts. s' = fold (run_statement J) sts s1"
    using sub none by (cases r1) (auto simp: handle_inbox_def ty split: if_splits)
  moreover have "\<forall>e. r1 = Inl e \<longrightarrow> r = Inl (IbStorage e)" using assms(1) by (auto simp: handle_inbox_def ty)
  ultimately show ?thesis using ty(2) by blast
qed

text \<open>An activity whose identifier is in the inbox.\<close>

lemma handle_inbox_seen:
  assumes "inbox_has s i" "str_member activity ''id'' = Some i" "i \<noteq> []" "str_member activity ''type'' \<noteq> None"
    and "handle_inbox J s now later uuid me verified activity = (s', r)"
  shows "tables s' = tables s \<and> (r = Inr Duplicate \<or> (\<exists>e. r = Inl (IbStorage e)))"
proof -
  obtain s1 r1 where rec: "record_inbox J s now me activity = (s1, r1)" by force
  have "inbox_has (s\<lparr>as_faults := fs\<rparr>) i" for fs using assms(1) by (simp add: inbox_has_def)
  then have "tables s1 = tables s \<and> (r1 = Inr False \<or> isl r1)"
    using rec assms(2,3) by (auto simp: record_inbox_def str_member_def inbox_has_def tables_def Let_def dest!: exec_cases)
  then show ?thesis using assms(4,5) rec by (cases r1) (auto simp: handle_inbox_def split: option.splits)
qed

text \<open>An activity is processed at most once. After an activity with an identifier was handled without a
  storage error, whatever statements the store has run since, an activity with the same identifier, from
  whomever and of whatever type, changes no table and is answered as a duplicate, or with a storage error.\<close>

theorem inbox_processes_once:
  assumes "handle_inbox J s now later uuid me verified activity = (s1, Inr out)" "str_member activity ''id'' = Some i" "i \<noteq> []"
    and "handle_inbox J' (fold (run_statement J) sts s1) now' later' uuid' me' verified' again = (s2, r)"
    and "str_member again ''id'' = Some i" "str_member again ''type'' \<noteq> None"
  shows "tables s2 = tables (fold (run_statement J) sts s1) \<and> (r = Inr Duplicate \<or> (\<exists>e. r = Inl (IbStorage e)))"
proof -
  have "str_member activity ''type'' \<noteq> None"
  proof
    assume "str_member activity ''type'' = None"
    then show False using assms(1) by (simp add: handle_inbox_def)
  qed
  then obtain s0 r0 ss where h: "record_inbox J s now me activity = (s0, r0)" "s1 = fold (run_statement J) ss s0"
    "\<forall>e. r0 = Inl e \<longrightarrow> Inr out = (Inl (IbStorage e) :: InboxError + InboxOutcome)"
    using handle_inbox_statements [OF assms(1)] by blast
  then obtain b where "r0 = Inr b" by (cases r0) auto
  then have "inbox_has s0 i" using record_inbox_has [OF _ assms(2,3)] h(1) by blast
  then have "inbox_has (fold (run_statement J) sts s1) i" using h(2) by (simp add: statements_inbox_has)
  then show ?thesis using handle_inbox_seen [OF _ assms(5,3,6,4)] by blast
qed

definition plain_json :: ap_json where
  "plain_json = \<lparr>aj_to_string = (\<lambda>_. Some ''{}''), aj_from_str = (\<lambda>_. Some JNull)\<rparr>"

definition follow_of :: "string \<Rightarrow> string \<Rightarrow> string \<Rightarrow> json" where
  "follow_of i who inbox = JObject [(''id'', JString i), (''type'', JString ''Follow''), (''actor'', JString who), (''actorInbox'', JString inbox)]"

theorem inbox_processes_once_witness:
  "\<exists>s1 out s2 r. handle_inbox plain_json ApStore_empty 0 0 ''u'' ''me'' sample_signer (follow_of ''a1'' ''bob'' ''https://b.example/inbox'') = (s1, Inr out)
    \<and> handle_inbox plain_json (run_statement plain_json (RemoveFollower ''me'' ''bob'') s1) 9 9 ''v'' ''me'' sample_signer (follow_of ''a1'' ''eve'' ''x'') = (s2, r)
    \<and> tables s2 = tables (run_statement plain_json (RemoveFollower ''me'' ''bob'') s1) \<and> (r = Inr Duplicate \<or> (\<exists>e. r = Inl (IbStorage e)))"
proof -
  let ?a = "follow_of ''a1'' ''bob'' ''https://b.example/inbox''" and ?b = "follow_of ''a1'' ''eve'' ''x''"
  have m: "str_member ?a ''id'' = Some ''a1''" "str_member ?b ''id'' = Some ''a1''" "str_member ?b ''type'' \<noteq> None" "str_member ?a ''type'' = Some ''Follow''"
    by (simp_all add: str_member_def follow_of_def json_get_def as_str_def)
  obtain s1 out where h1: "handle_inbox plain_json ApStore_empty 0 0 ''u'' ''me'' sample_signer ?a = (s1, Inr out)" "as_faults s1 = []"
    using m(1,4) by (simp add: handle_inbox_def record_inbox_def handle_follow_def add_follower_def ApStore_empty_def exec_def Let_def str_member_def)
  let ?s = "run_statement plain_json (RemoveFollower ''me'' ''bob'') s1"
  obtain s2 r where h2: "handle_inbox plain_json ?s 9 9 ''v'' ''me'' sample_signer ?b = (s2, r)" by force
  have "tables s2 = tables ?s \<and> (r = Inr Duplicate \<or> (\<exists>e. r = Inl (IbStorage e)))"
    using inbox_processes_once [OF h1(1) m(1) _ _ m(2,3), of plain_json "[RemoveFollower ''me'' ''bob'']"] h2 by simp
  then show ?thesis using h1(1) h2 by blast
qed

section \<open>Whom a follow names\<close>

lemma record_inbox_new:
  assumes "as_faults s = []" "str_member activity ''id'' = Some i" "i \<noteq> []" "\<not> inbox_has s i"
  shows "\<exists>s1. record_inbox J s now me activity = (s1, Inr True) \<and> as_faults s1 = [] \<and> as_followers s1 = as_followers s"
  using assms by (simp add: record_inbox_def str_member_def inbox_has_def exec_ok Let_def)

text \<open>The signature does not bind the actor of a follow. Whoever the verified signer is, a fresh \<open>Follow\<close> that
  names somebody else in its \<open>actor\<close> member replaces that follower's row: the deliveries for the follower now
  go to the inbox the sender chose, and only there.\<close>

theorem follow_redirects_deliveries:
  assumes "as_faults s = []" "str_member activity ''type'' = Some ''Follow''" "str_member activity ''id'' = Some i" "i \<noteq> []" "\<not> inbox_has s i"
    and "str_member activity ''actor'' = Some victim" "str_member activity ''actorInbox'' = Some inbox"
  shows "\<exists>s'. handle_inbox J s now later uuid me verified activity = (s', Inr (FollowAccepted victim (Some inbox) (build_accept uuid me activity)))
    \<and> fr_inbox ` {r \<in> set (as_followers s'). fr_actor r = me \<and> fr_follower r = victim} = {Some inbox}"
proof -
  obtain s1 where s1: "record_inbox J s now me activity = (s1, Inr True)" "as_faults s1 = []" "as_followers s1 = as_followers s"
    using record_inbox_new [OF assms(1,3-5)] by blast
  let ?row = "\<lparr>fr_actor = me, fr_follower = victim, fr_inbox = Some inbox, fr_accepted_at = later\<rparr>"
  let ?s' = "s1\<lparr>as_followers := replace_row (\<lambda>r. fr_actor r = me \<and> fr_follower r = victim) ?row (as_followers s1)\<rparr>"
  have "{r \<in> set (as_followers ?s'). fr_actor r = me \<and> fr_follower r = victim} = {?row}" by (auto simp: replace_row_def)
  then have "fr_inbox ` {r \<in> set (as_followers ?s'). fr_actor r = me \<and> fr_follower r = victim} = {Some inbox}" by simp
  moreover have "handle_inbox J s now later uuid me verified activity = (?s', Inr (FollowAccepted victim (Some inbox) (build_accept uuid me activity)))"
    using assms(2,6,7) s1(1,2) by (simp add: handle_inbox_def handle_follow_def add_follower_def exec_ok Let_def)
  ultimately show ?thesis by blast
qed

theorem follow_redirects_deliveries_witness:
  "\<exists>s'. handle_inbox plain_json (fst (add_follower ApStore_empty 0 ''me'' ''bob'' (Some ''https://b.example/inbox''))) 1 1 ''u'' ''me'' sample_signer (follow_of ''a1'' ''bob'' ''https://evil.example/'')
      = (s', Inr (FollowAccepted ''bob'' (Some ''https://evil.example/'') (build_accept ''u'' ''me'' (follow_of ''a1'' ''bob'' ''https://evil.example/''))))
    \<and> fr_inbox ` {r \<in> set (as_followers s'). fr_actor r = ''me'' \<and> fr_follower r = ''bob''} = {Some ''https://evil.example/''}"
proof -
  let ?s = "fst (add_follower ApStore_empty 0 ''me'' ''bob'' (Some ''https://b.example/inbox''))" and ?a = "follow_of ''a1'' ''bob'' ''https://evil.example/''"
  have m: "str_member ?a ''type'' = Some ''Follow''" "str_member ?a ''id'' = Some ''a1''" "str_member ?a ''actor'' = Some ''bob''" "str_member ?a ''actorInbox'' = Some ''https://evil.example/''"
    by (simp_all add: str_member_def follow_of_def json_get_def as_str_def)
  have s: "as_faults ?s = []" "\<not> inbox_has ?s ''a1''" by (simp_all add: add_follower_def exec_ok ApStore_empty_def inbox_has_def)
  have "''a1'' \<noteq> []" by simp
  then show ?thesis by (rule follow_redirects_deliveries [OF s(1) m(1,2) _ s(2) m(3,4)])
qed

text \<open>The same for \<open>Undo\<close>: anybody removes any follower.\<close>

lemma undo_removes_anyone:
  assumes "as_faults s = []" "str_member activity ''type'' = Some ''Undo''" "str_member activity ''id'' = Some i" "i \<noteq> []" "\<not> inbox_has s i"
    and "as_str (Option.bind (json_get activity ''object'') (\<lambda>v. json_get v ''type'')) = Some ''Follow''" "str_member activity ''actor'' = Some victim"
  shows "\<exists>s'. handle_inbox J s now later uuid me verified activity = (s', Inr (FollowRemoved victim)) \<and> snd (is_follower s' me victim) = Inr False"
proof -
  obtain s1 where s1: "record_inbox J s now me activity = (s1, Inr True)" "as_faults s1 = []" "as_followers s1 = as_followers s"
    using record_inbox_new [OF assms(1,3-5)] by blast
  then show ?thesis
    using assms(2,6,7) by (auto simp: handle_inbox_def handle_undo_def remove_follower_def is_follower_def exec_ok list_ex_iff Let_def)
qed

text \<open>A follow is recorded before it takes effect: when the database refuses the second statement, the retry is a
  duplicate, and the follower is never stored.\<close>

lemma refused_follow_is_lost:
  assumes "as_faults s = [None, Some e]" "str_member activity ''type'' = Some ''Follow''" "str_member activity ''id'' = Some i" "i \<noteq> []" "\<not> inbox_has s i"
  shows "\<exists>s1. handle_inbox J s now later uuid me verified activity = (s1, Inl (IbStorage e)) \<and> as_followers s1 = as_followers s
    \<and> (\<forall>n l u v. handle_inbox J s1 n l u me v activity = (s1, Inr Duplicate))"
  using assms
  by (auto simp: handle_inbox_def handle_follow_def record_inbox_def add_follower_def exec_def str_member_def inbox_has_def Let_def)

section \<open>The fan-out of the outbox\<close>

lemma str_member_object: "str_member v k = Some x \<Longrightarrow> \<exists>ms. v = JObject ms"
  by (cases v) (auto simp: str_member_def json_get_def as_str_def)

lemma json_get_set: "json_get (json_set (JObject ms) k x) k' = (if k' = k then Some x else json_get (JObject ms) k')"
  by (simp add: json_set_def json_get_def update_conv')

lemma json_set_object: "\<exists>ms'. json_set (JObject ms) k x = JObject ms'"
  by (simp add: json_set_def)

lemma stamped:
  assumes "str_member v ''type'' = Some ty"
  shows "\<exists>i. str_member (stamp_activity uuid actor v) ''id'' = Some i \<and> i \<noteq> [] \<and> str_member (stamp_activity uuid actor v) ''actor'' \<noteq> None"
proof -
  obtain ms where ms: "v = JObject ms" using str_member_object [OF assms] by blast
  let ?id = "trim_end_str ''#me'' (ac_id actor) @ ''/activities/'' @ uuid"
  let ?a = "if blank (str_member v ''id'') then json_set v ''id'' (JString ?id) else v"
  obtain ms' where a: "?a = JObject ms'" using ms json_set_object [of ms] by force
  have "\<exists>i. str_member ?a ''id'' = Some i \<and> i \<noteq> []"
    unfolding ms by (auto simp: str_member_def json_get_set as_str_def blank_def split: option.splits json.splits)
  then show ?thesis
    unfolding stamp_activity_def Let_def a by (auto simp: str_member_def json_get_set as_str_def)
qed

definition queue_row :: "QueueRecord \<Rightarrow> string \<times> string \<times> int" where
  "queue_row r = (dq_activity r, dq_inbox r, dq_attempts r)"

lemma enqueue_delivery_ok:
  assumes "enqueue_delivery s now a u = (s', Inr n)"
  shows "map queue_row (as_queue s') = map queue_row (as_queue s) @ [(a, u, 0)] \<and> as_outbox s' = as_outbox s \<and> as_followers s' = as_followers s"
  using assms by (auto simp: enqueue_delivery_def queue_row_def Let_def dest!: exec_cases)

lemma enqueue_all_ok:
  "enqueue_all s clock a us = (s', Inr ()) \<Longrightarrow>
     map queue_row (as_queue s') = map queue_row (as_queue s) @ map (\<lambda>u. (a, u, 0)) us \<and> as_outbox s' = as_outbox s \<and> as_followers s' = as_followers s"
proof (induction us arbitrary: s clock)
  case (Cons u us)
  then obtain s1 n where "enqueue_delivery s (clock 0) a u = (s1, Inr n)" "enqueue_all s1 (clock \<circ> Suc) a us = (s', Inr ())"
    by (auto simp: and_then_Inr_conv lift_err_Inr_conv)
  then show ?case using Cons.IH enqueue_delivery_ok by fastforce
qed simp

definition targets_of :: "ApStore \<Rightarrow> Actor \<Rightarrow> string \<Rightarrow> json \<Rightarrow> string list" where
  "targets_of s actor ty activity =
     (if ty = ''Follow'' then (case str_member activity ''targetInbox'' of Some u \<Rightarrow> [u] | None \<Rightarrow> [])
      else inboxes_of (as_followers s) (ac_id actor))"

lemma record_outbox_ok:
  assumes "record_outbox J s now uuid actor v = (s', Inr i)"
  shows "as_queue s' = as_queue s \<and> as_followers s' = as_followers s \<and> i = unwrap_or (str_member v ''id'') (''urn:uuid:'' @ uuid)
    \<and> as_outbox s' = replace_row (\<lambda>r. ob_id r = i)
        \<lparr>ob_id = i, ob_actor = actor, ob_activity = json_text J v, ob_created_at = now, ob_state = ''pending''\<rparr> (as_outbox s)"
  using assms by (auto simp: record_outbox_def str_member_def Let_def dest!: exec_cases)

lemma delivery_targets_ok:
  assumes "delivery_targets s actor ty v = (s', Inr us)"
  shows "us = targets_of s actor ty v \<and> as_queue s' = as_queue s \<and> as_outbox s' = as_outbox s \<and> as_followers s' = as_followers s"
  using assms
  by (auto simp: delivery_targets_def targets_of_def follower_inboxes_def lift_err_Inr_conv dest!: exec_cases split: if_splits)

text \<open>An activity that the outbox accepts is stored under a non-empty identifier, with an actor, as pending,
  and queued exactly once for every inbox it is for: for a \<open>Follow\<close> the inbox it names, otherwise the distinct
  inboxes of the followers. Nothing else of outbox, queue and followers changes.\<close>

theorem outbox_fans_out:
  assumes "handle_outbox J s clock uuids actor v = (s', Inr d)"
  shows "\<exists>ty i. str_member v ''type'' = Some ty \<and> od_activity_id d = i \<and> i \<noteq> [] \<and> str_member (od_activity d) ''id'' = Some i
    \<and> str_member (od_activity d) ''actor'' \<noteq> None
    \<and> map queue_row (as_queue s') = map queue_row (as_queue s) @ map (\<lambda>u. (i, u, 0)) (targets_of s actor ty (od_activity d))
    \<and> od_queued_inboxes d = length (targets_of s actor ty (od_activity d))
    \<and> as_outbox s' = replace_row (\<lambda>r. ob_id r = i) \<lparr>ob_id = i, ob_actor = ac_id actor, ob_activity = json_text J (od_activity d),
         ob_created_at = clock 0, ob_state = ''pending''\<rparr> (as_outbox s)
    \<and> as_followers s' = as_followers s"
proof -
  obtain ty where ty: "str_member v ''type'' = Some ty"
    using assms by (cases "str_member v ''type''") (simp_all add: handle_outbox_def)
  let ?a = "stamp_activity (uuids 0) actor v"
  obtain s1 i s2 us where st: "record_outbox J s (clock 0) (uuids 1) (ac_id actor) ?a = (s1, Inr i)"
    "delivery_targets s1 actor ty ?a = (s2, Inr us)" "enqueue_all s2 (clock \<circ> Suc) i us = (s', Inr ())"
    "d = \<lparr>od_activity_id = i, od_queued_inboxes = length us, od_activity = ?a\<rparr>"
    using assms unfolding handle_outbox_def ty ok_or_simps try_with_simps Let_def and_then_Inr_conv lift_err_Inr_conv by auto
  note r = record_outbox_ok [OF st(1)] and t = delivery_targets_ok [OF st(2)] and e = enqueue_all_ok [OF st(3)]
  obtain j where j: "str_member ?a ''id'' = Some j" "j \<noteq> []" "str_member ?a ''actor'' \<noteq> None" using stamped [OF ty] by blast
  have "i = j" using r j(1) by simp
  moreover have "us = targets_of s actor ty ?a" using t r by (simp add: targets_of_def)
  ultimately show ?thesis using ty j r t e st(4) by (intro exI [of _ ty] exI [of _ i]) simp
qed

definition sample_actor :: Actor where
  "sample_actor = render_actor ''https://pod.example/'' ''me'' ''Me'' None ''PEM''"

definition sample_note :: json where
  "sample_note = JObject [(''type'', JString ''Create''), (''id'', JString ''c1'')]"

theorem outbox_fans_out_witness:
  "\<exists>s' d. handle_outbox plain_json (fst (add_follower ApStore_empty 0 (ac_id sample_actor) ''bob'' (Some ''u''))) (\<lambda>_. 1) (\<lambda>_. ''x'') sample_actor sample_note = (s', Inr d)
    \<and> map queue_row (as_queue s') = [(''c1'', ''u'', 0)]"
proof -
  let ?s = "fst (add_follower ApStore_empty 0 (ac_id sample_actor) ''bob'' (Some ''u''))"
  have s: "as_faults ?s = []" "as_queue ?s = []" "inboxes_of (as_followers ?s) (ac_id sample_actor) = [''u'']"
    by (simp_all add: add_follower_def exec_ok ApStore_empty_def replace_row_def inboxes_of_def List.map_filter_def)
  have ty: "str_member sample_note ''type'' = Some ''Create''" by (simp add: sample_note_def str_member_def json_get_def as_str_def)
  obtain s' d where h: "handle_outbox plain_json ?s (\<lambda>_. 1) (\<lambda>_. ''x'') sample_actor sample_note = (s', Inr d)"
    using s by (simp add: handle_outbox_def ty record_outbox_def delivery_targets_def follower_inboxes_def enqueue_delivery_def exec_ok Let_def)
  then have d: "od_activity d = stamp_activity ''x'' sample_actor sample_note"
    using s by (auto simp: handle_outbox_def ty record_outbox_def delivery_targets_def follower_inboxes_def enqueue_delivery_def exec_ok Let_def)
  have "str_member (od_activity d) ''id'' = Some ''c1''"
    unfolding d by (simp add: stamp_activity_def sample_note_def str_member_def json_get_def as_str_def blank_def json_set_def Let_def)
  then show ?thesis using outbox_fans_out [OF h] h ty s by (auto simp: targets_of_def)
qed

end
