(* ===== verification/Ap_Delivery.thy ===== *)
theory Ap_Delivery
  imports Ap_Federation
begin

text \<open>
  The delivery worker of the ActivityPub crate (\<open>solid-pod-rs-activitypub/src/delivery.rs\<close>). The worker drives the
  queue through the operations of the store it calls, and the network answers each request with a status or an
  error. What bounds it is proved from a contract on those operations, which the store keeps.
\<close>

section \<open>The worker\<close>

definition BACKOFF_SECONDS :: "int list" where
  "BACKOFF_SECONDS = [30, 120, 600, 3600, 21600, 86400]"

definition MAX_ATTEMPTS :: int where
  "MAX_ATTEMPTS = int (length BACKOFF_SECONDS)"

datatype DeliveryOutcome = Delivered | Dropped | Rescheduled int | Idle

record DeliveryConfig =
  dc_private_key_pem :: string
  dc_key_id :: string

text \<open>The operations of the store that the worker calls.\<close>

record 's queue_ops =
  qo_next_due :: "'s \<Rightarrow> int \<Rightarrow> 's \<times> (SqlxError + DeliveryItem option)"
  qo_load :: "'s \<Rightarrow> string \<Rightarrow> 's \<times> (SqlxError + json option)"
  qo_drop :: "'s \<Rightarrow> int \<Rightarrow> 's \<times> (SqlxError + nat)"
  qo_mark :: "'s \<Rightarrow> string \<Rightarrow> string \<Rightarrow> 's \<times> (SqlxError + nat)"
  qo_reschedule :: "'s \<Rightarrow> int \<Rightarrow> int \<Rightarrow> int \<Rightarrow> string \<Rightarrow> 's \<times> (SqlxError + nat)"

definition ap_queue_ops :: "ap_json \<Rightarrow> ApStore queue_ops" where
  "ap_queue_ops J = \<lparr>qo_next_due = next_due_delivery, qo_load = load_activity J, qo_drop = drop_delivery, qo_mark = mark_outbox_state,
     qo_reschedule = reschedule_delivery\<rparr>"

record ('priv, 'pub, 'sig) worker =
  wk_config :: DeliveryConfig
  wk_crypto :: "('priv, 'pub, 'sig) http_crypto"
  wk_to_vec :: "json \<Rightarrow> string + bytes"

text \<open>What a tick meets: the clock when the queue is read, the rendered date, the answer to the request if one is
  sent, and the clock when the item is rescheduled.\<close>

datatype send_answer = HttpStatus nat | SendFailed string

record tick =
  tk_now :: int
  tk_date :: string
  tk_answer :: send_answer
  tk_later :: int

definition delivery_request :: "('priv, 'pub, 'sig) worker \<Rightarrow> tick \<Rightarrow> DeliveryItem \<Rightarrow> json \<Rightarrow> OutboxError + OutboundRequest" where
  "delivery_request W t item activity =
     rbind (map_err ObDelivery (wk_to_vec W activity)) (\<lambda>body.
     map_err ObSignature (ap_sign_request (wk_crypto W) (tk_date t)
       \<lparr>obr_method = ''POST'', obr_url = di_inbox_url item, obr_headers = [(''Content-Type'', ''application/activity+json'')], obr_body = body\<rparr>
       (dc_private_key_pem (wk_config W)) (dc_key_id (wk_config W))))"

definition close_item :: "'s queue_ops \<Rightarrow> 's \<Rightarrow> DeliveryItem \<Rightarrow> string \<Rightarrow> DeliveryOutcome \<Rightarrow> 's \<times> (OutboxError + DeliveryOutcome)" where
  "close_item Q s item state outcome =
     and_then (lift_err ObStorage (qo_drop Q s (di_queue_id item))) (\<lambda>s _.
     and_then (lift_err ObStorage (qo_mark Q s (di_activity_id item) state)) (\<lambda>s _. (s, Inr outcome)))"

definition retry_item :: "'s queue_ops \<Rightarrow> 's \<Rightarrow> DeliveryItem \<Rightarrow> int \<Rightarrow> string \<Rightarrow> 's \<times> (OutboxError + DeliveryOutcome)" where
  "retry_item Q s item later err =
     (if di_attempts item + 1 \<ge> MAX_ATTEMPTS then close_item Q s item ''failed'' Dropped
      else (let delay = BACKOFF_SECONDS ! min (nat (max (di_attempts item) 0)) (length BACKOFF_SECONDS - 1) in
        and_then (lift_err ObStorage (qo_reschedule Q s later (di_queue_id item) delay err)) (\<lambda>s _. (s, Inr (Rescheduled delay)))))"

definition settle :: "'s queue_ops \<Rightarrow> 's \<Rightarrow> DeliveryItem \<Rightarrow> tick \<Rightarrow> 's \<times> (OutboxError + DeliveryOutcome)" where
  "settle Q s item t = (case tk_answer t of
     HttpStatus status \<Rightarrow>
       if 200 \<le> status \<and> status < 300 then close_item Q s item ''delivered'' Delivered
       else if 400 \<le> status \<and> status < 500 \<and> status \<noteq> 408 \<and> status \<noteq> 429 then close_item Q s item ''failed'' Dropped
       else retry_item Q s item (tk_later t) (''HTTP '' @ show_nat status)
   | SendFailed e \<Rightarrow> retry_item Q s item (tk_later t) e)"

text \<open>One attempt: the new state, the request that was sent if one was, and the result.\<close>

definition drain_once :: "('priv, 'pub, 'sig) worker \<Rightarrow> 's queue_ops \<Rightarrow> 's \<Rightarrow> tick \<Rightarrow> 's \<times> OutboundRequest option \<times> (OutboxError + DeliveryOutcome)" where
  "drain_once W Q s t = (case qo_next_due Q s (tk_now t) of
     (s1, Inl e) \<Rightarrow> (s1, None, Inl (ObStorage e))
   | (s1, Inr None) \<Rightarrow> (s1, None, Inr Idle)
   | (s1, Inr (Some item)) \<Rightarrow> (case qo_load Q s1 (di_activity_id item) of
       (s2, Inl e) \<Rightarrow> (s2, None, Inl (ObStorage e))
     | (s2, Inr None) \<Rightarrow>
         (let (s3, r) = and_then (lift_err ObStorage (qo_drop Q s2 (di_queue_id item))) (\<lambda>s _. (s, Inr Dropped)) in (s3, None, r))
     | (s2, Inr (Some activity)) \<Rightarrow> (case delivery_request W t item activity of
         Inl e \<Rightarrow> (s2, None, Inl e)
       | Inr req \<Rightarrow> (let (s3, r) = settle Q s2 item t in (s3, Some req, r)))))"

definition enqueue_to_inboxes :: "ApStore \<Rightarrow> (nat \<Rightarrow> int) \<Rightarrow> string \<Rightarrow> string list \<Rightarrow> ApStore \<times> (OutboxError + nat)" where
  "enqueue_to_inboxes s clock activity_id inboxes =
     and_then (enqueue_all s clock activity_id inboxes) (\<lambda>s _. (s, Inr (length inboxes)))"

text \<open>
  The poller (\<open>run\<close>): the inner loop attempts until nothing is due or an attempt fails; the outer loop sleeps and
  starts again, for ever. The ticks are what the attempts meet, one after the other.
\<close>

definition sent_list :: "OutboundRequest option \<Rightarrow> OutboundRequest list" where
  "sent_list sent = (case sent of None \<Rightarrow> [] | Some q \<Rightarrow> [q])"

fun drain_all :: "('priv, 'pub, 'sig) worker \<Rightarrow> 's queue_ops \<Rightarrow> 's \<Rightarrow> tick list \<Rightarrow> 's \<times> OutboundRequest list \<times> (OutboxError + DeliveryOutcome) option \<times> tick list" where
  "drain_all W Q s [] = (s, [], None, [])"
| "drain_all W Q s (t # ts) = (case drain_once W Q s t of (s1, sent, r) \<Rightarrow>
     if r = Inr Idle \<or> isl r then (s1, sent_list sent, Some r, ts)
     else (case drain_all W Q s1 ts of (s2, rest_sent, stop, rest) \<Rightarrow> (s2, sent_list sent @ rest_sent, stop, rest)))"

fun run_worker :: "('priv, 'pub, 'sig) worker \<Rightarrow> 's queue_ops \<Rightarrow> 's \<Rightarrow> tick list \<Rightarrow> 's \<times> OutboundRequest list" where
  "run_worker W Q s [] = (s, [])"
| "run_worker W Q s (t # ts) = (case drain_once W Q s t of (s1, sent, _) \<Rightarrow>
     (case run_worker W Q s1 ts of (s2, rest_sent) \<Rightarrow> (s2, sent_list sent @ rest_sent)))"

section \<open>What the worker relies on\<close>

text \<open>A statement on the queue: a refusal changes no item and uses one of the refusals to come; otherwise the
  items become the given ones.\<close>

definition statement_to :: "('s \<Rightarrow> bool) \<Rightarrow> ('s \<Rightarrow> int \<rightharpoonup> int) \<Rightarrow> ('s \<Rightarrow> nat) \<Rightarrow> 's \<Rightarrow> (int \<rightharpoonup> int) \<Rightarrow> 's \<times> (SqlxError + 'a) \<Rightarrow> bool" where
  "statement_to invar items refusals s target sr \<longleftrightarrow> invar (fst sr) \<and>
     (if isl (snd sr) then items (fst sr) = items s \<and> refusals (fst sr) < refusals s
      else items (fst sr) = target \<and> refusals (fst sr) \<le> refusals s)"

definition attempts_left :: "int \<Rightarrow> nat" where
  "attempts_left a = max 1 (nat (MAX_ATTEMPTS - a))"

definition weight :: "(int \<rightharpoonup> int) \<Rightarrow> nat" where
  "weight m = (\<Sum>q \<in> dom m. attempts_left (the (m q)))"

lemma weight_remove:
  assumes "finite (dom m)" "m q = Some a"
  shows "weight m = attempts_left a + weight (m(q := None))"
proof -
  have "weight m = attempts_left (the (m q)) + (\<Sum>x \<in> dom m - {q}. attempts_left (the (m x)))"
    unfolding weight_def by (rule sum.remove) (use assms in auto)
  moreover have "(\<Sum>x \<in> dom m - {q}. attempts_left (the (m x))) = weight (m(q := None))"
    unfolding weight_def by (rule sum.cong) auto
  ultimately show ?thesis using assms(2) by simp
qed

lemma weight_drop: "finite (dom m) \<Longrightarrow> m q = Some a \<Longrightarrow> weight (m(q := None)) < weight m"
  using weight_remove [of m q a] by (simp add: attempts_left_def)

lemma weight_bump:
  assumes "finite (dom m)" "m q = Some a" "a + 1 < MAX_ATTEMPTS"
  shows "weight (m(q := Some (a + 1))) < weight m"
proof -
  have "weight (m(q := Some (a + 1))) = attempts_left (a + 1) + weight (m(q := None))"
    using weight_remove [of "m(q := Some (a + 1))" q "a + 1"] assms(1) by simp
  moreover have "attempts_left (a + 1) < attempts_left a" using assms(3) by (simp add: attempts_left_def)
  ultimately show ?thesis using weight_remove [OF assms(1,2)] by simp
qed

locale delivery_queue =
  fixes Q :: "'s queue_ops" and invar :: "'s \<Rightarrow> bool" and items :: "'s \<Rightarrow> int \<rightharpoonup> int" and refusals :: "'s \<Rightarrow> nat"
  assumes finite_items: "finite (dom (items s))"
    and next_due: "invar s \<Longrightarrow> statement_to invar items refusals s (items s) (qo_next_due Q s now)"
    and due_item: "invar s \<Longrightarrow> qo_next_due Q s now = (s', Inr (Some it)) \<Longrightarrow> items s (di_queue_id it) = Some (di_attempts it)"
    and load: "invar s \<Longrightarrow> statement_to invar items refusals s (items s) (qo_load Q s aid)"
    and mark: "invar s \<Longrightarrow> statement_to invar items refusals s (items s) (qo_mark Q s aid st)"
    and drop: "invar s \<Longrightarrow> statement_to invar items refusals s ((items s)(q := None)) (qo_drop Q s q)"
    and reschedule: "invar s \<Longrightarrow> items s q = Some a \<Longrightarrow>
      statement_to invar items refusals s ((items s)(q := Some (a + 1))) (qo_reschedule Q s now q d e)"
begin

text \<open>The attempts that the queue can still cost, and the refusals it can still meet.\<close>

definition budget :: "'s \<Rightarrow> nat" where
  "budget s = weight (items s) + refusals s"

lemma keeping:
  assumes "statement_to invar items refusals s (items s) (s', r)"
  shows "invar s'" "items s' = items s" "budget s' \<le> budget s" "isl r \<Longrightarrow> budget s' < budget s"
  using assms by (auto simp: statement_to_def budget_def split: if_splits)

lemma lowering:
  assumes "statement_to invar items refusals s m (s', r)" "weight m < weight (items s)"
  shows "invar s'" "budget s' < budget s"
  using assms by (auto simp: statement_to_def budget_def split: if_splits)

lemma close_item_lowers:
  assumes "invar s" "items s (di_queue_id it) = Some a" "close_item Q s it st out = (s', r)"
  shows "invar s' \<and> budget s' < budget s"
proof -
  obtain s1 r1 where d: "qo_drop Q s (di_queue_id it) = (s1, r1)" by force
  note low = lowering [OF drop [OF assms(1), of "di_queue_id it", unfolded d] weight_drop [OF finite_items assms(2)]]
  obtain s2 r2 where m: "qo_mark Q s1 (di_activity_id it) st = (s2, r2)" by force
  note k = keeping [OF mark [OF low(1), of "di_activity_id it" st, unfolded m]]
  have "s' = s1 \<or> s' = s2" using assms(3) d m by (cases r1; cases r2) (auto simp: close_item_def)
  then show ?thesis using low k by auto
qed

lemma retry_item_lowers:
  assumes "invar s" "items s (di_queue_id it) = Some (di_attempts it)" "retry_item Q s it later e = (s', r)"
  shows "invar s' \<and> budget s' < budget s"
proof (cases "di_attempts it + 1 \<ge> MAX_ATTEMPTS")
  case True
  then show ?thesis using close_item_lowers [OF assms(1,2)] assms(3) by (simp add: retry_item_def)
next
  case False
  obtain d s1 r1 where d: "qo_reschedule Q s later (di_queue_id it) d e = (s1, r1)" "s' = s1"
    using assms(3) False
    by (cases "qo_reschedule Q s later (di_queue_id it) (BACKOFF_SECONDS ! min (nat (max (di_attempts it) 0)) (length BACKOFF_SECONDS - 1)) e";
        cases "snd (qo_reschedule Q s later (di_queue_id it) (BACKOFF_SECONDS ! min (nat (max (di_attempts it) 0)) (length BACKOFF_SECONDS - 1)) e)")
       (auto simp: retry_item_def Let_def)
  show ?thesis
    using lowering [OF reschedule [OF assms(1,2), of later d e, unfolded d(1)] weight_bump [OF finite_items assms(2)]] False d(2) by simp
qed

lemma settle_lowers:
  assumes "invar s" "items s (di_queue_id it) = Some (di_attempts it)" "settle Q s it t = (s', r)"
  shows "invar s' \<and> budget s' < budget s"
  using assms(3) close_item_lowers [OF assms(1,2)] retry_item_lowers [OF assms(1,2)]
  by (auto simp: settle_def split: send_answer.splits if_splits)

lemma drain_once_budget:
  assumes "invar s" "drain_once W Q s t = (s', sent, r)"
  shows "invar s' \<and> budget s' + (if r = Inr Idle \<and> sent = None then 0 else if isl r \<and> sent = None then 0 else 1) \<le> budget s"
proof -
  obtain s1 r1 where due: "qo_next_due Q s (tk_now t) = (s1, r1)" by force
  note k1 = keeping [OF next_due [OF assms(1), of "tk_now t", unfolded due]]
  show ?thesis
  proof (cases r1)
    case (Inl e)
    then show ?thesis using assms(2) due k1 by (auto simp: drain_once_def)
  next
    case (Inr v)
    show ?thesis
    proof (cases v)
      case None
      then show ?thesis using assms(2) due k1 Inr by (auto simp: drain_once_def)
    next
      case (Some it)
      have it: "items s1 (di_queue_id it) = Some (di_attempts it)" using due_item [OF assms(1)] due Inr Some k1(2) by simp
      obtain s2 r2 where l: "qo_load Q s1 (di_activity_id it) = (s2, r2)" by force
      note k2 = keeping [OF load [OF k1(1), of "di_activity_id it", unfolded l]]
      have it2: "items s2 (di_queue_id it) = Some (di_attempts it)" using it k2(2) by simp
      obtain s3 r3 where dr: "qo_drop Q s2 (di_queue_id it) = (s3, r3)" by force
      note low = lowering [OF drop [OF k2(1), of "di_queue_id it", unfolded dr] weight_drop [OF finite_items it2]]
      obtain s4 r4 where se: "settle Q s2 it t = (s4, r4)" by force
      note low' = settle_lowers [OF k2(1) it2 se]
      show ?thesis
        using assms(2) due Inr Some l dr se k1(3) k2 low low'
        by (cases r2; cases r3) (auto simp: drain_once_def split: option.splits sum.splits)
    qed
  qed
qed

text \<open>Each request costs one attempt or one refusal.\<close>

lemma run_worker_bounded:
  "invar s \<Longrightarrow> run_worker W Q s ts = (s', sent) \<Longrightarrow> invar s' \<and> budget s' + length sent \<le> budget s"
proof (induction ts arbitrary: s s' sent)
  case (Cons t ts)
  obtain s1 q r where d: "drain_once W Q s t = (s1, q, r)" by (cases "drain_once W Q s t")
  obtain s2 rest where w: "run_worker W Q s1 ts = (s2, rest)" by force
  note b = drain_once_budget [OF Cons.prems(1) d]
  have "invar s2 \<and> budget s2 + length rest \<le> budget s1" using Cons.IH [OF _ w] b by simp
  moreover have "s' = s2" "sent = sent_list q @ rest" using Cons.prems(2) d w by simp_all
  ultimately show ?case using b by (cases q) (auto simp: sent_list_def split: if_splits)
qed simp

text \<open>Every attempt of the inner loop but the last lowers the budget, so the loop stops.\<close>

lemma drain_all_stops:
  "invar s \<Longrightarrow> budget s < length ts \<Longrightarrow> \<exists>s' sent r rest. drain_all W Q s ts = (s', sent, Some r, rest)"
proof (induction ts arbitrary: s)
  case (Cons t ts)
  obtain s1 q r where d: "drain_once W Q s t = (s1, q, r)" by (cases "drain_once W Q s t")
  show ?case
  proof (cases "r = Inr Idle \<or> isl r")
    case True
    then show ?thesis using d by (simp split: prod.splits)
  next
    case False
    then have "invar s1" "budget s1 < length ts" using drain_once_budget [OF Cons.prems(1) d] Cons.prems(2) by (auto split: if_splits)
    then obtain s' sent r' rest where "drain_all W Q s1 ts = (s', sent, Some r', rest)" using Cons.IH by blast
    then show ?thesis using d False by auto
  qed
qed simp

end

section \<open>The store keeps the contract\<close>

definition queue_items :: "ApStore \<Rightarrow> int \<rightharpoonup> int" where
  "queue_items s = map_of (map (\<lambda>r. (dq_id r, dq_attempts r)) (as_queue s))"

definition queue_refusals :: "ApStore \<Rightarrow> nat" where
  "queue_refusals s = length (filter (\<lambda>f. f \<noteq> None) (as_faults s))"

lemma exec_statement:
  assumes "schema_ok s" "\<And>s0. schema_ok s0 \<Longrightarrow> as_queue s0 = as_queue s \<Longrightarrow>
    schema_ok (fst (stmt s0)) \<and> queue_items (fst (stmt s0)) = target \<and> as_faults (fst (stmt s0)) = as_faults s0"
  shows "statement_to schema_ok queue_items queue_refusals s target (exec s stmt)"
proof -
  obtain s' r where e: "exec s stmt = (s', r)" by force
  have s0: "schema_ok (s\<lparr>as_faults := fs\<rparr>)" for fs using assms(1) by (simp add: schema_ok_def)
  note st = assms(2) [OF s0, simplified]
  consider x fs where "as_faults s = Some x # fs" "s' = s\<lparr>as_faults := fs\<rparr>" "r = Inl x"
    | s1 a where "stmt (s\<lparr>as_faults := tl (as_faults s)\<rparr>) = (s1, a)" "s' = s1" "r = Inr a" "as_faults s = [] \<or> hd (as_faults s) = None"
    using exec_cases [OF e] by blast
  then show ?thesis
  proof cases
    case 1
    then show ?thesis using s0 by (simp add: statement_to_def e queue_items_def queue_refusals_def)
  next
    case 2
    have "queue_refusals s' \<le> queue_refusals s"
      using st [of "tl (as_faults s)"] 2 by (cases "as_faults s") (auto simp: queue_refusals_def)
    then show ?thesis using st [of "tl (as_faults s)"] 2 by (simp add: statement_to_def e)
  qed
qed

lemma schema_distinct_queue: "schema_ok s \<Longrightarrow> distinct (map dq_id (as_queue s))"
  by (auto simp: schema_ok_def strict_sorted_iff)

lemma queue_items_row: "schema_ok s \<Longrightarrow> r \<in> set (as_queue s) \<Longrightarrow> queue_items s (dq_id r) = Some (dq_attempts r)"
  using schema_distinct_queue [of s] by (auto simp: queue_items_def comp_def intro!: map_of_is_SomeI)

lemma first_due_member: "first_due now rows = Some r \<Longrightarrow> r \<in> set rows \<and> dq_next_retry r \<le> now"
proof -
  assume "first_due now rows = Some r"
  then obtain rs where "sort_key dq_id (filter (\<lambda>r. dq_next_retry r \<le> now) rows) = r # rs"
    by (auto simp: first_due_def split: list.splits)
  then have "r \<in> set (filter (\<lambda>r. dq_next_retry r \<le> now) rows)" by (metis list.set_intros(1) set_sort)
  then show ?thesis by simp
qed

lemma map_of_filter_drop: "map_of (map (\<lambda>r. (f r, g r)) (filter (\<lambda>r. f r \<noteq> q) rows)) = (map_of (map (\<lambda>r. (f r, g r)) rows))(q := None)"
  by (induction rows) auto

lemma map_of_update_rows:
  assumes "\<And>r. dq_id (f r) = dq_id r \<and> dq_attempts (f r) = dq_attempts r + 1"
  shows "map_of (map (\<lambda>r. (dq_id r, dq_attempts r)) (update_rows (\<lambda>r. dq_id r = q) f rows))
    = (\<lambda>x. if x = q then map_option (\<lambda>a. a + 1) (map_of (map (\<lambda>r. (dq_id r, dq_attempts r)) rows) q)
          else map_of (map (\<lambda>r. (dq_id r, dq_attempts r)) rows) x)"
  by (induction rows) (auto simp: update_rows_def assms)

interpretation store_queue: delivery_queue "ap_queue_ops J" schema_ok queue_items queue_refusals
proof
  fix s s' :: ApStore and now q d a :: int and it aid st e
  show "finite (dom (queue_items s))" by (simp add: queue_items_def finite_dom_map_of)
  assume inv: "schema_ok s"
  show "statement_to schema_ok queue_items queue_refusals s (queue_items s) (qo_next_due (ap_queue_ops J) s now)"
    using inv by (auto simp: ap_queue_ops_def next_due_delivery_def queue_items_def intro!: exec_statement)
  show "statement_to schema_ok queue_items queue_refusals s (queue_items s) (qo_load (ap_queue_ops J) s aid)"
    using inv by (auto simp: ap_queue_ops_def load_activity_def queue_items_def intro!: exec_statement)
  show "statement_to schema_ok queue_items queue_refusals s (queue_items s) (qo_mark (ap_queue_ops J) s aid st)"
    using inv by (auto simp: ap_queue_ops_def mark_outbox_state_def queue_items_def schema_ok_def update_rows_map intro!: exec_statement)
  show "statement_to schema_ok queue_items queue_refusals s ((queue_items s)(q := None)) (qo_drop (ap_queue_ops J) s q)"
    using inv by (auto simp: ap_queue_ops_def drop_delivery_def queue_items_def map_of_filter_drop schema_ok_def
        sorted_wrt_map_filter list_all_iff intro!: exec_statement)
  show "queue_items s (di_queue_id it) = Some (di_attempts it)" if "qo_next_due (ap_queue_ops J) s now = (s', Inr (Some it))"
  proof -
    have "exec s (\<lambda>s. (s, map_option item_of (first_due now (as_queue s)))) = (s', Inr (Some it))"
      using that by (simp add: ap_queue_ops_def next_due_delivery_def)
    then obtain r where "first_due now (as_queue s) = Some r" "it = item_of r"
      by (drule_tac exec_cases) (auto dest!: sym [of "Some it"])
    then show ?thesis using queue_items_row [OF inv] first_due_member by (auto simp: item_of_def)
  qed
  show "statement_to schema_ok queue_items queue_refusals s ((queue_items s)(q := Some (a + 1))) (qo_reschedule (ap_queue_ops J) s now q d e)"
    if "queue_items s q = Some a"
    using inv that by (auto simp: ap_queue_ops_def reschedule_delivery_def queue_items_def map_of_update_rows schema_ok_def
        update_rows_map set_update_rows list_all_iff intro!: exec_statement)
qed

section \<open>Deliveries end\<close>

lemma weight_rows: "distinct (map dq_id rows) \<Longrightarrow> weight (map_of (map (\<lambda>r. (dq_id r, dq_attempts r)) rows)) = (\<Sum>r \<leftarrow> rows. attempts_left (dq_attempts r))"
proof (induction rows)
  case Nil
  then show ?case by (simp add: weight_def)
next
  case (Cons r rows)
  let ?m = "map_of (map (\<lambda>r. (dq_id r, dq_attempts r)) rows)"
  have "?m (dq_id r) = None" using Cons.prems by (auto simp: map_of_eq_None_iff image_iff)
  then have "?m(dq_id r := None) = ?m" by auto
  moreover have "finite (dom (?m(dq_id r \<mapsto> dq_attempts r)))" by (simp add: finite_dom_map_of)
  ultimately have "weight (?m(dq_id r \<mapsto> dq_attempts r)) = attempts_left (dq_attempts r) + weight ?m"
    using weight_remove [of "?m(dq_id r \<mapsto> dq_attempts r)" "dq_id r" "dq_attempts r"] by simp
  then show ?case using Cons by (simp add: fun_upd_def)
qed

text \<open>The cost a store can still cause: the attempts left to the rows of its queue, and its refusals.\<close>

definition delivery_cost :: "ApStore \<Rightarrow> nat" where
  "delivery_cost s = (\<Sum>r \<leftarrow> as_queue s. attempts_left (dq_attempts r)) + queue_refusals s"

lemma store_budget: "schema_ok s \<Longrightarrow> store_queue.budget s = delivery_cost s"
  by (simp add: store_queue.budget_def delivery_cost_def queue_items_def weight_rows schema_distinct_queue)

text \<open>C31: Delivering ends. From any well-formed store, whatever the clock reads and the network answers, all the
  ticks of the worker together send at most one request per attempt that the queue has left, six for a fresh
  row, and one per statement the database refuses; and the inner loop of the poller stops within as many
  attempts and one.\<close>

theorem deliveries_bounded:
  assumes "schema_ok s"
  shows "length (snd (run_worker W (ap_queue_ops J) s ts)) \<le> delivery_cost s
    \<and> (delivery_cost s < length ts \<longrightarrow> (\<exists>s' sent r rest. drain_all W (ap_queue_ops J) s ts = (s', sent, Some r, rest)))"
  using store_queue.run_worker_bounded [OF assms, of W J ts "fst (run_worker W (ap_queue_ops J) s ts)" "snd (run_worker W (ap_queue_ops J) s ts)"]
    store_queue.drain_all_stops [OF assms, of ts W J] store_budget [OF assms]
  by auto

definition sample_worker :: "(string, string, string) worker" where
  "sample_worker = \<lparr>wk_config = \<lparr>dc_private_key_pem = ''SK'', dc_key_id = va_key_id sample_signer\<rparr>, wk_crypto = toy_crypto (\<lambda>_. True), wk_to_vec = (\<lambda>_. Inr ''{}'')\<rparr>"

definition queued_store :: "string \<Rightarrow> ApStore" where
  "queued_store inbox = fold (run_statement plain_json) [RecordOutbox 0 ''u'' ''me'' sample_note, EnqueueDelivery 0 ''c1'' inbox] ApStore_empty"

definition failing_tick :: tick where
  "failing_tick = \<lparr>tk_now = 9, tk_date = ''Thu'', tk_answer = HttpStatus 503, tk_later = 0 - 86400 * SECOND\<rparr>"

text \<open>With a clock that lets every retry come due, a server that always answers 503 sees exactly six requests.\<close>

theorem deliveries_bounded_witness:
  "length (snd (run_worker sample_worker (ap_queue_ops plain_json) (queued_store ''https://b.example/inbox'') (replicate 9 failing_tick))) \<le> 6
    \<and> length (snd (run_worker sample_worker (ap_queue_ops plain_json) (queued_store ''https://b.example/inbox'') (replicate 9 failing_tick))) = 6"
proof -
  let ?s = "queued_store ''https://b.example/inbox''"
  have "schema_ok ?s" unfolding queued_store_def by (rule statements_schema [OF store_well_formed_start])
  moreover have "delivery_cost ?s = 6" by code_simp
  moreover have "length (snd (run_worker sample_worker (ap_queue_ops plain_json) ?s (replicate 9 failing_tick))) = 6" by code_simp
  ultimately show ?thesis using deliveries_bounded [of ?s sample_worker plain_json "replicate 9 failing_tick"] by simp
qed

section \<open>What is sent verifies\<close>

lemma delivery_request_signed:
  assumes "delivery_request W t it v = Inr req"
  shows "\<exists>q date. ap_sign_request (wk_crypto W) date q (dc_private_key_pem (wk_config W)) (dc_key_id (wk_config W)) = Inr req
    \<and> obr_method q = ''POST'' \<and> obr_url q = di_inbox_url it \<and> wk_to_vec W v = Inr (obr_body q)"
  using assms by (auto simp: delivery_request_def rbind_Inr_conv)

lemma drain_once_sent:
  assumes "drain_once W Q s t = (s', Some req, r)"
  shows "\<exists>it v. delivery_request W t it v = Inr req"
  using assms by (auto simp: drain_once_def split: prod.splits sum.splits option.splits)

lemma run_worker_sent:
  "run_worker W Q s ts = (s', sent) \<Longrightarrow> req \<in> set sent \<Longrightarrow> \<exists>t it v. t \<in> set ts \<and> delivery_request W t it v = Inr req"
proof (induction ts arbitrary: s s' sent)
  case (Cons t ts)
  obtain s1 q r where d: "drain_once W Q s t = (s1, q, r)" by (cases "drain_once W Q s t")
  obtain s2 rest where w: "run_worker W Q s1 ts = (s2, rest)" by force
  have "req \<in> set (sent_list q) \<or> req \<in> set rest" using Cons.prems d w by auto
  then show ?case
  proof
    assume "req \<in> set (sent_list q)"
    then have "q = Some req" by (cases q) (auto simp: sent_list_def)
    then show ?thesis using drain_once_sent d by fastforce
  next
    assume "req \<in> set rest"
    then show ?thesis using Cons.IH [OF w] by auto
  qed
qed simp

lemma signed_request_url: "ap_sign_request hc date q pem kid = Inr req \<Longrightarrow> obr_url req = obr_url q"
  unfolding ap_sign_request_def Let_def rbind_Inr_conv by auto

text \<open>Every request that a run of the worker sends is accepted by its receiver. With any key pair, whatever
  the queue, the clock and the answers, a receiver that resolves the pod's key identifier to the actor with its
  public key verifies each request, at the path its URL names, as coming from the pod.\<close>

theorem sent_requests_verify:
  assumes "run_worker W Q s ts = (s', sent)" "req \<in> set sent"
    and "hc_private_from_pem (wk_crypto W) (dc_private_key_pem (wk_config W)) = Inr sk"
    and "hc_public_from_pem (wk_crypto W) (va_public_key_pem pod) = Inr pk"
    and "sound_pair (wk_crypto W) sk pk" "sound_b64 (wk_crypto W)"
    and "resolver (dc_key_id (wk_config W)) = Inr pod" "dc_key_id (wk_config W) \<noteq> []" "CHR 0x22 \<notin> set (dc_key_id (wk_config W))"
  shows "\<exists>u. hc_parse_url (wk_crypto W) (obr_url req) = Inr u
    \<and> ap_verify_request_signature (wk_crypto W) (received req (request_path u)) resolver = Inr pod"
proof -
  obtain t it v where "delivery_request W t it v = Inr req" using run_worker_sent [OF assms(1,2)] by blast
  then obtain q date where q: "ap_sign_request (wk_crypto W) date q (dc_private_key_pem (wk_config W)) (dc_key_id (wk_config W)) = Inr req"
    using delivery_request_signed by blast
  show ?thesis using outbound_request_verifies [where resolver = resolver, OF q assms(3-9)] signed_request_url [OF q] by simp
qed

lemma toy_sound: "sound_pair (toy_crypto (\<lambda>_. True)) sk pk" "sound_b64 (toy_crypto (\<lambda>_. True))"
  using unesc_esc esc_plain by (auto simp: sound_pair_def sound_b64_def toy_crypto_def neq_Nil_conv)

theorem sent_requests_verify_witness:
  "\<exists>s' req sent. run_worker sample_worker (ap_queue_ops plain_json) (queued_store ''https://b.example/inbox'') [failing_tick] = (s', req # sent)
    \<and> ap_verify_request_signature (toy_crypto (\<lambda>_. True)) (received req ''/inbox'') sample_resolver = Inr sample_signer"
proof -
  obtain s' sent where r: "run_worker sample_worker (ap_queue_ops plain_json) (queued_store ''https://b.example/inbox'') [failing_tick] = (s', sent)" by force
  have "snd (run_worker sample_worker (ap_queue_ops plain_json) (queued_store ''https://b.example/inbox'') [failing_tick]) \<noteq> []"
    "list_all (\<lambda>q. obr_url q = ''https://b.example/inbox'') (snd (run_worker sample_worker (ap_queue_ops plain_json) (queued_store ''https://b.example/inbox'') [failing_tick]))"
    by code_simp+
  then obtain req rest where sent: "sent = req # rest" "obr_url req = ''https://b.example/inbox''" using r by (cases sent) auto
  have wk: "wk_crypto sample_worker = toy_crypto (\<lambda>_. True)" "dc_key_id (wk_config sample_worker) = va_key_id sample_signer"
    "dc_private_key_pem (wk_config sample_worker) = ''SK''" by (simp_all add: sample_worker_def)
  have priv: "hc_private_from_pem (wk_crypto sample_worker) (dc_private_key_pem (wk_config sample_worker)) = Inr ''SK''"
    and pub: "hc_public_from_pem (wk_crypto sample_worker) (va_public_key_pem sample_signer) = Inr ''PEM''"
    unfolding wk by (simp_all add: toy_crypto_def sample_signer_def)
  have sound: "sound_pair (wk_crypto sample_worker) ''SK'' ''PEM''" "sound_b64 (wk_crypto sample_worker)" unfolding wk by (rule toy_sound)+
  have key: "sample_resolver (dc_key_id (wk_config sample_worker)) = Inr sample_signer" "dc_key_id (wk_config sample_worker) \<noteq> []"
    "CHR 0x22 \<notin> set (dc_key_id (wk_config sample_worker))" unfolding wk by (simp_all add: sample_resolver_def sample_signer_def)
  obtain u where u: "hc_parse_url (toy_crypto (\<lambda>_. True)) (obr_url req) = Inr u"
    "ap_verify_request_signature (toy_crypto (\<lambda>_. True)) (received req (request_path u)) sample_resolver = Inr sample_signer"
    using sent_requests_verify [where resolver = sample_resolver and req = req, OF r _ priv pub sound key] sent(1) unfolding wk by auto
  have "hc_parse_url (toy_crypto (\<lambda>_. True)) ''https://b.example/inbox'' = Inr \<lparr>url_host = Some ''b.example'', url_path = ''/inbox'', url_query = None\<rparr>"
    by code_simp
  then have "request_path u = ''/inbox''" using u(1) sent(2) by (auto simp: request_path_def)
  then show ?thesis using r sent(1) u(2) by auto
qed

section \<open>A delivery that cannot be signed\<close>

lemma first_due_head:
  assumes "schema_ok s" "as_queue s = r # rows" "dq_next_retry r \<le> now"
  shows "first_due now (as_queue s) = Some r"
proof -
  have "sorted (map dq_id (as_queue s))" using assms(1) by (simp add: schema_ok_def strict_sorted_iff)
  then have "sorted (map dq_id (filter (\<lambda>r. dq_next_retry r \<le> now) (as_queue s)))" by (rule sorted_filter)
  note this [THEN sort_key_id_if_sorted]
  then show ?thesis unfolding first_due_def using assms(2,3) by simp
qed

lemma drain_once_stuck:
  assumes "schema_ok s" "as_faults s = []" "as_queue s = r # rows" "dq_next_retry r \<le> tk_now t"
    and "find (\<lambda>o'. ob_id o' = dq_activity r) (as_outbox s) = Some ob" "aj_from_str J (ob_activity ob) = Some v"
    and "wk_to_vec W v = Inr b" "hc_parse_url (wk_crypto W) (dq_inbox r) = Inl e"
  shows "drain_once W (ap_queue_ops J) s t = (s, None, Inl (ObSignature (SigUrl e)))"
proof -
  have "next_due_delivery s (tk_now t) = (s, Inr (Some (item_of r)))"
    using first_due_head [OF assms(1,3,4)] assms(2) by (simp add: next_due_delivery_def exec_ok)
  moreover have "load_activity J s (di_activity_id (item_of r)) = (s, Inr (Some v))"
    using assms(2,5,6) by (simp add: load_activity_def exec_ok item_of_def)
  moreover have "delivery_request W t (item_of r) v = Inl (ObSignature (SigUrl e))"
    using assms(7,8) by (simp add: delivery_request_def ap_sign_request_def item_of_def)
  ultimately show ?thesis by (simp add: drain_once_def ap_queue_ops_def)
qed

text \<open>One bad inbox address stops all federation. When the oldest row of the queue is due and its address does
  not parse as a URL, every attempt fails before anything is dropped or rescheduled: no tick ever sends a
  request or changes the store, for this row or for any other, from then on.\<close>

theorem bad_inbox_blocks_queue:
  assumes "schema_ok s" "as_faults s = []" "as_queue s = r # rows" "list_all (\<lambda>t. dq_next_retry r \<le> tk_now t) ts"
    and "find (\<lambda>o'. ob_id o' = dq_activity r) (as_outbox s) = Some ob" "aj_from_str J (ob_activity ob) = Some v"
    and "wk_to_vec W v = Inr b" "hc_parse_url (wk_crypto W) (dq_inbox r) = Inl e"
  shows "run_worker W (ap_queue_ops J) s ts = (s, [])"
  using assms(4) by (induction ts) (simp_all add: drain_once_stuck [OF assms(1-3) _ assms(5-8)] sent_list_def)

text \<open>Anybody can bring this about: a follow that names an inbox without a scheme, then any post of the pod.\<close>

definition poisoned_store :: ApStore where
  "poisoned_store =
     (let s0 = fst (handle_inbox plain_json ApStore_empty 0 0 ''u'' (ac_id sample_actor) sample_signer (follow_of ''f1'' ''eve'' ''nowhere''));
          s1 = fst (handle_inbox plain_json s0 1 1 ''u'' (ac_id sample_actor) sample_signer (follow_of ''f2'' ''bob'' ''https://b.example/inbox''))
      in fst (handle_outbox plain_json s1 (\<lambda>_. 2) (\<lambda>_. ''x'') sample_actor sample_note))"

theorem bad_inbox_blocks_queue_witness:
  "map queue_row (as_queue poisoned_store) = [(''c1'', ''nowhere'', 0), (''c1'', ''https://b.example/inbox'', 0)]
    \<and> run_worker sample_worker (ap_queue_ops plain_json) poisoned_store (replicate 100 failing_tick) = (poisoned_store, [])"
proof -
  let ?s = poisoned_store and ?r = "hd (as_queue poisoned_store)"
  have s: "schema_ok ?s" "as_faults ?s = []" "as_queue ?s = ?r # tl (as_queue ?s)" by code_simp+
  have t: "list_all (\<lambda>t. dq_next_retry ?r \<le> tk_now t) (replicate 100 failing_tick)" by code_simp
  have f: "find (\<lambda>o'. ob_id o' = dq_activity ?r) (as_outbox ?s) = Some (hd (as_outbox ?s))"
    "aj_from_str plain_json (ob_activity (hd (as_outbox ?s))) = Some JNull" by code_simp+
  have w: "wk_to_vec sample_worker JNull = Inr ''{}''" "hc_parse_url (wk_crypto sample_worker) (dq_inbox ?r) = Inl ''relative URL without a base''" by code_simp+
  have "map queue_row (as_queue ?s) = [(''c1'', ''nowhere'', 0), (''c1'', ''https://b.example/inbox'', 0)]" by code_simp
  then show ?thesis using bad_inbox_blocks_queue [OF s t f w] by blast
qed

end
