(* ===== verification/Git_Service.thy ===== *)
theory Git_Service
  imports Fs_Backend Nip98 Multitenant
begin

text \<open>
  The Git HTTP service (\<open>solid-pod-rs-git/src\<close>): the path guard (\<open>guard.rs\<close>), the bridge to NIP-98 (\<open>auth.rs\<close>), the
  repository lookup and the configuration written before a push (\<open>config.rs\<close>), and the service that runs the
  CGI program (\<open>service.rs\<close>). Running a program is a parameter; what the service runs, with which environment,
  is part of its result. Canonical paths, Base64, the renderings of foreign errors and the environment of the
  process are parameters too. A header name that lower-cases to an ASCII name is compared by ASCII case.
\<close>

section \<open>Errors\<close>

datatype AuthError =
    AuthMissing
  | AuthMalformed string
  | AuthVerification string

datatype GitError =
    PathTraversal string
  | Unauthorised string
  | NotARepository string
  | BackendNotAvailable string
  | BackendFailed "int option" string
  | MalformedCgi string
  | GitIo io_error
  | GitAuthError AuthError

fun GitError_status_code :: "GitError \<Rightarrow> nat" where
  "GitError_status_code (PathTraversal _) = 400"
| "GitError_status_code (Unauthorised _) = 401"
| "GitError_status_code (GitAuthError _) = 401"
| "GitError_status_code (NotARepository _) = 404"
| "GitError_status_code (BackendNotAvailable _) = 500"
| "GitError_status_code (BackendFailed _ _) = 500"
| "GitError_status_code (MalformedCgi _) = 500"
| "GitError_status_code (GitIo _) = 500"

section \<open>Requests and responses\<close>

record GitRequest =
  gq_method :: string
  gq_path :: string
  gq_query :: string
  gq_headers :: "(string \<times> string) list"
  gq_body :: bytes
  gq_host_url :: "string option"

record GitResponse =
  gp_status :: nat
  gp_headers :: "(string \<times> string) list"
  gp_body :: bytes

definition auth_url :: "GitRequest \<Rightarrow> string" where
  "auth_url req = (let base = unwrap_or (gq_host_url req) ''http://localhost'' in
     if gq_query req = [] then base @ gq_path req else base @ gq_path req @ ''?'' @ gq_query req)"

definition is_write :: "GitRequest \<Rightarrow> bool" where
  "is_write req \<longleftrightarrow> contains_sub ''/git-receive-pack'' (gq_path req) \<or> contains_sub ''service=git-receive-pack'' (gq_query req)"

definition GitResponse_error :: "nat \<Rightarrow> string \<Rightarrow> GitResponse" where
  "GitResponse_error status msg = (let q = [CHR 0x22] in
     \<lparr>gp_status = status, gp_headers = [(''content-type'', ''application/json''), (''access-control-allow-origin'', ''*'')],
      gp_body = ''{'' @ q @ ''error'' @ q @ '':'' @ q @ msg @ q @ ''}''\<rparr>)"

section \<open>The path guard\<close>

text \<open>A suffix that ends the string is its last occurrence, so the search from the right is a test of the end.\<close>

fun strip_route :: "string list \<Rightarrow> string \<Rightarrow> string" where
  "strip_route [] clean = clean"
| "strip_route (ending # rest) clean = (case strip_suffix ending clean of Some r \<Rightarrow> r | None \<Rightarrow> strip_route rest clean)"

definition extract_repo_slug :: "string \<Rightarrow> string" where
  "extract_repo_slug url_path =
     (let no_query = (case find_char ((=) (CHR ''?'')) url_path of Some i \<Rightarrow> take i url_path | None \<Rightarrow> url_path);
          route = strip_route [''/info/refs'', ''/git-upload-pack'', ''/git-receive-pack''] no_query;
          clean = scrub_dotdot (trim_start_matches (CHR ''/'') route)
      in if clean = [] then ''.'' else clean)"

definition has_parent_component :: "string \<Rightarrow> bool" where
  "has_parent_component p \<longleftrightarrow> ''..'' \<in> set (split_on (CHR ''/'') p)"

record 'd git_env =
  ge_fs :: "'d fs_ops"
  ge_canonicalize :: "'d \<Rightarrow> string \<Rightarrow> io_error + string"
  ge_io_text :: "io_error \<Rightarrow> string"
  ge_nip98 :: nip98_env
  ge_base64 :: "string \<Rightarrow> string + bytes"
  ge_utf8_text :: "bytes \<Rightarrow> string"
  ge_debug :: "PodError \<Rightarrow> string"
  ge_to_lowercase :: "string \<Rightarrow> string"
  ge_lossy :: "bytes \<Rightarrow> string"
  ge_path :: "string option"

definition path_safe :: "'d git_env \<Rightarrow> 'd \<Rightarrow> string \<Rightarrow> string \<Rightarrow> GitError + string" where
  "path_safe G d repo_root requested =
     (if starts_with ''/'' requested then Inl (PathTraversal (''absolute path rejected: '' @ requested))
      else if has_parent_component requested then Inl (PathTraversal ([CHR 0x60] @ ''..'' @ [CHR 0x60] @ '' component rejected: '' @ requested))
      else rbind (map_err (\<lambda>e. PathTraversal (''root canonicalize: '' @ ge_io_text G e)) (ge_canonicalize G d repo_root)) (\<lambda>root_canon.
        let candidate = path_join root_canon requested in
        if \<not> path_starts_with candidate root_canon then Inl (PathTraversal (''resolved path escapes root: '' @ candidate))
        else Inr candidate))"

section \<open>Authorisation\<close>

record BasicNostrExtractor =
  bn_allowed_pubkeys :: "string list option"

definition BasicNostrExtractor_new :: BasicNostrExtractor where
  "BasicNostrExtractor_new = \<lparr>bn_allowed_pubkeys = None\<rparr>"

definition with_allowed :: "'d git_env \<Rightarrow> BasicNostrExtractor \<Rightarrow> string list \<Rightarrow> BasicNostrExtractor" where
  "with_allowed G x pubkeys = x\<lparr>bn_allowed_pubkeys := Some (map (ge_to_lowercase G) pubkeys)\<rparr>"

definition extract_nostr_token :: "'d git_env \<Rightarrow> string \<Rightarrow> AuthError + string" where
  "extract_nostr_token G header_value =
     rbind (ok_or (strip_prefix ''Basic '' header_value) (AuthMalformed ''not a Basic scheme'')) (\<lambda>b64.
     rbind (map_err (\<lambda>e. AuthMalformed (''base64 decode: '' @ e)) (ge_base64 G (trim b64))) (\<lambda>decoded.
     rbind (ok_or (from_utf8 decoded) (AuthMalformed (''utf-8 decode: '' @ ge_utf8_text G decoded))) (\<lambda>creds.
     rbind (ok_or (split_once (CHR '':'') creds) (AuthMalformed ''no colon in credentials'')) (\<lambda>(user, pass).
     if user \<noteq> ''nostr'' then Inl (AuthMalformed (''expected username '' @ [CHR 0x27] @ ''nostr'' @ [CHR 0x27] @ '', got '' @ [CHR 0x27] @ user @ [CHR 0x27]))
     else if pass = [] then Inl (AuthMalformed ''empty token'')
     else Inr pass))))"

definition eq_ignore_ascii_case :: "string \<Rightarrow> string \<Rightarrow> bool" where
  "eq_ignore_ascii_case a b \<longleftrightarrow> to_ascii_lowercase a = to_ascii_lowercase b"

definition request_token :: "'d git_env \<Rightarrow> GitRequest \<Rightarrow> AuthError + string" where
  "request_token G req =
     rbind (ok_or (map_option snd (find (\<lambda>(k, _). eq_ignore_ascii_case k ''authorization'') (gq_headers req))) AuthMissing) (\<lambda>auth_header.
     case strip_prefix ''Basic '' auth_header of
       Some stripped \<Rightarrow> extract_nostr_token G (''Basic '' @ stripped)
     | None \<Rightarrow> (case strip_prefix ''Nostr '' auth_header of
         Some stripped \<Rightarrow> Inr (trim stripped)
       | None \<Rightarrow> Inl (AuthMalformed ''unknown Authorization scheme'')))"

definition authorise :: "'d git_env \<Rightarrow> u64 \<Rightarrow> BasicNostrExtractor \<Rightarrow> GitRequest \<Rightarrow> AuthError + string" where
  "authorise G now x req =
     rbind (request_token G req) (\<lambda>token.
     rbind (map_err (\<lambda>e. AuthVerification (ge_debug G e))
        (verify_at (ge_nip98 G) (''Nostr '' @ token) (auth_url req) (gq_method req) None now)) (\<lambda>verified.
     case bn_allowed_pubkeys x of
       Some allowed \<Rightarrow>
         (let pk = ge_to_lowercase G (nv_pubkey verified) in
          if pk \<notin> set allowed then Inl (AuthVerification (''pubkey not in allow-list: '' @ pk)) else Inr (nv_pubkey verified))
     | None \<Rightarrow> Inr (nv_pubkey verified)))"

section \<open>Repositories\<close>

record GitDir =
  gd_git_dir :: string
  gd_is_regular :: bool

definition is_directory :: "'d fs_ops \<Rightarrow> 'd \<Rightarrow> string \<Rightarrow> bool" where
  "is_directory D d p \<longleftrightarrow> (case fo_tree D d p of Inr (Dir _) \<Rightarrow> True | _ \<Rightarrow> False)"

definition path_exists :: "'d fs_ops \<Rightarrow> 'd \<Rightarrow> string \<Rightarrow> bool" where
  "path_exists D d p \<longleftrightarrow> is_ok (fo_tree D d p)"

definition find_git_dir :: "'d fs_ops \<Rightarrow> 'd \<Rightarrow> string \<Rightarrow> GitDir option" where
  "find_git_dir D d repo_path =
     (if \<not> path_exists D d repo_path \<or> \<not> is_directory D d repo_path then None
      else (let dot_git = path_join repo_path ''.git'' in
        if path_exists D d dot_git \<and> is_directory D d dot_git then Some \<lparr>gd_git_dir = dot_git, gd_is_regular = True\<rparr>
        else if path_exists D d (path_join repo_path ''objects'') \<and> path_exists D d (path_join repo_path ''refs'')
          then Some \<lparr>gd_git_dir = repo_path, gd_is_regular = False\<rparr>
        else None))"

text \<open>The commands \<open>git config --local key value\<close> that are run, each in the directory with \<open>GIT_DIR\<close> set. Their
  results are dropped by the caller.\<close>

record config_command =
  cc_cwd :: string
  cc_git_dir :: string
  cc_key :: string
  cc_value :: string

definition apply_write_config :: "GitDir \<Rightarrow> string \<Rightarrow> config_command list" where
  "apply_write_config g cwd =
     [\<lparr>cc_cwd = cwd, cc_git_dir = gd_git_dir g, cc_key = ''http.receivepack'', cc_value = ''true''\<rparr>]
     @ (if gd_is_regular g then [\<lparr>cc_cwd = cwd, cc_git_dir = gd_git_dir g, cc_key = ''receive.denyCurrentBranch'', cc_value = ''updateInstead''\<rparr>] else [])"

text \<open>How running a program can go: it is not there, the system fails, or it ends with its output. The tasks that
  read the output do not panic.\<close>

datatype program_run =
    ProgramNotFound string
  | ProgramIo io_error
  | ProgramExit bool "int option" bytes bytes

definition run_git_config :: "'d git_env \<Rightarrow> program_run \<Rightarrow> GitError + unit" where
  "run_git_config G run = (case run of
     ProgramNotFound e \<Rightarrow> Inl (BackendNotAvailable (''git binary not found: '' @ e))
   | ProgramIo e \<Rightarrow> Inl (GitIo e)
   | ProgramExit ok code _ stderr \<Rightarrow> if ok then Inr () else Inl (BackendFailed code (ge_lossy G stderr)))"

section \<open>The output of the CGI program\<close>

fun split_lines_any :: "string \<Rightarrow> string list" where
  "split_lines_any [] = [[]]"
| "split_lines_any (c # cs) =
     (if c = CHR 0x0A \<or> c = CHR 0x0D then [] # split_lines_any cs
      else (case split_lines_any cs of l # ls \<Rightarrow> (c # l) # ls | [] \<Rightarrow> [[c]]))"

definition cgi_status :: "string \<Rightarrow> nat" where
  "cgi_status value = (case split_whitespace value of w # _ \<Rightarrow> unwrap_or (parse_uint 16 w) 200 | [] \<Rightarrow> 200)"

fun cgi_headers :: "string list \<Rightarrow> nat \<Rightarrow> (string \<times> string) list \<Rightarrow> nat \<times> (string \<times> string) list" where
  "cgi_headers [] status hs = (status, hs)"
| "cgi_headers (line0 # ls) status hs =
     (let line = trim line0 in
      if line = [] then cgi_headers ls status hs
      else (case split_once (CHR '':'') line of
          None \<Rightarrow> cgi_headers ls status hs
        | Some (k, v) \<Rightarrow>
            (let key = trim k; value = trim v in
             if eq_ignore_ascii_case key ''status'' then cgi_headers ls (cgi_status value) hs
             else cgi_headers ls status (hs @ [(key, value)]))))"

definition cgi_cors :: "(string \<times> string) list" where
  "cgi_cors = [(''Access-Control-Allow-Origin'', ''*''), (''Access-Control-Allow-Methods'', ''GET, POST, OPTIONS''),
     (''Access-Control-Allow-Headers'', ''Content-Type, Authorization'')]"

definition CRLF2 :: string where "CRLF2 = [CHR 0x0D, CHR 0x0A, CHR 0x0D, CHR 0x0A]"

definition LF2 :: string where "LF2 = [CHR 0x0A, CHR 0x0A]"

definition cgi_separator :: "bytes \<Rightarrow> (nat \<times> nat) option" where
  "cgi_separator stdout = (case find_sub CRLF2 stdout of Some i \<Rightarrow> Some (i, 4)
     | None \<Rightarrow> (case find_sub LF2 stdout of Some i \<Rightarrow> Some (i, 2) | None \<Rightarrow> None))"

definition parse_cgi_output :: "'d git_env \<Rightarrow> bytes \<Rightarrow> GitError + GitResponse" where
  "parse_cgi_output G stdout =
     rbind (ok_or (cgi_separator stdout) (MalformedCgi ''no header/body separator'')) (\<lambda>(sep_idx, sep_len).
     rbind (ok_or (from_utf8 (take sep_idx stdout)) (MalformedCgi (''utf-8 in headers: '' @ ge_utf8_text G (take sep_idx stdout)))) (\<lambda>header_section.
     let (status, hs) = cgi_headers (split_lines_any header_section) 200 [] in
     Inr \<lparr>gp_status = status, gp_headers = hs @ cgi_cors, gp_body = drop (sep_idx + sep_len) stdout\<rparr>))"

section \<open>Running the CGI program\<close>

text \<open>One variable of the environment for each name; a later assignment replaces an earlier one.\<close>

definition set_var :: "string \<Rightarrow> string \<Rightarrow> (string \<times> string) list \<Rightarrow> (string \<times> string) list" where
  "set_var k v env = AList.update k v env"

definition set_default :: "string \<Rightarrow> string \<Rightarrow> (string \<times> string) list \<Rightarrow> (string \<times> string) list" where
  "set_default k v env = (if map_of env k = None then AList.update k v env else env)"

definition header_var :: "string \<times> string \<Rightarrow> (string \<times> string) list \<Rightarrow> (string \<times> string) list" where
  "header_var kv env = (let kl = to_ascii_lowercase (fst kv) in
     if kl = ''content-type'' then set_var ''CONTENT_TYPE'' (snd kv) env
     else if kl = ''content-length'' then set_var ''CONTENT_LENGTH'' (snd kv) env
     else env)"

definition cgi_env :: "'d git_env \<Rightarrow> 'd \<Rightarrow> string \<Rightarrow> GitDir \<Rightarrow> string \<Rightarrow> GitRequest \<Rightarrow> (string \<times> string) list" where
  "cgi_env G d repo_root g remote_user req =
     (let e0 = (case ge_path G of Some p \<Rightarrow> [(''PATH'', p)] | None \<Rightarrow> []);
          root = (case ge_canonicalize G d repo_root of Inr p \<Rightarrow> p | Inl _ \<Rightarrow> repo_root);
          q = [CHR 0x27];
          e1 = fold (\<lambda>(k, v). set_var k v)
            [(''GIT_PROJECT_ROOT'', root), (''GIT_HTTP_EXPORT_ALL'', []), (''GIT_HTTP_RECEIVE_PACK'', ''true''),
             (''GIT_CONFIG_PARAMETERS'', q @ ''uploadpack.allowTipSHA1InWant=true'' @ q), (''PATH_INFO'', gq_path req),
             (''REQUEST_METHOD'', to_uppercase (gq_method req)), (''QUERY_STRING'', gq_query req), (''REMOTE_USER'', remote_user)] e0;
          e2 = fold header_var (gq_headers req) e1;
          e3 = set_default ''CONTENT_TYPE'' [] (set_default ''CONTENT_LENGTH'' (show_nat (length (gq_body req))) e2)
      in if gd_is_regular g then set_var ''GIT_DIR'' (gd_git_dir g) e3 else e3)"

definition cgi_result :: "'d git_env \<Rightarrow> string \<Rightarrow> program_run \<Rightarrow> GitError + GitResponse" where
  "cgi_result G backend run = (case run of
     ProgramNotFound e \<Rightarrow> Inl (BackendNotAvailable (''spawn '' @ backend @ '': '' @ e))
   | ProgramIo e \<Rightarrow> Inl (GitIo e)
   | ProgramExit ok code stdout stderr \<Rightarrow>
       if \<not> ok \<and> stdout = [] then Inl (BackendFailed code (ge_lossy G stderr)) else parse_cgi_output G stdout)"

section \<open>The service\<close>

record GitHttpService =
  gs_repo_root :: string
  gs_auth :: "BasicNostrExtractor option"
  gs_backend_path :: string

definition DEFAULT_GIT_HTTP_BACKEND :: string where
  "DEFAULT_GIT_HTTP_BACKEND = ''/usr/lib/git-core/git-http-backend''"

definition GitHttpService_new :: "string option \<Rightarrow> string \<Rightarrow> GitHttpService" where
  "GitHttpService_new var repo_root = \<lparr>gs_repo_root = repo_root, gs_auth = None, gs_backend_path = unwrap_or var DEFAULT_GIT_HTTP_BACKEND\<rparr>"

definition with_backend_path :: "GitHttpService \<Rightarrow> string \<Rightarrow> GitHttpService" where
  "with_backend_path self p = self\<lparr>gs_backend_path := p\<rparr>"

definition with_auth :: "GitHttpService \<Rightarrow> BasicNostrExtractor \<Rightarrow> GitHttpService" where
  "with_auth self x = self\<lparr>gs_auth := Some x\<rparr>"

text \<open>What a request made the service run: the configuration commands, and the CGI program with its
  environment and input.\<close>

record git_effects =
  gx_config :: "config_command list"
  gx_cgi :: "((string \<times> string) list \<times> bytes) option"

definition preflight_response :: GitResponse where
  "preflight_response = \<lparr>gp_status = 200, gp_headers = [(''access-control-allow-origin'', ''*''),
     (''access-control-allow-methods'', ''GET, POST, OPTIONS''), (''access-control-allow-headers'', ''Content-Type, Authorization'')], gp_body = []\<rparr>"

definition resolve_repo :: "'d git_env \<Rightarrow> 'd \<Rightarrow> GitHttpService \<Rightarrow> string \<Rightarrow> GitError + string" where
  "resolve_repo G d self slug =
     (if slug = ''.'' then map_err GitIo (ge_canonicalize G d (gs_repo_root self)) else path_safe G d (gs_repo_root self) slug)"

definition write_identity :: "'d git_env \<Rightarrow> u64 \<Rightarrow> GitHttpService \<Rightarrow> GitRequest \<Rightarrow> GitError + string" where
  "write_identity G now self req =
     (if is_write req then
        rbind (ok_or (gs_auth self) (Unauthorised ''no auth provider configured'')) (\<lambda>x.
        map_err (\<lambda>e. if e = AuthMissing then Unauthorised ''missing Authorization'' else GitAuthError e) (authorise G now x req))
      else Inr [])"

definition git_handle :: "'d git_env \<Rightarrow> 'd \<Rightarrow> u64 \<Rightarrow> ((string \<times> string) list \<Rightarrow> bytes \<Rightarrow> program_run) \<Rightarrow> GitHttpService \<Rightarrow> GitRequest \<Rightarrow> git_effects \<times> (GitError + GitResponse)" where
  "git_handle G d now backend self req =
     (let nothing = \<lparr>gx_config = [], gx_cgi = None\<rparr> in
      if eq_ignore_ascii_case (gq_method req) ''OPTIONS'' then (nothing, Inr preflight_response)
      else (let slug = extract_repo_slug (gq_path req) in
        try_with nothing (resolve_repo G d self slug) (\<lambda>repo_abs.
        try_with nothing (ok_or (find_git_dir (ge_fs G) d repo_abs) (NotARepository slug)) (\<lambda>g.
        try_with nothing (write_identity G now self req) (\<lambda>remote_user.
          let env = cgi_env G d (gs_repo_root self) g remote_user req in
          (\<lparr>gx_config = (if is_write req then apply_write_config g repo_abs else []), gx_cgi = Some (env, gq_body req)\<rparr>,
           cgi_result G (gs_backend_path self) (backend env (gq_body req))))))))"

section \<open>Pushes are authenticated\<close>

lemma map_of_set_var [simp]: "map_of (set_var k v env) = (map_of env)(k \<mapsto> v)"
  by (simp add: set_var_def update_conv')

lemma map_of_set_default: "k' \<noteq> k \<Longrightarrow> map_of (set_default k v env) k' = map_of env k'"
  by (simp add: set_default_def update_conv')

lemma map_of_header_vars:
  "k \<noteq> ''CONTENT_TYPE'' \<Longrightarrow> k \<noteq> ''CONTENT_LENGTH'' \<Longrightarrow> map_of (fold header_var hs env) k = map_of env k"
  by (induction hs arbitrary: env) (simp_all add: header_var_def Let_def)

text \<open>The variables that identify the request reach the program as they are.\<close>

lemma cgi_env_request:
  "map_of (cgi_env G d root g user req) ''REMOTE_USER'' = Some user"
  "map_of (cgi_env G d root g user req) ''PATH_INFO'' = Some (gq_path req)"
  "map_of (cgi_env G d root g user req) ''QUERY_STRING'' = Some (gq_query req)"
  "map_of (cgi_env G d root g user req) ''REQUEST_METHOD'' = Some (to_uppercase (gq_method req))"
  by (simp_all add: cgi_env_def Let_def map_of_set_default map_of_header_vars)

lemma git_handle_runs:
  assumes "git_handle G d now backend self req = (fx, r)" "gx_cgi fx = Some (env, body)"
  shows "\<exists>repo g user. resolve_repo G d self (extract_repo_slug (gq_path req)) = Inr repo \<and> find_git_dir (ge_fs G) d repo = Some g
    \<and> write_identity G now self req = Inr user \<and> env = cgi_env G d (gs_repo_root self) g user req \<and> body = gq_body req
    \<and> gx_config fx = (if is_write req then apply_write_config g repo else [])"
proof (cases "eq_ignore_ascii_case (gq_method req) ''OPTIONS''")
  case True
  then show ?thesis using assms by (auto simp: git_handle_def)
next
  case False
  show ?thesis
  proof (cases "resolve_repo G d self (extract_repo_slug (gq_path req))")
    case (Inl e)
    then show ?thesis using assms False by (auto simp: git_handle_def)
  next
    case (Inr repo)
    note repo = Inr
    show ?thesis
    proof (cases "find_git_dir (ge_fs G) d repo")
      case None
      then show ?thesis using assms False repo by (auto simp: git_handle_def)
    next
      case (Some g)
      then show ?thesis
        using assms False repo by (cases "write_identity G now self req") (auto simp: git_handle_def Let_def)
    qed
  qed
qed

text \<open>Without a run of the program nothing is configured either.\<close>

lemma git_handle_idle:
  assumes "git_handle G d now backend self req = (fx, r)" "gx_cgi fx = None"
  shows "gx_config fx = []"
proof -
  have "gx_cgi fx \<noteq> None \<or> gx_config fx = []"
    using assms(1) by (auto simp: git_handle_def Let_def try_with_def split: if_splits sum.splits)
  then show ?thesis using assms(2) by simp
qed

lemma git_handle_nothing:
  assumes "git_handle G d now backend self req = (fx, r)" "fx \<noteq> \<lparr>gx_config = [], gx_cgi = None\<rparr>"
  shows "\<exists>env body. gx_cgi fx = Some (env, body)"
proof (rule ccontr)
  assume "\<nexists>env body. gx_cgi fx = Some (env, body)"
  then have "gx_cgi fx = None" by (cases "gx_cgi fx") auto
  then have "fx = \<lparr>gx_config = [], gx_cgi = None\<rparr>" using git_handle_idle [OF assms(1)] by (cases fx) simp
  then show False using assms(2) by simp
qed

lemma authorise_ok:
  assumes "authorise G now x req = Inr user"
  shows "\<exists>token v. verify_at (ge_nip98 G) (''Nostr '' @ token) (auth_url req) (gq_method req) None now = Inr v \<and> nv_pubkey v = user
    \<and> (\<forall>ks. bn_allowed_pubkeys x = Some ks \<longrightarrow> ge_to_lowercase G user \<in> set ks)"
  using assms by (auto simp: authorise_def rbind_Inr_conv Let_def split: option.splits if_splits)


section \<open>Repositories lie below the root\<close>

lemma split_on_append_sep: "split_on c (a @ c # b) = split_on c a @ split_on c b"
proof (induction a)
  case (Cons x a)
  then show ?case by (cases "split_on c a") auto
qed simp

lemma path_walk_extends: "''..'' \<notin> set cs \<Longrightarrow> prefix acc (path_walk acc cs)"
proof (induction acc cs rule: path_walk.induct)
  case (2 acc c cs)
  then show ?case by (auto intro: prefix_order.trans [OF prefixI])
qed simp

lemma join_below: "\<not> starts_with ''/'' rel \<Longrightarrow> \<not> has_parent_component rel \<Longrightarrow> prefix (fs_path root) (fs_path (path_join root rel))"
proof -
  assume rel: "\<not> starts_with ''/'' rel" "\<not> has_parent_component rel"
  have below: "prefix (fs_path t) (fs_path (t @ CHR ''/'' # rel))" for t
    using rel(2) by (simp add: fs_path_def split_on_append_sep path_walk_append path_walk_extends has_parent_component_def)
  show ?thesis
  proof (cases "ends_with ''/'' root")
    case True
    then obtain t where "root = t @ ''/''" by (auto simp: ends_with_iff)
    then show ?thesis using below [of t] rel(1) by (simp add: path_join_def)
  next
    case False
    then show ?thesis using below [of root] rel(1) by (auto simp: path_join_def)
  qed
qed

lemma resolve_repo_below:
  assumes "resolve_repo G d self slug = Inr repo"
  shows "\<exists>root. ge_canonicalize G d (gs_repo_root self) = Inr root \<and> prefix (fs_path root) (fs_path repo)"
  using assms join_below
  by (auto simp: resolve_repo_def path_safe_def rbind_Inr_conv Let_def split: if_splits)

lemma child_below: "plain_name c \<Longrightarrow> prefix p (fs_path s) \<Longrightarrow> prefix p (fs_path (path_join s c))"
  by (simp add: path_join_plain(1) prefix_order.trans [OF _ prefixI])

lemma find_git_dir_below:
  assumes "find_git_dir D d repo = Some g" "prefix p (fs_path repo)"
  shows "prefix p (fs_path (gd_git_dir g))"
proof -
  have "plain_name ''.git''" by (simp add: plain_name_def)
  then show ?thesis using assms child_below by (auto simp: find_git_dir_def Let_def split: if_splits)
qed

text \<open>C17: The guard keeps the repository below the root. For every request path, the slug has no two dots in a
  row, and the directory the service inspects, the directories in which it runs \<open>git config\<close>, and the
  \<open>GIT_DIR\<close> it passes on lie, component by component, at or below the canonical root.\<close>

theorem repository_below_root:
  assumes "git_handle G d now backend self req = (fx, r)" "gx_cgi fx = Some (env, body)"
  shows "\<not> contains_sub ''..'' (extract_repo_slug (gq_path req)) \<and> (\<exists>root repo g.
    ge_canonicalize G d (gs_repo_root self) = Inr root \<and> find_git_dir (ge_fs G) d repo = Some g
    \<and> prefix (fs_path root) (fs_path repo) \<and> prefix (fs_path root) (fs_path (gd_git_dir g))
    \<and> (\<forall>c \<in> set (gx_config fx). cc_cwd c = repo \<and> cc_git_dir c = gd_git_dir g)
    \<and> (\<forall>p. map_of env ''GIT_DIR'' = Some p \<longrightarrow> p = gd_git_dir g))"
proof -
  obtain repo g user where run: "resolve_repo G d self (extract_repo_slug (gq_path req)) = Inr repo" "find_git_dir (ge_fs G) d repo = Some g"
    "env = cgi_env G d (gs_repo_root self) g user req" "gx_config fx = (if is_write req then apply_write_config g repo else [])"
    using git_handle_runs [OF assms] by blast
  obtain root where root: "ge_canonicalize G d (gs_repo_root self) = Inr root" "prefix (fs_path root) (fs_path repo)"
    using resolve_repo_below [OF run(1)] by blast
  have "map_of env ''GIT_DIR'' = (if gd_is_regular g then Some (gd_git_dir g) else None)"
    by (simp add: run(3) cgi_env_def Let_def map_of_set_default map_of_header_vars split: option.splits)
  moreover have "\<forall>c \<in> set (gx_config fx). cc_cwd c = repo \<and> cc_git_dir c = gd_git_dir g"
    by (auto simp: run(4) apply_write_config_def)
  moreover have "\<not> contains_sub ''..'' ''.''" by code_simp
  then have "\<not> contains_sub ''..'' (extract_repo_slug (gq_path req))"
    using scrub_dotdot_clean by (auto simp: extract_repo_slug_def Let_def)
  ultimately show ?thesis using root run(2) find_git_dir_below [OF run(2) root(2)] by auto
qed

text \<open>The program itself is sent to the raw path: after scrubbing, the guard may look at another repository.\<close>

lemma path_info_is_not_guarded:
  "extract_repo_slug ''/a..b/info/refs'' = ''ab''"
  "map_of (cgi_env G d root g user (req\<lparr>gq_path := ''/a..b/info/refs''\<rparr>)) ''PATH_INFO'' = Some ''/a..b/info/refs''"
proof -
  show "extract_repo_slug ''/a..b/info/refs'' = ''ab''" by code_simp
  show "map_of (cgi_env G d root g user (req\<lparr>gq_path := ''/a..b/info/refs''\<rparr>)) ''PATH_INFO'' = Some ''/a..b/info/refs''"
    by (simp add: cgi_env_request(2))
qed

text \<open>Without an authoriser every push is refused.\<close>

lemma no_authoriser_no_push:
  assumes "gs_auth self = None" "is_write req" "git_handle G d now backend self req = (fx, r)"
  shows "fx = \<lparr>gx_config = [], gx_cgi = None\<rparr>"
proof (rule ccontr)
  assume "fx \<noteq> \<lparr>gx_config = [], gx_cgi = None\<rparr>"
  then obtain env body where "gx_cgi fx = Some (env, body)" using git_handle_nothing [OF assms(3)] by blast
  then show False using git_handle_runs [OF assms(3)] assms(1,2) by (auto simp: write_identity_def)
qed

section \<open>The CGI response survives\<close>

definition field_ok :: "string \<Rightarrow> bool" where
  "field_ok s \<longleftrightarrow> s \<noteq> [] \<and> plain (hd s) \<and> plain (last s) \<and> list_all (\<lambda>c. c \<noteq> CHR 0x0D \<and> c \<noteq> CHR 0x0A \<and> \<not> digit7 c) s"

definition header_ok :: "string \<times> string \<Rightarrow> bool" where
  "header_ok kv \<longleftrightarrow> field_ok (fst kv) \<and> field_ok (snd kv) \<and> CHR '':'' \<notin> set (fst kv) \<and> \<not> eq_ignore_ascii_case (fst kv) ''status''"

definition header_line :: "string \<times> string \<Rightarrow> string" where
  "header_line kv = fst kv @ '': '' @ snd kv"

definition line_ok :: "string \<Rightarrow> bool" where
  "line_ok l \<longleftrightarrow> l \<noteq> [] \<and> CHR 0x0D \<notin> set l \<and> CHR 0x0A \<notin> set l"

definition CRLF :: string where "CRLF = [CHR 0x0D, CHR 0x0A]"

lemma find_sub_skip:
  "CHR 0x0D \<notin> set l \<Longrightarrow> find_sub CRLF2 (l @ s) = map_option ((+) (length l)) (find_sub CRLF2 s)"
proof (induction l)
  case Nil
  then show ?case by (simp add: option.map_ident)
next
  case (Cons c l)
  then have "\<not> starts_with CRLF2 (c # l @ s)" by (auto simp: CRLF2_def starts_with_iff)
  then show ?case using Cons by (simp add: find_sub_Cons option.map_comp comp_def)
qed

lemma find_sub_line_end: "x \<noteq> CHR 0x0D \<Longrightarrow> find_sub CRLF2 (CRLF @ x # s) = map_option ((+) 2) (find_sub CRLF2 (x # s))"
  by (simp add: find_sub_Cons CRLF2_def CRLF_def starts_with_iff option.map_comp comp_def)

lemma find_sub_headers:
  "ls \<noteq> [] \<Longrightarrow> list_all line_ok ls \<Longrightarrow> find_sub CRLF2 (join CRLF ls @ CRLF2 @ body) = Some (length (join CRLF ls))"
proof (induction ls)
  case (Cons l ls)
  then have l: "CHR 0x0D \<notin> set l" by (simp add: line_ok_def)
  show ?case
  proof (cases ls)
    case Nil
    have "find_sub CRLF2 (CRLF2 @ body) = Some 0" by (simp add: CRLF2_def find_sub_Cons starts_with_iff)
    then show ?thesis using Nil find_sub_skip [OF l, of "CRLF2 @ body"] by simp
  next
    case (Cons l' ls')
    have ok: "line_ok l'" using Cons Cons.prems by simp
    then obtain x t where x: "join CRLF ls @ CRLF2 @ body = x # t" "x \<noteq> CHR 0x0D"
      using Cons by (cases l'; cases ls') (auto simp: line_ok_def join_Cons_char)
    have "join CRLF (l # ls) @ CRLF2 @ body = l @ CRLF @ x # t" using x(1) Cons by simp
    then show ?thesis
      using find_sub_skip [OF l, of "CRLF @ x # t"] find_sub_line_end [OF x(2), of t] Cons.IH Cons.prems Cons x(1)
      by (simp add: CRLF_def)
  qed
qed simp

lemma split_line: "line_ok l \<or> l = [] \<Longrightarrow> split_lines_any (l @ CRLF @ s) = l # [] # split_lines_any s"
  by (induction l) (auto simp: line_ok_def CRLF_def)

lemma field_trim: "field_ok s \<Longrightarrow> trim s = s"
  using trim_pad [of s "[]" "[]"] by (simp add: field_ok_def)

lemma header_line_ok:
  assumes "header_ok kv"
  shows "line_ok (header_line kv)" "trim (header_line kv) = header_line kv" "split_once (CHR '':'') (header_line kv) = Some (fst kv, CHR '' '' # snd kv)"
    "trim (CHR '' '' # snd kv) = snd kv" "trim (fst kv) = fst kv"
proof -
  have k: "field_ok (fst kv)" "field_ok (snd kv)" "CHR '':'' \<notin> set (fst kv)" using assms by (simp_all add: header_ok_def)
  show "line_ok (header_line kv)" using k(1,2) by (auto simp: header_line_def line_ok_def field_ok_def list_all_iff)
  have "header_line kv \<noteq> []" "plain (hd (header_line kv))" "plain (last (header_line kv))"
    using k(1,2) by (simp_all add: header_line_def field_ok_def)
  then show "trim (header_line kv) = header_line kv" using trim_pad [of "header_line kv" "[]" "[]"] by simp
  show "split_once (CHR '':'') (header_line kv) = Some (fst kv, CHR '' '' # snd kv)" using k(3) by (simp add: header_line_def)
  have "ascii_ws (CHR '' '')" by (simp add: ascii_ws_def)
  then show "trim (CHR '' '' # snd kv) = snd kv" using trim_pad [of "snd kv" "'' ''" "[]"] k(2) by (simp add: field_ok_def)
  show "trim (fst kv) = fst kv" using k(1) by (rule field_trim)
qed

lemma cgi_headers_fields:
  "list_all header_ok kvs \<Longrightarrow> cgi_headers (split_lines_any (concat (map (\<lambda>kv. header_line kv @ CRLF) kvs))) st hs = (st, hs @ kvs)"
proof (induction kvs arbitrary: hs)
  case (Cons kv kvs)
  then have ok: "header_ok kv" by simp
  note h = header_line_ok [OF ok]
  have "header_line kv \<noteq> []" using h(1) by (simp add: line_ok_def)
  moreover have "\<not> eq_ignore_ascii_case (fst kv) ''status''" using ok by (simp add: header_ok_def)
  ultimately show ?case
    using Cons h(1) by (simp add: split_line h(2-5) Let_def)
qed (simp add: Let_def)

lemma find_ws_or_plain: "list_all plain d \<Longrightarrow> find_ws_or [] (d @ CHR '' '' # r) = Some (length d)"
proof -
  have "ws_len (CHR '' '' # r) = 1" by (simp add: ws_len_def ascii_ws_def)
  then show "list_all plain d \<Longrightarrow> ?thesis" by (induction d) simp_all
qed

lemma cgi_status_number:
  assumes "n < 2 ^ 16"
  shows "cgi_status (show_nat n @ CHR '' '' # reason) = n"
proof -
  have d: "list_all plain (show_nat n)" using show_nat_digits plain_digit by (auto simp: list_all_iff)
  obtain c cs where c: "show_nat n = c # cs" using show_nat_not_Nil by (cases "show_nat n") auto
  then have "trim_start (show_nat n @ CHR '' '' # reason) = show_nat n @ CHR '' '' # reason" using d by simp
  moreover have "find_ws_or [] (show_nat n @ CHR '' '' # reason) = Some (Suc (length cs))" using find_ws_or_plain [OF d] c by simp
  moreover have "take (Suc (length cs)) (show_nat n @ CHR '' '' # reason) = show_nat n" using c by simp
  ultimately obtain ws where "split_whitespace (show_nat n @ CHR '' '' # reason) = show_nat n # ws"
    by (simp add: split_whitespace.simps [of "show_nat n @ CHR '' '' # reason"] Let_def)
  then show ?thesis using parse_uint_show [OF assms] by (simp add: cgi_status_def)
qed

text \<open>The output of a CGI program: a status line, header lines, an empty line and the body.\<close>

definition cgi_output :: "nat \<Rightarrow> string \<Rightarrow> (string \<times> string) list \<Rightarrow> bytes \<Rightarrow> bytes" where
  "cgi_output n reason kvs body =
     join CRLF ((''Status: '' @ show_nat n @ CHR '' '' # reason) # map header_line kvs) @ CRLF2 @ body"

lemma join_concat: "join CRLF (l # map f xs) @ CRLF = concat (map (\<lambda>y. y @ CRLF) (l # map f xs))"
  by (induction xs arbitrary: l) simp_all

lemma cgi_headers_lines:
  "list_all line_ok ls \<Longrightarrow> cgi_headers (split_lines_any (concat (map (\<lambda>l. l @ CRLF) ls))) st hs = cgi_headers (split_lines_any (join CRLF ls)) st hs"
proof (induction ls arbitrary: st hs)
  case (Cons l ls)
  have "split_lines_any l = [l]" if "CHR 0x0D \<notin> set l" "CHR 0x0A \<notin> set l" for l
    using that by (induction l) auto
  then have "split_lines_any l = [l]" using Cons.prems by (simp add: line_ok_def)
  moreover have "split_lines_any (l @ CRLF) = [l, [], []]" using split_line [of l "[]"] Cons.prems by simp
  ultimately show ?case
    using Cons by (cases ls) (simp_all add: split_line Let_def split: option.splits)
qed simp

lemma cgi_headers_status:
  "l \<noteq> [] \<Longrightarrow> trim l = l \<Longrightarrow> split_once (CHR '':'') l = Some (k, v) \<Longrightarrow> eq_ignore_ascii_case (trim k) ''status'' \<Longrightarrow>
     cgi_headers (l # [] # ls) st hs = cgi_headers ls (cgi_status (trim v)) hs"
  by (simp add: Let_def)

lemma set_join: "c \<in> set (join s ls) \<Longrightarrow> c \<in> set s \<or> (\<exists>l \<in> set ls. c \<in> set l)"
  by (induction s ls rule: join.induct) auto

definition status_value :: "nat \<Rightarrow> string \<Rightarrow> string" where
  "status_value n reason = show_nat n @ CHR '' '' # reason"

definition status_line :: "nat \<Rightarrow> string \<Rightarrow> string" where
  "status_line n reason = ''Status: '' @ status_value n reason"

lemma status_value_field: "field_ok (status_value n reason)" if "field_ok reason"
proof -
  have "ascii_digit c \<Longrightarrow> c \<noteq> CHR 0x0D \<and> c \<noteq> CHR 0x0A \<and> \<not> digit7 c \<and> plain c" for c
    using ascii_digit_cases [of c] plain_digit [of c] by auto
  then show ?thesis using that show_nat_digits [of n] by (auto simp: status_value_def field_ok_def list_all_iff)
qed

lemma status_line_read:
  assumes "field_ok reason"
  shows "trim (status_line n reason) = status_line n reason" "line_ok (status_line n reason)"
    "trim (CHR '' '' # status_value n reason) = status_value n reason"
    "split_once (CHR '':'') (status_line n reason) = Some (''Status'', CHR '' '' # status_value n reason)"
    "\<forall>c \<in> set (status_line n reason). \<not> digit7 c"
proof -
  note val = status_value_field [OF assms, of n]
  have "field_ok (status_line n reason)" using val by (simp add: status_line_def field_ok_def plain_def ascii_ws_def)
  then show "trim (status_line n reason) = status_line n reason" "line_ok (status_line n reason)"
    "\<forall>c \<in> set (status_line n reason). \<not> digit7 c"
    by (auto simp: field_trim line_ok_def field_ok_def list_all_iff status_line_def)
  have "ascii_ws (CHR '' '')" by (simp add: ascii_ws_def)
  then show "trim (CHR '' '' # status_value n reason) = status_value n reason"
    using trim_pad [of "status_value n reason" "'' ''" "[]"] val by (simp add: field_ok_def)
  show "split_once (CHR '':'') (status_line n reason) = Some (''Status'', CHR '' '' # status_value n reason)"
    by (simp add: status_line_def)
qed

lemma header_line_ascii: "\<forall>c \<in> set (header_line kv). \<not> digit7 c" if "header_ok kv"
  using that by (auto simp: header_ok_def header_line_def field_ok_def list_all_iff)

lemma cgi_head_ascii:
  assumes "field_ok reason" "list_all header_ok kvs"
  shows "from_utf8 (join CRLF (status_line n reason # map header_line kvs)) = Some (join CRLF (status_line n reason # map header_line kvs))"
proof (rule utf8_ascii)
  have "\<forall>l \<in> set (status_line n reason # map header_line kvs). \<forall>c \<in> set l. \<not> digit7 c"
    using status_line_read(5) [OF assms(1)] header_line_ascii assms(2) by (auto simp: list_all_iff)
  moreover have "\<forall>c \<in> set CRLF. \<not> digit7 c" by (simp add: CRLF_def)
  ultimately show "list_all (\<lambda>c. \<not> digit7 c) (join CRLF (status_line n reason # map header_line kvs))"
    unfolding list_all_iff using set_join by metis
qed

lemma cgi_head_parsed:
  assumes "n < 2 ^ 16" "field_ok reason" "list_all header_ok kvs"
  shows "cgi_headers (split_lines_any (join CRLF (status_line n reason # map header_line kvs))) 200 [] = (n, kvs)"
proof -
  let ?rest = "concat (map (\<lambda>kv. header_line kv @ CRLF) kvs)"
  note st = status_line_read [OF assms(2), of n]
  have lines: "list_all line_ok (status_line n reason # map header_line kvs)"
    using st(2) assms(3) header_line_ok(1) by (auto simp: list_all_iff)
  have ne: "status_line n reason \<noteq> []" and status: "eq_ignore_ascii_case ''Status'' ''status''"
    by (simp add: status_line_def) code_simp
  have key: "trim ''Status'' = ''Status''" by code_simp
  have "cgi_headers (split_lines_any (join CRLF (status_line n reason # map header_line kvs))) 200 []
      = cgi_headers (status_line n reason # [] # split_lines_any ?rest) 200 []"
    using cgi_headers_lines [OF lines] split_line [of "status_line n reason" ?rest] st(2) by (simp add: comp_def)
  also have "\<dots> = cgi_headers (split_lines_any ?rest) (cgi_status (status_value n reason)) []"
    using cgi_headers_status [OF ne st(1) st(4)] status unfolding key st(3) by blast
  finally show ?thesis
    using cgi_headers_fields [OF assms(3)] cgi_status_number [OF assms(1)] by (simp add: status_value_def)
qed

text \<open>What the CGI program answers is what the client gets. From output with a status line, header lines of
  ASCII text and an empty line, all ended by CR LF, the service makes the response with that status, those
  headers in order and the body byte for byte, whatever the body holds, followed by the CORS headers.\<close>

theorem cgi_response_roundtrip:
  assumes "n < 2 ^ 16" "field_ok reason" "list_all header_ok kvs"
  shows "parse_cgi_output G (cgi_output n reason kvs body) = Inr \<lparr>gp_status = n, gp_headers = kvs @ cgi_cors, gp_body = body\<rparr>"
proof -
  let ?ls = "status_line n reason # map header_line kvs"
  have out: "cgi_output n reason kvs body = join CRLF ?ls @ CRLF2 @ body"
    by (simp add: cgi_output_def status_line_def status_value_def)
  have lines: "list_all line_ok ?ls" using status_line_read(2) [OF assms(2)] assms(3) header_line_ok(1) by (auto simp: list_all_iff)
  have "cgi_separator (join CRLF ?ls @ CRLF2 @ body) = Some (length (join CRLF ?ls), 4)"
    using find_sub_headers [OF _ lines, of body] by (simp add: cgi_separator_def)
  with cgi_head_ascii [OF assms(2,3)] cgi_head_parsed [OF assms] show ?thesis
    unfolding out by (simp add: parse_cgi_output_def) (simp add: CRLF2_def)
qed

section \<open>A concrete service\<close>

definition push_event :: Nip98Event where
  "push_event = ex_event\<lparr>ev_tags := [[''u'', ''https://pod.example/repo/git-receive-pack''], [''method'', ''POST'']]\<rparr>"

definition sample_git :: "disk git_env" where
  "sample_git = \<lparr>ge_fs = disk_ops, ge_canonicalize = (\<lambda>_ p. Inr p), ge_io_text = (\<lambda>_. []),
     ge_nip98 = ex_nip98_env\<lparr>ne_event_from_slice := (\<lambda>_. Some push_event)\<rparr>, ge_base64 = Inr, ge_utf8_text = (\<lambda>_. []), ge_debug = (\<lambda>_. []),
     ge_to_lowercase = to_ascii_lowercase, ge_lossy = id, ge_path = None\<rparr>"

definition git_disk :: disk where
  "git_disk = \<lparr>dk_root = Dir [(''srv'', Dir [(''repo'', Dir [(''.git'', Dir [])])])], dk_now = 0, dk_faults = []\<rparr>"

definition sample_service :: GitHttpService where
  "sample_service = with_auth (GitHttpService_new None ''/srv'') (with_allowed sample_git BasicNostrExtractor_new [replicate 64 (CHR ''A'')])"

definition push_request :: GitRequest where
  "push_request = \<lparr>gq_method = ''POST'', gq_path = ''/repo/git-receive-pack'', gq_query = [],
     gq_headers = [(''authorization'', ''Basic nostr:x''), (''Content-Type'', ''application/x-git'')], gq_body = ''pack'', gq_host_url = Some ''https://pod.example''\<rparr>"

definition sample_backend :: "(string \<times> string) list \<Rightarrow> bytes \<Rightarrow> program_run" where
  "sample_backend _ _ = ProgramExit True (Some 0) (cgi_output 200 ''OK'' [(''Content-Type'', ''application/x-git'')] ''done'') []"

definition push_effects :: git_effects where
  "push_effects = fst (git_handle sample_git git_disk 130 sample_backend sample_service push_request)"

lemma push_effects_run:
  "git_handle sample_git git_disk 130 sample_backend sample_service push_request =
     (push_effects, snd (git_handle sample_git git_disk 130 sample_backend sample_service push_request))"
  by (simp add: push_effects_def)

lemma push_verified:
  "verify_at (ge_nip98 sample_git) ''Nostr x'' ''https://pod.example/repo/git-receive-pack'' ''POST'' None 130 =
     Inr \<lparr>nv_pubkey = replicate 64 (CHR ''a''), nv_url = ''https://pod.example/repo/git-receive-pack'', nv_method = ''POST'',
          nv_payload_hash = None, nv_created_at = 100\<rparr>"
proof -
  have "trim ''x'' = ''x''" by code_simp
  then show ?thesis
    by (simp add: verify_at_def verify_event_def sample_git_def ex_nip98_env_def push_event_def ex_event_def NOSTR_PREFIX_def MAX_EVENT_SIZE_def
        HTTP_AUTH_KIND_def TIMESTAMP_TOLERANCE_def abs_diff_def get_tag_def check_payload_def)
qed

lemma push_effects_eq:
  "\<exists>env. push_effects = \<lparr>gx_config = apply_write_config \<lparr>gd_git_dir = ''/srv/repo/.git'', gd_is_regular = True\<rparr> ''/srv/repo'', gx_cgi = Some (env, ''pack'')\<rparr>"
proof -
  have m: "\<not> eq_ignore_ascii_case (gq_method push_request) ''OPTIONS''" by code_simp
  have s: "extract_repo_slug (gq_path push_request) = ''repo''" by code_simp
  have r: "resolve_repo sample_git git_disk sample_service ''repo'' = Inr ''/srv/repo''" by code_simp
  have g: "find_git_dir (ge_fs sample_git) git_disk ''/srv/repo'' = Some \<lparr>gd_git_dir = ''/srv/repo/.git'', gd_is_regular = True\<rparr>" by code_simp
  have w: "is_write push_request" "gq_body push_request = ''pack''" by code_simp+
  have t: "request_token sample_git push_request = Inr ''x''" by code_simp
  have u: "auth_url push_request = ''https://pod.example/repo/git-receive-pack''" "gq_method push_request = ''POST''" by code_simp+
  let ?x = "with_allowed sample_git BasicNostrExtractor_new [replicate 64 (CHR ''A'')]"
  have x: "gs_auth sample_service = Some ?x" by (simp add: sample_service_def with_auth_def)
  have allowed: "bn_allowed_pubkeys ?x = Some [replicate 64 (CHR ''a'')]" by code_simp
  have l: "ge_to_lowercase sample_git (replicate 64 (CHR ''a'')) = replicate 64 (CHR ''a'')"
    by code_simp
  have "authorise sample_git 130 ?x push_request = Inr (replicate 64 (CHR ''a''))"
    using push_verified allowed l by (simp add: authorise_def t u)
  then have i: "write_identity sample_git 130 sample_service push_request = Inr (replicate 64 (CHR ''a''))"
    by (simp add: write_identity_def w x)
  show ?thesis by (simp add: push_effects_def git_handle_def m s r g i w Let_def)
qed

lemma push_effects_cgi: "gx_cgi push_effects \<noteq> None" "gx_config push_effects \<noteq> []"
proof -
  obtain env where e: "push_effects = \<lparr>gx_config = apply_write_config \<lparr>gd_git_dir = ''/srv/repo/.git'', gd_is_regular = True\<rparr> ''/srv/repo'', gx_cgi = Some (env, ''pack'')\<rparr>"
    using push_effects_eq by blast
  show "gx_cgi push_effects \<noteq> None" "gx_config push_effects \<noteq> []" unfolding e by (simp_all add: apply_write_config_def)
qed


theorem repository_below_root_witness:
  "\<exists>repo g. find_git_dir disk_ops git_disk repo = Some g \<and> prefix [''srv''] (fs_path repo)
    \<and> (\<forall>c \<in> set (gx_config push_effects). cc_cwd c = repo) \<and> gx_config push_effects \<noteq> []"
proof -
  obtain env body where cgi: "gx_cgi push_effects = Some (env, body)" using push_effects_cgi(1) by (cases "gx_cgi push_effects") auto
  have "gs_repo_root sample_service = ''/srv''" by (simp add: sample_service_def with_auth_def GitHttpService_new_def)
  then have root: "ge_canonicalize sample_git git_disk (gs_repo_root sample_service) = Inr ''/srv''" by (simp add: sample_git_def)
  have "fs_path ''/srv'' = [''srv'']" by code_simp
  moreover have "ge_fs sample_git = disk_ops" by (simp add: sample_git_def)
  ultimately show ?thesis
    using repository_below_root [OF push_effects_run cgi] push_effects_cgi(2) unfolding root by auto
qed

theorem cgi_response_roundtrip_witness:
  "parse_cgi_output sample_git (cgi_output 404 ''Not Found'' [(''Content-Type'', ''text/plain'')] (CRLF2 @ ''body''))
    = Inr \<lparr>gp_status = 404, gp_headers = (''Content-Type'', ''text/plain'') # cgi_cors, gp_body = CRLF2 @ ''body''\<rparr>"
proof -
  have "field_ok ''Not Found''" "list_all header_ok [(''Content-Type'', ''text/plain'')]" by code_simp+
  then show ?thesis using cgi_response_roundtrip [of 404 "''Not Found''" "[(''Content-Type'', ''text/plain'')]" sample_git] by simp
qed

text \<open>Line ends of LF only are accepted too, but then a body that holds two CR LF in a row is cut inside: what
  precedes them is read as headers.\<close>

lemma lf_headers_swallow_body: "cgi_separator (''Status: 200 OK'' @ LF2 @ ''one'' @ CRLF2 @ ''two'') = Some (19, 4)"
  by code_simp

end
