(* ===== verification/Config_Schema.thy ===== *)
theory Config_Schema
  imports Json_Patch
begin

text \<open>
  The configuration snapshot (\<open>config/schema.rs\<close>): its sections, their defaults, the JSON form that the
  serde attributes of the source give them, and \<open>validate\<close>. Reading and writing are inverse
  (\<open>config_of_json_of\<close>), so the defaults survive as the lowest layer of the loader.

  A section may be written as an object or, which serde's derived visitors accept as well, as an array of
  its fields in declaration order; unknown members are ignored. The text of a deserialisation error
  belongs to \<open>serde_json\<close>, so reading gives an option here and the loader adds the text.
\<close>

record ServerSection =
  sv_host :: string
  sv_port :: u16
  sv_base_url :: "string option"

datatype StorageBackendConfig =
    Fs string
  | Memory
  | S3 (s3_bucket: string) (s3_region: string) (s3_prefix: "string option")

record AuthConfig =
  au_nip98_enabled :: bool
  au_oidc_enabled :: bool
  au_oidc_issuer :: "string option"
  au_dpop_replay_ttl_seconds :: u64

record NotificationsConfig =
  no_ws2023_enabled :: bool
  no_webhook2023_enabled :: bool
  no_legacy_solid_01_enabled :: bool

record SecurityConfig =
  se_ssrf_allow_private :: bool
  se_ssrf_allowlist :: "string list"
  se_ssrf_denylist :: "string list"
  se_dotfile_allowlist :: "string list"
  se_acl_origin_enabled :: bool

record ExtrasConfig =
  ex_conneg_enabled :: "bool option"
  ex_cors_allowed_origins :: "string list"
  ex_max_body_size_bytes :: "u64 option"
  ex_max_acl_bytes :: "u64 option"
  ex_rate_limit_writes_per_min :: "u64 option"
  ex_subdomains_enabled :: "bool option"
  ex_base_domain :: "string option"
  ex_idp_enabled :: "bool option"
  ex_invite_only :: "bool option"
  ex_admin_key :: "string option"

record ServerConfig =
  cf_server :: ServerSection
  cf_storage :: StorageBackendConfig
  cf_auth :: AuthConfig
  cf_notifications :: NotificationsConfig
  cf_security :: SecurityConfig
  cf_extras :: ExtrasConfig

section \<open>Defaults\<close>

definition default_host :: string where "default_host = ''0.0.0.0''"
definition default_port :: u16 where "default_port = 3000"
definition default_fs_root :: string where "default_fs_root = ''./data''"
definition default_dpop_ttl :: u64 where "default_dpop_ttl = 300"
definition default_dotfile_allowlist :: "string list" where
  "default_dotfile_allowlist = [''.acl'', ''.meta'', ''.account'']"

definition ServerSection_default :: ServerSection where
  "ServerSection_default = \<lparr>sv_host = default_host, sv_port = default_port, sv_base_url = None\<rparr>"

definition StorageBackendConfig_default :: StorageBackendConfig where
  "StorageBackendConfig_default = Fs default_fs_root"

definition AuthConfig_default :: AuthConfig where
  "AuthConfig_default = \<lparr>au_nip98_enabled = True, au_oidc_enabled = False, au_oidc_issuer = None,
     au_dpop_replay_ttl_seconds = default_dpop_ttl\<rparr>"

definition NotificationsConfig_default :: NotificationsConfig where
  "NotificationsConfig_default = \<lparr>no_ws2023_enabled = True, no_webhook2023_enabled = False, no_legacy_solid_01_enabled = True\<rparr>"

definition SecurityConfig_default :: SecurityConfig where
  "SecurityConfig_default = \<lparr>se_ssrf_allow_private = False, se_ssrf_allowlist = [], se_ssrf_denylist = [],
     se_dotfile_allowlist = default_dotfile_allowlist, se_acl_origin_enabled = True\<rparr>"

definition ExtrasConfig_default :: ExtrasConfig where
  "ExtrasConfig_default = \<lparr>ex_conneg_enabled = None, ex_cors_allowed_origins = [], ex_max_body_size_bytes = None,
     ex_max_acl_bytes = None, ex_rate_limit_writes_per_min = None, ex_subdomains_enabled = None,
     ex_base_domain = None, ex_idp_enabled = None, ex_invite_only = None, ex_admin_key = None\<rparr>"

definition ServerConfig_default :: ServerConfig where
  "ServerConfig_default = \<lparr>cf_server = ServerSection_default, cf_storage = StorageBackendConfig_default,
     cf_auth = AuthConfig_default, cf_notifications = NotificationsConfig_default,
     cf_security = SecurityConfig_default, cf_extras = ExtrasConfig_default\<rparr>"

section \<open>Writing\<close>

text \<open>Members of a \<open>serde_json\<close> object, one insertion after the other; an absent value inserts nothing.\<close>

type_synonym members = "(string \<times> json) list"

definition put_opt :: "string \<Rightarrow> json option \<Rightarrow> members \<Rightarrow> members" where
  "put_opt k j m = (case j of None \<Rightarrow> m | Some v \<Rightarrow> obj_insert m k v)"

fun put_opts :: "(string \<times> json option) list \<Rightarrow> members" where
  "put_opts [] = []"
| "put_opts ((k, j) # kvs) = put_opt k j (put_opts kvs)"

definition jnum :: "'w::len word \<Rightarrow> json" where "jnum n = JNumber (show_nat (unat n))"

definition jstrs :: "string list \<Rightarrow> json" where "jstrs ss = JArray (map JString ss)"

definition json_of_server :: "ServerSection \<Rightarrow> json" where
  "json_of_server s = JObject (put_opts [(''host'', Some (JString (sv_host s))), (''port'', Some (jnum (sv_port s))),
     (''base_url'', map_option JString (sv_base_url s))])"

definition json_of_storage :: "StorageBackendConfig \<Rightarrow> json" where
  "json_of_storage b = JObject (put_opts (case b of
     Fs rt \<Rightarrow> [(''type'', Some (JString ''fs'')), (''root'', Some (JString rt))]
   | Memory \<Rightarrow> [(''type'', Some (JString ''memory''))]
   | S3 bk rg px \<Rightarrow> [(''type'', Some (JString ''s3'')), (''bucket'', Some (JString bk)), (''region'', Some (JString rg)),
       (''prefix'', map_option JString px)]))"

definition json_of_auth :: "AuthConfig \<Rightarrow> json" where
  "json_of_auth a = JObject (put_opts [(''nip98_enabled'', Some (JBool (au_nip98_enabled a))),
     (''oidc_enabled'', Some (JBool (au_oidc_enabled a))), (''oidc_issuer'', map_option JString (au_oidc_issuer a)),
     (''dpop_replay_ttl_seconds'', Some (jnum (au_dpop_replay_ttl_seconds a)))])"

definition json_of_notifications :: "NotificationsConfig \<Rightarrow> json" where
  "json_of_notifications n = JObject (put_opts [(''ws2023_enabled'', Some (JBool (no_ws2023_enabled n))),
     (''webhook2023_enabled'', Some (JBool (no_webhook2023_enabled n))),
     (''legacy_solid_01_enabled'', Some (JBool (no_legacy_solid_01_enabled n)))])"

definition json_of_security :: "SecurityConfig \<Rightarrow> json" where
  "json_of_security s = JObject (put_opts [(''ssrf_allow_private'', Some (JBool (se_ssrf_allow_private s))),
     (''ssrf_allowlist'', Some (jstrs (se_ssrf_allowlist s))), (''ssrf_denylist'', Some (jstrs (se_ssrf_denylist s))),
     (''dotfile_allowlist'', Some (jstrs (se_dotfile_allowlist s))),
     (''acl_origin_enabled'', Some (JBool (se_acl_origin_enabled s)))])"

definition json_of_extras :: "ExtrasConfig \<Rightarrow> json" where
  "json_of_extras x = JObject (put_opts [(''conneg_enabled'', map_option JBool (ex_conneg_enabled x)),
     (''cors_allowed_origins'', if ex_cors_allowed_origins x = [] then None else Some (jstrs (ex_cors_allowed_origins x))),
     (''max_body_size_bytes'', map_option jnum (ex_max_body_size_bytes x)),
     (''max_acl_bytes'', map_option jnum (ex_max_acl_bytes x)),
     (''rate_limit_writes_per_min'', map_option jnum (ex_rate_limit_writes_per_min x)),
     (''subdomains_enabled'', map_option JBool (ex_subdomains_enabled x)),
     (''base_domain'', map_option JString (ex_base_domain x)), (''idp_enabled'', map_option JBool (ex_idp_enabled x)),
     (''invite_only'', map_option JBool (ex_invite_only x)), (''admin_key'', map_option JString (ex_admin_key x))])"

definition json_of_config :: "ServerConfig \<Rightarrow> json" where
  "json_of_config c = JObject (put_opts [(''server'', Some (json_of_server (cf_server c))),
     (''storage'', Some (json_of_storage (cf_storage c))), (''auth'', Some (json_of_auth (cf_auth c))),
     (''notifications'', Some (json_of_notifications (cf_notifications c))),
     (''security'', Some (json_of_security (cf_security c))), (''extras'', Some (json_of_extras (cf_extras c)))])"

section \<open>Reading\<close>

text \<open>The members of a section: those of an object, or the elements of an array under the names of the
  fields, of which an array may not have more than there are fields.\<close>

definition section_members :: "string list \<Rightarrow> json \<Rightarrow> members option" where
  "section_members names j = (case j of
     JObject m \<Rightarrow> Some m
   | JArray a \<Rightarrow> if length a \<le> length names then Some (zip names a) else None
   | _ \<Rightarrow> None)"

text \<open>A field with a default, and one without.\<close>

definition field_or :: "members \<Rightarrow> string \<Rightarrow> (json \<Rightarrow> 'a option) \<Rightarrow> 'a \<Rightarrow> 'a option" where
  "field_or m k dec d = (case map_of m k of None \<Rightarrow> Some d | Some j \<Rightarrow> dec j)"

definition field_req :: "members \<Rightarrow> string \<Rightarrow> (json \<Rightarrow> 'a option) \<Rightarrow> 'a option" where
  "field_req m k dec = Option.bind (map_of m k) dec"

definition de_string :: "json \<Rightarrow> string option" where
  "de_string j = (case j of JString s \<Rightarrow> Some s | _ \<Rightarrow> None)"

definition de_bool :: "json \<Rightarrow> bool option" where
  "de_bool j = (case j of JBool b \<Rightarrow> Some b | _ \<Rightarrow> None)"

definition de_uint :: "json \<Rightarrow> 'w::len word option" where
  "de_uint j = (case j of JNumber l \<Rightarrow> map_option of_nat (parse_uint LENGTH('w) l) | _ \<Rightarrow> None)"

definition de_option :: "(json \<Rightarrow> 'a option) \<Rightarrow> json \<Rightarrow> 'a option option" where
  "de_option dec j = (if j = JNull then Some None else map_option Some (dec j))"

fun de_all :: "(json \<Rightarrow> 'a option) \<Rightarrow> json list \<Rightarrow> 'a list option" where
  "de_all dec [] = Some []"
| "de_all dec (j # js) = Option.bind (dec j) (\<lambda>x. map_option ((#) x) (de_all dec js))"

definition de_strings :: "json \<Rightarrow> string list option" where
  "de_strings j = (case j of JArray a \<Rightarrow> de_all de_string a | _ \<Rightarrow> None)"


definition server_of_json :: "json \<Rightarrow> ServerSection option" where
  "server_of_json j =
     Option.bind (section_members [''host'', ''port'', ''base_url''] j) (\<lambda>m.
     Option.bind (field_or m ''host'' de_string default_host) (\<lambda>host.
     Option.bind (field_or m ''port'' de_uint default_port) (\<lambda>port.
     Option.bind (field_or m ''base_url'' (de_option de_string) None) (\<lambda>base_url.
       Some \<lparr>sv_host = host, sv_port = port, sv_base_url = base_url\<rparr>))))"

text \<open>An internally tagged enum: the tag is the member \<open>type\<close>, or the first element of an array, and
  the rest is read by the variant it names.\<close>

definition storage_variant :: "string \<Rightarrow> json \<Rightarrow> StorageBackendConfig option" where
  "storage_variant tag content =
     (if tag = ''fs'' then
        Option.bind (section_members [''root''] content) (\<lambda>m. map_option Fs (field_or m ''root'' de_string default_fs_root))
      else if tag = ''memory'' then Option.bind (section_members [] content) (\<lambda>_. Some Memory)
      else if tag = ''s3'' then
        Option.bind (section_members [''bucket'', ''region'', ''prefix''] content) (\<lambda>m.
        Option.bind (field_req m ''bucket'' de_string) (\<lambda>bucket.
        Option.bind (field_req m ''region'' de_string) (\<lambda>region.
        map_option (S3 bucket region) (field_or m ''prefix'' (de_option de_string) None))))
      else None)"

definition storage_of_json :: "json \<Rightarrow> StorageBackendConfig option" where
  "storage_of_json j = (case j of
     JObject m \<Rightarrow> (case map_of m ''type'' of Some (JString tag) \<Rightarrow> storage_variant tag (JObject (obj_remove m ''type'')) | _ \<Rightarrow> None)
   | JArray (JString tag # a) \<Rightarrow> storage_variant tag (JArray a)
   | _ \<Rightarrow> None)"

definition auth_of_json :: "json \<Rightarrow> AuthConfig option" where
  "auth_of_json j =
     Option.bind (section_members [''nip98_enabled'', ''oidc_enabled'', ''oidc_issuer'', ''dpop_replay_ttl_seconds''] j) (\<lambda>m.
     Option.bind (field_or m ''nip98_enabled'' de_bool True) (\<lambda>nip98.
     Option.bind (field_or m ''oidc_enabled'' de_bool False) (\<lambda>oidc.
     Option.bind (field_or m ''oidc_issuer'' (de_option de_string) None) (\<lambda>issuer.
     Option.bind (field_or m ''dpop_replay_ttl_seconds'' de_uint default_dpop_ttl) (\<lambda>ttl.
       Some \<lparr>au_nip98_enabled = nip98, au_oidc_enabled = oidc, au_oidc_issuer = issuer, au_dpop_replay_ttl_seconds = ttl\<rparr>)))))"

definition notifications_of_json :: "json \<Rightarrow> NotificationsConfig option" where
  "notifications_of_json j =
     Option.bind (section_members [''ws2023_enabled'', ''webhook2023_enabled'', ''legacy_solid_01_enabled''] j) (\<lambda>m.
     Option.bind (field_or m ''ws2023_enabled'' de_bool True) (\<lambda>ws.
     Option.bind (field_or m ''webhook2023_enabled'' de_bool False) (\<lambda>webhook.
     Option.bind (field_or m ''legacy_solid_01_enabled'' de_bool True) (\<lambda>legacy.
       Some \<lparr>no_ws2023_enabled = ws, no_webhook2023_enabled = webhook, no_legacy_solid_01_enabled = legacy\<rparr>))))"

definition security_of_json :: "json \<Rightarrow> SecurityConfig option" where
  "security_of_json j =
     Option.bind (section_members [''ssrf_allow_private'', ''ssrf_allowlist'', ''ssrf_denylist'', ''dotfile_allowlist'', ''acl_origin_enabled''] j) (\<lambda>m.
     Option.bind (field_or m ''ssrf_allow_private'' de_bool False) (\<lambda>priv.
     Option.bind (field_or m ''ssrf_allowlist'' de_strings []) (\<lambda>allow.
     Option.bind (field_or m ''ssrf_denylist'' de_strings []) (\<lambda>deny.
     Option.bind (field_or m ''dotfile_allowlist'' de_strings default_dotfile_allowlist) (\<lambda>dot.
     Option.bind (field_or m ''acl_origin_enabled'' de_bool True) (\<lambda>acl.
       Some \<lparr>se_ssrf_allow_private = priv, se_ssrf_allowlist = allow, se_ssrf_denylist = deny,
         se_dotfile_allowlist = dot, se_acl_origin_enabled = acl\<rparr>))))))"

definition extras_of_json :: "json \<Rightarrow> ExtrasConfig option" where
  "extras_of_json j =
     Option.bind (section_members [''conneg_enabled'', ''cors_allowed_origins'', ''max_body_size_bytes'', ''max_acl_bytes'',
       ''rate_limit_writes_per_min'', ''subdomains_enabled'', ''base_domain'', ''idp_enabled'', ''invite_only'', ''admin_key''] j) (\<lambda>m.
     Option.bind (field_or m ''conneg_enabled'' (de_option de_bool) None) (\<lambda>conneg.
     Option.bind (field_or m ''cors_allowed_origins'' de_strings []) (\<lambda>cors.
     Option.bind (field_or m ''max_body_size_bytes'' (de_option de_uint) None) (\<lambda>body.
     Option.bind (field_or m ''max_acl_bytes'' (de_option de_uint) None) (\<lambda>acl.
     Option.bind (field_or m ''rate_limit_writes_per_min'' (de_option de_uint) None) (\<lambda>rate.
     Option.bind (field_or m ''subdomains_enabled'' (de_option de_bool) None) (\<lambda>sub.
     Option.bind (field_or m ''base_domain'' (de_option de_string) None) (\<lambda>domain.
     Option.bind (field_or m ''idp_enabled'' (de_option de_bool) None) (\<lambda>idp.
     Option.bind (field_or m ''invite_only'' (de_option de_bool) None) (\<lambda>invite.
     Option.bind (field_or m ''admin_key'' (de_option de_string) None) (\<lambda>admin.
       Some \<lparr>ex_conneg_enabled = conneg, ex_cors_allowed_origins = cors, ex_max_body_size_bytes = body, ex_max_acl_bytes = acl,
         ex_rate_limit_writes_per_min = rate, ex_subdomains_enabled = sub, ex_base_domain = domain, ex_idp_enabled = idp,
         ex_invite_only = invite, ex_admin_key = admin\<rparr>)))))))))))"

definition config_of_json :: "json \<Rightarrow> ServerConfig option" where
  "config_of_json j =
     Option.bind (section_members [''server'', ''storage'', ''auth'', ''notifications'', ''security'', ''extras''] j) (\<lambda>m.
     Option.bind (field_or m ''server'' server_of_json ServerSection_default) (\<lambda>srv.
     Option.bind (field_or m ''storage'' storage_of_json StorageBackendConfig_default) (\<lambda>sto.
     Option.bind (field_or m ''auth'' auth_of_json AuthConfig_default) (\<lambda>aut.
     Option.bind (field_or m ''notifications'' notifications_of_json NotificationsConfig_default) (\<lambda>nots.
     Option.bind (field_or m ''security'' security_of_json SecurityConfig_default) (\<lambda>sec.
     Option.bind (field_or m ''extras'' extras_of_json ExtrasConfig_default) (\<lambda>ext.
       Some \<lparr>cf_server = srv, cf_storage = sto, cf_auth = aut, cf_notifications = nots, cf_security = sec, cf_extras = ext\<rparr>)))))))"

section \<open>Validation\<close>

definition validate :: "ServerConfig \<Rightarrow> string + unit" where
  "validate c =
     (if au_oidc_enabled (cf_auth c) \<and> au_oidc_issuer (cf_auth c) = None
      then Inl ''auth.oidc_enabled=true but auth.oidc_issuer is not set (set JSS_OIDC_ISSUER)''
      else case cf_storage c of
        S3 bucket region _ \<Rightarrow>
          if bucket = [] then Inl ''storage.type=s3 but storage.bucket is empty''
          else if region = [] then Inl ''storage.type=s3 but storage.region is empty''
          else Inr ()
      | _ \<Rightarrow> Inr ())"

section \<open>Reading is the inverse of writing\<close>

lemma map_of_put_opt [simp]: "map_of (put_opt k j m) = (case j of None \<Rightarrow> map_of m | Some v \<Rightarrow> (map_of m)(k \<mapsto> v))"
  by (simp add: put_opt_def split: option.splits)



named_theorems cfg_simps \<open>reading what was written\<close>

lemma de_simps [cfg_simps]:
  "de_string (JString s) = Some s" "de_bool (JBool b) = Some b" "de_uint (jnum n) = Some n"
  "section_members names (JObject m) = Some m"
  using parse_uint_show [OF unsigned_less [of n]]
  by (simp_all add: de_string_def de_bool_def de_uint_def jnum_def section_members_def)

lemma de_strings_jstrs [cfg_simps]: "de_strings (jstrs ss) = Some ss"
proof -
  have "de_all de_string (map JString ss) = Some ss" by (induction ss) (simp_all add: cfg_simps)
  then show ?thesis by (simp add: de_strings_def jstrs_def)
qed

lemma field_or_put [cfg_simps]:
  "field_or (put_opt k (Some v) m) k dec d = dec v"
  "k \<noteq> k' \<Longrightarrow> field_or (put_opt k' j m) k dec d = field_or m k dec d"
  "field_or (put_opt k None m) k dec d = field_or m k dec d"
  "field_or [] k dec d = Some d"
  by (auto simp: field_or_def split: option.splits)

lemma field_req_put [cfg_simps]:
  "field_req (put_opt k (Some v) m) k dec = dec v"
  "k \<noteq> k' \<Longrightarrow> field_req (put_opt k' j m) k dec = field_req m k dec"
  by (auto simp: field_req_def split: option.splits)

text \<open>An optional field that is left out when it is \<open>None\<close>.\<close>

lemma field_or_option [cfg_simps]:
  assumes "\<And>x. dec (enc x) = Some x" "\<And>x. enc x \<noteq> JNull" "field_or m k (de_option dec) None = Some None"
  shows "field_or (put_opt k (map_option enc x) m) k (de_option dec) None = Some x"
  using assms by (cases x) (simp_all add: cfg_simps de_option_def)

lemma not_null [cfg_simps]: "JString s \<noteq> JNull" "JBool b \<noteq> JNull" "jnum n \<noteq> JNull"
  by (simp_all add: jnum_def)

lemma field_or_strings [cfg_simps]:
  "field_or m k de_strings [] = Some [] \<Longrightarrow>
     field_or (put_opt k (if ss = [] then None else Some (jstrs ss)) m) k de_strings [] = Some ss"
  by (simp add: cfg_simps)

lemma server_of_json_of [cfg_simps]: "server_of_json (json_of_server s) = Some s"
  by (simp add: server_of_json_def json_of_server_def cfg_simps)

lemma auth_of_json_of [cfg_simps]: "auth_of_json (json_of_auth a) = Some a"
  by (simp add: auth_of_json_def json_of_auth_def cfg_simps)

lemma notifications_of_json_of [cfg_simps]: "notifications_of_json (json_of_notifications n) = Some n"
  by (simp add: notifications_of_json_def json_of_notifications_def cfg_simps)

lemma security_of_json_of [cfg_simps]: "security_of_json (json_of_security s) = Some s"
  by (simp add: security_of_json_def json_of_security_def cfg_simps)

lemma extras_of_json_of [cfg_simps]: "extras_of_json (json_of_extras x) = Some x"
  by (simp add: extras_of_json_def json_of_extras_def cfg_simps)

lemma map_of_obj_remove: "k \<noteq> k' \<Longrightarrow> map_of (obj_remove m k') k = map_of m k"
  by (induction m) (auto simp: obj_remove_def)

lemma field_obj_remove [cfg_simps]:
  "k \<noteq> k' \<Longrightarrow> field_or (obj_remove m k') k dec d = field_or m k dec d"
  "k \<noteq> k' \<Longrightarrow> field_req (obj_remove m k') k dec = field_req m k dec"
  by (simp_all add: field_or_def field_req_def map_of_obj_remove)

lemma storage_of_json_of [cfg_simps]: "storage_of_json (json_of_storage b) = Some b"
  by (cases b) (simp_all add: storage_of_json_def json_of_storage_def storage_variant_def cfg_simps)

lemma config_of_json_of: "config_of_json (json_of_config c) = Some c"
  by (simp add: config_of_json_def json_of_config_def cfg_simps)

end
