(* ===== verification/Float_Round.thy ===== *)
theory Float_Round
  imports Prelude
begin

text \<open>
  Non-negative floating-point numbers as the code uses them: Rust's \<open>f64\<close> is IEEE 754 binary64, and
  both \<open>str::parse\<close> and multiplication give the exact result rounded to nearest, ties to even. A
  finite value is a fraction of two naturals, and \<open>None\<close> is infinity.
\<close>

type_synonym f64 = "(nat \<times> nat) option"

fun bit_len :: "nat \<Rightarrow> nat" where
  "bit_len n = (if n = 0 then 0 else Suc (bit_len (n div 2)))"

declare bit_len.simps [simp del]

definition round_half_even :: "nat \<Rightarrow> nat \<Rightarrow> nat" where
  "round_half_even a b = (let q = a div b; r = a mod b in
     if 2 * r < b \<or> (2 * r = b \<and> even q) then q else Suc q)"

text \<open>The binary exponent of a positive fraction, and the weight of its last place at precision 53
  with the smallest binary64 exponent.\<close>

definition frac_log :: "nat \<Rightarrow> nat \<Rightarrow> int" where
  "frac_log n d = (if d \<le> n then int (bit_len (n div d)) - 1 else - int (bit_len ((d - 1) div n)))"

definition last_place :: "nat \<Rightarrow> nat \<Rightarrow> int" where
  "last_place n d = max (-1074) (frac_log n d - 52)"

definition f64_round :: "nat \<Rightarrow> nat \<Rightarrow> f64" where
  "f64_round n d =
     (if n = 0 then Some (0, 1)
      else let e = last_place n d in
        if 0 \<le> e then (let v = round_half_even n (d * 2 ^ nat e) * 2 ^ nat e in
          if 2 ^ 1024 \<le> v then None else Some (v, 1))
        else Some (round_half_even (n * 2 ^ nat (- e)) d, 2 ^ nat (- e)))"

definition f64_mul :: "f64 \<Rightarrow> f64 \<Rightarrow> f64" where
  "f64_mul x y = (case (x, y) of
     (Some (a, b), Some (c, d)) \<Rightarrow> f64_round (a * c) (b * d)
   | _ \<Rightarrow> None)"

definition f64_floor :: "f64 \<Rightarrow> f64" where
  "f64_floor x = map_option (\<lambda>(a, b). (a div b, 1)) x"

text \<open>An unsigned 64-bit integer as \<open>f64\<close>, and the saturating cast back.\<close>

definition f64_of_nat :: "nat \<Rightarrow> f64" where
  "f64_of_nat n = f64_round n 1"

definition f64_to_u64 :: "nat \<times> nat \<Rightarrow> u64" where
  "f64_to_u64 x = (case x of (a, b) \<Rightarrow> of_nat (min (a div b) (2 ^ 64 - 1)))"

section \<open>Exact results\<close>

lemma bit_len_bounds: "0 < n \<Longrightarrow> 2 ^ (bit_len n - 1) \<le> n \<and> n < 2 ^ bit_len n"
proof (induction n rule: bit_len.induct)
  case (1 n)
  show ?case
  proof (cases "n = 1")
    case True then show ?thesis by (simp add: bit_len.simps)
  next
    case False
    with 1(2) have pos: "0 < n div 2" by auto
    with 1 have IH: "2 ^ (bit_len (n div 2) - 1) \<le> n div 2" "n div 2 < 2 ^ bit_len (n div 2)" by auto
    have len: "bit_len n = Suc (bit_len (n div 2))" "0 < bit_len (n div 2)"
      using pos 1(2) bit_len.simps [of n] bit_len.simps [of "n div 2"] by auto
    then have "(2::nat) ^ (bit_len n - 1) = 2 * 2 ^ (bit_len (n div 2) - 1)" by (cases "bit_len (n div 2)") auto
    moreover have "2 * x \<le> n" if "x \<le> n div 2" for x using that by linarith
    moreover have "n < 2 * x" if "n div 2 < x" for x using that by linarith
    ultimately show ?thesis using IH len(1) by (simp only: power_Suc)
  qed
qed

lemma bit_len_le: "n < 2 ^ k \<Longrightarrow> bit_len n \<le> k"
proof (cases "n = 0")
  case False
  assume n: "n < 2 ^ k"
  have "(2::nat) ^ (bit_len n - 1) < 2 ^ k" using False bit_len_bounds [of n] n le_less_trans by blast
  then have "bit_len n - 1 < k" by (rule power_less_imp_less_exp [rotated]) simp
  then show ?thesis by linarith
qed (simp add: bit_len.simps)

lemma round_half_even_exact [simp]: "0 < b \<Longrightarrow> round_half_even (a * b) b = a"
  by (simp add: round_half_even_def)

lemma round_half_even_nearest:
  assumes "0 < b"
  shows "2 * a \<le> (2 * round_half_even a b + 1) * b" "(2 * round_half_even a b) * b \<le> 2 * a + b"
proof -
  define q r where "q = a div b" and "r = a mod b"
  have a: "a = q * b + r" and r: "r < b" using assms by (simp_all add: q_def r_def)
  have "round_half_even a b = (if 2 * r < b \<or> (2 * r = b \<and> even q) then q else Suc q)"
    by (simp add: round_half_even_def q_def r_def Let_def)
  with r show "2 * a \<le> (2 * round_half_even a b + 1) * b" "(2 * round_half_even a b) * b \<le> 2 * a + b"
    unfolding a by (auto simp: algebra_simps)
qed

lemma f64_round_integer:
  assumes "v < 2 ^ 53" "0 < c"
  obtains k where "f64_round (v * c) c = Some (v * 2 ^ k, 2 ^ k)"
proof (cases "v = 0")
  case True then show ?thesis using that [of 0] by (simp add: f64_round_def)
next
  case False
  then have le: "c \<le> v * c" by (cases v) auto
  have "bit_len v \<le> 53" using bit_len_le assms(1) by blast
  moreover have log: "frac_log (v * c) c = int (bit_len v) - 1" using le assms(2) by (simp add: frac_log_def)
  ultimately have e: "last_place (v * c) c \<le> 0" by (simp add: last_place_def)
  have swap: "v * c * 2 ^ k = v * 2 ^ k * c" for k by simp
  show ?thesis
  proof (cases "last_place (v * c) c = 0")
    case True
    have "(2::nat) ^ 53 < 2 ^ 1024" by (rule power_strict_increasing) simp_all
    then show ?thesis using that [of 0] False assms True by (simp add: f64_round_def)
  next
    case neg: False
    then show ?thesis using that [of "nat (- last_place (v * c) c)"] False assms e
      by (simp add: f64_round_def swap Let_def)
  qed
qed

lemma f64_of_nat_exact: assumes "v < 2 ^ 53" obtains k where "f64_of_nat v = Some (v * 2 ^ k, 2 ^ k)"
  using f64_round_integer [OF assms, of 1] by (auto simp: f64_of_nat_def)

text \<open>A product of integers below \<open>2 ^ 53\<close> has no rounding error.\<close>

lemma f64_mul_exact:
  assumes "0 < m" "m < 2 ^ 53" "n * m < 2 ^ 53"
  shows "f64_floor (f64_mul (f64_of_nat n) (f64_of_nat m)) = Some (n * m, 1)"
proof -
  have "n \<le> n * m" using assms by simp
  then have "n < 2 ^ 53" using assms(3) by linarith
  with assms(2) obtain j k where jk: "f64_of_nat n = Some (n * 2 ^ j, 2 ^ j)" "f64_of_nat m = Some (m * 2 ^ k, 2 ^ k)"
    using f64_of_nat_exact by metis
  obtain l where l: "f64_round ((n * m) * (2 ^ j * 2 ^ k)) (2 ^ j * 2 ^ k) = Some (n * m * 2 ^ l, 2 ^ l)"
    using f64_round_integer [OF assms(3), of "2 ^ j * 2 ^ k"] by auto
  have "n * 2 ^ j * (m * 2 ^ k) = (n * m) * (2 ^ j * 2 ^ k)" by simp
  then have "f64_mul (f64_of_nat n) (f64_of_nat m) = Some (n * m * 2 ^ l, 2 ^ l)"
    using l by (simp only: jk f64_mul_def prod.case option.case)
  then show ?thesis by (simp add: f64_floor_def)
qed


lemma frac_log_pow2: "frac_log (2 ^ (i + j)) (2 ^ j) = int i"
proof -
  have "bit_len (2 ^ i) = Suc i" by (induction i) (simp_all add: bit_len.simps)
  then show ?thesis by (simp add: frac_log_def power_add)
qed

lemma f64_round_pow2:
  assumes "52 + k < 1024"
  shows "f64_round (2 ^ (52 + k + j)) (2 ^ j) = Some (2 ^ (52 + k), 1)"
proof -
  have "last_place (2 ^ (52 + k + j)) (2 ^ j) = int k" by (simp only: last_place_def frac_log_pow2)
  moreover have "(2::nat) ^ (52 + k + j) = 2 ^ 52 * (2 ^ j * 2 ^ k)" "(2::nat) ^ (52 + k) = 2 ^ 52 * 2 ^ k"
    by (simp_all only: power_add ac_simps)
  moreover have "(2::nat) ^ (52 + k) < 2 ^ 1024" using assms by (intro power_strict_increasing) simp_all
  moreover have "round_half_even (2 ^ 52 * (2 ^ j * 2 ^ k)) (2 ^ j * 2 ^ k) = 2 ^ 52" by (rule round_half_even_exact) simp
  ultimately show ?thesis unfolding f64_round_def Let_def by simp
qed

lemma f64_mul_pow2:
  assumes "52 + k < 1024"
  shows "f64_mul (Some (2 ^ (52 + k), 1)) (Some (2 ^ 52, 2 ^ 52)) = Some (2 ^ (52 + k), 1)"
proof -
  have "(2::nat) ^ (52 + k) * 2 ^ 52 = 2 ^ (52 + k + 52)" by (simp only: power_add)
  then show ?thesis using f64_round_pow2 [OF assms, of 52] by (simp only: f64_mul_def prod.case option.case mult_1)
qed
end
