(* ===== verification/Config_Sources.thy ===== *)
theory Config_Sources
  imports Config_Schema Float_Round
begin

text \<open>
  The sources of the configuration (\<open>config/sources.rs\<close>): the size grammar, the environment variables,
  the shapes of a configuration file, and the deep merge of one layer into another.

  Parameters, in \<open>config_env\<close>: the environment, the reading of files, the parsers for JSON, YAML and TOML,
  whether the \<open>config-loader\<close> feature is on, and how paths, strings and floating-point numbers look in
  error messages.
\<close>

record config_env =
  ce_var :: "string \<Rightarrow> string option"
  ce_read :: "string \<Rightarrow> string + string"
  ce_loader_feature :: bool
  ce_json :: "string \<Rightarrow> string + json"
  ce_yaml :: "string \<Rightarrow> string + json"
  ce_toml :: "string \<Rightarrow> string + (string + json)"
  ce_debug :: "string \<Rightarrow> string"
  ce_f64 :: "f64 \<Rightarrow> string"
  ce_shape_error :: "json \<Rightarrow> string"

section \<open>Values of environment variables\<close>

definition parse_bool :: "string \<Rightarrow> bool option" where
  "parse_bool s = (let t = to_ascii_lowercase (trim s) in
     if t \<in> {''1'', ''true'', ''yes'', ''on''} then Some True
     else if t \<in> {''0'', ''false'', ''no'', ''off'', ''''} then Some False
     else None)"

definition parse_csv_value :: "string \<Rightarrow> json" where
  "parse_csv_value s = JArray (map JString (filter (\<lambda>p. p \<noteq> []) (map trim (split_on (CHR '','') s))))"

text \<open>\<open>str::parse::<f64>\<close> on digits with at most one dot between them.\<close>

definition f64_parse :: "string \<Rightarrow> f64 option" where
  "f64_parse s = (case split_once (CHR ''.'') s of
     None \<Rightarrow> map_option (\<lambda>n. f64_round n 1) (parse_digits 0 s)
   | Some (i, f) \<Rightarrow> map_option (\<lambda>n. f64_round n (10 ^ length f)) (parse_digits 0 (i @ f)))"

definition size_multiplier :: "string \<Rightarrow> nat option" where
  "size_multiplier = map_of [('''', 1), (''B'', 1), (''KB'', 1000), (''MB'', 1000000), (''GB'', 1000000000),
     (''TB'', 1000000000000), (''KIB'', 1024), (''MIB'', 1024 ^ 2), (''GIB'', 1024 ^ 3), (''TIB'', 1024 ^ 4)]"

definition parse_size :: "config_env \<Rightarrow> string \<Rightarrow> string + u64" where
  "parse_size E s =
     (let trimmed = trim s in
      if trimmed = [] then Inl ''parse_size: empty input''
      else let cut = length (takeWhile (\<lambda>c. ascii_digit c \<or> c = CHR ''.'') trimmed);
               num_part = trim (take cut trimmed);
               sfx = to_ascii_uppercase (trim (drop cut trimmed)) in
        if num_part = [] then Inl (''parse_size: missing number in '' @ ce_debug E s)
        else if 1 < count_list num_part (CHR ''.'') \<or> starts_with ''.'' num_part \<or> ends_with ''.'' num_part
        then Inl (''parse_size: invalid number '' @ ce_debug E num_part)
        else rbind (ok_or (f64_parse num_part) (''parse_size: bad number '' @ ce_debug E num_part @ '': invalid float literal'')) (\<lambda>num.
          if num = None then Inl (''parse_size: non-negative finite number required, got '' @ ce_f64 E num)
          else rbind (ok_or (size_multiplier sfx) (''parse_size: unknown suffix '' @ ce_debug E sfx)) (\<lambda>multiplier.
            case (f64_floor (f64_mul num (f64_of_nat multiplier)), f64_of_nat (2 ^ 64 - 1)) of
              (Some (a, b), Some (c, d)) \<Rightarrow>
                if c * b < a * d then Inl (''parse_size: result out of u64 range: '' @ ce_f64 E (Some (a, b)))
                else Inr (f64_to_u64 (a, b))
            | _ \<Rightarrow> Inl (''parse_size: result out of u64 range: '' @ ce_f64 E None))))"

section \<open>The environment as a layer\<close>

text \<open>\<open>get(a).or_else(|| get(b))\<close>, and the values the sections read from a variable.\<close>

definition var_bool :: "config_env \<Rightarrow> string \<Rightarrow> bool option" where
  "var_bool E k = Option.bind (ce_var E k) parse_bool"

definition ok_of :: "'e + 'a \<Rightarrow> 'a option" where
  "ok_of r = (case r of Inl _ \<Rightarrow> None | Inr a \<Rightarrow> Some a)"

definition env_server :: "config_env \<Rightarrow> members" where
  "env_server E = put_opts [
     (''host'', map_option JString (ce_var E ''JSS_HOST'')),
     (''port'', map_option (\<lambda>n. jnum (of_nat n :: u16)) (Option.bind (ce_var E ''JSS_PORT'') (parse_uint 16))),
     (''base_url'', map_option JString (ce_var E ''JSS_BASE_URL''))]"

definition env_storage :: "config_env \<Rightarrow> members" where
  "env_storage E =
     (let storage_type = map_option to_ascii_lowercase (ce_var E ''JSS_STORAGE_TYPE'');
          storage_root = or_else (ce_var E ''JSS_STORAGE_ROOT'') (ce_var E ''JSS_ROOT'') in
      if storage_type = Some ''memory'' then put_opts [(''type'', Some (JString ''memory''))]
      else if storage_type = Some ''s3'' then put_opts [
        (''type'', Some (JString ''s3'')),
        (''bucket'', map_option JString (ce_var E ''JSS_S3_BUCKET'')),
        (''region'', map_option JString (ce_var E ''JSS_S3_REGION'')),
        (''prefix'', map_option JString (ce_var E ''JSS_S3_PREFIX''))]
      else if storage_type \<in> {Some ''fs'', None} \<and> storage_root \<noteq> None then put_opts [
        (''type'', Some (JString ''fs'')),
        (''root'', map_option JString storage_root)]
      else if storage_type = Some ''fs'' then put_opts [(''type'', Some (JString ''fs''))]
      else [])"

definition env_auth :: "config_env \<Rightarrow> members" where
  "env_auth E = put_opts [
     (''oidc_enabled'', map_option JBool (Option.bind (or_else (ce_var E ''JSS_OIDC_ENABLED'') (ce_var E ''JSS_IDP'')) parse_bool)),
     (''oidc_issuer'', map_option JString (or_else (ce_var E ''JSS_OIDC_ISSUER'') (ce_var E ''JSS_IDP_ISSUER''))),
     (''nip98_enabled'', map_option JBool (var_bool E ''JSS_NIP98_ENABLED'')),
     (''dpop_replay_ttl_seconds'', map_option jnum (Option.bind (ce_var E ''JSS_DPOP_REPLAY_TTL_SECONDS'') parse_u64))]"

definition env_notifications :: "config_env \<Rightarrow> members" where
  "env_notifications E =
     (let master = var_bool E ''JSS_NOTIFICATIONS'';
          ws = or_else (var_bool E ''JSS_NOTIFICATIONS_WS2023'') master;
          webhook = or_else (var_bool E ''JSS_NOTIFICATIONS_WEBHOOK'') master;
          legacy = or_else (var_bool E ''JSS_NOTIFICATIONS_LEGACY'') master in
      put_opts [
        (''ws2023_enabled'', map_option JBool ws),
        (''webhook2023_enabled'', map_option JBool webhook),
        (''legacy_solid_01_enabled'', map_option JBool legacy)])"

definition env_security :: "config_env \<Rightarrow> members" where
  "env_security E = put_opts [
     (''ssrf_allow_private'', map_option JBool (var_bool E ''JSS_SSRF_ALLOW_PRIVATE'')),
     (''ssrf_allowlist'', map_option parse_csv_value (ce_var E ''JSS_SSRF_ALLOWLIST'')),
     (''ssrf_denylist'', map_option parse_csv_value (ce_var E ''JSS_SSRF_DENYLIST'')),
     (''dotfile_allowlist'', map_option parse_csv_value (ce_var E ''JSS_DOTFILE_ALLOWLIST'')),
     (''acl_origin_enabled'', map_option JBool (var_bool E ''JSS_ACL_ORIGIN_ENABLED'')),
     (''default_quota_bytes'', map_option jnum (Option.bind
        (or_else (ce_var E ''JSS_DEFAULT_QUOTA'') (ce_var E ''JSS_QUOTA_DEFAULT_BYTES'')) (\<lambda>v. ok_of (parse_size E v))))]"

definition env_extras :: "config_env \<Rightarrow> members" where
  "env_extras E = put_opts [
     (''conneg_enabled'', map_option JBool (var_bool E ''JSS_CONNEG'')),
     (''cors_allowed_origins'', map_option parse_csv_value (ce_var E ''JSS_CORS_ALLOWED_ORIGINS'')),
     (''max_body_size_bytes'', map_option jnum (Option.bind
        (or_else (ce_var E ''JSS_MAX_BODY_SIZE'') (ce_var E ''JSS_MAX_REQUEST_BODY'')) (\<lambda>v. ok_of (parse_size E v)))),
     (''max_acl_bytes'', map_option jnum (Option.bind (ce_var E ''JSS_MAX_ACL_BYTES'') (\<lambda>v. ok_of (parse_size E v)))),
     (''rate_limit_writes_per_min'', map_option jnum (Option.bind (ce_var E ''JSS_RATE_LIMIT_WRITES_PER_MIN'') parse_u64)),
     (''subdomains_enabled'', map_option JBool (var_bool E ''JSS_SUBDOMAINS'')),
     (''base_domain'', map_option JString (ce_var E ''JSS_BASE_DOMAIN'')),
     (''idp_enabled'', map_option JBool (var_bool E ''JSS_IDP_ENABLED'')),
     (''invite_only'', map_option JBool (var_bool E ''JSS_INVITE_ONLY'')),
     (''admin_key'', map_option JString (ce_var E ''JSS_ADMIN_KEY''))]"

text \<open>A section goes into the layer when it has a member.\<close>

definition section_opt :: "members \<Rightarrow> json option" where
  "section_opt m = (if m = [] then None else Some (JObject m))"

definition env_from :: "config_env \<Rightarrow> json" where
  "env_from E = JObject (put_opts [
     (''server'', section_opt (env_server E)),
     (''storage'', section_opt (env_storage E)),
     (''auth'', section_opt (env_auth E)),
     (''notifications'', section_opt (env_notifications E)),
     (''security'', section_opt (env_security E)),
     (''extras'', section_opt (env_extras E))])"

section \<open>The file as a layer\<close>

definition type_name :: "json \<Rightarrow> string" where
  "type_name j = (case j of JNull \<Rightarrow> ''null'' | JBool _ \<Rightarrow> ''bool'' | JNumber _ \<Rightarrow> ''number''
     | JString _ \<Rightarrow> ''string'' | JArray _ \<Rightarrow> ''array'' | JObject _ \<Rightarrow> ''object'')"

definition flat_key :: "string \<Rightarrow> bool" where
  "flat_key k = (k \<in> {''host'', ''port'', ''base_url'', ''baseUrl''})"

definition insert_all :: "members \<Rightarrow> members \<Rightarrow> members" where
  "insert_all m kvs = fold (\<lambda>(k, v) m. obj_insert m k v) kvs m"

definition normalise_file_shape :: "json \<Rightarrow> json" where
  "normalise_file_shape j = (case j of
     JObject obj \<Rightarrow>
       if map_of obj ''server'' \<noteq> None then j
       else let server = insert_all [] (map (\<lambda>(k, v). (if k = ''baseUrl'' then ''base_url'' else k, v)) (filter (flat_key \<circ> fst) obj));
                remaining = insert_all [] (filter (Not \<circ> flat_key \<circ> fst) obj) in
         JObject (insert_all (put_opts [(''server'', section_opt server)]) remaining)
   | _ \<Rightarrow> j)"

text \<open>\<open>Path::extension\<close> as a string: the last component, split at its last dot unless that is its first byte.\<close>

definition path_extension :: "string \<Rightarrow> string option" where
  "path_extension p = (case rev (filter (\<lambda>c. c \<noteq> [] \<and> c \<noteq> ''.'') (split_on (CHR ''/'') p)) of
     [] \<Rightarrow> None
   | file_name # _ \<Rightarrow>
       if file_name = ''..'' then None
       else case rfind_char (CHR ''.'') file_name of
         None \<Rightarrow> None
       | Some i \<Rightarrow> if i = 0 then None else from_utf8 (drop (Suc i) file_name))"

definition load_file :: "config_env \<Rightarrow> string \<Rightarrow> PodError + json" where
  "load_file E path =
     rbind (map_err (\<lambda>e. Backend (''config file '' @ ce_debug E path @ '': '' @ e)) (ce_read E path)) (\<lambda>content.
     (let ext = map_option to_ascii_lowercase (path_extension path);
          bad = (\<lambda>fmt e. Backend (''config file '' @ ce_debug E path @ '' is not valid '' @ fmt @ '': '' @ e)) in
      rbind (if ce_loader_feature E \<and> ext \<in> {Some ''yaml'', Some ''yml''} then map_err (bad ''YAML'') (ce_yaml E content)
             else if ce_loader_feature E \<and> ext = Some ''toml''
             then rbind (map_err (bad ''TOML'') (ce_toml E content)) (map_err Json)
             else map_err (bad ''JSON'') (ce_json E content)) (\<lambda>v.
      (case v of
         JObject _ \<Rightarrow> Inr (normalise_file_shape v)
       | _ \<Rightarrow> Inl (Backend (''config file '' @ ce_debug E path @ '': top-level must be an object, got '' @ type_name v))))))"

section \<open>Merging\<close>

fun merge_json :: "json \<Rightarrow> json \<Rightarrow> json" and merge_members :: "members \<Rightarrow> members \<Rightarrow> members" where
  "merge_json base overlay = (case overlay of
     JObject mo \<Rightarrow> (case base of JObject b \<Rightarrow> JObject (merge_members b mo) | _ \<Rightarrow> overlay)
   | _ \<Rightarrow> overlay)"
| "merge_members b [] = b"
| "merge_members b ((k, v) # mo) =
     merge_members (obj_insert b k (case map_of b k of Some existing \<Rightarrow> merge_json existing v | None \<Rightarrow> v)) mo"

datatype ConfigSource = Defaults | File string | EnvVars | CliOverlay json

definition resolve_source :: "config_env \<Rightarrow> ConfigSource \<Rightarrow> PodError + json" where
  "resolve_source E src = (case src of
     Defaults \<Rightarrow> Inr (json_of_config ServerConfig_default)
   | File path \<Rightarrow> load_file E path
   | EnvVars \<Rightarrow> Inr (env_from E)
   | CliOverlay v \<Rightarrow> Inr v)"


section \<open>Layers are well-formed objects\<close>

text \<open>The keys of every object outside arrays are increasing, as those of a \<open>serde_json\<close> map are.\<close>

fun key_sorted :: "json \<Rightarrow> bool" where
  "key_sorted (JObject m) = (sorted_wrt (<) (map fst m) \<and> (\<forall>kv \<in> set m. key_sorted (snd kv)))"
| "key_sorted _ = True"

lemma obj_insert_keys: "set (map fst (obj_insert m k v)) = insert k (set (map fst m))"
  by (induction m k v rule: obj_insert.induct) auto

lemma obj_insert_sorted: "sorted_wrt (<) (map fst m) \<Longrightarrow> sorted_wrt (<) (map fst (obj_insert m k v))"
proof (induction m k v rule: obj_insert.induct)
  case (2 k' v' m k v)
  have "\<forall>y \<in> set (map fst (obj_insert m k v)). k' < y" if "k' < k" using 2(2) that unfolding obj_insert_keys by auto
  then show ?case using 2 by auto
qed simp

lemma set_obj_insert: "set (obj_insert m k v) \<subseteq> insert (k, v) (set m)"
  by (induction m k v rule: obj_insert.induct) auto

lemma keyed_obj_insert: "key_sorted (JObject m) \<Longrightarrow> key_sorted v \<Longrightarrow> key_sorted (JObject (obj_insert m k v))"
  using set_obj_insert [of m k v] by (auto simp: obj_insert_sorted)

declare key_sorted.simps(1) [simp del]

definition keyed_opt :: "json option \<Rightarrow> bool" where
  "keyed_opt j = (case j of None \<Rightarrow> True | Some v \<Rightarrow> key_sorted v)"

lemma keyed_put_opts [simp]: "\<forall>kv \<in> set kvs. keyed_opt (snd kv) \<Longrightarrow> key_sorted (JObject (put_opts kvs))"
proof (induction kvs)
  case (Cons kv kvs)
  then show ?case by (cases kv; cases "snd kv") (auto simp: keyed_opt_def put_opt_def intro!: keyed_obj_insert)
qed (simp add: key_sorted.simps)

lemma keyed_insert_all: "key_sorted (JObject m) \<Longrightarrow> (\<And>kv. kv \<in> set kvs \<Longrightarrow> key_sorted (snd kv)) \<Longrightarrow> key_sorted (JObject (insert_all m kvs))"
proof (induction kvs arbitrary: m)
  case (Cons kv kvs)
  have "insert_all m (kv # kvs) = insert_all (obj_insert m (fst kv) (snd kv)) kvs"
    by (simp add: insert_all_def case_prod_beta)
  then show ?case using Cons by (simp add: keyed_obj_insert)
qed (simp add: insert_all_def)

lemma keyed_leaf [simp]: "key_sorted (jnum n)" "key_sorted (jstrs ss)" "key_sorted (parse_csv_value s)"
  by (simp_all add: jnum_def jstrs_def parse_csv_value_def)

lemma keyed_opt_simps [simp]:
  "keyed_opt None" "keyed_opt (Some v) = key_sorted v" "keyed_opt (map_option JString s)" "keyed_opt (map_option JBool b)"
  "keyed_opt (map_option jnum n)" "keyed_opt (map_option (\<lambda>i. jnum (f i)) i)" "keyed_opt (map_option parse_csv_value s)"
  "keyed_opt (section_opt []) " "keyed_opt (section_opt m) = key_sorted (JObject m)"
  by (auto simp: keyed_opt_def section_opt_def key_sorted.simps split: option.splits)

lemma keyed_config: "key_sorted (json_of_config c)"
proof -
  have sections: "key_sorted (json_of_server s)" "key_sorted (json_of_auth a)" "key_sorted (json_of_notifications n)"
      "key_sorted (json_of_security e)" "key_sorted (json_of_extras x)" for s a n e x
    unfolding json_of_server_def json_of_auth_def json_of_notifications_def json_of_security_def json_of_extras_def
    by (rule keyed_put_opts, simp)+
  have "key_sorted (json_of_storage b)" for b
    unfolding json_of_storage_def by (rule keyed_put_opts) (simp split: StorageBackendConfig.split)
  with sections show ?thesis unfolding json_of_config_def by (intro keyed_put_opts) simp
qed

lemma keyed_if: "key_sorted (JObject a) \<Longrightarrow> key_sorted (JObject b) \<Longrightarrow> key_sorted (JObject (if c then a else b))"
  by simp

lemma keyed_env: "key_sorted (env_from E)"
proof -
  have sections: "key_sorted (JObject (env_server E))" "key_sorted (JObject (env_auth E))" "key_sorted (JObject (env_notifications E))"
      "key_sorted (JObject (env_security E))" "key_sorted (JObject (env_extras E))"
    unfolding env_server_def env_auth_def env_notifications_def env_security_def env_extras_def Let_def
    by (rule keyed_put_opts, simp)+
  have "key_sorted (JObject (env_storage E))"
    unfolding env_storage_def Let_def by (intro keyed_if keyed_put_opts) (simp_all add: key_sorted.simps)
  with sections show ?thesis unfolding env_from_def by (intro keyed_put_opts) simp
qed

lemma normalise_keyed: "key_sorted j \<Longrightarrow> key_sorted (normalise_file_shape j)"
proof (cases j)
  case (JObject m)
  assume j: "key_sorted j"
  have "key_sorted (JObject (insert_all [] (map (\<lambda>(k, v). (if k = ''baseUrl'' then ''base_url'' else k, v)) (filter (flat_key \<circ> fst) m))))"
    using j by (intro keyed_insert_all) (auto simp: JObject key_sorted.simps)
  then have "key_sorted (JObject (insert_all (put_opts [(''server'', section_opt (insert_all []
      (map (\<lambda>(k, v). (if k = ''baseUrl'' then ''base_url'' else k, v)) (filter (flat_key \<circ> fst) m))))])
      (insert_all [] (filter (Not \<circ> flat_key \<circ> fst) m))))"
    using j keyed_insert_all [of "[]" "filter (Not \<circ> flat_key \<circ> fst) m"]
    by (intro keyed_insert_all keyed_put_opts) (auto simp: JObject key_sorted.simps)
  then show ?thesis using j by (simp add: JObject normalise_file_shape_def Let_def)
qed (simp_all add: normalise_file_shape_def)

section \<open>What a merge says at each path\<close>

fun setting :: "json \<Rightarrow> string list \<Rightarrow> json option" where
  "setting t [] = Some t"
| "setting t (k # p) = Option.bind (json_get t k) (\<lambda>v. setting v p)"

definition leaf :: "json \<Rightarrow> string list \<Rightarrow> json option" where
  "leaf t p = (case setting t p of Some v \<Rightarrow> (case v of JObject _ \<Rightarrow> None | _ \<Rightarrow> Some v) | None \<Rightarrow> None)"

text \<open>A layer decides a path when it has a value there, or a value that is no object above it.\<close>

fun decides :: "json \<Rightarrow> string list \<Rightarrow> bool" where
  "decides t [] = True"
| "decides t (k # p) = (case t of
     JObject m \<Rightarrow> (case map_of m k of None \<Rightarrow> False | Some v \<Rightarrow> decides v p)
   | _ \<Rightarrow> True)"

declare merge_json.simps [simp del]

lemma merge_json_simps [simp]:
  "merge_json (JObject b) (JObject m) = JObject (merge_members b m)"
  "\<forall>b. t \<noteq> JObject b \<Longrightarrow> merge_json t v = v"
  "\<forall>m. v \<noteq> JObject m \<Longrightarrow> merge_json t v = v"
  by (cases t; cases v; simp add: merge_json.simps)+

lemma map_of_merge_members:
  "distinct (map fst m) \<Longrightarrow> map_of (merge_members b m) k =
     (case map_of m k of None \<Rightarrow> map_of b k
      | Some v \<Rightarrow> Some (case map_of b k of None \<Rightarrow> v | Some e \<Rightarrow> merge_json e v))"
proof (induction m arbitrary: b)
  case (Cons kv m)
  then show ?case by (cases kv) (auto simp: map_of_eq_None_iff image_iff split: option.splits)
qed simp

lemma keyed_distinct: "key_sorted (JObject m) \<Longrightarrow> distinct (map fst m)"
  by (auto simp: key_sorted.simps strict_sorted_iff)

lemma keyed_member: "key_sorted (JObject m) \<Longrightarrow> map_of m k = Some v \<Longrightarrow> key_sorted v"
  by (auto simp: key_sorted.simps dest!: map_of_SomeD)

lemma leaf_Cons: "leaf t (k # p) = (case json_get t k of None \<Rightarrow> None | Some v \<Rightarrow> leaf v p)"
  by (auto simp: leaf_def split: option.splits)

lemma undecided_leaf: "\<not> decides t p \<Longrightarrow> leaf t p = None"
  by (induction t p rule: decides.induct) (auto simp: leaf_Cons json_get_def split: json.splits option.splits)

lemma leaf_merge: "key_sorted v \<Longrightarrow> leaf (merge_json t v) p = (if decides v p then leaf v p else leaf t p)"
proof (induction p arbitrary: t v)
  case Nil
  show ?case by (cases t; cases v) (simp_all add: leaf_def)
next
  case (Cons k p)
  show ?case
  proof (cases v)
    case v: (JObject m)
    note dist = keyed_distinct [OF Cons(2) [unfolded v]]
    show ?thesis
    proof (cases t)
      case t: (JObject b)
      show ?thesis
      proof (cases "map_of m k")
        case (Some x)
        then have "key_sorted x" using keyed_member Cons(2) v by blast
        then show ?thesis using Cons(1) [of x] undecided_leaf [of x p] Some
          by (auto simp: t v leaf_Cons json_get_def map_of_merge_members [OF dist] split: option.splits)
      qed (simp add: t v leaf_Cons json_get_def map_of_merge_members [OF dist])
    qed (use undecided_leaf [of v "k # p"] in \<open>simp_all add: leaf_Cons json_get_def v\<close>)
  qed (simp_all add: leaf_Cons json_get_def)
qed

section \<open>Sizes\<close>

lemma size_multiplier_Some: "size_multiplier t = Some m \<Longrightarrow> 0 < m \<and> m < 2 ^ 53 \<and> set t \<subseteq> set ''BKMGTI''"
  by (auto simp: size_multiplier_def split: if_splits)

lemma unit_codes:
  "char_of (98 :: nat) = CHR ''b''" "char_of (107 :: nat) = CHR ''k''" "char_of (109 :: nat) = CHR ''m''"
  "char_of (103 :: nat) = CHR ''g''" "char_of (116 :: nat) = CHR ''t''" "char_of (105 :: nat) = CHR ''i''"
  by code_simp+

lemma upper_unit: "ascii_upper c \<in> set ''BKMGTI'' \<Longrightarrow> c \<in> set ''BKMGTIbkmgti''"
proof -
  assume u: "ascii_upper c \<in> set ''BKMGTI''"
  have "c = ascii_upper c \<or> c = char_of (of_char (ascii_upper c) + (32 :: nat))"
  proof (cases "97 \<le> (of_char c :: nat) \<and> (of_char c :: nat) \<le> 122")
    case True
    moreover from True have "(of_char c :: nat) - 32 < 256" by linarith
    ultimately have "of_char (ascii_upper c) = (of_char c :: nat) - 32" by (simp add: ascii_upper_def Let_def)
    with True have "of_char (ascii_upper c) + 32 = (of_char c :: nat)" by simp
    then show ?thesis by (metis char_of_char)
  qed (auto simp: ascii_upper_def Let_def)
  then show ?thesis using u by (elim disjE) (auto simp: unit_codes)
qed

lemma f64_of_max_u64: "f64_of_nat (2 ^ 64 - 1) = Some (2 ^ 64, 1)"
  by (simp add: f64_of_nat_def f64_round_def last_place_def frac_log_def round_half_even_def bit_len.simps)

lemma unit_char: "c \<in> set ''BKMGTIbkmgti'' \<Longrightarrow> plain c \<and> \<not> ascii_digit c \<and> c \<noteq> CHR ''.''"
  by (simp, elim disjE; simp add: plain_def ascii_ws_def ascii_digit_def)

lemma ascii_ws_no_digit: "ascii_ws c \<Longrightarrow> \<not> ascii_digit c \<and> c \<noteq> CHR ''.''"
  by (auto simp: ascii_ws_def ascii_digit_def)

text \<open>A number, optional white space, and a unit in any case.\<close>

lemma size_text_split:
  assumes "size_multiplier (to_ascii_uppercase u) = Some m" "list_all ascii_ws w" "list_all ascii_ws g" "list_all ascii_ws v"
  obtains r where "trim (w @ show_nat n @ g @ u @ v) = show_nat n @ r" "trim r = u"
    "takeWhile (\<lambda>c. ascii_digit c \<or> c = CHR ''.'') (show_nat n @ r) = show_nat n"
proof -
  have unit: "plain c" "\<not> ascii_digit c" "c \<noteq> CHR ''.''" if "c \<in> set u" for c
  proof -
    have "ascii_upper c \<in> set ''BKMGTI''" using size_multiplier_Some [OF assms(1)] that by (auto simp: to_ascii_uppercase_def)
    then show "plain c" "\<not> ascii_digit c" "c \<noteq> CHR ''.''" using unit_char upper_unit by blast+
  qed
  have digits: "\<forall>c \<in> set (show_nat n). ascii_digit c" using show_nat_digits [of n] by (simp add: list_all_iff)
  have stop: "takeWhile (\<lambda>c. ascii_digit c \<or> c = CHR ''.'') (show_nat n @ r) = show_nat n"
    if "r = [] \<or> \<not> (ascii_digit (hd r) \<or> hd r = CHR ''.'')" for r
    using digits that by (cases r) (simp_all add: takeWhile_append2)
  have ends: "plain (hd (show_nat n))" "plain (last (show_nat n))" using digits by (simp_all add: plain_digit)
  show thesis
  proof (cases "u = []")
    case True
    then show ?thesis using that [of "[]"] stop [of "[]"] trim_pad [of "show_nat n" w "g @ v"] ends assms by simp
  next
    case False
    have "trim (w @ (show_nat n @ g @ u) @ v) = show_nat n @ g @ u"
      using False unit(1) ends assms(2,4) by (intro trim_pad) simp_all
    moreover have "trim (g @ u @ []) = u" using False unit(1) assms(3) by (intro trim_pad) simp_all
    moreover have "\<not> (ascii_digit (hd (g @ u)) \<or> hd (g @ u) = CHR ''.'')"
      using False unit(2,3) assms(3) ascii_ws_no_digit by (cases g) auto
    ultimately show ?thesis using that [of "g @ u"] stop [of "g @ u"] by simp
  qed
qed

lemma f64_parse_show: "f64_parse (show_nat n) = Some (f64_of_nat n)"
proof -
  have "CHR ''.'' \<notin> set (show_nat n)" using show_nat_digits [of n] by (auto simp: list_all_iff ascii_digit_def)
  then show ?thesis by (simp add: f64_parse_def split_once_None_iff [THEN iffD2] parse_digits_show f64_of_nat_def)
qed

lemma parse_size_text:
  assumes "size_multiplier (to_ascii_uppercase u) = Some m" "list_all ascii_ws w" "list_all ascii_ws g" "list_all ascii_ws v"
    "f64_of_nat n \<noteq> None" "f64_floor (f64_mul (f64_of_nat n) (f64_of_nat m)) = Some (c, 1)" "c \<le> 2 ^ 64"
  shows "parse_size E (w @ show_nat n @ g @ u @ v) = Inr (f64_to_u64 (c, 1))"
proof -
  obtain r where r: "trim (w @ show_nat n @ g @ u @ v) = show_nat n @ r" "trim r = u"
      "takeWhile (\<lambda>c. ascii_digit c \<or> c = CHR ''.'') (show_nat n @ r) = show_nat n"
    using size_text_split [OF assms(1-4)] .
  have digits: "\<forall>c \<in> set (show_nat n). ascii_digit c" using show_nat_digits [of n] by (simp add: list_all_iff)
  then have dot: "CHR ''.'' \<notin> set (show_nat n)" by (auto simp: ascii_digit_def)
  then have no_dot: "count_list (show_nat n) (CHR ''.'') = 0" "\<not> starts_with ''.'' (show_nat n)" "\<not> ends_with ''.'' (show_nat n)"
    by (auto simp: starts_with_iff ends_with_iff)
  have num: "trim (show_nat n) = show_nat n" using digits by (intro trim_id) (simp_all add: plain_digit)
  show ?thesis using assms(1,5-7) f64_of_max_u64
    by (simp add: parse_size_def Let_def r num no_dot f64_parse_show)
qed

text \<open>a size that is written as a number and a unit, in any case and with white space around and between,
  is read as their product, as long as it is below \<open>2 ^ 53\<close>: the detour over \<open>f64\<close> then loses nothing.\<close>

theorem parse_size_written:
  assumes "size_multiplier (to_ascii_uppercase u) = Some m" "n * m < 2 ^ 53"
    "list_all ascii_ws w" "list_all ascii_ws g" "list_all ascii_ws v"
  shows "parse_size E (w @ show_nat n @ g @ u @ v) = Inr (of_nat (n * m))"
proof -
  note m = size_multiplier_Some [OF assms(1)]
  have "n \<le> n * m" using m by simp
  then obtain k where k: "f64_of_nat n = Some (n * 2 ^ k, 2 ^ k)" using f64_of_nat_exact [of n] assms(2) by (meson le_less_trans)
  have "f64_floor (f64_mul (f64_of_nat n) (f64_of_nat m)) = Some (n * m, 1)" using m assms(2) by (intro f64_mul_exact) simp_all
  then have "parse_size E (w @ show_nat n @ g @ u @ v) = Inr (f64_to_u64 (n * m, 1))"
    using assms k by (intro parse_size_text) simp_all
  moreover have "f64_to_u64 (n * m, 1) = of_nat (n * m)" using assms(2) by (simp add: f64_to_u64_def min_def)
  ultimately show ?thesis by simp
qed

theorem parse_size_written_witness:
  "parse_size E ('' '' @ show_nat 5 @ '' '' @ ''kib'' @ '' '') = Inr (of_nat (5 * 1024))"
proof (rule parse_size_written)
  have "to_ascii_uppercase ''kib'' = ''KIB''" by code_simp
  then show "size_multiplier (to_ascii_uppercase ''kib'') = Some 1024" by (simp add: size_multiplier_def)
qed (simp_all add: ascii_ws_def)

text \<open>Above that bound the number is rounded, and \<open>2 ^ 64\<close>, which \<open>u64::MAX as f64\<close> is, passes the range
  check and becomes the largest \<open>u64\<close>.\<close>

lemma parse_size_boundary:
  "parse_size E ([] @ show_nat (2 ^ 53 + 1) @ [] @ [] @ []) = Inr (2 ^ 53)"
  "parse_size E ([] @ show_nat (2 ^ 64) @ [] @ [] @ []) = Inr (- 1)"
proof -
  have unit: "size_multiplier (to_ascii_uppercase []) = Some 1" by (simp add: size_multiplier_def to_ascii_uppercase_def)
  have f64: "f64_of_nat (2 ^ 53 + 1) = Some (2 ^ 53, 1)" "f64_of_nat (2 ^ 64) = Some (2 ^ 64, 1)" "f64_of_nat 1 = Some (2 ^ 52, 2 ^ 52)"
    by (simp_all add: f64_of_nat_def f64_round_def last_place_def frac_log_def round_half_even_def bit_len.simps)
  have mul: "f64_floor (f64_mul (f64_of_nat (2 ^ 53 + 1)) (f64_of_nat 1)) = Some (2 ^ 53, 1)"
    "f64_floor (f64_mul (f64_of_nat (2 ^ 64)) (f64_of_nat 1)) = Some (2 ^ 64, 1)"
    unfolding f64 using f64_mul_pow2 [of 1] f64_mul_pow2 [of 12] by (simp_all add: f64_floor_def)
  have "parse_size E ([] @ show_nat (2 ^ 53 + 1) @ [] @ [] @ []) = Inr (f64_to_u64 (2 ^ 53, 1))"
    by (rule parse_size_text [OF unit _ _ _ _ mul(1)]) (simp_all only: f64, simp_all)
  moreover have "parse_size E ([] @ show_nat (2 ^ 64) @ [] @ [] @ []) = Inr (f64_to_u64 (2 ^ 64, 1))"
    by (rule parse_size_text [OF unit _ _ _ _ mul(2)]) (simp_all only: f64, simp_all)
  moreover have "f64_to_u64 (2 ^ 53, 1) = 2 ^ 53" "f64_to_u64 (2 ^ 64, 1) = - 1" by (simp_all add: f64_to_u64_def)
  ultimately show "parse_size E ([] @ show_nat (2 ^ 53 + 1) @ [] @ [] @ []) = Inr (2 ^ 53)"
    "parse_size E ([] @ show_nat (2 ^ 64) @ [] @ [] @ []) = Inr (- 1)"
    by (simp_all only:)
qed

end
