(* ===== verification/Config_Loader.thy ===== *)
theory Config_Loader
  imports Config_Sources
begin

text \<open>
  The layered loader (\<open>config/loader.rs\<close>) and the use the server binary makes of it (\<open>main.rs\<close>): layers are
  resolved and merged in the order they were registered, the merged tree is read and validated. Each
  setting comes from the last layer that decides its path (\<open>merged_tree_leaf\<close>); the address the binary
  binds follows flags, environment, file and defaults in this order.
\<close>

record ConfigLoader =
  cl_sources :: "ConfigSource list"
  cl_warnings :: "string list"

definition ConfigLoader_new :: ConfigLoader where
  "ConfigLoader_new = \<lparr>cl_sources = [], cl_warnings = []\<rparr>"

definition push_source :: "ConfigLoader \<Rightarrow> ConfigSource \<Rightarrow> ConfigLoader" where
  "push_source L src = L\<lparr>cl_sources := cl_sources L @ [src]\<rparr>"

definition loader_with_defaults :: "ConfigLoader \<Rightarrow> ConfigLoader" where
  "loader_with_defaults L = (if list_ex (\<lambda>s. s = Defaults) (cl_sources L) then L else push_source L Defaults)"

definition with_file :: "ConfigLoader \<Rightarrow> string \<Rightarrow> ConfigLoader" where
  "with_file L path = push_source L (File path)"

definition with_env :: "ConfigLoader \<Rightarrow> ConfigLoader" where
  "with_env L = push_source L EnvVars"

definition with_env_overlay :: "ConfigLoader \<Rightarrow> ConfigLoader" where
  "with_env_overlay L = (if list_ex (\<lambda>s. s = EnvVars) (cl_sources L) then L else push_source L EnvVars)"

record CliArgs =
  ca_host :: "string option"
  ca_port :: "u16 option"
  ca_base_url :: "string option"
  ca_storage_root :: "string option"
  ca_storage_type :: "string option"
  ca_oidc_enabled :: "bool option"
  ca_oidc_issuer :: "string option"
  ca_nip98_enabled :: "bool option"
  ca_base_domain :: "string option"
  ca_subdomains_enabled :: "bool option"

definition to_overlay :: "CliArgs \<Rightarrow> json" where
  "to_overlay a =
     (let server = put_opts [
            (''host'', map_option JString (ca_host a)),
            (''port'', map_option jnum (ca_port a)),
            (''base_url'', map_option JString (ca_base_url a))];
          storage = (let m = put_opt ''type'' (map_option JString (ca_storage_type a)) [] in
            case ca_storage_root a of
              None \<Rightarrow> m
            | Some v \<Rightarrow> obj_insert (obj_insert m ''type'' (JString ''fs'')) ''root'' (JString v));
          auth = put_opts [
            (''oidc_enabled'', map_option JBool (ca_oidc_enabled a)),
            (''oidc_issuer'', map_option JString (ca_oidc_issuer a)),
            (''nip98_enabled'', map_option JBool (ca_nip98_enabled a))];
          extras = put_opts [
            (''base_domain'', map_option JString (ca_base_domain a)),
            (''subdomains_enabled'', map_option JBool (ca_subdomains_enabled a))] in
      JObject (put_opts [(''server'', section_opt server), (''storage'', section_opt storage),
        (''auth'', section_opt auth), (''extras'', section_opt extras)]))"

definition with_cli_overlay :: "ConfigLoader \<Rightarrow> CliArgs \<Rightarrow> ConfigLoader" where
  "with_cli_overlay L args = push_source L (CliOverlay (to_overlay args))"

section \<open>Loading\<close>

definition memory_warning :: string where
  "memory_warning = ''JSS_STORAGE_TYPE=memory with JSS_STORAGE_ROOT/JSS_ROOT set: memory backend wins, root ignored''"

definition env_warnings :: "config_env \<Rightarrow> json \<Rightarrow> string list" where
  "env_warnings E tree =
     (let type_is_memory = (as_str (Option.bind (json_get tree ''storage'') (\<lambda>s. json_get s ''type'')) = Some ''memory'');
          root_was_set = (ce_var E ''JSS_STORAGE_ROOT'' \<noteq> None \<or> ce_var E ''JSS_ROOT'' \<noteq> None) in
      if type_is_memory \<and> root_was_set then [memory_warning] else [])"

fun load_sources :: "config_env \<Rightarrow> ConfigSource list \<Rightarrow> json \<Rightarrow> string list \<Rightarrow> PodError + (json \<times> string list)" where
  "load_sources E [] tree warnings = Inr (tree, warnings)"
| "load_sources E (src # srcs) tree warnings =
     rbind (resolve_source E src) (\<lambda>overlay.
     (let tree = merge_json tree overlay in
      load_sources E srcs tree (if src = EnvVars then warnings @ env_warnings E tree else warnings)))"

text \<open>The result comes with the warnings that go to the log.\<close>

definition load :: "config_env \<Rightarrow> ConfigLoader \<Rightarrow> string list \<times> (PodError + ServerConfig)" where
  "load E L =
     (let srcs = (if cl_sources L = [] then [Defaults] else cl_sources L) in
      case load_sources E srcs (JObject []) (cl_warnings L) of
        Inl e \<Rightarrow> ([], Inl e)
      | Inr (tree, warnings) \<Rightarrow>
          (warnings,
           rbind (ok_or (config_of_json tree) (Backend (''config merge produced invalid shape: '' @ ce_shape_error E tree))) (\<lambda>cfg.
           rbind (map_err Backend (validate cfg)) (\<lambda>_. Inr cfg))))"

definition from_file :: "config_env \<Rightarrow> string \<Rightarrow> string list \<times> (PodError + ServerConfig)" where
  "from_file E path = load E (with_file (loader_with_defaults ConfigLoader_new) path)"

section \<open>The server binary\<close>

text \<open>The flags of the binary that matter here, and what it starts with. An error is its chain of
  messages, outermost first.\<close>

record Cli =
  co_config :: "string option"
  co_host :: "string option"
  co_port :: "u16 option"

record startup =
  su_bind_addr :: string
  su_base_url :: string
  su_storage :: StorageBackendConfig
  su_config :: ServerConfig

definition build_storage :: "StorageBackendConfig \<Rightarrow> string list + StorageBackendConfig" where
  "build_storage cfg = (case cfg of
     S3 bucket region _ \<Rightarrow> Inl [''storage.type=s3 requested (bucket='' @ bucket @ '', region='' @ region @
       '') but this binary was built without the `s3-backend` feature. Rebuild with '' @
       ''`--features solid-pod-rs/s3-backend` or use fs/memory storage.'']
   | _ \<Rightarrow> Inr cfg)"

definition boot_loader :: "Cli \<Rightarrow> ConfigLoader" where
  "boot_loader cli =
     (let loader = loader_with_defaults ConfigLoader_new in
      with_env (case co_config cli of Some path \<Rightarrow> with_file loader path | None \<Rightarrow> loader))"

definition with_flags :: "Cli \<Rightarrow> ServerConfig \<Rightarrow> ServerConfig" where
  "with_flags cli cfg = cfg\<lparr>cf_server := (cf_server cfg)
     \<lparr>sv_host := unwrap_or (co_host cli) (sv_host (cf_server cfg)), sv_port := unwrap_or (co_port cli) (sv_port (cf_server cfg))\<rparr>\<rparr>"

definition boot :: "config_env \<Rightarrow> Cli \<Rightarrow> string list + startup" where
  "boot E cli =
     rbind (map_err (\<lambda>e. [''load server config'', pod_error_to_string e]) (snd (load E (boot_loader cli)))) (\<lambda>cfg0.
     (let cfg = with_flags cli cfg0 in
      rbind (map_err (\<lambda>e. [e]) (validate cfg)) (\<lambda>_.
      (let bind_addr = sv_host (cf_server cfg) @ '':'' @ show_nat (unat (sv_port (cf_server cfg))) in
       rbind (build_storage (cf_storage cfg)) (\<lambda>storage.
         Inr \<lparr>su_bind_addr = bind_addr, su_base_url = unwrap_or (sv_base_url (cf_server cfg)) (''http://'' @ bind_addr),
           su_storage = storage, su_config = cfg\<rparr>)))))"

section \<open>Where a setting comes from\<close>

text \<open>Parsers of configuration files give objects with distinct keys, as \<open>serde_json\<close> maps have.\<close>

definition keyed_parsers :: "config_env \<Rightarrow> bool" where
  "keyed_parsers E \<longleftrightarrow> (\<forall>s j. (ce_json E s = Inr j \<longrightarrow> key_sorted j) \<and> (ce_yaml E s = Inr j \<longrightarrow> key_sorted j)
     \<and> (ce_toml E s = Inr (Inr j) \<longrightarrow> key_sorted j))"

lemma keyed_file: "keyed_parsers E \<Longrightarrow> load_file E path = Inr j \<Longrightarrow> key_sorted j"
  by (auto simp: load_file_def keyed_parsers_def Let_def normalise_keyed rbind_def map_err_def
      split: sum.splits if_splits json.splits)

lemma keyed_resolved: "keyed_parsers E \<Longrightarrow> resolve_source E src = Inr j \<Longrightarrow> (\<And>v. src \<noteq> CliOverlay v) \<Longrightarrow> key_sorted j"
  by (cases src) (auto simp: resolve_source_def keyed_config keyed_env keyed_file)

text \<open>The last layer that decides a path.\<close>

definition deciding :: "json list \<Rightarrow> string list \<Rightarrow> json option" where
  "deciding layers p = find (\<lambda>l. decides l p) (rev layers)"

lemma merge_all_leaf:
  "\<forall>l \<in> set layers. key_sorted l \<Longrightarrow> leaf (fold (\<lambda>l t. merge_json t l) layers t) p =
     (case deciding layers p of Some l \<Rightarrow> leaf l p | None \<Rightarrow> leaf t p)"
  by (induction layers rule: rev_induct) (auto simp: deciding_def leaf_merge)

lemma load_sources_layers:
  "map (resolve_source E) srcs = map Inr layers \<Longrightarrow>
     \<exists>ws'. load_sources E srcs t ws = Inr (fold (\<lambda>l t. merge_json t l) layers t, ws')"
  by (induction srcs arbitrary: t ws layers) (auto simp: Let_def Cons_eq_map_conv)

lemma load_sources_Inr:
  "load_sources E srcs t ws = Inr (tree, ws') \<Longrightarrow>
     \<exists>layers. map (resolve_source E) srcs = map Inr layers \<and> tree = fold (\<lambda>l t. merge_json t l) layers t"
proof (induction srcs arbitrary: t ws)
  case (Cons src srcs)
  then obtain l where l: "resolve_source E src = Inr l" by (auto simp: rbind_Inr_conv)
  from Cons(2) obtain ws2 where "load_sources E srcs (merge_json t l) ws2 = Inr (tree, ws')" by (auto simp: l Let_def)
  then obtain layers where "map (resolve_source E) srcs = map Inr layers" "tree = fold (\<lambda>l t. merge_json t l) layers (merge_json t l)"
    using Cons(1) by blast
  then show ?case using l by (intro exI [of _ "l # layers"]) simp
qed simp

lemma load_Inr:
  assumes "snd (load E L) = Inr cfg" "cl_sources L \<noteq> []"
  obtains layers tree where "map (resolve_source E) (cl_sources L) = map Inr layers"
    "tree = fold (\<lambda>l t. merge_json t l) layers (JObject [])" "config_of_json tree = Some cfg" "validate cfg = Inr ()"
proof -
  from assms obtain tree ws where "load_sources E (cl_sources L) (JObject []) (cl_warnings L) = Inr (tree, ws)"
    "config_of_json tree = Some cfg" "validate cfg = Inr ()"
    by (auto simp: load_def Let_def rbind_Inr_conv ok_or_Inr_conv map_err_Inr_conv split: sum.splits prod.splits)
  then show thesis using load_sources_Inr that by blast
qed

lemma load_layers:
  assumes "map (resolve_source E) (cl_sources L) = map Inr layers" "cl_sources L \<noteq> []"
    "config_of_json (fold (\<lambda>l t. merge_json t l) layers (JObject [])) = Some cfg" "validate cfg = Inr ()"
  shows "snd (load E L) = Inr cfg"
  using assms load_sources_layers [OF assms(1), of "JObject []" "cl_warnings L"]
  by (auto simp: load_def Let_def ok_or_def map_err_def)

section \<open>Reading a merged tree\<close>

lemma section_value:
  assumes "config_of_json tree = Some cfg" "tree = JObject m"
  shows "field_or m ''server'' server_of_json ServerSection_default = Some (cf_server cfg)"
    "field_or m ''storage'' storage_of_json StorageBackendConfig_default = Some (cf_storage cfg)"
    "field_or m ''auth'' auth_of_json AuthConfig_default = Some (cf_auth cfg)"
    "field_or m ''notifications'' notifications_of_json NotificationsConfig_default = Some (cf_notifications cfg)"
    "field_or m ''security'' security_of_json SecurityConfig_default = Some (cf_security cfg)"
    "field_or m ''extras'' extras_of_json ExtrasConfig_default = Some (cf_extras cfg)"
  using assms by (auto simp: config_of_json_def section_members_def bind_eq_Some_conv)

text \<open>The value at a path, as far as a decoder reads it.\<close>

definition at :: "(json \<Rightarrow> 'a option) \<Rightarrow> json \<Rightarrow> string list \<Rightarrow> 'a option" where
  "at dec t p = Option.bind (leaf t p) dec"

definition no_array :: "json \<Rightarrow> string \<Rightarrow> bool" where
  "no_array t k \<longleftrightarrow> (\<forall>a. json_get t k \<noteq> Some (JArray a))"

text \<open>A field of a section that is absent or an object.\<close>

lemma section_field:
  assumes "field_or m s rd dflt = Some x" "no_array (JObject m) s" "sel dflt = d"
    and field: "\<And>sm y. rd (JObject sm) = Some y \<Longrightarrow> field_or sm k dec d = Some (sel y)"
    and shape: "\<And>j y. rd j = Some y \<Longrightarrow> (\<exists>sm. j = JObject sm) \<or> (\<exists>a. j = JArray a)"
    and leaf: "\<And>sm. dec (JObject sm) = None"
  shows "sel x = unwrap_or (at dec (JObject m) [s, k]) d"
proof (cases "map_of m s")
  case None
  then have "x = dflt" using assms(1) by (simp add: field_or_def)
  then show ?thesis using assms(3) None by (simp add: at_def leaf_Cons json_get_def unwrap_or_def)
next
  case (Some j)
  then have x: "rd j = Some x" using assms(1) by (simp add: field_or_def)
  with shape [OF x] assms(2) Some obtain sm where sm: "j = JObject sm" by (auto simp: no_array_def json_get_def)
  show ?thesis
  proof (cases "map_of sm k")
    case (Some v)
    then have "dec v = Some (sel x)" using field [OF x [unfolded sm]] by (simp add: field_or_def)
    moreover from this leaf have "leaf v [] = Some v" by (cases v) (auto simp: leaf_def)
    ultimately show ?thesis using \<open>map_of m s = Some j\<close> Some
      by (simp add: at_def leaf_Cons json_get_def sm unwrap_or_def)
  qed (use field [OF x [unfolded sm]] \<open>map_of m s = Some j\<close> in
      \<open>simp add: at_def leaf_Cons json_get_def sm unwrap_or_def field_or_def\<close>)
qed

lemma reads_sections:
  "server_of_json j = Some s \<Longrightarrow> (\<exists>sm. j = JObject sm) \<or> (\<exists>a. j = JArray a)"
  "auth_of_json j = Some u \<Longrightarrow> (\<exists>sm. j = JObject sm) \<or> (\<exists>a. j = JArray a)"
  "security_of_json j = Some e \<Longrightarrow> (\<exists>sm. j = JObject sm) \<or> (\<exists>a. j = JArray a)"
  by (cases j; simp add: server_of_json_def auth_of_json_def security_of_json_def section_members_def)+

lemma reads_fields:
  "server_of_json (JObject sm) = Some s \<Longrightarrow> field_or sm ''host'' de_string default_host = Some (sv_host s)"
  "server_of_json (JObject sm) = Some s \<Longrightarrow> field_or sm ''port'' de_uint default_port = Some (sv_port s)"
  "auth_of_json (JObject sm) = Some u \<Longrightarrow> field_or sm ''nip98_enabled'' de_bool True = Some (au_nip98_enabled u)"
  "auth_of_json (JObject sm) = Some u \<Longrightarrow> field_or sm ''oidc_enabled'' de_bool False = Some (au_oidc_enabled u)"
  "security_of_json (JObject sm) = Some e \<Longrightarrow> field_or sm ''ssrf_allow_private'' de_bool False = Some (se_ssrf_allow_private e)"
  "security_of_json (JObject sm) = Some e \<Longrightarrow> field_or sm ''acl_origin_enabled'' de_bool True = Some (se_acl_origin_enabled e)"
  by (auto simp: server_of_json_def auth_of_json_def security_of_json_def section_members_def bind_eq_Some_conv)

lemma de_object: "de_string (JObject m) = None" "de_bool (JObject m) = None" "de_uint (JObject m) = None"
  by (simp_all add: de_string_def de_bool_def de_uint_def)

lemma tree_fields:
  assumes "config_of_json (JObject m) = Some cfg"
  shows "no_array (JObject m) ''server'' \<Longrightarrow>
      sv_host (cf_server cfg) = unwrap_or (at de_string (JObject m) [''server'', ''host'']) default_host"
    "no_array (JObject m) ''server'' \<Longrightarrow>
      sv_port (cf_server cfg) = unwrap_or (at de_uint (JObject m) [''server'', ''port'']) default_port"
    "no_array (JObject m) ''auth'' \<Longrightarrow>
      au_nip98_enabled (cf_auth cfg) = unwrap_or (at de_bool (JObject m) [''auth'', ''nip98_enabled'']) True"
    "no_array (JObject m) ''auth'' \<Longrightarrow>
      au_oidc_enabled (cf_auth cfg) = unwrap_or (at de_bool (JObject m) [''auth'', ''oidc_enabled'']) False"
    "no_array (JObject m) ''security'' \<Longrightarrow>
      se_ssrf_allow_private (cf_security cfg) = unwrap_or (at de_bool (JObject m) [''security'', ''ssrf_allow_private'']) False"
    "no_array (JObject m) ''security'' \<Longrightarrow>
      se_acl_origin_enabled (cf_security cfg) = unwrap_or (at de_bool (JObject m) [''security'', ''acl_origin_enabled'']) True"
  by (rule section_field [OF section_value(1) [OF assms refl] _ _ reads_fields(1) reads_sections(1) de_object(1)]
      section_field [OF section_value(1) [OF assms refl] _ _ reads_fields(2) reads_sections(1) de_object(3)]
      section_field [OF section_value(3) [OF assms refl] _ _ reads_fields(3) reads_sections(2) de_object(2)]
      section_field [OF section_value(3) [OF assms refl] _ _ reads_fields(4) reads_sections(2) de_object(2)]
      section_field [OF section_value(5) [OF assms refl] _ _ reads_fields(5) reads_sections(3) de_object(2)]
      section_field [OF section_value(5) [OF assms refl] _ _ reads_fields(6) reads_sections(3) de_object(2)];
      simp add: ServerSection_default_def AuthConfig_default_def SecurityConfig_default_def)+

section \<open>Three layers\<close>

text \<open>Defaults, a file and the environment: the value is the one the environment gives, else the one of
  the file, else the default.\<close>

lemma three_layers:
  assumes "key_sorted d" "key_sorted f" "key_sorted e" "decides e p \<Longrightarrow> at dec e p \<noteq> None" "at dec d p = Some x"
  shows "unwrap_or (at dec (merge_json (merge_json (merge_json (JObject []) d) f) e) p) x
    = unwrap_or (or_else (at dec e p) (at dec f p)) x"
  using assms undecided_leaf [of e p] undecided_leaf [of f p] undecided_leaf [of d p]
  by (auto simp: at_def leaf_merge unwrap_or_def or_else_def split: option.splits)

lemma section_at:
  assumes "map_of t s = section_opt m" "map_of m k = map_option enc x" "\<And>y. dec (enc y) = Some y" "\<And>m. dec (JObject m) = None"
  shows "at dec (JObject t) [s, k] = x" "decides (JObject t) [s, k] \<Longrightarrow> x \<noteq> None"
proof -
  have leaf: "leaf (enc y) [] = Some (enc y)" for y
    using assms(3) [of y] assms(4) by (cases "enc y") (auto simp: leaf_def)
  show "at dec (JObject t) [s, k] = x"
    using assms(1-3) by (cases x) (auto simp: at_def leaf_Cons json_get_def section_opt_def leaf split: if_splits)
  show "decides (JObject t) [s, k] \<Longrightarrow> x \<noteq> None"
    using assms(1,2) by (auto simp: section_opt_def split: if_splits option.splits)
qed

definition env_members :: "config_env \<Rightarrow> members" where
  "env_members E = put_opts [
     (''server'', section_opt (env_server E)), (''storage'', section_opt (env_storage E)), (''auth'', section_opt (env_auth E)),
     (''notifications'', section_opt (env_notifications E)), (''security'', section_opt (env_security E)),
     (''extras'', section_opt (env_extras E))]"

lemma env_members: "env_from E = JObject (env_members E)"
  by (simp add: env_from_def env_members_def)

lemma map_of_env_members:
  "map_of (env_members E) ''server'' = section_opt (env_server E)" "map_of (env_members E) ''auth'' = section_opt (env_auth E)"
  "map_of (env_members E) ''security'' = section_opt (env_security E)"
  by (simp_all add: env_members_def split: option.splits)

definition env_port :: "config_env \<Rightarrow> u16 option" where
  "env_port E = map_option of_nat (Option.bind (ce_var E ''JSS_PORT'') (parse_uint 16))"

definition env_oidc :: "config_env \<Rightarrow> bool option" where
  "env_oidc E = Option.bind (or_else (ce_var E ''JSS_OIDC_ENABLED'') (ce_var E ''JSS_IDP'')) parse_bool"

lemma map_of_env_sections:
  "map_of (env_server E) ''host'' = map_option JString (ce_var E ''JSS_HOST'')"
  "map_of (env_server E) ''port'' = map_option jnum (env_port E)"
  "map_of (env_auth E) ''nip98_enabled'' = map_option JBool (var_bool E ''JSS_NIP98_ENABLED'')"
  "map_of (env_auth E) ''oidc_enabled'' = map_option JBool (env_oidc E)"
  "map_of (env_security E) ''ssrf_allow_private'' = map_option JBool (var_bool E ''JSS_SSRF_ALLOW_PRIVATE'')"
  "map_of (env_security E) ''acl_origin_enabled'' = map_option JBool (var_bool E ''JSS_ACL_ORIGIN_ENABLED'')"
  by (simp_all add: env_server_def env_auth_def env_security_def env_port_def env_oidc_def option.map_comp comp_def split: option.splits)

lemmas env_at =
  section_at [OF map_of_env_members(1) map_of_env_sections(1) de_simps(1) de_object(1)]
  section_at [OF map_of_env_members(1) map_of_env_sections(2) de_simps(3) de_object(3)]
  section_at [OF map_of_env_members(2) map_of_env_sections(3) de_simps(2) de_object(2)]
  section_at [OF map_of_env_members(2) map_of_env_sections(4) de_simps(2) de_object(2)]
  section_at [OF map_of_env_members(3) map_of_env_sections(5) de_simps(2) de_object(2)]
  section_at [OF map_of_env_members(3) map_of_env_sections(6) de_simps(2) de_object(2)]

lemma default_at:
  "at de_string (json_of_config ServerConfig_default) [''server'', ''host''] = Some default_host"
  "at de_uint (json_of_config ServerConfig_default) [''server'', ''port''] = Some default_port"
  "at de_bool (json_of_config ServerConfig_default) [''auth'', ''nip98_enabled''] = Some True"
  "at de_bool (json_of_config ServerConfig_default) [''auth'', ''oidc_enabled''] = Some False"
  "at de_bool (json_of_config ServerConfig_default) [''security'', ''ssrf_allow_private''] = Some False"
  "at de_bool (json_of_config ServerConfig_default) [''security'', ''acl_origin_enabled''] = Some True"
  using parse_uint_show [OF unsigned_less [of default_port]]
  by (simp_all add: at_def leaf_Cons json_get_def json_of_config_def ServerConfig_default_def json_of_server_def json_of_auth_def
      json_of_security_def ServerSection_default_def AuthConfig_default_def SecurityConfig_default_def leaf_def de_simps jnum_def
      de_uint_def)

section \<open>What the server starts with\<close>

text \<open>The layer of the configuration file, empty when there is none.\<close>

definition file_layer :: "config_env \<Rightarrow> Cli \<Rightarrow> json option" where
  "file_layer E cli = (case co_config cli of None \<Rightarrow> Some (JObject []) | Some path \<Rightarrow> ok_of (load_file E path))"

lemma file_object: "load_file E path = Inr f \<Longrightarrow> \<exists>m. f = JObject m"
  by (auto simp: load_file_def normalise_file_shape_def Let_def rbind_Inr_conv split: json.splits if_splits)

lemma json_get_merge: "key_sorted (JObject o1) \<Longrightarrow> no_array (JObject b) s \<Longrightarrow> no_array (JObject o1) s \<Longrightarrow> no_array (merge_json (JObject b) (JObject o1)) s"
  using keyed_distinct [of o1]
  by (auto simp: no_array_def json_get_def map_of_merge_members merge_json.simps split: option.splits json.splits)

lemma boot_sources:
  "cl_sources (boot_loader cli) = Defaults # (case co_config cli of None \<Rightarrow> [] | Some path \<Rightarrow> [File path]) @ [EnvVars]"
  by (simp add: boot_loader_def loader_with_defaults_def with_env_def with_file_def push_source_def ConfigLoader_new_def split: option.split)

lemma tree_boots:
  assumes "file_layer E cli = Some (JObject f)" "validate cfg = Inr ()"
    "config_of_json (merge_json (merge_json (merge_json (JObject []) (json_of_config ServerConfig_default)) (JObject f)) (env_from E)) = Some cfg"
  shows "snd (load E (boot_loader cli)) = Inr cfg"
proof (cases "co_config cli")
  case None
  then show ?thesis using assms
    by (intro load_layers [of E _ "[json_of_config ServerConfig_default, env_from E]"])
      (auto simp: boot_sources file_layer_def resolve_source_def json_of_config_def)
next
  case (Some path)
  then have "load_file E path = Inr (JObject f)" using assms(1) by (auto simp: file_layer_def ok_of_def split: sum.splits)
  then show ?thesis using assms(2,3) Some
    by (intro load_layers [of E _ "[json_of_config ServerConfig_default, JObject f, env_from E]"])
      (auto simp: boot_sources resolve_source_def)
qed

lemma boot_tree:
  assumes "snd (load E (boot_loader cli)) = Inr cfg" "keyed_parsers E"
  obtains f where "file_layer E cli = Some (JObject f)" "key_sorted (JObject f)" "validate cfg = Inr ()"
    "config_of_json (merge_json (merge_json (merge_json (JObject []) (json_of_config ServerConfig_default)) (JObject f)) (env_from E)) = Some cfg"
proof -
  note srcs = boot_sources [of cli]
  then obtain layers where layers: "map (resolve_source E) (cl_sources (boot_loader cli)) = map Inr layers"
    "config_of_json (fold (\<lambda>l t. merge_json t l) layers (JObject [])) = Some cfg" "validate cfg = Inr ()"
    using load_Inr [OF assms(1)] by (metis list.distinct(1))
  show thesis
  proof (cases "co_config cli")
    case None
    then show ?thesis using that [of "[]"] layers srcs
      by (auto simp: file_layer_def resolve_source_def Cons_eq_map_conv key_sorted.simps json_of_config_def)
  next
    case (Some path)
    then obtain f where "load_file E path = Inr f" "layers = [json_of_config ServerConfig_default, f, env_from E]"
      using layers srcs by (auto simp: resolve_source_def Cons_eq_map_conv)
    moreover from this obtain m where "f = JObject m" using file_object by blast
    ultimately show ?thesis using that [of m] layers(2,3) keyed_file [OF assms(2), of path f] Some
      by (simp add: file_layer_def ok_of_def)
  qed
qed

lemma no_array_layers:
  "no_array (json_of_config c) ''server''" "no_array (json_of_config c) ''auth''" "no_array (json_of_config c) ''security''"
  "no_array (env_from E) ''server''" "no_array (env_from E) ''auth''" "no_array (env_from E) ''security''"
  by (auto simp: no_array_def json_of_config_def json_get_def json_of_server_def json_of_auth_def json_of_security_def
      env_members map_of_env_members section_opt_def split: if_splits)

lemma object_layers: "\<exists>m. json_of_config c = JObject m" "\<exists>m. env_from E = JObject m"
  by (simp_all add: json_of_config_def env_from_def)

text \<open>A setting, given how it is read from the tree and from the layers.\<close>

lemma loaded_setting:
  assumes cfg: "config_of_json (merge_json (merge_json (merge_json (JObject []) (json_of_config ServerConfig_default)) (JObject f)) (env_from E)) = Some cfg"
    and f: "key_sorted (JObject f)" "no_array (JObject f) s" "no_array (json_of_config ServerConfig_default) s" "no_array (env_from E) s"
    and field: "\<And>m. config_of_json (JObject m) = Some cfg \<Longrightarrow> no_array (JObject m) s \<Longrightarrow> y = unwrap_or (at dec (JObject m) [s, k]) d"
    and env: "at dec (JObject (env_members E)) [s, k] = x" "decides (JObject (env_members E)) [s, k] \<Longrightarrow> x \<noteq> None"
    and dflt: "at dec (json_of_config ServerConfig_default) [s, k] = Some d"
  shows "y = unwrap_or (or_else x (at dec (JObject f) [s, k])) d"
proof -
  obtain c where c: "json_of_config ServerConfig_default = JObject c" using object_layers(1) by blast
  note keys = keyed_config [of ServerConfig_default] keyed_env [of E] f(1)
  have "no_array (merge_json (merge_json (merge_json (JObject []) (JObject c)) (JObject f)) (JObject (env_members E))) s"
    using keys f(2-4) by (simp add: c env_members) (intro json_get_merge [simplified]; simp add: no_array_def json_get_def)
  then have "y = unwrap_or (at dec (merge_json (merge_json (merge_json (JObject []) (JObject c)) (JObject f)) (JObject (env_members E))) [s, k]) d"
    using field cfg by (simp add: c env_members)
  also have "\<dots> = unwrap_or (or_else (at dec (JObject (env_members E)) [s, k]) (at dec (JObject f) [s, k])) d"
    using keys dflt env by (intro three_layers) (simp_all add: c env_members del: merge_json_simps)
  finally show ?thesis by (simp add: env)
qed

lemma boot_Inr:
  assumes "boot E cli = Inr st"
  obtains cfg where "snd (load E (boot_loader cli)) = Inr cfg" "su_config st = with_flags cli cfg"
    "su_bind_addr st = sv_host (cf_server (su_config st)) @ '':'' @ show_nat (unat (sv_port (cf_server (su_config st))))"
    "validate (su_config st) = Inr ()" "su_storage st = cf_storage (su_config st)" "\<forall>b r p. su_storage st \<noteq> S3 b r p"
proof -
  from assms obtain cfg storage where "snd (load E (boot_loader cli)) = Inr cfg" "validate (with_flags cli cfg) = Inr ()"
    "build_storage (cf_storage (with_flags cli cfg)) = Inr storage" "su_config st = with_flags cli cfg" "su_storage st = storage"
    "su_bind_addr st = sv_host (cf_server (su_config st)) @ '':'' @ show_nat (unat (sv_port (cf_server (su_config st))))"
    by (auto simp: boot_def Let_def rbind_Inr_conv map_err_Inr_conv)
  then show thesis using that by (auto simp: build_storage_def split: StorageBackendConfig.splits)
qed

lemma unwrap_or_else: "unwrap_or x (unwrap_or y d) = unwrap_or (or_else x y) d"
  by (simp add: unwrap_or_def or_else_def split: option.splits)


section \<open>A variable without effect\<close>

lemma security_of_json_cong:
  assumes "\<And>k. k \<noteq> ''default_quota_bytes'' \<Longrightarrow> map_of m k = map_of m' k"
  shows "security_of_json (JObject m) = security_of_json (JObject m')"
  by (simp add: security_of_json_def section_members_def field_or_def assms)

lemma field_or_cong: "map_of m k = map_of m' k \<Longrightarrow> field_or m k dec d = field_or m' k dec d"
  by (simp add: field_or_def)

lemma config_of_json_cong:
  assumes "\<And>k. k \<noteq> ''security'' \<Longrightarrow> map_of m k = map_of m' k"
    "field_or m ''security'' security_of_json SecurityConfig_default = field_or m' ''security'' security_of_json SecurityConfig_default"
  shows "config_of_json (JObject m) = config_of_json (JObject m')"
  by (simp add: config_of_json_def section_members_def assms field_or_cong [of m _ m'])

definition quota_vars :: "config_env \<Rightarrow> string option \<Rightarrow> string option \<Rightarrow> config_env" where
  "quota_vars E a b = E\<lparr>ce_var := (ce_var E)(''JSS_DEFAULT_QUOTA'' := a, ''JSS_QUOTA_DEFAULT_BYTES'' := b)\<rparr>"

lemma quota_vars_sel:
  "ce_debug (quota_vars E a b) = ce_debug E" "ce_f64 (quota_vars E a b) = ce_f64 E" "ce_read (quota_vars E a b) = ce_read E"
  "ce_loader_feature (quota_vars E a b) = ce_loader_feature E" "ce_json (quota_vars E a b) = ce_json E"
  "ce_yaml (quota_vars E a b) = ce_yaml E" "ce_toml (quota_vars E a b) = ce_toml E"
  by (simp_all add: quota_vars_def)

lemma quota_vars_var:
  "ce_var (quota_vars E a b) ''JSS_HOST'' = ce_var E ''JSS_HOST''"
  "ce_var (quota_vars E a b) ''JSS_PORT'' = ce_var E ''JSS_PORT''"
  "ce_var (quota_vars E a b) ''JSS_BASE_URL'' = ce_var E ''JSS_BASE_URL''"
  "ce_var (quota_vars E a b) ''JSS_STORAGE_TYPE'' = ce_var E ''JSS_STORAGE_TYPE''"
  "ce_var (quota_vars E a b) ''JSS_STORAGE_ROOT'' = ce_var E ''JSS_STORAGE_ROOT''"
  "ce_var (quota_vars E a b) ''JSS_ROOT'' = ce_var E ''JSS_ROOT''"
  "ce_var (quota_vars E a b) ''JSS_S3_BUCKET'' = ce_var E ''JSS_S3_BUCKET''"
  "ce_var (quota_vars E a b) ''JSS_S3_REGION'' = ce_var E ''JSS_S3_REGION''"
  "ce_var (quota_vars E a b) ''JSS_S3_PREFIX'' = ce_var E ''JSS_S3_PREFIX''"
  "ce_var (quota_vars E a b) ''JSS_OIDC_ENABLED'' = ce_var E ''JSS_OIDC_ENABLED''"
  "ce_var (quota_vars E a b) ''JSS_IDP'' = ce_var E ''JSS_IDP''"
  "ce_var (quota_vars E a b) ''JSS_OIDC_ISSUER'' = ce_var E ''JSS_OIDC_ISSUER''"
  "ce_var (quota_vars E a b) ''JSS_IDP_ISSUER'' = ce_var E ''JSS_IDP_ISSUER''"
  "ce_var (quota_vars E a b) ''JSS_NIP98_ENABLED'' = ce_var E ''JSS_NIP98_ENABLED''"
  "ce_var (quota_vars E a b) ''JSS_DPOP_REPLAY_TTL_SECONDS'' = ce_var E ''JSS_DPOP_REPLAY_TTL_SECONDS''"
  "ce_var (quota_vars E a b) ''JSS_NOTIFICATIONS'' = ce_var E ''JSS_NOTIFICATIONS''"
  "ce_var (quota_vars E a b) ''JSS_NOTIFICATIONS_WS2023'' = ce_var E ''JSS_NOTIFICATIONS_WS2023''"
  "ce_var (quota_vars E a b) ''JSS_NOTIFICATIONS_WEBHOOK'' = ce_var E ''JSS_NOTIFICATIONS_WEBHOOK''"
  "ce_var (quota_vars E a b) ''JSS_NOTIFICATIONS_LEGACY'' = ce_var E ''JSS_NOTIFICATIONS_LEGACY''"
  "ce_var (quota_vars E a b) ''JSS_SSRF_ALLOW_PRIVATE'' = ce_var E ''JSS_SSRF_ALLOW_PRIVATE''"
  "ce_var (quota_vars E a b) ''JSS_SSRF_ALLOWLIST'' = ce_var E ''JSS_SSRF_ALLOWLIST''"
  "ce_var (quota_vars E a b) ''JSS_SSRF_DENYLIST'' = ce_var E ''JSS_SSRF_DENYLIST''"
  "ce_var (quota_vars E a b) ''JSS_DOTFILE_ALLOWLIST'' = ce_var E ''JSS_DOTFILE_ALLOWLIST''"
  "ce_var (quota_vars E a b) ''JSS_ACL_ORIGIN_ENABLED'' = ce_var E ''JSS_ACL_ORIGIN_ENABLED''"
  "ce_var (quota_vars E a b) ''JSS_CONNEG'' = ce_var E ''JSS_CONNEG''"
  "ce_var (quota_vars E a b) ''JSS_CORS_ALLOWED_ORIGINS'' = ce_var E ''JSS_CORS_ALLOWED_ORIGINS''"
  "ce_var (quota_vars E a b) ''JSS_MAX_BODY_SIZE'' = ce_var E ''JSS_MAX_BODY_SIZE''"
  "ce_var (quota_vars E a b) ''JSS_MAX_REQUEST_BODY'' = ce_var E ''JSS_MAX_REQUEST_BODY''"
  "ce_var (quota_vars E a b) ''JSS_MAX_ACL_BYTES'' = ce_var E ''JSS_MAX_ACL_BYTES''"
  "ce_var (quota_vars E a b) ''JSS_RATE_LIMIT_WRITES_PER_MIN'' = ce_var E ''JSS_RATE_LIMIT_WRITES_PER_MIN''"
  "ce_var (quota_vars E a b) ''JSS_SUBDOMAINS'' = ce_var E ''JSS_SUBDOMAINS''"
  "ce_var (quota_vars E a b) ''JSS_BASE_DOMAIN'' = ce_var E ''JSS_BASE_DOMAIN''"
  "ce_var (quota_vars E a b) ''JSS_IDP_ENABLED'' = ce_var E ''JSS_IDP_ENABLED''"
  "ce_var (quota_vars E a b) ''JSS_INVITE_ONLY'' = ce_var E ''JSS_INVITE_ONLY''"
  "ce_var (quota_vars E a b) ''JSS_ADMIN_KEY'' = ce_var E ''JSS_ADMIN_KEY''"
  by (simp_all add: quota_vars_def)

lemma quota_vars_parse: "parse_size (quota_vars E a b) = parse_size E"
  by (rule ext) (simp only: parse_size_def quota_vars_sel)

lemma quota_vars_sections:
  "env_server (quota_vars E a b) = env_server E" "env_storage (quota_vars E a b) = env_storage E"
  "env_auth (quota_vars E a b) = env_auth E" "env_notifications (quota_vars E a b) = env_notifications E"
  "env_extras (quota_vars E a b) = env_extras E"
  by (simp_all only: env_server_def env_storage_def env_auth_def env_notifications_def env_extras_def var_bool_def
      quota_vars_var quota_vars_parse)

lemma quota_vars_security:
  "k \<noteq> ''default_quota_bytes'' \<Longrightarrow> map_of (env_security (quota_vars E a b)) k = map_of (env_security E) k"
  by (simp add: env_security_def var_bool_def quota_vars_var split: option.splits)

lemma quota_vars_file: "load_file (quota_vars E a b) = load_file E"
  by (rule ext) (simp only: load_file_def quota_vars_sel)

lemma quota_vars_members:
  "k \<noteq> ''security'' \<Longrightarrow> map_of (env_members (quota_vars E a b)) k = map_of (env_members E) k"
  by (simp add: env_members_def quota_vars_sections split: option.splits)

text \<open>The security section of a tree that has one as an object, after the environment.\<close>

lemma security_after_env:
  assumes "map_of t ''security'' = Some (JObject s)"
  obtains u where "map_of (merge_members t (env_members E)) ''security'' = Some (JObject u)"
    "\<forall>k. map_of u k = (case map_of (env_security E) k of None \<Rightarrow> map_of s k
        | Some v \<Rightarrow> Some (case map_of s k of None \<Rightarrow> v | Some e \<Rightarrow> merge_json e v))"
proof -
  have dist: "distinct (map fst (env_members E))" using keyed_env [of E] keyed_distinct by (simp add: env_members)
  have sec: "env_security E \<noteq> [] \<Longrightarrow> distinct (map fst (env_security E))"
    using keyed_member [of "env_members E" "''security''" "JObject (env_security E)"] keyed_env [of E]
    by (simp add: env_members map_of_env_members section_opt_def keyed_distinct)
  show thesis
  proof (cases "env_security E = []")
    case True
    then show ?thesis using that [of s] assms
      by (simp add: map_of_merge_members [OF dist] map_of_env_members section_opt_def)
  next
    case False
    then show ?thesis using that [of "merge_members s (env_security E)"] assms
      by (simp add: map_of_merge_members [OF dist] map_of_merge_members [OF sec] map_of_env_members section_opt_def)
  qed
qed

lemma quota_vars_config:
  assumes "map_of t ''security'' = Some (JObject s)"
  shows "config_of_json (merge_json (JObject t) (env_from (quota_vars E a b))) = config_of_json (merge_json (JObject t) (env_from E))"
proof -
  obtain u where u: "map_of (merge_members t (env_members E)) ''security'' = Some (JObject u)"
    "\<forall>k. map_of u k = (case map_of (env_security E) k of None \<Rightarrow> map_of s k
        | Some v \<Rightarrow> Some (case map_of s k of None \<Rightarrow> v | Some e \<Rightarrow> merge_json e v))"
    using security_after_env [OF assms, of E] by blast
  obtain u' where u': "map_of (merge_members t (env_members (quota_vars E a b))) ''security'' = Some (JObject u')"
    "\<forall>k. map_of u' k = (case map_of (env_security (quota_vars E a b)) k of None \<Rightarrow> map_of s k
        | Some v \<Rightarrow> Some (case map_of s k of None \<Rightarrow> v | Some e \<Rightarrow> merge_json e v))"
    using security_after_env [OF assms, of "quota_vars E a b"] by blast
  have "security_of_json (JObject u') = security_of_json (JObject u)"
    by (intro security_of_json_cong) (simp add: u(2) u'(2) quota_vars_security)
  moreover have dist: "distinct (map fst (env_members F))" for F using keyed_env [of F] keyed_distinct by (simp add: env_members)
  ultimately have "field_or (merge_members t (env_members (quota_vars E a b))) ''security'' security_of_json SecurityConfig_default
      = field_or (merge_members t (env_members E)) ''security'' security_of_json SecurityConfig_default"
    by (simp add: field_or_def u(1) u'(1))
  then show ?thesis unfolding env_members merge_json_simps
    by (rule config_of_json_cong [rotated]) (simp add: map_of_merge_members [OF dist] quota_vars_members)
qed

text \<open>The security section of the tree before the environment is an object, unless the file says otherwise.\<close>

lemma security_below_env:
  assumes "key_sorted (JObject f)" "\<forall>v. map_of f ''security'' = Some v \<longrightarrow> (\<exists>m. v = JObject m)"
  obtains t s where "merge_json (merge_json (JObject []) (json_of_config c)) (JObject f) = JObject t"
    "map_of t ''security'' = Some (JObject s)"
proof -
  obtain d where d: "json_of_config c = JObject d" using object_layers(1) by blast
  have dist: "distinct (map fst d)" "distinct (map fst f)" using keyed_distinct keyed_config [of c] assms(1) by (auto simp: d)
  have "map_of d ''security'' = Some (json_of_security (cf_security c))"
    using d by (auto simp: json_of_config_def)
  then obtain e where base: "map_of (merge_members [] d) ''security'' = Some (JObject e)"
    by (simp add: map_of_merge_members [OF dist(1)] json_of_security_def)
  obtain s where "map_of (merge_members (merge_members [] d) f) ''security'' = Some (JObject s)"
  proof (cases "map_of f ''security''")
    case None
    then show ?thesis using that base by (simp add: map_of_merge_members [OF dist(2)])
  next
    case (Some v)
    then obtain m where "v = JObject m" using assms(2) by blast
    then show ?thesis using that [of "merge_members e m"] base Some by (simp add: map_of_merge_members [OF dist(2)])
  qed
  then show thesis using that by (simp add: d)
qed

text \<open>the default quota an operator sets by \<open>JSS_DEFAULT_QUOTA\<close> or \<open>JSS_QUOTA_DEFAULT_BYTES\<close> never reaches the
  server. Its layer has the quota, at \<open>security.default_quota_bytes\<close>, but the snapshot has no such field,
  so a server that starts, starts with the same state whatever these variables hold, unless its file
  gives the security section as something other than an object.\<close>

theorem quota_variable_lost:
  assumes "boot E cli = Inr st" "keyed_parsers E" "file_layer E cli = Some (JObject f)"
    "\<forall>v. map_of f ''security'' = Some v \<longrightarrow> (\<exists>m. v = JObject m)"
  shows "boot (quota_vars E a b) cli = Inr st"
proof -
  obtain cfg where cfg: "snd (load E (boot_loader cli)) = Inr cfg" by (rule boot_Inr [OF assms(1)])
  have g: "key_sorted (JObject f)" "validate cfg = Inr ()"
    "config_of_json (merge_json (merge_json (merge_json (JObject []) (json_of_config ServerConfig_default)) (JObject f)) (env_from E)) = Some cfg"
    by (rule boot_tree [OF cfg assms(2)]; use assms(3) in simp)+
  obtain t s where t: "merge_json (merge_json (JObject []) (json_of_config ServerConfig_default)) (JObject f) = JObject t"
    "map_of t ''security'' = Some (JObject s)"
    using security_below_env g(1) assms(4) by blast
  have "file_layer (quota_vars E a b) cli = Some (JObject f)"
    using assms(3) by (simp add: file_layer_def quota_vars_file split: option.splits)
  then have "snd (load (quota_vars E a b) (boot_loader cli)) = Inr cfg"
    using g(2) g(3) [unfolded t(1)] quota_vars_config [OF t(2)] by (intro tree_boots [of _ _ f]) (simp_all only: t(1))
  then show ?thesis using assms(1) cfg by (simp add: boot_def)
qed

section \<open>Two corners\<close>

text \<open>An empty loader gives the defaults. An unknown storage type is dropped without a word, and so the
  server starts on the default backend; the environment ignores a root beside the memory backend, the
  command-line overlay does the opposite and lets the root win.\<close>

lemma merge_into_empty: "key_sorted (JObject m) \<Longrightarrow> map_of (merge_members [] m) = map_of m"
  using keyed_distinct by (simp add: fun_eq_iff map_of_merge_members split: option.split)

lemma load_empty: "snd (load E ConfigLoader_new) = Inr ServerConfig_default"
proof -
  obtain m where m: "json_of_config ServerConfig_default = JObject m" using object_layers(1) by blast
  then have "map_of (merge_members [] m) = map_of m" using merge_into_empty keyed_config [of ServerConfig_default] by simp
  then have "config_of_json (JObject (merge_members [] m)) = config_of_json (JObject m)"
    by (intro config_of_json_cong) (simp_all add: field_or_def)
  then have "config_of_json (merge_json (JObject []) (json_of_config ServerConfig_default)) = Some ServerConfig_default"
    using config_of_json_of [of ServerConfig_default] by (simp add: m)
  moreover have "validate ServerConfig_default = Inr ()"
    by (simp add: validate_def ServerConfig_default_def AuthConfig_default_def StorageBackendConfig_default_def)
  ultimately show ?thesis
    by (simp add: load_def ConfigLoader_new_def resolve_source_def Let_def ok_or_def map_err_def)
qed

lemma unknown_storage_type_ignored:
  "ce_var E ''JSS_STORAGE_TYPE'' = Some t \<Longrightarrow> to_ascii_lowercase t \<notin> {''memory'', ''s3'', ''fs''} \<Longrightarrow> env_storage E = []"
  by (auto simp: env_storage_def Let_def)

lemma memory_and_root:
  "ce_var E ''JSS_STORAGE_TYPE'' = Some ''memory'' \<Longrightarrow> env_storage E = [(''type'', JString ''memory'')]"
  "ca_storage_type a = Some ''memory'' \<Longrightarrow> ca_storage_root a = Some r \<Longrightarrow>
     setting (to_overlay a) [''storage'', ''type''] = Some (JString ''fs'')"
proof -
  have "to_ascii_lowercase ''memory'' = ''memory''" by code_simp
  then show "ce_var E ''JSS_STORAGE_TYPE'' = Some ''memory'' \<Longrightarrow> env_storage E = [(''type'', JString ''memory'')]"
    by (simp add: env_storage_def Let_def put_opt_def)
qed (simp add: to_overlay_def Let_def json_get_def section_opt_def put_opt_def split: option.split)

section \<open>A concrete start\<close>

definition sample_vars :: "string \<Rightarrow> string option" where
  "sample_vars = map_of [(''JSS_PORT'', ''8080''), (''JSS_SSRF_ALLOW_PRIVATE'', '' Yes ''), (''JSS_ACL_ORIGIN_ENABLED'', ''maybe'')]"

definition sample_config_env :: config_env where
  "sample_config_env = \<lparr>ce_var = sample_vars, ce_read = (\<lambda>_. Inr ''{}''), ce_loader_feature = False,
     ce_json = (\<lambda>_. Inr (JObject [(''host'', JString ''pod.example''), (''port'', JNumber ''80'')])), ce_yaml = (\<lambda>_. Inl []), ce_toml = (\<lambda>_. Inl []),
     ce_debug = id, ce_f64 = (\<lambda>_. []), ce_shape_error = (\<lambda>_. [])\<rparr>"

definition sample_cli :: Cli where
  "sample_cli = \<lparr>co_config = Some ''config.json'', co_host = None, co_port = None\<rparr>"

lemma sample_keyed: "keyed_parsers sample_config_env"
  by (simp add: keyed_parsers_def sample_config_env_def key_sorted.simps) 

lemma sample_file: "file_layer sample_config_env sample_cli =
    Some (JObject [(''server'', JObject [(''host'', JString ''pod.example''), (''port'', JNumber ''80'')])])"
  by code_simp


lemma sample_numbers:
  "parse_uint 16 ''8080'' = Some 8080" "parse_uint 64 ''300'' = Some 300" "show_nat 8080 = ''8080''" "show_nat 3000 = ''3000''" "show_nat 300 = ''300''"
  by (simp_all add: parse_uint_def ascii_digit_def show_nat.simps) code_simp+

lemma sample_env_from:
  "env_from sample_config_env = JObject [(''security'', JObject [(''ssrf_allow_private'', JBool True)]), (''server'', JObject [(''port'', JNumber ''8080'')])]"
proof -
  have server: "env_server sample_config_env = [(''port'', JNumber ''8080'')]"
    by (simp add: env_server_def sample_config_env_def sample_vars_def sample_numbers put_opt_def jnum_def)
  have rest: "env_storage sample_config_env = []" "env_auth sample_config_env = []" "env_notifications sample_config_env = []"
    "env_security sample_config_env = [(''ssrf_allow_private'', JBool True)]" "env_extras sample_config_env = []" by code_simp+
  show ?thesis unfolding env_from_def server rest by code_simp
qed

definition default_tree :: json where
  "default_tree = JObject
    [(''auth'', JObject [(''dpop_replay_ttl_seconds'', JNumber ''300''), (''nip98_enabled'', JBool True), (''oidc_enabled'', JBool False)]),
     (''extras'', JObject []),
     (''notifications'', JObject [(''legacy_solid_01_enabled'', JBool True), (''webhook2023_enabled'', JBool False), (''ws2023_enabled'', JBool True)]),
     (''security'', JObject [(''acl_origin_enabled'', JBool True), (''dotfile_allowlist'', JArray [JString ''.acl'', JString ''.meta'', JString ''.account'']),
       (''ssrf_allow_private'', JBool False), (''ssrf_allowlist'', JArray []), (''ssrf_denylist'', JArray [])]),
     (''server'', JObject [(''host'', JString ''0.0.0.0''), (''port'', JNumber ''3000'')]),
     (''storage'', JObject [(''root'', JString ''./data''), (''type'', JString ''fs'')])]"

lemma sample_default_tree: "json_of_config ServerConfig_default = default_tree"
proof -
  have nums: "jnum default_port = JNumber ''3000''" "jnum default_dpop_ttl = JNumber ''300''"
    by (simp_all add: jnum_def default_port_def default_dpop_ttl_def sample_numbers)
  have srv: "json_of_server ServerSection_default = JObject [(''host'', JString ''0.0.0.0''), (''port'', JNumber ''3000'')]"
    unfolding json_of_server_def ServerSection_default_def ServerSection.simps nums by code_simp
  have aut: "json_of_auth AuthConfig_default = JObject [(''dpop_replay_ttl_seconds'', JNumber ''300''), (''nip98_enabled'', JBool True), (''oidc_enabled'', JBool False)]"
    unfolding json_of_auth_def AuthConfig_default_def AuthConfig.simps nums by code_simp
  show ?thesis unfolding json_of_config_def ServerConfig_default_def ServerConfig.simps srv aut by code_simp
qed

definition sample_tree :: json where
  "sample_tree = merge_json (merge_json (merge_json (JObject []) default_tree)
     (JObject [(''server'', JObject [(''host'', JString ''pod.example''), (''port'', JNumber ''80'')])])) (env_from sample_config_env)"

lemma sample_sections:
  "section_members names sample_tree = Some m \<Longrightarrow> map_of m ''server'' = Some (JObject [(''host'', JString ''pod.example''), (''port'', JNumber ''8080'')])"
  "section_members names sample_tree = Some m \<Longrightarrow> map_of m ''storage'' = Some (JObject [(''root'', JString ''./data''), (''type'', JString ''fs'')])"
  "section_members names sample_tree = Some m \<Longrightarrow> map_of m ''auth'' = Some (JObject [(''dpop_replay_ttl_seconds'', JNumber ''300''), (''nip98_enabled'', JBool True), (''oidc_enabled'', JBool False)])"
  "section_members names sample_tree = Some m \<Longrightarrow> map_of m ''extras'' = Some (JObject [])"
  "section_members names sample_tree = Some m \<Longrightarrow> map_of m ''notifications'' = Some (JObject [(''legacy_solid_01_enabled'', JBool True), (''webhook2023_enabled'', JBool False), (''ws2023_enabled'', JBool True)])"
  "section_members names sample_tree = Some m \<Longrightarrow> map_of m ''security'' = Some (JObject [(''acl_origin_enabled'', JBool True), (''dotfile_allowlist'', JArray [JString ''.acl'', JString ''.meta'', JString ''.account'']),
       (''ssrf_allow_private'', JBool True), (''ssrf_allowlist'', JArray []), (''ssrf_denylist'', JArray [])])"
  unfolding sample_tree_def sample_env_from
  by (auto simp: default_tree_def section_members_def merge_json.simps)

lemma sample_config: "\<exists>cfg. config_of_json sample_tree = Some cfg \<and> validate cfg = Inr () \<and> cf_storage cfg = Fs ''./data''"
proof -
  obtain m where m: "\<And>names. section_members names sample_tree = Some m"
    by (simp add: sample_tree_def sample_env_from default_tree_def section_members_def)
  obtain srv aut nots sec ext where
    "server_of_json (JObject [(''host'', JString ''pod.example''), (''port'', JNumber ''8080'')]) = Some srv"
    "auth_of_json (JObject [(''dpop_replay_ttl_seconds'', JNumber ''300''), (''nip98_enabled'', JBool True), (''oidc_enabled'', JBool False)]) = Some aut"
    "notifications_of_json (JObject [(''legacy_solid_01_enabled'', JBool True), (''webhook2023_enabled'', JBool False), (''ws2023_enabled'', JBool True)]) = Some nots"
    "security_of_json (JObject [(''acl_origin_enabled'', JBool True), (''dotfile_allowlist'', JArray [JString ''.acl'', JString ''.meta'', JString ''.account'']),
       (''ssrf_allow_private'', JBool True), (''ssrf_allowlist'', JArray []), (''ssrf_denylist'', JArray [])]) = Some sec"
    "extras_of_json (JObject []) = Some ext" "\<not> au_oidc_enabled aut"
    by (simp add: server_of_json_def auth_of_json_def notifications_of_json_def security_of_json_def extras_of_json_def
        section_members_def field_or_def de_bool_def de_string_def de_uint_def sample_numbers de_strings_def)
  moreover have "storage_of_json (JObject [(''root'', JString ''./data''), (''type'', JString ''fs'')]) = Some (Fs ''./data'')"
    by (simp add: storage_of_json_def storage_variant_def obj_remove_def section_members_def field_or_def de_string_def)
  ultimately show ?thesis by (simp add: config_of_json_def m field_or_def sample_sections [OF m] validate_def)
qed

lemma sample_boots: "is_ok (boot sample_config_env sample_cli)"
proof -
  obtain cfg where cfg: "config_of_json sample_tree = Some cfg" "validate cfg = Inr ()" "cf_storage cfg = Fs ''./data''"
    using sample_config by blast
  then have "snd (load sample_config_env (boot_loader sample_cli)) = Inr cfg"
    by (intro tree_boots [OF sample_file]) (simp_all add: sample_default_tree sample_tree_def)
  then show ?thesis using cfg(2,3)
    by (simp add: boot_def is_ok_def map_err_def with_flags_def validate_def sample_cli_def Let_def build_storage_def split: if_splits)
qed


theorem quota_variable_lost_witness:
  "boot (quota_vars sample_config_env (Some ''10MB'') None) sample_cli = boot sample_config_env sample_cli"
proof -
  obtain st where st: "boot sample_config_env sample_cli = Inr st"
    using sample_boots by (cases "boot sample_config_env sample_cli") (auto simp: is_ok_def)
  show ?thesis using quota_variable_lost [OF st sample_keyed sample_file] by (simp add: st)
qed

end
