(* ===== verification/Spec2Isabelle.thy ===== *)
theory Spec2Isabelle
  imports Wac_Roundtrip Server_Safety Cors Ssrf Rate_Limit Oidc Multitenant Quota Fs_Backend Notifications Legacy_Notifications Nostr_Relay Idp_Provider Provision Ap_Delivery Git_Service Config_Loader
begin

text \<open>
  Verification of \<open>solid-pod-rs\<close>, a Solid pod server in Rust: a workspace with a library
  (\<open>crates/solid-pod-rs\<close>), an HTTP server on actix (\<open>crates/solid-pod-rs-server\<close>) and satellite crates
  for identity, federation, Git and Nostr.

  \<^bold>\<open>How the program is put together.\<close> A request enters the server (\<open>build_app\<close>), passes the dotfile and
  traversal guards and the slash merger, and reaches a handler. The handler authenticates the agent by
  NIP-98 (\<open>extract_pubkey\<close>), finds the effective ACL by walking up the path in the storage, lets the WAC
  evaluator decide (\<open>enforce_write\<close>), and reads or changes the storage through the trait \<open>Storage\<close>, which
  has an in-memory and a filesystem backend. The LDP module renders containers, ranges, conditional
  requests and patches. Around these stand policies the embedding application calls: DPoP and access
  tokens with a replay cache, rate limits, CORS, the SSRF guard, quotas and tenancy.

  \<^bold>\<open>Conventions.\<close> A Rust string is its list of UTF-8 bytes. \<open>Result\<close> is a sum with the error on the left,
  and a fallible operation on state returns the state beside the result. Unsigned integers that can
  wrap or saturate are words of their width. A \<open>HashMap\<close> is an association list with distinct keys.
  Third-party code (cryptography, JSON text, JWT decoding, URL parsing, SPARQL parsing, the LRU cache)
  is a parameter: a field of an environment record or the \<open>fixes\<close> of a locale, with what the code relies
  on as the locale's assumptions or a named hypothesis. Random values, clocks and environment variables
  are arguments.

  \<^bold>\<open>Theories.\<close>

  \<^item> \<open>Prelude\<close>: strings, search, trimming, UTF-8, numbers as text, result combinators, shared lemmas.
  \<^item> \<open>Pod_Error\<close>, \<open>Json\<close>: the error type (\<open>error.rs\<close>) and JSON values.
  \<^item> \<open>Storage\<close>: the trait and its contract \<open>pod_storage\<close> (\<open>storage/mod.rs\<close>), and the memory backend that
    provides it (\<open>storage/memory.rs\<close>).
  \<^item> \<open>File_System\<close>: \<open>std::fs\<close> and \<open>std::path\<close> as the contract \<open>file_system\<close>, provided by a directory tree with
    a schedule of faults for its mutating operations. \<open>Fs_Backend\<close> (\<open>storage/fs.rs\<close>) and \<open>Quota\<close> (\<open>quota/mod.rs\<close>) are its clients: the
    backend stays below its root and keeps the storage contract on resource paths, except that a put that
    fails may leave its own resource changed; the quota sidecar is replaced atomically, guarded writes
    stay within the limit unless a read of the sidecar fails in the check alone, and reconciliation finds
    the truth.
  \<^item> \<open>Wac_Document\<close>, \<open>Wac_Origin\<close>, \<open>Wac_Evaluator\<close>: ACL documents, conditions, origins and the evaluator
    (\<open>wac/\<close>), with a declarative specification that the evaluator refines.
  \<^item> \<open>Wac_Parser\<close>, \<open>Wac_Roundtrip\<close>: the Turtle reader and writer, and the proof that reading back what was
    written changes no decision. \<open>Wac_Resolver\<close>: the walk up the path, in the library and in the server.
  \<^item> \<open>Ldp_Http\<close>, \<open>Ldp_Graph\<close>, \<open>Ldp_Patch\<close>, \<open>Json_Patch\<close>: the LDP module (\<open>ldp.rs\<close>): slugs, \<open>Prefer\<close>,
    preconditions, ranges; graphs, N-Triples, containers; N3, SPARQL and JSON patches. The keyword search of
    an N3 patch is shown to find the blocks of every document without nested braces.
  \<^item> \<open>Nip98\<close>: NIP-98 tokens and the dispatcher over self-signed proofs (\<open>auth/\<close>).
  \<^item> \<open>Lru\<close>: the interface \<open>lru_cache\<close> and a recency list that provides it. Its clients are \<open>Replay\<close>
    (\<open>oidc/replay.rs\<close>) and \<open>Rate_Limit\<close> (\<open>security/rate_limit.rs\<close>): identifiers are accepted once per window,
    no window exceeds its limit, and a refused key is let through after the time it was told.
  \<^item> \<open>Oidc\<close>: Solid-OIDC (\<open>oidc/mod.rs\<close>): what an accepted proof and token are bound to, over runs of requests.
  \<^item> \<open>Dotfile\<close>, \<open>Cors\<close>, \<open>Ssrf\<close>: the guards under \<open>security/\<close> and the counters of \<open>metrics.rs\<close>.
  \<^item> \<open>Multitenant\<close>: tenancy by path and by subdomain, with the resolver trait as the contract \<open>pod_resolver\<close>.
  \<^item> \<open>Interop\<close>: the well-known documents (\<open>interop.rs\<close>).
  \<^item> \<open>Server\<close>, \<open>Server_Safety\<close>: the handlers and the application (\<open>solid-pod-rs-server/src/lib.rs\<close>), and what
    holds of every request: the storage changes only where the effective ACL grants it, after an error
    answer it is unchanged or as one failed storage operation left it, and what was put is what is got.
    The did:nostr route (a compile-time feature), percent-decoding before the route match and the Debug
    text of a 415 answer are left out.
  \<^item> \<open>Webhook_Signing\<close> (\<open>notifications/signing.rs\<close>): message signatures; what is signed verifies, and what
    verifies was signed. \<open>Notifications\<close> (\<open>notifications/mod.rs\<close>): the contract \<open>notification_backend\<close> with its
    three providers, the webhook retry loop with its bounds, and the circuit breaker.
  \<^item> \<open>Legacy_Notifications\<close> (\<open>notifications/legacy.rs\<close>, \<open>handlers/legacy_notifications.rs\<close>): the \<open>solid-0.1\<close>
    channel, the driver on any interleaving of its inputs, and the session as a step relation whose
    reachable states keep the limits and publish only what may be read.
  \<^item> \<open>Nostr_Relay\<close> (\<open>solid-pod-rs-nostr/src/relay.rs\<close>, \<open>ws.rs\<close>): the store contract \<open>event_store\<close> and the in-memory
    store, ingestion and history, and the socket loop: what the relay stores and what a client receives.
  \<^item> \<open>Idp_Stores\<close> (\<open>solid-pod-rs-idp/src\<close>: \<open>session.rs\<close>, \<open>user_store.rs\<close>, \<open>invites.rs\<close>, \<open>jwks.rs\<close>, \<open>registration.rs\<close>): the
    stores of the identity provider, the contract \<open>user_directory\<close>, and key rotation. \<open>Idp_Provider\<close>
    (\<open>provider.rs\<close>, \<open>tokens.rs\<close>, \<open>discovery.rs\<close>, \<open>credentials.rs\<close>, \<open>error.rs\<close>): the code flow as a step relation,
    whose invariant traces every code to a granted request; the tokens it issues verify; password
    guesses are bounded through the rate limiter.
  \<^item> \<open>Webid\<close> (\<open>webid.rs\<close>): profile pages and the discovery of issuers in them. \<open>Provision\<close> (\<open>provision.rs\<close>): the
    layout of a fresh pod over the storage contract, the access its type index really gives, and the
    quota tracker with its atomic steps.
  \<^item> \<open>Ap_Store\<close>, \<open>Ap_Signature\<close>, \<open>Ap_Federation\<close>, \<open>Ap_Delivery\<close> (\<open>solid-pod-rs-activitypub/src\<close>): the SQLite tables and
    their statements, each of which the database may refuse; HTTP signatures, with what a verified request
    is bound to; inbox and outbox; the delivery worker as a client of the contract \<open>delivery_queue\<close>, whose
    potential bounds its requests.
  \<^item> \<open>Git_Service\<close> (\<open>solid-pod-rs-git/src\<close>): the path guard on top of the path model of \<open>File_System\<close>, authorisation
    through \<open>Nip98\<close>, and the effects of a request, that is the commands it runs; pushes are authenticated,
    repositories lie below the root, and the response of the CGI program survives.
  \<^item> \<open>Float_Round\<close>: binary64 rounding. \<open>Config_Schema\<close>, \<open>Config_Sources\<close>, \<open>Config_Loader\<close> (\<open>config/schema.rs\<close>,
    \<open>sources.rs\<close>, \<open>loader.rs\<close>, and the start of \<open>main.rs\<close>): the snapshot and its JSON form with their round trip, the
    layers and their merge, which is described by what it says at each path, and the settings the server starts with.

  \<^bold>\<open>Loops and bounds.\<close> Loops are structural recursion or \<open>function\<close> with a measure: the ACL walk and the
  scanners shorten their input, scrubbing ends because a replacement that changes a string shortens
  it, and directory sizes follow the tree. \<open>str::replace\<close> runs on fuel equal to the length of its input,
  and each step consumes a byte. The size and depth limits of the sources are kept as they are.

  \<^bold>\<open>Not modelled.\<close> Content negotiation by quality values (floating point), the file watcher, logging,
  command-line parsing, the JWKS fetcher, the
  passkey and Schnorr sign-in of the identity provider, the did:nostr resolver, did:key, and the
  operator subcommands of the command line.
\<close>

end
